(* ===== verification/Relais_Prelude.thy ===== *)
theory Relais_Prelude
  imports Main "HOL-Library.Sublist"
begin

text \<open>
  What every component shares: Go strings and byte slices (a \<^typ>\<open>string\<close> is a list of bytes,
  as a Go \<^verbatim>\<open>string\<close> is), the functions of the packages \<^verbatim>\<open>strings\<close> and \<^verbatim>\<open>bytes\<close> that the
  sources call, order-preserving de-duplication, results of fallible code as \<open>'e + 'a\<close>, and the
  generic lemmas on them. The collections \<open>go_simps\<close>, \<open>go_defs\<close> and \<open>go_splits\<close> carry the proofs of the
  component theories.
\<close>

named_theorems go_simps "rewrite rules for the string functions of the Go library"
named_theorems go_defs "definitions of the string functions of the Go library, for evaluation"
named_theorems go_splits "case splits for fallible code"

section \<open>Results of fallible code\<close>

text \<open>\<open>Inl\<close> is the error a Go function returns, \<open>Inr\<close> its value next to a nil error.\<close>

type_synonym ('e, 'a) result = "'e + 'a"

abbreviation ok :: "('e, 'a) result \<Rightarrow> bool" where
  "ok r \<equiv> \<not> isl r"

definition map_err :: "('e \<Rightarrow> 'f) \<Rightarrow> ('e, 'a) result \<Rightarrow> ('f, 'a) result" where
  "map_err f r = (case r of Inl e \<Rightarrow> Inl (f e) | Inr x \<Rightarrow> Inr x)"

section \<open>Bytes and characters\<close>

abbreviation ord :: "char \<Rightarrow> nat" where
  "ord c \<equiv> of_char c"

definition is_ascii :: "char \<Rightarrow> bool" where
  "is_ascii c \<longleftrightarrow> ord c < 128"

definition is_lower :: "char \<Rightarrow> bool" where
  "is_lower c \<longleftrightarrow> 97 \<le> ord c \<and> ord c \<le> 122"

definition is_upper :: "char \<Rightarrow> bool" where
  "is_upper c \<longleftrightarrow> 65 \<le> ord c \<and> ord c \<le> 90"

definition is_digit :: "char \<Rightarrow> bool" where
  "is_digit c \<longleftrightarrow> 48 \<le> ord c \<and> ord c \<le> 57"

definition ascii_lower :: "char \<Rightarrow> char" where
  "ascii_lower c = (if is_upper c then char_of (ord c + 32) else c)"

text \<open>
  \<^verbatim>\<open>strings.ToLower\<close>: bytewise on ASCII strings; on other strings the Unicode tables of the
  standard library decide, which are the argument \<open>u\<close>.
\<close>

definition to_lower :: "(string \<Rightarrow> string) \<Rightarrow> string \<Rightarrow> string" where
  "to_lower u s = (if list_all is_ascii s then map ascii_lower s else u s)"

section \<open>The functions of package strings\<close>

text \<open>
  \<^verbatim>\<open>strings.TrimSpace\<close> removes the Unicode white space at both ends. On bytes: the six ASCII
  characters and the UTF-8 encodings of U+0085, U+00A0, U+1680, U+2000 to U+200A, U+2028, U+2029,
  U+202F, U+205F and U+3000. \<open>space_len\<close> is the number of bytes of the white space a string
  starts with, \<open>space_len_rev\<close> that of the white space a reversed string starts with.
\<close>

definition ascii_space :: "char \<Rightarrow> bool" where
  "ascii_space c \<longleftrightarrow> (9 \<le> ord c \<and> ord c \<le> 13) \<or> ord c = 32"

definition space2 :: "char \<Rightarrow> char \<Rightarrow> bool" where
  "space2 c d \<longleftrightarrow> ord c = 194 \<and> (ord d = 133 \<or> ord d = 160)"

definition space3 :: "char \<Rightarrow> char \<Rightarrow> char \<Rightarrow> bool" where
  "space3 c d e \<longleftrightarrow>
     (ord c = 225 \<and> ord d = 154 \<and> ord e = 128) \<or>
     (ord c = 226 \<and> ord d = 128 \<and>
        ((128 \<le> ord e \<and> ord e \<le> 138) \<or> ord e = 168 \<or> ord e = 169 \<or> ord e = 175)) \<or>
     (ord c = 226 \<and> ord d = 129 \<and> ord e = 159) \<or>
     (ord c = 227 \<and> ord d = 128 \<and> ord e = 128)"

fun space_len :: "string \<Rightarrow> nat" where
  "space_len [] = 0"
| "space_len [c] = (if ascii_space c then 1 else 0)"
| "space_len [c, d] = (if ascii_space c then 1 else if space2 c d then 2 else 0)"
| "space_len (c # d # e # _) =
     (if ascii_space c then 1 else if space2 c d then 2 else if space3 c d e then 3 else 0)"

fun space_len_rev :: "string \<Rightarrow> nat" where
  "space_len_rev [] = 0"
| "space_len_rev [c] = (if ascii_space c then 1 else 0)"
| "space_len_rev [c, d] = (if ascii_space c then 1 else if space2 d c then 2 else 0)"
| "space_len_rev (c # d # e # _) =
     (if ascii_space c then 1 else if space2 d c then 2 else if space3 e d c then 3 else 0)"

function strip :: "(string \<Rightarrow> nat) \<Rightarrow> string \<Rightarrow> string" where
  "strip f s = (if s = [] \<or> f s = 0 then s else strip f (drop (f s) s))"
  by pat_completeness auto
termination
  by (relation "measure (\<lambda>(f, s). length s)") auto

declare strip.simps [simp del]

definition trim_left :: "string \<Rightarrow> string" where
  "trim_left s = strip space_len s"

definition trim_right :: "string \<Rightarrow> string" where
  "trim_right s = rev (strip space_len_rev (rev s))"

definition trim_space :: "string \<Rightarrow> string" where
  "trim_space s = trim_right (trim_left s)"

definition has_prefix :: "string \<Rightarrow> string \<Rightarrow> bool" where
  "has_prefix s p \<longleftrightarrow> take (length p) s = p"

definition has_suffix :: "string \<Rightarrow> string \<Rightarrow> bool" where
  "has_suffix s t \<longleftrightarrow> has_prefix (rev s) (rev t)"

definition trim_suffix :: "string \<Rightarrow> string \<Rightarrow> string" where
  "trim_suffix s t = (if has_suffix s t then take (length s - length t) s else s)"

definition cut_prefix :: "string \<Rightarrow> string \<Rightarrow> string \<times> bool" where
  "cut_prefix s p = (if has_prefix s p then (drop (length p) s, True) else (s, False))"

definition contains_any :: "string \<Rightarrow> string \<Rightarrow> bool" where
  "contains_any s cs \<longleftrightarrow> list_ex (\<lambda>c. c \<in> set cs) s"

fun contains_sub :: "string \<Rightarrow> string \<Rightarrow> bool" where
  "contains_sub [] t = (t = [])"
| "contains_sub (c # cs) t = (has_prefix (c # cs) t \<or> contains_sub cs t)"

fun last_index :: "char \<Rightarrow> string \<Rightarrow> nat option" where
  "last_index c [] = None"
| "last_index c (x # xs) =
     (case last_index c xs of
        Some i \<Rightarrow> Some (Suc i)
      | None \<Rightarrow> if x = c then Some 0 else None)"

fun cut :: "char \<Rightarrow> string \<Rightarrow> (string \<times> string) option" where
  "cut c [] = None"
| "cut c (x # xs) =
     (if x = c then Some ([], xs) else map_option (\<lambda>(a, b). (x # a, b)) (cut c xs))"

fun split_on :: "char \<Rightarrow> string \<Rightarrow> string list" where
  "split_on c [] = [[]]"
| "split_on c (x # xs) =
     (if x = c then [] # split_on c xs
      else (case split_on c xs of [] \<Rightarrow> [[x]] | w # ws \<Rightarrow> (x # w) # ws))"

fun join_with :: "string \<Rightarrow> string list \<Rightarrow> string" where
  "join_with sep [] = []"
| "join_with sep [w] = w"
| "join_with sep (w # v # ws) = w @ sep @ join_with sep (v # ws)"

text \<open>De-duplication by key, first occurrence kept, as the loops over a Go \<^verbatim>\<open>seen\<close> map do.\<close>

fun nub_by :: "('a \<Rightarrow> 'k) \<Rightarrow> 'k list \<Rightarrow> 'a list \<Rightarrow> 'a list" where
  "nub_by k seen [] = []"
| "nub_by k seen (x # xs) =
     (if k x \<in> set seen then nub_by k seen xs else x # nub_by k (k x # seen) xs)"

text \<open>\<^verbatim>\<open>%d\<close>.\<close>

fun show_nat :: "nat \<Rightarrow> string" where
  "show_nat n = (if n < 10 then [char_of (48 + n)] else show_nat (n div 10) @ [char_of (48 + n mod 10)])"

definition show_int :: "int \<Rightarrow> string" where
  "show_int i = (if i < 0 then CHR ''-'' # show_nat (nat (- i)) else show_nat (nat i))"

declare show_nat.simps [simp del]

section \<open>Lemmas on characters\<close>

lemma ord_char_of [simp]: "ord (char_of (n :: nat)) = n mod 256"
  by (rule of_char_of)

lemma ord_less_256 [simp]: "ord c < 256"
proof -
  obtain n where "c = char_of (n :: nat)" by (metis char_of_char)
  then show ?thesis by simp
qed

lemma ascii_lower_idem [simp]: "ascii_lower (ascii_lower c) = ascii_lower c"
  by (auto simp: ascii_lower_def is_upper_def)

lemma is_upper_ascii_lower [simp]: "\<not> is_upper (ascii_lower c)"
  by (auto simp: ascii_lower_def is_upper_def)

lemma ascii_lower_id [simp]: "\<not> is_upper c \<Longrightarrow> ascii_lower c = c"
  by (simp add: ascii_lower_def)

lemma is_lower_ascii_lower [simp]: "is_lower (ascii_lower c) \<longleftrightarrow> is_lower c \<or> is_upper c"
  by (auto simp: ascii_lower_def is_upper_def is_lower_def)

lemma is_digit_ascii_lower [simp]: "is_digit (ascii_lower c) = is_digit c"
  by (auto simp: ascii_lower_def is_upper_def is_digit_def)

lemma is_ascii_ascii_lower [simp]: "is_ascii (ascii_lower c) = is_ascii c"
  by (auto simp: ascii_lower_def is_upper_def is_ascii_def)

lemma class_disjoint [simp]:
  "is_lower c \<Longrightarrow> \<not> is_upper c" "is_digit c \<Longrightarrow> \<not> is_upper c"
  "is_lower c \<Longrightarrow> \<not> is_digit c" "is_lower c \<Longrightarrow> is_ascii c" "is_digit c \<Longrightarrow> is_ascii c"
  "is_upper c \<Longrightarrow> is_ascii c"
  by (auto simp: is_lower_def is_upper_def is_digit_def is_ascii_def)

lemma class_not_space [simp]:
  "is_lower c \<Longrightarrow> \<not> ascii_space c" "is_digit c \<Longrightarrow> \<not> ascii_space c" "is_upper c \<Longrightarrow> \<not> ascii_space c"
  by (auto simp: is_lower_def is_upper_def is_digit_def ascii_space_def)

lemma space2_not_ascii [simp]:
  "is_ascii c \<Longrightarrow> \<not> space2 c d" "is_ascii d \<Longrightarrow> \<not> space2 c d"
  by (auto simp: space2_def is_ascii_def)

lemma space3_not_ascii [simp]:
  "is_ascii c \<Longrightarrow> \<not> space3 c d e" "is_ascii d \<Longrightarrow> \<not> space3 c d e" "is_ascii e \<Longrightarrow> \<not> space3 c d e"
  by (auto simp: space3_def is_ascii_def)

lemma to_lower_ascii [go_simps]: "list_all is_ascii s \<Longrightarrow> to_lower u s = map ascii_lower s"
  by (simp add: to_lower_def)

lemma map_ascii_lower_id:
  "\<forall>c \<in> set s. \<not> is_upper c \<Longrightarrow> map ascii_lower s = s"
  by (induction s) auto

section \<open>Lemmas on trimming\<close>

lemma space_len_graph: "is_ascii c \<Longrightarrow> space_len (c # cs) = (if ascii_space c then 1 else 0)"
  by (cases "c # cs" rule: space_len.cases) auto

lemma space_len_rev_graph: "is_ascii c \<Longrightarrow> space_len_rev (c # cs) = (if ascii_space c then 1 else 0)"
  by (cases "c # cs" rule: space_len_rev.cases) auto

lemma strip_stop: "f s = 0 \<Longrightarrow> strip f s = s"
  by (subst strip.simps) simp

lemma strip_Nil [simp]: "strip f [] = []"
  by (subst strip.simps) simp

lemma strip_suffix: "\<exists>p. s = p @ strip f s"
proof (induction f s rule: strip.induct)
  case (1 f s)
  show ?case
  proof (cases "s = [] \<or> f s = 0")
    case True
    then show ?thesis by (auto simp: strip.simps [of f s])
  next
    case False
    then have "\<exists>p. drop (f s) s = p @ strip f (drop (f s) s)"
      by (rule 1)
    then obtain p where p: "drop (f s) s = p @ strip f (drop (f s) s)" ..
    have "s = take (f s) s @ drop (f s) s" by simp
    also have "\<dots> = (take (f s) s @ p) @ strip f (drop (f s) s)" using p by simp
    finally show ?thesis using False by (metis strip.simps)
  qed
qed

lemma strip_stops: "strip f s = [] \<or> f (strip f s) = 0"
proof (induction f s rule: strip.induct)
  case (1 f s)
  then show ?case
    by (cases "s = [] \<or> f s = 0") (auto simp: strip.simps [of f s])
qed

lemma length_strip [simp]: "length (strip f s) \<le> length s"
  using strip_suffix [of s f] by (metis le_add2 length_append)

lemma set_strip: "set (strip f s) \<subseteq> set s"
  using strip_suffix [of s f] by (metis Un_upper2 set_append)

lemma strip_idem [simp]: "strip f (strip f s) = strip f s"
proof -
  have "strip f s = [] \<or> f (strip f s) = 0" by (rule strip_stops)
  then show ?thesis
    by (auto intro: strip_stop)
qed

lemma set_trim_space: "set (trim_space s) \<subseteq> set s"
  unfolding trim_space_def trim_left_def trim_right_def
  using set_strip [of space_len s] set_strip [of space_len_rev "rev (strip space_len s)"] by auto

lemma length_trim_space [simp]: "length (trim_space s) \<le> length s"
  unfolding trim_space_def trim_left_def trim_right_def
  by (metis length_rev length_strip le_trans)

text \<open>
  A string of ASCII bytes whose first and last bytes are not white space is its own trimmed form.
\<close>

lemma trim_space_id:
  assumes "s \<noteq> []" "is_ascii (hd s)" "\<not> ascii_space (hd s)"
    "is_ascii (last s)" "\<not> ascii_space (last s)"
  shows "trim_space s = s"
proof -
  have "space_len s = 0"
    using assms(1-3) by (cases s) (simp_all add: space_len_graph)
  then have left: "trim_left s = s"
    by (simp add: trim_left_def strip_stop)
  obtain c cs where rv: "rev s = c # cs" using assms(1) by (cases "rev s") auto
  then have "c = last s" by (metis hd_rev list.sel(1))
  then have "space_len_rev (rev s) = 0"
    unfolding rv using assms(4,5) by (simp add: space_len_rev_graph)
  then show ?thesis
    by (simp add: trim_space_def left trim_right_def strip_stop)
qed

lemma trim_space_all_id:
  assumes "list_all (\<lambda>c. is_ascii c \<and> \<not> ascii_space c) s"
  shows "trim_space s = s"
proof (cases "s = []")
  case True
  then show ?thesis
    by (simp add: trim_space_def trim_left_def trim_right_def)
next
  case False
  then show ?thesis
    using assms by (intro trim_space_id) (auto simp: list_all_iff)
qed

lemma trim_space_Nil [simp]: "trim_space [] = []"
  by (rule trim_space_all_id) simp

section \<open>Lemmas on searching and splitting\<close>

lemma has_prefix_iff [go_simps]: "has_prefix s p \<longleftrightarrow> (\<exists>r. s = p @ r)"
  unfolding has_prefix_def by (metis append_eq_conv_conj append_take_drop_id)

lemma has_suffix_iff [go_simps]: "has_suffix s t \<longleftrightarrow> (\<exists>r. s = r @ t)"
proof -
  have "has_suffix s t \<longleftrightarrow> (\<exists>r. rev s = rev t @ r)"
    by (simp add: has_suffix_def has_prefix_iff)
  also have "\<dots> \<longleftrightarrow> (\<exists>r. s = rev r @ t)"
    by (metis rev_append rev_rev_ident)
  also have "\<dots> \<longleftrightarrow> (\<exists>r. s = r @ t)"
    by (metis rev_rev_ident)
  finally show ?thesis .
qed

lemma contains_any_iff [go_simps]: "contains_any s cs \<longleftrightarrow> set s \<inter> set cs \<noteq> {}"
  by (auto simp: contains_any_def list_ex_iff)

lemma contains_sub_iff: "contains_sub s t \<longleftrightarrow> (\<exists>a b. s = a @ t @ b)"
proof (induction s)
  case Nil
  then show ?case by auto
next
  case (Cons c cs)
  show ?case
  proof
    assume "contains_sub (c # cs) t"
    then consider "has_prefix (c # cs) t" | "contains_sub cs t" by auto
    then show "\<exists>a b. c # cs = a @ t @ b"
    proof cases
      case 1
      then show ?thesis by (metis append_Nil has_prefix_iff)
    next
      case 2
      then show ?thesis using Cons.IH by (metis append_Cons)
    qed
  next
    assume "\<exists>a b. c # cs = a @ t @ b"
    then obtain a b where ab: "c # cs = a @ t @ b" by blast
    show "contains_sub (c # cs) t"
    proof (cases a)
      case Nil
      then show ?thesis using ab by (metis append_Nil contains_sub.simps(2) has_prefix_iff)
    next
      case (Cons x xs)
      then show ?thesis using ab Cons.IH by auto
    qed
  qed
qed

lemma contains_sub_map:
  assumes "contains_sub (map f s) t" and "\<And>c. f c \<in> set t \<Longrightarrow> f c = c"
  shows "contains_sub s t"
proof -
  obtain a b where ab: "map f s = a @ t @ b" using assms(1) contains_sub_iff by auto
  then obtain a' t' b' where s: "s = a' @ t' @ b'" and t: "t = map f t'"
    by (metis map_eq_append_conv)
  have "map f t' = t'"
    using t assms(2) by (intro map_idI) auto
  then show ?thesis using s t contains_sub_iff by auto
qed

lemma last_index_None: "last_index c s = None \<longleftrightarrow> c \<notin> set s"
  by (induction s) (auto split: option.splits)

lemma last_index_Some:
  "last_index c s = Some i \<Longrightarrow>
     s = take i s @ c # drop (Suc i) s \<and> c \<notin> set (drop (Suc i) s) \<and> i < length s"
  by (induction s arbitrary: i) (auto split: option.splits if_splits simp: last_index_None)

lemma last_index_append:
  "c \<notin> set d \<Longrightarrow> last_index c (l @ c # d) = Some (length l)"
proof (induction l)
  case Nil
  then show ?case by (auto simp: last_index_None split: option.splits)
next
  case (Cons x xs)
  then show ?case by simp
qed

lemma cut_None: "cut c s = None \<longleftrightarrow> c \<notin> set s"
  by (induction s) auto

lemma cut_Some: "cut c s = Some (a, b) \<Longrightarrow> s = a @ c # b \<and> c \<notin> set a"
  by (induction s arbitrary: a) (auto split: if_splits)

lemma cut_append: "c \<notin> set a \<Longrightarrow> cut c (a @ c # b) = Some (a, b)"
  by (induction a) auto

lemma split_on_ne [simp]: "split_on c s \<noteq> []"
  by (induction s) (auto split: list.splits)

lemma join_split_on: "join_with [c] (split_on c s) = s"
proof (induction s)
  case Nil
  then show ?case by simp
next
  case (Cons x xs)
  obtain w ws where w: "split_on c xs = w # ws" by (cases "split_on c xs") auto
  then show ?case using Cons by (cases ws) auto
qed

lemma split_on_fields: "w \<in> set (split_on c s) \<Longrightarrow> c \<notin> set w"
  by (induction s arbitrary: w) (auto split: if_splits list.splits)

lemma set_split_on: "set s \<subseteq> insert c (\<Union>w \<in> set (split_on c s). set w)"
proof (induction s)
  case (Cons x xs)
  then show ?case by (cases "split_on c xs") auto
qed simp

lemma set_split_on_mem: "w \<in> set (split_on c s) \<Longrightarrow> set w \<subseteq> set s"
proof (induction s arbitrary: w)
  case (Cons x xs)
  obtain v vs where v: "split_on c xs = v # vs" by (cases "split_on c xs") auto
  then show ?case using Cons by (fastforce split: if_splits)
qed simp

lemma split_on_append: "split_on c (a @ c # b) = split_on c a @ split_on c b"
proof (induction a)
  case Nil
  then show ?case by simp
next
  case (Cons x xs)
  then show ?case by (cases "split_on c xs") auto
qed

lemma hd_split_on_Nil: "s \<noteq> [] \<Longrightarrow> hd (split_on c s) = [] \<longleftrightarrow> hd s = c"
  by (cases s) (auto split: list.splits)

lemma last_split_on: "s \<noteq> [] \<Longrightarrow> last s \<noteq> c \<Longrightarrow>
    last (split_on c s) \<noteq> [] \<and> last (last (split_on c s)) = last s"
proof (induction s)
  case (Cons x xs)
  show ?case
  proof (cases "xs = []")
    case True
    then show ?thesis using Cons.prems by auto
  next
    case False
    obtain v vs where v: "split_on c xs = v # vs" by (cases "split_on c xs") auto
    then show ?thesis using Cons False by auto
  qed
qed simp

section \<open>Lemmas on de-duplication\<close>

lemma nub_by_keys: "k ` set (nub_by k seen xs) = k ` set xs - set seen"
  by (induction k seen xs rule: nub_by.induct) auto

lemma nub_by_distinct: "distinct (map k (nub_by k seen xs)) \<and> set (map k (nub_by k seen xs)) \<inter> set seen = {}"
proof (induction k seen xs rule: nub_by.induct)
  case (2 k seen x xs)
  then show ?case by auto
qed simp

lemma nub_by_subset: "set (nub_by k seen xs) \<subseteq> set xs"
  by (induction k seen xs rule: nub_by.induct) auto

lemma length_nub_by: "length (nub_by k seen xs) \<le> length xs"
  by (induction k seen xs rule: nub_by.induct) auto

lemma nub_by_id: "distinct (map k xs) \<Longrightarrow> set (map k xs) \<inter> set seen = {} \<Longrightarrow> nub_by k seen xs = xs"
  by (induction k seen xs rule: nub_by.induct) auto

lemmas nub_props = nub_by_keys nub_by_distinct nub_by_subset length_nub_by

declare sum.splits [go_splits] option.splits [go_splits] if_splits [go_splits]
  list.splits [go_splits] prod.splits [go_splits]

declare has_prefix_def [go_defs] has_suffix_def [go_defs] trim_suffix_def [go_defs]
  cut_prefix_def [go_defs] contains_any_def [go_defs] trim_space_def [go_defs]
  trim_left_def [go_defs] trim_right_def [go_defs] to_lower_def [go_defs]
  ascii_lower_def [go_defs] is_ascii_def [go_defs] is_lower_def [go_defs] is_upper_def [go_defs]
  is_digit_def [go_defs] ascii_space_def [go_defs] space2_def [go_defs] space3_def [go_defs]
  strip.simps [go_defs]

lemma find_SomeD: "find P xs = Some x \<Longrightarrow> x \<in> set xs \<and> P x"
  by (induction xs) (auto split: if_splits)

lemma find_NoneD: "find P xs = None \<Longrightarrow> x \<in> set xs \<Longrightarrow> \<not> P x"
  by (auto simp: find_None_iff)

lemma find_unique:
  assumes "c \<in> set xs" "P c" "\<And>x. x \<in> set xs \<Longrightarrow> P x \<Longrightarrow> x = c"
  shows "find P xs = Some c"
proof (cases "find P xs")
  case None
  with assms(1,2) show ?thesis by (auto simp: find_None_iff)
next
  case (Some y)
  with assms(3) find_SomeD [OF Some] show ?thesis by blast
qed

lemma distinct_sorted_wrt: "distinct (map f xs) = sorted_wrt (\<lambda>a b. f a \<noteq> f b) xs"
  by (induction xs) auto

text \<open>Different numbers have different texts.\<close>

lemma char_of_inj: "char_of (a :: nat) = char_of b \<Longrightarrow> a < 256 \<Longrightarrow> b < 256 \<Longrightarrow> a = b"
  by (metis mod_less ord_char_of)

lemma show_nat_eq [simp]: "show_nat m = show_nat n \<longleftrightarrow> m = n"
proof (induction m arbitrary: n rule: less_induct)
  case (less m)
  have digit: "char_of (48 + a) = char_of (48 + b) \<longleftrightarrow> a = b" if "a < 10" "b < 10" for a b :: nat
    using char_of_inj [of "48 + a" "48 + b"] that by auto
  have nonempty: "show_nat k \<noteq> []" for k by (subst show_nat.simps) simp
  show ?case
  proof (cases "m < 10 \<or> n < 10")
    case True
    then show ?thesis using digit nonempty [THEN not_sym] nonempty by (subst (1 2) show_nat.simps) auto
  next
    case False
    then have "show_nat m = show_nat n \<longleftrightarrow> show_nat (m div 10) = show_nat (n div 10) \<and> m mod 10 = n mod 10"
      using digit [of "m mod 10" "n mod 10"] by (subst (1 2) show_nat.simps) simp
    also have "\<dots> \<longleftrightarrow> m div 10 = n div 10 \<and> m mod 10 = n mod 10" using less.IH [of "m div 10"] False by simp
    also have "\<dots> \<longleftrightarrow> m = n" by (metis div_mult_mod_eq)
    finally show ?thesis .
  qed
qed

end
