(* ===== verification/From_Pattern.thy ===== *)
theory From_Pattern
  imports Relais_Prelude
begin

text \<open>
  The address allow-list grammar: \<^verbatim>\<open>src/internal/frompattern/frompattern.go\<close>.

  An address is split and normalised by \<open>ParseAddress\<close>, a pattern by \<open>frompattern_Parse\<close>, a set of patterns by
  \<open>NewSet\<close>; \<open>Matches\<close>, \<open>Match\<close> and \<open>Allows\<close> decide. The package \<^verbatim>\<open>golang.org/x/net/idna\<close> is the
  parameter \<open>ToASCII\<close> of the record \<open>idna_lib\<close>, the Unicode lower-case tables its field \<open>unicode_lower\<close>.

  Shown here: what a parsed value looks like (\<open>local_wf\<close>, \<open>domain_wf\<close>), that the canonical text of a
  parsed value parses back to that value, that a parsed pattern satisfies the CHECK constraints
  of the database, and what the matcher accepts.
\<close>

section \<open>Externals, errors and data\<close>

record idna_lib =
  ToASCII :: "string \<Rightarrow> string option"
  unicode_lower :: "string \<Rightarrow> string"

datatype fp_kind = ErrInvalidPattern | ErrInvalidAddress

datatype fp_reason =
    EmptyAddress | AngleBrackets | WantLocalAtDomain
  | EmptyPattern | PatternTooLong | SpaceOrAngleBrackets | PartialLocalWildcard | InnerDomainWildcard
  | EmptyLocal | LocalTooLong | QuotedLocal | MisplacedDot | BadLocalRune
  | EmptyDomain | UnusableDomain | DomainTooLong | NeedsTwoLabels
  | EmptyLabel | LabelTooLong | LabelHyphen | BadLabelRune

type_synonym fp_error = "fp_kind \<times> fp_reason"

record Address =
  addr_Local :: string
  addr_Domain :: string

record Pattern =
  normalized :: string
  pat_local :: string
  localAny :: bool
  pat_domain :: string
  subdomainAny :: bool

type_synonym pattern_set = "Pattern list"

abbreviation at_sign :: char where "at_sign \<equiv> CHR ''@''"
abbreviation dot :: char where "dot \<equiv> CHR ''.''"
abbreviation hyphen :: char where "hyphen \<equiv> CHR ''-''"
abbreviation star :: char where "star \<equiv> CHR ''*''"
abbreviation dquote :: char where "dquote \<equiv> CHR 0x22"

definition wildcard :: string where "wildcard = [star]"
definition subdomainPrefix :: string where "subdomainPrefix = [star, dot]"
definition maxLocalLength :: nat where "maxLocalLength = 64"
definition maxDomainLength :: nat where "maxDomainLength = 253"
definition maxLabelLength :: nat where "maxLabelLength = 63"
definition maxPatternLength :: nat where "maxPatternLength = 320"

section \<open>Normalisation of the two halves of an address\<close>

definition isAllowedLocalRune :: "char \<Rightarrow> bool" where
  "isAllowedLocalRune r \<longleftrightarrow>
     is_lower r \<or> is_upper r \<or> is_digit r \<or>
     ord r \<in> {33, 35, 36, 37, 38, 39, 42, 43, 45, 47, 61, 63, 94, 95, 96, 123, 124, 125, 126, 46}"

definition normalizeLocal :: "idna_lib \<Rightarrow> string \<Rightarrow> fp_kind \<Rightarrow> (fp_error, string) result" where
  "normalizeLocal x raw kind =
     (let local = trim_space raw in
      if local = [] then Inl (kind, EmptyLocal)
      else if length local > maxLocalLength then Inl (kind, LocalTooLong)
      else if has_prefix local [dquote] \<or> has_suffix local [dquote] then Inl (kind, QuotedLocal)
      else if has_prefix local [dot] \<or> has_suffix local [dot] \<or> contains_sub local [dot, dot]
        then Inl (kind, MisplacedDot)
      else if \<not> list_all isAllowedLocalRune local then Inl (kind, BadLocalRune)
      else Inr (to_lower (unicode_lower x) local))"

definition isLabelRune :: "char \<Rightarrow> bool" where
  "isLabelRune r \<longleftrightarrow> is_lower r \<or> is_digit r \<or> r = hyphen"

definition checkLabel :: "string \<Rightarrow> fp_kind \<Rightarrow> fp_error option" where
  "checkLabel label kind =
     (if label = [] then Some (kind, EmptyLabel)
      else if length label > maxLabelLength then Some (kind, LabelTooLong)
      else if has_prefix label [hyphen] \<or> has_suffix label [hyphen] then Some (kind, LabelHyphen)
      else if \<not> list_all isLabelRune label then Some (kind, BadLabelRune)
      else None)"

fun checkLabels :: "string list \<Rightarrow> fp_kind \<Rightarrow> fp_error option" where
  "checkLabels [] kind = None"
| "checkLabels (l # ls) kind =
     (case checkLabel l kind of Some e \<Rightarrow> Some e | None \<Rightarrow> checkLabels ls kind)"

definition normalizeDomain :: "idna_lib \<Rightarrow> string \<Rightarrow> fp_kind \<Rightarrow> (fp_error, string) result" where
  "normalizeDomain x raw kind =
     (let domain = trim_suffix (trim_space raw) [dot] in
      if domain = [] then Inl (kind, EmptyDomain)
      else case ToASCII x (to_lower (unicode_lower x) domain) of
        None \<Rightarrow> Inl (kind, UnusableDomain)
      | Some ascii \<Rightarrow>
          if length ascii > maxDomainLength then Inl (kind, DomainTooLong)
          else let labels = split_on dot ascii in
          if length labels < 2 then Inl (kind, NeedsTwoLabels)
          else case checkLabels labels kind of
            Some e \<Rightarrow> Inl e
          | None \<Rightarrow> Inr ascii)"

definition NormalizeDomain :: "idna_lib \<Rightarrow> string \<Rightarrow> (fp_error, string) result" where
  "NormalizeDomain x raw = normalizeDomain x raw ErrInvalidAddress"

section \<open>Addresses\<close>

definition Address_String :: "Address \<Rightarrow> string" where
  "Address_String a =
     (if addr_Local a = [] \<and> addr_Domain a = [] then []
      else addr_Local a @ at_sign # addr_Domain a)"

definition Address_IsZero :: "Address \<Rightarrow> bool" where
  "Address_IsZero a \<longleftrightarrow> addr_Local a = [] \<and> addr_Domain a = []"

definition ParseAddress :: "idna_lib \<Rightarrow> string \<Rightarrow> (fp_error, Address) result" where
  "ParseAddress x raw =
     (let v = trim_space raw in
      if v = [] then Inl (ErrInvalidAddress, EmptyAddress)
      else if contains_any v ''<>'' then Inl (ErrInvalidAddress, AngleBrackets)
      else case last_index at_sign v of
        None \<Rightarrow> Inl (ErrInvalidAddress, WantLocalAtDomain)
      | Some at \<Rightarrow>
          if at = 0 \<or> at = length v - 1 then Inl (ErrInvalidAddress, WantLocalAtDomain)
          else case normalizeLocal x (take at v) ErrInvalidAddress of
            Inl e \<Rightarrow> Inl e
          | Inr local \<Rightarrow>
              (case normalizeDomain x (drop (Suc at) v) ErrInvalidAddress of
                 Inl e \<Rightarrow> Inl e
               | Inr domain \<Rightarrow> Inr \<lparr>addr_Local = local, addr_Domain = domain\<rparr>))"

section \<open>Patterns\<close>

definition pattern_spaces :: string where
  "pattern_spaces = ''<> '' @ [CHR 0x09, CHR 0x0D, CHR 0x0A]"

definition parseLocalPart :: "idna_lib \<Rightarrow> string \<Rightarrow> (fp_error, string) result" where
  "parseLocalPart x localPart =
     (if localPart = wildcard then Inr wildcard
      else if star \<in> set localPart then Inl (ErrInvalidPattern, PartialLocalWildcard)
      else normalizeLocal x localPart ErrInvalidPattern)"

definition frompattern_Parse :: "idna_lib \<Rightarrow> string \<Rightarrow> (fp_error, Pattern) result" where
  "frompattern_Parse x raw =
     (let v = trim_space raw in
      if v = [] then Inl (ErrInvalidPattern, EmptyPattern)
      else if length v > maxPatternLength then Inl (ErrInvalidPattern, PatternTooLong)
      else if contains_any v pattern_spaces then Inl (ErrInvalidPattern, SpaceOrAngleBrackets)
      else case last_index at_sign v of
        None \<Rightarrow> Inl (ErrInvalidPattern, WantLocalAtDomain)
      | Some at \<Rightarrow>
          if at = 0 \<or> at = length v - 1 then Inl (ErrInvalidPattern, WantLocalAtDomain)
          else let localPart = take at v; domainPart = drop (Suc at) v in
          case parseLocalPart x localPart of
            Inl e \<Rightarrow> Inl e
          | Inr local \<Rightarrow>
              (case cut_prefix domainPart subdomainPrefix of (rest, sub) \<Rightarrow>
                 if star \<in> set rest then Inl (ErrInvalidPattern, InnerDomainWildcard)
                 else case normalizeDomain x rest ErrInvalidPattern of
                   Inl e \<Rightarrow> Inl e
                 | Inr domain \<Rightarrow>
                     Inr \<lparr>normalized = local @ at_sign # (if sub then subdomainPrefix else []) @ domain,
                          pat_local = local, localAny = (localPart = wildcard),
                          pat_domain = domain, subdomainAny = sub\<rparr>))"

definition Pattern_String :: "Pattern \<Rightarrow> string" where
  "Pattern_String p = normalized p"

definition Pattern_IsZero :: "Pattern \<Rightarrow> bool" where
  "Pattern_IsZero p \<longleftrightarrow> normalized p = []"

definition Matches :: "Pattern \<Rightarrow> Address \<Rightarrow> bool" where
  "Matches p addr \<longleftrightarrow>
     (if Pattern_IsZero p \<or> Address_IsZero addr then False
      else if \<not> localAny p \<and> pat_local p \<noteq> addr_Local addr then False
      else if subdomainAny p then
        length (addr_Domain addr) > length (pat_domain p) + 1 \<and>
        has_suffix (addr_Domain addr) (dot # pat_domain p)
      else addr_Domain addr = pat_domain p)"

section \<open>Sets of patterns\<close>

text \<open>The error of a set names the position of the pattern, counted from 1, and its text.\<close>

fun NewSet_loop :: "idna_lib \<Rightarrow> nat \<Rightarrow> string list \<Rightarrow> string list \<Rightarrow> (nat \<times> string \<times> fp_error, pattern_set) result" where
  "NewSet_loop x i seen [] = Inr []"
| "NewSet_loop x i seen (item # raw) =
     (case frompattern_Parse x item of
        Inl e \<Rightarrow> Inl (Suc i, item, e)
      | Inr p \<Rightarrow>
          if normalized p \<in> set seen then NewSet_loop x (Suc i) seen raw
          else (case NewSet_loop x (Suc i) (normalized p # seen) raw of
                  Inl e \<Rightarrow> Inl e
                | Inr ps \<Rightarrow> Inr (p # ps)))"

definition NewSet :: "idna_lib \<Rightarrow> string list \<Rightarrow> (nat \<times> string \<times> fp_error, pattern_set) result" where
  "NewSet x raw = NewSet_loop x 0 [] raw"

definition Set_Len :: "pattern_set \<Rightarrow> nat" where
  "Set_Len s = length s"

fun Match :: "pattern_set \<Rightarrow> Address \<Rightarrow> Pattern option" where
  "Match [] addr = None"
| "Match (p # ps) addr = (if Matches p addr then Some p else Match ps addr)"

definition Allows :: "pattern_set \<Rightarrow> Address \<Rightarrow> bool" where
  "Allows s addr \<longleftrightarrow> Match s addr \<noteq> None"

section \<open>What the normal forms look like\<close>

definition local_wf :: "string \<Rightarrow> bool" where
  "local_wf l \<longleftrightarrow> l \<noteq> [] \<and> length l \<le> 64 \<and> list_all (\<lambda>c. isAllowedLocalRune c \<and> \<not> is_upper c) l \<and>
     hd l \<noteq> dot \<and> last l \<noteq> dot \<and> \<not> contains_sub l [dot, dot]"

definition label_wf :: "string \<Rightarrow> bool" where
  "label_wf l \<longleftrightarrow> l \<noteq> [] \<and> length l \<le> 63 \<and> list_all isLabelRune l \<and> hd l \<noteq> hyphen \<and> last l \<noteq> hyphen"

definition domain_wf :: "string \<Rightarrow> bool" where
  "domain_wf d \<longleftrightarrow> length d \<le> 253 \<and> 2 \<le> length (split_on dot d) \<and> list_all label_wf (split_on dot d)"

definition addr_wf :: "Address \<Rightarrow> bool" where
  "addr_wf a \<longleftrightarrow> local_wf (addr_Local a) \<and> domain_wf (addr_Domain a)"

definition pat_wf :: "Pattern \<Rightarrow> bool" where
  "pat_wf p \<longleftrightarrow>
     (if localAny p then pat_local p = wildcard else local_wf (pat_local p) \<and> star \<notin> set (pat_local p)) \<and>
     domain_wf (pat_domain p) \<and>
     normalized p = pat_local p @ at_sign # (if subdomainAny p then subdomainPrefix else []) @ pat_domain p"

text \<open>
  The law of the IDNA library the sources rely on: \<^verbatim>\<open>ToASCII\<close> leaves its own results alone.
\<close>

definition idna_lawful :: "idna_lib \<Rightarrow> bool" where
  "idna_lawful x \<longleftrightarrow> (\<forall>s t. ToASCII x s = Some t \<longrightarrow> ToASCII x t = Some t)"

text \<open>
  The CHECK constraints of \<^verbatim>\<open>credential_from_pattern\<close>, \<^verbatim>\<open>credential_recipient_pattern\<close> and \<^verbatim>\<open>domain\<close>
  (migrations 00001 and 00002), as predicates on the stored text.
\<close>

definition sql_label :: "string \<Rightarrow> bool" where
  "sql_label l \<longleftrightarrow> l \<noteq> [] \<and> list_all isLabelRune l \<and> hd l \<noteq> hyphen \<and> last l \<noteq> hyphen"

definition sql_domain_shape :: "string \<Rightarrow> bool" where
  "sql_domain_shape d \<longleftrightarrow> 2 \<le> length (split_on dot d) \<and> list_all sql_label (split_on dot d)"

definition sql_pattern_shape :: "string \<Rightarrow> bool" where
  "sql_pattern_shape s \<longleftrightarrow>
     (case cut at_sign s of
        None \<Rightarrow> False
      | Some (l, d) \<Rightarrow>
          (l = wildcard \<or> (l \<noteq> [] \<and> list_all (\<lambda>c. \<not> ascii_space c \<and> c \<noteq> star) l)) \<and>
          sql_domain_shape (fst (cut_prefix d subdomainPrefix)) \<and> length s \<le> 320)"

section \<open>Interfaces\<close>

text \<open>
  A parser with a printer for its values, both relative to the externals \<open>x\<close>: the printed form
  of a parsed value parses to the same value.
\<close>

locale canonical_form =
  fixes lawful :: "'x \<Rightarrow> bool"
    and parse :: "'x \<Rightarrow> string \<Rightarrow> ('e, 'a) result"
    and print :: "'a \<Rightarrow> string"
  assumes reparse: "lawful x \<Longrightarrow> parse x s = Inr a \<Longrightarrow> parse x (print a) = Inr a"
begin

lemma print_inj:
  "lawful x \<Longrightarrow> parse x s = Inr a \<Longrightarrow> parse x t = Inr b \<Longrightarrow> print a = print b \<longleftrightarrow> a = b"
  using reparse by (metis sum.inject(2))

lemma canonical_stable:
  "lawful x \<Longrightarrow> parse x s = Inr a \<Longrightarrow> parse x (print a) = Inr b \<Longrightarrow> print b = print a"
  using reparse by (metis sum.inject(2))

end

text \<open>A first-match rule list over any matcher.\<close>

locale allow_list =
  fixes matches :: "'p \<Rightarrow> 'a \<Rightarrow> bool"
    and first :: "'p list \<Rightarrow> 'a \<Rightarrow> 'p option"
  assumes first_Nil: "first [] a = None"
    and first_Cons: "first (p # ps) a = (if matches p a then Some p else first ps a)"
begin

lemma first_SomeD: "first ps a = Some p \<Longrightarrow> p \<in> set ps \<and> matches p a"
  by (induction ps) (auto simp: first_Nil first_Cons split: if_splits)

lemma first_None_iff: "first ps a = None \<longleftrightarrow> (\<forall>p \<in> set ps. \<not> matches p a)"
  by (induction ps) (auto simp: first_Nil first_Cons)

lemma first_append: "first (ps @ qs) a = (case first ps a of None \<Rightarrow> first qs a | Some p \<Rightarrow> Some p)"
  by (induction ps) (auto simp: first_Nil first_Cons)

lemma allowed_iff: "first ps a \<noteq> None \<longleftrightarrow> (\<exists>p \<in> set ps. matches p a)"
  using first_None_iff [of ps a] by auto

lemma allowed_mono: "set ps \<subseteq> set qs \<Longrightarrow> first ps a \<noteq> None \<Longrightarrow> first qs a \<noteq> None"
  using allowed_iff by auto

end

interpretation fp: allow_list Matches Match
  by unfold_locales auto

section \<open>Local parts\<close>

lemma allowed_rune_class:
  assumes "isAllowedLocalRune c"
  shows "is_ascii c" "\<not> ascii_space c" "c \<noteq> at_sign" "c \<noteq> CHR ''<''" "c \<noteq> CHR ''>''" "c \<noteq> dquote"
  using assms
  by (auto simp: isAllowedLocalRune_def is_ascii_def ascii_space_def is_lower_def is_upper_def is_digit_def)

lemma allowed_rune_lower [simp]: "isAllowedLocalRune (ascii_lower c) = isAllowedLocalRune c"
proof (cases "is_upper c")
  case True
  then have "is_lower (ascii_lower c)" by simp
  then show ?thesis using True by (simp add: isAllowedLocalRune_def)
qed simp

lemma ascii_lower_dot [simp]: "ascii_lower c = dot \<longleftrightarrow> c = dot" "ascii_lower c = star \<longleftrightarrow> c = star"
proof -
  have "is_upper c \<Longrightarrow> ascii_lower c \<noteq> dot" and "is_upper c \<Longrightarrow> ascii_lower c \<noteq> star"
    using is_lower_ascii_lower [of c] by (auto simp: is_lower_def)
  then show "ascii_lower c = dot \<longleftrightarrow> c = dot" and "ascii_lower c = star \<longleftrightarrow> c = star"
    by (cases "is_upper c"; auto simp: is_upper_def)+
qed

lemma star_in_lower: "star \<in> set (map ascii_lower s) \<longleftrightarrow> star \<in> set s"
proof (induction s)
  case (Cons c cs)
  have "star = ascii_lower c \<longleftrightarrow> star = c" by (metis ascii_lower_dot(2))
  with Cons show ?case by simp
qed simp

lemma contains_dots_lower: "contains_sub (map ascii_lower s) [dot, dot] \<Longrightarrow> contains_sub s [dot, dot]"
  by (erule contains_sub_map) auto

lemma has_prefix_single: "has_prefix s [c] \<longleftrightarrow> s \<noteq> [] \<and> hd s = c"
  by (cases s) (auto simp: has_prefix_def)

lemma has_suffix_single: "has_suffix s [c] \<longleftrightarrow> s \<noteq> [] \<and> last s = c"
  by (simp add: has_suffix_def has_prefix_single hd_rev)

lemmas affix_single = has_prefix_single has_suffix_single

lemma normalizeLocal_wf:
  assumes "normalizeLocal x raw k = Inr l"
  shows "local_wf l"
proof -
  let ?s = "trim_space raw"
  from assms have ne: "?s \<noteq> []" and len: "length ?s \<le> 64"
    and all: "list_all isAllowedLocalRune ?s" and dots: "\<not> contains_sub ?s [dot, dot]"
    and hd: "hd ?s \<noteq> dot" and lst: "last ?s \<noteq> dot"
    and l: "l = to_lower (unicode_lower x) ?s"
    by (auto simp: normalizeLocal_def Let_def affix_single maxLocalLength_def split: if_splits)
  have "list_all is_ascii ?s"
    using all by (auto simp: list_all_iff dest: allowed_rune_class)
  then have l': "l = map ascii_lower ?s" using l by (simp add: go_simps)
  show ?thesis
    unfolding local_wf_def l' using ne len all dots hd lst
    by (auto simp: list_all_iff hd_map last_map dest: contains_dots_lower)
qed

lemma local_wf_normalizeLocal:
  assumes "local_wf l"
  shows "normalizeLocal x l k = Inr l"
proof -
  from assms have all: "list_all isAllowedLocalRune l" and up: "\<forall>c \<in> set l. \<not> is_upper c"
    by (auto simp: local_wf_def list_all_iff)
  from all have "list_all (\<lambda>c. is_ascii c \<and> \<not> ascii_space c) l"
    by (auto simp: list_all_iff dest: allowed_rune_class)
  then have trim: "trim_space l = l" and low: "to_lower u l = l" for u
    using up by (auto simp: trim_space_all_id to_lower_def list_all_iff map_ascii_lower_id)
  have "dquote \<notin> set l"
    using all by (auto simp: list_all_iff dest: allowed_rune_class(6))
  then have "hd l \<noteq> dquote" and "last l \<noteq> dquote"
    using assms by (metis hd_in_set last_in_set local_wf_def)+
  then show ?thesis
    using assms all
    by (auto simp: normalizeLocal_def trim low affix_single local_wf_def maxLocalLength_def)
qed

section \<open>Domains\<close>

lemma label_rune_class:
  assumes "isLabelRune c"
  shows "is_ascii c" "\<not> ascii_space c" "\<not> is_upper c" "c \<noteq> at_sign" "c \<noteq> dot" "c \<noteq> star"
    "c \<noteq> CHR ''<''" "c \<noteq> CHR ''>''"
  using assms
  by (auto simp: isLabelRune_def is_ascii_def ascii_space_def is_lower_def is_upper_def is_digit_def)

lemma checkLabel_None: "checkLabel l k = None \<longleftrightarrow> label_wf l"
  by (auto simp: checkLabel_def label_wf_def affix_single maxLabelLength_def)

lemma checkLabels_None: "checkLabels ls k = None \<longleftrightarrow> list_all label_wf ls"
  by (induction ls) (auto simp: checkLabel_None checkLabel_None [THEN iffD2] split: option.splits)

lemma domain_wf_chars:
  assumes "domain_wf d" and "c \<in> set d"
  shows "isLabelRune c \<or> c = dot"
proof -
  have "set d \<subseteq> insert dot (\<Union>w \<in> set (split_on dot d). set w)" by (rule set_split_on)
  with assms show ?thesis
    by (fastforce simp: domain_wf_def list_all_iff label_wf_def)
qed

lemma domain_wf_ends:
  assumes "domain_wf d"
  shows "d \<noteq> []" "hd d \<noteq> dot" "last d \<noteq> dot"
proof -
  show ne: "d \<noteq> []" using assms by (auto simp: domain_wf_def)
  have lab: "\<forall>w \<in> set (split_on dot d). w \<noteq> []"
    using assms by (auto simp: domain_wf_def list_all_iff label_wf_def)
  then have "hd (split_on dot d) \<noteq> []" by (simp add: list.set_sel(1))
  then show "hd d \<noteq> dot" using hd_split_on_Nil [OF ne] by blast
  show "last d \<noteq> dot"
  proof
    assume "last d = dot"
    then obtain d' where "d = d' @ dot # []" using ne by (metis append_butlast_last_id)
    then have "last (split_on dot d) = []" by (simp add: split_on_append)
    with lab show False by (metis last_in_set split_on_ne)
  qed
qed

lemma domain_wf_text:
  assumes "domain_wf d"
  shows "trim_space d = d" "to_lower u d = d" "at_sign \<notin> set d" "star \<notin> set d"
    "CHR ''<'' \<notin> set d" "CHR ''>'' \<notin> set d" "list_all (\<lambda>c. is_ascii c \<and> \<not> ascii_space c) d"
proof -
  have cls: "c \<in> set d \<Longrightarrow> is_ascii c \<and> \<not> ascii_space c \<and> \<not> is_upper c \<and> c \<noteq> at_sign \<and> c \<noteq> star
      \<and> c \<noteq> CHR ''<'' \<and> c \<noteq> CHR ''>''" for c
    using domain_wf_chars [OF assms, of c] label_rune_class [of c]
    by (auto simp: is_ascii_def ascii_space_def is_upper_def)
  then show "list_all (\<lambda>c. is_ascii c \<and> \<not> ascii_space c) d" by (auto simp: list_all_iff)
  then show "trim_space d = d" by (rule trim_space_all_id)
  show "to_lower u d = d"
    using cls by (auto simp: to_lower_def list_all_iff map_ascii_lower_id)
  show "at_sign \<notin> set d" "star \<notin> set d" "CHR ''<'' \<notin> set d" "CHR ''>'' \<notin> set d"
    using cls by auto
qed

lemma normalizeDomain_wf:
  assumes "normalizeDomain x raw k = Inr d"
  shows "domain_wf d \<and> (\<exists>s. ToASCII x s = Some d)"
  using assms
  by (auto simp: normalizeDomain_def Let_def checkLabels_None domain_wf_def maxDomainLength_def
      split: if_splits option.splits)

lemma domain_wf_normalizeDomain:
  assumes "domain_wf d" and "ToASCII x d = Some d"
  shows "normalizeDomain x d k = Inr d"
proof -
  have "checkLabels (split_on dot d) k = None"
    using assms(1) by (simp add: checkLabels_None domain_wf_def)
  then show ?thesis
    using assms domain_wf_ends [OF assms(1)] domain_wf_text(1,2) [OF assms(1)]
    by (auto simp: normalizeDomain_def trim_suffix_def affix_single domain_wf_def maxDomainLength_def)
qed

lemma normalizeDomain_stable:
  assumes "idna_lawful x" and "normalizeDomain x raw k = Inr d"
  shows "normalizeDomain x d k' = Inr d"
proof -
  from normalizeDomain_wf [OF assms(2)] obtain s where "domain_wf d" and "ToASCII x s = Some d" by blast
  with assms(1) show ?thesis
    by (auto simp: idna_lawful_def intro: domain_wf_normalizeDomain)
qed

lemma sql_domain_shape_wf: "domain_wf d \<Longrightarrow> sql_domain_shape d"
  by (auto simp: domain_wf_def sql_domain_shape_def list_all_iff label_wf_def sql_label_def)

interpretation dom_form: canonical_form idna_lawful NormalizeDomain "\<lambda>d. d"
  by unfold_locales (auto simp: NormalizeDomain_def intro: normalizeDomain_stable)

section \<open>Addresses\<close>

lemma local_wf_text:
  assumes "local_wf l"
  shows "l \<noteq> []" "list_all (\<lambda>c. is_ascii c \<and> \<not> ascii_space c) l" "at_sign \<notin> set l"
    "CHR ''<'' \<notin> set l" "CHR ''>'' \<notin> set l"
  using assms by (auto simp: local_wf_def list_all_iff dest: allowed_rune_class)

lemma ParseAddress_wf:
  assumes "ParseAddress x raw = Inr a"
  shows "addr_wf a \<and> (\<exists>s. ToASCII x s = Some (addr_Domain a))"
  using assms
  by (auto simp: ParseAddress_def Let_def addr_wf_def split: if_splits option.splits sum.splits
      dest: normalizeLocal_wf normalizeDomain_wf)

lemma at_text:
  assumes "list_all (\<lambda>c. is_ascii c \<and> \<not> ascii_space c) l" and "list_all (\<lambda>c. is_ascii c \<and> \<not> ascii_space c) d"
  shows "trim_space (l @ at_sign # d) = l @ at_sign # d"
  using assms by (intro trim_space_all_id) (auto simp: is_ascii_def ascii_space_def)

lemma addr_wf_ParseAddress:
  assumes "addr_wf a" and "ToASCII x (addr_Domain a) = Some (addr_Domain a)"
  shows "ParseAddress x (Address_String a) = Inr a"
proof -
  let ?l = "addr_Local a" and ?d = "addr_Domain a"
  have l: "local_wf ?l" and d: "domain_wf ?d" using assms(1) by (auto simp: addr_wf_def)
  note lt = local_wf_text [OF l] and dt = domain_wf_text [OF d] and de = domain_wf_ends [OF d]
  have str: "Address_String a = ?l @ at_sign # ?d" using lt(1) by (simp add: Address_String_def)
  have trim: "trim_space (?l @ at_sign # ?d) = ?l @ at_sign # ?d" by (rule at_text [OF lt(2) dt(7)])
  have idx: "last_index at_sign (?l @ at_sign # ?d) = Some (length ?l)"
    using dt(3) by (rule last_index_append)
  have "\<not> contains_any (?l @ at_sign # ?d) ''<>''"
    using lt(4,5) dt(5,6) by (auto simp: contains_any_iff)
  with lt(1) de(1) show ?thesis
    by (simp add: ParseAddress_def str trim idx local_wf_normalizeLocal [OF l]
        domain_wf_normalizeDomain [OF d assms(2)])
qed

interpretation addr_form: canonical_form idna_lawful ParseAddress Address_String
proof unfold_locales
  fix x s a assume x: "idna_lawful x" and p: "ParseAddress x s = Inr a"
  from ParseAddress_wf [OF p] obtain t where "addr_wf a" "ToASCII x t = Some (addr_Domain a)" by blast
  with x show "ParseAddress x (Address_String a) = Inr a"
    by (auto simp: idna_lawful_def intro: addr_wf_ParseAddress)
qed

lemma addr_wf_not_zero: "addr_wf a \<Longrightarrow> \<not> Address_IsZero a"
  by (auto simp: addr_wf_def Address_IsZero_def local_wf_def)

lemma Address_String_inj:
  assumes "addr_wf a" and "addr_wf b" and "Address_String a = Address_String b"
  shows "a = b"
proof -
  have e: "addr_Local a @ at_sign # addr_Domain a = addr_Local b @ at_sign # addr_Domain b"
    using assms by (auto simp: Address_String_def addr_wf_def local_wf_def split: if_splits)
  have ca: "cut at_sign (addr_Local a @ at_sign # addr_Domain a) = Some (addr_Local a, addr_Domain a)"
    using assms(1) by (intro cut_append local_wf_text(3)) (simp add: addr_wf_def)
  have cb: "cut at_sign (addr_Local b @ at_sign # addr_Domain b) = Some (addr_Local b, addr_Domain b)"
    using assms(2) by (intro cut_append local_wf_text(3)) (simp add: addr_wf_def)
  have "Some (addr_Local a, addr_Domain a) = Some (addr_Local b, addr_Domain b)"
    by (simp only: ca [symmetric] cb [symmetric] e)
  then have "addr_Local a = addr_Local b \<and> addr_Domain a = addr_Domain b" by simp
  then show ?thesis by simp
qed

section \<open>Patterns\<close>

lemma parseLocalPart_wf:
  assumes "parseLocalPart x lp = Inr local"
  shows "if lp = wildcard then local = wildcard else local_wf local \<and> star \<notin> set local"
proof (cases "lp = wildcard")
  case True
  then show ?thesis using assms by (simp add: parseLocalPart_def)
next
  case False
  with assms have star: "star \<notin> set lp" and nl: "normalizeLocal x lp ErrInvalidPattern = Inr local"
    by (auto simp: parseLocalPart_def split: if_splits)
  from nl have "local = to_lower (unicode_lower x) (trim_space lp)"
    and "list_all isAllowedLocalRune (trim_space lp)"
    by (auto simp: normalizeLocal_def Let_def split: if_splits)
  then have "local = map ascii_lower (trim_space lp)"
    by (auto simp: to_lower_def list_all_iff dest: allowed_rune_class(1))
  moreover have "star \<notin> set (trim_space lp)" using star set_trim_space [of lp] by blast
  ultimately have "star \<notin> set local" by (simp only: star_in_lower not_False_eq_True)
  with normalizeLocal_wf [OF nl] False show ?thesis by simp
qed

lemma frompattern_Parse_Inr:
  assumes "frompattern_Parse x raw = Inr p"
  obtains lp local rest sub domain where
    "parseLocalPart x lp = Inr local" "normalizeDomain x rest ErrInvalidPattern = Inr domain"
    "p = \<lparr>normalized = local @ at_sign # (if sub then subdomainPrefix else []) @ domain,
          pat_local = local, localAny = (lp = wildcard), pat_domain = domain, subdomainAny = sub\<rparr>"
proof -
  let ?v = "trim_space raw"
  obtain at where at: "last_index at_sign ?v = Some at"
    using assms by (simp add: frompattern_Parse_def Let_def split: if_splits option.splits)
  let ?lp = "take at ?v"
  obtain local where l: "parseLocalPart x ?lp = Inr local"
    using assms by (simp add: frompattern_Parse_def Let_def at split: if_splits sum.splits)
  obtain rest sub where c: "cut_prefix (drop (Suc at) ?v) subdomainPrefix = (rest, sub)" by fastforce
  obtain domain where d: "normalizeDomain x rest ErrInvalidPattern = Inr domain"
    using assms by (simp add: frompattern_Parse_def Let_def at l c split: if_splits sum.splits)
  have "p = \<lparr>normalized = local @ at_sign # (if sub then subdomainPrefix else []) @ domain,
      pat_local = local, localAny = (?lp = wildcard), pat_domain = domain, subdomainAny = sub\<rparr>"
    using assms by (simp add: frompattern_Parse_def Let_def at l c d split: if_splits)
  then show thesis by (rule that [OF l d])
qed

lemma frompattern_Parse_wf:
  assumes "frompattern_Parse x raw = Inr p"
  shows "pat_wf p \<and> (\<exists>s. ToASCII x s = Some (pat_domain p))"
proof -
  from assms obtain lp local rest sub domain where
    l: "parseLocalPart x lp = Inr local" and d: "normalizeDomain x rest ErrInvalidPattern = Inr domain"
    and p: "p = \<lparr>normalized = local @ at_sign # (if sub then subdomainPrefix else []) @ domain,
      pat_local = local, localAny = (lp = wildcard), pat_domain = domain, subdomainAny = sub\<rparr>"
    by (rule frompattern_Parse_Inr)
  from parseLocalPart_wf [OF l] normalizeDomain_wf [OF d] show ?thesis
    by (simp add: p pat_wf_def)
qed

lemma pat_wf_text:
  assumes "pat_wf p"
  shows "list_all (\<lambda>c. is_ascii c \<and> \<not> ascii_space c) (normalized p)"
    "CHR ''<'' \<notin> set (normalized p)" "CHR ''>'' \<notin> set (normalized p)"
    "length (normalized p) \<le> 320" "normalized p \<noteq> []"
proof -
  have d: "domain_wf (pat_domain p)" using assms by (simp add: pat_wf_def)
  have nz: "normalized p = pat_local p @ at_sign # (if subdomainAny p then subdomainPrefix else []) @ pat_domain p"
    using assms by (simp add: pat_wf_def)
  have l: "pat_local p = wildcard \<or> local_wf (pat_local p)" using assms by (auto simp: pat_wf_def split: if_splits)
  then have l2: "list_all (\<lambda>c. is_ascii c \<and> \<not> ascii_space c) (pat_local p)"
    "CHR ''<'' \<notin> set (pat_local p)" "CHR ''>'' \<notin> set (pat_local p)" "length (pat_local p) \<le> 64"
    by (auto dest: local_wf_text simp: wildcard_def is_ascii_def ascii_space_def)
      (auto simp: local_wf_def)
  have pre: "list_all (\<lambda>c. is_ascii c \<and> \<not> ascii_space c) (at_sign # subdomainPrefix)"
    by (auto simp: subdomainPrefix_def is_ascii_def ascii_space_def)
  show "list_all (\<lambda>c. is_ascii c \<and> \<not> ascii_space c) (normalized p)"
    using l2(1) pre domain_wf_text(7) [OF d] by (auto simp: nz)
  show "CHR ''<'' \<notin> set (normalized p)" "CHR ''>'' \<notin> set (normalized p)"
    using l2 domain_wf_text(5,6) [OF d] by (auto simp: nz subdomainPrefix_def)
  have "length (pat_domain p) \<le> 253" using d by (simp add: domain_wf_def)
  then show "length (normalized p) \<le> 320" using l2(4) by (simp add: nz subdomainPrefix_def)
  show "normalized p \<noteq> []" by (simp add: nz)
qed

lemma pat_wf_Parse:
  assumes wf: "pat_wf p" and asc: "ToASCII x (pat_domain p) = Some (pat_domain p)"
  shows "frompattern_Parse x (normalized p) = Inr p"
proof -
  let ?l = "pat_local p" and ?d = "pat_domain p"
  let ?dp = "(if subdomainAny p then subdomainPrefix else []) @ ?d"
  have d: "domain_wf ?d" and nz: "normalized p = ?l @ at_sign # ?dp" using wf by (auto simp: pat_wf_def)
  note pt = pat_wf_text [OF wf] and dt = domain_wf_text [OF d] and de = domain_wf_ends [OF d]
  have trim: "trim_space (normalized p) = normalized p" by (rule trim_space_all_id [OF pt(1)])
  have "at_sign \<notin> set ?dp" using dt(3) by (auto simp: subdomainPrefix_def)
  then have idx: "last_index at_sign (normalized p) = Some (length ?l)"
    unfolding nz by (rule last_index_append)
  have noany: "\<not> contains_any (normalized p) pattern_spaces"
    using pt(1-3) by (auto simp: contains_any_iff pattern_spaces_def list_all_iff ascii_space_def)
  have ne: "?l \<noteq> []" using wf by (auto simp: pat_wf_def wildcard_def local_wf_def split: if_splits)
  have cp: "cut_prefix ?dp subdomainPrefix = (?d, subdomainAny p)"
    using dt(4) by (auto simp: cut_prefix_def has_prefix_def subdomainPrefix_def split: if_splits)
      (metis in_set_takeD list.set_intros(1))
  have loc: "parseLocalPart x ?l = Inr ?l"
    using wf by (auto simp: parseLocalPart_def pat_wf_def local_wf_normalizeLocal split: if_splits)
  have any: "localAny p \<longleftrightarrow> ?l = wildcard"
    using wf by (auto simp: pat_wf_def wildcard_def split: if_splits)
  have parts: "take (length ?l) (normalized p) = ?l" "drop (Suc (length ?l)) (normalized p) = ?dp"
    by (auto simp: nz)
  have at: "length ?l \<noteq> 0" "length ?l \<noteq> length (normalized p) - 1" using ne de(1) by (auto simp: nz)
  have "frompattern_Parse x (normalized p) =
      Inr \<lparr>normalized = ?l @ at_sign # ?dp, pat_local = ?l, localAny = (?l = wildcard), pat_domain = ?d,
        subdomainAny = subdomainAny p\<rparr>"
    unfolding frompattern_Parse_def Let_def trim idx option.case parts loc cp sum.case prod.case
    using pt(4,5) noany at dt(4)
    by (simp add: maxPatternLength_def domain_wf_normalizeDomain [OF d asc])
  then show ?thesis by (simp add: any [symmetric] nz [symmetric])
qed

interpretation pat_form: canonical_form idna_lawful frompattern_Parse Pattern_String
proof unfold_locales
  fix x s p assume x: "idna_lawful x" and ps: "frompattern_Parse x s = Inr p"
  from frompattern_Parse_wf [OF ps] obtain t where "pat_wf p" "ToASCII x t = Some (pat_domain p)" by blast
  with x show "frompattern_Parse x (Pattern_String p) = Inr p"
    by (auto simp: idna_lawful_def Pattern_String_def intro: pat_wf_Parse)
qed

lemma normalized_inj:
  assumes "pat_wf p" and "pat_wf q" and "normalized p = normalized q"
  shows "p = q"
proof -
  let ?dp = "\<lambda>p. (if subdomainAny p then subdomainPrefix else []) @ pat_domain p"
  have nz: "normalized r = pat_local r @ at_sign # ?dp r" if "pat_wf r" for r
    using that by (simp add: pat_wf_def)
  have noat: "at_sign \<notin> set (pat_local r)" if "pat_wf r" for r
    using that local_wf_text(3) by (auto simp: pat_wf_def wildcard_def split: if_splits)
  have cutr: "cut at_sign (normalized r) = Some (pat_local r, ?dp r)" if "pat_wf r" for r
    unfolding nz [OF that] using noat [OF that] by (rule cut_append)
  have l: "pat_local p = pat_local q" and d: "?dp p = ?dp q"
    using cutr [OF assms(1)] cutr [OF assms(2)] assms(3) by auto
  have nostar: "star \<notin> set (pat_domain r)" if "pat_wf r" for r
    using that domain_wf_text(4) by (auto simp: pat_wf_def)
  have sub: "subdomainAny r \<longleftrightarrow> star \<in> set (?dp r)" if "pat_wf r" for r
    using nostar [OF that] by (auto simp: subdomainPrefix_def)
  have s: "subdomainAny p = subdomainAny q" using sub [OF assms(1)] sub [OF assms(2)] d by simp
  have any: "localAny r \<longleftrightarrow> pat_local r = wildcard" if "pat_wf r" for r
    using that by (auto simp: pat_wf_def wildcard_def split: if_splits)
  have "localAny p = localAny q" using any [OF assms(1)] any [OF assms(2)] l by simp
  moreover have "pat_domain p = pat_domain q" using d s by simp
  ultimately show ?thesis using assms(3) l s by simp
qed

lemma sql_pattern_shape_wf:
  assumes "pat_wf p"
  shows "sql_pattern_shape (normalized p)"
proof -
  let ?dp = "(if subdomainAny p then subdomainPrefix else []) @ pat_domain p"
  have nz: "normalized p = pat_local p @ at_sign # ?dp" and d: "domain_wf (pat_domain p)"
    using assms by (auto simp: pat_wf_def)
  have loc: "pat_local p = wildcard \<or> (local_wf (pat_local p) \<and> star \<notin> set (pat_local p))"
    using assms by (auto simp: pat_wf_def split: if_splits)
  then have noat: "at_sign \<notin> set (pat_local p)"
    by (auto simp: wildcard_def dest: local_wf_text(3))
  have lshape: "pat_local p = wildcard \<or> (pat_local p \<noteq> [] \<and> list_all (\<lambda>c. \<not> ascii_space c \<and> c \<noteq> star) (pat_local p))"
    using loc local_wf_text(1,2) [of "pat_local p"] by (auto simp: list_all_iff)
  have "star \<notin> set (pat_domain p)" by (rule domain_wf_text(4) [OF d])
  then have "fst (cut_prefix ?dp subdomainPrefix) = pat_domain p"
    by (auto simp: cut_prefix_def has_prefix_iff subdomainPrefix_def)
  moreover have "cut at_sign (normalized p) = Some (pat_local p, ?dp)"
    unfolding nz using noat by (rule cut_append)
  ultimately show ?thesis
    using lshape sql_domain_shape_wf [OF d] pat_wf_text(4) [OF assms]
    by (simp add: sql_pattern_shape_def)
qed

section \<open>Matching and sets\<close>

lemma Matches_wf:
  assumes "pat_wf p" and "addr_wf a"
  shows "Matches p a \<longleftrightarrow>
     (localAny p \<or> pat_local p = addr_Local a) \<and>
     (if subdomainAny p then \<exists>sub. sub \<noteq> [] \<and> addr_Domain a = sub @ dot # pat_domain p
      else addr_Domain a = pat_domain p)"
proof -
  have nz: "\<not> Pattern_IsZero p" "\<not> Address_IsZero a"
    using pat_wf_text(5) [OF assms(1)] addr_wf_not_zero [OF assms(2)] by (auto simp: Pattern_IsZero_def)
  have "length (addr_Domain a) > length (pat_domain p) + 1 \<and> has_suffix (addr_Domain a) (dot # pat_domain p)
     \<longleftrightarrow> (\<exists>sub. sub \<noteq> [] \<and> addr_Domain a = sub @ dot # pat_domain p)"
    by (auto simp: has_suffix_iff)
  with nz show ?thesis by (auto simp: Matches_def)
qed

lemma NewSet_loop_Inr:
  "NewSet_loop x i seen raw = Inr ps \<Longrightarrow>
     \<exists>qs. list_all2 (\<lambda>item q. frompattern_Parse x item = Inr q) raw qs \<and> ps = nub_by normalized seen qs"
proof (induction x i seen raw arbitrary: ps rule: NewSet_loop.induct)
  case (2 x i seen item raw)
  obtain q where q: "frompattern_Parse x item = Inr q"
    using "2.prems" by (auto split: sum.splits)
  show ?case
  proof (cases "normalized q \<in> set seen")
    case True
    then have "NewSet_loop x (Suc i) seen raw = Inr ps" using "2.prems" q by simp
    then obtain qs where "list_all2 (\<lambda>item q. frompattern_Parse x item = Inr q) raw qs"
      and "ps = nub_by normalized seen qs" using "2.IH"(1) [OF q True] by blast
    then show ?thesis using True q by (intro exI [of _ "q # qs"]) simp
  next
    case False
    then obtain rs where rs: "NewSet_loop x (Suc i) (normalized q # seen) raw = Inr rs" and ps: "ps = q # rs"
      using "2.prems" q by (auto split: sum.splits)
    then obtain qs where "list_all2 (\<lambda>item q. frompattern_Parse x item = Inr q) raw qs"
      and "rs = nub_by normalized (normalized q # seen) qs" using "2.IH"(2) [OF q False] by blast
    then show ?thesis using False q ps by (intro exI [of _ "q # qs"]) simp
  qed
qed simp

lemma NewSet_loop_ok:
  "(\<exists>ps. NewSet_loop x i seen raw = Inr ps) \<longleftrightarrow> (\<forall>item \<in> set raw. \<exists>p. frompattern_Parse x item = Inr p)"
  by (induction x i seen raw rule: NewSet_loop.induct) (auto split: sum.splits)

lemma NewSet_patterns:
  assumes "NewSet x raw = Inr s"
  shows "set s = {p. \<exists>item \<in> set raw. frompattern_Parse x item = Inr p}"
    and "distinct (map normalized s)" and "\<forall>p \<in> set s. pat_wf p"
proof -
  from assms obtain qs where qs: "list_all2 (\<lambda>item q. frompattern_Parse x item = Inr q) raw qs"
    and s: "s = nub_by normalized [] qs"
    unfolding NewSet_def by (blast dest: NewSet_loop_Inr)
  have set_qs: "set qs = {p. \<exists>item \<in> set raw. frompattern_Parse x item = Inr p}"
    using qs by (induction rule: list_all2_induct) auto
  then have wf: "\<forall>p \<in> set qs. pat_wf p" using frompattern_Parse_wf by blast
  show "distinct (map normalized s)" using nub_by_distinct [of normalized "[]" qs] s by simp
  have sub: "set s \<subseteq> set qs" using nub_by_subset s by metis
  moreover have "set qs \<subseteq> set s"
  proof
    fix q assume q: "q \<in> set qs"
    have "normalized ` set s = normalized ` set qs" using nub_by_keys [of normalized "[]" qs] s by simp
    then obtain r where r: "r \<in> set s" "normalized r = normalized q" using q by (metis imageE imageI)
    then have "r = q" using normalized_inj wf sub q by (metis subsetD)
    with r show "q \<in> set s" by simp
  qed
  ultimately show "set s = {p. \<exists>item \<in> set raw. frompattern_Parse x item = Inr p}" using set_qs by auto
  show "\<forall>p \<in> set s. pat_wf p" using wf sub by blast
qed

lemma Allows_iff: "Allows s a \<longleftrightarrow> (\<exists>p \<in> set s. Matches p a)"
  by (simp only: Allows_def fp.allowed_iff)

section \<open>Properties\<close>

text \<open>
  C19: a parsed pattern accepts exactly the addresses its shape says: the local part is the pattern's
  or the pattern has the local wildcard, and the domain is the pattern's, or, for a \<^verbatim>\<open>*.\<close> pattern, a
  strict subdomain of it, so neither the domain itself nor a name that merely ends in the same letters.
\<close>

theorem pattern_matches_exactly:
  assumes "frompattern_Parse x raw = Inr p" and "ParseAddress x s = Inr a"
  shows "Matches p a \<longleftrightarrow>
     (localAny p \<or> pat_local p = addr_Local a) \<and>
     (if subdomainAny p then \<exists>sub. sub \<noteq> [] \<and> addr_Domain a = sub @ dot # pat_domain p
      else addr_Domain a = pat_domain p)"
  using frompattern_Parse_wf [OF assms(1)] ParseAddress_wf [OF assms(2)] by (intro Matches_wf) auto

text \<open>
  the text stored for a parsed pattern parses back to the same pattern and satisfies the
  shape and length CHECK constraints of the pattern tables, so what is read back from the
  database is what the operator granted.
\<close>

theorem pattern_roundtrip:
  assumes "idna_lawful x" and "frompattern_Parse x raw = Inr p"
  shows "frompattern_Parse x (Pattern_String p) = Inr p \<and> sql_pattern_shape (Pattern_String p)"
  using pat_form.reparse [OF assms] frompattern_Parse_wf [OF assms(2)] sql_pattern_shape_wf
  by (auto simp: Pattern_String_def)

text \<open>
  the normal form of an address is stable, and two parsed addresses are the same address
  exactly when their texts are the same: comparison of stored addresses is byte equality.
\<close>

theorem address_normal_form:
  assumes "idna_lawful x" and "ParseAddress x s = Inr a" and "ParseAddress x t = Inr b"
  shows "ParseAddress x (Address_String a) = Inr a \<and> (Address_String a = Address_String b \<longleftrightarrow> a = b)"
  using addr_form.reparse [OF assms(1,2)] addr_form.print_inj [OF assms] by simp

text \<open>
  C34: a compiled allow-list accepts an address exactly when one of the texts it was compiled from
  parses to a pattern that matches it; no text is dropped, none is added, and an empty list accepts nobody.
\<close>

theorem allow_list_exact:
  assumes "NewSet x raw = Inr s"
  shows "(Allows s a \<longleftrightarrow> (\<exists>item \<in> set raw. \<exists>p. frompattern_Parse x item = Inr p \<and> Matches p a))
     \<and> (raw = [] \<longrightarrow> \<not> Allows s a) \<and> distinct (map normalized s)"
  using NewSet_patterns [OF assms] assms by (auto simp: Allows_iff)

text \<open>
  compiling a list of patterns succeeds exactly when every one of them parses: one bad
  pattern refuses the whole list, whatever its position.
\<close>

theorem allow_list_all_or_nothing:
  "(\<exists>s. NewSet x raw = Inr s) \<longleftrightarrow> (\<forall>item \<in> set raw. \<exists>p. frompattern_Parse x item = Inr p)"
  unfolding NewSet_def by (rule NewSet_loop_ok)

text \<open>
  a domain that \<^verbatim>\<open>NormalizeDomain\<close> accepts is stable under it and satisfies the shape and length
  constraints of the \<^verbatim>\<open>domain\<close> table.
\<close>

theorem domain_normal_form:
  assumes "idna_lawful x" and "NormalizeDomain x raw = Inr d"
  shows "NormalizeDomain x d = Inr d \<and> sql_domain_shape d \<and> length d \<le> 253"
  using dom_form.reparse [OF assms] normalizeDomain_wf [OF assms(2) [unfolded NormalizeDomain_def]]
    sql_domain_shape_wf by (auto simp: domain_wf_def)

section \<open>Witnesses\<close>

text \<open>An instance of the externals: names already in ASCII, and no upper-case letter outside ASCII.\<close>

definition ascii_idna :: idna_lib where
  "ascii_idna = \<lparr>ToASCII = Some, unicode_lower = (\<lambda>s. s)\<rparr>"

lemma ascii_idna_lawful: "idna_lawful ascii_idna"
  by (simp add: idna_lawful_def ascii_idna_def)

definition wild_example :: Pattern where
  "wild_example = \<lparr>normalized = ''*@*.example.com'', pat_local = ''*'', localAny = True,
     pat_domain = ''example.com'', subdomainAny = True\<rparr>"

definition bob_mail :: Address where
  "bob_mail = \<lparr>addr_Local = ''bob'', addr_Domain = ''mail.example.com''\<rparr>"

lemma parse_wild_example: "frompattern_Parse ascii_idna '' *@*.Example.com '' = Inr wild_example"
  by code_simp

lemma parse_bob_mail: "ParseAddress ascii_idna ''Bob@MAIL.example.com.'' = Inr bob_mail"
  by code_simp

lemma newset_wild_example: "NewSet ascii_idna [''*@*.Example.com'', ''*@*.example.com.''] = Inr [wild_example]"
  by code_simp

theorem pattern_matches_exactly_witness:
  "Matches wild_example bob_mail \<longleftrightarrow> (\<exists>sub. sub \<noteq> [] \<and> ''mail.example.com'' = sub @ dot # ''example.com'')"
  using pattern_matches_exactly [OF parse_wild_example parse_bob_mail]
  by (simp add: wild_example_def bob_mail_def)

theorem pattern_roundtrip_witness:
  "frompattern_Parse ascii_idna ''*@*.example.com'' = Inr wild_example \<and> sql_pattern_shape ''*@*.example.com''"
  using pattern_roundtrip [OF ascii_idna_lawful parse_wild_example]
  by (simp add: Pattern_String_def wild_example_def)

theorem address_normal_form_witness:
  "ParseAddress ascii_idna ''bob@mail.example.com'' = Inr bob_mail"
  using address_normal_form [OF ascii_idna_lawful parse_bob_mail parse_bob_mail]
  by (simp add: bob_mail_def Address_String_def)

theorem allow_list_exact_witness:
  "Allows [wild_example] bob_mail \<and> distinct (map normalized [wild_example])"
proof -
  have m: "Matches wild_example bob_mail" by code_simp
  have "frompattern_Parse ascii_idna ''*@*.Example.com'' = Inr wild_example" by code_simp
  with m show ?thesis using allow_list_exact [OF newset_wild_example, of bob_mail] by auto
qed

theorem allow_list_all_or_nothing_witness:
  "\<exists>s. NewSet ascii_idna [''*@*.Example.com'', ''*@*.example.com.''] = Inr s"
  using allow_list_all_or_nothing [of ascii_idna "[''*@*.Example.com'', ''*@*.example.com.'']"]
    newset_wild_example by auto

theorem domain_normal_form_witness:
  "NormalizeDomain ascii_idna ''mail.example.com'' = Inr ''mail.example.com'' \<and> sql_domain_shape ''mail.example.com''"
proof -
  have "NormalizeDomain ascii_idna ''Mail.Example.com.'' = Inr ''mail.example.com''" by code_simp
  then show ?thesis using domain_normal_form [OF ascii_idna_lawful] by blast
qed

end
