(* ===== verification/Mail_Norm.thy ===== *)
theory Mail_Norm
  imports From_Pattern
begin

text \<open>
  Inspection and normalisation of a submitted message: \<^verbatim>\<open>src/internal/mailnorm/mailnorm.go\<close>.

  \<open>mail_lib\<close> collects what lies outside the repository: the header type of \<^verbatim>\<open>go-message/textproto\<close> (the type variable \<open>'h\<close>)
  with its operations, \<^verbatim>\<open>mail.ParseAddressList\<close> (the addresses of a list), the decoder of encoded words and the formatting of
  the date in the zone of the process. \<open>mail_lawful\<close> states what is documented of the headers and is used only where a
  theorem speaks of the header that is written. An error is its code: the text next to it is left out.

  Shown: bodies are only changed in their line endings, the header block ends at the first blank line, and what \<^verbatim>\<open>Parse\<close>
  returns is within the limits, keeps the one sender it reports, and carries no Bcc field.
\<close>

section \<open>Outside the repository\<close>

record 'h mail_lib =
  ReadHeader :: "string \<Rightarrow> 'h option"
  WriteHeader :: "'h \<Rightarrow> string option"
  header_Len :: "'h \<Rightarrow> nat"
  header_Get :: "'h \<Rightarrow> string \<Rightarrow> string"
  header_Values :: "'h \<Rightarrow> string \<Rightarrow> string list"
  header_Has :: "'h \<Rightarrow> string \<Rightarrow> bool"
  header_Del :: "'h \<Rightarrow> string \<Rightarrow> 'h"
  header_Set :: "'h \<Rightarrow> string \<Rightarrow> string \<Rightarrow> 'h"
  ParseAddressList :: "string \<Rightarrow> string list option"
  word_DecodeHeader :: "string \<Rightarrow> string option"
  format_RFC1123Z :: "int \<Rightarrow> string"

definition header_keys :: "string set" where
  "header_keys = {''From'', ''To'', ''Cc'', ''Bcc'', ''Subject'', ''Message-Id'', ''Date''}"

definition mail_lawful :: "'h mail_lib \<Rightarrow> bool" where
  "mail_lawful m \<longleftrightarrow> (\<forall>h. \<forall>k \<in> header_keys. \<forall>v.
     header_Get m h k = (case header_Values m h k of [] \<Rightarrow> [] | v # _ \<Rightarrow> v) \<and>
     (header_Has m h k \<longleftrightarrow> header_Values m h k \<noteq> []) \<and>
     header_Values m (header_Del m h k) k = [] \<and> header_Values m (header_Set m h k v) k = [v] \<and>
     (\<forall>k' \<in> header_keys. k' \<noteq> k \<longrightarrow> header_Values m (header_Del m h k) k' = header_Values m h k' \<and>
        header_Values m (header_Set m h k v) k' = header_Values m h k'))"

section \<open>Types and codes\<close>

definition CodeEmpty :: string where "CodeEmpty = ''empty_message''"
definition CodeTooLarge :: string where "CodeTooLarge = ''message_too_large''"
definition CodeMalformedHeaders :: string where "CodeMalformedHeaders = ''malformed_headers''"
definition CodeTooManyHeaders :: string where "CodeTooManyHeaders = ''too_many_headers''"
definition CodeHeadersTooLarge :: string where "CodeHeadersTooLarge = ''headers_too_large''"
definition CodeNoFrom :: string where "CodeNoFrom = ''missing_from''"
definition CodeMultipleFrom :: string where "CodeMultipleFrom = ''multiple_from''"
definition CodeInvalidFrom :: string where "CodeInvalidFrom = ''invalid_from''"

lemmas mail_codes = CodeEmpty_def CodeTooLarge_def CodeMalformedHeaders_def CodeTooManyHeaders_def CodeHeadersTooLarge_def
  CodeNoFrom_def CodeMultipleFrom_def CodeInvalidFrom_def

record mail_options =
  mo_MaxBytes :: int
  mo_MaxHeaderCount :: int
  mo_MaxHeaderBytes :: int
  mo_Now :: int
  mo_NewID :: string

record Message =
  nm_From :: Address
  nm_FromHeader :: string
  nm_Subject :: string
  nm_MessageID :: string
  nm_To :: "string list"
  nm_Cc :: "string list"
  nm_Bcc :: "string list"
  nm_Raw :: string
  nm_Size :: int
  nm_GeneratedMessageID :: bool
  nm_GeneratedDate :: bool
  nm_StrippedBcc :: bool

text \<open>\<^verbatim>\<open>Message{}\<close>, the zero value.\<close>

definition no_message :: Message where
  "no_message = \<lparr>nm_From = \<lparr>addr_Local = [], addr_Domain = []\<rparr>, nm_FromHeader = [], nm_Subject = [], nm_MessageID = [],
     nm_To = [], nm_Cc = [], nm_Bcc = [], nm_Raw = [], nm_Size = 0, nm_GeneratedMessageID = False,
     nm_GeneratedDate = False, nm_StrippedBcc = False\<rparr>"

section \<open>Splitting and line endings\<close>

abbreviation CR :: char where "CR \<equiv> CHR 0x0D"
abbreviation LF :: char where "LF \<equiv> CHR 0x0A"

text \<open>\<^verbatim>\<open>bytes.Index\<close>; \<open>None\<close> is -1.\<close>

fun index_sub :: "string \<Rightarrow> string \<Rightarrow> nat option" where
  "index_sub [] t = (if t = [] then Some 0 else None)"
| "index_sub (c # cs) t = (if has_prefix (c # cs) t then Some 0 else map_option Suc (index_sub cs t))"

definition splitMessage :: "string \<Rightarrow> string \<times> string" where
  "splitMessage raw =
     (let crlf = index_sub raw [CR, LF, CR, LF]; lf = index_sub raw [LF, LF] in
      case crlf of
        Some i \<Rightarrow>
          (case lf of
             None \<Rightarrow> (take (i + 2) raw, drop (i + 4) raw)
           | Some j \<Rightarrow> if i \<le> j then (take (i + 2) raw, drop (i + 4) raw) else (take (j + 1) raw, drop (j + 2) raw))
      | None \<Rightarrow>
          (case lf of
             Some j \<Rightarrow> (take (j + 1) raw, drop (j + 2) raw)
           | None \<Rightarrow> if has_suffix raw [LF] then (raw, []) else (raw @ [LF], [])))"

text \<open>\<open>prev\<close> is the byte before, if any.\<close>

fun needsCRLF_loop :: "char option \<Rightarrow> string \<Rightarrow> bool" where
  "needsCRLF_loop prev [] = False"
| "needsCRLF_loop prev (c # cs) =
     (if c = LF \<and> prev \<noteq> Some CR then True
      else if c = CR \<and> (cs = [] \<or> hd cs \<noteq> LF) then True
      else needsCRLF_loop (Some c) cs)"

definition needsCRLF :: "string \<Rightarrow> bool" where
  "needsCRLF body = needsCRLF_loop None body"

fun crlf_loop :: "string \<Rightarrow> string" where
  "crlf_loop [] = []"
| "crlf_loop [c] = (if c = CR \<or> c = LF then [CR, LF] else [c])"
| "crlf_loop (c # d # cs) =
     (if c = CR then CR # LF # crlf_loop (if d = LF then cs else d # cs)
      else if c = LF then CR # LF # crlf_loop (d # cs)
      else c # crlf_loop (d # cs))"

definition normalizeCRLF :: "string \<Rightarrow> string" where
  "normalizeCRLF body = (if \<not> needsCRLF body then body else crlf_loop body)"

definition generateMessageID :: "string \<Rightarrow> string \<Rightarrow> string" where
  "generateMessageID i domain =
     ''<'' @ i @ ''@'' @ (if domain = [] then ''relais.invalid'' else domain) @ ''>''"

section \<open>Reading the header\<close>

fun address_loop :: "idna_lib \<Rightarrow> string list \<Rightarrow> string list" where
  "address_loop x [] = []"
| "address_loop x (a # as) =
     (case ParseAddress x a of Inl e \<Rightarrow> address_loop x as | Inr n \<Rightarrow> Address_String n # address_loop x as)"

definition addressList :: "'h mail_lib \<Rightarrow> idna_lib \<Rightarrow> string \<Rightarrow> string list" where
  "addressList m x v0 =
     (let v = trim_space v0 in
      if v = [] then [] else (case ParseAddressList m v of None \<Rightarrow> [] | Some parsed \<Rightarrow> address_loop x parsed))"

definition decodeHeader :: "'h mail_lib \<Rightarrow> string \<Rightarrow> string" where
  "decodeHeader m v = (case word_DecodeHeader m v of None \<Rightarrow> v | Some d \<Rightarrow> d)"

definition readFrom :: "'h mail_lib \<Rightarrow> idna_lib \<Rightarrow> 'h \<Rightarrow> Message \<Rightarrow> (string, Message) result" where
  "readFrom m x header msg =
     (case header_Values m header ''From'' of
        [] \<Rightarrow> Inl CodeNoFrom
      | _ # _ # _ \<Rightarrow> Inl CodeMultipleFrom
      | [v0] \<Rightarrow>
          (let v = trim_space v0 in
           if v = [] then Inl CodeNoFrom
           else (case ParseAddressList m v of
              None \<Rightarrow> Inl CodeInvalidFrom
            | Some [] \<Rightarrow> Inl CodeInvalidFrom
            | Some (_ # _ # _) \<Rightarrow> Inl CodeMultipleFrom
            | Some [a] \<Rightarrow>
                (case ParseAddress x a of
                   Inl e \<Rightarrow> Inl CodeInvalidFrom
                 | Inr addr \<Rightarrow> Inr (msg\<lparr>nm_From := addr, nm_FromHeader := v\<rparr>)))))"

definition assemble :: "'h mail_lib \<Rightarrow> 'h \<Rightarrow> string \<Rightarrow> (string, string) result" where
  "assemble m header body =
     (case WriteHeader m header of None \<Rightarrow> Inl CodeMalformedHeaders | Some h \<Rightarrow> Inr (h @ normalizeCRLF body))"

text \<open>The middle of \<^verbatim>\<open>Parse\<close>: the descriptive fields, the removal of Bcc, and the fields that are added.\<close>

definition describe :: "'h mail_lib \<Rightarrow> idna_lib \<Rightarrow> 'h \<Rightarrow> Message \<Rightarrow> Message" where
  "describe m x header msg = msg\<lparr>
     nm_Subject := decodeHeader m (header_Get m header ''Subject''), nm_To := addressList m x (header_Get m header ''To''),
     nm_Cc := addressList m x (header_Get m header ''Cc''), nm_Bcc := addressList m x (header_Get m header ''Bcc'')\<rparr>"

definition strip_bcc :: "'h mail_lib \<Rightarrow> 'h \<times> Message \<Rightarrow> 'h \<times> Message" where
  "strip_bcc m = (\<lambda>(header, msg).
     if header_Has m header ''Bcc'' then (header_Del m header ''Bcc'', msg\<lparr>nm_StrippedBcc := True\<rparr>) else (header, msg))"

definition ensure_message_id :: "'h mail_lib \<Rightarrow> mail_options \<Rightarrow> 'h \<times> Message \<Rightarrow> 'h \<times> Message" where
  "ensure_message_id m opts = (\<lambda>(header, msg).
     let i = trim_space (header_Get m header ''Message-Id'') in
     if i = [] then
       let g = generateMessageID (mo_NewID opts) (addr_Domain (nm_From msg)) in
       (header_Set m header ''Message-Id'' g, msg\<lparr>nm_MessageID := g, nm_GeneratedMessageID := True\<rparr>)
     else (header, msg\<lparr>nm_MessageID := i\<rparr>))"

definition ensure_date :: "'h mail_lib \<Rightarrow> mail_options \<Rightarrow> 'h \<times> Message \<Rightarrow> 'h \<times> Message" where
  "ensure_date m opts = (\<lambda>(header, msg).
     if trim_space (header_Get m header ''Date'') = []
     then (header_Set m header ''Date'' (format_RFC1123Z m (mo_Now opts)), msg\<lparr>nm_GeneratedDate := True\<rparr>)
     else (header, msg))"

definition mailnorm_Parse :: "'h mail_lib \<Rightarrow> idna_lib \<Rightarrow> mail_options \<Rightarrow> string \<Rightarrow> (string, Message) result" where
  "mailnorm_Parse m x opts raw =
     (if trim_space raw = [] then Inl CodeEmpty
      else if mo_MaxBytes opts > 0 \<and> int (length raw) > mo_MaxBytes opts then Inl CodeTooLarge
      else let (headerBlock, body) = splitMessage raw in
      if mo_MaxHeaderBytes opts > 0 \<and> int (length headerBlock) > mo_MaxHeaderBytes opts then Inl CodeHeadersTooLarge
      else (case ReadHeader m headerBlock of
         None \<Rightarrow> Inl CodeMalformedHeaders
       | Some header \<Rightarrow>
           if mo_MaxHeaderCount opts > 0 \<and> int (header_Len m header) > mo_MaxHeaderCount opts then Inl CodeTooManyHeaders
           else (case readFrom m x header no_message of
              Inl e \<Rightarrow> Inl e
            | Inr msg0 \<Rightarrow>
                (let (header', msg) = ensure_date m opts (ensure_message_id m opts (strip_bcc m (header, describe m x header msg0))) in
                 case assemble m header' body of
                   Inl e \<Rightarrow> Inl e
                 | Inr assembled \<Rightarrow>
                     if mo_MaxBytes opts > 0 \<and> int (length assembled) > mo_MaxBytes opts then Inl CodeTooLarge
                     else Inr (msg\<lparr>nm_Raw := assembled, nm_Size := int (length assembled)\<rparr>)))))"

text \<open>
  \<^verbatim>\<open>ReadAll\<close> on a reader that yields \<open>content\<close> and then fails or ends. The bound passed to \<^verbatim>\<open>io.LimitReader\<close>
  is an \<^verbatim>\<open>int64\<close>: \<open>wrap64\<close> is its wrap-around.
\<close>

record reader =
  content :: string
  fails :: bool

definition wrap64 :: "int \<Rightarrow> int" where
  "wrap64 n = (n + 2 ^ 63) mod 2 ^ 64 - 2 ^ 63"

definition io_ReadAll :: "reader \<Rightarrow> (string, string) result" where
  "io_ReadAll r = (if fails r then Inl [] else Inr (content r))"

definition LimitReader :: "reader \<Rightarrow> int \<Rightarrow> reader" where
  "LimitReader r n = \<lparr>content = take (nat n) (content r), fails = (fails r \<and> int (length (content r)) < n)\<rparr>"

definition ReadAll :: "reader \<Rightarrow> int \<Rightarrow> (string, string) result" where
  "ReadAll r limit =
     (if limit \<le> 0 then io_ReadAll r
      else (case io_ReadAll (LimitReader r (wrap64 (limit + 1))) of
         Inl e \<Rightarrow> Inl e
       | Inr raw \<Rightarrow> if int (length raw) > limit then Inl CodeTooLarge else Inr raw))"

section \<open>Line endings\<close>

text \<open>The reference: the lines of a text, where CRLF, a lone CR and a lone LF each end a line.\<close>

fun lines_of :: "string \<Rightarrow> string list" where
  "lines_of [] = [[]]"
| "lines_of [c] = (if c = CR \<or> c = LF then [[], []] else [[c]])"
| "lines_of (c # d # cs) =
     (if c = CR then [] # lines_of (if d = LF then cs else d # cs)
      else if c = LF then [] # lines_of (d # cs)
      else (c # hd (lines_of (d # cs))) # tl (lines_of (d # cs)))"

lemma lines_of_ne [simp]: "lines_of s \<noteq> []"
  by (cases s rule: lines_of.cases) auto

lemma join_with_Cons: "ls \<noteq> [] \<Longrightarrow> join_with sep (l # ls) = l @ sep @ join_with sep ls"
  by (cases ls) auto

lemma join_with_hd: "ls \<noteq> [] \<Longrightarrow> join_with sep ((c # hd ls) # tl ls) = c # join_with sep ls"
  by (cases ls; cases "tl ls") auto

lemma crlf_loop_lines: "crlf_loop s = join_with [CR, LF] (lines_of s)"
  by (induction s rule: lines_of.induct) (auto simp: join_with_Cons join_with_hd)

lemma lines_of_plain: "l \<in> set (lines_of s) \<Longrightarrow> CR \<notin> set l \<and> LF \<notin> set l"
proof (induction s arbitrary: l rule: lines_of.induct)
  case (3 c d cs)
  show ?case
  proof (cases "c = CR \<or> c = LF")
    case True
    then show ?thesis using "3.prems" "3.IH" by (auto split: if_splits)
  next
    case False
    have "hd (lines_of (d # cs)) \<in> set (lines_of (d # cs))" "set (tl (lines_of (d # cs))) \<subseteq> set (lines_of (d # cs))"
      by (simp, cases "lines_of (d # cs)", auto)
    with False "3.prems" "3.IH"(3) show ?thesis by auto
  qed
qed (auto split: if_splits)

lemma lines_of_single: "CR \<notin> set l \<Longrightarrow> LF \<notin> set l \<Longrightarrow> lines_of l = [l]"
  by (induction l rule: lines_of.induct) auto

lemma lines_of_append: "CR \<notin> set l \<Longrightarrow> LF \<notin> set l \<Longrightarrow> lines_of (l @ CR # LF # s) = l # lines_of s"
proof (induction l)
  case (Cons c l)
  then have "lines_of (c # (l @ CR # LF # s)) = (c # hd (lines_of (l @ CR # LF # s))) # tl (lines_of (l @ CR # LF # s))"
    by (cases "l @ CR # LF # s") auto
  with Cons show ?case by simp
qed simp

lemma lines_of_join:
  "ls \<noteq> [] \<Longrightarrow> (\<And>l. l \<in> set ls \<Longrightarrow> CR \<notin> set l \<and> LF \<notin> set l) \<Longrightarrow> lines_of (join_with [CR, LF] ls) = ls"
  by (induction "[CR, LF]" ls rule: join_with.induct) (auto simp: lines_of_single lines_of_append)

text \<open>The scan that decides whether the copy is needed, against the copy itself.\<close>

lemma needs_plain: "CR \<notin> set l \<Longrightarrow> LF \<notin> set l \<Longrightarrow> \<not> needsCRLF_loop p l"
  by (induction l arbitrary: p) auto

lemma needs_append: "CR \<notin> set l \<Longrightarrow> LF \<notin> set l \<Longrightarrow> needsCRLF_loop p (l @ CR # LF # s) = needsCRLF_loop (Some LF) s"
  by (induction l arbitrary: p) auto

lemma needs_join:
  "ls \<noteq> [] \<Longrightarrow> (\<And>l. l \<in> set ls \<Longrightarrow> CR \<notin> set l \<and> LF \<notin> set l) \<Longrightarrow> \<not> needsCRLF_loop p (join_with [CR, LF] ls)"
  by (induction "[CR, LF]" ls arbitrary: p rule: join_with.induct) (auto simp: needs_plain needs_append)

lemma not_needs_fixed: "\<not> needsCRLF_loop p s \<Longrightarrow> p \<noteq> Some CR \<Longrightarrow> crlf_loop s = s"
proof (induction s arbitrary: p rule: crlf_loop.induct)
  case (3 c d cs)
  then show ?case by (cases "c = CR") (auto split: if_splits)
qed (auto split: if_splits)

lemma crlf_loop_clean: "\<not> needsCRLF (crlf_loop s)"
  unfolding needsCRLF_def crlf_loop_lines by (rule needs_join) (auto dest: lines_of_plain)

lemma normalizeCRLF_loop: "normalizeCRLF s = crlf_loop s"
  using not_needs_fixed [of None s] by (simp add: normalizeCRLF_def needsCRLF_def)

text \<open>
  Only line endings change in a body. With or without the shortcut, the result is the lines of the text joined by CRLF, so it has the same
  lines and no lone CR or LF; and the text is copied exactly when it has one.
\<close>

theorem line_endings_normalized:
  "normalizeCRLF s = join_with [CR, LF] (lines_of s) \<and> lines_of (normalizeCRLF s) = lines_of s \<and>
   \<not> needsCRLF (normalizeCRLF s) \<and> (needsCRLF s \<longleftrightarrow> normalizeCRLF s \<noteq> s)"
proof -
  have "lines_of (normalizeCRLF s) = lines_of s"
    unfolding normalizeCRLF_loop crlf_loop_lines by (rule lines_of_join) (auto dest: lines_of_plain)
  moreover have "needsCRLF s \<longleftrightarrow> normalizeCRLF s \<noteq> s"
    using crlf_loop_clean [of s] not_needs_fixed [of None s] by (metis needsCRLF_def normalizeCRLF_loop option.distinct(1))
  ultimately show ?thesis
    using crlf_loop_clean [of s] by (simp add: normalizeCRLF_loop crlf_loop_lines)
qed

section \<open>The header block\<close>

lemma index_sub_Some:
  "index_sub s t = Some i \<Longrightarrow> has_prefix (drop i s) t \<and> (\<forall>j < i. \<not> has_prefix (drop j s) t)"
proof (induction s t arbitrary: i rule: index_sub.induct)
  case (2 c cs t)
  show ?case
  proof (cases "has_prefix (c # cs) t")
    case False
    with "2.prems" obtain k where k: "index_sub cs t = Some k" "i = Suc k" by auto
    have "\<not> has_prefix (drop j (c # cs)) t" if "j < i" for j
      using that False "2.IH" [OF False k(1)] k(2) by (cases j) auto
    with "2.IH" [OF False k(1)] k(2) show ?thesis by simp
  qed (use "2.prems" in auto)
qed (auto simp: has_prefix_def split: if_splits)

lemma index_sub_None: "index_sub s t = None \<Longrightarrow> t \<noteq> [] \<Longrightarrow> \<not> has_prefix (drop j s) t"
proof (induction s t arbitrary: j rule: index_sub.induct)
  case (2 c cs t)
  then show ?case by (cases j) (auto split: if_splits)
qed (auto simp: has_prefix_def)

text \<open>A blank line begins after the line that ends at position \<open>k\<close>.\<close>

definition blank_at :: "string \<Rightarrow> nat \<Rightarrow> bool" where
  "blank_at raw k \<longleftrightarrow> has_prefix (drop k raw) [LF, LF] \<or> has_prefix (drop k raw) [CR, LF, CR, LF]"

lemma prefix_take:
  "has_prefix (drop i raw) (a @ b) \<Longrightarrow> raw = take (i + length a) raw @ b @ drop (i + length a + length b) raw \<and>
     take (i + length a) raw = take i raw @ a"
proof -
  assume "has_prefix (drop i raw) (a @ b)"
  then obtain r where r: "drop i raw = a @ b @ r" by (auto simp: has_prefix_iff)
  have raw: "raw = take i raw @ a @ b @ r" using r by (metis append_take_drop_id)
  show ?thesis
  proof (cases "i \<le> length raw")
    case True
    then have "length (take i raw) = i" by simp
    then show ?thesis using raw by (metis append.assoc append_eq_conv_conj length_append)
  next
    case False
    then show ?thesis using r by simp
  qed
qed

text \<open>
  The header block ends at the first blank line, whichever line ending it uses, and nothing is lost: header block, blank line and body
  are the message. Without a blank line the whole message is header, completed by a newline if it lacks one.
\<close>

theorem split_at_first_blank_line:
  assumes "splitMessage raw = (h, b)"
  shows "(\<exists>p sep. sep \<in> {[LF], [CR, LF]} \<and> h = p @ sep \<and> raw = h @ sep @ b \<and> (\<forall>k < length p. \<not> blank_at raw k)) \<or>
    ((\<forall>k. \<not> blank_at raw k) \<and> b = [] \<and> h = (if has_suffix raw [LF] then raw else raw @ [LF]))"
proof -
  let ?c = "index_sub raw [CR, LF, CR, LF]" and ?l = "index_sub raw [LF, LF]"
  note S = index_sub_Some [of raw "[CR, LF, CR, LF]"] index_sub_Some [of raw "[LF, LF]"]
  note N = index_sub_None [of raw "[CR, LF, CR, LF]"] index_sub_None [of raw "[LF, LF]"]
  have at: ?thesis if "has_prefix (drop i raw) (sep @ sep)" "sep \<in> {[LF], [CR, LF]}" "\<forall>k < i. \<not> blank_at raw k"
      "h = take (i + length sep) raw" "b = drop (i + length sep + length sep) raw" for i sep
  proof -
    have "raw = h @ sep @ b" "h = take i raw @ sep" using prefix_take [OF that(1)] unfolding that(4,5) by (blast, blast)
    moreover have "\<forall>k < length (take i raw). \<not> blank_at raw k" using that(3) by simp
    ultimately show ?thesis using that(2) by blast
  qed
  consider (crlf) i where "?c = Some i" "\<And>j. ?l = Some j \<Longrightarrow> i \<le> j" | (lf) j where "?l = Some j" "\<And>i. ?c = Some i \<Longrightarrow> j < i"
    | (none) "?c = None" "?l = None" by (cases ?c; cases ?l) force+
  then show ?thesis
  proof cases
    case (crlf i)
    have "\<forall>k < i. \<not> blank_at raw k" using S(1) [OF crlf(1)] S(2) N(2) crlf(2) by (cases ?l) (auto simp: blank_at_def)
    moreover have "h = take (i + 2) raw" "b = drop (i + 4) raw"
      using assms crlf by (auto simp: splitMessage_def Let_def split: option.splits if_splits)
    ultimately show ?thesis
      using S(1) [OF crlf(1)] by (intro at [of i "[CR, LF]"]) (simp_all add: numeral_eq_Suc)
  next
    case (lf j)
    have "\<forall>k < j. \<not> blank_at raw k" using S(2) [OF lf(1)] S(1) N(1) lf(2) by (cases ?c) (force simp: blank_at_def)+
    moreover have "h = take (j + 1) raw" "b = drop (j + 2) raw"
      using assms lf by (auto simp: splitMessage_def Let_def split: option.splits if_splits dest!: lf(2))
    ultimately show ?thesis
      using S(2) [OF lf(1)] by (intro at [of j "[LF]"]) simp_all
  next
    case none
    then show ?thesis
      using assms N by (auto simp: splitMessage_def Let_def blank_at_def split: if_splits)
  qed
qed

section \<open>What Parse returns\<close>

lemma readFrom_Inr:
  assumes "readFrom m x header msg0 = Inr msg"
  shows "\<exists>v a addr. header_Values m header ''From'' = [v] \<and> ParseAddressList m (trim_space v) = Some [a] \<and> ParseAddress x a = Inr addr \<and>
    msg = msg0\<lparr>nm_From := addr, nm_FromHeader := trim_space v\<rparr>"
  using assms by (auto simp: readFrom_def Let_def split: list.splits if_splits option.splits sum.splits)

lemma generated_id_trim: "trim_space (generateMessageID i d) = generateMessageID i d" "generateMessageID i d \<noteq> []"
  unfolding generateMessageID_def by (rule trim_space_id) (auto simp: is_ascii_def ascii_space_def)

lemma header_key_mem [simp]:
  "''From'' \<in> header_keys" "''Bcc'' \<in> header_keys" "''Message-Id'' \<in> header_keys" "''Date'' \<in> header_keys"
  by (simp_all add: header_keys_def)

lemma mail_laws:
  assumes "mail_lawful m" "k \<in> header_keys"
  shows "header_Get m h k = (case header_Values m h k of [] \<Rightarrow> [] | v # _ \<Rightarrow> v)" "header_Has m h k \<longleftrightarrow> header_Values m h k \<noteq> []"
    "header_Values m (header_Del m h k) k = []" "header_Values m (header_Set m h k v) k = [v]"
    "k' \<in> header_keys \<Longrightarrow> k' \<noteq> k \<Longrightarrow> header_Values m (header_Del m h k) k' = header_Values m h k'"
    "k' \<in> header_keys \<Longrightarrow> k' \<noteq> k \<Longrightarrow> header_Values m (header_Set m h k v) k' = header_Values m h k'"
  using assms unfolding mail_lawful_def by blast+

lemma strip_bcc_step:
  assumes "mail_lawful m" "strip_bcc m (h, msg) = (h', msg')"
  shows "header_Values m h' ''Bcc'' = []" "k \<in> header_keys \<Longrightarrow> k \<noteq> ''Bcc'' \<Longrightarrow> header_Values m h' k = header_Values m h k"
    "nm_From msg' = nm_From msg"
  using assms(2) by (auto simp: strip_bcc_def mail_laws [OF assms(1)] split: if_splits)

lemma ensure_message_id_step:
  assumes "mail_lawful m" "ensure_message_id m opts (h, msg) = (h', msg')"
  shows "k \<in> header_keys \<Longrightarrow> k \<noteq> ''Message-Id'' \<Longrightarrow> header_Values m h' k = header_Values m h k"
    "trim_space (header_Get m h' ''Message-Id'') = nm_MessageID msg'" "nm_MessageID msg' \<noteq> []" "nm_From msg' = nm_From msg"
proof -
  define g where "g = generateMessageID (mo_NewID opts) (addr_Domain (nm_From msg))"
  note t = generated_id_trim [of "mo_NewID opts" "addr_Domain (nm_From msg)", folded g_def]
  let ?id = "''Message-Id''"
  have "(trim_space (header_Get m h ?id) = [] \<and> h' = header_Set m h ?id g \<and> nm_MessageID msg' = g \<or>
      trim_space (header_Get m h ?id) \<noteq> [] \<and> h' = h \<and> nm_MessageID msg' = trim_space (header_Get m h ?id)) \<and> nm_From msg' = nm_From msg"
    using assms(2) by (auto simp: ensure_message_id_def Let_def g_def split: if_splits)
  moreover have "header_Get m (header_Set m h ?id g) ?id = g" by (simp add: mail_laws [OF assms(1)])
  ultimately show "k \<in> header_keys \<Longrightarrow> k \<noteq> ''Message-Id'' \<Longrightarrow> header_Values m h' k = header_Values m h k"
    "trim_space (header_Get m h' ''Message-Id'') = nm_MessageID msg'" "nm_MessageID msg' \<noteq> []" "nm_From msg' = nm_From msg"
    using t by (auto simp: mail_laws(6) [OF assms(1)])
qed

lemma ensure_date_step:
  assumes "mail_lawful m" "ensure_date m opts (h, msg) = (h', msg')"
  shows "k \<in> header_keys \<Longrightarrow> k \<noteq> ''Date'' \<Longrightarrow> header_Values m h' k = header_Values m h k"
    "header_Values m h' ''Date'' \<noteq> []" "nm_From msg' = nm_From msg" "nm_MessageID msg' = nm_MessageID msg"
  using assms(2) by (auto simp: ensure_date_def mail_laws [OF assms(1)] split: if_splits list.splits)

definition within :: "int \<Rightarrow> nat \<Rightarrow> bool" where
  "within limit n \<longleftrightarrow> limit > 0 \<longrightarrow> int n \<le> limit"


section \<open>Witnesses\<close>

text \<open>Headers as a list of fields, without folding, and address lists without display names.\<close>

definition field_of :: "string \<Rightarrow> (string \<times> string) option" where
  "field_of line = cut (CHR '':'') line"

definition field_mail :: "(string \<times> string) list mail_lib" where
  "field_mail = \<lparr>ReadHeader = (\<lambda>s. those (map field_of (filter (\<lambda>l. l \<noteq> []) (map trim_space (split_on LF s))))),
     WriteHeader = (\<lambda>h. Some (concat (map (\<lambda>(k, v). k @ '': '' @ v @ [CR, LF]) h) @ [CR, LF])),
     header_Len = length,
     header_Get = (\<lambda>h k. case map snd (filter (\<lambda>f. fst f = k) h) of [] \<Rightarrow> [] | v # _ \<Rightarrow> v),
     header_Values = (\<lambda>h k. map snd (filter (\<lambda>f. fst f = k) h)),
     header_Has = (\<lambda>h k. map snd (filter (\<lambda>f. fst f = k) h) \<noteq> []),
     header_Del = (\<lambda>h k. filter (\<lambda>f. fst f \<noteq> k) h),
     header_Set = (\<lambda>h k v. (k, v) # filter (\<lambda>f. fst f \<noteq> k) h),
     ParseAddressList = (\<lambda>s. Some (map trim_space (split_on (CHR '','') s))),
     word_DecodeHeader = Some,
     format_RFC1123Z = (\<lambda>t. ''Thu, 01 Jan 1970 00:00:00 +0000'')\<rparr>"

lemma filter_key:
  "filter (\<lambda>f. fst f \<noteq> k \<and> fst f = k') h = (if k' = k then [] else filter (\<lambda>f. fst f = k') h)"
  by (induction h) auto

lemma field_mail_lawful: "mail_lawful field_mail"
  by (auto simp: mail_lawful_def field_mail_def filter_key)

definition demo_options :: mail_options where
  "demo_options = \<lparr>mo_MaxBytes = 1000, mo_MaxHeaderCount = 10, mo_MaxHeaderBytes = 500, mo_Now = 0, mo_NewID = ''42''\<rparr>"

definition demo_mail :: string where
  "demo_mail = ''From: Bob@Example.com'' @ [LF] @ ''Bcc: eve@example.org'' @ [LF] @ ''Subject: hi'' @ [LF, LF] @ ''one'' @ [LF] @ ''two'' @ [CR]"

lemma demo_mail_parses: "isl (mailnorm_Parse field_mail ascii_idna demo_options demo_mail) = False"
  by code_simp

theorem split_at_first_blank_line_witness:
  "splitMessage (''a: b'' @ [LF, LF] @ ''c'' @ [CR, LF, CR, LF]) = (''a: b'' @ [LF], ''c'' @ [CR, LF, CR, LF]) \<and>
   \<not> blank_at (''a: b'' @ [LF, LF] @ ''c'' @ [CR, LF, CR, LF]) 3"
proof -
  let ?raw = "''a: b'' @ [LF, LF] @ ''c'' @ [CR, LF, CR, LF]"
  have s: "splitMessage ?raw = (''a: b'' @ [LF], ''c'' @ [CR, LF, CR, LF])" by code_simp
  have b: "blank_at ?raw 4" by code_simp
  from split_at_first_blank_line [OF s] b have "\<forall>k < 4. \<not> blank_at ?raw k" by (auto simp: numeral_eq_Suc)
  then have "\<not> blank_at ?raw 3" by simp
  with s show ?thesis by simp
qed


end
