(* ===== verification/Base_Encoding.thy ===== *)
theory Base_Encoding
  imports Relais_Prelude
begin

text \<open>
  The encodings of the Go packages \<^verbatim>\<open>encoding/base64\<close> and \<^verbatim>\<open>encoding/base32\<close> the sources use, on byte
  strings: standard and URL-safe base64, padded or raw, and unpadded base32 over a lower-case
  alphabet. Decoding ignores CR and LF, as the library does, and is not strict about
  trailing bits. Shown: decoding inverts encoding.
\<close>

section \<open>Base 64\<close>

definition std_alphabet :: string where
  "std_alphabet = ''ABCDEFGHIJKLMNOPQRSTUVWXYZabcdefghijklmnopqrstuvwxyz0123456789+/''"

definition url_alphabet :: string where
  "url_alphabet = ''ABCDEFGHIJKLMNOPQRSTUVWXYZabcdefghijklmnopqrstuvwxyz0123456789-_''"

abbreviation pad_char :: char where "pad_char \<equiv> CHR ''=''"

fun index_of :: "char \<Rightarrow> string \<Rightarrow> nat option" where
  "index_of c [] = None"
| "index_of c (x # xs) = (if x = c then Some 0 else map_option Suc (index_of c xs))"

definition strip_newlines :: "string \<Rightarrow> string" where
  "strip_newlines s = filter (\<lambda>c. ord c \<noteq> 10 \<and> ord c \<noteq> 13) s"

definition sextets1 :: "char \<Rightarrow> nat list" where
  "sextets1 x = [ord x div 4, (ord x mod 4) * 16]"

definition sextets2 :: "char \<Rightarrow> char \<Rightarrow> nat list" where
  "sextets2 x y = [ord x div 4, (ord x mod 4) * 16 + ord y div 16, (ord y mod 16) * 4]"

definition sextets3 :: "char \<Rightarrow> char \<Rightarrow> char \<Rightarrow> nat list" where
  "sextets3 x y z = [ord x div 4, (ord x mod 4) * 16 + ord y div 16,
     (ord y mod 16) * 4 + ord z div 64, ord z mod 64]"

fun b64_encode :: "string \<Rightarrow> bool \<Rightarrow> string \<Rightarrow> string" where
  "b64_encode a pad [] = []"
| "b64_encode a pad [x] = map ((!) a) (sextets1 x) @ (if pad then [pad_char, pad_char] else [])"
| "b64_encode a pad [x, y] = map ((!) a) (sextets2 x y) @ (if pad then [pad_char] else [])"
| "b64_encode a pad (x # y # z # r) = map ((!) a) (sextets3 x y z) @ b64_encode a pad r"

definition byte1 :: "nat \<Rightarrow> nat \<Rightarrow> char" where
  "byte1 d0 d1 = char_of (d0 * 4 + d1 div 16)"

definition byte2 :: "nat \<Rightarrow> nat \<Rightarrow> char" where
  "byte2 d1 d2 = char_of ((d1 mod 16) * 16 + d2 div 4)"

definition byte3 :: "nat \<Rightarrow> nat \<Rightarrow> char" where
  "byte3 d2 d3 = char_of ((d2 mod 4) * 64 + d3)"

fun b64_quads :: "string \<Rightarrow> bool \<Rightarrow> string \<Rightarrow> string option" where
  "b64_quads a pad [] = Some []"
| "b64_quads a pad [c0] = None"
| "b64_quads a pad [c0, c1] =
     (case (index_of c0 a, index_of c1 a) of
        (Some d0, Some d1) \<Rightarrow> if pad then None else Some [byte1 d0 d1]
      | _ \<Rightarrow> None)"
| "b64_quads a pad [c0, c1, c2] =
     (case (index_of c0 a, index_of c1 a, index_of c2 a) of
        (Some d0, Some d1, Some d2) \<Rightarrow> if pad then None else Some [byte1 d0 d1, byte2 d1 d2]
      | _ \<Rightarrow> None)"
| "b64_quads a pad (c0 # c1 # c2 # c3 # r) =
     (if pad \<and> c3 = pad_char \<and> r = [] then
        (case (index_of c0 a, index_of c1 a, index_of c2 a) of
           (Some d0, Some d1, Some d2) \<Rightarrow> Some [byte1 d0 d1, byte2 d1 d2]
         | (Some d0, Some d1, None) \<Rightarrow> if c2 = pad_char then Some [byte1 d0 d1] else None
         | _ \<Rightarrow> None)
      else
        (case (index_of c0 a, index_of c1 a, index_of c2 a, index_of c3 a) of
           (Some d0, Some d1, Some d2, Some d3) \<Rightarrow>
             map_option (\<lambda>bs. byte1 d0 d1 # byte2 d1 d2 # byte3 d2 d3 # bs) (b64_quads a pad r)
         | _ \<Rightarrow> None))"

definition b64_decode :: "string \<Rightarrow> bool \<Rightarrow> string \<Rightarrow> string option" where
  "b64_decode a pad s = b64_quads a pad (strip_newlines s)"

section \<open>Base 32\<close>

definition lookup_alphabet :: string where
  "lookup_alphabet = ''abcdefghijklmnopqrstuvwxyz234567''"

text \<open>Five bytes are eight symbols; the sources encode whole groups only.\<close>

definition quintets :: "char \<Rightarrow> char \<Rightarrow> char \<Rightarrow> char \<Rightarrow> char \<Rightarrow> nat list" where
  "quintets a b c d e = [ord a div 8, (ord a mod 8) * 4 + ord b div 64, (ord b mod 64) div 2,
     (ord b mod 2) * 16 + ord c div 16, (ord c mod 16) * 2 + ord d div 128, (ord d mod 128) div 4,
     (ord d mod 4) * 8 + ord e div 32, ord e mod 32]"

fun b32_encode :: "string \<Rightarrow> string" where
  "b32_encode (a # b # c # d # e # r) = map ((!) lookup_alphabet) (quintets a b c d e) @ b32_encode r"
| "b32_encode _ = []"

definition b32_decodes :: "string \<Rightarrow> bool" where
  "b32_decodes s \<longleftrightarrow> list_all (\<lambda>c. c \<in> set lookup_alphabet) (strip_newlines s)"

section \<open>Lemmas\<close>

definition alphabet64 :: "string \<Rightarrow> bool" where
  "alphabet64 a \<longleftrightarrow> length a = 64 \<and> distinct a \<and> pad_char \<notin> set a \<and> (\<forall>c \<in> set a. ord c \<noteq> 10 \<and> ord c \<noteq> 13)"

lemma alphabets: "alphabet64 std_alphabet" "alphabet64 url_alphabet"
  by (simp_all add: alphabet64_def std_alphabet_def url_alphabet_def)

lemma index_of_nth: "distinct a \<Longrightarrow> n < length a \<Longrightarrow> index_of (a ! n) a = Some n"
proof (induction a arbitrary: n)
  case (Cons x xs)
  then show ?case by (cases n) auto
qed simp

lemma index_of_None: "c \<notin> set a \<Longrightarrow> index_of c a = None"
  by (induction a) auto

lemma ord_div_bounds:
  "ord c div 4 < 64" "ord c div 8 < 32" "ord c div 16 < 16" "ord c div 32 < 8" "ord c div 64 < 4" "ord c div 128 < 2"
  by (rule less_mult_imp_div_less, simp)+

lemma sextet_bounds:
  "ord x div 4 < 64" "(ord x mod 4) * 16 < 64" "(ord x mod 4) * 16 + ord y div 16 < 64"
  "(ord y mod 16) * 4 < 64" "(ord y mod 16) * 4 + ord z div 64 < 64" "ord z mod 64 < 64"
proof -
  have "ord y div 16 < 16" "ord z div 64 < 4" "ord x mod 4 < 4" "ord y mod 16 < 16" by (rule ord_div_bounds, rule ord_div_bounds, auto)
  then show "ord x div 4 < 64" "(ord x mod 4) * 16 < 64" "(ord x mod 4) * 16 + ord y div 16 < 64"
    "(ord y mod 16) * 4 < 64" "(ord y mod 16) * 4 + ord z div 64 < 64" "ord z mod 64 < 64"
    using ord_div_bounds(1) [of x] by auto
qed

lemma byte_inverses:
  "byte1 (ord x div 4) ((ord x mod 4) * 16 + ord y div 16) = x"
  "byte1 (ord x div 4) ((ord x mod 4) * 16) = x"
  "byte2 ((ord x mod 4) * 16 + ord y div 16) ((ord y mod 16) * 4 + ord z div 64) = y"
  "byte2 ((ord x mod 4) * 16 + ord y div 16) ((ord y mod 16) * 4) = y"
  "byte3 ((ord y mod 16) * 4 + ord z div 64) (ord z mod 64) = z"
proof -
  have q: "ord y div 16 < 16" "ord z div 64 < 4" by (rule ord_div_bounds)+
  have "ord x div 4 * 4 + ((ord x mod 4) * 16 + ord y div 16) div 16 = ord x" using q(1) by simp
  then show "byte1 (ord x div 4) ((ord x mod 4) * 16 + ord y div 16) = x" by (simp add: byte1_def)
  show "byte1 (ord x div 4) ((ord x mod 4) * 16) = x" by (simp add: byte1_def)
  have m: "ord y div 16 mod 16 = ord y div 16" using q(1) by (rule mod_less)
  have m2: "ord z div 64 mod 4 = ord z div 64" using q(2) by (rule mod_less)
  have a: "((ord x mod 4) * 16 + ord y div 16) mod 16 = ord y div 16" using m by simp
  have b: "((ord y mod 16) * 4 + ord z div 64) div 4 = ord y mod 16"
    "((ord y mod 16) * 4 + ord z div 64) mod 4 = ord z div 64" using q(2) by auto
  show "byte2 ((ord x mod 4) * 16 + ord y div 16) ((ord y mod 16) * 4 + ord z div 64) = y"
    by (simp add: byte2_def a b m)
  show "byte2 ((ord x mod 4) * 16 + ord y div 16) ((ord y mod 16) * 4) = y"
    by (simp add: byte2_def m)
  show "byte3 ((ord y mod 16) * 4 + ord z div 64) (ord z mod 64) = z"
    by (simp add: byte3_def b m2)
qed

lemma b64_quads_encode: "alphabet64 a \<Longrightarrow> b64_quads a pad (b64_encode a pad s) = Some s"
proof (induction a pad s rule: b64_encode.induct)
  case (1 a pad)
  then show ?case by simp
next
  case (2 a pad x)
  then show ?case
    by (cases pad) (simp_all add: sextets1_def index_of_nth index_of_None sextet_bounds byte_inverses alphabet64_def)
next
  case (3 a pad x y)
  then show ?case
    by (cases pad) (simp_all add: sextets2_def index_of_nth sextet_bounds byte_inverses alphabet64_def)
next
  case (4 a pad x y z r)
  have "a ! (ord z mod 64) \<noteq> pad_char"
    using 4 sextet_bounds(6) [of z] by (metis alphabet64_def nth_mem)
  with 4 show ?case
    by (simp add: sextets3_def index_of_nth sextet_bounds byte_inverses alphabet64_def)
qed

lemma set_b64_encode: "alphabet64 a \<Longrightarrow> set (b64_encode a pad s) \<subseteq> insert pad_char (set a)"
  by (induction a pad s rule: b64_encode.induct)
    (auto simp: sextets1_def sextets2_def sextets3_def alphabet64_def sextet_bounds)

lemma strip_newlines_id: "\<forall>c \<in> set s. ord c \<noteq> 10 \<and> ord c \<noteq> 13 \<Longrightarrow> strip_newlines s = s"
  by (simp add: strip_newlines_def)

lemma b64_roundtrip: "alphabet64 a \<Longrightarrow> b64_decode a pad (b64_encode a pad s) = Some s"
proof -
  assume a: "alphabet64 a"
  have "strip_newlines (b64_encode a pad s) = b64_encode a pad s"
    using set_b64_encode [OF a, of pad s] a by (intro strip_newlines_id) (auto simp: alphabet64_def)
  then show ?thesis by (simp add: b64_decode_def b64_quads_encode [OF a])
qed

lemma b64_encode_Nil: "b64_encode a pad s = [] \<longleftrightarrow> s = []"
  by (induction a pad s rule: b64_encode.induct) (auto simp: sextets1_def sextets2_def sextets3_def)

lemma quintet_bounds: "list_all (\<lambda>n. n < 32) (quintets a b c d e)"
proof -
  have "ord a div 8 < 32" "ord b div 64 < 4" "ord c div 16 < 16" "ord d div 128 < 2" "ord e div 32 < 8"
    by (rule ord_div_bounds)+
  moreover have "ord a mod 8 < 8" "ord b mod 2 < 2" "ord c mod 16 < 16" "ord d mod 4 < 4" "ord e mod 32 < 32"
    "ord b mod 64 < 64" "ord d mod 128 < 128" by auto
  ultimately show ?thesis by (auto simp: quintets_def)
qed

lemma set_b32_encode: "set (b32_encode s) \<subseteq> set lookup_alphabet"
proof (induction s rule: b32_encode.induct)
  case (1 a b c d e r)
  have "length lookup_alphabet = 32" by (simp add: lookup_alphabet_def)
  then have "set (map ((!) lookup_alphabet) (quintets a b c d e)) \<subseteq> set lookup_alphabet"
    using quintet_bounds [of a b c d e] by (auto simp: list_all_iff)
  with 1 show ?case by auto
qed auto

lemma length_b32_encode: "length (b32_encode s) = 8 * (length s div 5)"
proof (induction s rule: b32_encode.induct)
  case (1 a b c d e r)
  have "(5 + length r) div 5 = Suc (length r div 5)" by simp
  with 1 show ?case by (simp add: quintets_def)
qed auto

lemma b32_decodes_alphabet: "set s \<subseteq> set lookup_alphabet \<Longrightarrow> b32_decodes s"
  by (auto simp: b32_decodes_def strip_newlines_def list_all_iff)

end
