(* ===== verification/Crypto.thy ===== *)
theory Crypto
  imports Base_Encoding From_Pattern
begin

text \<open>
  The secret formats: \<^verbatim>\<open>src/internal/crypto/keyring.go\<close>, \<^verbatim>\<open>secret.go\<close> and \<^verbatim>\<open>redact.go\<close>.

  The AES-GCM construction and HMAC-SHA256 are the fields of the parameter \<open>crypto_lib\<close>; their laws
  (\<open>crypto_lawful\<close>) are that opening inverts sealing under the same key, nonce and associated
  data, that the nonce is not empty, and that a fingerprint has 32 bytes. The bytes the random generator returns are arguments,
  \<open>None\<close> when it fails.

  Shown: opening inverts sealing, also after a key rotation, a parsed keyring
  always holds its active key, and a minted credential is found and verified from what its holder presents.
\<close>

section \<open>Externals\<close>

record crypto_lib =
  aead_Seal :: "string \<Rightarrow> string \<Rightarrow> string \<Rightarrow> string \<Rightarrow> string"
  aead_Open :: "string \<Rightarrow> string \<Rightarrow> string \<Rightarrow> string \<Rightarrow> string option"
  NonceSize :: nat
  hmac_sha256 :: "string \<Rightarrow> string \<Rightarrow> string"

definition crypto_lawful :: "crypto_lib \<Rightarrow> bool" where
  "crypto_lawful c \<longleftrightarrow>
     (\<forall>key nonce plain ad. aead_Open c key nonce (aead_Seal c key nonce plain ad) ad = Some plain) \<and>
     0 < NonceSize c \<and> (\<forall>key m. length (hmac_sha256 c key m) = 32)"

section \<open>Secrets that do not print\<close>

datatype Secret = Secret string

definition redacted :: string where "redacted = ''[redacted]''"

definition Secret_String :: "Secret \<Rightarrow> string" where "Secret_String s = redacted"

definition Secret_GoString :: "Secret \<Rightarrow> string" where "Secret_GoString s = redacted"

definition Secret_LogValue :: "Secret \<Rightarrow> string" where "Secret_LogValue s = redacted"

definition Secret_MarshalJSON :: "Secret \<Rightarrow> string" where
  "Secret_MarshalJSON s = dquote # redacted @ [dquote]"

definition Secret_MarshalText :: "Secret \<Rightarrow> string" where "Secret_MarshalText s = redacted"

fun Reveal :: "Secret \<Rightarrow> string" where "Reveal (Secret s) = s"

definition Secret_IsEmpty :: "Secret \<Rightarrow> bool" where "Secret_IsEmpty s \<longleftrightarrow> s = Secret []"

section \<open>The keyring\<close>

datatype keyring_error =
    MalformedEntry string | InvalidKeyID string | DuplicateKeyID string
  | KeyNotBase64 string | KeyWrongSize string nat
  | NoKeyConfigured | ActiveKeyNeeded nat | ActiveKeyUnknown string

datatype envelope_error =
    NotSealed | UnsupportedVersion string | UnknownKey string | PayloadNotBase64
  | PayloadTooShort | FailedAuthentication | NonceFailed

record Keyring =
  keys :: "(string \<times> string) list"
  activeID :: string

abbreviation colon :: char where "colon \<equiv> CHR '':''"

definition sealedVersion :: string where "sealedVersion = ''v1''"

definition KeySize :: nat where "KeySize = 32"

definition keyID_char :: "char \<Rightarrow> bool" where
  "keyID_char c \<longleftrightarrow> is_lower c \<or> is_upper c \<or> is_digit c \<or> c = CHR ''_'' \<or> c = hyphen"

definition keyIDPattern :: "string \<Rightarrow> bool" where
  "keyIDPattern s \<longleftrightarrow> 1 \<le> length s \<and> length s \<le> 16 \<and> list_all keyID_char s"

definition redactEntry :: "string \<Rightarrow> string" where
  "redactEntry entry =
     (case cut colon entry of Some (kid, _) \<Rightarrow> kid @ '':<redacted>'' | None \<Rightarrow> ''<redacted>'')"

datatype key_error = NotBase64 | WrongSize nat

definition decodeKey :: "string \<Rightarrow> (key_error, string) result" where
  "decodeKey encoded =
     (case (case b64_decode std_alphabet True encoded of
              Some k \<Rightarrow> Some k
            | None \<Rightarrow> b64_decode std_alphabet False encoded) of
        None \<Rightarrow> Inl NotBase64
      | Some key \<Rightarrow> if length key \<noteq> KeySize then Inl (WrongSize (length key)) else Inr key)"

fun key_error_at :: "string \<Rightarrow> key_error \<Rightarrow> keyring_error" where
  "key_error_at kid NotBase64 = KeyNotBase64 kid"
| "key_error_at kid (WrongSize n) = KeyWrongSize kid n"

text \<open>\<^verbatim>\<open>GenerateKey\<close>, also used for the pepper; \<open>draw\<close> is what the random generator returned.\<close>

definition GenerateKey :: "string option \<Rightarrow> string option" where
  "GenerateKey draw = map_option (b64_encode std_alphabet True) draw"

text \<open>A key of 32 bytes always gives a cipher, so \<^verbatim>\<open>newAEAD\<close> does not fail after \<open>decodeKey\<close>.\<close>

fun parse_entries :: "string list \<Rightarrow> (string \<times> string) list \<Rightarrow> string \<Rightarrow>
    (keyring_error, (string \<times> string) list \<times> string) result" where
  "parse_entries [] ks lastID = Inr (ks, lastID)"
| "parse_entries (raw # rest) ks lastID =
     (let entry = trim_space raw in
      if entry = [] then parse_entries rest ks lastID
      else case cut colon entry of
        None \<Rightarrow> Inl (MalformedEntry (redactEntry entry))
      | Some (id_raw, keyB64) \<Rightarrow>
          let kid = trim_space id_raw in
          if \<not> keyIDPattern kid then Inl (InvalidKeyID kid)
          else if map_of ks kid \<noteq> None then Inl (DuplicateKeyID kid)
          else case decodeKey (trim_space keyB64) of
            Inl e \<Rightarrow> Inl (key_error_at kid e)
          | Inr key \<Rightarrow> parse_entries rest ((kid, key) # ks) kid)"

definition ParseKeyring :: "string \<Rightarrow> string \<Rightarrow> (keyring_error, Keyring) result" where
  "ParseKeyring spec active =
     (case parse_entries (split_on (CHR '','') spec) [] [] of
        Inl e \<Rightarrow> Inl e
      | Inr (ks, lastID) \<Rightarrow>
          if length ks = 0 then Inl NoKeyConfigured
          else if active = [] \<and> length ks = 1 then Inr \<lparr>keys = ks, activeID = lastID\<rparr>
          else if active = [] then Inl (ActiveKeyNeeded (length ks))
          else if map_of ks active = None then Inl (ActiveKeyUnknown active)
          else Inr \<lparr>keys = ks, activeID = active\<rparr>)"

definition associatedData :: "string \<Rightarrow> string" where
  "associatedData keyID = sealedVersion @ colon # keyID"

definition splitEnvelope :: "string \<Rightarrow> (envelope_error, string \<times> string \<times> string) result" where
  "splitEnvelope envelope =
     (case cut colon envelope of
        None \<Rightarrow> Inl NotSealed
      | Some (version, r) \<Rightarrow>
          (case cut colon r of
             None \<Rightarrow> Inl NotSealed
           | Some (keyID, payload) \<Rightarrow>
               if version = [] \<or> keyID = [] \<or> payload = [] then Inl NotSealed
               else Inr (version, keyID, payload)))"

text \<open>\<open>nonce\<close> is what the random generator returned for \<^verbatim>\<open>aead.NonceSize()\<close> bytes.\<close>

definition keyring_Seal :: "crypto_lib \<Rightarrow> Keyring \<Rightarrow> string option \<Rightarrow> string \<Rightarrow> (envelope_error, string) result" where
  "keyring_Seal c k nonce plaintext =
     (case map_of (keys k) (activeID k) of
        None \<Rightarrow> Inl (UnknownKey (activeID k))
      | Some aead \<Rightarrow>
          (case nonce of
             None \<Rightarrow> Inl NonceFailed
           | Some n \<Rightarrow>
               let sealed = n @ aead_Seal c aead n plaintext (associatedData (activeID k)) in
               Inr (sealedVersion @ colon # activeID k @ colon # b64_encode std_alphabet True sealed)))"

definition keyring_Open :: "crypto_lib \<Rightarrow> Keyring \<Rightarrow> string \<Rightarrow> (envelope_error, string) result" where
  "keyring_Open c k envelope =
     (case splitEnvelope envelope of
        Inl e \<Rightarrow> Inl e
      | Inr (version, keyID, payload) \<Rightarrow>
          if version \<noteq> sealedVersion then Inl (UnsupportedVersion version)
          else case map_of (keys k) keyID of
            None \<Rightarrow> Inl (UnknownKey keyID)
          | Some aead \<Rightarrow>
              (case b64_decode std_alphabet True payload of
                 None \<Rightarrow> Inl PayloadNotBase64
               | Some raw \<Rightarrow>
                   if length raw < NonceSize c then Inl PayloadTooShort
                   else (case aead_Open c aead (take (NonceSize c) raw) (drop (NonceSize c) raw)
                                 (associatedData keyID) of
                           None \<Rightarrow> Inl FailedAuthentication
                         | Some plaintext \<Rightarrow> Inr plaintext)))"

definition NeedsRewrap :: "Keyring \<Rightarrow> string \<Rightarrow> bool" where
  "NeedsRewrap k envelope =
     (case splitEnvelope envelope of Inl _ \<Rightarrow> False | Inr (_, keyID, _) \<Rightarrow> keyID \<noteq> activeID k)"

definition IsSealed :: "string \<Rightarrow> bool" where
  "IsSealed v = ok (splitEnvelope v)"

section \<open>Credential secrets\<close>

datatype secret_error =
    MissingPrefix | TokenTooShort | MissingSeparator | EmptySecret | LookupNotBase32
  | EmptyUsername | BadUsername | RandomFailed

record Minted =
  Plaintext :: string
  Lookup :: string
  HMAC :: string

record Hasher =
  pepper :: string

definition APIKeyPrefix :: string where "APIKeyPrefix = ''relais_sk_''"
definition lookupPrefix :: string where "lookupPrefix = ''k_''"
definition lookupRandomChars :: nat where "lookupRandomChars = 12"
definition secretBytes :: nat where "secretBytes = 32"
abbreviation separator :: char where "separator \<equiv> CHR ''_''"

definition NewHasher :: "string \<Rightarrow> (key_error, Hasher) result" where
  "NewHasher pepperB64 =
     (case decodeKey (trim_space pepperB64) of Inl e \<Rightarrow> Inl e | Inr p \<Rightarrow> Inr \<lparr>pepper = p\<rparr>)"

definition Fingerprint :: "crypto_lib \<Rightarrow> Hasher \<Rightarrow> string \<Rightarrow> string" where
  "Fingerprint c h secret = hmac_sha256 c (pepper h) secret"

definition Verify :: "crypto_lib \<Rightarrow> Hasher \<Rightarrow> string \<Rightarrow> string \<Rightarrow> bool" where
  "Verify c h secret stored \<longleftrightarrow>
     (if length stored \<noteq> 32 then False else Fingerprint c h secret = stored)"

text \<open>\<open>draw\<close> is what the generator returned for 10 bytes (lookup) or 32 bytes (secret).\<close>

definition randomLookup :: "string option \<Rightarrow> (secret_error, string) result" where
  "randomLookup draw =
     (case draw of None \<Rightarrow> Inl RandomFailed | Some buf \<Rightarrow> Inr (take lookupRandomChars (b32_encode buf)))"

definition randomSecret :: "string option \<Rightarrow> (secret_error, string) result" where
  "randomSecret draw =
     (case draw of None \<Rightarrow> Inl RandomFailed | Some buf \<Rightarrow> Inr (b64_encode url_alphabet False buf))"

definition MintAPIKey :: "crypto_lib \<Rightarrow> Hasher \<Rightarrow> string option \<Rightarrow> string option \<Rightarrow> (secret_error, Minted) result" where
  "MintAPIKey c h draw1 draw2 =
     (case randomLookup draw1 of
        Inl e \<Rightarrow> Inl e
      | Inr lookupRand \<Rightarrow>
          (case randomSecret draw2 of
             Inl e \<Rightarrow> Inl e
           | Inr secret \<Rightarrow>
               Inr \<lparr>Plaintext = APIKeyPrefix @ lookupRand @ separator # secret,
                    Lookup = lookupPrefix @ lookupRand,
                    HMAC = Fingerprint c h secret\<rparr>))"

definition username_char :: "char \<Rightarrow> bool" where
  "username_char r \<longleftrightarrow> is_lower r \<or> is_digit r \<or> r = dot \<or> r = CHR ''_'' \<or> r = hyphen"

definition smtpUsernamePattern :: "string \<Rightarrow> bool" where
  "smtpUsernamePattern s \<longleftrightarrow> 3 \<le> length s \<and> length s \<le> 64 \<and>
     (is_lower (hd s) \<or> is_digit (hd s)) \<and> list_all username_char (tl s)"

definition NormalizeSMTPUsername :: "idna_lib \<Rightarrow> string \<Rightarrow> (secret_error, string) result" where
  "NormalizeSMTPUsername x username =
     (let norm = to_lower (unicode_lower x) (trim_space username) in
      if norm = [] then Inl EmptyUsername
      else if \<not> smtpUsernamePattern norm then Inl BadUsername
      else Inr norm)"

definition MintSMTPPassword :: "crypto_lib \<Rightarrow> idna_lib \<Rightarrow> Hasher \<Rightarrow> string \<Rightarrow> string option \<Rightarrow> (secret_error, Minted) result" where
  "MintSMTPPassword c x h username draw =
     (case NormalizeSMTPUsername x username of
        Inl e \<Rightarrow> Inl e
      | Inr norm \<Rightarrow>
          (case randomSecret draw of
             Inl e \<Rightarrow> Inl e
           | Inr secret \<Rightarrow> Inr \<lparr>Plaintext = secret, Lookup = norm, HMAC = Fingerprint c h secret\<rparr>))"

definition GenerateSMTPUsername :: "string option \<Rightarrow> (secret_error, string) result" where
  "GenerateSMTPUsername draw =
     (case randomLookup draw of Inl e \<Rightarrow> Inl e | Inr sfx \<Rightarrow> Inr (''relais_'' @ sfx))"

definition ParseAPIKey :: "string \<Rightarrow> (secret_error, string \<times> string) result" where
  "ParseAPIKey raw =
     (let token = trim_space raw in
      if \<not> has_prefix token APIKeyPrefix then Inl MissingPrefix
      else let body = drop (length APIKeyPrefix) token in
      if length body < lookupRandomChars + 1 then Inl TokenTooShort
      else if body ! lookupRandomChars \<noteq> separator then Inl MissingSeparator
      else let lookupRand = take lookupRandomChars body; secret = drop (lookupRandomChars + 1) body in
      if secret = [] then Inl EmptySecret
      else if \<not> b32_decodes lookupRand then Inl LookupNotBase32
      else Inr (lookupPrefix @ lookupRand, secret))"

definition sql_lookup_shape :: "string \<Rightarrow> bool" where
  "sql_lookup_shape s \<longleftrightarrow> 3 \<le> length s \<and> length s \<le> 128 \<and>
     list_all (\<lambda>c. is_lower c \<or> is_upper c \<or> is_digit c \<or> c = CHR ''_'' \<or> c = dot \<or> c = hyphen) s"

section \<open>The interface of a sealing key ring\<close>

text \<open>
  What a client of the key ring relies on: a value it seals opens again and is under the active key, and
  a ring that keeps the old keys still opens the old envelopes.
\<close>

locale envelope_box =
  fixes good :: "'k \<Rightarrow> bool"
    and nonce_ok :: "'n \<Rightarrow> bool"
    and seal :: "'k \<Rightarrow> 'n \<Rightarrow> 'p \<Rightarrow> ('e, 'c) result"
    and opn :: "'k \<Rightarrow> 'c \<Rightarrow> ('e, 'p) result"
    and stale :: "'k \<Rightarrow> 'c \<Rightarrow> bool"
    and extends :: "'k \<Rightarrow> 'k \<Rightarrow> bool"
  assumes seal_total: "good k \<Longrightarrow> nonce_ok n \<Longrightarrow> \<exists>env. seal k n p = Inr env"
    and open_seal: "good k \<Longrightarrow> nonce_ok n \<Longrightarrow> seal k n p = Inr env \<Longrightarrow> opn k env = Inr p"
    and seal_fresh: "good k \<Longrightarrow> nonce_ok n \<Longrightarrow> seal k n p = Inr env \<Longrightarrow> \<not> stale k env"
    and open_mono: "extends k k' \<Longrightarrow> opn k env = Inr p \<Longrightarrow> opn k' env = Inr p"
begin

text \<open>Re-sealing what a ring opens changes the envelope and not the value, and is not needed twice.\<close>

lemma rewrap:
  assumes "good k" "nonce_ok n" "opn k env = Inr p"
  shows "\<exists>env'. seal k n p = Inr env' \<and> opn k env' = opn k env \<and> \<not> stale k env'"
  using assms seal_total open_seal seal_fresh by metis

lemma rotate:
  assumes "good k" "nonce_ok n" "extends k k'" "seal k n p = Inr env"
  shows "opn k' env = Inr p"
  using assms open_seal open_mono by blast

end

section \<open>Lemmas on the key ring\<close>

definition keyring_ok :: "Keyring \<Rightarrow> bool" where
  "keyring_ok k \<longleftrightarrow> map_of (keys k) (activeID k) \<noteq> None \<and> distinct (map fst (keys k)) \<and>
     list_all (\<lambda>(i, key). keyIDPattern i \<and> length key = 32) (keys k)"

definition keeps_keys :: "Keyring \<Rightarrow> Keyring \<Rightarrow> bool" where
  "keeps_keys k k' \<longleftrightarrow> list_all (\<lambda>(i, key). map_of (keys k') i = Some key) (keys k)"

lemma decodeKey_size: "decodeKey s = Inr key \<Longrightarrow> length key = 32"
  by (auto simp: decodeKey_def KeySize_def split: option.splits if_splits)

lemma parse_entries_inv:
  assumes "parse_entries es ks l = Inr (ks', l')"
    and "distinct (map fst ks)" "list_all (\<lambda>(i, key). keyIDPattern i \<and> length key = 32) ks"
    and "ks \<noteq> [] \<Longrightarrow> fst (hd ks) = l"
  shows "distinct (map fst ks') \<and> list_all (\<lambda>(i, key). keyIDPattern i \<and> length key = 32) ks' \<and>
    (ks' \<noteq> [] \<longrightarrow> fst (hd ks') = l')"
  using assms
proof (induction es ks l rule: parse_entries.induct)
  case (1 ks l)
  then show ?case by auto
next
  case (2 raw rest ks l)
  show ?case
  proof (cases "trim_space raw = []")
    case True
    with 2 show ?thesis by simp
  next
    case False
    with "2.prems"(1) obtain i k0 key where c: "cut colon (trim_space raw) = Some (i, k0)"
      and i: "keyIDPattern (trim_space i)" "map_of ks (trim_space i) = None"
      and d: "decodeKey (trim_space k0) = Inr key"
      and r: "parse_entries rest ((trim_space i, key) # ks) (trim_space i) = Inr (ks', l')"
      by (auto simp: Let_def split: option.splits if_splits sum.splits)
    show ?thesis
      using r "2.prems"(2,3) i decodeKey_size [OF d]
      by (intro "2.IH"(2) [OF refl False c refl refl _ _ d]) (auto simp: map_of_eq_None_iff)
  qed
qed

lemma ParseKeyring_ok: "ParseKeyring spec active = Inr k \<Longrightarrow> keyring_ok k"
proof -
  assume p: "ParseKeyring spec active = Inr k"
  then obtain ks l where e: "parse_entries (split_on (CHR '','') spec) [] [] = Inr (ks, l)"
    and ne: "ks \<noteq> []" and kk: "keys k = ks"
    and a: "(length ks = 1 \<and> activeID k = l) \<or> map_of ks (activeID k) \<noteq> None"
    by (auto simp: ParseKeyring_def split: sum.splits prod.splits if_splits)
  have inv: "distinct (map fst ks)" "list_all (\<lambda>(i, key). keyIDPattern i \<and> length key = 32) ks" "fst (hd ks) = l"
    using parse_entries_inv [OF e] ne by auto
  have "map_of ks l \<noteq> None" using ne inv(3) by (cases ks) auto
  with a inv kk show ?thesis by (auto simp: keyring_ok_def)
qed

lemma keyID_no_colon: "keyIDPattern i \<Longrightarrow> colon \<notin> set i"
  by (auto simp: keyIDPattern_def list_all_iff keyID_char_def is_lower_def is_upper_def is_digit_def)

lemma keyring_active:
  assumes "keyring_ok k"
  obtains key where "map_of (keys k) (activeID k) = Some key" "keyIDPattern (activeID k)"
proof -
  from assms obtain key where k: "map_of (keys k) (activeID k) = Some key"
    by (auto simp: keyring_ok_def)
  then have "(activeID k, key) \<in> set (keys k)" by (rule map_of_SomeD)
  with assms have "keyIDPattern (activeID k)" by (auto simp: keyring_ok_def list_all_iff)
  with k that show thesis by blast
qed

lemma splitEnvelope_join:
  assumes "keyIDPattern i" "payload \<noteq> []"
  shows "splitEnvelope (sealedVersion @ colon # i @ colon # payload) = Inr (sealedVersion, i, payload)"
proof -
  have "cut colon (sealedVersion @ colon # i @ colon # payload) = Some (sealedVersion, i @ colon # payload)"
    by (rule cut_append) (simp add: sealedVersion_def)
  moreover have "cut colon (i @ colon # payload) = Some (i, payload)"
    by (rule cut_append) (rule keyID_no_colon [OF assms(1)])
  ultimately show ?thesis
    using assms by (auto simp: splitEnvelope_def sealedVersion_def keyIDPattern_def)
qed

lemma keyring_Seal_shape:
  assumes "crypto_lawful c" "keyring_ok k" "length n = NonceSize c" "keyring_Seal c k (Some n) p = Inr env"
  shows "\<exists>key. map_of (keys k) (activeID k) = Some key \<and>
    splitEnvelope env = Inr (sealedVersion, activeID k,
      b64_encode std_alphabet True (n @ aead_Seal c key n p (associatedData (activeID k))))"
proof -
  obtain key where k: "map_of (keys k) (activeID k) = Some key" "keyIDPattern (activeID k)"
    using assms(2) by (rule keyring_active)
  have "n \<noteq> []" using assms(1,3) by (auto simp: crypto_lawful_def)
  then have "b64_encode std_alphabet True (n @ aead_Seal c key n p (associatedData (activeID k))) \<noteq> []"
    by (simp add: b64_encode_Nil)
  from splitEnvelope_join [OF k(2) this] assms(4) k(1) show ?thesis
    by (auto simp: keyring_Seal_def Let_def)
qed

lemma keyring_Open_Seal:
  assumes "crypto_lawful c" "keyring_ok k" "length n = NonceSize c" "keyring_Seal c k (Some n) p = Inr env"
  shows "keyring_Open c k env = Inr p"
proof -
  from keyring_Seal_shape [OF assms] obtain key where
    "map_of (keys k) (activeID k) = Some key"
    "splitEnvelope env = Inr (sealedVersion, activeID k,
       b64_encode std_alphabet True (n @ aead_Seal c key n p (associatedData (activeID k))))" by blast
  with assms(1,3) show ?thesis
    by (simp add: keyring_Open_def b64_roundtrip alphabets crypto_lawful_def)
qed

lemma keyring_Open_mono:
  assumes "keeps_keys k k'" "keyring_Open c k env = Inr p"
  shows "keyring_Open c k' env = Inr p"
proof -
  from assms(2) obtain keyID payload key where s: "splitEnvelope env = Inr (sealedVersion, keyID, payload)"
    and k: "map_of (keys k) keyID = Some key"
    by (auto simp: keyring_Open_def split: sum.splits prod.splits option.splits if_splits)
  have "map_of (keys k') keyID = Some key"
    using assms(1) map_of_SomeD [OF k] by (auto simp: keeps_keys_def list_all_iff)
  with assms(2) s k show ?thesis by (simp add: keyring_Open_def)
qed

interpretation box: envelope_box "\<lambda>k. crypto_lawful c \<and> keyring_ok k"
    "\<lambda>n. \<exists>b. n = Some b \<and> length b = NonceSize c"
    "keyring_Seal c" "keyring_Open c" NeedsRewrap keeps_keys for c
proof (unfold_locales, goal_cases)
  case (1 k n p)
  then show ?case by (auto simp: keyring_Seal_def Let_def elim: keyring_active)
next
  case (2 k n p env)
  then show ?case by (auto intro: keyring_Open_Seal)
next
  case (3 k n p env)
  then obtain b where "crypto_lawful c" "keyring_ok k" "length b = NonceSize c" "keyring_Seal c k (Some b) p = Inr env" by auto
  then have "\<exists>payload. splitEnvelope env = Inr (sealedVersion, activeID k, payload)"
    using keyring_Seal_shape by blast
  then show ?case by (auto simp: NeedsRewrap_def)
next
  case (4 k k' env p)
  then show ?case by (rule keyring_Open_mono)
qed

section \<open>Lemmas on credential secrets\<close>

definition plain_char :: "char \<Rightarrow> bool" where
  "plain_char c \<longleftrightarrow> is_lower c \<or> is_upper c \<or> is_digit c \<or> c = CHR ''_'' \<or> c = hyphen"

lemma plain_char_text: "plain_char c \<Longrightarrow> is_ascii c \<and> \<not> ascii_space c"
  by (auto simp: plain_char_def is_ascii_def ascii_space_def is_lower_def is_upper_def is_digit_def)

lemma trim_plain: "list_all plain_char s \<Longrightarrow> trim_space s = s"
  by (rule trim_space_all_id) (auto simp: list_all_iff plain_char_text)

text \<open>Bytes that are neither white space nor a comma, as in keys and their ids.\<close>

definition graph_char :: "char \<Rightarrow> bool" where
  "graph_char c \<longleftrightarrow> 33 \<le> ord c \<and> ord c < 127 \<and> c \<noteq> CHR '',''"

lemma graph_char_text: "graph_char c \<Longrightarrow> is_ascii c \<and> \<not> ascii_space c"
  unfolding graph_char_def is_ascii_def ascii_space_def by linarith

lemma trim_graph: "list_all graph_char s \<Longrightarrow> trim_space s = s"
  by (rule trim_space_all_id) (auto simp: list_all_iff graph_char_text)

lemma graph_keyID_char: "keyID_char c \<Longrightarrow> graph_char c"
  by (auto simp: keyID_char_def graph_char_def is_lower_def is_upper_def is_digit_def)

lemma graph_keyID: "keyIDPattern i \<Longrightarrow> list_all graph_char i"
  by (simp add: keyIDPattern_def list_all_iff graph_keyID_char)

lemma graph_b64: "list_all graph_char (b64_encode std_alphabet pad s)"
proof -
  have "list_all graph_char (pad_char # std_alphabet)" by (simp add: std_alphabet_def graph_char_def)
  then show ?thesis using set_b64_encode [OF alphabets(1), of pad s] by (auto simp: list_all_iff)
qed

lemma split_on_none: "c \<notin> set s \<Longrightarrow> split_on c s = [s]"
  by (induction c s rule: split_on.induct) (auto simp: Let_def split: list.splits)

lemma plain_alphabets: "list_all plain_char url_alphabet" "list_all plain_char lookup_alphabet"
  "list_all (\<lambda>c. is_lower c \<or> is_digit c) lookup_alphabet"
  by (simp_all add: url_alphabet_def lookup_alphabet_def plain_char_def is_lower_def is_upper_def is_digit_def)

lemma set_b64_raw: "alphabet64 a \<Longrightarrow> set (b64_encode a False s) \<subseteq> set a"
  by (induction a False s rule: b64_encode.induct)
    (auto simp: sextets1_def sextets2_def sextets3_def alphabet64_def sextet_bounds)

lemma plain_secret: "list_all plain_char (b64_encode url_alphabet False buf)"
  using set_b64_raw [OF alphabets(2), of buf] plain_alphabets(1) by (auto simp: list_all_iff)

lemma lookup_of_draw:
  assumes "length buf = 10"
  shows "length (take 12 (b32_encode buf)) = 12" "set (take 12 (b32_encode buf)) \<subseteq> set lookup_alphabet"
  using assms set_b32_encode [of buf] set_take_subset [of 12 "b32_encode buf"]
  by (auto simp: length_b32_encode)

lemma lookup_chars:
  assumes "length buf = 10" "c \<in> set (take 12 (b32_encode buf))"
  shows "is_lower c \<or> is_digit c"
  using lookup_of_draw(2) [OF assms(1)] assms(2) plain_alphabets(3) by (auto simp: list_all_iff)

lemma MintAPIKey_Inr:
  assumes "MintAPIKey c h (Some b1) (Some b2) = Inr mt"
  shows "mt = \<lparr>Plaintext = APIKeyPrefix @ take 12 (b32_encode b1) @ separator # b64_encode url_alphabet False b2,
    Lookup = lookupPrefix @ take 12 (b32_encode b1), HMAC = Fingerprint c h (b64_encode url_alphabet False b2)\<rparr>"
  using assms by (simp add: MintAPIKey_def randomLookup_def randomSecret_def lookupRandomChars_def)

lemma ParseAPIKey_join:
  assumes "length l = 12" "set l \<subseteq> set lookup_alphabet" "list_all plain_char secret" "secret \<noteq> []"
  shows "ParseAPIKey (APIKeyPrefix @ l @ separator # secret) = Inr (lookupPrefix @ l, secret)"
proof -
  have "list_all plain_char l" using assms(2) plain_alphabets(2) by (auto simp: list_all_iff)
  then have "trim_space (APIKeyPrefix @ l @ separator # secret) = APIKeyPrefix @ l @ separator # secret"
    using assms(3) by (intro trim_plain) (simp add: APIKeyPrefix_def plain_char_def is_lower_def)
  then show ?thesis
    using assms b32_decodes_alphabet [OF assms(2)]
    by (simp add: ParseAPIKey_def has_prefix_iff Let_def lookupRandomChars_def nth_append)
qed

lemma username_char_text: "username_char c \<Longrightarrow> is_ascii c \<and> \<not> ascii_space c \<and> \<not> is_upper c"
  by (auto simp: username_char_def is_ascii_def ascii_space_def is_lower_def is_upper_def is_digit_def)

lemma username_text:
  assumes "smtpUsernamePattern s"
  shows "list_all (\<lambda>c. is_ascii c \<and> \<not> ascii_space c \<and> \<not> is_upper c) s" "sql_lookup_shape s"
proof -
  from assms obtain h t where s: "s = h # t" and h: "is_lower h \<or> is_digit h" and t: "list_all username_char t"
    by (cases s) (auto simp: smtpUsernamePattern_def)
  show "list_all (\<lambda>c. is_ascii c \<and> \<not> ascii_space c \<and> \<not> is_upper c) s"
    using h t username_char_text by (auto simp: s list_all_iff)
  show "sql_lookup_shape s"
    using h t assms by (auto simp: s list_all_iff username_char_def sql_lookup_shape_def smtpUsernamePattern_def)
qed

lemma NormalizeSMTPUsername_fix: "smtpUsernamePattern s \<Longrightarrow> NormalizeSMTPUsername x s = Inr s"
proof -
  assume s: "smtpUsernamePattern s"
  have "trim_space s = s" "to_lower (unicode_lower x) s = s"
    using username_text(1) [OF s]
    by (auto simp: list_all_iff to_lower_ascii map_ascii_lower_id intro!: trim_space_all_id)
  with s show ?thesis by (auto simp: NormalizeSMTPUsername_def smtpUsernamePattern_def)
qed

lemma NormalizeSMTPUsername_Inr: "NormalizeSMTPUsername x s = Inr u \<Longrightarrow> smtpUsernamePattern u"
  by (auto simp: NormalizeSMTPUsername_def Let_def split: if_splits)

lemma Fingerprint_size: "crypto_lawful c \<Longrightarrow> length (Fingerprint c h s) = 32"
  by (simp add: crypto_lawful_def Fingerprint_def)

lemma Verify_Fingerprint: "crypto_lawful c \<Longrightarrow> Verify c h s (Fingerprint c h t) \<longleftrightarrow> Fingerprint c h s = Fingerprint c h t"
  by (simp add: Verify_def Fingerprint_size)

lemma MintAPIKey_ok:
  assumes "crypto_lawful c" "length b1 = 10" "length b2 = secretBytes"
  shows "\<exists>mt secret. MintAPIKey c h (Some b1) (Some b2) = Inr mt \<and> ParseAPIKey (Plaintext mt) = Inr (Lookup mt, secret) \<and>
    Verify c h secret (HMAC mt) \<and> sql_lookup_shape (Lookup mt) \<and> length (HMAC mt) = 32"
proof -
  obtain mt where m: "MintAPIKey c h (Some b1) (Some b2) = Inr mt"
    by (simp add: MintAPIKey_def randomLookup_def randomSecret_def)
  note mt = MintAPIKey_Inr [OF m]
  have "b64_encode url_alphabet False b2 \<noteq> []" using assms(3) by (auto simp: b64_encode_Nil secretBytes_def)
  from ParseAPIKey_join [OF lookup_of_draw [OF assms(2)] plain_secret this]
  have "ParseAPIKey (Plaintext mt) = Inr (Lookup mt, b64_encode url_alphabet False b2)" by (simp add: mt)
  moreover have "Verify c h (b64_encode url_alphabet False b2) (HMAC mt)" "length (HMAC mt) = 32"
    using assms(1) by (simp_all add: mt Verify_Fingerprint Fingerprint_size)
  moreover have "sql_lookup_shape (Lookup mt)"
    using lookup_chars [OF assms(2)] lookup_of_draw(1) [OF assms(2)]
    by (auto simp: mt sql_lookup_shape_def lookupPrefix_def list_all_iff is_lower_def)
  ultimately show ?thesis using m by blast
qed

lemma GenerateSMTPUsername_ok:
  assumes "length buf = 10"
  shows "\<exists>g. GenerateSMTPUsername (Some buf) = Inr g \<and> smtpUsernamePattern g"
proof -
  have "list_all username_char (take 12 (b32_encode buf))"
    using lookup_chars [OF assms] by (auto simp: list_all_iff username_char_def)
  then show ?thesis
    using lookup_of_draw(1) [OF assms]
    by (auto simp: GenerateSMTPUsername_def randomLookup_def lookupRandomChars_def smtpUsernamePattern_def username_char_def is_lower_def)
qed

lemma MintSMTPPassword_ok:
  assumes "crypto_lawful c" "MintSMTPPassword c x h u (Some b) = Inr mt"
  shows "NormalizeSMTPUsername x u = Inr (Lookup mt) \<and> NormalizeSMTPUsername x (Lookup mt) = Inr (Lookup mt) \<and>
    Verify c h (Plaintext mt) (HMAC mt)"
  using assms NormalizeSMTPUsername_fix NormalizeSMTPUsername_Inr
  by (auto simp: MintSMTPPassword_def randomSecret_def Verify_Fingerprint split: sum.splits)

section \<open>Properties\<close>

text \<open>
  C35: A key ring read from its configuration always seals (given a nonce of the cipher's size); what it
  seals is recognised as sealed, opens to the same plaintext and is not reported as needing a re-wrap.
\<close>

theorem seal_open_roundtrip:
  assumes "crypto_lawful c" "ParseKeyring spec active = Inr k" "length n = NonceSize c"
  shows "\<exists>env. keyring_Seal c k (Some n) plain = Inr env \<and> keyring_Open c k env = Inr plain \<and>
    IsSealed env \<and> \<not> NeedsRewrap k env"
proof -
  have k: "keyring_ok k" by (rule ParseKeyring_ok [OF assms(2)])
  obtain env where s: "keyring_Seal c k (Some n) plain = Inr env"
    using box.seal_total [of c k "Some n" plain] assms k by auto
  moreover have "keyring_Open c k env = Inr plain" "\<not> NeedsRewrap k env"
    using box.open_seal [OF _ _ s] box.seal_fresh [OF _ _ s] assms k by auto
  moreover have "IsSealed env" using keyring_Seal_shape [OF assms(1) k assms(3) s] by (auto simp: IsSealed_def)
  ultimately show ?thesis by blast
qed

text \<open>
  Key rotation. When a new configuration keeps every key of the old one, an envelope sealed before the rotation still
  opens to the same plaintext, and it is reported for re-wrapping exactly when the active key changed;
  re-sealing it gives an envelope that opens to the same plaintext and needs no re-wrap.
\<close>

theorem key_rotation:
  assumes "crypto_lawful c" "ParseKeyring spec active = Inr old" "ParseKeyring spec' active' = Inr new"
    "keeps_keys old new" "length n = NonceSize c" "length n' = NonceSize c"
    "keyring_Seal c old (Some n) plain = Inr env"
  shows "keyring_Open c new env = Inr plain \<and> (NeedsRewrap new env \<longleftrightarrow> activeID old \<noteq> activeID new) \<and>
    (\<exists>env'. keyring_Seal c new (Some n') plain = Inr env' \<and> keyring_Open c new env' = Inr plain \<and>
       \<not> NeedsRewrap new env')"
proof -
  have o: "keyring_ok old" and w: "keyring_ok new" using assms(2,3) by (auto intro: ParseKeyring_ok)
  have op: "keyring_Open c new env = Inr plain"
    using box.rotate [OF _ _ assms(4) assms(7)] assms(1,5) o by auto
  moreover have "NeedsRewrap new env \<longleftrightarrow> activeID old \<noteq> activeID new"
    using keyring_Seal_shape [OF assms(1) o assms(5,7)] by (auto simp: NeedsRewrap_def)
  ultimately show ?thesis
    using box.rewrap [of c new "Some n'" env plain] assms(1,6) w by auto
qed

text \<open>
  A configuration that parses as a key ring has at least one key, every id is unique, one to sixteen
  characters of the id alphabet and without a colon, every key has 32 bytes, and the active id names one of the keys:
  the id asked for when one is given, the only key otherwise.
\<close>

theorem keyring_well_formed:
  assumes "ParseKeyring spec active = Inr k"
  shows "keyring_ok k \<and> (\<forall>(i, key) \<in> set (keys k). colon \<notin> set i \<and> length key = KeySize) \<and>
    (if active = [] then length (keys k) = 1 else activeID k = active)"
proof -
  have k: "keyring_ok k" by (rule ParseKeyring_ok [OF assms])
  then have "\<forall>(i, key) \<in> set (keys k). colon \<notin> set i \<and> length key = KeySize"
    using keyID_no_colon by (fastforce simp: keyring_ok_def list_all_iff KeySize_def)
  moreover have "if active = [] then length (keys k) = 1 else activeID k = active"
    using assms by (auto simp: ParseKeyring_def split: sum.splits prod.splits if_splits)
  ultimately show ?thesis using k by blast
qed

text \<open>
  A generated key is usable: it decodes to the 32 bytes drawn, is accepted as the pepper of a hasher, and
  configured alone under a valid id it gives a key ring with that one key, active.
\<close>

theorem generated_key_usable:
  assumes "length buf = KeySize" "GenerateKey (Some buf) = Some key" "keyIDPattern i"
  shows "decodeKey key = Inr buf \<and> NewHasher key = Inr \<lparr>pepper = buf\<rparr> \<and>
    ParseKeyring (i @ colon # key) [] = Inr \<lparr>keys = [(i, buf)], activeID = i\<rparr>"
proof -
  have key: "key = b64_encode std_alphabet True buf" using assms(2) by (simp add: GenerateKey_def)
  have d: "decodeKey key = Inr buf"
    using assms(1) by (simp add: key decodeKey_def b64_roundtrip alphabets)
  have g: "list_all graph_char key" "list_all graph_char i"
    using graph_b64 [of True buf] graph_keyID [OF assms(3)] by (auto simp: key)
  have t: "trim_space key = key" "trim_space i = i" "trim_space (i @ colon # key) = i @ colon # key"
    using g by (auto intro!: trim_graph simp: graph_char_def)
  have c: "cut colon (i @ colon # key) = Some (i, key)"
    using keyID_no_colon [OF assms(3)] by (rule cut_append)
  have s: "split_on (CHR '','') (i @ colon # key) = [i @ colon # key]"
    using g by (intro split_on_none) (auto simp: graph_char_def list_all_iff)
  have "parse_entries [i @ colon # key] [] [] = Inr ([(i, buf)], i)"
    using d t c assms(3) by simp
  then show ?thesis using d t s by (simp add: ParseKeyring_def NewHasher_def)
qed

text \<open>
  A minted API key authenticates. The token shown to the operator parses to the stored lookup value and
  a secret whose fingerprint is the stored one, the lookup value meets the database constraint on lookups, and the
  fingerprint has the 32 bytes the database requires.
\<close>

theorem api_key_roundtrip:
  assumes "crypto_lawful c" "length b1 = 10" "length b2 = secretBytes"
  shows "\<exists>mt secret. MintAPIKey c h (Some b1) (Some b2) = Inr mt \<and> ParseAPIKey (Plaintext mt) = Inr (Lookup mt, secret) \<and>
    Verify c h secret (HMAC mt) \<and> sql_lookup_shape (Lookup mt) \<and> length (HMAC mt) = 32"
  using assms by (rule MintAPIKey_ok)

text \<open>
  SMTP usernames have one spelling. A normalised username is its own normal form, meets the database
  constraint on lookups and has no upper-case letter; a generated username is already in normal form.
\<close>

theorem smtp_username_normal_form:
  assumes "NormalizeSMTPUsername x s = Inr u" "length buf = 10" "GenerateSMTPUsername (Some buf) = Inr g"
  shows "NormalizeSMTPUsername x u = Inr u \<and> sql_lookup_shape u \<and> (\<forall>c \<in> set u. \<not> is_upper c) \<and>
    NormalizeSMTPUsername x g = Inr g"
proof -
  have u: "smtpUsernamePattern u" by (rule NormalizeSMTPUsername_Inr [OF assms(1)])
  have "smtpUsernamePattern g" using GenerateSMTPUsername_ok [OF assms(2)] assms(3) by auto
  then show ?thesis
    using u username_text [OF u] NormalizeSMTPUsername_fix by (auto simp: list_all_iff)
qed

section \<open>Witnesses\<close>

text \<open>A library with the laws: a cipher that only prefixes its inputs, and a constant fingerprint of 32 bytes.\<close>

definition plain_crypto :: crypto_lib where
  "plain_crypto = \<lparr>aead_Seal = (\<lambda>key nonce p ad. p), aead_Open = (\<lambda>key nonce ct ad. Some ct), NonceSize = 12,
     hmac_sha256 = (\<lambda>key m. replicate 32 (CHR ''h''))\<rparr>"

lemma plain_crypto_lawful: "crypto_lawful plain_crypto"
  by (simp add: crypto_lawful_def plain_crypto_def)

definition key_a :: string where "key_a = replicate 32 (char_of (0 :: nat))"
definition ring_a :: Keyring where "ring_a = \<lparr>keys = [(''a'', key_a)], activeID = ''a''\<rparr>"
definition ring_ab :: Keyring where "ring_ab = \<lparr>keys = [(''b'', key_a), (''a'', key_a)], activeID = ''b''\<rparr>"
definition spec_a :: string where "spec_a = ''a:AAAAAAAAAAAAAAAAAAAAAAAAAAAAAAAAAAAAAAAAAAA=''"
definition spec_ab :: string where "spec_ab = spec_a @ '', b:AAAAAAAAAAAAAAAAAAAAAAAAAAAAAAAAAAAAAAAAAAA=''"

lemma parse_ring_a: "ParseKeyring spec_a [] = Inr ring_a"
  by code_simp

lemma parse_ring_ab: "ParseKeyring spec_ab ''b'' = Inr ring_ab"
  by code_simp

definition nonce12 :: string where "nonce12 = replicate 12 (CHR ''n'')"

lemma length_nonce12: "length nonce12 = NonceSize plain_crypto"
  by (simp add: nonce12_def plain_crypto_def)

theorem seal_open_roundtrip_witness:
  "\<exists>env. keyring_Seal plain_crypto ring_a (Some nonce12) ''hunter2'' = Inr env \<and>
    keyring_Open plain_crypto ring_a env = Inr ''hunter2'' \<and> IsSealed env \<and> \<not> NeedsRewrap ring_a env"
  by (rule seal_open_roundtrip [OF plain_crypto_lawful parse_ring_a length_nonce12])

lemma ring_a_kept: "keeps_keys ring_a ring_ab"
  by code_simp

theorem key_rotation_witness:
  "\<exists>env. keyring_Seal plain_crypto ring_a (Some nonce12) ''hunter2'' = Inr env \<and>
    keyring_Open plain_crypto ring_ab env = Inr ''hunter2'' \<and> NeedsRewrap ring_ab env"
proof -
  obtain env where s: "keyring_Seal plain_crypto ring_a (Some nonce12) ''hunter2'' = Inr env"
    by (simp add: keyring_Seal_def ring_a_def Let_def)
  from key_rotation [OF plain_crypto_lawful parse_ring_a parse_ring_ab ring_a_kept length_nonce12 length_nonce12 s]
  have "keyring_Open plain_crypto ring_ab env = Inr ''hunter2'' \<and> NeedsRewrap ring_ab env"
    by (simp add: ring_a_def ring_ab_def)
  with s show ?thesis by blast
qed

theorem keyring_well_formed_witness: "keyring_ok ring_ab \<and> activeID ring_ab = ''b''"
  using keyring_well_formed [OF parse_ring_ab] by simp

theorem generated_key_usable_witness:
  "\<exists>key. GenerateKey (Some key_a) = Some key \<and> decodeKey key = Inr key_a \<and> ok (ParseKeyring (''a'' @ colon # key) [])"
proof -
  obtain key where g: "GenerateKey (Some key_a) = Some key" by (simp add: GenerateKey_def)
  have "length key_a = KeySize" "keyIDPattern ''a''" by code_simp+
  from generated_key_usable [OF this(1) g this(2)] g show ?thesis by auto
qed

theorem api_key_roundtrip_witness:
  "\<exists>mt secret. MintAPIKey plain_crypto \<lparr>pepper = key_a\<rparr> (Some (replicate 10 (CHR ''x''))) (Some key_a) = Inr mt \<and>
    ParseAPIKey (Plaintext mt) = Inr (Lookup mt, secret) \<and> Verify plain_crypto \<lparr>pepper = key_a\<rparr> secret (HMAC mt)"
  using api_key_roundtrip [OF plain_crypto_lawful, of "replicate 10 (CHR ''x'')" key_a "\<lparr>pepper = key_a\<rparr>"]
  by (auto simp: key_a_def secretBytes_def)

lemma normalize_wordpress: "NormalizeSMTPUsername ascii_idna '' WordPress-1 '' = Inr ''wordpress-1''"
  by code_simp

theorem smtp_username_normal_form_witness:
  "NormalizeSMTPUsername ascii_idna ''wordpress-1'' = Inr ''wordpress-1'' \<and> sql_lookup_shape ''wordpress-1''"
proof -
  obtain g where "GenerateSMTPUsername (Some (replicate 10 (CHR ''x''))) = Inr g"
    by (simp add: GenerateSMTPUsername_def randomLookup_def)
  from smtp_username_normal_form [OF normalize_wordpress _ this] show ?thesis by simp
qed

end
