(* ===== verification/Db.thy ===== *)
theory Db
  imports From_Pattern Crypto Complex_Main "HOL-Library.Word" "HOL-Library.State_Monad"
    "HOL-Library.List_Lexorder" "HOL-Library.Char_ord" "HOL-Library.Product_Lexorder"
begin

text \<open>
  The database: the rows of \<^verbatim>\<open>src/internal/db/gen/models.go\<close>, the constraints of the schema in
  \<^verbatim>\<open>src/internal/db/migrations\<close> and the statements of \<^verbatim>\<open>src/internal/db/gen/*.sql.go\<close>.

  A table is the list of its rows. A write is accepted when the rows it changes meet the CHECK constraints, the new
  table the unique indexes and the changed rows their foreign keys, in the order in which the server tests them;
  otherwise the error names the constraint and nothing changes. Every statement gets the time \<open>now()\<close>
  returns (microseconds) and the id \<^verbatim>\<open>gen_random_uuid()\<close> would draw. The server's \<^verbatim>\<open>lower\<close>, which
  depends on its locale, is the argument \<open>lower\<close>; text is sorted byte by byte.

  Shown: every statement keeps the constraints of the whole database, foreign keys across tables included.
\<close>

section \<open>Rows\<close>

type_synonym uuid = "128 word"
type_synonym timestamp = int
type_synonym netip_Addr = "string option"

abbreviation uuid_Nil :: uuid where "uuid_Nil \<equiv> 0"

record Credential =
  cred_ID :: uuid
  cred_Name :: string
  cred_Type :: string
  cred_Lookup :: string
  cred_SecretHmac :: string
  cred_Enabled :: bool
  cred_RateLimitRps :: "rat option"
  cred_RateLimitBurst :: "int option"
  cred_CreatedBy :: string
  cred_CreatedAt :: timestamp
  cred_UpdatedAt :: timestamp
  cred_LastUsedAt :: "timestamp option"
  cred_RevokedAt :: "timestamp option"

record CredentialFromPattern =
  fpat_ID :: uuid
  fpat_CredentialID :: uuid
  fpat_Pattern :: string
  fpat_CreatedAt :: timestamp

record CredentialRecipientPattern =
  rpat_ID :: uuid
  rpat_CredentialID :: uuid
  rpat_Pattern :: string
  rpat_CreatedAt :: timestamp

record Domain =
  dom_ID :: uuid
  dom_Name :: string
  dom_SmtpBackendID :: uuid
  dom_IncludeSubdomains :: bool
  dom_Enabled :: bool
  dom_CreatedAt :: timestamp
  dom_UpdatedAt :: timestamp

record EmailMessage =
  msg_ID :: uuid
  msg_CredentialID :: "uuid option"
  msg_Status :: string
  msg_Facade :: string
  msg_FromAddr :: string
  msg_FromDomain :: string
  msg_ToAddrs :: "string list"
  msg_CcAddrs :: "string list"
  msg_BccAddrs :: "string list"
  msg_EnvelopeRecipients :: "string list"
  msg_Subject :: string
  msg_MessageID :: string
  msg_SizeBytes :: int
  msg_SmtpBackendID :: "uuid option"
  msg_IdempotencyKey :: "string option"
  msg_AttemptCount :: int
  msg_ErrorCode :: "string option"
  msg_ErrorDetail :: "string option"
  msg_RejectionReason :: "string option"
  msg_RemoteIp :: netip_Addr
  msg_CreatedAt :: timestamp
  msg_UpdatedAt :: timestamp
  msg_SentAt :: "timestamp option"

record EmailPayload =
  pay_EmailMessageID :: uuid
  pay_Raw :: string
  pay_CreatedAt :: timestamp

record SmtpBackend =
  be_ID :: uuid
  be_Name :: string
  be_Host :: string
  be_Port :: int
  be_TlsMode :: string
  be_AuthUser :: string
  be_AuthPasswordSealed :: string
  be_HeloName :: string
  be_MaxConcurrency :: int
  be_Enabled :: bool
  be_CreatedAt :: timestamp
  be_UpdatedAt :: timestamp

text \<open>\<open>db_jobs\<close> is the table of the job queue: the arguments of the delivery jobs inserted and not yet finished.\<close>

record db =
  db_backends :: "SmtpBackend list"
  db_domains :: "Domain list"
  db_credentials :: "Credential list"
  db_from_patterns :: "CredentialFromPattern list"
  db_recipient_patterns :: "CredentialRecipientPattern list"
  db_messages :: "EmailMessage list"
  db_payloads :: "EmailPayload list"
  db_jobs :: "uuid list"

definition StatusQueued :: string where "StatusQueued = ''queued''"
definition StatusSending :: string where "StatusSending = ''sending''"
definition StatusSent :: string where "StatusSent = ''sent''"
definition StatusFailed :: string where "StatusFailed = ''failed''"
definition StatusRejected :: string where "StatusRejected = ''rejected''"

definition FacadeREST :: string where "FacadeREST = ''rest''"
definition FacadeSMTP :: string where "FacadeSMTP = ''smtp''"

definition CredentialTypeAPIKey :: string where "CredentialTypeAPIKey = ''api_key''"
definition CredentialTypeSMTPUser :: string where "CredentialTypeSMTPUser = ''smtp_user''"

definition TLSModeSTARTTLS :: string where "TLSModeSTARTTLS = ''starttls''"
definition TLSModeImplicit :: string where "TLSModeImplicit = ''tls''"
definition TLSModeNone :: string where "TLSModeNone = ''none''"

lemmas status_defs [simp] =
  StatusQueued_def StatusSending_def StatusSent_def StatusFailed_def StatusRejected_def
  FacadeREST_def FacadeSMTP_def CredentialTypeAPIKey_def CredentialTypeSMTPUser_def
  TLSModeSTARTTLS_def TLSModeImplicit_def TLSModeNone_def

section \<open>Constraints\<close>

datatype pg_error =
    NoRows
  | UniqueViolation string
  | ForeignKeyViolation string
  | RestrictViolation string
  | CheckViolation string
  | OtherError string

record 'r schema =
  checks :: "(string \<times> ('r \<Rightarrow> bool)) list"
  uniques :: "(string \<times> ('r \<Rightarrow> 'r \<Rightarrow> bool)) list"
  fkeys :: "(string \<times> ('r \<Rightarrow> bool)) list"

text \<open>The first named predicate that fails on some of the rows, and the first unique index two rows share a key of.\<close>

definition violated :: "(string \<times> ('r \<Rightarrow> bool)) list \<Rightarrow> 'r list \<Rightarrow> string option" where
  "violated cs rows = map_option fst (find (\<lambda>(n, p). \<not> list_all p rows) cs)"

definition collided :: "(string \<times> ('r \<Rightarrow> 'r \<Rightarrow> bool)) list \<Rightarrow> 'r list \<Rightarrow> string option" where
  "collided us rows = map_option fst (find (\<lambda>(n, same). \<not> sorted_wrt (\<lambda>a b. \<not> same a b) rows) us)"

definition write_rows :: "'r schema \<Rightarrow> 'r list \<Rightarrow> 'r list \<Rightarrow> (pg_error, 'r list) result" where
  "write_rows sch changed new =
     (case violated (checks sch) changed of
        Some n \<Rightarrow> Inl (CheckViolation n)
      | None \<Rightarrow>
          (case collided (uniques sch) new of
             Some n \<Rightarrow> Inl (UniqueViolation n)
           | None \<Rightarrow>
               (case violated (fkeys sch) changed of
                  Some n \<Rightarrow> Inl (ForeignKeyViolation n)
                | None \<Rightarrow> Inr new)))"

definition insert_row :: "'r schema \<Rightarrow> 'r \<Rightarrow> 'r list \<Rightarrow> (pg_error, 'r list) result" where
  "insert_row sch row tbl = write_rows sch [row] (tbl @ [row])"

definition update_rows :: "'r schema \<Rightarrow> ('r \<Rightarrow> bool) \<Rightarrow> ('r \<Rightarrow> 'r) \<Rightarrow> 'r list \<Rightarrow> (pg_error, 'r list) result" where
  "update_rows sch p f tbl =
     write_rows sch (map f (filter p tbl)) (map (\<lambda>r. if p r then f r else r) tbl)"

definition table_ok :: "'r schema \<Rightarrow> 'r list \<Rightarrow> bool" where
  "table_ok sch tbl \<longleftrightarrow> violated (checks sch) tbl = None \<and> collided (uniques sch) tbl = None \<and>
     violated (fkeys sch) tbl = None"

definition sql_btrim :: "string \<Rightarrow> string" where
  "sql_btrim s = rev (dropWhile (\<lambda>c. c = CHR '' '') (rev (dropWhile (\<lambda>c. c = CHR '' '') s)))"

definition credential_schema :: "(string \<Rightarrow> string) \<Rightarrow> Credential schema" where
  "credential_schema lower = \<lparr>
     checks =
       [(''credential_hmac_length'', \<lambda>r. length (cred_SecretHmac r) = 32),
        (''credential_lookup_shape'', \<lambda>r. sql_lookup_shape (cred_Lookup r)),
        (''credential_name_not_blank'', \<lambda>r. sql_btrim (cred_Name r) \<noteq> []),
        (''credential_rate_limit'', \<lambda>r. (\<forall>x \<in> set_option (cred_RateLimitRps r). x > 0) \<and>
            (\<forall>x \<in> set_option (cred_RateLimitBurst r). x > 0)),
        (''credential_type'', \<lambda>r. cred_Type r \<in> {CredentialTypeAPIKey, CredentialTypeSMTPUser})],
     uniques =
       [(''credential_pkey'', \<lambda>a b. cred_ID a = cred_ID b),
        (''credential_lookup_key'', \<lambda>a b. cred_Lookup a = cred_Lookup b),
        (''credential_name_key'', \<lambda>a b. lower (cred_Name a) = lower (cred_Name b))],
     fkeys = []\<rparr>"

definition from_pattern_schema :: "uuid set \<Rightarrow> CredentialFromPattern schema" where
  "from_pattern_schema creds = \<lparr>
     checks =
       [(''credential_from_pattern_length'', \<lambda>r. length (fpat_Pattern r) \<le> 320),
        (''credential_from_pattern_shape'', \<lambda>r. sql_pattern_shape (fpat_Pattern r))],
     uniques =
       [(''credential_from_pattern_pkey'', \<lambda>a b. fpat_ID a = fpat_ID b),
        (''credential_from_pattern_key'', \<lambda>a b. fpat_CredentialID a = fpat_CredentialID b \<and> fpat_Pattern a = fpat_Pattern b)],
     fkeys = [(''credential_from_pattern_credential_id_fkey'', \<lambda>r. fpat_CredentialID r \<in> creds)]\<rparr>"

definition recipient_pattern_schema :: "uuid set \<Rightarrow> CredentialRecipientPattern schema" where
  "recipient_pattern_schema creds = \<lparr>
     checks =
       [(''credential_recipient_pattern_length'', \<lambda>r. length (rpat_Pattern r) \<le> 320),
        (''credential_recipient_pattern_shape'', \<lambda>r. sql_pattern_shape (rpat_Pattern r))],
     uniques =
       [(''credential_recipient_pattern_pkey'', \<lambda>a b. rpat_ID a = rpat_ID b),
        (''credential_recipient_pattern_key'', \<lambda>a b. rpat_CredentialID a = rpat_CredentialID b \<and> rpat_Pattern a = rpat_Pattern b)],
     fkeys = [(''credential_recipient_pattern_credential_id_fkey'', \<lambda>r. rpat_CredentialID r \<in> creds)]\<rparr>"

definition domain_schema :: "(string \<Rightarrow> string) \<Rightarrow> uuid set \<Rightarrow> Domain schema" where
  "domain_schema lower backends = \<lparr>
     checks =
       [(''domain_name_length'', \<lambda>r. length (dom_Name r) \<le> 253),
        (''domain_name_lowercase'', \<lambda>r. dom_Name r = lower (dom_Name r)),
        (''domain_name_shape'', \<lambda>r. sql_domain_shape (dom_Name r))],
     uniques =
       [(''domain_pkey'', \<lambda>a b. dom_ID a = dom_ID b),
        (''domain_name_key'', \<lambda>a b. dom_Name a = dom_Name b)],
     fkeys = [(''domain_smtp_backend_id_fkey'', \<lambda>r. dom_SmtpBackendID r \<in> backends)]\<rparr>"

definition backend_schema :: "(string \<Rightarrow> string) \<Rightarrow> SmtpBackend schema" where
  "backend_schema lower = \<lparr>
     checks =
       [(''smtp_backend_concurrency'', \<lambda>r. 1 \<le> be_MaxConcurrency r \<and> be_MaxConcurrency r \<le> 64),
        (''smtp_backend_host_not_blank'', \<lambda>r. sql_btrim (be_Host r) \<noteq> []),
        (''smtp_backend_name_not_blank'', \<lambda>r. sql_btrim (be_Name r) \<noteq> []),
        (''smtp_backend_no_plaintext_auth'', \<lambda>r. be_TlsMode r \<noteq> TLSModeNone \<or>
            (be_AuthUser r = [] \<and> be_AuthPasswordSealed r = [])),
        (''smtp_backend_port_range'', \<lambda>r. 1 \<le> be_Port r \<and> be_Port r \<le> 65535),
        (''smtp_backend_tls_mode'', \<lambda>r. be_TlsMode r \<in> {TLSModeSTARTTLS, TLSModeImplicit, TLSModeNone})],
     uniques =
       [(''smtp_backend_pkey'', \<lambda>a b. be_ID a = be_ID b),
        (''smtp_backend_name_key'', \<lambda>a b. lower (be_Name a) = lower (be_Name b))],
     fkeys = []\<rparr>"

definition message_schema :: "(string \<Rightarrow> string) \<Rightarrow> uuid set \<Rightarrow> uuid set \<Rightarrow> EmailMessage schema" where
  "message_schema lower creds backends = \<lparr>
     checks =
       [(''email_message_attempts'', \<lambda>r. 0 \<le> msg_AttemptCount r),
        (''email_message_domain_case'', \<lambda>r. msg_FromDomain r = lower (msg_FromDomain r)),
        (''email_message_facade'', \<lambda>r. msg_Facade r \<in> {FacadeREST, FacadeSMTP}),
        (''email_message_has_recipients'', \<lambda>r. msg_Status r = StatusRejected \<or> msg_EnvelopeRecipients r \<noteq> []),
        (''email_message_idempotency_length'', \<lambda>r. \<forall>k \<in> set_option (msg_IdempotencyKey r). 1 \<le> length k \<and> length k \<le> 255),
        (''email_message_rejection'', \<lambda>r. (msg_Status r = StatusRejected) = (msg_RejectionReason r \<noteq> None)),
        (''email_message_sent_at'', \<lambda>r. msg_Status r \<noteq> StatusSent \<or> msg_SentAt r \<noteq> None),
        (''email_message_size'', \<lambda>r. 0 \<le> msg_SizeBytes r),
        (''email_message_status'', \<lambda>r. msg_Status r \<in> {StatusQueued, StatusSending, StatusSent, StatusFailed, StatusRejected})],
     uniques =
       [(''email_message_pkey'', \<lambda>a b. msg_ID a = msg_ID b),
        (''email_message_idempotency_key'', \<lambda>a b. msg_CredentialID a \<noteq> None \<and> msg_IdempotencyKey a \<noteq> None \<and>
            msg_CredentialID a = msg_CredentialID b \<and> msg_IdempotencyKey a = msg_IdempotencyKey b)],
     fkeys =
       [(''email_message_credential_id_fkey'', \<lambda>r. \<forall>i \<in> set_option (msg_CredentialID r). i \<in> creds),
        (''email_message_smtp_backend_id_fkey'', \<lambda>r. \<forall>i \<in> set_option (msg_SmtpBackendID r). i \<in> backends)]\<rparr>"

definition payload_schema :: "uuid set \<Rightarrow> EmailPayload schema" where
  "payload_schema msgs = \<lparr>
     checks = [],
     uniques = [(''email_payload_pkey'', \<lambda>a b. pay_EmailMessageID a = pay_EmailMessageID b)],
     fkeys = [(''email_payload_email_message_id_fkey'', \<lambda>r. pay_EmailMessageID r \<in> msgs)]\<rparr>"

abbreviation credential_ids :: "db \<Rightarrow> uuid set" where "credential_ids d \<equiv> cred_ID ` set (db_credentials d)"
abbreviation backend_ids :: "db \<Rightarrow> uuid set" where "backend_ids d \<equiv> be_ID ` set (db_backends d)"
abbreviation message_ids :: "db \<Rightarrow> uuid set" where "message_ids d \<equiv> msg_ID ` set (db_messages d)"

definition db_inv :: "(string \<Rightarrow> string) \<Rightarrow> db \<Rightarrow> bool" where
  "db_inv lower d \<longleftrightarrow>
     table_ok (backend_schema lower) (db_backends d) \<and>
     table_ok (domain_schema lower (backend_ids d)) (db_domains d) \<and>
     table_ok (credential_schema lower) (db_credentials d) \<and>
     table_ok (from_pattern_schema (credential_ids d)) (db_from_patterns d) \<and>
     table_ok (recipient_pattern_schema (credential_ids d)) (db_recipient_patterns d) \<and>
     table_ok (message_schema lower (credential_ids d) (backend_ids d)) (db_messages d) \<and>
     table_ok (payload_schema (message_ids d)) (db_payloads d)"

section \<open>Statements\<close>

type_synonym 'a answer = "(pg_error, 'a) result \<times> db"

text \<open>The answer to a write, to a query for one row, and to an update that returns the row it changed.\<close>

definition wrote :: "(pg_error, 't) result \<Rightarrow> ('t \<Rightarrow> 'a) \<Rightarrow> ('t \<Rightarrow> db) \<Rightarrow> db \<Rightarrow> 'a answer" where
  "wrote r val upd d = (case r of Inl e \<Rightarrow> (Inl e, d) | Inr t \<Rightarrow> (Inr (val t), upd t))"

definition one_row :: "'a option \<Rightarrow> db \<Rightarrow> 'a answer" where
  "one_row r d = ((case r of None \<Rightarrow> Inl NoRows | Some a \<Rightarrow> Inr a), d)"

definition wrote_row :: "(pg_error, 't list) result \<Rightarrow> ('t \<Rightarrow> bool) \<Rightarrow> 't list \<Rightarrow> ('t list \<Rightarrow> db) \<Rightarrow> ('t \<Rightarrow> 't) \<Rightarrow> db \<Rightarrow> 't answer" where
  "wrote_row r p old upd f d =
     (case find p old of
        None \<Rightarrow> (Inl NoRows, d)
      | Some row \<Rightarrow> (case r of Inl e \<Rightarrow> (Inl e, d) | Inr t \<Rightarrow> (Inr (f row), upd t)))"

definition affected :: "('t \<Rightarrow> bool) \<Rightarrow> 't list \<Rightarrow> int" where
  "affected p old = int (length (filter p old))"

subsection \<open>Backends\<close>

record CreateSMTPBackendParams =
  csb_Name :: string
  csb_Host :: string
  csb_Port :: int
  csb_TlsMode :: string
  csb_AuthUser :: string
  csb_AuthPasswordSealed :: string
  csb_HeloName :: string
  csb_MaxConcurrency :: int
  csb_Enabled :: bool

definition Queries_CreateSMTPBackend ::
    "(string \<Rightarrow> string) \<Rightarrow> CreateSMTPBackendParams \<Rightarrow> timestamp \<Rightarrow> uuid \<Rightarrow> db \<Rightarrow> SmtpBackend answer" where
  "Queries_CreateSMTPBackend lower arg now uid d =
     (let row = \<lparr>be_ID = uid, be_Name = csb_Name arg, be_Host = csb_Host arg, be_Port = csb_Port arg,
                 be_TlsMode = csb_TlsMode arg, be_AuthUser = csb_AuthUser arg,
                 be_AuthPasswordSealed = csb_AuthPasswordSealed arg, be_HeloName = csb_HeloName arg,
                 be_MaxConcurrency = csb_MaxConcurrency arg, be_Enabled = csb_Enabled arg,
                 be_CreatedAt = now, be_UpdatedAt = now\<rparr>
      in wrote (insert_row (backend_schema lower) row (db_backends d)) (\<lambda>_. row) (\<lambda>t. d\<lparr>db_backends := t\<rparr>) d)"

definition Queries_GetSMTPBackend :: "uuid \<Rightarrow> db \<Rightarrow> SmtpBackend answer" where
  "Queries_GetSMTPBackend i d = one_row (find (\<lambda>b. be_ID b = i) (db_backends d)) d"

definition Queries_GetSMTPBackendByName :: "(string \<Rightarrow> string) \<Rightarrow> string \<Rightarrow> db \<Rightarrow> SmtpBackend answer" where
  "Queries_GetSMTPBackendByName lower name d =
     one_row (find (\<lambda>b. lower (be_Name b) = lower name) (db_backends d)) d"

definition Queries_ListSMTPBackends :: "db \<Rightarrow> SmtpBackend list answer" where
  "Queries_ListSMTPBackends d = (Inr (sort_key be_Name (db_backends d)), d)"

record UpdateSMTPBackendParams =
  usb_ID :: uuid
  usb_Name :: string
  usb_Host :: string
  usb_Port :: int
  usb_TlsMode :: string
  usb_AuthUser :: string
  usb_RotatePassword :: bool
  usb_AuthPasswordSealed :: string
  usb_HeloName :: string
  usb_MaxConcurrency :: int
  usb_Enabled :: bool

definition Queries_UpdateSMTPBackend ::
    "(string \<Rightarrow> string) \<Rightarrow> UpdateSMTPBackendParams \<Rightarrow> timestamp \<Rightarrow> db \<Rightarrow> SmtpBackend answer" where
  "Queries_UpdateSMTPBackend lower arg now d =
     (let p = (\<lambda>b. be_ID b = usb_ID arg);
          f = (\<lambda>b. b\<lparr>be_Name := usb_Name arg, be_Host := usb_Host arg, be_Port := usb_Port arg,
                    be_TlsMode := usb_TlsMode arg, be_AuthUser := usb_AuthUser arg,
                    be_AuthPasswordSealed := (if usb_RotatePassword arg then usb_AuthPasswordSealed arg
                                              else be_AuthPasswordSealed b),
                    be_HeloName := usb_HeloName arg, be_MaxConcurrency := usb_MaxConcurrency arg,
                    be_Enabled := usb_Enabled arg, be_UpdatedAt := now\<rparr>)
      in wrote_row (update_rows (backend_schema lower) p f (db_backends d)) p (db_backends d)
           (\<lambda>t. d\<lparr>db_backends := t\<rparr>) f d)"

definition Queries_DeleteSMTPBackend :: "uuid \<Rightarrow> timestamp \<Rightarrow> db \<Rightarrow> int answer" where
  "Queries_DeleteSMTPBackend i now d =
     (if \<exists>r \<in> set (db_domains d). dom_SmtpBackendID r = i
      then (Inl (RestrictViolation ''domain_smtp_backend_id_fkey''), d)
      else (Inr (affected (\<lambda>b. be_ID b = i) (db_backends d)),
            d\<lparr>db_backends := filter (\<lambda>b. be_ID b \<noteq> i) (db_backends d),
              db_messages := map (\<lambda>m. if msg_SmtpBackendID m = Some i
                                      then m\<lparr>msg_SmtpBackendID := None, msg_UpdatedAt := now\<rparr> else m) (db_messages d)\<rparr>))"

definition Queries_ListSMTPBackendsNeedingRewrap :: "db \<Rightarrow> (uuid \<times> string \<times> string) list answer" where
  "Queries_ListSMTPBackendsNeedingRewrap d =
     (Inr (map (\<lambda>b. (be_ID b, be_Name b, be_AuthPasswordSealed b))
             (sort_key be_Name (filter (\<lambda>b. be_AuthPasswordSealed b \<noteq> []) (db_backends d)))), d)"

definition Queries_UpdateSMTPBackendSealedPassword ::
    "(string \<Rightarrow> string) \<Rightarrow> uuid \<Rightarrow> string \<Rightarrow> timestamp \<Rightarrow> db \<Rightarrow> unit answer" where
  "Queries_UpdateSMTPBackendSealedPassword lower i sealed now d =
     wrote (update_rows (backend_schema lower) (\<lambda>b. be_ID b = i)
              (\<lambda>b. b\<lparr>be_AuthPasswordSealed := sealed, be_UpdatedAt := now\<rparr>) (db_backends d))
       (\<lambda>_. ()) (\<lambda>t. d\<lparr>db_backends := t\<rparr>) d"

text \<open>The row of \<^verbatim>\<open>GetSenderRouteForBackend\<close> is the backend row itself, without its time stamps.\<close>

definition Queries_GetSenderRouteForBackend :: "uuid \<Rightarrow> db \<Rightarrow> SmtpBackend answer" where
  "Queries_GetSenderRouteForBackend i d = one_row (find (\<lambda>b. be_ID b = i) (db_backends d)) d"

subsection \<open>Domains\<close>

definition Queries_CreateDomain ::
    "(string \<Rightarrow> string) \<Rightarrow> string \<Rightarrow> uuid \<Rightarrow> bool \<Rightarrow> bool \<Rightarrow> timestamp \<Rightarrow> uuid \<Rightarrow> db \<Rightarrow> Domain answer" where
  "Queries_CreateDomain lower name backend include_subdomains enabled now uid d =
     (let row = \<lparr>dom_ID = uid, dom_Name = name, dom_SmtpBackendID = backend, dom_IncludeSubdomains = include_subdomains,
                 dom_Enabled = enabled, dom_CreatedAt = now, dom_UpdatedAt = now\<rparr>
      in wrote (insert_row (domain_schema lower (backend_ids d)) row (db_domains d)) (\<lambda>_. row) (\<lambda>t. d\<lparr>db_domains := t\<rparr>) d)"

definition Queries_GetDomain :: "uuid \<Rightarrow> db \<Rightarrow> Domain answer" where
  "Queries_GetDomain i d = one_row (find (\<lambda>r. dom_ID r = i) (db_domains d)) d"

definition Queries_GetDomainByName :: "string \<Rightarrow> db \<Rightarrow> Domain answer" where
  "Queries_GetDomainByName name d = one_row (find (\<lambda>r. dom_Name r = name) (db_domains d)) d"

text \<open>A domain joined with its backend.\<close>

definition backend_of :: "db \<Rightarrow> Domain \<Rightarrow> SmtpBackend option" where
  "backend_of d r = find (\<lambda>b. be_ID b = dom_SmtpBackendID r) (db_backends d)"

definition joined_domains :: "db \<Rightarrow> (Domain \<times> SmtpBackend) list" where
  "joined_domains d = List.map_filter (\<lambda>r. map_option (Pair r) (backend_of d r)) (db_domains d)"

definition Queries_ListDomains :: "db \<Rightarrow> (Domain \<times> string \<times> bool) list answer" where
  "Queries_ListDomains d =
     (Inr (map (\<lambda>(r, b). (r, be_Name b, be_Enabled b)) (sort_key (\<lambda>(r, b). dom_Name r) (joined_domains d))), d)"

text \<open>\<^verbatim>\<open>sender LIKE '%.' || name\<close>: the names hold no LIKE metacharacter, so this is a suffix test.\<close>

definition covers :: "string \<Rightarrow> Domain \<Rightarrow> bool" where
  "covers sender r \<longleftrightarrow> dom_Name r = sender \<or> (dom_IncludeSubdomains r \<and> has_suffix sender (dot # dom_Name r))"

definition Queries_ResolveSenderDomain :: "string \<Rightarrow> db \<Rightarrow> (Domain \<times> SmtpBackend) answer" where
  "Queries_ResolveSenderDomain sender d =
     one_row (List.find (\<lambda>_. True)
       (sort_key (\<lambda>(r, b). - int (length (dom_Name r)))
          (filter (\<lambda>(r, b). dom_Enabled r \<and> be_Enabled b \<and> covers sender r) (joined_domains d)))) d"

definition Queries_UpdateDomain ::
    "(string \<Rightarrow> string) \<Rightarrow> uuid \<Rightarrow> string \<Rightarrow> uuid \<Rightarrow> bool \<Rightarrow> bool \<Rightarrow> timestamp \<Rightarrow> db \<Rightarrow> Domain answer" where
  "Queries_UpdateDomain lower i name backend include_subdomains enabled now d =
     (let p = (\<lambda>r. dom_ID r = i);
          f = (\<lambda>r. r\<lparr>dom_Name := name, dom_SmtpBackendID := backend, dom_IncludeSubdomains := include_subdomains,
                    dom_Enabled := enabled, dom_UpdatedAt := now\<rparr>)
      in wrote_row (update_rows (domain_schema lower (backend_ids d)) p f (db_domains d)) p (db_domains d)
           (\<lambda>t. d\<lparr>db_domains := t\<rparr>) f d)"

definition Queries_DeleteDomain :: "uuid \<Rightarrow> db \<Rightarrow> int answer" where
  "Queries_DeleteDomain i d =
     (Inr (affected (\<lambda>r. dom_ID r = i) (db_domains d)), d\<lparr>db_domains := filter (\<lambda>r. dom_ID r \<noteq> i) (db_domains d)\<rparr>)"

subsection \<open>Credentials\<close>

record CreateCredentialParams =
  ccp_Name :: string
  ccp_Type :: string
  ccp_Lookup :: string
  ccp_SecretHmac :: string
  ccp_Enabled :: bool
  ccp_RateLimitRps :: "rat option"
  ccp_RateLimitBurst :: "int option"
  ccp_CreatedBy :: string

definition Queries_CreateCredential ::
    "(string \<Rightarrow> string) \<Rightarrow> CreateCredentialParams \<Rightarrow> timestamp \<Rightarrow> uuid \<Rightarrow> db \<Rightarrow> Credential answer" where
  "Queries_CreateCredential lower arg now uid d =
     (let row = \<lparr>cred_ID = uid, cred_Name = ccp_Name arg, cred_Type = ccp_Type arg, cred_Lookup = ccp_Lookup arg,
                 cred_SecretHmac = ccp_SecretHmac arg, cred_Enabled = ccp_Enabled arg,
                 cred_RateLimitRps = ccp_RateLimitRps arg, cred_RateLimitBurst = ccp_RateLimitBurst arg,
                 cred_CreatedBy = ccp_CreatedBy arg, cred_CreatedAt = now, cred_UpdatedAt = now,
                 cred_LastUsedAt = None, cred_RevokedAt = None\<rparr>
      in wrote (insert_row (credential_schema lower) row (db_credentials d)) (\<lambda>_. row) (\<lambda>t. d\<lparr>db_credentials := t\<rparr>) d)"

definition Queries_GetCredentialByLookup :: "string \<Rightarrow> db \<Rightarrow> Credential answer" where
  "Queries_GetCredentialByLookup lookup d = one_row (find (\<lambda>c. cred_Lookup c = lookup) (db_credentials d)) d"

definition Queries_GetCredential :: "uuid \<Rightarrow> db \<Rightarrow> Credential answer" where
  "Queries_GetCredential i d = one_row (find (\<lambda>c. cred_ID c = i) (db_credentials d)) d"

definition Queries_ListCredentials :: "db \<Rightarrow> (Credential \<times> int \<times> int) list answer" where
  "Queries_ListCredentials d =
     (Inr (map (\<lambda>c. (c, affected (\<lambda>p. fpat_CredentialID p = cred_ID c) (db_from_patterns d),
                     affected (\<lambda>p. rpat_CredentialID p = cred_ID c) (db_recipient_patterns d)))
             (sort_key (\<lambda>c. - cred_CreatedAt c) (db_credentials d))), d)"

definition Queries_UpdateCredential ::
    "(string \<Rightarrow> string) \<Rightarrow> uuid \<Rightarrow> string \<Rightarrow> bool \<Rightarrow> rat option \<Rightarrow> int option \<Rightarrow> db \<Rightarrow> Credential answer" where
  "Queries_UpdateCredential lower i name enabled rps burst d =
     (let p = (\<lambda>c. cred_ID c = i);
          f = (\<lambda>c. c\<lparr>cred_Name := name, cred_Enabled := enabled, cred_RateLimitRps := rps, cred_RateLimitBurst := burst\<rparr>)
      in wrote_row (update_rows (credential_schema lower) p f (db_credentials d)) p (db_credentials d)
           (\<lambda>t. d\<lparr>db_credentials := t\<rparr>) f d)"

definition Queries_RevokeCredential :: "(string \<Rightarrow> string) \<Rightarrow> uuid \<Rightarrow> timestamp \<Rightarrow> db \<Rightarrow> Credential answer" where
  "Queries_RevokeCredential lower i now d =
     (let p = (\<lambda>c. cred_ID c = i);
          f = (\<lambda>c. c\<lparr>cred_RevokedAt := (case cred_RevokedAt c of None \<Rightarrow> Some now | Some t \<Rightarrow> Some t), cred_Enabled := False\<rparr>)
      in wrote_row (update_rows (credential_schema lower) p f (db_credentials d)) p (db_credentials d)
           (\<lambda>t. d\<lparr>db_credentials := t\<rparr>) f d)"

definition Queries_RotateCredentialSecret ::
    "(string \<Rightarrow> string) \<Rightarrow> uuid \<Rightarrow> string \<Rightarrow> string \<Rightarrow> timestamp \<Rightarrow> db \<Rightarrow> Credential answer" where
  "Queries_RotateCredentialSecret lower i lookup hmac now d =
     (let p = (\<lambda>c. cred_ID c = i \<and> cred_RevokedAt c = None);
          f = (\<lambda>c. c\<lparr>cred_Lookup := lookup, cred_SecretHmac := hmac, cred_UpdatedAt := now\<rparr>)
      in wrote_row (update_rows (credential_schema lower) p f (db_credentials d)) p (db_credentials d)
           (\<lambda>t. d\<lparr>db_credentials := t\<rparr>) f d)"

definition Queries_TouchCredentialLastUsed :: "(string \<Rightarrow> string) \<Rightarrow> uuid \<Rightarrow> int \<Rightarrow> timestamp \<Rightarrow> db \<Rightarrow> unit answer" where
  "Queries_TouchCredentialLastUsed lower i min_interval now d =
     wrote (update_rows (credential_schema lower)
              (\<lambda>c. cred_ID c = i \<and> (case cred_LastUsedAt c of None \<Rightarrow> True | Some t \<Rightarrow> t < now - min_interval))
              (\<lambda>c. c\<lparr>cred_LastUsedAt := Some now\<rparr>) (db_credentials d))
       (\<lambda>_. ()) (\<lambda>t. d\<lparr>db_credentials := t\<rparr>) d"

definition Queries_DeleteCredential :: "uuid \<Rightarrow> timestamp \<Rightarrow> db \<Rightarrow> int answer" where
  "Queries_DeleteCredential i now d =
     (Inr (affected (\<lambda>c. cred_ID c = i) (db_credentials d)),
      d\<lparr>db_credentials := filter (\<lambda>c. cred_ID c \<noteq> i) (db_credentials d),
        db_from_patterns := filter (\<lambda>p. fpat_CredentialID p \<noteq> i) (db_from_patterns d),
        db_recipient_patterns := filter (\<lambda>p. rpat_CredentialID p \<noteq> i) (db_recipient_patterns d),
        db_messages := map (\<lambda>m. if msg_CredentialID m = Some i
                                then m\<lparr>msg_CredentialID := None, msg_UpdatedAt := now\<rparr> else m) (db_messages d)\<rparr>)"

definition Queries_AddFromPattern :: "uuid \<Rightarrow> string \<Rightarrow> timestamp \<Rightarrow> uuid \<Rightarrow> db \<Rightarrow> CredentialFromPattern answer" where
  "Queries_AddFromPattern cred pattern now uid d =
     (case find (\<lambda>p. fpat_CredentialID p = cred \<and> fpat_Pattern p = pattern) (db_from_patterns d) of
        Some p \<Rightarrow> (Inr p, d)
      | None \<Rightarrow>
          (let row = \<lparr>fpat_ID = uid, fpat_CredentialID = cred, fpat_Pattern = pattern, fpat_CreatedAt = now\<rparr>
           in wrote (insert_row (from_pattern_schema (credential_ids d)) row (db_from_patterns d)) (\<lambda>_. row)
                (\<lambda>t. d\<lparr>db_from_patterns := t\<rparr>) d))"

definition Queries_ListFromPatterns :: "uuid \<Rightarrow> db \<Rightarrow> CredentialFromPattern list answer" where
  "Queries_ListFromPatterns cred d =
     (Inr (sort_key fpat_Pattern (filter (\<lambda>p. fpat_CredentialID p = cred) (db_from_patterns d))), d)"

definition Queries_DeleteFromPattern :: "uuid \<Rightarrow> uuid \<Rightarrow> db \<Rightarrow> int answer" where
  "Queries_DeleteFromPattern cred i d =
     (Inr (affected (\<lambda>p. fpat_CredentialID p = cred \<and> fpat_ID p = i) (db_from_patterns d)),
      d\<lparr>db_from_patterns := filter (\<lambda>p. \<not> (fpat_CredentialID p = cred \<and> fpat_ID p = i)) (db_from_patterns d)\<rparr>)"

definition Queries_AddRecipientPattern :: "uuid \<Rightarrow> string \<Rightarrow> timestamp \<Rightarrow> uuid \<Rightarrow> db \<Rightarrow> CredentialRecipientPattern answer" where
  "Queries_AddRecipientPattern cred pattern now uid d =
     (case find (\<lambda>p. rpat_CredentialID p = cred \<and> rpat_Pattern p = pattern) (db_recipient_patterns d) of
        Some p \<Rightarrow> (Inr p, d)
      | None \<Rightarrow>
          (let row = \<lparr>rpat_ID = uid, rpat_CredentialID = cred, rpat_Pattern = pattern, rpat_CreatedAt = now\<rparr>
           in wrote (insert_row (recipient_pattern_schema (credential_ids d)) row (db_recipient_patterns d)) (\<lambda>_. row)
                (\<lambda>t. d\<lparr>db_recipient_patterns := t\<rparr>) d))"

definition Queries_ListRecipientPatterns :: "uuid \<Rightarrow> db \<Rightarrow> CredentialRecipientPattern list answer" where
  "Queries_ListRecipientPatterns cred d =
     (Inr (sort_key rpat_Pattern (filter (\<lambda>p. rpat_CredentialID p = cred) (db_recipient_patterns d))), d)"

definition Queries_DeleteRecipientPattern :: "uuid \<Rightarrow> uuid \<Rightarrow> db \<Rightarrow> int answer" where
  "Queries_DeleteRecipientPattern cred i d =
     (Inr (affected (\<lambda>p. rpat_CredentialID p = cred \<and> rpat_ID p = i) (db_recipient_patterns d)),
      d\<lparr>db_recipient_patterns := filter (\<lambda>p. \<not> (rpat_CredentialID p = cred \<and> rpat_ID p = i)) (db_recipient_patterns d)\<rparr>)"

subsection \<open>Messages\<close>

record InsertEmailMessageParams =
  iem_CredentialID :: "uuid option"
  iem_Status :: string
  iem_Facade :: string
  iem_FromAddr :: string
  iem_FromDomain :: string
  iem_ToAddrs :: "string list"
  iem_CcAddrs :: "string list"
  iem_BccAddrs :: "string list"
  iem_EnvelopeRecipients :: "string list"
  iem_Subject :: string
  iem_MessageID :: string
  iem_SizeBytes :: int
  iem_SmtpBackendID :: "uuid option"
  iem_IdempotencyKey :: "string option"
  iem_RemoteIp :: netip_Addr

definition new_message :: "InsertEmailMessageParams \<Rightarrow> string option \<Rightarrow> timestamp \<Rightarrow> uuid \<Rightarrow> EmailMessage" where
  "new_message arg reason now uid =
     \<lparr>msg_ID = uid, msg_CredentialID = iem_CredentialID arg, msg_Status = iem_Status arg, msg_Facade = iem_Facade arg,
      msg_FromAddr = iem_FromAddr arg, msg_FromDomain = iem_FromDomain arg, msg_ToAddrs = iem_ToAddrs arg,
      msg_CcAddrs = iem_CcAddrs arg, msg_BccAddrs = iem_BccAddrs arg,
      msg_EnvelopeRecipients = iem_EnvelopeRecipients arg, msg_Subject = iem_Subject arg,
      msg_MessageID = iem_MessageID arg, msg_SizeBytes = iem_SizeBytes arg, msg_SmtpBackendID = iem_SmtpBackendID arg,
      msg_IdempotencyKey = iem_IdempotencyKey arg, msg_AttemptCount = 0, msg_ErrorCode = None, msg_ErrorDetail = None,
      msg_RejectionReason = reason, msg_RemoteIp = iem_RemoteIp arg, msg_CreatedAt = now, msg_UpdatedAt = now,
      msg_SentAt = None\<rparr>"

definition db_message_schema :: "(string \<Rightarrow> string) \<Rightarrow> db \<Rightarrow> EmailMessage schema" where
  "db_message_schema lower d = message_schema lower (credential_ids d) (backend_ids d)"

definition Queries_InsertEmailMessage ::
    "(string \<Rightarrow> string) \<Rightarrow> InsertEmailMessageParams \<Rightarrow> timestamp \<Rightarrow> uuid \<Rightarrow> db \<Rightarrow> EmailMessage answer" where
  "Queries_InsertEmailMessage lower arg now uid d =
     (let row = new_message arg None now uid
      in wrote (insert_row (db_message_schema lower d) row (db_messages d)) (\<lambda>_. row) (\<lambda>t. d\<lparr>db_messages := t\<rparr>) d)"

text \<open>The statement writes the status itself, and neither a backend nor an idempotency key.\<close>

definition Queries_InsertRejectedEmailMessage ::
    "(string \<Rightarrow> string) \<Rightarrow> InsertEmailMessageParams \<Rightarrow> string option \<Rightarrow> timestamp \<Rightarrow> uuid \<Rightarrow> db \<Rightarrow> EmailMessage answer" where
  "Queries_InsertRejectedEmailMessage lower arg reason now uid d =
     (let row = new_message (arg\<lparr>iem_Status := ''rejected'', iem_SmtpBackendID := None, iem_IdempotencyKey := None\<rparr>) reason now uid
      in wrote (insert_row (db_message_schema lower d) row (db_messages d)) (\<lambda>_. row) (\<lambda>t. d\<lparr>db_messages := t\<rparr>) d)"

definition Queries_InsertEmailPayload :: "uuid \<Rightarrow> string \<Rightarrow> timestamp \<Rightarrow> db \<Rightarrow> unit answer" where
  "Queries_InsertEmailPayload i raw now d =
     wrote (insert_row (payload_schema (message_ids d)) \<lparr>pay_EmailMessageID = i, pay_Raw = raw, pay_CreatedAt = now\<rparr> (db_payloads d))
       (\<lambda>_. ()) (\<lambda>t. d\<lparr>db_payloads := t\<rparr>) d"

definition Queries_GetEmailMessage :: "uuid \<Rightarrow> db \<Rightarrow> EmailMessage answer" where
  "Queries_GetEmailMessage i d = one_row (find (\<lambda>m. msg_ID m = i) (db_messages d)) d"

definition with_names :: "db \<Rightarrow> EmailMessage \<Rightarrow> EmailMessage \<times> string option \<times> string option" where
  "with_names d m =
     (m, Option.bind (msg_CredentialID m) (\<lambda>i. map_option cred_Name (find (\<lambda>c. cred_ID c = i) (db_credentials d))),
      Option.bind (msg_SmtpBackendID m) (\<lambda>i. map_option be_Name (find (\<lambda>b. be_ID b = i) (db_backends d))))"

definition Queries_GetAdminEmailMessage :: "uuid \<Rightarrow> db \<Rightarrow> (EmailMessage \<times> string option \<times> string option) answer" where
  "Queries_GetAdminEmailMessage i d = one_row (map_option (with_names d) (find (\<lambda>m. msg_ID m = i) (db_messages d))) d"

text \<open>A NULL parameter, like a NULL column, equals nothing.\<close>

definition Queries_GetEmailMessageByIdempotencyKey ::
    "uuid option \<Rightarrow> string option \<Rightarrow> int \<Rightarrow> timestamp \<Rightarrow> db \<Rightarrow> EmailMessage answer" where
  "Queries_GetEmailMessageByIdempotencyKey cred key ttl now d =
     one_row (find (\<lambda>m. cred \<noteq> None \<and> msg_CredentialID m = cred \<and> key \<noteq> None \<and> msg_IdempotencyKey m = key \<and>
                        now - ttl < msg_CreatedAt m) (db_messages d)) d"

definition Queries_GetEmailPayload :: "uuid \<Rightarrow> db \<Rightarrow> string answer" where
  "Queries_GetEmailPayload i d = one_row (map_option pay_Raw (find (\<lambda>p. pay_EmailMessageID p = i) (db_payloads d))) d"

definition update_messages ::
    "(string \<Rightarrow> string) \<Rightarrow> (EmailMessage \<Rightarrow> bool) \<Rightarrow> (EmailMessage \<Rightarrow> EmailMessage) \<Rightarrow> timestamp \<Rightarrow> db \<Rightarrow> int answer" where
  "update_messages lower p f now d =
     wrote (update_rows (db_message_schema lower d) p (\<lambda>m. (f m)\<lparr>msg_UpdatedAt := now\<rparr>) (db_messages d))
       (\<lambda>_. affected p (db_messages d)) (\<lambda>t. d\<lparr>db_messages := t\<rparr>) d"

text \<open>The counter is a 32-bit column: counting past it is an error of the server.\<close>

definition Queries_MarkEmailSending :: "(string \<Rightarrow> string) \<Rightarrow> uuid \<Rightarrow> timestamp \<Rightarrow> db \<Rightarrow> int answer" where
  "Queries_MarkEmailSending lower i now d =
     (let p = (\<lambda>m. msg_ID m = i \<and> msg_Status m \<in> {''queued'', ''sending''}) in
      if \<exists>m \<in> set (db_messages d). p m \<and> msg_AttemptCount m \<ge> 2147483647
      then (Inl (OtherError ''integer out of range''), d)
      else update_messages lower p
             (\<lambda>m. m\<lparr>msg_Status := ''sending'', msg_AttemptCount := msg_AttemptCount m + 1,
                    msg_ErrorCode := None, msg_ErrorDetail := None\<rparr>) now d)"

definition Queries_MarkEmailSent :: "(string \<Rightarrow> string) \<Rightarrow> uuid \<Rightarrow> timestamp \<Rightarrow> db \<Rightarrow> int answer" where
  "Queries_MarkEmailSent lower i now d =
     update_messages lower (\<lambda>m. msg_ID m = i \<and> msg_Status m \<noteq> ''sent'')
       (\<lambda>m. m\<lparr>msg_Status := ''sent'', msg_SentAt := Some now, msg_ErrorCode := None, msg_ErrorDetail := None\<rparr>) now d"

definition Queries_MarkEmailFailed ::
    "(string \<Rightarrow> string) \<Rightarrow> uuid \<Rightarrow> string option \<Rightarrow> string option \<Rightarrow> timestamp \<Rightarrow> db \<Rightarrow> int answer" where
  "Queries_MarkEmailFailed lower i code detail now d =
     update_messages lower (\<lambda>m. msg_ID m = i \<and> msg_Status m \<noteq> ''sent'')
       (\<lambda>m. m\<lparr>msg_Status := ''failed'', msg_ErrorCode := code, msg_ErrorDetail := detail\<rparr>) now d"

definition Queries_MarkEmailRetrying ::
    "(string \<Rightarrow> string) \<Rightarrow> uuid \<Rightarrow> string option \<Rightarrow> string option \<Rightarrow> timestamp \<Rightarrow> db \<Rightarrow> int answer" where
  "Queries_MarkEmailRetrying lower i code detail now d =
     update_messages lower (\<lambda>m. msg_ID m = i \<and> msg_Status m \<noteq> ''sent'')
       (\<lambda>m. m\<lparr>msg_Status := ''queued'', msg_ErrorCode := code, msg_ErrorDetail := detail\<rparr>) now d"

definition Queries_MarkEmailSentPartial ::
    "(string \<Rightarrow> string) \<Rightarrow> uuid \<Rightarrow> string option \<Rightarrow> string option \<Rightarrow> timestamp \<Rightarrow> db \<Rightarrow> int answer" where
  "Queries_MarkEmailSentPartial lower i code detail now d =
     update_messages lower (\<lambda>m. msg_ID m = i \<and> msg_Status m \<noteq> ''sent'')
       (\<lambda>m. m\<lparr>msg_Status := ''sent'', msg_SentAt := Some now, msg_ErrorCode := code, msg_ErrorDetail := detail\<rparr>) now d"

record ListEmailMessagesParams =
  lem_Status :: "string option"
  lem_CredentialFilter :: "uuid option"
  lem_BeforeCreatedAt :: "timestamp option"
  lem_BeforeID :: "uuid option"
  lem_RowLimit :: int

text \<open>
  The page condition \<^verbatim>\<open>(created_at, id) < (before_created_at, before_id)\<close>; with a NULL id the comparison is
  decided by the times alone, and is NULL when they are equal. A negative limit is an error of the server.
\<close>

definition before_cursor :: "ListEmailMessagesParams \<Rightarrow> EmailMessage \<Rightarrow> bool" where
  "before_cursor arg m =
     (case lem_BeforeCreatedAt arg of
        None \<Rightarrow> True
      | Some t \<Rightarrow> msg_CreatedAt m < t \<or>
          (msg_CreatedAt m = t \<and> (case lem_BeforeID arg of None \<Rightarrow> False | Some i \<Rightarrow> msg_ID m < i)))"

definition message_selected :: "ListEmailMessagesParams \<Rightarrow> EmailMessage \<Rightarrow> bool" where
  "message_selected arg m \<longleftrightarrow>
     (lem_Status arg = None \<or> lem_Status arg = Some (msg_Status m)) \<and>
     (lem_CredentialFilter arg = None \<or> lem_CredentialFilter arg = msg_CredentialID m) \<and> before_cursor arg m"

text \<open>Newest first, by \<^verbatim>\<open>(created_at, id)\<close> descending.\<close>

definition page_key :: "EmailMessage \<Rightarrow> int \<times> int" where
  "page_key m = (- msg_CreatedAt m, - uint (msg_ID m))"

definition Queries_ListEmailMessages ::
    "ListEmailMessagesParams \<Rightarrow> db \<Rightarrow> (EmailMessage \<times> string option \<times> string option) list answer" where
  "Queries_ListEmailMessages arg d =
     (if lem_RowLimit arg < 0 then (Inl (OtherError ''LIMIT must not be negative''), d)
      else (Inr (map (with_names d) (take (nat (lem_RowLimit arg))
                  (sort_key page_key (filter (message_selected arg) (db_messages d))))), d))"

definition purgeable :: "int \<Rightarrow> int \<Rightarrow> timestamp \<Rightarrow> EmailMessage \<Rightarrow> bool" where
  "purgeable sent_retention failed_retention now m \<longleftrightarrow>
     (msg_Status m = ''sent'' \<and> (case msg_SentAt m of None \<Rightarrow> False | Some t \<Rightarrow> t < now - sent_retention)) \<or>
     (msg_Status m = ''failed'' \<and> msg_UpdatedAt m < now - failed_retention)"

definition Queries_PurgeSentPayloads :: "int \<Rightarrow> int \<Rightarrow> timestamp \<Rightarrow> db \<Rightarrow> int answer" where
  "Queries_PurgeSentPayloads sent_retention failed_retention now d =
     (let p = (\<lambda>r. \<exists>m \<in> set (db_messages d). msg_ID m = pay_EmailMessageID r \<and> purgeable sent_retention failed_retention now m)
      in (Inr (affected p (db_payloads d)), d\<lparr>db_payloads := filter (\<lambda>r. \<not> p r) (db_payloads d)\<rparr>))"

definition Queries_CountEmailsByStatus :: "db \<Rightarrow> (string \<times> int) list answer" where
  "Queries_CountEmailsByStatus d =
     (Inr (map (\<lambda>s. (s, affected (\<lambda>m. msg_Status m = s) (db_messages d))) (remdups (map msg_Status (db_messages d)))), d)"

end
