(* ===== verification/World.thy ===== *)
theory World
  imports Db
begin

text \<open>
  Sessions with the database: how the sources reach it (\<^verbatim>\<open>pgxpool\<close>, \<^verbatim>\<open>withTx\<close> and \<^verbatim>\<open>withTxRaw\<close> of
  \<^verbatim>\<open>src/internal/store\<close>), as programs of the state monad over a \<open>world\<close>.

  A world holds the tables, the server's clock, what the network does to the next statements, what
  other sessions commit before them, the ids the server will draw and the bytes the random generator
  will return. A statement may be lost before it runs or after it ran: the caller sees an error in both cases. A transaction is
  atomic: it runs on the tables as they are when it begins, and leaves them as they
  were unless it commits. Other sessions commit between statements.

  The locale \<open>db_order\<close> is the logic the later theories use: a preorder on databases that every statement and every other session
  respects is respected by every program built from them. It is interpreted on the schema
  constraints and on the history of the messages.
\<close>

section \<open>The world\<close>

datatype net_event = Answered | RequestLost | ReplyLost

record world =
  tables :: db
  clock :: timestamp
  net :: "net_event list"
  peers :: "(db \<Rightarrow> db) list"
  ids :: "uuid list"
  draws :: "string option list"

type_synonym 'a prog = "(world, 'a) state"

definition connection_error :: pg_error where "connection_error = OtherError ''connection''"

text \<open>The id drawn is never the nil UUID.\<close>

definition draw_id :: "world \<Rightarrow> uuid" where
  "draw_id w = (case ids w of [] \<Rightarrow> 1 | i # _ \<Rightarrow> if i = uuid_Nil then 1 else i)"

definition net_event :: "world \<Rightarrow> net_event" where
  "net_event w = (case net w of [] \<Rightarrow> Answered | e # _ \<Rightarrow> e)"

definition interfere :: "world \<Rightarrow> db" where
  "interfere w = (case peers w of [] \<Rightarrow> tables w | p # _ \<Rightarrow> p (tables w))"

definition tick :: "world \<Rightarrow> world" where
  "tick w = w\<lparr>tables := interfere w, net := tl (net w), peers := tl (peers w), ids := tl (ids w)\<rparr>"

definition exec :: "(timestamp \<Rightarrow> uuid \<Rightarrow> db \<Rightarrow> 'a answer) \<Rightarrow> (pg_error, 'a) result prog" where
  "exec q = State (\<lambda>w.
     let (r, d) = q (clock w) (draw_id w) (interfere w) in
     case net_event w of
       Answered \<Rightarrow> (r, (tick w)\<lparr>tables := d\<rparr>)
     | RequestLost \<Rightarrow> (Inl connection_error, tick w)
     | ReplyLost \<Rightarrow> (Inl connection_error, (tick w)\<lparr>tables := d\<rparr>))"

text \<open>A statement inside a transaction sees no other session.\<close>

definition exec_tx :: "(timestamp \<Rightarrow> uuid \<Rightarrow> db \<Rightarrow> 'a answer) \<Rightarrow> (pg_error, 'a) result prog" where
  "exec_tx q = State (\<lambda>w.
     let (r, d) = q (clock w) (draw_id w) (tables w); w' = w\<lparr>net := tl (net w), ids := tl (ids w)\<rparr> in
     case net_event w of
       Answered \<Rightarrow> (r, w'\<lparr>tables := d\<rparr>)
     | _ \<Rightarrow> (Inl connection_error, w'))"

text \<open>\<^verbatim>\<open>withTx\<close> and \<^verbatim>\<open>withTxRaw\<close>: begin, the body, then commit, or roll back when the body fails.\<close>

definition withTx :: "(pg_error, 'a) result prog \<Rightarrow> (pg_error, 'a) result prog" where
  "withTx body = State (\<lambda>w.
     if net_event w \<noteq> Answered then (Inl connection_error, tick w)
     else let w0 = tick w; (r, w1) = run_state body w0 in
       case r of
         Inl e \<Rightarrow> (Inl e, w1\<lparr>tables := tables w0\<rparr>)
       | Inr a \<Rightarrow>
           (case net_event w1 of
              Answered \<Rightarrow> (Inr a, w1\<lparr>net := tl (net w1)\<rparr>)
            | RequestLost \<Rightarrow> (Inl connection_error, w1\<lparr>tables := tables w0, net := tl (net w1)\<rparr>)
            | ReplyLost \<Rightarrow> (Inl connection_error, w1\<lparr>net := tl (net w1)\<rparr>)))"

text \<open>\<^verbatim>\<open>rand.Read\<close> into \<open>n\<close> bytes; \<open>None\<close> when the generator fails.\<close>

definition rand_Read :: "nat \<Rightarrow> string option prog" where
  "rand_Read n = State (\<lambda>w.
     (case draws w of
        [] \<Rightarrow> None
      | b # _ \<Rightarrow> map_option (\<lambda>s. take n (s @ replicate n (char_of (0 :: nat)))) b,
      w\<lparr>draws := tl (draws w)\<rparr>))"

abbreviation ret :: "'a \<Rightarrow> 'a prog" where "ret \<equiv> State_Monad.return"

text \<open>
  The early return of the sources: \<^verbatim>\<open>if err != nil { return ..., wrap(err) }\<close> and a
  loop that stops at the first error.
\<close>

definition orelse :: "('e, 'a) result prog \<Rightarrow> ('e \<Rightarrow> 'f) \<Rightarrow> ('a \<Rightarrow> ('f, 'b) result prog) \<Rightarrow> ('f, 'b) result prog" where
  "orelse m g k = do { r \<leftarrow> m; case r of Inl e \<Rightarrow> ret (Inl (g e)) | Inr a \<Rightarrow> k a }"

fun foreach :: "'x list \<Rightarrow> ('x \<Rightarrow> ('e, 'u) result prog) \<Rightarrow> ('e, unit) result prog" where
  "foreach [] f = ret (Inr ())"
| "foreach (x # xs) f = orelse (f x) (\<lambda>e. e) (\<lambda>_. foreach xs f)"

section \<open>Running programs\<close>

lemma run_exec:
  "run_state (exec q) w =
     (case q (clock w) (draw_id w) (interfere w) of (r, d) \<Rightarrow>
      (case net_event w of Answered \<Rightarrow> (r, (tick w)\<lparr>tables := d\<rparr>)
       | RequestLost \<Rightarrow> (Inl connection_error, tick w)
       | ReplyLost \<Rightarrow> (Inl connection_error, (tick w)\<lparr>tables := d\<rparr>)))"
  by (simp add: exec_def)

lemma tables_tick [simp]: "tables (tick w) = interfere w"
  by (simp add: tick_def)

lemma run_exec_tx:
  "run_state (exec_tx q) w =
     (case q (clock w) (draw_id w) (tables w) of (r, d) \<Rightarrow>
      (case net_event w of Answered \<Rightarrow> (r, w\<lparr>net := tl (net w), ids := tl (ids w), tables := d\<rparr>)
       | _ \<Rightarrow> (Inl connection_error, w\<lparr>net := tl (net w), ids := tl (ids w)\<rparr>)))"
  by (simp add: exec_tx_def Let_def)

lemma run_withTx:
  "run_state (withTx body) w =
     (if net_event w \<noteq> Answered then (Inl connection_error, tick w)
      else (case run_state body (tick w) of
         (Inl e, w1) \<Rightarrow> (Inl e, w1\<lparr>tables := interfere w\<rparr>)
       | (Inr a, w1) \<Rightarrow>
           (case net_event w1 of
              Answered \<Rightarrow> (Inr a, w1\<lparr>net := tl (net w1)\<rparr>)
            | RequestLost \<Rightarrow> (Inl connection_error, w1\<lparr>tables := interfere w, net := tl (net w1)\<rparr>)
            | ReplyLost \<Rightarrow> (Inl connection_error, w1\<lparr>net := tl (net w1)\<rparr>))))"
  by (simp add: withTx_def Let_def split: prod.splits sum.splits net_event.splits)

lemma clock_tick [simp]: "clock (tick w) = clock w"
  by (simp add: tick_def)

lemma exec_tx_Inr:
  assumes "run_state (exec_tx q) w = (Inr a, w')"
  shows "q (clock w) (draw_id w) (tables w) = (Inr a, tables w')" "clock w' = clock w" "peers w' = peers w"
  using assms by (auto simp: run_exec_tx split: prod.splits net_event.splits)

lemma exec_tx_frame: "run_state (exec_tx q) w = (r, w') \<Longrightarrow> clock w' = clock w \<and> peers w' = peers w \<and> draws w' = draws w"
  by (auto simp: run_exec_tx split: prod.splits net_event.splits)

lemma orelse_run:
  "run_state (orelse m g k) w = (case run_state m w of (Inl e, w1) \<Rightarrow> (Inl (g e), w1) | (Inr a, w1) \<Rightarrow> run_state (k a) w1)"
  by (simp add: orelse_def split: prod.splits sum.splits)

lemma orelse_Inr:
  assumes "run_state (orelse m g k) w = (Inr b, w')"
  obtains a w1 where "run_state m w = (Inr a, w1)" "run_state (k a) w1 = (Inr b, w')"
  using assms by (auto simp: orelse_run split: prod.splits sum.splits)

text \<open>A transaction that reports success did everything its body did; one that reports an error did all of it or nothing.\<close>

lemma withTx_cases:
  assumes "run_state (withTx m) w = (r, w')"
  obtains (kept) e where "r = Inl e" "tables w' = interfere w"
  | (committed) a w1 where "run_state m (tick w) = (Inr a, w1)" "tables w' = tables w1" "r = Inr a \<or> r = Inl connection_error"
  using assms by (auto simp: run_withTx split: if_splits prod.splits sum.splits net_event.splits)

lemma withTx_Inr:
  assumes "run_state (withTx m) w = (Inr a, w')"
  obtains w1 where "run_state m (tick w) = (Inr a, w1)" "w' = w1\<lparr>net := tl (net w1)\<rparr>"
  using assms by (auto simp: run_withTx split: if_splits prod.splits sum.splits net_event.splits)

section \<open>Preorders on databases\<close>

locale db_order =
  fixes R :: "db \<Rightarrow> db \<Rightarrow> bool"
  assumes R_refl: "R d d"
    and R_trans: "R d e \<Longrightarrow> R e f \<Longrightarrow> R d f"
begin

definition friendly :: "world \<Rightarrow> bool" where
  "friendly w \<longleftrightarrow> (\<forall>p \<in> set (peers w). \<forall>d. R d (p d))"

definition obeys :: "'a prog \<Rightarrow> bool" where
  "obeys m \<longleftrightarrow> (\<forall>w. friendly w \<longrightarrow>
     (case run_state m w of (r, w') \<Rightarrow> R (tables w) (tables w') \<and> friendly w'))"

definition obeys_tx :: "'a prog \<Rightarrow> bool" where
  "obeys_tx m \<longleftrightarrow> (\<forall>w. case run_state m w of (r, w') \<Rightarrow> R (tables w) (tables w') \<and> peers w' = peers w)"

lemma interfere_R: "friendly w \<Longrightarrow> R (tables w) (interfere w)"
  by (auto simp: interfere_def friendly_def R_refl split: list.splits)

lemma friendly_tick: "friendly w \<Longrightarrow> friendly (tick w)"
  by (cases "peers w") (auto simp: tick_def friendly_def)

lemma friendly_cong: "peers w = peers w' \<Longrightarrow> friendly w = friendly w'"
  by (simp add: friendly_def)

lemma obeysD: "obeys m \<Longrightarrow> run_state m w = (a, w') \<Longrightarrow> friendly w \<Longrightarrow> R (tables w) (tables w') \<and> friendly w'"
  by (auto simp: obeys_def split: prod.splits)

lemma friendly_alone: "peers w = [] \<Longrightarrow> friendly w"
  by (simp add: friendly_def)

lemma obeys_return: "obeys (ret a)"
  by (simp add: obeys_def R_refl)

lemma obeys_tx_return: "obeys_tx (ret a)"
  by (simp add: obeys_tx_def R_refl)

lemma obeys_bind:
  assumes "obeys m" "\<And>a. obeys (f a)"
  shows "obeys (State_Monad.bind m f)"
  unfolding obeys_def
proof (intro allI impI)
  fix w assume f: "friendly w"
  obtain a w1 where m: "run_state m w = (a, w1)" by fastforce
  obtain b w2 where k: "run_state (f a) w1 = (b, w2)" by fastforce
  have 1: "R (tables w) (tables w1)" "friendly w1" using assms(1) f m by (auto simp: obeys_def)
  then have 2: "R (tables w1) (tables w2)" "friendly w2" using assms(2) [of a] k by (auto simp: obeys_def)
  show "case run_state (State_Monad.bind m f) w of (r, w') \<Rightarrow> R (tables w) (tables w') \<and> friendly w'"
    using m k 2 R_trans [OF 1(1) 2(1)] by simp
qed

lemma obeys_tx_bind:
  assumes "obeys_tx m" "\<And>a. obeys_tx (f a)"
  shows "obeys_tx (State_Monad.bind m f)"
  unfolding obeys_tx_def
proof (intro allI)
  fix w
  obtain a w1 where m: "run_state m w = (a, w1)" by fastforce
  obtain b w2 where k: "run_state (f a) w1 = (b, w2)" by fastforce
  have 1: "R (tables w) (tables w1)" "peers w1 = peers w" using assms(1) m by (auto simp: obeys_tx_def split: prod.splits)
  have 2: "R (tables w1) (tables w2)" "peers w2 = peers w1" using assms(2) [of a] k by (auto simp: obeys_tx_def split: prod.splits)
  show "case run_state (State_Monad.bind m f) w of (r, w') \<Rightarrow> R (tables w) (tables w') \<and> peers w' = peers w"
    using m k 1 2 R_trans [OF 1(1) 2(1)] by simp
qed

lemma obeys_orelse:
  assumes "obeys m" "\<And>a. obeys (k a)"
  shows "obeys (orelse m g k)"
  unfolding orelse_def using assms by (intro obeys_bind) (auto split: sum.splits intro: obeys_return)

lemma obeys_tx_orelse:
  assumes "obeys_tx m" "\<And>a. obeys_tx (k a)"
  shows "obeys_tx (orelse m g k)"
  unfolding orelse_def using assms by (intro obeys_tx_bind) (auto split: sum.splits intro: obeys_tx_return)

lemma obeys_foreach: "(\<And>x. obeys (f x)) \<Longrightarrow> obeys (foreach xs f)"
  by (induction xs) (auto intro: obeys_return obeys_orelse)

lemma obeys_tx_foreach: "(\<And>x. obeys_tx (f x)) \<Longrightarrow> obeys_tx (foreach xs f)"
  by (induction xs) (auto intro: obeys_tx_return obeys_tx_orelse)

lemma obeys_rand: "obeys (rand_Read n)"
  by (simp add: obeys_def rand_Read_def R_refl friendly_def)

lemma obeys_exec:
  assumes "\<And>now uid d. R d (snd (q now uid d))"
  shows "obeys (exec q)"
  unfolding obeys_def
proof (intro allI impI)
  fix w assume f: "friendly w"
  let ?d = "snd (q (clock w) (draw_id w) (interfere w))"
  have "R (tables w) (interfere w)" "R (tables w) ?d"
    using interfere_R [OF f] assms R_trans by blast+
  moreover have "friendly (tick w)" "friendly ((tick w)\<lparr>tables := ?d\<rparr>)"
    using friendly_tick [OF f] by (auto simp: friendly_def)
  ultimately show "case run_state (exec q) w of (r, w') \<Rightarrow> R (tables w) (tables w') \<and> friendly w'"
    by (auto simp: run_exec split: prod.splits net_event.splits)
qed

lemma obeys_exec_tx:
  assumes "\<And>now uid d. R d (snd (q now uid d))"
  shows "obeys_tx (exec_tx q)"
  unfolding obeys_tx_def
proof (intro allI)
  fix w
  have "R (tables w) (snd (q (clock w) (draw_id w) (tables w)))" by (rule assms)
  then show "case run_state (exec_tx q) w of (r, w') \<Rightarrow> R (tables w) (tables w') \<and> peers w' = peers w"
    by (auto simp: run_exec_tx R_refl split: prod.splits net_event.splits)
qed

lemma obeys_withTx:
  assumes "obeys_tx m"
  shows "obeys (withTx m)"
  unfolding obeys_def
proof (intro allI impI)
  fix w assume f: "friendly w"
  obtain r w1 where m: "run_state m (tick w) = (r, w1)" by fastforce
  have "R (tables w) (interfere w)" by (rule interfere_R [OF f])
  moreover have t: "R (interfere w) (tables w1)" "peers w1 = peers (tick w)"
    using assms m unfolding obeys_tx_def by (force split: prod.splits)+
  ultimately have "R (tables w) (tables w1)" using R_trans by blast
  moreover have "friendly (tick w)" by (rule friendly_tick [OF f])
  ultimately show "case run_state (withTx m) w of (r, w') \<Rightarrow> R (tables w) (tables w') \<and> friendly w'"
    using m t(2) \<open>R (tables w) (interfere w)\<close>
    by (auto simp: run_withTx friendly_def split: sum.splits net_event.splits)
qed

lemmas obeys_rules = obeys_return obeys_bind obeys_orelse obeys_foreach obeys_rand
  obeys_exec obeys_withTx obeys_tx_return obeys_tx_bind obeys_tx_orelse obeys_tx_foreach obeys_exec_tx

end

end
