(* ===== verification/Db_Facts.thy ===== *)
theory Db_Facts
  imports World
begin

text \<open>
  What the statements of \<^verbatim>\<open>Db\<close> keep. \<open>audited\<close> is the preorder every program of the later theories obeys:
  the constraints of the schema hold afterwards when they held before, and every message row is still there, with
  its sender, its envelope and its reason of rejection unchanged; a message that was sent stays sent, at the
  same time, and a rejected one stays rejected.
\<close>

section \<open>Tables\<close>

lemma violated_None: "violated cs rows = None \<longleftrightarrow> (\<forall>(n, p) \<in> set cs. list_all p rows)"
  by (auto simp: violated_def find_None_iff)

lemma collided_None: "collided us rows = None \<longleftrightarrow> (\<forall>(n, same) \<in> set us. sorted_wrt (\<lambda>a b. \<not> same a b) rows)"
  by (auto simp: collided_def find_None_iff)

lemmas table_ok_iff = table_ok_def violated_None collided_None

lemma write_rows_Inr:
  "write_rows sch ch new = Inr t \<longleftrightarrow> t = new \<and> violated (checks sch) ch = None \<and> collided (uniques sch) new = None \<and>
     violated (fkeys sch) ch = None"
  by (auto simp: write_rows_def split: option.splits)

lemma write_rows_ok:
  assumes "table_ok sch tbl" "write_rows sch ch new = Inr t" "set new \<subseteq> set tbl \<union> set ch"
  shows "table_ok sch t"
proof -
  have t: "t = new" and c: "violated (checks sch) ch = None" "collided (uniques sch) new = None" "violated (fkeys sch) ch = None"
    using assms(2) by (auto simp: write_rows_Inr)
  have sub: "list_all q new" if "list_all q tbl" "list_all q ch" for q
    using that assms(3) by (auto simp: list_all_iff)
  have "violated cs new = None" if "violated cs tbl = None" "violated cs ch = None" for cs
    using that sub by (fastforce simp: violated_None)
  with assms(1) c show ?thesis by (simp add: t table_ok_def)
qed

lemma insert_row_Inr:
  assumes "insert_row sch row tbl = Inr t"
  shows "t = tbl @ [row]" "table_ok sch tbl \<Longrightarrow> table_ok sch t"
  using assms write_rows_ok [of sch tbl "[row]" "tbl @ [row]" t] by (auto simp: insert_row_def write_rows_Inr)

lemma update_rows_Inr:
  assumes "update_rows sch p f tbl = Inr t"
  shows "t = map (\<lambda>r. if p r then f r else r) tbl" "table_ok sch tbl \<Longrightarrow> table_ok sch t"
proof -
  show "t = map (\<lambda>r. if p r then f r else r) tbl" using assms by (simp add: update_rows_def write_rows_Inr)
  show "table_ok sch tbl \<Longrightarrow> table_ok sch t"
    by (rule write_rows_ok [OF _ assms [unfolded update_rows_def]]) auto
qed

lemma table_ok_filter: "table_ok sch tbl \<Longrightarrow> table_ok sch (filter p tbl)"
  by (auto simp: table_ok_iff list_all_iff sorted_wrt_filter)

lemma table_ok_check: "table_ok sch tbl \<Longrightarrow> (n, p) \<in> set (checks sch) \<Longrightarrow> r \<in> set tbl \<Longrightarrow> p r"
  by (auto simp: table_ok_iff list_all_iff)

lemma keys_map: "(\<And>r. key (f r) = key r) \<Longrightarrow> key ` set (map (\<lambda>r. if p r then f r else r) xs) = key ` set xs"
  by (induction xs) auto

text \<open>Rewriting rows keeps the constraints when no check, foreign key or index sees a difference.\<close>

lemma table_ok_map:
  assumes "table_ok sch tbl"
    and "\<And>n c r. (n, c) \<in> set (checks sch) \<union> set (fkeys sch) \<Longrightarrow> r \<in> set tbl \<Longrightarrow> c r \<Longrightarrow> c (g r)"
    and "\<And>n same a b. (n, same) \<in> set (uniques sch) \<Longrightarrow> same (g a) (g b) \<Longrightarrow> same a b"
  shows "table_ok sch (map g tbl)"
proof -
  have "sorted_wrt (\<lambda>a b. \<not> same (g a) (g b)) tbl" if u: "(n, same) \<in> set (uniques sch)" for n same
  proof (rule sorted_wrt_mono_rel)
    show "sorted_wrt (\<lambda>a b. \<not> same a b) tbl" using assms(1) u by (fastforce simp: table_ok_iff)
    show "\<And>a b. \<not> same a b \<Longrightarrow> \<not> same (g a) (g b)" using assms(3) [OF u] by blast
  qed
  moreover have "c (g r)" if c: "(n, c) \<in> set (checks sch) \<union> set (fkeys sch)" and r: "r \<in> set tbl" for n c r
  proof (rule assms(2) [OF c r])
    show "c r" using assms(1) c r by (auto simp: table_ok_iff list_all_iff)
  qed
  ultimately show ?thesis
    by (fastforce simp: table_ok_iff list_all_iff sorted_wrt_map)
qed

lemma fk_mono:
  "table_ok (domain_schema lower B) ds \<Longrightarrow> B \<subseteq> B' \<Longrightarrow> table_ok (domain_schema lower B') ds"
  "table_ok (from_pattern_schema C) fs \<Longrightarrow> C \<subseteq> C' \<Longrightarrow> table_ok (from_pattern_schema C') fs"
  "table_ok (recipient_pattern_schema C) rs \<Longrightarrow> C \<subseteq> C' \<Longrightarrow> table_ok (recipient_pattern_schema C') rs"
  "table_ok (message_schema lower C B) ms \<Longrightarrow> C \<subseteq> C' \<Longrightarrow> B \<subseteq> B' \<Longrightarrow> table_ok (message_schema lower C' B') ms"
  "table_ok (payload_schema M) ps \<Longrightarrow> M \<subseteq> M' \<Longrightarrow> table_ok (payload_schema M') ps"
  by (auto simp: table_ok_iff list_all_iff domain_schema_def from_pattern_schema_def recipient_pattern_schema_def
      message_schema_def payload_schema_def)

section \<open>The history of messages\<close>

definition evolves :: "EmailMessage \<Rightarrow> EmailMessage \<Rightarrow> bool" where
  "evolves m m' \<longleftrightarrow>
     msg_ID m' = msg_ID m \<and> msg_Facade m' = msg_Facade m \<and> msg_FromAddr m' = msg_FromAddr m \<and>
     msg_FromDomain m' = msg_FromDomain m \<and> msg_ToAddrs m' = msg_ToAddrs m \<and> msg_CcAddrs m' = msg_CcAddrs m \<and>
     msg_BccAddrs m' = msg_BccAddrs m \<and> msg_EnvelopeRecipients m' = msg_EnvelopeRecipients m \<and>
     msg_Subject m' = msg_Subject m \<and> msg_MessageID m' = msg_MessageID m \<and> msg_SizeBytes m' = msg_SizeBytes m \<and>
     msg_IdempotencyKey m' = msg_IdempotencyKey m \<and> msg_RemoteIp m' = msg_RemoteIp m \<and>
     msg_CreatedAt m' = msg_CreatedAt m \<and> msg_RejectionReason m' = msg_RejectionReason m \<and>
     msg_CredentialID m' \<in> {msg_CredentialID m, None} \<and> msg_SmtpBackendID m' \<in> {msg_SmtpBackendID m, None} \<and>
     msg_AttemptCount m \<le> msg_AttemptCount m' \<and>
     (msg_Status m = StatusSent \<longrightarrow> msg_Status m' = StatusSent \<and> msg_SentAt m' = msg_SentAt m \<and>
        msg_ErrorCode m' = msg_ErrorCode m \<and> msg_ErrorDetail m' = msg_ErrorDetail m)"

definition history :: "db \<Rightarrow> db \<Rightarrow> bool" where
  "history d d' \<longleftrightarrow> (\<forall>m \<in> set (db_messages d). \<exists>m' \<in> set (db_messages d'). evolves m m')"

definition audited :: "(string \<Rightarrow> string) \<Rightarrow> db \<Rightarrow> db \<Rightarrow> bool" where
  "audited lower d d' \<longleftrightarrow> (db_inv lower d \<longrightarrow> db_inv lower d' \<and> history d d')"

lemma evolves_refl [simp]: "evolves m m"
  by (simp add: evolves_def)

lemma evolves_trans: "evolves a b \<Longrightarrow> evolves b c \<Longrightarrow> evolves a c"
  unfolding evolves_def by auto

lemma history_refl [simp]: "history d d"
  by (auto simp: history_def intro: evolves_refl)

lemma history_same: "db_messages d' = db_messages d \<Longrightarrow> history d d'"
  by (auto simp: history_def intro: evolves_refl)

lemma history_append: "db_messages d' = db_messages d @ xs \<Longrightarrow> history d d'"
  by (auto simp: history_def intro: evolves_refl)

lemma history_map:
  assumes "db_messages d' = map (\<lambda>m. if p m then f m else m) (db_messages d)" "\<And>m. p m \<Longrightarrow> evolves m (f m)"
  shows "history d d'"
  unfolding history_def
proof
  fix m assume "m \<in> set (db_messages d)"
  then show "\<exists>m' \<in> set (db_messages d'). evolves m m'"
    using assms by (intro bexI [of _ "if p m then f m else m"]) auto
qed

interpretation au: db_order "audited lower" for lower
proof unfold_locales
  show "audited lower d d" for d by (simp add: audited_def)
  show "audited lower d e \<Longrightarrow> audited lower e f \<Longrightarrow> audited lower d f" for d e f
    unfolding audited_def history_def by (meson evolves_trans)
qed

lemma rejected_stays:
  assumes "db_inv lower d" "db_inv lower d'" "m \<in> set (db_messages d)" "m' \<in> set (db_messages d')" "evolves m m'"
  shows "msg_Status m = StatusRejected \<longleftrightarrow> msg_Status m' = StatusRejected"
proof -
  have "(msg_Status r = StatusRejected) = (msg_RejectionReason r \<noteq> None)"
    if "db_inv lower e" "r \<in> set (db_messages e)" for e r
    using that table_ok_check [of "message_schema lower (credential_ids e) (backend_ids e)" "db_messages e" "''email_message_rejection''"]
    by (fastforce simp: db_inv_def message_schema_def)
  from this [OF assms(1,3)] this [OF assms(2,4)] assms(5) show ?thesis by (simp add: evolves_def)
qed

section \<open>Statements that change one table\<close>

lemma audited_same [simp]: "audited lower d d"
  by (rule au.R_refl)

lemma audited_wrote:
  assumes "\<And>t. r = Inr t \<Longrightarrow> audited lower d (upd t)"
  shows "audited lower d (snd (wrote r val upd d))"
  using assms by (auto simp: wrote_def split: sum.splits)

lemma audited_wrote_row:
  assumes "\<And>t. r = Inr t \<Longrightarrow> audited lower d (upd t)"
  shows "audited lower d (snd (wrote_row r p old upd f d))"
  using assms by (auto simp: wrote_row_def split: sum.splits option.splits)

lemma audited_backends:
  assumes "table_ok (backend_schema lower) (db_backends d) \<Longrightarrow> table_ok (backend_schema lower) t"
    and "backend_ids d \<subseteq> be_ID ` set t"
  shows "audited lower d (d\<lparr>db_backends := t\<rparr>)"
  using assms by (auto simp: audited_def db_inv_def history_same intro: fk_mono)

lemma audited_backends_update:
  assumes "update_rows (backend_schema lower) p f (db_backends d) = Inr t" "\<And>b. be_ID (f b) = be_ID b"
  shows "audited lower d (d\<lparr>db_backends := t\<rparr>)"
proof (rule audited_backends [OF update_rows_Inr(2) [OF assms(1)]])
  show "backend_ids d \<subseteq> be_ID ` set t"
    using keys_map [of be_ID f p "db_backends d", OF assms(2)] update_rows_Inr(1) [OF assms(1)] by simp
qed

lemma audited_domains:
  assumes "table_ok (domain_schema lower (backend_ids d)) (db_domains d) \<Longrightarrow> table_ok (domain_schema lower (backend_ids d)) t"
  shows "audited lower d (d\<lparr>db_domains := t\<rparr>)"
  using assms by (auto simp: audited_def db_inv_def history_same)

lemma audited_credentials:
  assumes "table_ok (credential_schema lower) (db_credentials d) \<Longrightarrow> table_ok (credential_schema lower) t"
    and "credential_ids d \<subseteq> cred_ID ` set t"
  shows "audited lower d (d\<lparr>db_credentials := t\<rparr>)"
  using assms by (auto simp: audited_def db_inv_def history_same intro: fk_mono)

lemma audited_credentials_update:
  assumes "update_rows (credential_schema lower) p f (db_credentials d) = Inr t" "\<And>c. cred_ID (f c) = cred_ID c"
  shows "audited lower d (d\<lparr>db_credentials := t\<rparr>)"
proof (rule audited_credentials [OF update_rows_Inr(2) [OF assms(1)]])
  show "credential_ids d \<subseteq> cred_ID ` set t"
    using keys_map [of cred_ID f p "db_credentials d", OF assms(2)] update_rows_Inr(1) [OF assms(1)] by simp
qed

lemma audited_from_patterns:
  assumes "table_ok (from_pattern_schema (credential_ids d)) (db_from_patterns d) \<Longrightarrow> table_ok (from_pattern_schema (credential_ids d)) t"
  shows "audited lower d (d\<lparr>db_from_patterns := t\<rparr>)"
  using assms by (auto simp: audited_def db_inv_def history_same)

lemma audited_recipient_patterns:
  assumes "table_ok (recipient_pattern_schema (credential_ids d)) (db_recipient_patterns d) \<Longrightarrow>
    table_ok (recipient_pattern_schema (credential_ids d)) t"
  shows "audited lower d (d\<lparr>db_recipient_patterns := t\<rparr>)"
  using assms by (auto simp: audited_def db_inv_def history_same)

lemma audited_payloads:
  assumes "table_ok (payload_schema (message_ids d)) (db_payloads d) \<Longrightarrow> table_ok (payload_schema (message_ids d)) t"
  shows "audited lower d (d\<lparr>db_payloads := t\<rparr>)"
  using assms by (auto simp: audited_def db_inv_def history_same)

lemma audited_messages:
  assumes "table_ok (db_message_schema lower d) (db_messages d) \<Longrightarrow> table_ok (db_message_schema lower d) t"
    and "history d (d\<lparr>db_messages := t\<rparr>)"
  shows "audited lower d (d\<lparr>db_messages := t\<rparr>)"
proof -
  have "message_ids d \<subseteq> msg_ID ` set t"
  proof
    fix i assume "i \<in> message_ids d"
    then obtain m where "m \<in> set (db_messages d)" "i = msg_ID m" by auto
    moreover obtain m' where "m' \<in> set t" "evolves m m'"
      using assms(2) \<open>m \<in> set (db_messages d)\<close> by (auto simp: history_def)
    ultimately show "i \<in> msg_ID ` set t" by (metis evolves_def image_eqI)
  qed
  with assms show ?thesis
    by (auto simp: audited_def db_inv_def db_message_schema_def intro: fk_mono)
qed

lemma audited_messages_insert:
  assumes "insert_row (db_message_schema lower d) row (db_messages d) = Inr t"
  shows "audited lower d (d\<lparr>db_messages := t\<rparr>)"
  by (rule audited_messages [OF insert_row_Inr(2) [OF assms] history_append])
    (simp_all add: insert_row_Inr(1) [OF assms])

lemma audited_jobs [simp]: "audited lower d (d\<lparr>db_jobs := t\<rparr>)"
  by (simp add: audited_def db_inv_def history_same)

lemma audited_update_messages:
  assumes "\<And>m. p m \<Longrightarrow> evolves m ((f m)\<lparr>msg_UpdatedAt := now\<rparr>)"
  shows "audited lower d (snd (update_messages lower p f now d))"
  unfolding update_messages_def
proof (rule audited_wrote)
  fix t assume u: "update_rows (db_message_schema lower d) p (\<lambda>m. (f m)\<lparr>msg_UpdatedAt := now\<rparr>) (db_messages d) = Inr t"
  show "audited lower d (d\<lparr>db_messages := t\<rparr>)"
  proof (rule audited_messages)
    show "table_ok (db_message_schema lower d) (db_messages d) \<Longrightarrow> table_ok (db_message_schema lower d) t"
      by (rule update_rows_Inr(2) [OF u])
    show "history d (d\<lparr>db_messages := t\<rparr>)"
      by (rule history_map [of _ p "\<lambda>m. (f m)\<lparr>msg_UpdatedAt := now\<rparr>"]) (simp_all add: update_rows_Inr(1) [OF u] assms)
  qed
qed

section \<open>Every statement\<close>

lemma audited_CreateSMTPBackend: "audited lower d (snd (Queries_CreateSMTPBackend lower arg now uid d))"
  unfolding Queries_CreateSMTPBackend_def Let_def
  by (rule audited_wrote, rule audited_backends) (auto dest: insert_row_Inr)

lemma audited_UpdateSMTPBackend: "audited lower d (snd (Queries_UpdateSMTPBackend lower arg now d))"
  unfolding Queries_UpdateSMTPBackend_def Let_def
  by (rule audited_wrote_row, erule audited_backends_update) simp

lemma audited_UpdateSMTPBackendSealedPassword:
  "audited lower d (snd (Queries_UpdateSMTPBackendSealedPassword lower i sealed now d))"
  unfolding Queries_UpdateSMTPBackendSealedPassword_def
  by (rule audited_wrote, erule audited_backends_update) simp

lemma audited_CreateDomain: "audited lower d (snd (Queries_CreateDomain lower name backend inc en now uid d))"
  unfolding Queries_CreateDomain_def Let_def
  by (rule audited_wrote, rule audited_domains) (auto dest: insert_row_Inr)

lemma audited_UpdateDomain: "audited lower d (snd (Queries_UpdateDomain lower i name backend inc en now d))"
  unfolding Queries_UpdateDomain_def Let_def
  by (rule audited_wrote_row, rule audited_domains) (auto dest: update_rows_Inr)

lemma audited_DeleteDomain: "audited lower d (snd (Queries_DeleteDomain i d))"
  unfolding Queries_DeleteDomain_def by (auto intro: audited_domains table_ok_filter)

lemma audited_CreateCredential: "audited lower d (snd (Queries_CreateCredential lower arg now uid d))"
  unfolding Queries_CreateCredential_def Let_def
  by (rule audited_wrote, rule audited_credentials) (auto dest: insert_row_Inr)

lemma audited_UpdateCredential: "audited lower d (snd (Queries_UpdateCredential lower i name en rps burst d))"
  unfolding Queries_UpdateCredential_def Let_def
  by (rule audited_wrote_row, erule audited_credentials_update) simp

lemma audited_RevokeCredential: "audited lower d (snd (Queries_RevokeCredential lower i now d))"
  unfolding Queries_RevokeCredential_def Let_def
  by (rule audited_wrote_row, erule audited_credentials_update) simp

lemma audited_RotateCredentialSecret: "audited lower d (snd (Queries_RotateCredentialSecret lower i l h now d))"
  unfolding Queries_RotateCredentialSecret_def Let_def
  by (rule audited_wrote_row, erule audited_credentials_update) simp

lemma audited_TouchCredentialLastUsed: "audited lower d (snd (Queries_TouchCredentialLastUsed lower i mi now d))"
  unfolding Queries_TouchCredentialLastUsed_def
  by (rule audited_wrote, erule audited_credentials_update) simp

lemma audited_AddFromPattern: "audited lower d (snd (Queries_AddFromPattern cred pattern now uid d))"
  unfolding Queries_AddFromPattern_def Let_def
  by (auto split: option.splits intro!: audited_wrote audited_from_patterns dest: insert_row_Inr)

lemma audited_AddRecipientPattern: "audited lower d (snd (Queries_AddRecipientPattern cred pattern now uid d))"
  unfolding Queries_AddRecipientPattern_def Let_def
  by (auto split: option.splits intro!: audited_wrote audited_recipient_patterns dest: insert_row_Inr)

lemma audited_DeleteFromPattern: "audited lower d (snd (Queries_DeleteFromPattern cred i d))"
  unfolding Queries_DeleteFromPattern_def by (auto intro: audited_from_patterns table_ok_filter)

lemma audited_DeleteRecipientPattern: "audited lower d (snd (Queries_DeleteRecipientPattern cred i d))"
  unfolding Queries_DeleteRecipientPattern_def by (auto intro: audited_recipient_patterns table_ok_filter)

lemma audited_InsertEmailMessage: "audited lower d (snd (Queries_InsertEmailMessage lower arg now uid d))"
  unfolding Queries_InsertEmailMessage_def Let_def
  by (rule audited_wrote, erule audited_messages_insert)

lemma audited_InsertRejectedEmailMessage:
  "audited lower d (snd (Queries_InsertRejectedEmailMessage lower arg reason now uid d))"
  unfolding Queries_InsertRejectedEmailMessage_def Let_def
  by (rule audited_wrote, erule audited_messages_insert)

lemma audited_InsertEmailPayload: "audited lower d (snd (Queries_InsertEmailPayload i raw now d))"
  unfolding Queries_InsertEmailPayload_def
  by (rule audited_wrote, rule audited_payloads) (auto dest: insert_row_Inr)

lemma audited_PurgeSentPayloads: "audited lower d (snd (Queries_PurgeSentPayloads a b now d))"
  unfolding Queries_PurgeSentPayloads_def Let_def by (auto intro: audited_payloads table_ok_filter)

lemma audited_MarkEmailSending: "audited lower d (snd (Queries_MarkEmailSending lower i now d))"
  unfolding Queries_MarkEmailSending_def Let_def
  by (auto intro!: audited_update_messages simp: evolves_def)

lemma audited_MarkEmailSent: "audited lower d (snd (Queries_MarkEmailSent lower i now d))"
  unfolding Queries_MarkEmailSent_def by (rule audited_update_messages) (simp add: evolves_def)

lemma audited_MarkEmailFailed: "audited lower d (snd (Queries_MarkEmailFailed lower i code detail now d))"
  unfolding Queries_MarkEmailFailed_def by (rule audited_update_messages) (simp add: evolves_def)

lemma audited_MarkEmailRetrying: "audited lower d (snd (Queries_MarkEmailRetrying lower i code detail now d))"
  unfolding Queries_MarkEmailRetrying_def by (rule audited_update_messages) (simp add: evolves_def)

lemma audited_MarkEmailSentPartial: "audited lower d (snd (Queries_MarkEmailSentPartial lower i code detail now d))"
  unfolding Queries_MarkEmailSentPartial_def by (rule audited_update_messages) (simp add: evolves_def)

text \<open>The two deletions that reach into other tables: clearing a reference keeps every other constraint.\<close>

lemma message_clear_ok:
  assumes "table_ok (message_schema lower C B) ms"
    and g: "\<And>m. g m = m \<or> g m = m\<lparr>msg_CredentialID := None, msg_UpdatedAt := now\<rparr> \<or> g m = m\<lparr>msg_SmtpBackendID := None, msg_UpdatedAt := now\<rparr>"
    and fk: "\<And>m. m \<in> set ms \<Longrightarrow> set_option (msg_CredentialID (g m)) \<subseteq> C' \<and> set_option (msg_SmtpBackendID (g m)) \<subseteq> B'"
  shows "table_ok (message_schema lower C' B') (map g ms)"
proof -
  have "table_ok (message_schema lower C B) (map g ms)"
  proof (rule table_ok_map [OF assms(1)])
    fix n c r assume "(n, c) \<in> set (checks (message_schema lower C B)) \<union> set (fkeys (message_schema lower C B))" "c r"
    then show "c (g r)" using g [of r] by (auto simp: message_schema_def)
  next
    fix n same a b assume u: "(n, same) \<in> set (uniques (message_schema lower C B))" and s: "same (g a) (g b)"
    have f: "msg_ID (g m) = msg_ID m" "msg_IdempotencyKey (g m) = msg_IdempotencyKey m"
      "msg_CredentialID (g m) = msg_CredentialID m \<or> msg_CredentialID (g m) = None" for m using g [of m] by auto
    let ?pk = "\<lambda>a b. msg_ID a = msg_ID b"
    let ?ik = "\<lambda>a b. msg_CredentialID a \<noteq> None \<and> msg_IdempotencyKey a \<noteq> None \<and>
            msg_CredentialID a = msg_CredentialID b \<and> msg_IdempotencyKey a = msg_IdempotencyKey b"
    have "same = ?pk \<or> same = ?ik"
      using u unfolding message_schema_def schema.simps list.set insert_iff prod.inject empty_iff by argo
    then show "same a b"
    proof
      assume "same = ?pk"
      with s f(1) show ?thesis by simp
    next
      assume i: "same = ?ik"
      show ?thesis
        using s f(3) [of a] f(3) [of b] unfolding i f(2) by argo
    qed
  qed
  with fk show ?thesis by (auto simp: table_ok_iff list_all_iff message_schema_def)
qed

lemma audited_DeleteCredential: "audited lower d (snd (Queries_DeleteCredential i now d))"
proof -
  let ?g = "\<lambda>m. if msg_CredentialID m = Some i then m\<lparr>msg_CredentialID := None, msg_UpdatedAt := now\<rparr> else m"
  let ?d = "snd (Queries_DeleteCredential i now d)"
  have h: "history d ?d"
    by (rule history_map [of _ "\<lambda>m. msg_CredentialID m = Some i"]) (auto simp: Queries_DeleteCredential_def evolves_def)
  have ids: "credential_ids ?d = credential_ids d - {i}" "backend_ids ?d = backend_ids d" "message_ids ?d = message_ids d"
    by (auto simp: Queries_DeleteCredential_def keys_map [of msg_ID "\<lambda>m. m\<lparr>msg_CredentialID := None, msg_UpdatedAt := now\<rparr>", simplified])
  show ?thesis unfolding audited_def
  proof (intro impI conjI h)
    assume inv: "db_inv lower d"
    then have m: "table_ok (message_schema lower (credential_ids d) (backend_ids d)) (db_messages d)" by (simp add: db_inv_def)
    have fk: "set_option (msg_CredentialID r) \<subseteq> credential_ids d \<and> set_option (msg_SmtpBackendID r) \<subseteq> backend_ids d"
      if "r \<in> set (db_messages d)" for r using m that by (auto simp: table_ok_iff message_schema_def list_all_iff)
    have "table_ok (message_schema lower (credential_ids ?d) (backend_ids ?d)) (map ?g (db_messages d))"
      using fk by (intro message_clear_ok [OF m]) (auto simp: ids)
    moreover have "table_ok (from_pattern_schema (credential_ids ?d)) (filter (\<lambda>p. fpat_CredentialID p \<noteq> i) (db_from_patterns d))"
      using inv by (auto simp: db_inv_def ids table_ok_iff from_pattern_schema_def list_all_iff sorted_wrt_filter)
    moreover have "table_ok (recipient_pattern_schema (credential_ids ?d)) (filter (\<lambda>p. rpat_CredentialID p \<noteq> i) (db_recipient_patterns d))"
      using inv by (auto simp: db_inv_def ids table_ok_iff recipient_pattern_schema_def list_all_iff sorted_wrt_filter)
    ultimately show "db_inv lower ?d"
      using inv unfolding db_inv_def ids(2,3) by (simp add: Queries_DeleteCredential_def table_ok_filter)
  qed
qed

lemma audited_DeleteSMTPBackend: "audited lower d (snd (Queries_DeleteSMTPBackend i now d))"
proof (cases "\<exists>r \<in> set (db_domains d). dom_SmtpBackendID r = i")
  case True
  then show ?thesis by (simp add: Queries_DeleteSMTPBackend_def)
next
  case False
  let ?g = "\<lambda>m. if msg_SmtpBackendID m = Some i then m\<lparr>msg_SmtpBackendID := None, msg_UpdatedAt := now\<rparr> else m"
  let ?d = "snd (Queries_DeleteSMTPBackend i now d)"
  have h: "history d ?d" using False
    by (intro history_map [of _ "\<lambda>m. msg_SmtpBackendID m = Some i"]) (auto simp: Queries_DeleteSMTPBackend_def evolves_def)
  have d: "?d = d\<lparr>db_backends := filter (\<lambda>b. be_ID b \<noteq> i) (db_backends d), db_messages := map ?g (db_messages d)\<rparr>"
    using False by (simp add: Queries_DeleteSMTPBackend_def)
  have "msg_ID ` set (map ?g (db_messages d)) = message_ids d" by (rule keys_map) simp
  then have ids: "backend_ids ?d = backend_ids d - {i}" "credential_ids ?d = credential_ids d" "message_ids ?d = message_ids d"
    unfolding d by auto
  show ?thesis unfolding audited_def
  proof (intro impI conjI h)
    assume inv: "db_inv lower d"
    then have m: "table_ok (message_schema lower (credential_ids d) (backend_ids d)) (db_messages d)" by (simp add: db_inv_def)
    have fk: "set_option (msg_CredentialID r) \<subseteq> credential_ids d \<and> set_option (msg_SmtpBackendID r) \<subseteq> backend_ids d"
      if "r \<in> set (db_messages d)" for r using m that by (auto simp: table_ok_iff message_schema_def list_all_iff)
    have "table_ok (message_schema lower (credential_ids ?d) (backend_ids ?d)) (map ?g (db_messages d))"
      using fk by (intro message_clear_ok [OF m]) (auto simp: ids)
    moreover have "table_ok (domain_schema lower (backend_ids ?d)) (db_domains d)"
      using inv False by (auto simp: db_inv_def ids table_ok_iff domain_schema_def list_all_iff)
    ultimately show "db_inv lower ?d"
      using inv False unfolding db_inv_def ids(2,3) by (simp add: Queries_DeleteSMTPBackend_def table_ok_filter)
  qed
qed

section \<open>All statements together\<close>

lemma snd_one_row [simp]: "snd (one_row r d) = d"
  by (simp add: one_row_def)

lemmas read_defs = Queries_GetSMTPBackend_def Queries_GetSMTPBackendByName_def Queries_ListSMTPBackends_def
  Queries_ListSMTPBackendsNeedingRewrap_def Queries_GetSenderRouteForBackend_def Queries_GetDomain_def
  Queries_GetDomainByName_def Queries_ListDomains_def Queries_ResolveSenderDomain_def
  Queries_GetCredentialByLookup_def Queries_GetCredential_def Queries_ListCredentials_def
  Queries_ListFromPatterns_def Queries_ListRecipientPatterns_def Queries_GetEmailMessage_def
  Queries_GetAdminEmailMessage_def Queries_GetEmailMessageByIdempotencyKey_def Queries_GetEmailPayload_def
  Queries_ListEmailMessages_def Queries_CountEmailsByStatus_def

lemma reads [simp]:
  "snd (Queries_GetSMTPBackend i d) = d" "snd (Queries_GetSMTPBackendByName lower name d) = d"
  "snd (Queries_ListSMTPBackends d) = d" "snd (Queries_ListSMTPBackendsNeedingRewrap d) = d"
  "snd (Queries_GetSenderRouteForBackend i d) = d" "snd (Queries_GetDomain i d) = d"
  "snd (Queries_GetDomainByName name d) = d" "snd (Queries_ListDomains d) = d"
  "snd (Queries_ResolveSenderDomain sender d) = d" "snd (Queries_GetCredentialByLookup l d) = d"
  "snd (Queries_GetCredential i d) = d" "snd (Queries_ListCredentials d) = d"
  "snd (Queries_ListFromPatterns i d) = d" "snd (Queries_ListRecipientPatterns i d) = d"
  "snd (Queries_GetEmailMessage i d) = d" "snd (Queries_GetAdminEmailMessage i d) = d"
  "snd (Queries_GetEmailMessageByIdempotencyKey c k ttl now d) = d" "snd (Queries_GetEmailPayload i d) = d"
  "snd (Queries_ListEmailMessages arg d) = d" "snd (Queries_CountEmailsByStatus d) = d"
  by (simp_all add: read_defs)

lemmas audits = audited_CreateSMTPBackend audited_UpdateSMTPBackend audited_UpdateSMTPBackendSealedPassword
  audited_DeleteSMTPBackend audited_CreateDomain audited_UpdateDomain audited_DeleteDomain
  audited_CreateCredential audited_UpdateCredential audited_RevokeCredential audited_RotateCredentialSecret
  audited_TouchCredentialLastUsed audited_DeleteCredential audited_AddFromPattern audited_AddRecipientPattern
  audited_DeleteFromPattern audited_DeleteRecipientPattern audited_InsertEmailMessage
  audited_InsertRejectedEmailMessage audited_InsertEmailPayload audited_PurgeSentPayloads audited_MarkEmailSending
  audited_MarkEmailSent audited_MarkEmailFailed audited_MarkEmailRetrying audited_MarkEmailSentPartial

end
