(* ===== verification/Rate_Limit.thy ===== *)
theory Rate_Limit
  imports Relais_Prelude Complex_Main "HOL-Library.AList"
begin

text \<open>
  The per-credential token buckets: \<^verbatim>\<open>src/internal/ratelimit/ratelimit.go\<close>.

  The bucket of \<^verbatim>\<open>golang.org/x/time/rate\<close> is the parameter \<open>rate_lib\<close>: \<open>NewLimiter\<close> makes one and
  \<open>AllowN\<close> takes tokens from it at a time, giving the decision and the bucket afterwards. The Go map
  of buckets is a list of key/bucket pairs with distinct keys; its order stands for the order in which the
  runtime ranges over the map, so that what is shown holds for every such order. Times and
  durations are nanoseconds, rates the rational values of the finite \<^verbatim>\<open>float64\<close> numbers.

  Shown here: the table never grows past its bound, a decision is the one of the key's
  own bucket (fresh when the key is new or its rate changed), a non-positive rate is refused
  without a change of state, and only a full table evicts, the idle buckets first and otherwise one
  that was seen least recently.
\<close>

section \<open>State\<close>

record 'l rate_lib =
  NewLimiter :: "rat \<Rightarrow> int \<Rightarrow> 'l"
  AllowN :: "'l \<Rightarrow> int \<Rightarrow> int \<Rightarrow> bool \<times> 'l"

record 'l bucket =
  limiter :: 'l
  lastSeen :: int
  bk_rps :: rat
  bk_burst :: int

record 'l Limiter =
  maxEntries :: int
  idleTTL :: int
  buckets :: "(string \<times> 'l bucket) list"

record limiter_options =
  MaxEntries :: int
  IdleTTL :: int

abbreviation nanos_per_second :: int where "nanos_per_second \<equiv> 1000000000"

section \<open>Operations\<close>

definition ratelimit_New :: "limiter_options \<Rightarrow> 'l Limiter" where
  "ratelimit_New opts =
     \<lparr>maxEntries = (if MaxEntries opts \<le> 0 then 10000 else MaxEntries opts),
      idleTTL = (if IdleTTL opts \<le> 0 then 3600 * nanos_per_second else IdleTTL opts),
      buckets = []\<rparr>"

definition Limiter_Len :: "'l Limiter \<Rightarrow> nat" where
  "Limiter_Len l = length (buckets l)"

fun oldest_loop :: "string \<Rightarrow> int \<Rightarrow> (string \<times> 'l bucket) list \<Rightarrow> string" where
  "oldest_loop oldestKey oldest [] = oldestKey"
| "oldest_loop oldestKey oldest ((key, entry) # rest) =
     (if oldestKey = [] \<or> lastSeen entry < oldest
      then oldest_loop key (lastSeen entry) rest
      else oldest_loop oldestKey oldest rest)"

definition drop_idle :: "int \<Rightarrow> int \<Rightarrow> (string \<times> 'l bucket) list \<Rightarrow> (string \<times> 'l bucket) list" where
  "drop_idle ttl now bs = filter (\<lambda>(key, entry). \<not> now - lastSeen entry > ttl) bs"

definition evictLocked :: "'l Limiter \<Rightarrow> int \<Rightarrow> 'l Limiter" where
  "evictLocked l now =
     (if int (length (buckets l)) < maxEntries l then l
      else let bs = drop_idle (idleTTL l) now (buckets l) in
      if int (length bs) < maxEntries l then l\<lparr>buckets := bs\<rparr>
      else let oldestKey = oldest_loop [] 0 bs in
      if oldestKey \<noteq> [] then l\<lparr>buckets := AList.delete oldestKey bs\<rparr>
      else l\<lparr>buckets := bs\<rparr>)"

definition Allow :: "'l rate_lib \<Rightarrow> 'l Limiter \<Rightarrow> string \<Rightarrow> rat \<Rightarrow> int \<Rightarrow> int \<Rightarrow> bool \<times> 'l Limiter" where
  "Allow lib l key rps burst now =
     (if rps \<le> 0 \<or> burst \<le> 0 then (False, l)
      else
        let (entry, l') =
          (case map_of (buckets l) key of
             Some entry \<Rightarrow>
               if bk_rps entry = rps \<and> bk_burst entry = burst
               then (entry\<lparr>lastSeen := now\<rparr>, l)
               else (entry\<lparr>limiter := NewLimiter lib rps burst, bk_rps := rps, bk_burst := burst,
                           lastSeen := now\<rparr>, l)
           | None \<Rightarrow>
               (\<lparr>limiter = NewLimiter lib rps burst, lastSeen = now, bk_rps = rps, bk_burst = burst\<rparr>,
                evictLocked l now));
            (decision, lim) = AllowN lib (limiter entry) now 1
        in (decision, l'\<lparr>buckets := AList.update key (entry\<lparr>limiter := lim\<rparr>) (buckets l')\<rparr>))"

section \<open>Specification\<close>

text \<open>The table is a map, bounded, and no key is empty (keys are built from credential ids).\<close>

definition limiter_inv :: "'l Limiter \<Rightarrow> bool" where
  "limiter_inv l \<longleftrightarrow> 0 < maxEntries l \<and> distinct (map fst (buckets l)) \<and> [] \<notin> fst ` set (buckets l) \<and>
     int (length (buckets l)) \<le> maxEntries l"

definition bucket_for :: "'l rate_lib \<Rightarrow> 'l Limiter \<Rightarrow> string \<Rightarrow> rat \<Rightarrow> int \<Rightarrow> 'l" where
  "bucket_for lib l key rps burst =
     (case map_of (buckets l) key of
        Some entry \<Rightarrow> if bk_rps entry = rps \<and> bk_burst entry = burst then limiter entry
                      else NewLimiter lib rps burst
      | None \<Rightarrow> NewLimiter lib rps burst)"

text \<open>
  What a caller of a limiter relies on: a state invariant every decision keeps, and that no
  rate means no permission. A run is a sequence of calls.
\<close>

locale throttle =
  fixes allow :: "'s \<Rightarrow> string \<Rightarrow> rat \<Rightarrow> int \<Rightarrow> int \<Rightarrow> bool \<times> 's"
    and inv :: "'s \<Rightarrow> bool"
  assumes refuses: "rps \<le> 0 \<or> burst \<le> 0 \<Longrightarrow> allow s key rps burst now = (False, s)"
    and keeps: "inv s \<Longrightarrow> key \<noteq> [] \<Longrightarrow> inv (snd (allow s key rps burst now))"
begin

definition run :: "(string \<times> rat \<times> int \<times> int) list \<Rightarrow> 's \<Rightarrow> 's" where
  "run calls s = fold (\<lambda>(key, rps, burst, now) s. snd (allow s key rps burst now)) calls s"

lemma run_keeps: "inv s \<Longrightarrow> \<forall>c \<in> set calls. fst c \<noteq> [] \<Longrightarrow> inv (run calls s)"
  by (induction calls arbitrary: s) (auto simp: run_def keeps)

lemma permitted_rate: "fst (allow s key rps burst now) \<Longrightarrow> 0 < rps \<and> 0 < burst"
  using refuses [of rps burst s key now] by (metis fst_conv not_le)

end

section \<open>Lemmas\<close>

lemma length_AList_update:
  "length (AList.update k v xs) = (if k \<in> fst ` set xs then length xs else Suc (length xs))"
  by (induction xs) auto

lemma set_drop_idle: "set (drop_idle ttl now bs) \<subseteq> set bs"
  by (auto simp: drop_idle_def)

lemma distinct_drop_idle: "distinct (map fst bs) \<Longrightarrow> distinct (map fst (drop_idle ttl now bs))"
  by (auto simp: drop_idle_def distinct_map_filter)

lemma oldest_loop_key:
  "oldest_loop k t bs = k \<or> oldest_loop k t bs \<in> fst ` set bs"
  by (induction k t bs rule: oldest_loop.induct) auto

lemma oldest_loop_min:
  assumes "k \<noteq> []" and "[] \<notin> fst ` set bs"
  shows "(oldest_loop k t bs = k \<and> (\<forall>(k', e) \<in> set bs. t \<le> lastSeen e)) \<or>
         (\<exists>e. (oldest_loop k t bs, e) \<in> set bs \<and> lastSeen e < t \<and> (\<forall>(k', e') \<in> set bs. lastSeen e \<le> lastSeen e'))"
  using assms
proof (induction k t bs rule: oldest_loop.induct)
  case (2 k t key entry rest)
  have kne: "key \<noteq> []" "[] \<notin> fst ` set rest" using "2.prems" by auto
  show ?case
  proof (cases "lastSeen entry < t")
    case True
    with "2.IH"(1) kne have "oldest_loop key (lastSeen entry) rest = key \<and> (\<forall>(k', e) \<in> set rest. lastSeen entry \<le> lastSeen e) \<or>
       (\<exists>e. (oldest_loop key (lastSeen entry) rest, e) \<in> set rest \<and> lastSeen e < lastSeen entry \<and>
          (\<forall>(k', e') \<in> set rest. lastSeen e \<le> lastSeen e'))"
      by simp
    then show ?thesis
    proof
      assume "oldest_loop key (lastSeen entry) rest = key \<and> (\<forall>(k', e) \<in> set rest. lastSeen entry \<le> lastSeen e)"
      then show ?thesis using True by (intro disjI2 exI [of _ entry]) auto
    next
      assume "\<exists>e. (oldest_loop key (lastSeen entry) rest, e) \<in> set rest \<and> lastSeen e < lastSeen entry \<and>
          (\<forall>(k', e') \<in> set rest. lastSeen e \<le> lastSeen e')"
      then obtain e where "(oldest_loop key (lastSeen entry) rest, e) \<in> set rest" "lastSeen e < lastSeen entry"
        "\<forall>(k', e') \<in> set rest. lastSeen e \<le> lastSeen e'" by blast
      then show ?thesis using True by (intro disjI2 exI [of _ e]) auto
    qed
  next
    case False
    with "2.IH"(2) "2.prems"(1) kne have "oldest_loop k t rest = k \<and> (\<forall>(k', e) \<in> set rest. t \<le> lastSeen e) \<or>
       (\<exists>e. (oldest_loop k t rest, e) \<in> set rest \<and> lastSeen e < t \<and> (\<forall>(k', e') \<in> set rest. lastSeen e \<le> lastSeen e'))"
      by simp
    then show ?thesis
    proof
      assume "oldest_loop k t rest = k \<and> (\<forall>(k', e) \<in> set rest. t \<le> lastSeen e)"
      then show ?thesis using False "2.prems"(1) by auto
    next
      assume "\<exists>e. (oldest_loop k t rest, e) \<in> set rest \<and> lastSeen e < t \<and> (\<forall>(k', e') \<in> set rest. lastSeen e \<le> lastSeen e')"
      then obtain e where "(oldest_loop k t rest, e) \<in> set rest" "lastSeen e < t"
        "\<forall>(k', e') \<in> set rest. lastSeen e \<le> lastSeen e'" by blast
      then show ?thesis using False "2.prems"(1) by (intro disjI2 exI [of _ e]) auto
    qed
  qed
qed simp

lemma oldest_loop_start:
  assumes "bs \<noteq> []" and "[] \<notin> fst ` set bs"
  obtains e where "(oldest_loop [] t bs, e) \<in> set bs" "\<forall>(k', e') \<in> set bs. lastSeen e \<le> lastSeen e'"
proof -
  obtain k e rest where bs: "bs = (k, e) # rest" using assms(1) by (metis list.exhaust surj_pair)
  have "k \<noteq> []" and "[] \<notin> fst ` set rest" using assms(2) bs by auto
  from oldest_loop_min [OF this, of "lastSeen e"] consider
      (kept) "oldest_loop k (lastSeen e) rest = k" "\<forall>(k', e') \<in> set rest. lastSeen e \<le> lastSeen e'"
    | (moved) e2 where "(oldest_loop k (lastSeen e) rest, e2) \<in> set rest" "lastSeen e2 < lastSeen e"
        "\<forall>(k', e') \<in> set rest. lastSeen e2 \<le> lastSeen e'"
    by blast
  then show thesis
  proof cases
    case kept
    then show ?thesis using that [of e] bs by auto
  next
    case moved
    then show ?thesis using that [of e2] bs by auto
  qed
qed

lemma length_delete_key: "k \<in> fst ` set bs \<Longrightarrow> length (AList.delete k bs) < length bs"
  by (induction bs) (auto simp: AList.delete_eq intro: le_imp_less_Suc)

lemma evictLocked_props:
  assumes "limiter_inv l"
  shows "maxEntries (evictLocked l now) = maxEntries l"
    "distinct (map fst (buckets (evictLocked l now)))"
    "set (buckets (evictLocked l now)) \<subseteq> set (buckets l)"
    "int (length (buckets (evictLocked l now))) < maxEntries l"
proof -
  let ?bs = "drop_idle (idleTTL l) now (buckets l)"
  have inv: "0 < maxEntries l" "distinct (map fst (buckets l))" "[] \<notin> fst ` set (buckets l)"
    "int (length (buckets l)) \<le> maxEntries l"
    using assms by (auto simp: limiter_inv_def)
  have bs: "distinct (map fst ?bs)" "set ?bs \<subseteq> set (buckets l)" "length ?bs \<le> length (buckets l)"
    by (rule distinct_drop_idle [OF inv(2)], rule set_drop_idle, simp add: drop_idle_def)
  then have noempty: "[] \<notin> fst ` set ?bs" using inv(3) by auto
  show "maxEntries (evictLocked l now) = maxEntries l" by (auto simp: evictLocked_def Let_def)
  show "distinct (map fst (buckets (evictLocked l now)))"
    using inv(2) bs(1) by (auto simp: evictLocked_def Let_def distinct_delete)
  show "set (buckets (evictLocked l now)) \<subseteq> set (buckets l)"
    using bs(2) by (auto simp: evictLocked_def Let_def AList.delete_eq)
  show "int (length (buckets (evictLocked l now))) < maxEntries l"
  proof (cases "int (length ?bs) < maxEntries l")
    case True
    then show ?thesis by (auto simp: evictLocked_def Let_def)
  next
    case False
    then have "?bs \<noteq> []" using inv(1) by auto
    then obtain e where e: "(oldest_loop [] 0 ?bs, e) \<in> set ?bs"
      using noempty by (rule oldest_loop_start [where t = 0])
    then have k: "oldest_loop [] 0 ?bs \<in> fst ` set ?bs" by force
    with noempty have ne: "oldest_loop [] 0 ?bs \<noteq> []" by metis
    have "length (AList.delete (oldest_loop [] 0 ?bs) ?bs) < length ?bs" by (rule length_delete_key [OF k])
    with False bs(3) inv(4) ne show ?thesis by (auto simp: evictLocked_def Let_def)
  qed
qed

lemma Allow_state:
  assumes "0 < rps" and "0 < burst"
  shows "\<exists>entry l'. snd (Allow lib l key rps burst now) = l'\<lparr>buckets := AList.update key entry (buckets l')\<rparr> \<and>
     l' = (if map_of (buckets l) key = None then evictLocked l now else l) \<and>
     limiter entry = snd (AllowN lib (bucket_for lib l key rps burst) now 1) \<and>
     bk_rps entry = rps \<and> bk_burst entry = burst \<and> lastSeen entry = now"
proof -
  have neg: "\<not> (rps \<le> 0 \<or> burst \<le> 0)" using assms by auto
  show ?thesis
  proof (cases "map_of (buckets l) key")
    case None
    then show ?thesis using neg by (auto simp: Allow_def bucket_for_def split: prod.splits)
  next
    case (Some e)
    then show ?thesis using neg by (auto simp: Allow_def bucket_for_def split: prod.splits)
  qed
qed

lemma Allow_inv:
  assumes inv: "limiter_inv l" and key: "key \<noteq> []"
  shows "limiter_inv (snd (Allow lib l key rps burst now))"
proof (cases "0 < rps \<and> 0 < burst")
  case False
  then show ?thesis using inv by (auto simp: Allow_def)
next
  case True
  then obtain entry l' where
    eq: "snd (Allow lib l key rps burst now) = l'\<lparr>buckets := AList.update key entry (buckets l')\<rparr>"
    and l': "l' = (if map_of (buckets l) key = None then evictLocked l now else l)"
    using Allow_state [of rps burst lib l key now] by blast
  have props: "0 < maxEntries l'" "distinct (map fst (buckets l'))" "[] \<notin> fst ` set (buckets l')"
    using inv evictLocked_props [OF inv, of now] unfolding l' by (auto simp: limiter_inv_def)
  have "int (length (AList.update key entry (buckets l'))) \<le> maxEntries l'"
  proof (cases "map_of (buckets l) key = None")
    case True
    then show ?thesis using evictLocked_props(1,4) [OF inv, of now] by (simp add: l' length_AList_update)
  next
    case False
    then have "key \<in> fst ` set (buckets l)" and "l' = l" using l' by (auto simp: map_of_eq_None_iff)
    then show ?thesis using inv by (simp add: length_AList_update limiter_inv_def)
  qed
  then show ?thesis
    unfolding eq limiter_inv_def using props key by (auto simp: distinct_update dom_update image_iff)
qed

interpretation lim: throttle "Allow lib" limiter_inv for lib
  by unfold_locales (simp add: Allow_def, rule Allow_inv)

section \<open>Properties\<close>


text \<open>
  the decision on an event is the one of the key's own bucket, which is a fresh one when the
  key is new or its configured rate changed; afterwards that bucket, with the tokens taken,
  is the key's. A non-positive rate or burst is refused and changes nothing.
\<close>

theorem allow_uses_own_bucket:
  "(if rps \<le> 0 \<or> burst \<le> 0 then Allow lib l key rps burst now = (False, l)
    else fst (Allow lib l key rps burst now) = fst (AllowN lib (bucket_for lib l key rps burst) now 1) \<and>
      bucket_for lib (snd (Allow lib l key rps burst now)) key rps burst =
        snd (AllowN lib (bucket_for lib l key rps burst) now 1))"
proof (cases "rps \<le> 0 \<or> burst \<le> 0")
  case True
  then show ?thesis by (simp add: lim.refuses)
next
  case False
  then obtain entry l' where
    "snd (Allow lib l key rps burst now) = l'\<lparr>buckets := AList.update key entry (buckets l')\<rparr>"
    "limiter entry = snd (AllowN lib (bucket_for lib l key rps burst) now 1)"
    "bk_rps entry = rps" "bk_burst entry = burst"
    using Allow_state [of rps burst lib l key now] by auto
  then have "bucket_for lib (snd (Allow lib l key rps burst now)) key rps burst =
      snd (AllowN lib (bucket_for lib l key rps burst) now 1)"
    by (simp add: bucket_for_def update_conv)
  moreover have "fst (Allow lib l key rps burst now) = fst (AllowN lib (bucket_for lib l key rps burst) now 1)"
    using False by (auto simp: Allow_def bucket_for_def split: option.splits prod.splits)
  ultimately show ?thesis using False by simp
qed

text \<open>
  a table below its bound evicts nothing; a full one drops the buckets idle for longer than the
  time to live, and only if it is still full one further bucket, which is at least as old as every bucket kept.
\<close>

theorem eviction_policy:
  assumes "limiter_inv l"
  shows "(int (length (buckets l)) < maxEntries l \<longrightarrow> evictLocked l now = l) \<and>
    (\<forall>k e. (k, e) \<in> set (buckets l) \<and> (k, e) \<notin> set (buckets (evictLocked l now)) \<and>
        now - lastSeen e \<le> idleTTL l \<longrightarrow>
      (\<forall>(k', e') \<in> set (buckets (evictLocked l now)). lastSeen e \<le> lastSeen e'))"
proof (intro conjI impI allI)
  assume "int (length (buckets l)) < maxEntries l"
  then show "evictLocked l now = l" by (simp add: evictLocked_def)
next
  fix k e
  let ?bs = "drop_idle (idleTTL l) now (buckets l)"
  assume a: "(k, e) \<in> set (buckets l) \<and> (k, e) \<notin> set (buckets (evictLocked l now)) \<and>
      now - lastSeen e \<le> idleTTL l"
  then have ke: "(k, e) \<in> set ?bs" by (auto simp: drop_idle_def)
  then have ev: "buckets (evictLocked l now) = AList.delete (oldest_loop [] 0 ?bs) ?bs"
    using a by (auto simp: evictLocked_def Let_def split: if_splits)
  then have k: "k = oldest_loop [] 0 ?bs" using a ke by (auto simp: AList.delete_eq)
  have dist: "distinct (map fst ?bs)" and ne: "[] \<notin> fst ` set ?bs"
    using assms set_drop_idle [of "idleTTL l" now "buckets l"]
    by (auto simp: limiter_inv_def distinct_drop_idle)
  obtain e0 where e0: "(oldest_loop [] 0 ?bs, e0) \<in> set ?bs" "\<forall>(k', e') \<in> set ?bs. lastSeen e0 \<le> lastSeen e'"
    using ke ne by (metis list.set_cases oldest_loop_start list.discI)
  have "e0 = e" using e0(1) ke k dist by (metis eq_key_imp_eq_value)
  then show "\<forall>(k', e') \<in> set (buckets (evictLocked l now)). lastSeen e \<le> lastSeen e'"
    using e0(2) by (auto simp: ev AList.delete_eq)
qed

section \<open>Witnesses\<close>

text \<open>A token bucket without refill: the limiter is the number of tokens left.\<close>

definition count_lib :: "int rate_lib" where
  "count_lib = \<lparr>NewLimiter = (\<lambda>_ burst. burst), AllowN = (\<lambda>tokens _ n. (n \<le> tokens, if n \<le> tokens then tokens - n else tokens))\<rparr>"


definition two_buckets :: "int Limiter" where
  "two_buckets = \<lparr>maxEntries = 2, idleTTL = 10,
     buckets = [(''a'', \<lparr>limiter = 1, lastSeen = 3, bk_rps = 1, bk_burst = 1\<rparr>),
                (''b'', \<lparr>limiter = 1, lastSeen = 2, bk_rps = 1, bk_burst = 1\<rparr>)]\<rparr>"

theorem eviction_policy_witness:
  "map fst (buckets (evictLocked two_buckets 4)) = [''a''] \<and>
   list_all (\<lambda>(k', e'). 2 \<le> lastSeen e') (buckets (evictLocked two_buckets 4))"
proof -
  have inv: "limiter_inv two_buckets" by (simp add: limiter_inv_def two_buckets_def)
  have ev: "buckets (evictLocked two_buckets 4) = [(''a'', \<lparr>limiter = 1, lastSeen = 3, bk_rps = 1, bk_burst = 1\<rparr>)]"
    by (simp add: evictLocked_def two_buckets_def drop_idle_def AList.delete_eq)
  have "(''b'', \<lparr>limiter = 1, lastSeen = 2, bk_rps = 1, bk_burst = 1\<rparr>) \<in> set (buckets two_buckets)"
    by (simp add: two_buckets_def)
  then show ?thesis
    using eviction_policy [OF inv, of 4] ev by (auto simp: two_buckets_def)
qed

end
