(* ===== verification/Store_Core.thy ===== *)
theory Store_Core
  imports Db_Facts Rate_Limit
begin

text \<open>
  The store's shared parts (\<^verbatim>\<open>src/internal/store/store.go\<close>): the sentinel errors and how driver errors are
  classified into them, the \<^verbatim>\<open>Store\<close> itself, and the normalisation of pattern lists.

  \<open>externals\<close> collects the code outside the repository the store depends on: the IDNA library, the cipher and the
  MAC, and the server's \<^verbatim>\<open>lower\<close>.
\<close>

section \<open>Errors\<close>

type_synonym pattern_error = "nat \<times> string \<times> fp_error"

datatype validation_cause =
    Invalid string
  | InvalidPatterns pattern_error
  | InvalidEnvelope envelope_error

datatype store_error =
    ErrNotFound
  | ErrConflict string
  | ErrReference string
  | ErrConstraint string
  | ErrValidation validation_cause
  | ErrPatterns pattern_error
  | ErrAddress fp_error
  | ErrSecret secret_error
  | ErrEnvelope envelope_error
  | ErrDriver string
  | ErrPlain string

fun classify :: "pg_error \<Rightarrow> store_error" where
  "classify NoRows = ErrNotFound"
| "classify (UniqueViolation c) = ErrConflict c"
| "classify (ForeignKeyViolation c) = ErrReference c"
| "classify (RestrictViolation c) = ErrReference c"
| "classify (CheckViolation c) = ErrConstraint c"
| "classify (OtherError m) = ErrDriver m"

fun ConstraintName :: "store_error \<Rightarrow> string" where
  "ConstraintName (ErrConflict c) = c"
| "ConstraintName (ErrReference c) = c"
| "ConstraintName (ErrConstraint c) = c"
| "ConstraintName _ = []"

text \<open>\<^verbatim>\<open>wrap\<close> adds the name of the operation to the text and keeps the classified error.\<close>

definition store_wrap :: "pg_error \<Rightarrow> store_error" where
  "store_wrap e = classify e"

definition invalid :: "string \<Rightarrow> store_error" where
  "invalid m = ErrValidation (Invalid m)"

definition isNotFound :: "store_error \<Rightarrow> bool" where
  "isNotFound e \<longleftrightarrow> e = ErrNotFound"

section \<open>The store\<close>

record externals =
  x_idna :: idna_lib
  x_crypto :: crypto_lib
  x_lower :: "string \<Rightarrow> string"

record Store =
  st_keyring :: Keyring
  st_hasher :: Hasher
  st_lib :: externals

definition externals_lawful :: "externals \<Rightarrow> bool" where
  "externals_lawful x \<longleftrightarrow> idna_lawful (x_idna x) \<and> crypto_lawful (x_crypto x)"

abbreviation st_idna :: "Store \<Rightarrow> idna_lib" where "st_idna s \<equiv> x_idna (st_lib s)"
abbreviation st_crypto :: "Store \<Rightarrow> crypto_lib" where "st_crypto s \<equiv> x_crypto (st_lib s)"
abbreviation st_lower :: "Store \<Rightarrow> string \<Rightarrow> string" where "st_lower s \<equiv> x_lower (st_lib s)"

definition go_lower :: "Store \<Rightarrow> string \<Rightarrow> string" where
  "go_lower s t = to_lower (unicode_lower (st_idna s)) t"

definition normalizePatterns :: "idna_lib \<Rightarrow> string list \<Rightarrow> (pattern_error, string list) result" where
  "normalizePatterns x raw =
     (case NewSet x raw of Inl e \<Rightarrow> Inl e | Inr ps \<Rightarrow> Inr (map Pattern_String ps))"

text \<open>\<^verbatim>\<open>intervalOf\<close>: a Go duration (nanoseconds) as an SQL interval (microseconds).\<close>

definition intervalOf :: "int \<Rightarrow> int" where
  "intervalOf d = (if d < 0 then - ((- d) div 1000) else d div 1000)"

definition uuidPtr :: "uuid \<Rightarrow> uuid option" where
  "uuidPtr i = (if i = uuid_Nil then None else Some i)"

definition stringPtr :: "string \<Rightarrow> string option" where
  "stringPtr v = (if v = [] then None else Some v)"

definition addrPtr :: "netip_Addr \<Rightarrow> netip_Addr" where
  "addrPtr a = (case a of None \<Rightarrow> None | Some ip \<Rightarrow> Some ip)"

text \<open>\<^verbatim>\<open>int32(n)\<close> keeps the low 32 bits.\<close>

definition to_int32 :: "int \<Rightarrow> int" where
  "to_int32 n = sint (word_of_int n :: 32 word)"

section \<open>A run without interference\<close>

definition quiet :: "world \<Rightarrow> bool" where
  "quiet w \<longleftrightarrow> net w = [] \<and> peers w = []"

lemma quiet_facts:
  assumes "quiet w"
  shows "net_event w = Answered" "interfere w = tables w" "tick w = w\<lparr>ids := tl (ids w)\<rparr>"
  using assms by (simp_all add: quiet_def net_event_def interfere_def tick_def)

lemma quiet_update [simp]:
  "quiet (w\<lparr>tables := d\<rparr>) = quiet w" "quiet (w\<lparr>ids := i\<rparr>) = quiet w" "quiet (w\<lparr>draws := b\<rparr>) = quiet w"
  by (simp_all add: quiet_def)

lemma net_quiet: "quiet w \<Longrightarrow> w\<lparr>net := tl (net w)\<rparr> = w"
  by (simp add: quiet_def)

lemma run_exec_quiet:
  assumes "quiet w"
  shows "run_state (exec q) w =
    (case q (clock w) (draw_id w) (tables w) of (r, d) \<Rightarrow> (r, w\<lparr>ids := tl (ids w), tables := d\<rparr>))"
  using quiet_facts [OF assms] by (simp add: run_exec split: prod.splits)

lemma run_exec_tx_quiet:
  assumes "quiet w"
  shows "run_state (exec_tx q) w =
    (case q (clock w) (draw_id w) (tables w) of (r, d) \<Rightarrow> (r, w\<lparr>ids := tl (ids w), tables := d\<rparr>))"
proof -
  have "net w = []" using assms by (simp add: quiet_def)
  then have "w\<lparr>net := []\<rparr> = w" by simp
  then show ?thesis using quiet_facts [OF assms] \<open>net w = []\<close> by (simp add: run_exec_tx split: prod.splits)
qed

lemma normalizePatterns_Inr:
  "normalizePatterns x raw = Inr ps \<longleftrightarrow> (\<exists>set. NewSet x raw = Inr set \<and> ps = map Pattern_String set)"
  by (auto simp: normalizePatterns_def split: sum.splits)

text \<open>
  Invariants of a run that do not look at the tables: what a statement consumes of the network, the peers, the ids and the
  draws keeps them, and so does every program. They are used for a run without failures, and for one without other sessions.
\<close>

locale world_inv =
  fixes P :: "world \<Rightarrow> bool"
  assumes P_tick: "P w \<Longrightarrow> P (tick w)"
    and P_tables: "P (w\<lparr>tables := d\<rparr>) = P w"
    and P_net: "P w \<Longrightarrow> P (w\<lparr>net := tl (net w)\<rparr>)"
    and P_ids: "P w \<Longrightarrow> P (w\<lparr>ids := i\<rparr>)"
    and P_draws: "P w \<Longrightarrow> P (w\<lparr>draws := b\<rparr>)"
begin

definition keeps :: "'a prog \<Rightarrow> bool" where
  "keeps m \<longleftrightarrow> (\<forall>w. P w \<longrightarrow> P (snd (run_state m w)))"

lemma keepsD: "keeps m \<Longrightarrow> P w \<Longrightarrow> run_state m w = (a, w') \<Longrightarrow> P w'"
  by (metis keeps_def snd_conv)

lemma keeps_return: "keeps (ret a)"
  by (simp add: keeps_def)

lemma keeps_bind: "keeps m \<Longrightarrow> (\<And>a. keeps (f a)) \<Longrightarrow> keeps (State_Monad.bind m f)"
  by (auto simp: keeps_def split: prod.splits)

lemma keeps_orelse: "keeps m \<Longrightarrow> (\<And>a. keeps (k a)) \<Longrightarrow> keeps (orelse m g k)"
  unfolding orelse_def by (auto intro!: keeps_bind keeps_return split: sum.splits)

lemma keeps_foreach: "(\<And>x. keeps (f x)) \<Longrightarrow> keeps (foreach xs f)"
  by (induction xs) (auto intro: keeps_return keeps_orelse)

lemma keeps_exec: "keeps (exec q)"
  by (auto simp: keeps_def run_exec P_tick P_tables split: prod.splits net_event.splits)

lemma keeps_exec_tx: "keeps (exec_tx q)"
proof -
  have "P (w\<lparr>net := tl (net w), ids := i\<rparr>)" if "P w" for w i
    using P_ids [OF P_net [OF that]] by simp
  then show ?thesis by (auto simp: keeps_def run_exec_tx P_tables split: prod.splits net_event.splits)
qed

lemma keeps_rand: "keeps (rand_Read n)"
  by (auto simp: keeps_def rand_Read_def P_draws)

lemma keeps_withTx:
  assumes "keeps m"
  shows "keeps (withTx m)"
  unfolding keeps_def
proof (intro allI impI)
  fix w assume w: "P w"
  obtain r w1 where m: "run_state m (tick w) = (r, w1)" by fastforce
  have w1: "P w1" by (rule keepsD [OF assms P_tick [OF w] m])
  have "P (w1\<lparr>tables := d, net := tl (net w1)\<rparr>)" for d
    using P_net [of "w1\<lparr>tables := d\<rparr>"] w1 by (simp add: P_tables)
  with m w w1 show "P (snd (run_state (withTx m) w))"
    by (auto simp: run_withTx P_tick P_tables P_net split: sum.splits net_event.splits)
qed

lemmas keeps_rules = keeps_return keeps_bind keeps_orelse keeps_foreach keeps_exec keeps_exec_tx keeps_rand keeps_withTx

end

interpretation kq: world_inv quiet
  by unfold_locales (auto simp: quiet_def tick_def)

interpretation ka: world_inv "\<lambda>w. peers w = []"
  by unfold_locales (auto simp: tick_def)

interpretation kc: world_inv "\<lambda>w. clock w = c" for c
  by unfold_locales simp_all

abbreviation keeps_quiet :: "'a prog \<Rightarrow> bool" where "keeps_quiet \<equiv> kq.keeps"

lemmas keeps_quietD = kq.keepsD and keeps_quiet_rules = kq.keeps_rules

lemma alone_exec:
  assumes "peers w = []" "run_state (exec q) w = (r, w')"
  shows "peers w' = []" "clock w' = clock w"
    "(r = fst (q (clock w) (draw_id w) (tables w)) \<and> tables w' = snd (q (clock w) (draw_id w) (tables w))) \<or>
     (r = Inl connection_error \<and> (tables w' = tables w \<or> tables w' = snd (q (clock w) (draw_id w) (tables w))))"
  using assms by (auto simp: run_exec interfere_def tick_def split: prod.splits net_event.splits)

lemma rand_Read_Some:
  "run_state (rand_Read n) w = (Some b, w') \<Longrightarrow> length b = n"
  by (auto simp: rand_Read_def split: list.splits)

section \<open>Data for witnesses\<close>

lemma run_pair: "run_state m w = (fst (run_state m w), snd (run_state m w))"
  by simp

lemma not_isl: "isl r = False \<Longrightarrow> \<exists>a. r = Inr a"
  by (cases r) auto

definition demo_lib :: externals where
  "demo_lib = \<lparr>x_idna = ascii_idna, x_crypto = plain_crypto, x_lower = map ascii_lower\<rparr>"

definition demo_store :: Store where
  "demo_store = \<lparr>st_keyring = ring_a, st_hasher = \<lparr>pepper = key_a\<rparr>, st_lib = demo_lib\<rparr>"

definition empty_db :: db where
  "empty_db = \<lparr>db_backends = [], db_domains = [], db_credentials = [], db_from_patterns = [], db_recipient_patterns = [],
     db_messages = [], db_payloads = [], db_jobs = []\<rparr>"

definition demo_world :: world where
  "demo_world = \<lparr>tables = empty_db, clock = 1000, net = [], peers = [], ids = [11, 12, 13, 14, 15, 16, 17, 18, 19],
     draws = [Some ''a'', Some ''b'', Some ''c'', Some ''d'']\<rparr>"

lemma demo_lib_lawful: "externals_lawful demo_lib"
  by (simp add: externals_lawful_def demo_lib_def ascii_idna_lawful plain_crypto_lawful)

lemma empty_db_inv: "db_inv lower empty_db"
  by (simp add: db_inv_def empty_db_def table_ok_iff)

lemma demo_world_facts [simp]: "quiet demo_world" "peers demo_world = []" "tables demo_world = empty_db"
  by (simp_all add: demo_world_def quiet_def)

lemma demo_store_lib [simp]: "st_lib demo_store = demo_lib"
  by (simp add: demo_store_def)

lemma demo_store_lawful: "crypto_lawful (st_crypto demo_store)" "idna_lawful (st_idna demo_store)"
  using demo_lib_lawful by (simp_all add: externals_lawful_def)

end
