(* ===== verification/Store_Credential.thy ===== *)
theory Store_Credential
  imports Store_Core
begin

text \<open>
  Sender credentials: \<^verbatim>\<open>src/internal/store/credential.go\<close> and the credential parts of \<^verbatim>\<open>admin.go\<close>.

  Every operation is audited (\<^verbatim>\<open>Db_Facts\<close>). Shown besides: creation is atomic under every behaviour of the network, a created
  credential loads with exactly the requested authority, a revocation is final, a rotation changes only the secret, and the recipient
  allow-list is open by default while the sender allow-list is closed.
\<close>

section \<open>Operations\<close>

definition lookupCollisionRetries :: nat where "lookupCollisionRetries = 3"

text \<open>Five minutes, in nanoseconds.\<close>

definition touchInterval :: int where "touchInterval = 300 * nanos_per_second"

record NewCredentialParams =
  ncp_Name :: string
  ncp_Type :: string
  ncp_SMTPUsername :: string
  ncp_Patterns :: "string list"
  ncp_RecipientPatterns :: "string list"
  ncp_RateLimitRPS :: "rat option"
  ncp_RateLimitBurst :: "int option"
  ncp_CreatedBy :: string
  ncp_Enabled :: bool

definition NewCredentialParams_normalize :: "Store \<Rightarrow> NewCredentialParams \<Rightarrow> (store_error, NewCredentialParams) result" where
  "NewCredentialParams_normalize s p0 =
     (let p = p0\<lparr>ncp_Name := trim_space (ncp_Name p0), ncp_Type := go_lower s (trim_space (ncp_Type p0)),
                 ncp_CreatedBy := trim_space (ncp_CreatedBy p0)\<rparr> in
      if ncp_Name p = [] then Inl (invalid ''credential name is required'')
      else if ncp_Type p \<noteq> CredentialTypeAPIKey \<and> ncp_Type p \<noteq> CredentialTypeSMTPUser then Inl (invalid ''credential type'')
      else if ncp_Type p = CredentialTypeAPIKey \<and> ncp_SMTPUsername p \<noteq> [] then Inl (invalid ''an SMTP username makes no sense'')
      else if (case ncp_RateLimitRPS p of None \<Rightarrow> False | Some r \<Rightarrow> r \<le> 0) then Inl (invalid ''rate limit rps'')
      else if (case ncp_RateLimitBurst p of None \<Rightarrow> False | Some b \<Rightarrow> b \<le> 0) then Inl (invalid ''rate limit burst'')
      else Inr p)"

record CreatedCredential =
  cc_Credential :: Credential
  cc_Secret :: Secret
  cc_Patterns :: "string list"
  cc_RecipientPatterns :: "string list"

definition mintFor :: "Store \<Rightarrow> string \<Rightarrow> string \<Rightarrow> (secret_error, Minted) result prog" where
  "mintFor s typ smtpUsername =
     (if typ = CredentialTypeAPIKey then
        do { d1 \<leftarrow> rand_Read 10;
             if d1 = None then ret (MintAPIKey (st_crypto s) (st_hasher s) d1 None)
             else do { d2 \<leftarrow> rand_Read secretBytes; ret (MintAPIKey (st_crypto s) (st_hasher s) d1 d2) } }
      else
        do { username \<leftarrow>
               (if trim_space smtpUsername = []
                then do { d \<leftarrow> rand_Read 10; ret (GenerateSMTPUsername d) }
                else ret (Inr smtpUsername));
             case username of
               Inl e \<Rightarrow> ret (Inl e)
             | Inr u \<Rightarrow> do { d \<leftarrow> rand_Read secretBytes; ret (MintSMTPPassword (st_crypto s) (st_idna s) (st_hasher s) u d) } })"

text \<open>The body of the transaction of \<^verbatim>\<open>CreateCredential\<close>: the row, its sender patterns, its recipient patterns.\<close>

definition create_credential_tx ::
    "Store \<Rightarrow> NewCredentialParams \<Rightarrow> Minted \<Rightarrow> string list \<Rightarrow> string list \<Rightarrow> (pg_error, Credential) result prog" where
  "create_credential_tx s p minted patterns recipientPatterns =
     orelse (exec_tx (Queries_CreateCredential (st_lower s)
               \<lparr>ccp_Name = ncp_Name p, ccp_Type = ncp_Type p, ccp_Lookup = Lookup minted, ccp_SecretHmac = HMAC minted,
                ccp_Enabled = ncp_Enabled p, ccp_RateLimitRps = ncp_RateLimitRPS p,
                ccp_RateLimitBurst = ncp_RateLimitBurst p, ccp_CreatedBy = ncp_CreatedBy p\<rparr>)) (\<lambda>e. e)
       (\<lambda>row. orelse (foreach patterns (\<lambda>pattern. exec_tx (Queries_AddFromPattern (cred_ID row) pattern))) (\<lambda>e. e)
          (\<lambda>_. orelse (foreach recipientPatterns (\<lambda>pattern. exec_tx (Queries_AddRecipientPattern (cred_ID row) pattern))) (\<lambda>e. e)
             (\<lambda>_. ret (Inr row))))"

fun CreateCredential_loop ::
    "Store \<Rightarrow> NewCredentialParams \<Rightarrow> string list \<Rightarrow> string list \<Rightarrow> nat \<Rightarrow> (store_error, CreatedCredential) result prog" where
  "CreateCredential_loop s p patterns recipientPatterns 0 = ret (Inl (ErrPlain ''could not draw a unique lookup value''))"
| "CreateCredential_loop s p patterns recipientPatterns (Suc n) =
     orelse (mintFor s (ncp_Type p) (ncp_SMTPUsername p)) ErrSecret
       (\<lambda>minted. do {
          r \<leftarrow> withTx (create_credential_tx s p minted patterns recipientPatterns);
          case r of
            Inr row \<Rightarrow> ret (Inr \<lparr>cc_Credential = row, cc_Secret = Secret (Plaintext minted), cc_Patterns = patterns,
                                 cc_RecipientPatterns = recipientPatterns\<rparr>)
          | Inl e \<Rightarrow>
              if ConstraintName (classify e) = ''credential_lookup_key'' \<and> ncp_Type p = CredentialTypeAPIKey \<and> n > 0
              then CreateCredential_loop s p patterns recipientPatterns n
              else ret (Inl (store_wrap e)) })"

definition CreateCredential :: "Store \<Rightarrow> NewCredentialParams \<Rightarrow> (store_error, CreatedCredential) result prog" where
  "CreateCredential s p0 =
     (case NewCredentialParams_normalize s p0 of
        Inl e \<Rightarrow> ret (Inl e)
      | Inr p \<Rightarrow>
          (case normalizePatterns (st_idna s) (ncp_Patterns p) of
             Inl e \<Rightarrow> ret (Inl (ErrPatterns e))
           | Inr patterns \<Rightarrow>
               (case normalizePatterns (st_idna s) (ncp_RecipientPatterns p) of
                  Inl e \<Rightarrow> ret (Inl (ErrValidation (InvalidPatterns e)))
                | Inr recipientPatterns \<Rightarrow> CreateCredential_loop s p patterns recipientPatterns lookupCollisionRetries)))"

section \<open>Allow-lists in memory\<close>

record RecipientRules =
  rr_set :: pattern_set

record AuthCredential =
  ac_Credential :: Credential
  ac_Patterns :: pattern_set
  ac_Recipients :: RecipientRules

definition NewRecipientRules :: "idna_lib \<Rightarrow> string list \<Rightarrow> (pattern_error, RecipientRules) result" where
  "NewRecipientRules x raw = (case NewSet x raw of Inl e \<Rightarrow> Inl e | Inr ps \<Rightarrow> Inr \<lparr>rr_set = ps\<rparr>)"

definition Restricted :: "RecipientRules \<Rightarrow> bool" where
  "Restricted r \<longleftrightarrow> Set_Len (rr_set r) > 0"

definition RecipientRules_Allows :: "RecipientRules \<Rightarrow> Address \<Rightarrow> bool" where
  "RecipientRules_Allows r addr = (if \<not> Restricted r then True else Allows (rr_set r) addr)"

definition MatchedBy :: "RecipientRules \<Rightarrow> Address \<Rightarrow> Pattern option" where
  "MatchedBy r addr = Match (rr_set r) addr"

definition RecipientRules_Strings :: "RecipientRules \<Rightarrow> string list" where
  "RecipientRules_Strings r = map Pattern_String (rr_set r)"

definition Usable :: "AuthCredential \<Rightarrow> bool" where
  "Usable c \<longleftrightarrow> cred_Enabled (ac_Credential c) \<and> cred_RevokedAt (ac_Credential c) = None"

definition RateLimit :: "AuthCredential \<Rightarrow> rat \<Rightarrow> int \<Rightarrow> rat \<times> int" where
  "RateLimit c defaultRPS defaultBurst =
     (case cred_RateLimitRps (ac_Credential c) of None \<Rightarrow> defaultRPS | Some r \<Rightarrow> r,
      case cred_RateLimitBurst (ac_Credential c) of None \<Rightarrow> defaultBurst | Some b \<Rightarrow> b)"

definition withPatterns :: "Store \<Rightarrow> Credential \<Rightarrow> (store_error, AuthCredential) result prog" where
  "withPatterns s row =
     orelse (exec (\<lambda>now uid. Queries_ListFromPatterns (cred_ID row))) store_wrap
       (\<lambda>stored. case NewSet (st_idna s) (map fpat_Pattern stored) of
          Inl e \<Rightarrow> ret (Inl (ErrValidation (InvalidPatterns e)))
        | Inr ps \<Rightarrow>
            orelse (exec (\<lambda>now uid. Queries_ListRecipientPatterns (cred_ID row))) store_wrap
              (\<lambda>storedRecipients. case NewRecipientRules (st_idna s) (map rpat_Pattern storedRecipients) of
                 Inl e \<Rightarrow> ret (Inl (ErrValidation (InvalidPatterns e)))
               | Inr rules \<Rightarrow> ret (Inr \<lparr>ac_Credential = row, ac_Patterns = ps, ac_Recipients = rules\<rparr>)))"

definition LoadCredentialByLookup :: "Store \<Rightarrow> string \<Rightarrow> (store_error, AuthCredential) result prog" where
  "LoadCredentialByLookup s lookup =
     orelse (exec (\<lambda>now uid. Queries_GetCredentialByLookup lookup)) store_wrap (withPatterns s)"

definition LoadCredential :: "Store \<Rightarrow> uuid \<Rightarrow> (store_error, AuthCredential) result prog" where
  "LoadCredential s i = orelse (exec (\<lambda>now uid. Queries_GetCredential i)) store_wrap (withPatterns s)"

definition VerifySecret :: "Store \<Rightarrow> string \<Rightarrow> AuthCredential \<Rightarrow> bool" where
  "VerifySecret s secret c = Verify (st_crypto s) (st_hasher s) secret (cred_SecretHmac (ac_Credential c))"

definition ListCredentials :: "(store_error, (Credential \<times> int \<times> int) list) result prog" where
  "ListCredentials = orelse (exec (\<lambda>now uid. Queries_ListCredentials)) store_wrap (\<lambda>rows. ret (Inr rows))"

definition RevokeCredential :: "Store \<Rightarrow> uuid \<Rightarrow> (store_error, Credential) result prog" where
  "RevokeCredential s i =
     orelse (exec (\<lambda>now uid. Queries_RevokeCredential (st_lower s) i now)) store_wrap (\<lambda>row. ret (Inr row))"

section \<open>Rotation, deletion and edits\<close>

fun RotateCredentialSecret_loop ::
    "Store \<Rightarrow> uuid \<Rightarrow> Credential \<Rightarrow> nat \<Rightarrow> (store_error, CreatedCredential) result prog" where
  "RotateCredentialSecret_loop s i existing 0 = ret (Inl (ErrPlain ''could not draw a unique lookup value''))"
| "RotateCredentialSecret_loop s i existing (Suc n) =
     orelse (mintFor s (cred_Type existing) (cred_Lookup existing)) ErrSecret
       (\<lambda>minted. do {
          r \<leftarrow> exec (\<lambda>now uid. Queries_RotateCredentialSecret (st_lower s) i (Lookup minted) (HMAC minted) now);
          case r of
            Inr row \<Rightarrow>
              orelse (exec (\<lambda>now uid. Queries_ListFromPatterns i)) store_wrap
                (\<lambda>patterns. ret (Inr \<lparr>cc_Credential = row, cc_Secret = Secret (Plaintext minted),
                                       cc_Patterns = map fpat_Pattern patterns, cc_RecipientPatterns = []\<rparr>))
          | Inl e \<Rightarrow>
              if isNotFound (classify e) then ret (Inl (invalid ''credential was revoked while its secret was being rotated''))
              else if ConstraintName (classify e) = ''credential_lookup_key'' \<and> cred_Type existing = CredentialTypeAPIKey \<and> n > 0
              then RotateCredentialSecret_loop s i existing n
              else ret (Inl (store_wrap e)) })"

definition RotateCredentialSecret :: "Store \<Rightarrow> uuid \<Rightarrow> (store_error, CreatedCredential) result prog" where
  "RotateCredentialSecret s i =
     orelse (exec (\<lambda>now uid. Queries_GetCredential i)) store_wrap
       (\<lambda>existing. if cred_RevokedAt existing \<noteq> None then ret (Inl (invalid ''credential is revoked''))
                   else RotateCredentialSecret_loop s i existing lookupCollisionRetries)"

definition DeleteCredential :: "uuid \<Rightarrow> (store_error, unit) result prog" where
  "DeleteCredential i =
     orelse (exec (\<lambda>now uid. Queries_DeleteCredential i now)) store_wrap
       (\<lambda>n. ret (if n = 0 then Inl ErrNotFound else Inr ()))"

definition AddPatterns :: "Store \<Rightarrow> uuid \<Rightarrow> string list \<Rightarrow> (store_error, string list) result prog" where
  "AddPatterns s credentialID raw =
     (case normalizePatterns (st_idna s) raw of
        Inl e \<Rightarrow> ret (Inl (ErrPatterns e))
      | Inr patterns \<Rightarrow>
          if patterns = [] then ret (Inl (invalid ''no patterns to add''))
          else orelse (withTx (foreach patterns (\<lambda>pattern. exec_tx (Queries_AddFromPattern credentialID pattern)))) store_wrap
                 (\<lambda>_. ret (Inr patterns)))"

definition RemovePattern :: "uuid \<Rightarrow> uuid \<Rightarrow> (store_error, unit) result prog" where
  "RemovePattern credentialID patternID =
     orelse (exec (\<lambda>now uid. Queries_DeleteFromPattern credentialID patternID)) store_wrap
       (\<lambda>n. ret (if n = 0 then Inl ErrNotFound else Inr ()))"

definition ListPatterns :: "uuid \<Rightarrow> (store_error, CredentialFromPattern list) result prog" where
  "ListPatterns credentialID =
     orelse (exec (\<lambda>now uid. Queries_ListFromPatterns credentialID)) store_wrap (\<lambda>rows. ret (Inr rows))"

definition AddRecipientPatterns :: "Store \<Rightarrow> uuid \<Rightarrow> string list \<Rightarrow> (store_error, string list) result prog" where
  "AddRecipientPatterns s credentialID raw =
     (case normalizePatterns (st_idna s) raw of
        Inl e \<Rightarrow> ret (Inl (ErrPatterns e))
      | Inr patterns \<Rightarrow>
          if patterns = [] then ret (Inl (invalid ''no patterns to add''))
          else orelse (withTx (foreach patterns (\<lambda>pattern. exec_tx (Queries_AddRecipientPattern credentialID pattern)))) store_wrap
                 (\<lambda>_. ret (Inr patterns)))"

definition RemoveRecipientPattern :: "uuid \<Rightarrow> uuid \<Rightarrow> (store_error, unit) result prog" where
  "RemoveRecipientPattern credentialID patternID =
     orelse (exec (\<lambda>now uid. Queries_DeleteRecipientPattern credentialID patternID)) store_wrap
       (\<lambda>n. ret (if n = 0 then Inl ErrNotFound else Inr ()))"

definition ListRecipientPatterns :: "uuid \<Rightarrow> (store_error, CredentialRecipientPattern list) result prog" where
  "ListRecipientPatterns credentialID =
     orelse (exec (\<lambda>now uid. Queries_ListRecipientPatterns credentialID)) store_wrap (\<lambda>rows. ret (Inr rows))"

definition TouchCredential :: "Store \<Rightarrow> uuid \<Rightarrow> (store_error, unit) result prog" where
  "TouchCredential s i =
     orelse (exec (\<lambda>now uid. Queries_TouchCredentialLastUsed (st_lower s) i (intervalOf touchInterval) now)) store_wrap
       (\<lambda>_. ret (Inr ()))"

record UpdateCredentialParams =
  ucp_ID :: uuid
  ucp_Name :: string
  ucp_Enabled :: bool
  ucp_RateLimitRPS :: "rat option"
  ucp_RateLimitBurst :: "int option"

definition UpdateCredential :: "Store \<Rightarrow> UpdateCredentialParams \<Rightarrow> (store_error, Credential) result prog" where
  "UpdateCredential s p =
     (let name = trim_space (ucp_Name p) in
      if name = [] then ret (Inl (ErrPlain ''credential name is required''))
      else if (case ucp_RateLimitRPS p of None \<Rightarrow> False | Some r \<Rightarrow> r \<le> 0) then ret (Inl (ErrPlain ''rate limit rps''))
      else if (case ucp_RateLimitBurst p of None \<Rightarrow> False | Some b \<Rightarrow> b \<le> 0) then ret (Inl (ErrPlain ''rate limit burst''))
      else orelse (exec (\<lambda>now uid. Queries_UpdateCredential (st_lower s) (ucp_ID p) name (ucp_Enabled p)
                           (ucp_RateLimitRPS p) (ucp_RateLimitBurst p))) store_wrap (\<lambda>row. ret (Inr row)))"

section \<open>Every operation is audited\<close>

lemma mintFor_obeys: "au.obeys lower (mintFor s typ u)"
  unfolding mintFor_def by (auto intro!: au.obeys_rules split: sum.splits)

lemma create_credential_tx_obeys: "au.obeys_tx (st_lower s) (create_credential_tx s p minted ps rs)"
  unfolding create_credential_tx_def by (intro au.obeys_rules audits)

lemma CreateCredential_loop_obeys: "au.obeys (st_lower s) (CreateCredential_loop s p ps rs n)"
  by (induction n) (auto intro!: au.obeys_rules mintFor_obeys create_credential_tx_obeys split: sum.splits)

lemma CreateCredential_obeys: "au.obeys (st_lower s) (CreateCredential s p)"
  unfolding CreateCredential_def by (auto intro!: au.obeys_rules CreateCredential_loop_obeys split: sum.splits)

lemma withPatterns_obeys: "au.obeys lower (withPatterns s row)"
  unfolding withPatterns_def by (auto intro!: au.obeys_rules split: sum.splits)

lemma Load_obeys: "au.obeys lower (LoadCredentialByLookup s l)" "au.obeys lower (LoadCredential s i)"
  unfolding LoadCredentialByLookup_def LoadCredential_def by (auto intro!: au.obeys_rules withPatterns_obeys)

lemma RotateCredentialSecret_loop_obeys: "au.obeys (st_lower s) (RotateCredentialSecret_loop s i c n)"
  by (induction n) (auto intro!: au.obeys_rules mintFor_obeys audits split: sum.splits)

lemma credential_ops_obey:
  "au.obeys (st_lower s) (RevokeCredential s i)" "au.obeys (st_lower s) (RotateCredentialSecret s i)"
  "au.obeys (st_lower s) (DeleteCredential i)" "au.obeys (st_lower s) (AddPatterns s i raw)"
  "au.obeys (st_lower s) (RemovePattern i j)" "au.obeys (st_lower s) (AddRecipientPatterns s i raw)"
  "au.obeys (st_lower s) (RemoveRecipientPattern i j)" "au.obeys (st_lower s) (TouchCredential s i)"
  "au.obeys (st_lower s) (UpdateCredential s u)"
  unfolding RevokeCredential_def RotateCredentialSecret_def DeleteCredential_def AddPatterns_def RemovePattern_def
    AddRecipientPatterns_def RemoveRecipientPattern_def TouchCredential_def UpdateCredential_def Let_def
  by (auto intro!: au.obeys_rules audits RotateCredentialSecret_loop_obeys split: sum.splits)

section \<open>What creation writes\<close>

definition sender_patterns :: "db \<Rightarrow> uuid \<Rightarrow> string set" where
  "sender_patterns d i = set (map fpat_Pattern (filter (\<lambda>r. fpat_CredentialID r = i) (db_from_patterns d)))"

definition recipient_patterns :: "db \<Rightarrow> uuid \<Rightarrow> string set" where
  "recipient_patterns d i = set (map rpat_Pattern (filter (\<lambda>r. rpat_CredentialID r = i) (db_recipient_patterns d)))"

definition credential_created :: "db \<Rightarrow> db \<Rightarrow> Credential \<Rightarrow> string list \<Rightarrow> string list \<Rightarrow> bool" where
  "credential_created d d' c ps rs \<longleftrightarrow>
     cred_ID c \<notin> credential_ids d \<and> cred_Lookup c \<notin> cred_Lookup ` set (db_credentials d) \<and>
     db_credentials d' = db_credentials d @ [c] \<and>
     sender_patterns d' (cred_ID c) = set ps \<and> recipient_patterns d' (cred_ID c) = set rs \<and>
     db_backends d' = db_backends d \<and> db_domains d' = db_domains d \<and> db_messages d' = db_messages d \<and>
     db_payloads d' = db_payloads d \<and> db_jobs d' = db_jobs d"

lemma AddFromPattern_Inr:
  assumes "Queries_AddFromPattern c p now uid d = (Inr r, d')"
  shows "\<exists>t. d' = d\<lparr>db_from_patterns := t\<rparr>" "sender_patterns d' c = insert p (sender_patterns d c)"
proof -
  let ?row = "\<lparr>fpat_ID = uid, fpat_CredentialID = c, fpat_Pattern = p, fpat_CreatedAt = now\<rparr>"
  have "(d' = d \<and> r \<in> set (db_from_patterns d) \<and> fpat_CredentialID r = c \<and> fpat_Pattern r = p) \<or>
    d' = d\<lparr>db_from_patterns := db_from_patterns d @ [?row]\<rparr>"
    using assms by (auto simp: Queries_AddFromPattern_def wrote_def Let_def
        split: option.splits sum.splits dest!: insert_row_Inr(1) find_SomeD)
  moreover have "sender_patterns (d\<lparr>db_from_patterns := db_from_patterns d @ [?row]\<rparr>) c = insert p (sender_patterns d c)"
    unfolding sender_patterns_def by simp
  ultimately show "\<exists>t. d' = d\<lparr>db_from_patterns := t\<rparr>" "sender_patterns d' c = insert p (sender_patterns d c)"
    by (auto intro: exI [of _ "db_from_patterns d"]) (auto simp: sender_patterns_def)
qed

lemma AddRecipientPattern_Inr:
  assumes "Queries_AddRecipientPattern c p now uid d = (Inr r, d')"
  shows "\<exists>t. d' = d\<lparr>db_recipient_patterns := t\<rparr>" "recipient_patterns d' c = insert p (recipient_patterns d c)"
proof -
  let ?row = "\<lparr>rpat_ID = uid, rpat_CredentialID = c, rpat_Pattern = p, rpat_CreatedAt = now\<rparr>"
  have "(d' = d \<and> r \<in> set (db_recipient_patterns d) \<and> rpat_CredentialID r = c \<and> rpat_Pattern r = p) \<or>
    d' = d\<lparr>db_recipient_patterns := db_recipient_patterns d @ [?row]\<rparr>"
    using assms by (auto simp: Queries_AddRecipientPattern_def wrote_def Let_def
        split: option.splits sum.splits dest!: insert_row_Inr(1) find_SomeD)
  moreover have "recipient_patterns (d\<lparr>db_recipient_patterns := db_recipient_patterns d @ [?row]\<rparr>) c = insert p (recipient_patterns d c)"
    unfolding recipient_patterns_def by simp
  ultimately show "\<exists>t. d' = d\<lparr>db_recipient_patterns := t\<rparr>" "recipient_patterns d' c = insert p (recipient_patterns d c)"
    by (auto intro: exI [of _ "db_recipient_patterns d"]) (auto simp: recipient_patterns_def)
qed

lemma foreach_AddFromPattern:
  assumes "run_state (foreach ps (\<lambda>p. exec_tx (Queries_AddFromPattern c p))) w = (Inr (), w')"
  shows "\<exists>t. tables w' = (tables w)\<lparr>db_from_patterns := t\<rparr>"
    "sender_patterns (tables w') c = sender_patterns (tables w) c \<union> set ps"
  using assms
proof (induction ps arbitrary: w)
  case (Cons p ps)
  {
    case 1
    from 1 obtain r w1 where e: "run_state (exec_tx (Queries_AddFromPattern c p)) w = (Inr r, w1)"
      and k: "run_state (foreach ps (\<lambda>p. exec_tx (Queries_AddFromPattern c p))) w1 = (Inr (), w')"
      by (auto elim: orelse_Inr)
    show ?case using AddFromPattern_Inr(1) [OF exec_tx_Inr(1) [OF e]] Cons.IH(1) [OF k] by auto
  next
    case 2
    from 2 obtain r w1 where e: "run_state (exec_tx (Queries_AddFromPattern c p)) w = (Inr r, w1)"
      and k: "run_state (foreach ps (\<lambda>p. exec_tx (Queries_AddFromPattern c p))) w1 = (Inr (), w')"
      by (auto elim: orelse_Inr)
    show ?case using AddFromPattern_Inr(2) [OF exec_tx_Inr(1) [OF e]] Cons.IH(2) [OF k] by auto
  }
qed (auto intro: exI [of _ "db_from_patterns (tables w')"])

lemma foreach_AddRecipientPattern:
  assumes "run_state (foreach ps (\<lambda>p. exec_tx (Queries_AddRecipientPattern c p))) w = (Inr (), w')"
  shows "\<exists>t. tables w' = (tables w)\<lparr>db_recipient_patterns := t\<rparr>"
    "recipient_patterns (tables w') c = recipient_patterns (tables w) c \<union> set ps"
  using assms
proof (induction ps arbitrary: w)
  case (Cons p ps)
  {
    case 1
    from 1 obtain r w1 where e: "run_state (exec_tx (Queries_AddRecipientPattern c p)) w = (Inr r, w1)"
      and k: "run_state (foreach ps (\<lambda>p. exec_tx (Queries_AddRecipientPattern c p))) w1 = (Inr (), w')"
      by (auto elim: orelse_Inr)
    show ?case using AddRecipientPattern_Inr(1) [OF exec_tx_Inr(1) [OF e]] Cons.IH(1) [OF k] by auto
  next
    case 2
    from 2 obtain r w1 where e: "run_state (exec_tx (Queries_AddRecipientPattern c p)) w = (Inr r, w1)"
      and k: "run_state (foreach ps (\<lambda>p. exec_tx (Queries_AddRecipientPattern c p))) w1 = (Inr (), w')"
      by (auto elim: orelse_Inr)
    show ?case using AddRecipientPattern_Inr(2) [OF exec_tx_Inr(1) [OF e]] Cons.IH(2) [OF k] by auto
  }
qed (auto intro: exI [of _ "db_recipient_patterns (tables w')"])

lemma fresh_credential_bare:
  assumes "db_inv lower d" "i \<notin> credential_ids d"
  shows "sender_patterns d i = {}" "recipient_patterns d i = {}"
  using assms by (auto simp: db_inv_def sender_patterns_def recipient_patterns_def table_ok_iff
      from_pattern_schema_def recipient_pattern_schema_def list_all_iff)

lemma CreateCredential_Inr:
  assumes "Queries_CreateCredential lower arg now uid d = (Inr c, d')"
  shows "d' = d\<lparr>db_credentials := db_credentials d @ [c]\<rparr>" "cred_ID c \<notin> credential_ids d"
    "cred_Lookup c \<notin> cred_Lookup ` set (db_credentials d)"
    "cred_Lookup c = ccp_Lookup arg" "cred_SecretHmac c = ccp_SecretHmac arg" "cred_Enabled c = ccp_Enabled arg"
    "cred_RevokedAt c = None" "cred_Type c = ccp_Type arg"
  using assms
  by (auto simp: Queries_CreateCredential_def wrote_def Let_def insert_row_def write_rows_Inr collided_None
      credential_schema_def sorted_wrt_append split: sum.splits)

lemma create_credential_tx_Inr:
  assumes "run_state (create_credential_tx s p mt ps rs) w = (Inr c, w')" "db_inv (st_lower s) (tables w)"
  shows "credential_created (tables w) (tables w') c ps rs"
    "cred_Lookup c = Lookup mt" "cred_SecretHmac c = HMAC mt" "cred_Enabled c = ncp_Enabled p"
    "cred_RevokedAt c = None" "cred_Type c = ncp_Type p"
proof -
  obtain w1 w2 arg where arg: "ccp_Lookup arg = Lookup mt" "ccp_SecretHmac arg = HMAC mt" "ccp_Enabled arg = ncp_Enabled p"
      "ccp_Type arg = ncp_Type p"
    and q: "run_state (exec_tx (Queries_CreateCredential (st_lower s) arg)) w = (Inr c, w1)"
    and f: "run_state (foreach ps (\<lambda>pt. exec_tx (Queries_AddFromPattern (cred_ID c) pt))) w1 = (Inr (), w2)"
    and r: "run_state (foreach rs (\<lambda>pt. exec_tx (Queries_AddRecipientPattern (cred_ID c) pt))) w2 = (Inr (), w')"
    using assms(1) unfolding create_credential_tx_def by (force elim!: orelse_Inr)
  note c = CreateCredential_Inr [OF exec_tx_Inr(1) [OF q]]
  note bare = fresh_credential_bare [OF assms(2) c(2)]
  show "credential_created (tables w) (tables w') c ps rs"
    using foreach_AddFromPattern [OF f] foreach_AddRecipientPattern [OF r] c(1-3) bare
    by (auto simp: credential_created_def sender_patterns_def recipient_patterns_def)
  show "cred_Lookup c = Lookup mt" "cred_SecretHmac c = HMAC mt" "cred_Enabled c = ncp_Enabled p"
    "cred_RevokedAt c = None" "cred_Type c = ncp_Type p"
    using c(4-8) arg by simp_all
qed

lemma mintFor_frame:
  assumes "run_state (mintFor s typ u) w = (r, w')"
  shows "\<exists>b. w' = w\<lparr>draws := b\<rparr>"
  using assms by (auto simp: mintFor_def rand_Read_def split: if_splits sum.splits)

lemma mintFor_Inr:
  assumes "run_state (mintFor s typ u) w = (Inr mt, w')" "crypto_lawful (st_crypto s)"
  shows "if typ = CredentialTypeAPIKey
    then \<exists>sec. ParseAPIKey (Plaintext mt) = Inr (Lookup mt, sec) \<and> Verify (st_crypto s) (st_hasher s) sec (HMAC mt)
    else NormalizeSMTPUsername (st_idna s) (Lookup mt) = Inr (Lookup mt) \<and>
      Verify (st_crypto s) (st_hasher s) (Plaintext mt) (HMAC mt) \<and>
      (trim_space u \<noteq> [] \<longrightarrow> NormalizeSMTPUsername (st_idna s) u = Inr (Lookup mt))"
proof (cases "typ = CredentialTypeAPIKey")
  case True
  with assms(1) obtain d1 w1 d2 w2 where r: "run_state (rand_Read 10) w = (d1, w1)"
    "run_state (rand_Read secretBytes) w1 = (d2, w2)" "d1 \<noteq> None" "MintAPIKey (st_crypto s) (st_hasher s) d1 d2 = Inr mt"
    by (auto simp: mintFor_def MintAPIKey_def randomLookup_def split: prod.splits if_splits)
  then obtain b1 b2 where b: "d1 = Some b1" "d2 = Some b2"
    by (auto simp: MintAPIKey_def randomSecret_def split: sum.splits option.splits)
  have "length b1 = 10" "length b2 = secretBytes"
    using r(1,2) b by (auto dest: rand_Read_Some)
  from MintAPIKey_ok [OF assms(2) this, of "st_hasher s"] r(4) b True show ?thesis by auto
next
  case False
  with assms(1) obtain u' d w1 w2 where r: "run_state (rand_Read secretBytes) w1 = (d, w2)"
    "MintSMTPPassword (st_crypto s) (st_idna s) (st_hasher s) u' d = Inr mt" "trim_space u \<noteq> [] \<longrightarrow> u' = u"
    by (auto simp: mintFor_def split: prod.splits sum.splits if_splits)
  then obtain b where "d = Some b" by (auto simp: MintSMTPPassword_def randomSecret_def split: sum.splits option.splits)
  with r MintSMTPPassword_ok [OF assms(2)] False show ?thesis by auto
qed

text \<open>The secret handed to the operator is one the stored row recognises.\<close>

definition secret_opens :: "Store \<Rightarrow> CreatedCredential \<Rightarrow> bool" where
  "secret_opens s cc \<longleftrightarrow>
     (if cred_Type (cc_Credential cc) = CredentialTypeAPIKey
      then \<exists>sec. ParseAPIKey (Reveal (cc_Secret cc)) = Inr (cred_Lookup (cc_Credential cc), sec) \<and>
             Verify (st_crypto s) (st_hasher s) sec (cred_SecretHmac (cc_Credential cc))
      else NormalizeSMTPUsername (st_idna s) (cred_Lookup (cc_Credential cc)) = Inr (cred_Lookup (cc_Credential cc)) \<and>
             Verify (st_crypto s) (st_hasher s) (Reveal (cc_Secret cc)) (cred_SecretHmac (cc_Credential cc)))"

definition creation_outcome :: "Store \<Rightarrow> NewCredentialParams \<Rightarrow> string list \<Rightarrow> string list \<Rightarrow> db \<Rightarrow> db \<Rightarrow>
    (store_error, CreatedCredential) result \<Rightarrow> bool" where
  "creation_outcome s p ps rs d d' r \<longleftrightarrow>
     (case r of
        Inr cc \<Rightarrow> cc_Patterns cc = ps \<and> cc_RecipientPatterns cc = rs \<and> credential_created d d' (cc_Credential cc) ps rs \<and>
          cred_Type (cc_Credential cc) = ncp_Type p \<and> cred_Enabled (cc_Credential cc) = ncp_Enabled p \<and>
          cred_RevokedAt (cc_Credential cc) = None \<and> (crypto_lawful (st_crypto s) \<longrightarrow> secret_opens s cc)
      | Inl e \<Rightarrow> d' = d \<or> (e = classify connection_error \<and> (\<exists>c. credential_created d d' c ps rs)))"

lemma withTx_create:
  assumes "run_state (withTx (create_credential_tx s p mt ps rs)) w = (t, w')"
    and "db_inv (st_lower s) (tables w)" "peers w = []"
  shows "case t of Inr c \<Rightarrow> credential_created (tables w) (tables w') c ps rs \<and> cred_Lookup c = Lookup mt \<and>
        cred_SecretHmac c = HMAC mt \<and> cred_Enabled c = ncp_Enabled p \<and> cred_RevokedAt c = None \<and> cred_Type c = ncp_Type p
    | Inl e \<Rightarrow> tables w' = tables w \<or> (e = connection_error \<and> (\<exists>c. credential_created (tables w) (tables w') c ps rs))"
  using assms(1)
proof (cases rule: withTx_cases)
  case (kept e)
  then show ?thesis using assms(3) by (simp add: interfere_def)
next
  case (committed c w1)
  have t: "tables (tick w) = tables w" using assms(3) by (simp add: interfere_def)
  from create_credential_tx_Inr [OF committed(1)] assms(2) t committed(2,3) show ?thesis by auto
qed

lemma withTx_peers:
  assumes "run_state (withTx (create_credential_tx s p mt ps rs)) w = (t, w')" "peers w = []"
  shows "peers w' = []"
proof -
  have "peers w1 = []" if "run_state (create_credential_tx s p mt ps rs) (tick w) = (r, w1)" for r w1
    using create_credential_tx_obeys [of s p mt ps rs] that assms(2)
    by (force simp: au.obeys_tx_def tick_def split: prod.splits)
  then show ?thesis
    using assms by (fastforce simp: run_withTx tick_def split: if_splits prod.splits sum.splits net_event.splits)
qed

lemma CreateCredential_loop_outcome:
  assumes "run_state (CreateCredential_loop s p ps rs n) w = (r, w')" "db_inv (st_lower s) (tables w)" "peers w = []"
  shows "creation_outcome s p ps rs (tables w) (tables w') r"
  using assms
proof (induction n arbitrary: w)
  case 0
  then show ?case by (auto simp: creation_outcome_def)
next
  case (Suc n)
  obtain mr w1 where m: "run_state (mintFor s (ncp_Type p) (ncp_SMTPUsername p)) w = (mr, w1)" by fastforce
  obtain b where w1: "w1 = w\<lparr>draws := b\<rparr>" using mintFor_frame [OF m] by auto
  show ?case
  proof (cases mr)
    case (Inl e)
    with Suc.prems(1) m w1 show ?thesis by (auto simp: orelse_run creation_outcome_def)
  next
    case (Inr mt)
    obtain t w2 where t: "run_state (withTx (create_credential_tx s p mt ps rs)) w1 = (t, w2)" by fastforce
    have pre: "db_inv (st_lower s) (tables w1)" "peers w1 = []" "tables w1 = tables w" using Suc.prems w1 by auto
    note c = withTx_create [OF t pre(1,2)] and p2 = withTx_peers [OF t pre(2)]
    show ?thesis
    proof (cases t)
      case (Inr c')
      with c Suc.prems(1) m t \<open>mr = Inr mt\<close> mintFor_Inr [OF m [unfolded \<open>mr = Inr mt\<close>]] pre(3) show ?thesis
        by (auto simp: orelse_run creation_outcome_def secret_opens_def)
    next
      case (Inl e)
      show ?thesis
      proof (cases "ConstraintName (classify e) = ''credential_lookup_key'' \<and> ncp_Type p = CredentialTypeAPIKey \<and> n > 0")
        case True
        then have "tables w2 = tables w" using c Inl pre(3) by (auto simp: connection_error_def)
        moreover from True have "run_state (CreateCredential_loop s p ps rs n) w2 = (r, w')"
          using Suc.prems(1) m t Inl \<open>mr = Inr mt\<close> by (simp add: orelse_run)
        ultimately show ?thesis using Suc.IH [of w2] p2 Suc.prems(2) by simp
      next
        case False
        then have "r = Inl (store_wrap e)" "w' = w2"
          using Suc.prems(1) m t Inl \<open>mr = Inr mt\<close> by (auto simp: orelse_run split: if_splits)
        with c Inl pre(3) show ?thesis by (auto simp: creation_outcome_def store_wrap_def)
      qed
    qed
  qed
qed

section \<open>Loading what was stored\<close>

lemma NewSet_canonical:
  assumes "idna_lawful x" "NewSet x raw = Inr ps" "set raw' = Pattern_String ` set ps"
  shows "\<exists>ps'. NewSet x raw' = Inr ps' \<and> set ps' = set ps"
proof -
  have re: "frompattern_Parse x (Pattern_String q) = Inr q" if q: "q \<in> set ps" for q
  proof -
    from q NewSet_patterns(1) [OF assms(2)] obtain item where "frompattern_Parse x item = Inr q" by auto
    then show ?thesis using assms(1) by (rule pat_form.reparse [rotated])
  qed
  then have "\<forall>item \<in> set raw'. \<exists>q. frompattern_Parse x item = Inr q" using assms(3) by auto
  then obtain ps' where p: "NewSet x raw' = Inr ps'" unfolding NewSet_def using NewSet_loop_ok by blast
  have "set ps' = set ps"
    using NewSet_patterns(1) [OF p] assms(3) re by (auto simp: image_iff)
  with p show ?thesis by blast
qed

lemma Allows_set: "set ps' = set ps \<Longrightarrow> Allows ps' a = Allows ps a"
  by (simp add: Allows_iff)

lemma Recipient_set: "set ps' = set ps \<Longrightarrow> RecipientRules_Allows \<lparr>rr_set = ps'\<rparr> a = RecipientRules_Allows \<lparr>rr_set = ps\<rparr> a"
proof -
  assume e: "set ps' = set ps"
  then have "(ps' = []) = (ps = [])" by (metis set_empty)
  with Allows_set [OF e, of a] show ?thesis by (simp add: RecipientRules_Allows_def Restricted_def Set_Len_def)
qed

lemma credential_lookup_unique:
  assumes "db_inv lower d" "c \<in> set (db_credentials d)" "c' \<in> set (db_credentials d)"
    and "cred_Lookup c = cred_Lookup c' \<or> cred_ID c = cred_ID c'"
  shows "c = c'"
proof -
  have "sorted_wrt (\<lambda>a b. cred_Lookup a \<noteq> cred_Lookup b) (db_credentials d)" "sorted_wrt (\<lambda>a b. cred_ID a \<noteq> cred_ID b) (db_credentials d)"
    using assms(1) by (auto simp: db_inv_def table_ok_iff credential_schema_def)
  then have "distinct (map cred_Lookup (db_credentials d))" "distinct (map cred_ID (db_credentials d))"
    by (simp_all add: distinct_sorted_wrt)
  with assms(2-4) show ?thesis by (auto simp: distinct_map inj_on_def)
qed

lemma run_withPatterns:
  assumes "quiet w" "idna_lawful (st_idna s)"
    and "NewSet (st_idna s) raw = Inr ps" "sender_patterns (tables w) (cred_ID c) = Pattern_String ` set ps"
    and "NewSet (st_idna s) rraw = Inr rs" "recipient_patterns (tables w) (cred_ID c) = Pattern_String ` set rs"
  shows "\<exists>ps' rs' w'. run_state (withPatterns s c) w = (Inr \<lparr>ac_Credential = c, ac_Patterns = ps', ac_Recipients = \<lparr>rr_set = rs'\<rparr>\<rparr>, w') \<and>
    set ps' = set ps \<and> set rs' = set rs \<and> tables w' = tables w \<and> quiet w'"
proof -
  obtain f d1 where f: "Queries_ListFromPatterns (cred_ID c) (tables w) = (Inr f, tables w)" "set (map fpat_Pattern f) = Pattern_String ` set ps"
    using assms(4) by (simp add: Queries_ListFromPatterns_def sender_patterns_def)
  obtain g where g: "Queries_ListRecipientPatterns (cred_ID c) (tables w) = (Inr g, tables w)" "set (map rpat_Pattern g) = Pattern_String ` set rs"
    using assms(6) by (simp add: Queries_ListRecipientPatterns_def recipient_patterns_def)
  from NewSet_canonical [OF assms(2,3) f(2)] obtain ps' where ps': "NewSet (st_idna s) (map fpat_Pattern f) = Inr ps'" "set ps' = set ps" by blast
  from NewSet_canonical [OF assms(2,5) g(2)] obtain rs' where rs': "NewSet (st_idna s) (map rpat_Pattern g) = Inr rs'" "set rs' = set rs" by blast
  show ?thesis
    using assms(1) f(1) g(1) ps' rs'
    by (simp add: withPatterns_def orelse_run run_exec_quiet NewRecipientRules_def)
qed

section \<open>Revocation\<close>

text \<open>Every credential is kept, and a revocation with its time.\<close>

definition revocations_kept :: "db \<Rightarrow> db \<Rightarrow> bool" where
  "revocations_kept d d' \<longleftrightarrow> (\<forall>c \<in> set (db_credentials d). \<exists>c' \<in> set (db_credentials d').
     cred_ID c' = cred_ID c \<and> (\<forall>t. cred_RevokedAt c = Some t \<longrightarrow> cred_RevokedAt c' = Some t))"

interpretation rv: db_order revocations_kept
  by unfold_locales (auto simp: revocations_kept_def, metis)

lemma revocations_kept_same: "db_credentials d' = db_credentials d \<Longrightarrow> revocations_kept d d'"
  by (auto simp: revocations_kept_def)

lemma revocations_kept_wrote_row:
  assumes "\<And>c. cred_ID (f c) = cred_ID c" "\<And>c t. cred_RevokedAt c = Some t \<Longrightarrow> cred_RevokedAt (f c) = Some t"
  shows "revocations_kept d (snd (wrote_row (update_rows sch p f (db_credentials d)) p (db_credentials d) (\<lambda>t. d\<lparr>db_credentials := t\<rparr>) f d))"
    "revocations_kept d (snd (wrote (update_rows sch p f (db_credentials d)) val (\<lambda>t. d\<lparr>db_credentials := t\<rparr>) d))"
proof -
  have "revocations_kept d (d\<lparr>db_credentials := map (\<lambda>c. if p c then f c else c) (db_credentials d)\<rparr>)"
    unfolding revocations_kept_def
  proof
    fix c assume "c \<in> set (db_credentials d)"
    then show "\<exists>c' \<in> set (db_credentials (d\<lparr>db_credentials := map (\<lambda>c. if p c then f c else c) (db_credentials d)\<rparr>)).
        cred_ID c' = cred_ID c \<and> (\<forall>t. cred_RevokedAt c = Some t \<longrightarrow> cred_RevokedAt c' = Some t)"
      using assms by (intro bexI [of _ "if p c then f c else c"]) auto
  qed
  then show "revocations_kept d (snd (wrote_row (update_rows sch p f (db_credentials d)) p (db_credentials d) (\<lambda>t. d\<lparr>db_credentials := t\<rparr>) f d))"
    "revocations_kept d (snd (wrote (update_rows sch p f (db_credentials d)) val (\<lambda>t. d\<lparr>db_credentials := t\<rparr>) d))"
    by (auto simp: wrote_row_def wrote_def rv.R_refl split: option.splits sum.splits dest!: update_rows_Inr(1))
qed

lemma revocations_kept_stmts:
  "revocations_kept d (snd (Queries_CreateCredential lower arg now uid d))"
  "revocations_kept d (snd (Queries_UpdateCredential lower i name en rps burst d))"
  "revocations_kept d (snd (Queries_RevokeCredential lower i now d))"
  "revocations_kept d (snd (Queries_RotateCredentialSecret lower i l h now d))"
  "revocations_kept d (snd (Queries_TouchCredentialLastUsed lower i mi now d))"
  "revocations_kept d (snd (Queries_AddFromPattern i pt now uid d))"
  "revocations_kept d (snd (Queries_AddRecipientPattern i pt now uid d))"
  "revocations_kept d (snd (Queries_DeleteFromPattern i j d))"
  "revocations_kept d (snd (Queries_DeleteRecipientPattern i j d))"
  subgoal by (auto simp: Queries_CreateCredential_def Let_def wrote_def revocations_kept_def split: sum.splits dest!: insert_row_Inr(1))
  subgoal unfolding Queries_UpdateCredential_def Let_def by (rule revocations_kept_wrote_row) auto
  subgoal unfolding Queries_RevokeCredential_def Let_def by (rule revocations_kept_wrote_row) auto
  subgoal unfolding Queries_RotateCredentialSecret_def Let_def by (rule revocations_kept_wrote_row) auto
  subgoal unfolding Queries_TouchCredentialLastUsed_def by (rule revocations_kept_wrote_row) auto
  subgoal by (auto simp: Queries_AddFromPattern_def Let_def wrote_def intro!: revocations_kept_same split: option.splits sum.splits)
  subgoal by (auto simp: Queries_AddRecipientPattern_def Let_def wrote_def intro!: revocations_kept_same split: option.splits sum.splits)
  subgoal by (auto simp: Queries_DeleteFromPattern_def intro!: revocations_kept_same)
  subgoal by (auto simp: Queries_DeleteRecipientPattern_def intro!: revocations_kept_same)
  done

text \<open>The operations on credentials other than deletion, as a sequence of calls.\<close>

datatype cred_op =
    OpCreate NewCredentialParams
  | OpUpdate UpdateCredentialParams
  | OpRevoke uuid
  | OpRotate uuid
  | OpAddPatterns uuid "string list"
  | OpRemovePattern uuid uuid
  | OpAddRecipientPatterns uuid "string list"
  | OpRemoveRecipientPattern uuid uuid
  | OpTouch uuid

fun run_cred_op :: "Store \<Rightarrow> cred_op \<Rightarrow> unit prog" where
  "run_cred_op s (OpCreate p) = do { _ \<leftarrow> CreateCredential s p; ret () }"
| "run_cred_op s (OpUpdate p) = do { _ \<leftarrow> UpdateCredential s p; ret () }"
| "run_cred_op s (OpRevoke i) = do { _ \<leftarrow> RevokeCredential s i; ret () }"
| "run_cred_op s (OpRotate i) = do { _ \<leftarrow> RotateCredentialSecret s i; ret () }"
| "run_cred_op s (OpAddPatterns i raw) = do { _ \<leftarrow> AddPatterns s i raw; ret () }"
| "run_cred_op s (OpRemovePattern i j) = do { _ \<leftarrow> RemovePattern i j; ret () }"
| "run_cred_op s (OpAddRecipientPatterns i raw) = do { _ \<leftarrow> AddRecipientPatterns s i raw; ret () }"
| "run_cred_op s (OpRemoveRecipientPattern i j) = do { _ \<leftarrow> RemoveRecipientPattern i j; ret () }"
| "run_cred_op s (OpTouch i) = do { _ \<leftarrow> TouchCredential s i; ret () }"

primrec run_cred_ops :: "Store \<Rightarrow> cred_op list \<Rightarrow> unit prog" where
  "run_cred_ops s [] = ret ()"
| "run_cred_ops s (op # ops) = do { _ \<leftarrow> run_cred_op s op; run_cred_ops s ops }"

lemma rv_mintFor: "rv.obeys (mintFor s typ u)"
  unfolding mintFor_def by (auto intro!: rv.obeys_rules split: sum.splits)

lemma rv_CreateCredential: "rv.obeys (CreateCredential s p)"
proof -
  have "rv.obeys_tx (create_credential_tx s p mt ps rs)" for p mt ps rs
    unfolding create_credential_tx_def by (intro rv.obeys_rules revocations_kept_stmts)
  then have "rv.obeys (CreateCredential_loop s p ps rs n)" for p ps rs n
    by (induction n) (auto intro!: rv.obeys_rules rv_mintFor split: sum.splits)
  then show ?thesis unfolding CreateCredential_def by (auto intro!: rv.obeys_rules split: sum.splits)
qed

lemma rv_RotateCredentialSecret: "rv.obeys (RotateCredentialSecret s i)"
proof -
  have "rv.obeys (RotateCredentialSecret_loop s i c n)" for c n
    by (induction n) (auto intro!: rv.obeys_rules rv_mintFor revocations_kept_stmts rv.R_refl split: sum.splits)
  then show ?thesis unfolding RotateCredentialSecret_def by (auto intro!: rv.obeys_rules rv.R_refl)
qed

lemma rv_cred_op: "rv.obeys (run_cred_op s op)"
  by (cases op)
    (auto simp: UpdateCredential_def RevokeCredential_def AddPatterns_def RemovePattern_def AddRecipientPatterns_def
      RemoveRecipientPattern_def TouchCredential_def Let_def
      intro!: rv.obeys_rules revocations_kept_stmts rv_CreateCredential rv_RotateCredentialSecret split: sum.splits)

lemma rv_cred_ops: "rv.obeys (run_cred_ops s ops)"
  by (induction ops) (auto intro!: rv.obeys_rules rv_cred_op)

section \<open>Properties\<close>

lemma CreateCredential_cases:
  assumes "run_state (CreateCredential s p0) w = (r, w')"
  obtains (refused) e where "r = Inl e" "w' = w"
  | (tried) p ps rs where "NewCredentialParams_normalize s p0 = Inr p" "normalizePatterns (st_idna s) (ncp_Patterns p) = Inr ps"
      "normalizePatterns (st_idna s) (ncp_RecipientPatterns p) = Inr rs"
      "run_state (CreateCredential_loop s p ps rs lookupCollisionRetries) w = (r, w')"
  using assms by (auto simp: CreateCredential_def split: sum.splits)

lemma normalize_keeps:
  "NewCredentialParams_normalize s p0 = Inr p \<Longrightarrow> ncp_Patterns p = ncp_Patterns p0 \<and>
     ncp_RecipientPatterns p = ncp_RecipientPatterns p0 \<and> ncp_Enabled p = ncp_Enabled p0"
  by (auto simp: NewCredentialParams_normalize_def Let_def split: if_splits)

lemma keeps_quiet_mintFor: "keeps_quiet (mintFor s typ u)"
  unfolding mintFor_def by (auto intro!: keeps_quiet_rules split: sum.splits)

lemma keeps_quiet_CreateCredential: "keeps_quiet (CreateCredential s p)"
proof -
  have "keeps_quiet (CreateCredential_loop s q ps rs n)" for q ps rs n
    by (induction n)
      (auto simp: create_credential_tx_def intro!: keeps_quiet_rules keeps_quiet_mintFor split: sum.splits)
  then show ?thesis unfolding CreateCredential_def by (auto intro!: keeps_quiet_rules split: sum.splits)
qed

text \<open>
  C11: Creating a credential is all or nothing, whatever the network does. On success the database holds one new
  credential, with a fresh id and lookup value, exactly the normalised sender and recipient patterns, and a fingerprint that the secret
  handed out verifies against. On an error the database is unchanged, unless the error is a lost connection, after which
  it is either unchanged or holds the complete credential.
\<close>

theorem create_credential_atomic:
  assumes "db_inv (st_lower s) (tables w)" "peers w = []" "run_state (CreateCredential s p) w = (r, w')"
  shows "case r of
      Inr cc \<Rightarrow> normalizePatterns (st_idna s) (ncp_Patterns p) = Inr (cc_Patterns cc) \<and>
        normalizePatterns (st_idna s) (ncp_RecipientPatterns p) = Inr (cc_RecipientPatterns cc) \<and>
        credential_created (tables w) (tables w') (cc_Credential cc) (cc_Patterns cc) (cc_RecipientPatterns cc) \<and>
        (crypto_lawful (st_crypto s) \<longrightarrow> secret_opens s cc)
    | Inl e \<Rightarrow> tables w' = tables w \<or> (e = classify connection_error \<and>
        (\<exists>c ps rs. normalizePatterns (st_idna s) (ncp_Patterns p) = Inr ps \<and>
           normalizePatterns (st_idna s) (ncp_RecipientPatterns p) = Inr rs \<and>
           credential_created (tables w) (tables w') c ps rs))"
  using assms(3)
proof (cases rule: CreateCredential_cases)
  case (tried q ps rs)
  with CreateCredential_loop_outcome [OF tried(4) assms(1,2)] normalize_keeps [OF tried(1)] show ?thesis
    by (auto simp: creation_outcome_def split: sum.splits)
qed auto

lemma created_loads:
  assumes "externals_lawful (st_lib s)" "quiet w" "db_inv (st_lower s) (tables w)"
    and "run_state (CreateCredential s p) w = (Inr cc, w')"
  shows "\<exists>ac w''. run_state (LoadCredentialByLookup s (cred_Lookup (cc_Credential cc))) w' = (Inr ac, w'') \<and>
    ac_Credential ac = cc_Credential cc \<and> cred_Type (cc_Credential cc) \<in> {CredentialTypeAPIKey, CredentialTypeSMTPUser} \<and> (Usable ac \<longleftrightarrow> ncp_Enabled p) \<and> secret_opens s cc \<and>
    (\<forall>a. Allows (ac_Patterns ac) a \<longleftrightarrow>
       (\<exists>item \<in> set (ncp_Patterns p). \<exists>q. frompattern_Parse (st_idna s) item = Inr q \<and> Matches q a)) \<and>
    (\<forall>a. RecipientRules_Allows (ac_Recipients ac) a \<longleftrightarrow> ncp_RecipientPatterns p = [] \<or>
       (\<exists>item \<in> set (ncp_RecipientPatterns p). \<exists>q. frompattern_Parse (st_idna s) item = Inr q \<and> Matches q a))"
  using assms(4)
proof (cases rule: CreateCredential_cases)
  case (tried q ps rs)
  let ?c = "cc_Credential cc"
  have lib: "idna_lawful (st_idna s)" "crypto_lawful (st_crypto s)" using assms(1) by (auto simp: externals_lawful_def)
  have o: "creation_outcome s q ps rs (tables w) (tables w') (Inr cc)"
    using CreateCredential_loop_outcome [OF tried(4) assms(3)] assms(2) by (simp add: quiet_def)
  have q': "quiet w'" by (rule keeps_quietD [OF keeps_quiet_CreateCredential assms(2,4)])
  have inv': "db_inv (st_lower s) (tables w')"
    using au.obeysD [OF CreateCredential_obeys assms(4) au.friendly_alone] assms(2,3) by (simp add: audited_def quiet_def)
  from tried(2,3) obtain sp sr where sp: "NewSet (st_idna s) (ncp_Patterns p) = Inr sp" "set ps = Pattern_String ` set sp"
    and sr: "NewSet (st_idna s) (ncp_RecipientPatterns p) = Inr sr" "set rs = Pattern_String ` set sr"
    using normalize_keeps [OF tried(1)] by (auto simp: normalizePatterns_Inr)
  have cr: "credential_created (tables w) (tables w') ?c ps rs" using o by (simp add: creation_outcome_def)
  have f: "find (\<lambda>x. cred_Lookup x = cred_Lookup ?c) (db_credentials (tables w')) = Some ?c"
    using cr credential_lookup_unique [OF inv'] by (intro find_unique) (auto simp: credential_created_def)
  obtain ps' rs' w3 where r: "run_state (withPatterns s ?c) (w'\<lparr>ids := tl (ids w'), tables := tables w'\<rparr>) =
      (Inr \<lparr>ac_Credential = ?c, ac_Patterns = ps', ac_Recipients = \<lparr>rr_set = rs'\<rparr>\<rparr>, w3)" "set ps' = set sp" "set rs' = set sr"
    using run_withPatterns [OF _ lib(1) sp(1) _ sr(1), of "w'\<lparr>ids := tl (ids w'), tables := tables w'\<rparr>" ?c] q' cr sp(2) sr(2)
    by (auto simp: credential_created_def)
  have empty: "rs' = [] \<longleftrightarrow> ncp_RecipientPatterns p = []"
    using r(3) NewSet_patterns(1) [OF sr(1)] NewSet_loop_ok [of "st_idna s" 0 "[]" "ncp_RecipientPatterns p"] sr(1)
    by (cases "ncp_RecipientPatterns p"; cases rs'; auto simp: NewSet_def; fastforce)
  have "run_state (LoadCredentialByLookup s (cred_Lookup ?c)) w' =
      (Inr \<lparr>ac_Credential = ?c, ac_Patterns = ps', ac_Recipients = \<lparr>rr_set = rs'\<rparr>\<rparr>, w3)"
    using q' f r(1) by (simp add: LoadCredentialByLookup_def orelse_run run_exec_quiet Queries_GetCredentialByLookup_def one_row_def)
  moreover have "Allows ps' a \<longleftrightarrow> (\<exists>item \<in> set (ncp_Patterns p). \<exists>q. frompattern_Parse (st_idna s) item = Inr q \<and> Matches q a)"
    "Allows rs' a \<longleftrightarrow> (\<exists>item \<in> set (ncp_RecipientPatterns p). \<exists>q. frompattern_Parse (st_idna s) item = Inr q \<and> Matches q a)" for a
    using r(2,3) NewSet_patterns(1) [OF sp(1)] NewSet_patterns(1) [OF sr(1)] by (auto simp: Allows_iff)
  moreover have "cred_Enabled ?c = ncp_Enabled p" "cred_RevokedAt ?c = None" "secret_opens s cc"
    using o lib(2) normalize_keeps [OF tried(1)] by (auto simp: creation_outcome_def)
  moreover have "cred_Type ?c \<in> {CredentialTypeAPIKey, CredentialTypeSMTPUser}"
    using o tried(1) by (auto simp: creation_outcome_def NewCredentialParams_normalize_def Let_def split: if_splits)
  ultimately show ?thesis
    using empty by (auto simp: Usable_def RecipientRules_Allows_def Restricted_def Set_Len_def)
qed auto

text \<open>
  What was created is what is loaded. In a world without failures, the credential created for a request is found by its lookup
  value; it is usable exactly when the request enabled it, it may send as exactly the addresses some requested sender pattern
  matches, and may mail everyone when no recipient pattern was requested and exactly the matching addresses otherwise.
\<close>

theorem created_credential_loads:
  assumes "externals_lawful (st_lib s)" "quiet w" "db_inv (st_lower s) (tables w)"
    and "run_state (CreateCredential s p) w = (Inr cc, w')"
  shows "\<exists>ac w''. run_state (LoadCredentialByLookup s (cred_Lookup (cc_Credential cc))) w' = (Inr ac, w'') \<and>
    ac_Credential ac = cc_Credential cc \<and> (Usable ac \<longleftrightarrow> ncp_Enabled p) \<and> secret_opens s cc \<and>
    (\<forall>a. Allows (ac_Patterns ac) a \<longleftrightarrow>
       (\<exists>item \<in> set (ncp_Patterns p). \<exists>q. frompattern_Parse (st_idna s) item = Inr q \<and> Matches q a)) \<and>
    (\<forall>a. RecipientRules_Allows (ac_Recipients ac) a \<longleftrightarrow> ncp_RecipientPatterns p = [] \<or>
       (\<exists>item \<in> set (ncp_RecipientPatterns p). \<exists>q. frompattern_Parse (st_idna s) item = Inr q \<and> Matches q a))"
  using created_loads [OF assms] by blast

lemma LoadCredential_Inr:
  assumes "run_state (LoadCredential s i) w = (Inr ac, w')"
  shows "ac_Credential ac \<in> set (db_credentials (interfere w)) \<and> cred_ID (ac_Credential ac) = i"
proof -
  from assms obtain row w1 where q: "run_state (exec (\<lambda>now uid. Queries_GetCredential i)) w = (Inr row, w1)"
    and k: "run_state (withPatterns s row) w1 = (Inr ac, w')"
    unfolding LoadCredential_def by (rule orelse_Inr)
  have "ac_Credential ac = row" using k by (auto simp: withPatterns_def split: sum.splits elim!: orelse_Inr)
  with q show ?thesis
    by (auto simp: run_exec Queries_GetCredential_def one_row_def split: net_event.splits option.splits dest!: find_SomeD)
qed

lemma RevokeCredential_Inr:
  assumes "run_state (RevokeCredential s i) w = (Inr row, w')"
  shows "row \<in> set (db_credentials (tables w')) \<and> cred_ID row = i \<and> cred_RevokedAt row \<noteq> None"
proof -
  let ?f = "\<lambda>c. c\<lparr>cred_RevokedAt := (case cred_RevokedAt c of None \<Rightarrow> Some (clock w) | Some t \<Rightarrow> Some t), cred_Enabled := False\<rparr>"
  from assms obtain c where f: "find (\<lambda>c. cred_ID c = i) (db_credentials (interfere w)) = Some c" and r: "row = ?f c"
    and t: "db_credentials (tables w') = map (\<lambda>c. if cred_ID c = i then ?f c else c) (db_credentials (interfere w))"
    by (auto simp: RevokeCredential_def run_exec Queries_RevokeCredential_def wrote_row_def Let_def
      split: net_event.splits option.splits sum.splits elim!: orelse_Inr dest!: update_rows_Inr(1))
  from find_SomeD [OF f] r have "row = (if cred_ID c = i then ?f c else c)" "c \<in> set (db_credentials (interfere w))" "cred_ID c = i" by auto
  then show ?thesis unfolding t set_map by (auto split: option.splits)
qed

lemma cred_ops_obey: "au.obeys (st_lower s) (run_cred_ops s ops)"
proof -
  have "au.obeys (st_lower s) (run_cred_op s op)" for op
    by (cases op) (auto intro!: au.obeys_rules CreateCredential_obeys credential_ops_obey)
  then show ?thesis by (induction ops) (auto intro!: au.obeys_rules)
qed

lemma revoked_stays:
  assumes "db_inv (st_lower s) (tables w)"
    and "\<forall>p \<in> set (peers w). \<forall>d. audited (st_lower s) d (p d) \<and> revocations_kept d (p d)"
    and "run_state (RevokeCredential s i) w = (Inr row, w1)" "run_state (run_cred_ops s ops) w1 = (u, w2)"
    and "d \<in> set (db_credentials (interfere w2))" "cred_ID d = i"
  shows "cred_RevokedAt d = cred_RevokedAt row \<and> cred_RevokedAt d \<noteq> None"
proof -
  have f: "au.friendly (st_lower s) w" "rv.friendly w" using assms(2) by (auto simp: au.friendly_def rv.friendly_def)
  have a1: "audited (st_lower s) (tables w) (tables w1) \<and> au.friendly (st_lower s) w1"
    by (rule au.obeysD [OF credential_ops_obey(1) assms(3) f(1)])
  have a2: "audited (st_lower s) (tables w1) (tables w2) \<and> au.friendly (st_lower s) w2"
    using a1 by (intro au.obeysD [OF cred_ops_obey assms(4)]) auto
  then have a3: "audited (st_lower s) (tables w) (interfere w2)"
    using a1 au.interfere_R au.R_trans by blast
  have r1: "rv.friendly w1" using rv.obeysD [OF rv_cred_op [of s "OpRevoke i"], of w "()" w1] assms(3) f(2) by simp
  have r2: "revocations_kept (tables w1) (tables w2) \<and> rv.friendly w2" by (rule rv.obeysD [OF rv_cred_ops assms(4) r1])
  have r3: "revocations_kept (tables w1) (interfere w2)" using r2 rv.interfere_R rv.R_trans by blast
  obtain t where t: "cred_RevokedAt row = Some t" "row \<in> set (db_credentials (tables w1))" "cred_ID row = i"
    using RevokeCredential_Inr [OF assms(3)] by auto
  then obtain c where c: "c \<in> set (db_credentials (interfere w2))" "cred_ID c = i" "cred_RevokedAt c = Some t"
    using r3 by (fastforce simp: revocations_kept_def)
  have "db_inv (st_lower s) (interfere w2)" using a3 assms(1) by (simp add: audited_def)
  from credential_lookup_unique [OF this c(1) assms(5)] c(2) assms(6) have "d = c" by simp
  with c t show ?thesis by simp
qed

text \<open>
  Revocation is final. Once a credential was revoked, no sequence of creations, edits, rotations, pattern changes and
  uses, with failing connections and with other sessions that keep the constraints and the
  revocations, makes it usable again; the time of the revocation does not change either.
\<close>

theorem revocation_is_final:
  assumes "db_inv (st_lower s) (tables w)"
    and "\<forall>p \<in> set (peers w). \<forall>d. audited (st_lower s) d (p d) \<and> revocations_kept d (p d)"
    and "run_state (RevokeCredential s i) w = (Inr row, w1)" "run_state (run_cred_ops s ops) w1 = (u, w2)"
    and "run_state (LoadCredential s i) w2 = (Inr ac, w3)"
  shows "\<not> Usable ac \<and> cred_RevokedAt (ac_Credential ac) = cred_RevokedAt row"
  using revoked_stays [OF assms(1-4), of "ac_Credential ac"] LoadCredential_Inr [OF assms(5)]
  unfolding Usable_def by metis

lemma lookup_shape_trim: "sql_lookup_shape l \<Longrightarrow> trim_space l \<noteq> []"
proof -
  assume l: "sql_lookup_shape l"
  have "trim_space l = l"
    by (rule trim_space_all_id) (use l in \<open>auto simp: sql_lookup_shape_def list_all_iff is_ascii_def ascii_space_def
      is_lower_def is_upper_def is_digit_def\<close>)
  with l show ?thesis by (auto simp: sql_lookup_shape_def)
qed

definition rotated :: "Store \<Rightarrow> db \<Rightarrow> db \<Rightarrow> timestamp \<Rightarrow> Credential \<Rightarrow> CreatedCredential \<Rightarrow> bool" where
  "rotated s d d' now old cc \<longleftrightarrow>
     cc_Credential cc = old\<lparr>cred_Lookup := cred_Lookup (cc_Credential cc), cred_SecretHmac := cred_SecretHmac (cc_Credential cc),
        cred_UpdatedAt := now\<rparr> \<and>
     d' = d\<lparr>db_credentials := map (\<lambda>c. if cred_ID c = cred_ID old \<and> cred_RevokedAt c = None
        then c\<lparr>cred_Lookup := cred_Lookup (cc_Credential cc), cred_SecretHmac := cred_SecretHmac (cc_Credential cc),
          cred_UpdatedAt := now\<rparr> else c) (db_credentials d)\<rparr> \<and>
     secret_opens s cc \<and> set (cc_Patterns cc) = sender_patterns d (cred_ID old) \<and>
     (cred_Type old \<noteq> CredentialTypeAPIKey \<longrightarrow>
        NormalizeSMTPUsername (st_idna s) (cred_Lookup old) = Inr (cred_Lookup (cc_Credential cc)))"

lemma RotateCredentialSecret_loop_Inr:
  assumes "run_state (RotateCredentialSecret_loop s i old n) w = (Inr cc, w')"
    and "crypto_lawful (st_crypto s)" "quiet w" "db_inv (st_lower s) (tables w)" "old \<in> set (db_credentials (tables w))" "cred_ID old = i"
  shows "rotated s (tables w) (tables w') (clock w) old cc \<and> cc_RecipientPatterns cc = []"
  using assms(1,3-6)
proof (induction n arbitrary: w)
  case (Suc n)
  obtain mt w1 where m: "run_state (mintFor s (cred_Type old) (cred_Lookup old)) w = (Inr mt, w1)"
    using Suc.prems(1) by (auto simp: orelse_run split: prod.splits sum.splits)
  obtain b where w1: "w1 = w\<lparr>draws := b\<rparr>" using mintFor_frame [OF m] by auto
  then have q1: "quiet w1" using Suc.prems(2) by simp
  have shape: "trim_space (cred_Lookup old) \<noteq> []"
    using Suc.prems(3,4) by (intro lookup_shape_trim) (auto simp: db_inv_def table_ok_iff credential_schema_def list_all_iff)
  note mt = mintFor_Inr [OF m assms(2)]
  obtain r d where q: "Queries_RotateCredentialSecret (st_lower s) i (Lookup mt) (HMAC mt) (clock w) (tables w) = (r, d)" by fastforce
  have run: "run_state (exec (\<lambda>now uid. Queries_RotateCredentialSecret (st_lower s) i (Lookup mt) (HMAC mt) now)) w1 =
      (r, w1\<lparr>ids := tl (ids w1), tables := d\<rparr>)" using q q1 by (simp add: run_exec_quiet w1)
  show ?case
  proof (cases r)
    case (Inl e)
    then have d: "d = tables w" using q
      by (auto simp: Queries_RotateCredentialSecret_def wrote_row_def Let_def split: option.splits sum.splits)
    have "run_state (RotateCredentialSecret_loop s i old n) (w1\<lparr>ids := tl (ids w1), tables := d\<rparr>) = (Inr cc, w')"
      using Suc.prems(1) m run Inl by (auto simp: orelse_run split: if_splits)
    from Suc.IH [OF this] show ?thesis using Suc.prems q1 by (simp add: w1 d)
  next
    case (Inr row)
    let ?p = "\<lambda>c. cred_ID c = i \<and> cred_RevokedAt c = None"
    let ?f = "\<lambda>c. c\<lparr>cred_Lookup := Lookup mt, cred_SecretHmac := HMAC mt, cred_UpdatedAt := clock w\<rparr>"
    from q Inr obtain old' where o: "find ?p (db_credentials (tables w)) = Some old'" "row = ?f old'"
      "d = (tables w)\<lparr>db_credentials := map (\<lambda>c. if ?p c then ?f c else c) (db_credentials (tables w))\<rparr>"
      by (auto simp: Queries_RotateCredentialSecret_def wrote_row_def Let_def split: option.splits sum.splits
          dest!: update_rows_Inr(1))
    have "old' = old"
      using find_SomeD [OF o(1)] credential_lookup_unique [OF Suc.prems(3,4), of old'] Suc.prems(5) by auto
    moreover have "cc = \<lparr>cc_Credential = row, cc_Secret = Secret (Plaintext mt),
        cc_Patterns = map fpat_Pattern (sort_key fpat_Pattern (filter (\<lambda>p. fpat_CredentialID p = i) (db_from_patterns d))),
        cc_RecipientPatterns = []\<rparr>" "tables w' = d"
      using Suc.prems(1) m run Inr q1 by (auto simp: orelse_run run_exec_quiet Queries_ListFromPatterns_def)
    ultimately show ?thesis
      using o mt shape Suc.prems(5) by (auto simp: rotated_def secret_opens_def sender_patterns_def)
  qed
qed simp

text \<open>
  Rotation replaces what a client presents and nothing else. In a world without failures, a successful rotation changes only the
  lookup value, the fingerprint and the time of the last change of a credential that was not revoked; the secret handed out verifies against
  the new row; an SMTP user keeps its (normalised) username; and the allow-list reported is the stored one. The recipient
  patterns reported are empty, whatever is stored.
\<close>

theorem rotation_keeps_identity:
  assumes "crypto_lawful (st_crypto s)" "quiet w" "db_inv (st_lower s) (tables w)"
    and "run_state (RotateCredentialSecret s i) w = (Inr cc, w')"
  shows "\<exists>old \<in> set (db_credentials (tables w)). cred_ID old = i \<and> cred_RevokedAt old = None \<and>
    rotated s (tables w) (tables w') (clock w) old cc \<and> cc_RecipientPatterns cc = []"
proof -
  from assms(4) obtain old w1 where q: "run_state (exec (\<lambda>now uid. Queries_GetCredential i)) w = (Inr old, w1)"
    and k: "run_state (if cred_RevokedAt old \<noteq> None then ret (Inl (invalid ''credential is revoked''))
       else RotateCredentialSecret_loop s i old lookupCollisionRetries) w1 = (Inr cc, w')"
    unfolding RotateCredentialSecret_def by (rule orelse_Inr)
  have o: "old \<in> set (db_credentials (tables w))" "cred_ID old = i" "w1 = w\<lparr>ids := tl (ids w), tables := tables w\<rparr>"
    using q assms(2) by (auto simp: run_exec_quiet Queries_GetCredential_def one_row_def split: option.splits dest!: find_SomeD)
  then have "rotated s (tables w1) (tables w') (clock w1) old cc \<and> cc_RecipientPatterns cc = []" "cred_RevokedAt old = None"
    using k assms(1-3) RotateCredentialSecret_loop_Inr [of s i old lookupCollisionRetries w1 cc w'] by (auto split: if_splits)
  with o show ?thesis by auto
qed

text \<open>
  The two allow-lists have opposite defaults. A compiled recipient list without patterns allows every address and is matched by
  no pattern; with patterns it allows exactly the addresses some pattern matches. The sender list without patterns allows nobody.
\<close>

theorem recipient_rules_open_by_default:
  assumes "NewRecipientRules x raw = Inr r"
  shows "(Restricted r \<longleftrightarrow> raw \<noteq> []) \<and>
    (RecipientRules_Allows r a \<longleftrightarrow> raw = [] \<or> (\<exists>item \<in> set raw. \<exists>q. frompattern_Parse x item = Inr q \<and> Matches q a)) \<and>
    (MatchedBy r a \<noteq> None \<longleftrightarrow> (\<exists>item \<in> set raw. \<exists>q. frompattern_Parse x item = Inr q \<and> Matches q a)) \<and>
    \<not> Allows [] a"
proof -
  obtain ps where ps: "NewSet x raw = Inr ps" "r = \<lparr>rr_set = ps\<rparr>" using assms by (auto simp: NewRecipientRules_def split: sum.splits)
  have m: "Match ps a \<noteq> None \<longleftrightarrow> (\<exists>item \<in> set raw. \<exists>q. frompattern_Parse x item = Inr q \<and> Matches q a)"
    using NewSet_patterns(1) [OF ps(1)] fp.allowed_iff [of ps a] by auto
  have e: "ps = [] \<longleftrightarrow> raw = []"
    using NewSet_patterns(1) [OF ps(1)] NewSet_loop_ok [of x 0 "[]" raw] ps(1)
    by (cases raw; cases ps; auto simp: NewSet_def; fastforce)
  show ?thesis
    using m e by (auto simp: ps(2) Restricted_def Set_Len_def RecipientRules_Allows_def MatchedBy_def Allows_def)
qed

section \<open>Witnesses\<close>

definition demo_params :: NewCredentialParams where
  "demo_params = \<lparr>ncp_Name = ''blog'', ncp_Type = ''API_key '', ncp_SMTPUsername = [], ncp_Patterns = [''*@Example.com''],
     ncp_RecipientPatterns = [''*@*.example.org''], ncp_RateLimitRPS = None, ncp_RateLimitBurst = None, ncp_CreatedBy = [],
     ncp_Enabled = True\<rparr>"

lemma demo_create: "isl (fst (run_state (CreateCredential demo_store demo_params) demo_world)) = False"
  by code_simp

definition demo_cred :: Credential where
  "demo_cred = \<lparr>cred_ID = 11, cred_Name = ''blog'', cred_Type = ''api_key'', cred_Lookup = ''k_abcdefghijkl'',
     cred_SecretHmac = replicate 32 (CHR ''h''), cred_Enabled = True, cred_RateLimitRps = None, cred_RateLimitBurst = None,
     cred_CreatedBy = [], cred_CreatedAt = 900, cred_UpdatedAt = 900, cred_LastUsedAt = None, cred_RevokedAt = None\<rparr>"

definition cred_db :: db where
  "cred_db = empty_db\<lparr>db_credentials := [demo_cred],
     db_from_patterns := [\<lparr>fpat_ID = 12, fpat_CredentialID = 11, fpat_Pattern = ''*@example.com'', fpat_CreatedAt = 900\<rparr>],
     db_recipient_patterns := [\<lparr>rpat_ID = 13, rpat_CredentialID = 11, rpat_Pattern = ''*@*.example.org'', rpat_CreatedAt = 900\<rparr>]\<rparr>"

definition cred_world :: world where
  "cred_world = demo_world\<lparr>tables := cred_db\<rparr>"

lemma cred_db_inv: "db_inv (st_lower demo_store) cred_db"
  by code_simp

lemma cred_world_facts [simp]: "quiet cred_world" "peers cred_world = []" "tables cred_world = cred_db"
  by (simp_all add: cred_world_def demo_world_def quiet_def)

theorem create_credential_atomic_witness:
  "\<exists>cc w'. run_state (CreateCredential demo_store demo_params) demo_world = (Inr cc, w') \<and>
     credential_created empty_db (tables w') (cc_Credential cc) (cc_Patterns cc) (cc_RecipientPatterns cc) \<and> secret_opens demo_store cc"
proof -
  obtain cc where cc: "fst (run_state (CreateCredential demo_store demo_params) demo_world) = Inr cc" using not_isl [OF demo_create] by blast
  then obtain w' where r: "run_state (CreateCredential demo_store demo_params) demo_world = (Inr cc, w')" by (metis run_pair)
  from create_credential_atomic [OF _ _ r] r show ?thesis using empty_db_inv demo_store_lawful(1) by auto
qed

theorem created_credential_loads_witness:
  "\<exists>cc w' ac w''. run_state (CreateCredential demo_store demo_params) demo_world = (Inr cc, w') \<and>
     run_state (LoadCredentialByLookup demo_store (cred_Lookup (cc_Credential cc))) w' = (Inr ac, w'') \<and> Usable ac"
proof -
  obtain cc where cc: "fst (run_state (CreateCredential demo_store demo_params) demo_world) = Inr cc" using not_isl [OF demo_create] by blast
  then obtain w' where r: "run_state (CreateCredential demo_store demo_params) demo_world = (Inr cc, w')" by (metis run_pair)
  from created_credential_loads [OF _ _ _ r] r show ?thesis using empty_db_inv demo_lib_lawful by (auto simp: demo_params_def)
qed

definition demo_ops :: "cred_op list" where
  "demo_ops = [OpUpdate \<lparr>ucp_ID = 11, ucp_Name = ''blog'', ucp_Enabled = True, ucp_RateLimitRPS = None, ucp_RateLimitBurst = None\<rparr>,
     OpRotate 11, OpAddPatterns 11 [''ops@example.com'']]"

lemma demo_revoke_all:
  "(isl (fst (run_state (RevokeCredential demo_store 11) cred_world)) = False) \<and>
   (isl (fst (run_state (LoadCredential demo_store 11)
     (snd (run_state (run_cred_ops demo_store demo_ops) (snd (run_state (RevokeCredential demo_store 11) cred_world)))))) = False)"
  by code_simp

lemmas demo_revoke =
  demo_revoke_all [THEN conjunct1]
  demo_revoke_all [THEN conjunct2]

theorem revocation_is_final_witness:
  "\<exists>row w1 u w2 ac w3. run_state (RevokeCredential demo_store 11) cred_world = (Inr row, w1) \<and>
     run_state (run_cred_ops demo_store demo_ops) w1 = (u, w2) \<and> run_state (LoadCredential demo_store 11) w2 = (Inr ac, w3) \<and>
     \<not> Usable ac"
proof -
  obtain row w1 where 1: "run_state (RevokeCredential demo_store 11) cred_world = (Inr row, w1)"
    using not_isl [OF demo_revoke(1)] by (metis run_pair)
  obtain u w2 where 2: "run_state (run_cred_ops demo_store demo_ops) w1 = (u, w2)" by (metis run_pair)
  obtain ac w3 where 3: "run_state (LoadCredential demo_store 11) w2 = (Inr ac, w3)"
    using not_isl [OF demo_revoke(2)] 1 2 by (metis run_pair snd_conv)
  from revocation_is_final [OF _ _ 1 2 3] cred_db_inv have "\<not> Usable ac" by simp
  with 1 2 3 show ?thesis by blast
qed

lemma demo_rotate: "isl (fst (run_state (RotateCredentialSecret demo_store 11) cred_world)) = False"
  by code_simp

theorem rotation_keeps_identity_witness:
  "\<exists>cc w'. run_state (RotateCredentialSecret demo_store 11) cred_world = (Inr cc, w') \<and> secret_opens demo_store cc \<and>
     cc_RecipientPatterns cc = [] \<and> recipient_patterns cred_db 11 \<noteq> {}"
proof -
  obtain cc w' where r: "run_state (RotateCredentialSecret demo_store 11) cred_world = (Inr cc, w')"
    using not_isl [OF demo_rotate] by (metis run_pair)
  have "recipient_patterns cred_db 11 \<noteq> {}" by (simp add: recipient_patterns_def cred_db_def)
  with r rotation_keeps_identity [OF demo_store_lawful(1) _ _ r] cred_db_inv show ?thesis by (auto simp: rotated_def)
qed

theorem recipient_rules_open_by_default_witness:
  "RecipientRules_Allows \<lparr>rr_set = []\<rparr> bob_mail \<and> \<not> Allows [] bob_mail \<and>
     (\<exists>r. NewRecipientRules ascii_idna [''*@*.Example.com''] = Inr r \<and> Restricted r \<and> RecipientRules_Allows r bob_mail)"
proof -
  have "NewRecipientRules ascii_idna [] = Inr \<lparr>rr_set = []\<rparr>" by (simp add: NewRecipientRules_def NewSet_def)
  from recipient_rules_open_by_default [OF this, of bob_mail] have 1: "RecipientRules_Allows \<lparr>rr_set = []\<rparr> bob_mail \<and> \<not> Allows [] bob_mail" by simp
  have "NewRecipientRules ascii_idna [''*@*.Example.com''] = Inr \<lparr>rr_set = [wild_example]\<rparr>" by code_simp
  moreover have "frompattern_Parse ascii_idna ''*@*.Example.com'' = Inr wild_example" "Matches wild_example bob_mail" by code_simp+
  ultimately show ?thesis using 1 recipient_rules_open_by_default [of ascii_idna "[''*@*.Example.com'']" "\<lparr>rr_set = [wild_example]\<rparr>" bob_mail] by auto
qed

end
