(* ===== verification/Authn.thy ===== *)
theory Authn
  imports Store_Credential
begin

text \<open>
  Who submits: \<^verbatim>\<open>src/internal/authn/authn.go\<close>. The bearer token of a request, the two ways to present a credential, and the
  shared check. The log lines, which carry the reason of a refusal, are left out; what the caller sees is kept.

  Shown: who is let in, exactly; that a revoked credential is never let in again whatever is done to it; that a fresh secret
  works; and that an outage is never reported as a failed authentication.
\<close>

datatype authn_error = ErrUnauthenticated | LoadFailed store_error

definition bearer_prefix :: string where "bearer_prefix = ''bearer ''"

text \<open>
  \<^verbatim>\<open>strings.EqualFold\<close> against \<open>bearer_prefix\<close>: none of its letters has a fold outside ASCII.
\<close>

definition BearerToken :: "string \<Rightarrow> (authn_error, string) result" where
  "BearerToken header =
     (let v = trim_space header in
      if v = [] then Inl ErrUnauthenticated
      else if length v < length bearer_prefix \<or> map ascii_lower (take (length bearer_prefix) v) \<noteq> bearer_prefix
      then Inl ErrUnauthenticated
      else let token = trim_space (drop (length bearer_prefix) v) in
      if token = [] then Inl ErrUnauthenticated else Inr token)"

definition authn_verify :: "Store \<Rightarrow> string \<Rightarrow> string \<Rightarrow> string \<Rightarrow> (authn_error, AuthCredential) result prog" where
  "authn_verify s lookup secret wantType = do {
     r \<leftarrow> LoadCredentialByLookup s lookup;
     ret (case r of
        Inl e \<Rightarrow> if e = ErrNotFound then Inl ErrUnauthenticated else Inl (LoadFailed e)
      | Inr auth \<Rightarrow>
          if \<not> VerifySecret s secret auth then Inl ErrUnauthenticated
          else if cred_Type (ac_Credential auth) \<noteq> wantType then Inl ErrUnauthenticated
          else if cred_RevokedAt (ac_Credential auth) \<noteq> None then Inl ErrUnauthenticated
          else if \<not> cred_Enabled (ac_Credential auth) then Inl ErrUnauthenticated
          else Inr auth) }"

definition APIKey :: "Store \<Rightarrow> string \<Rightarrow> (authn_error, AuthCredential) result prog" where
  "APIKey s token =
     (case ParseAPIKey token of
        Inl e \<Rightarrow> ret (Inl ErrUnauthenticated)
      | Inr (lookup, secret) \<Rightarrow> authn_verify s lookup secret CredentialTypeAPIKey)"

definition SMTPUser :: "Store \<Rightarrow> string \<Rightarrow> string \<Rightarrow> (authn_error, AuthCredential) result prog" where
  "SMTPUser s username password =
     (case NormalizeSMTPUsername (st_idna s) username of
        Inl e \<Rightarrow> ret (Inl ErrUnauthenticated)
      | Inr lookup \<Rightarrow> authn_verify s lookup password CredentialTypeSMTPUser)"

section \<open>Who is let in\<close>

text \<open>A stored credential that answers to a lookup value and a secret, and may be used.\<close>

definition answers :: "Store \<Rightarrow> string \<Rightarrow> string \<Rightarrow> string \<Rightarrow> Credential \<Rightarrow> bool" where
  "answers s typ lookup secret c \<longleftrightarrow>
     cred_Lookup c = lookup \<and> cred_Type c = typ \<and> cred_Enabled c \<and> cred_RevokedAt c = None \<and>
     Verify (st_crypto s) (st_hasher s) secret (cred_SecretHmac c)"

definition lists_load :: "Store \<Rightarrow> db \<Rightarrow> bool" where
  "lists_load s d \<longleftrightarrow> (\<forall>c \<in> set (db_credentials d). \<forall>p \<in> sender_patterns d (cred_ID c) \<union> recipient_patterns d (cred_ID c).
     \<exists>q. frompattern_Parse (st_idna s) p = Inr q)"

lemma NewSet_total: "(\<And>p. p \<in> set raw \<Longrightarrow> \<exists>q. frompattern_Parse x p = Inr q) \<Longrightarrow> \<exists>ps. NewSet x raw = Inr ps"
  unfolding NewSet_def by (simp add: NewSet_loop_ok)

lemma LoadCredentialByLookup_Inr:
  assumes "run_state (LoadCredentialByLookup s l) w = (Inr ac, w')"
  shows "ac_Credential ac \<in> set (db_credentials (interfere w)) \<and> cred_Lookup (ac_Credential ac) = l"
proof -
  from assms obtain row w1 where q: "run_state (exec (\<lambda>now uid. Queries_GetCredentialByLookup l)) w = (Inr row, w1)"
    and k: "run_state (withPatterns s row) w1 = (Inr ac, w')"
    unfolding LoadCredentialByLookup_def by (rule orelse_Inr)
  have "ac_Credential ac = row" using k by (auto simp: withPatterns_def split: sum.splits elim!: orelse_Inr)
  with q show ?thesis
    by (auto simp: run_exec Queries_GetCredentialByLookup_def one_row_def split: net_event.splits option.splits dest!: find_SomeD)
qed

lemma authn_verify_Inr:
  assumes "run_state (authn_verify s lookup secret typ) w = (Inr ac, w')"
  shows "ac_Credential ac \<in> set (db_credentials (interfere w)) \<and> answers s typ lookup secret (ac_Credential ac)"
proof -
  obtain r w1 where l: "run_state (LoadCredentialByLookup s lookup) w = (r, w1)" by fastforce
  with assms obtain a where "r = Inr a" by (cases r) (auto simp: authn_verify_def split: if_splits)
  with l assms LoadCredentialByLookup_Inr [of s lookup w a w1] show ?thesis
    by (auto simp: authn_verify_def answers_def VerifySecret_def split: if_splits)
qed

lemma load_quiet:
  assumes "quiet w" "lists_load s (tables w)"
  shows "case find (\<lambda>c. cred_Lookup c = l) (db_credentials (tables w)) of
    None \<Rightarrow> \<exists>w'. run_state (LoadCredentialByLookup s l) w = (Inl ErrNotFound, w') \<and> tables w' = tables w
  | Some c \<Rightarrow> \<exists>ac w'. run_state (LoadCredentialByLookup s l) w = (Inr ac, w') \<and> ac_Credential ac = c \<and> tables w' = tables w"
proof (cases "find (\<lambda>c. cred_Lookup c = l) (db_credentials (tables w))")
  case None
  then show ?thesis
    using assms(1) by (auto simp: LoadCredentialByLookup_def orelse_run run_exec_quiet Queries_GetCredentialByLookup_def one_row_def store_wrap_def)
next
  case (Some c)
  have c: "c \<in> set (db_credentials (tables w))" using find_SomeD [OF Some] by simp
  let ?f = "sort_key fpat_Pattern (filter (\<lambda>p. fpat_CredentialID p = cred_ID c) (db_from_patterns (tables w)))"
  let ?r = "sort_key rpat_Pattern (filter (\<lambda>p. rpat_CredentialID p = cred_ID c) (db_recipient_patterns (tables w)))"
  have "set (map fpat_Pattern ?f) = sender_patterns (tables w) (cred_ID c)" "set (map rpat_Pattern ?r) = recipient_patterns (tables w) (cred_ID c)"
    by (simp_all add: sender_patterns_def recipient_patterns_def)
  then obtain ps rs where p: "NewSet (st_idna s) (map fpat_Pattern ?f) = Inr ps" "NewSet (st_idna s) (map rpat_Pattern ?r) = Inr rs"
    using NewSet_total [of "map fpat_Pattern ?f" "st_idna s"] NewSet_total [of "map rpat_Pattern ?r" "st_idna s"] assms(2) c
    unfolding lists_load_def by blast
  with Some show ?thesis
    using assms(1) by (auto simp: LoadCredentialByLookup_def withPatterns_def orelse_run run_exec_quiet Queries_GetCredentialByLookup_def
        one_row_def Queries_ListFromPatterns_def Queries_ListRecipientPatterns_def NewRecipientRules_def)
qed

definition let_in :: "Store \<Rightarrow> db \<Rightarrow> string \<Rightarrow> (string \<times> string) option \<Rightarrow> (authn_error, AuthCredential) result \<Rightarrow> bool" where
  "let_in s d typ claim r \<longleftrightarrow>
     (case r of
        Inl e \<Rightarrow> e = ErrUnauthenticated \<and> (\<forall>l sec. claim = Some (l, sec) \<longrightarrow> (\<forall>c \<in> set (db_credentials d). \<not> answers s typ l sec c))
      | Inr ac \<Rightarrow> ac_Credential ac \<in> set (db_credentials d) \<and> Usable ac \<and>
          (\<exists>l sec. claim = Some (l, sec) \<and> answers s typ l sec (ac_Credential ac)))"

lemma authn_verify_decides:
  assumes "quiet w" "db_inv (st_lower s) (tables w)" "lists_load s (tables w)"
    and "run_state (authn_verify s lookup secret typ) w = (r, w')"
  shows "let_in s (tables w) typ (Some (lookup, secret)) r \<and> tables w' = tables w"
proof (cases "find (\<lambda>c. cred_Lookup c = lookup) (db_credentials (tables w))")
  case None
  then have "\<forall>c \<in> set (db_credentials (tables w)). cred_Lookup c \<noteq> lookup" by (simp add: find_None_iff)
  with None load_quiet [OF assms(1,3), of lookup] assms(4) show ?thesis
    by (auto simp: authn_verify_def let_in_def answers_def)
next
  case (Some c)
  have c: "c \<in> set (db_credentials (tables w))" "cred_Lookup c = lookup" using find_SomeD [OF Some] by auto
  then have u: "d = c" if "d \<in> set (db_credentials (tables w))" "cred_Lookup d = lookup" for d
    using credential_lookup_unique [OF assms(2) that(1) c(1)] that by simp
  from load_quiet [OF assms(1,3), of lookup] Some obtain ac w1 where
    l: "run_state (LoadCredentialByLookup s lookup) w = (Inr ac, w1)" "ac_Credential ac = c" "tables w1 = tables w" by auto
  have t: "tables w' = tables w" using l assms(4) by (auto simp: authn_verify_def)
  show ?thesis
  proof (cases r)
    case (Inl e)
    then have "e = ErrUnauthenticated \<and> \<not> answers s typ lookup secret c"
      using l assms(4) c(2) by (auto simp: authn_verify_def answers_def VerifySecret_def split: if_splits)
    with u Inl t show ?thesis by (auto simp: let_in_def answers_def)
  next
    case (Inr a)
    then have "a = ac" "answers s typ lookup secret c"
      using l assms(4) c(2) by (auto simp: authn_verify_def answers_def VerifySecret_def split: if_splits)
    with Inr t l(2) c show ?thesis by (auto simp: let_in_def answers_def Usable_def)
  qed
qed

definition api_claim :: "string \<Rightarrow> (string \<times> string) option" where
  "api_claim token = (case ParseAPIKey token of Inl e \<Rightarrow> None | Inr c \<Rightarrow> Some c)"

definition smtp_claim :: "Store \<Rightarrow> string \<Rightarrow> string \<Rightarrow> (string \<times> string) option" where
  "smtp_claim s username password =
     (case NormalizeSMTPUsername (st_idna s) username of Inl e \<Rightarrow> None | Inr l \<Rightarrow> Some (l, password))"

text \<open>
  C6: Who is let in. With the database reachable and every stored pattern valid, a bearer token (or an SMTP username and password)
  is accepted exactly when a stored credential of that type, enabled and not revoked, has the lookup value presented and a
  fingerprint of the secret presented; the credential returned is that one, every refusal is the same error, and nothing is
  written.
\<close>

theorem authentication_decides:
  assumes "quiet w" "db_inv (st_lower s) (tables w)" "lists_load s (tables w)"
  shows "(case run_state (APIKey s token) w of (r, w') \<Rightarrow>
      let_in s (tables w) CredentialTypeAPIKey (api_claim token) r \<and> tables w' = tables w) \<and>
    (case run_state (SMTPUser s username password) w of (r, w') \<Rightarrow>
      let_in s (tables w) CredentialTypeSMTPUser (smtp_claim s username password) r \<and> tables w' = tables w)"
  by (auto simp: APIKey_def SMTPUser_def api_claim_def smtp_claim_def let_in_def [of _ _ _ None] split: prod.splits sum.splits
      dest: authn_verify_decides [OF assms])

section \<open>Fresh, revoked and unreachable credentials\<close>

definition presents :: "Store \<Rightarrow> CreatedCredential \<Rightarrow> (authn_error, AuthCredential) result prog" where
  "presents s cc =
     (if cred_Type (cc_Credential cc) = CredentialTypeAPIKey then APIKey s (Reveal (cc_Secret cc))
      else SMTPUser s (cred_Lookup (cc_Credential cc)) (Reveal (cc_Secret cc)))"

lemma presents_secret:
  assumes "secret_opens s cc" "run_state (LoadCredentialByLookup s (cred_Lookup (cc_Credential cc))) w = (Inr ac, w')"
    and "ac_Credential ac = cc_Credential cc" "cred_Type (cc_Credential cc) \<in> {CredentialTypeAPIKey, CredentialTypeSMTPUser}"
  shows "run_state (presents s cc) w = (if Usable ac then Inr ac else Inl ErrUnauthenticated, w')"
  using assms by (auto simp: presents_def APIKey_def SMTPUser_def secret_opens_def authn_verify_def VerifySecret_def Usable_def)

text \<open>
  The secret handed out at creation is the one that works. In a world without failures, presenting the plaintext of a
  credential just created (as a bearer token, or as the password of its username) authenticates as that credential when it was
  created enabled, and fails like any other attempt when it was created disabled.
\<close>

theorem fresh_secret_authenticates:
  assumes "externals_lawful (st_lib s)" "quiet w" "db_inv (st_lower s) (tables w)"
    and "run_state (CreateCredential s p) w = (Inr cc, w')"
  shows "\<exists>ac w''. run_state (presents s cc) w' = (if ncp_Enabled p then Inr ac else Inl ErrUnauthenticated, w'') \<and>
    ac_Credential ac = cc_Credential cc \<and>
    (\<forall>a. Allows (ac_Patterns ac) a \<longleftrightarrow>
       (\<exists>item \<in> set (ncp_Patterns p). \<exists>q. frompattern_Parse (st_idna s) item = Inr q \<and> Matches q a))"
proof -
  from created_loads [OF assms] obtain ac w'' where
    l: "run_state (LoadCredentialByLookup s (cred_Lookup (cc_Credential cc))) w' = (Inr ac, w'')" "ac_Credential ac = cc_Credential cc"
      "cred_Type (cc_Credential cc) \<in> {CredentialTypeAPIKey, CredentialTypeSMTPUser}" "Usable ac \<longleftrightarrow> ncp_Enabled p" "secret_opens s cc"
      "\<forall>a. Allows (ac_Patterns ac) a \<longleftrightarrow>
         (\<exists>item \<in> set (ncp_Patterns p). \<exists>q. frompattern_Parse (st_idna s) item = Inr q \<and> Matches q a)"
    by blast
  from presents_secret [OF l(5,1,2,3)] l(2,4,6) show ?thesis by auto
qed

lemma authenticated_stored:
  assumes "run_state (APIKey s token) w = (Inr ac, w') \<or> run_state (SMTPUser s username password) w = (Inr ac, w')"
  shows "ac_Credential ac \<in> set (db_credentials (interfere w)) \<and> cred_RevokedAt (ac_Credential ac) = None"
  using assms
  by (auto simp: APIKey_def SMTPUser_def answers_def split: sum.splits prod.splits dest: authn_verify_Inr)

text \<open>
  C12: A revoked credential is locked out at once and for good. After a successful revocation, whatever creations, edits, rotations and
  pattern changes follow, on a failing network and next to other sessions that keep the constraints and the revocations, neither a
  token nor a username and password authenticates as the revoked credential.
\<close>

theorem revoked_is_locked_out:
  assumes "db_inv (st_lower s) (tables w)"
    and "\<forall>p \<in> set (peers w). \<forall>d. audited (st_lower s) d (p d) \<and> revocations_kept d (p d)"
    and "run_state (RevokeCredential s i) w = (Inr row, w1)" "run_state (run_cred_ops s ops) w1 = (u, w2)"
    and "run_state (APIKey s token) w2 = (Inr ac, w3) \<or> run_state (SMTPUser s username password) w2 = (Inr ac, w3)"
  shows "cred_ID (ac_Credential ac) \<noteq> i"
  using revoked_stays [OF assms(1-4)] authenticated_stored [OF assms(5)] by metis

text \<open>
  An outage is not a wrong password. When the first statement of an authentication is lost, a well-formed claim fails with the
  database's error and not with the error a client is answered 401 for.
\<close>

theorem outage_is_not_refusal:
  assumes "net_event w \<noteq> Answered"
  shows "(api_claim token \<noteq> None \<longrightarrow> fst (run_state (APIKey s token) w) = Inl (LoadFailed (classify connection_error))) \<and>
    (smtp_claim s username password \<noteq> None \<longrightarrow>
       fst (run_state (SMTPUser s username password) w) = Inl (LoadFailed (classify connection_error)))"
proof -
  have "fst (run_state (authn_verify s l sec ty) w) = Inl (LoadFailed (classify connection_error))" for l sec ty
    using assms by (cases "net_event w")
      (auto simp: authn_verify_def LoadCredentialByLookup_def orelse_run run_exec store_wrap_def connection_error_def split: prod.splits)
  then show ?thesis by (auto simp: APIKey_def SMTPUser_def api_claim_def smtp_claim_def split: sum.splits)
qed

section \<open>Witnesses\<close>

text \<open>The stored credential with the fingerprint of a known secret.\<close>

definition known_cred :: Credential where
  "known_cred = demo_cred\<lparr>cred_SecretHmac := Fingerprint (st_crypto demo_store) (st_hasher demo_store) ''s3cret''\<rparr>"

definition known_world :: world where
  "known_world = demo_world\<lparr>tables := cred_db\<lparr>db_credentials := [known_cred]\<rparr>\<rparr>"

definition known_token :: string where
  "known_token = APIKeyPrefix @ ''abcdefghijkl_s3cret''"

lemma known_facts: "quiet known_world" "db_inv (st_lower demo_store) (tables known_world)" "lists_load demo_store (tables known_world)"
proof -
  show "quiet known_world" by (simp add: known_world_def demo_world_def quiet_def)
  show "db_inv (st_lower demo_store) (tables known_world)" by code_simp
  have "isl (frompattern_Parse ascii_idna ''*@example.com'') = False \<and> isl (frompattern_Parse ascii_idna ''*@*.example.org'') = False"
    by code_simp
  from not_isl [OF conjunct1 [OF this]] not_isl [OF conjunct2 [OF this]] show "lists_load demo_store (tables known_world)"
    by (auto simp: lists_load_def known_world_def known_cred_def demo_cred_def cred_db_def sender_patterns_def recipient_patterns_def
        demo_lib_def)
qed


theorem authentication_decides_witness:
  "\<exists>ac. fst (run_state (APIKey demo_store known_token) known_world) = Inr ac \<and> ac_Credential ac = known_cred \<and> Usable ac"
proof -
  have a: "answers demo_store CredentialTypeAPIKey ''k_abcdefghijkl'' ''s3cret'' known_cred" by code_simp
  have c: "api_claim known_token = Some (''k_abcdefghijkl'', ''s3cret'')" by code_simp
  obtain r w' where r: "run_state (APIKey demo_store known_token) known_world = (r, w')" by fastforce
  from authentication_decides [OF known_facts, of known_token] r
  have "let_in demo_store (tables known_world) CredentialTypeAPIKey (api_claim known_token) r" by simp
  moreover have "db_credentials (tables known_world) = [known_cred]" by (simp add: known_world_def)
  ultimately show ?thesis using r a c by (cases r) (auto simp: let_in_def)
qed

theorem fresh_secret_authenticates_witness:
  "\<exists>cc w' ac w''. run_state (CreateCredential demo_store demo_params) demo_world = (Inr cc, w') \<and>
     run_state (presents demo_store cc) w' = (Inr ac, w'') \<and> ac_Credential ac = cc_Credential cc"
proof -
  obtain cc w' where r: "run_state (CreateCredential demo_store demo_params) demo_world = (Inr cc, w')"
    using not_isl [OF demo_create] by (metis run_pair)
  from fresh_secret_authenticates [OF _ _ _ r] r show ?thesis using empty_db_inv demo_lib_lawful by (auto simp: demo_params_def)
qed

definition two_creds_world :: world where
  "two_creds_world = known_world\<lparr>tables := cred_db\<lparr>db_credentials :=
     [known_cred, demo_cred\<lparr>cred_ID := 31, cred_Name := ''other'', cred_Lookup := ''k_mnopqrstuvwx''\<rparr>]\<rparr>\<rparr>"

lemma other_revoked_all:
  "(isl (fst (run_state (RevokeCredential demo_store 31) two_creds_world)) = False) \<and>
   (isl (fst (run_state (APIKey demo_store known_token)
     (snd (run_state (run_cred_ops demo_store [OpTouch 31]) (snd (run_state (RevokeCredential demo_store 31) two_creds_world)))))) = False) \<and>
   (db_inv (st_lower demo_store) (tables two_creds_world))"
  by code_simp

lemmas other_revoked =
  other_revoked_all [THEN conjunct1]
  other_revoked_all [THEN conjunct2, THEN conjunct1]
  other_revoked_all [THEN conjunct2, THEN conjunct2]

theorem revoked_is_locked_out_witness:
  "\<exists>row w1 u w2 ac w3. run_state (RevokeCredential demo_store 31) two_creds_world = (Inr row, w1) \<and>
     run_state (run_cred_ops demo_store [OpTouch 31]) w1 = (u, w2) \<and> run_state (APIKey demo_store known_token) w2 = (Inr ac, w3) \<and>
     cred_ID (ac_Credential ac) \<noteq> 31"
proof -
  obtain row w1 where 1: "run_state (RevokeCredential demo_store 31) two_creds_world = (Inr row, w1)"
    using not_isl [OF other_revoked(1)] by (metis run_pair)
  obtain u w2 where 2: "run_state (run_cred_ops demo_store [OpTouch 31]) w1 = (u, w2)" by (metis run_pair)
  obtain ac w3 where 3: "run_state (APIKey demo_store known_token) w2 = (Inr ac, w3)"
    using not_isl [OF other_revoked(2)] 1 2 by (metis run_pair snd_conv)
  have "peers two_creds_world = []" by (simp add: two_creds_world_def known_world_def demo_world_def)
  then have "cred_ID (ac_Credential ac) \<noteq> 31"
    using 3 by (intro revoked_is_locked_out [OF other_revoked(3) _ 1 2]) auto
  with 1 2 3 show ?thesis by blast
qed

theorem outage_is_not_refusal_witness:
  "fst (run_state (APIKey demo_store known_token) (known_world\<lparr>net := [RequestLost]\<rparr>)) = Inl (LoadFailed (classify connection_error))"
proof -
  have "api_claim known_token \<noteq> None" by code_simp
  with outage_is_not_refusal [of "known_world\<lparr>net := [RequestLost]\<rparr>" known_token demo_store] show ?thesis by (simp add: net_event_def)
qed

end
