(* ===== verification/Store_Routing.thy ===== *)
theory Store_Routing
  imports Store_Core
begin

text \<open>
  Backends and sending domains: \<^verbatim>\<open>src/internal/store/backend.go\<close>, \<^verbatim>\<open>domain.go\<close> and their edits in \<^verbatim>\<open>admin.go\<close>.

  Every operation is audited. Shown besides: the route of a sender is the most specific enabled domain that covers it, a route never
  authenticates over a plaintext connection, a stored backend password opens to what was given, and re-wrapping after a key
  rotation leaves every password the same and none under an old key.
\<close>

section \<open>Backends\<close>

record NewBackendParams =
  nbp_Name :: string
  nbp_Host :: string
  nbp_Port :: int
  nbp_TLSMode :: string
  nbp_AuthUser :: string
  nbp_AuthPassword :: Secret
  nbp_HeloName :: string
  nbp_MaxConcurrency :: int
  nbp_Enabled :: bool

definition validTLSModes :: "string list" where
  "validTLSModes = [TLSModeSTARTTLS, TLSModeImplicit, TLSModeNone]"

definition NewBackendParams_normalize :: "Store \<Rightarrow> NewBackendParams \<Rightarrow> (store_error, NewBackendParams) result" where
  "NewBackendParams_normalize s p0 =
     (let p = p0\<lparr>nbp_Name := trim_space (nbp_Name p0), nbp_Host := trim_space (nbp_Host p0),
                 nbp_TLSMode := go_lower s (trim_space (nbp_TLSMode p0)), nbp_AuthUser := trim_space (nbp_AuthUser p0),
                 nbp_HeloName := trim_space (nbp_HeloName p0),
                 nbp_MaxConcurrency := (if nbp_MaxConcurrency p0 = 0 then 2 else nbp_MaxConcurrency p0)\<rparr> in
      if nbp_Name p = [] then Inl (invalid ''backend name is required'')
      else if nbp_Host p = [] then Inl (invalid ''backend host is required'')
      else if nbp_Port p < 1 \<or> nbp_Port p > 65535 then Inl (invalid ''backend port is out of range'')
      else if nbp_TLSMode p \<notin> set validTLSModes then Inl (invalid ''backend tls mode'')
      else if nbp_MaxConcurrency p < 1 \<or> nbp_MaxConcurrency p > 64 then Inl (invalid ''backend max concurrency'')
      else if nbp_AuthUser p \<noteq> [] \<and> Secret_IsEmpty (nbp_AuthPassword p) then Inl (invalid ''backend auth user was given without a password'')
      else if nbp_AuthUser p = [] \<and> \<not> Secret_IsEmpty (nbp_AuthPassword p) then Inl (invalid ''backend auth password was given without a user'')
      else if nbp_TLSMode p = TLSModeNone \<and> nbp_AuthUser p \<noteq> [] then Inl (invalid ''refusing SMTP AUTH over a plaintext backend connection'')
      else Inr p)"

definition sealBackendPassword :: "Store \<Rightarrow> Secret \<Rightarrow> (store_error, string) result prog" where
  "sealBackendPassword s password =
     (if Secret_IsEmpty password then ret (Inr [])
      else do { nonce \<leftarrow> rand_Read (NonceSize (st_crypto s));
                ret (map_err ErrEnvelope (keyring_Seal (st_crypto s) (st_keyring s) nonce (Reveal password))) })"

definition OpenBackendPassword :: "Store \<Rightarrow> string \<Rightarrow> (envelope_error, Secret) result" where
  "OpenBackendPassword s sealed =
     (if sealed = [] then Inr (Secret [])
      else (case keyring_Open (st_crypto s) (st_keyring s) sealed of Inl e \<Rightarrow> Inl e | Inr plaintext \<Rightarrow> Inr (Secret plaintext)))"

definition CreateBackend :: "Store \<Rightarrow> NewBackendParams \<Rightarrow> (store_error, SmtpBackend) result prog" where
  "CreateBackend s p0 =
     (case NewBackendParams_normalize s p0 of
        Inl e \<Rightarrow> ret (Inl e)
      | Inr p \<Rightarrow>
          orelse (sealBackendPassword s (nbp_AuthPassword p)) (\<lambda>e. e)
            (\<lambda>sealed. orelse (exec (Queries_CreateSMTPBackend (st_lower s)
                 \<lparr>csb_Name = nbp_Name p, csb_Host = nbp_Host p, csb_Port = nbp_Port p, csb_TlsMode = nbp_TLSMode p,
                  csb_AuthUser = nbp_AuthUser p, csb_AuthPasswordSealed = sealed, csb_HeloName = nbp_HeloName p,
                  csb_MaxConcurrency = nbp_MaxConcurrency p, csb_Enabled = nbp_Enabled p\<rparr>)) store_wrap
               (\<lambda>row. ret (Inr row))))"

definition GetBackend :: "uuid \<Rightarrow> (store_error, SmtpBackend) result prog" where
  "GetBackend i = orelse (exec (\<lambda>now uid. Queries_GetSMTPBackend i)) store_wrap (\<lambda>row. ret (Inr row))"

definition GetBackendByName :: "Store \<Rightarrow> string \<Rightarrow> (store_error, SmtpBackend) result prog" where
  "GetBackendByName s name =
     orelse (exec (\<lambda>now uid. Queries_GetSMTPBackendByName (st_lower s) (trim_space name))) store_wrap (\<lambda>row. ret (Inr row))"

definition ListBackends :: "(store_error, SmtpBackend list) result prog" where
  "ListBackends = orelse (exec (\<lambda>now uid. Queries_ListSMTPBackends)) store_wrap (\<lambda>rows. ret (Inr rows))"

definition DeleteBackend :: "uuid \<Rightarrow> (store_error, unit) result prog" where
  "DeleteBackend i =
     orelse (exec (\<lambda>now uid. Queries_DeleteSMTPBackend i now)) store_wrap
       (\<lambda>n. ret (if n = 0 then Inl ErrNotFound else Inr ()))"

text \<open>The loop over the rows; the number re-sealed so far comes with an error too.\<close>

fun rewrap_loop :: "Store \<Rightarrow> (uuid \<times> string \<times> string) list \<Rightarrow> int \<Rightarrow> (store_error option \<times> int) prog" where
  "rewrap_loop s [] rewrapped = ret (None, rewrapped)"
| "rewrap_loop s ((i, name, sealed0) # rows) rewrapped =
     (if \<not> NeedsRewrap (st_keyring s) sealed0 then rewrap_loop s rows rewrapped
      else case keyring_Open (st_crypto s) (st_keyring s) sealed0 of
        Inl e \<Rightarrow> ret (Some (ErrEnvelope e), rewrapped)
      | Inr plaintext \<Rightarrow>
          do { nonce \<leftarrow> rand_Read (NonceSize (st_crypto s));
               case keyring_Seal (st_crypto s) (st_keyring s) nonce plaintext of
                 Inl e \<Rightarrow> ret (Some (ErrEnvelope e), rewrapped)
               | Inr sealed \<Rightarrow>
                   do { r \<leftarrow> exec (\<lambda>now uid. Queries_UpdateSMTPBackendSealedPassword (st_lower s) i sealed now);
                        case r of Inl e \<Rightarrow> ret (Some (store_wrap e), rewrapped)
                                | Inr _ \<Rightarrow> rewrap_loop s rows (rewrapped + 1) } })"

definition RewrapBackendPasswords :: "Store \<Rightarrow> (store_error option \<times> int) prog" where
  "RewrapBackendPasswords s =
     do { r \<leftarrow> exec (\<lambda>now uid. Queries_ListSMTPBackendsNeedingRewrap);
          case r of Inl e \<Rightarrow> ret (Some (store_wrap e), 0) | Inr rows \<Rightarrow> rewrap_loop s rows 0 }"

record UpdateBackendParams =
  ubp_ID :: uuid
  ubp_Name :: string
  ubp_Host :: string
  ubp_Port :: int
  ubp_TLSMode :: string
  ubp_AuthUser :: string
  ubp_RotatePassword :: bool
  ubp_AuthPassword :: Secret
  ubp_HeloName :: string
  ubp_MaxConcurrency :: int
  ubp_Enabled :: bool

text \<open>The part after validation: seal a new password if there is one to write, then the update.\<close>

definition update_backend_row :: "Store \<Rightarrow> UpdateBackendParams \<Rightarrow> NewBackendParams \<Rightarrow> (store_error, SmtpBackend) result prog" where
  "update_backend_row s p check =
     orelse (if ubp_RotatePassword p then sealBackendPassword s (ubp_AuthPassword p) else ret (Inr [])) (\<lambda>e. e)
       (\<lambda>sealed. orelse (exec (\<lambda>now uid. Queries_UpdateSMTPBackend (st_lower s)
            \<lparr>usb_ID = ubp_ID p, usb_Name = nbp_Name check, usb_Host = nbp_Host check, usb_Port = nbp_Port check,
             usb_TlsMode = nbp_TLSMode check, usb_AuthUser = nbp_AuthUser check, usb_RotatePassword = ubp_RotatePassword p,
             usb_AuthPasswordSealed = sealed, usb_HeloName = nbp_HeloName check, usb_MaxConcurrency = nbp_MaxConcurrency check,
             usb_Enabled = ubp_Enabled p\<rparr> now)) store_wrap
          (\<lambda>row. ret (Inr row)))"

definition UpdateBackend :: "Store \<Rightarrow> UpdateBackendParams \<Rightarrow> (store_error, SmtpBackend) result prog" where
  "UpdateBackend s p =
     (let check = \<lparr>nbp_Name = ubp_Name p, nbp_Host = ubp_Host p, nbp_Port = ubp_Port p, nbp_TLSMode = ubp_TLSMode p,
                   nbp_AuthUser = ubp_AuthUser p, nbp_AuthPassword = ubp_AuthPassword p, nbp_HeloName = ubp_HeloName p,
                   nbp_MaxConcurrency = ubp_MaxConcurrency p, nbp_Enabled = ubp_Enabled p\<rparr> in
      orelse (if ubp_RotatePassword p then ret (Inr check)
              else orelse (GetBackend (ubp_ID p)) (\<lambda>e. e)
                     (\<lambda>existing. ret (Inr (if be_AuthPasswordSealed existing \<noteq> [] then check\<lparr>nbp_AuthPassword := Secret ''kept''\<rparr>
                                           else check)))) (\<lambda>e. e)
        (\<lambda>check. case NewBackendParams_normalize s check of
           Inl e \<Rightarrow> ret (Inl e)
         | Inr check \<Rightarrow> update_backend_row s p check))"

section \<open>Domains\<close>

record NewDomainParams =
  ndp_Name :: string
  ndp_BackendID :: uuid
  ndp_IncludeSubdomains :: bool
  ndp_Enabled :: bool

definition CreateDomain :: "Store \<Rightarrow> NewDomainParams \<Rightarrow> (store_error, Domain) result prog" where
  "CreateDomain s p =
     (case NormalizeDomain (st_idna s) (ndp_Name p) of
        Inl e \<Rightarrow> ret (Inl (ErrAddress e))
      | Inr name \<Rightarrow>
          if ndp_BackendID p = uuid_Nil then ret (Inl (invalid ''a backend is required''))
          else orelse (exec (Queries_CreateDomain (st_lower s) name (ndp_BackendID p) (ndp_IncludeSubdomains p) (ndp_Enabled p)))
                 store_wrap (\<lambda>row. ret (Inr row)))"

definition GetDomainByID :: "uuid \<Rightarrow> (store_error, Domain) result prog" where
  "GetDomainByID i = orelse (exec (\<lambda>now uid. Queries_GetDomain i)) store_wrap (\<lambda>row. ret (Inr row))"

definition GetDomainByName :: "Store \<Rightarrow> string \<Rightarrow> (store_error, Domain) result prog" where
  "GetDomainByName s name =
     (case NormalizeDomain (st_idna s) name of
        Inl e \<Rightarrow> ret (Inl (ErrAddress e))
      | Inr n \<Rightarrow> orelse (exec (\<lambda>now uid. Queries_GetDomainByName n)) store_wrap (\<lambda>row. ret (Inr row)))"

definition ListDomains :: "(store_error, (Domain \<times> string \<times> bool) list) result prog" where
  "ListDomains = orelse (exec (\<lambda>now uid. Queries_ListDomains)) store_wrap (\<lambda>rows. ret (Inr rows))"

definition DeleteDomain :: "uuid \<Rightarrow> (store_error, unit) result prog" where
  "DeleteDomain i =
     orelse (exec (\<lambda>now uid. Queries_DeleteDomain i)) store_wrap (\<lambda>n. ret (if n = 0 then Inl ErrNotFound else Inr ()))"

definition UpdateDomain :: "Store \<Rightarrow> uuid \<Rightarrow> NewDomainParams \<Rightarrow> (store_error, Domain) result prog" where
  "UpdateDomain s i p =
     (case NormalizeDomain (st_idna s) (ndp_Name p) of
        Inl e \<Rightarrow> ret (Inl (ErrAddress e))
      | Inr name \<Rightarrow>
          if ndp_BackendID p = uuid_Nil then ret (Inl (invalid ''a backend is required''))
          else orelse (exec (\<lambda>now uid. Queries_UpdateDomain (st_lower s) i name (ndp_BackendID p) (ndp_IncludeSubdomains p) (ndp_Enabled p) now))
                 store_wrap (\<lambda>row. ret (Inr row)))"

section \<open>Routes\<close>

record SenderRoute =
  sr_DomainID :: uuid
  sr_DomainName :: string
  sr_BackendID :: uuid
  sr_BackendName :: string
  sr_Host :: string
  sr_Port :: int
  sr_TLSMode :: string
  sr_AuthUser :: string
  sr_AuthPassword :: Secret
  sr_HeloName :: string
  sr_MaxConcurrency :: int

definition UsesAuth :: "SenderRoute \<Rightarrow> bool" where
  "UsesAuth r \<longleftrightarrow> sr_AuthUser r \<noteq> [] \<and> \<not> Secret_IsEmpty (sr_AuthPassword r)"

text \<open>The fields of a route that come from the backend row.\<close>

definition route_of :: "uuid \<Rightarrow> string \<Rightarrow> SmtpBackend \<Rightarrow> Secret \<Rightarrow> SenderRoute" where
  "route_of domainID domainName b password =
     \<lparr>sr_DomainID = domainID, sr_DomainName = domainName, sr_BackendID = be_ID b, sr_BackendName = be_Name b,
      sr_Host = be_Host b, sr_Port = be_Port b, sr_TLSMode = be_TlsMode b, sr_AuthUser = be_AuthUser b,
      sr_AuthPassword = password, sr_HeloName = be_HeloName b, sr_MaxConcurrency = be_MaxConcurrency b\<rparr>"

definition ResolveSender :: "Store \<Rightarrow> string \<Rightarrow> (store_error, SenderRoute) result prog" where
  "ResolveSender s senderDomain =
     (case NormalizeDomain (st_idna s) senderDomain of
        Inl e \<Rightarrow> ret (Inl (ErrAddress e))
      | Inr n \<Rightarrow>
          orelse (exec (\<lambda>now uid. Queries_ResolveSenderDomain n)) store_wrap
            (\<lambda>(r, b). case OpenBackendPassword s (be_AuthPasswordSealed b) of
               Inl e \<Rightarrow> ret (Inl (ErrValidation (InvalidEnvelope e)))
             | Inr password \<Rightarrow> ret (Inr (route_of (dom_ID r) (dom_Name r) b password))))"

section \<open>Every operation is audited\<close>

lemma sealBackendPassword_obeys: "au.obeys lower (sealBackendPassword s p)"
  unfolding sealBackendPassword_def by (auto intro!: au.obeys_rules)

lemma rewrap_loop_obeys: "au.obeys (st_lower s) (rewrap_loop s rows n)"
  by (induction s rows n rule: rewrap_loop.induct) (auto intro!: au.obeys_rules audits split: sum.splits)

lemma routing_ops_obey:
  "au.obeys (st_lower s) (CreateBackend s nb)" "au.obeys (st_lower s) (UpdateBackend s ub)" "au.obeys (st_lower s) (DeleteBackend i)"
  "au.obeys (st_lower s) (RewrapBackendPasswords s)" "au.obeys (st_lower s) (CreateDomain s nd)"
  "au.obeys (st_lower s) (UpdateDomain s i nd)" "au.obeys (st_lower s) (DeleteDomain i)"
  unfolding CreateBackend_def UpdateBackend_def update_backend_row_def DeleteBackend_def RewrapBackendPasswords_def CreateDomain_def
    UpdateDomain_def DeleteDomain_def GetBackend_def Let_def
  by (auto intro!: au.obeys_rules audits sealBackendPassword_obeys rewrap_loop_obeys split: sum.splits)

lemma ResolveSender_obeys: "au.obeys lower (ResolveSender s d)"
  unfolding ResolveSender_def by (auto intro!: au.obeys_rules split: sum.splits)

section \<open>Routes\<close>

lemma find_head: "List.find (\<lambda>_. True) xs = (case xs of [] \<Rightarrow> None | x # _ \<Rightarrow> Some x)"
  by (cases xs) auto

lemma joined_domains_iff:
  "(r, b) \<in> set (joined_domains d) \<longleftrightarrow> r \<in> set (db_domains d) \<and> backend_of d r = Some b"
  by (force simp: joined_domains_def List.map_filter_def)

definition candidate :: "db \<Rightarrow> string \<Rightarrow> Domain \<Rightarrow> SmtpBackend \<Rightarrow> bool" where
  "candidate d sender r b \<longleftrightarrow> r \<in> set (db_domains d) \<and> b \<in> set (db_backends d) \<and> be_ID b = dom_SmtpBackendID r \<and>
     dom_Enabled r \<and> be_Enabled b \<and> covers sender r"

lemma backend_unique:
  assumes "db_inv lower d" "b \<in> set (db_backends d)" "b' \<in> set (db_backends d)" "be_ID b = be_ID b'"
  shows "b = b'"
proof -
  have "distinct (map be_ID (db_backends d))"
    using assms(1) by (simp add: db_inv_def table_ok_iff backend_schema_def distinct_sorted_wrt)
  with assms(2-4) show ?thesis by (auto simp: distinct_map inj_on_def)
qed

lemma candidate_iff:
  assumes "db_inv lower d"
  shows "candidate d sender r b \<longleftrightarrow> (r, b) \<in> set (joined_domains d) \<and> dom_Enabled r \<and> be_Enabled b \<and> covers sender r"
proof -
  have "backend_of d r = Some b \<longleftrightarrow> b \<in> set (db_backends d) \<and> be_ID b = dom_SmtpBackendID r"
    unfolding backend_of_def
    using find_unique [of b "db_backends d" "\<lambda>b. be_ID b = dom_SmtpBackendID r"] backend_unique [OF assms]
    by (auto dest!: find_SomeD)
  then show ?thesis by (auto simp: candidate_def joined_domains_iff)
qed

lemma covers_same_length:
  assumes "covers n r" "covers n r'" "length (dom_Name r) = length (dom_Name r')"
  shows "dom_Name r = dom_Name r'"
proof -
  have "\<exists>p. n = p @ dom_Name x" if "covers n x" for x
    using that by (auto simp: covers_def has_suffix_iff)
  then obtain p p' where "n = p @ dom_Name r" "n = p' @ dom_Name r'" using assms by blast
  with assms(3) show ?thesis by (metis append_eq_append_conv)
qed

lemma domain_name_unique:
  assumes "db_inv lower d" "r \<in> set (db_domains d)" "r' \<in> set (db_domains d)" "dom_Name r = dom_Name r'"
  shows "r = r'"
proof -
  have "distinct (map dom_Name (db_domains d))"
    using assms(1) by (simp add: db_inv_def table_ok_iff domain_schema_def distinct_sorted_wrt)
  with assms(2-4) show ?thesis by (auto simp: distinct_map inj_on_def)
qed

lemma ResolveSenderDomain_spec:
  assumes "db_inv lower d"
  shows "case fst (Queries_ResolveSenderDomain n d) of
      Inr (r, b) \<Rightarrow> candidate d n r b \<and> (\<forall>r' b'. candidate d n r' b' \<longrightarrow> r' = r \<or> length (dom_Name r') < length (dom_Name r))
    | Inl e \<Rightarrow> e = NoRows \<and> (\<forall>r b. \<not> candidate d n r b)"
proof -
  let ?c = "filter (\<lambda>(r, b). dom_Enabled r \<and> be_Enabled b \<and> covers n r) (joined_domains d)"
  let ?s = "sort_key (\<lambda>(r, b). - int (length (dom_Name r))) ?c"
  have c: "(r, b) \<in> set ?s \<longleftrightarrow> candidate d n r b" for r b using candidate_iff [OF assms] by auto
  show ?thesis
  proof (cases ?s)
    case Nil
    then have "\<not> candidate d n r b" for r b using c [of r b] by simp
    with Nil show ?thesis by (simp add: Queries_ResolveSenderDomain_def one_row_def find_head)
  next
    case (Cons rb xs)
    obtain r b where rb: "rb = (r, b)" by fastforce
    have "sorted (map (\<lambda>(r, b). - int (length (dom_Name r))) ?s)" by simp
    then have le: "length (dom_Name r') \<le> length (dom_Name r)" if "candidate d n r' b'" for r' b'
      using that c [of r' b'] unfolding Cons rb by auto
    have cand: "candidate d n r b" using c [of r b] Cons rb by simp
    have "r' = r \<or> length (dom_Name r') < length (dom_Name r)" if "candidate d n r' b'" for r' b'
      using le [OF that] that cand covers_same_length [of n r' r] domain_name_unique [OF assms, of r' r]
      by (auto simp: candidate_def)
    with cand Cons rb show ?thesis by (auto simp: Queries_ResolveSenderDomain_def one_row_def find_head)
  qed
qed

lemma run_ResolveSender_quiet:
  assumes "quiet w" "NormalizeDomain (st_idna s) sd = Inr n"
  shows "run_state (ResolveSender s sd) w =
    ((case fst (Queries_ResolveSenderDomain n (tables w)) of
        Inl e \<Rightarrow> Inl (store_wrap e)
      | Inr (r, b) \<Rightarrow> (case OpenBackendPassword s (be_AuthPasswordSealed b) of
            Inl e \<Rightarrow> Inl (ErrValidation (InvalidEnvelope e))
          | Inr pw \<Rightarrow> Inr (route_of (dom_ID r) (dom_Name r) b pw))), w\<lparr>ids := tl (ids w)\<rparr>)"
proof -
  have "Queries_ResolveSenderDomain n (tables w) = (fst (Queries_ResolveSenderDomain n (tables w)), tables w)"
    by (metis prod.collapse reads(9))
  with assms show ?thesis
    by (cases "fst (Queries_ResolveSenderDomain n (tables w))")
      (auto simp: ResolveSender_def orelse_run run_exec_quiet split: prod.splits sum.splits)
qed

section \<open>Sealed passwords\<close>

lemma keyring_Seal_ne:
  "keyring_Seal c k n p = Inr env \<Longrightarrow> env \<noteq> []"
  by (auto simp: keyring_Seal_def sealedVersion_def Let_def split: option.splits)

lemma sealBackendPassword_Inr:
  assumes "run_state (sealBackendPassword s pw) w = (Inr sealed, w')" "crypto_lawful (st_crypto s)" "keyring_ok (st_keyring s)"
  shows "OpenBackendPassword s sealed = Inr pw" "sealed = [] \<longleftrightarrow> Secret_IsEmpty pw"
proof -
  have "OpenBackendPassword s sealed = Inr pw \<and> (sealed = [] \<longleftrightarrow> Secret_IsEmpty pw)"
  proof (cases "Secret_IsEmpty pw")
    case True
    with assms(1) show ?thesis by (simp add: sealBackendPassword_def OpenBackendPassword_def Secret_IsEmpty_def)
  next
    case False
    obtain r w1 where n: "run_state (rand_Read (NonceSize (st_crypto s))) w = (r, w1)" by fastforce
    have k: "keyring_Seal (st_crypto s) (st_keyring s) r (Reveal pw) = Inr sealed"
      using assms(1) False n by (auto simp: sealBackendPassword_def map_err_def split: sum.splits)
    then obtain b where b: "r = Some b" by (auto simp: keyring_Seal_def split: option.splits)
    have "keyring_Open (st_crypto s) (st_keyring s) sealed = Inr (Reveal pw)"
      using rand_Read_Some [OF n [unfolded b]] assms(2,3) k b by (intro keyring_Open_Seal) auto
    with keyring_Seal_ne [OF k] False show ?thesis by (cases pw) (simp add: OpenBackendPassword_def)
  qed
  then show "OpenBackendPassword s sealed = Inr pw" "sealed = [] \<longleftrightarrow> Secret_IsEmpty pw" by auto
qed

lemma CreateSMTPBackend_Inr:
  assumes "Queries_CreateSMTPBackend lower arg now uid d = (Inr row, d')"
  shows "row \<in> set (db_backends d')" "be_AuthUser row = csb_AuthUser arg" "be_TlsMode row = csb_TlsMode arg"
    "be_AuthPasswordSealed row = csb_AuthPasswordSealed arg"
proof -
  from assms obtain t where t: "insert_row (backend_schema lower) row (db_backends d) = Inr t" "d' = d\<lparr>db_backends := t\<rparr>"
    by (auto simp: Queries_CreateSMTPBackend_def wrote_def Let_def split: sum.splits)
  show "row \<in> set (db_backends d')" using insert_row_Inr(1) [OF t(1)] t(2) by simp
  show "be_AuthUser row = csb_AuthUser arg" "be_TlsMode row = csb_TlsMode arg" "be_AuthPasswordSealed row = csb_AuthPasswordSealed arg"
    using assms by (auto simp: Queries_CreateSMTPBackend_def wrote_def Let_def split: sum.splits)
qed

lemma seal_update_succeeds:
  assumes "db_inv lower d" "b \<in> set (db_backends d)" "be_AuthPasswordSealed b \<noteq> []"
  shows "Queries_UpdateSMTPBackendSealedPassword lower (be_ID b) sealed now d =
    (Inr (), d\<lparr>db_backends := map (\<lambda>x. if be_ID x = be_ID b then x\<lparr>be_AuthPasswordSealed := sealed, be_UpdatedAt := now\<rparr> else x)
       (db_backends d)\<rparr>)"
proof -
  let ?g = "\<lambda>x. x\<lparr>be_AuthPasswordSealed := sealed, be_UpdatedAt := now\<rparr>"
  let ?h = "\<lambda>x. if be_ID x = be_ID b then ?g x else x"
  have ok: "table_ok (backend_schema lower) (db_backends d)" using assms(1) by (simp add: db_inv_def)
  have only: "x = b" if "x \<in> set (db_backends d)" "be_ID x = be_ID b" for x
    using backend_unique [OF assms(1) that(1) assms(2) that(2)] .
  have "violated (checks (backend_schema lower)) (map ?g (filter (\<lambda>x. be_ID x = be_ID b) (db_backends d))) = None"
  proof -
    have "set (map ?g (filter (\<lambda>x. be_ID x = be_ID b) (db_backends d))) = {?g b}"
      using only assms(2) by auto
    moreover have "be_TlsMode b \<noteq> TLSModeNone" using ok assms(2,3) by (auto simp: table_ok_iff list_all_iff backend_schema_def)
    ultimately show ?thesis
      using ok assms(2) unfolding table_ok_iff violated_None list_all_iff by (simp add: backend_schema_def) blast
  qed
  moreover have "collided (uniques (backend_schema lower)) (map ?h (db_backends d)) = None"
  proof -
    define h :: "SmtpBackend \<Rightarrow> SmtpBackend" where "h = ?h"
    have "be_ID (h x) = be_ID x" "be_Name (h x) = be_Name x" for x by (auto simp: h_def)
    then have "collided (uniques (backend_schema lower)) (map h (db_backends d)) = None"
      using ok by (simp add: table_ok_iff collided_None backend_schema_def sorted_wrt_map)
    then show ?thesis by (simp only: h_def)
  qed
  moreover have "violated (fkeys (backend_schema lower)) xs = None" for xs by (simp add: violated_None backend_schema_def)
  ultimately have "update_rows (backend_schema lower) (\<lambda>x. be_ID x = be_ID b) ?g (db_backends d) = Inr (map ?h (db_backends d))"
    by (simp add: update_rows_def write_rows_Inr)
  then show ?thesis by (simp add: Queries_UpdateSMTPBackendSealedPassword_def wrote_def)
qed

definition rewrapped :: "Store \<Rightarrow> uuid set \<Rightarrow> SmtpBackend \<Rightarrow> SmtpBackend \<Rightarrow> bool" where
  "rewrapped s I b b' \<longleftrightarrow>
     (if be_ID b \<in> I
      then b' = b\<lparr>be_AuthPasswordSealed := be_AuthPasswordSealed b', be_UpdatedAt := be_UpdatedAt b'\<rparr> \<and>
           OpenBackendPassword s (be_AuthPasswordSealed b') = OpenBackendPassword s (be_AuthPasswordSealed b) \<and>
           \<not> NeedsRewrap (st_keyring s) (be_AuthPasswordSealed b')
      else b' = b)"

lemma rewrap_loop_spec:
  assumes "crypto_lawful (st_crypto s)" "keyring_ok (st_keyring s)"
    and "quiet w" "db_inv (st_lower s) (tables w)" "distinct (map fst rows)"
    and "\<forall>(i, nm, e) \<in> set rows. e \<noteq> [] \<and> ok (keyring_Open (st_crypto s) (st_keyring s) e) \<and>
       (\<exists>b \<in> set (db_backends (tables w)). be_ID b = i \<and> be_AuthPasswordSealed b = e)"
    and "length rows \<le> length (draws w)" "None \<notin> set (draws w)"
  shows "\<exists>w'. run_state (rewrap_loop s rows n) w =
      ((None, n + int (length (filter (\<lambda>(i, nm, e). NeedsRewrap (st_keyring s) e) rows))), w') \<and>
    list_all2 (rewrapped s (fst ` set rows)) (db_backends (tables w)) (db_backends (tables w'))"
  using assms(3-)
proof (induction rows arbitrary: w n)
  case Nil
  then show ?case by (simp add: list_all2_same rewrapped_def)
next
  case (Cons row rows)
  obtain i nm e where row: "row = (i, nm, e)" by (cases row) auto
  obtain b where b: "b \<in> set (db_backends (tables w))" "be_ID b = i" "be_AuthPasswordSealed b = e" "e \<noteq> []"
    using Cons.prems(4) row by auto
  have only: "x = b" if "x \<in> set (db_backends (tables w))" "be_ID x = i" for x
    using backend_unique [OF Cons.prems(2) that(1) b(1)] that(2) b(2) by simp
  have i: "i \<notin> fst ` set rows" using Cons.prems(3) row by simp
  show ?case
  proof (cases "NeedsRewrap (st_keyring s) e")
    case False
    obtain w' where r: "run_state (rewrap_loop s rows n) w =
        ((None, n + int (length (filter (\<lambda>(i, nm, e). NeedsRewrap (st_keyring s) e) rows))), w')"
      and l: "list_all2 (rewrapped s (fst ` set rows)) (db_backends (tables w)) (db_backends (tables w'))"
      using Cons.IH [of w n] Cons.prems by auto
    have "rewrapped s (fst ` set (row # rows)) x y" if "x \<in> set (db_backends (tables w))" "rewrapped s (fst ` set rows) x y" for x y
      using that only [OF that(1)] b False i by (auto simp: rewrapped_def row split: if_splits)
    with l have "list_all2 (rewrapped s (fst ` set (row # rows))) (db_backends (tables w)) (db_backends (tables w'))"
      by (auto intro: list.rel_mono_strong)
    with r False show ?thesis by (simp add: row)
  next
    case True
    obtain plain where o: "keyring_Open (st_crypto s) (st_keyring s) e = Inr plain"
      using Cons.prems(4) row by (cases "keyring_Open (st_crypto s) (st_keyring s) e") auto
    obtain d ds where d: "draws w = Some d # ds" using Cons.prems(5,6) by (cases "draws w") (auto, metis option.exhaust)
    let ?n = "take (NonceSize (st_crypto s)) (d @ replicate (NonceSize (st_crypto s)) (char_of (0 :: nat)))"
    obtain e' where e': "keyring_Seal (st_crypto s) (st_keyring s) (Some ?n) plain = Inr e'"
        "keyring_Open (st_crypto s) (st_keyring s) e' = Inr plain" "\<not> NeedsRewrap (st_keyring s) e'"
    proof -
      have "length ?n = NonceSize (st_crypto s)" by simp
      from box.rewrap [of "st_crypto s" "st_keyring s" "Some ?n" e plain] this assms(1,2) o that show thesis by metis
    qed
    let ?h = "\<lambda>x. if be_ID x = i then x\<lparr>be_AuthPasswordSealed := e', be_UpdatedAt := clock w\<rparr> else x"
    let ?w = "w\<lparr>draws := ds, ids := tl (ids w), tables := (tables w)\<lparr>db_backends := map ?h (db_backends (tables w))\<rparr>\<rparr>"
    have u: "Queries_UpdateSMTPBackendSealedPassword (st_lower s) i e' (clock w) (tables w) =
        (Inr (), (tables w)\<lparr>db_backends := map ?h (db_backends (tables w))\<rparr>)"
      using seal_update_succeeds [OF Cons.prems(2) b(1)] b by simp
    have inv: "db_inv (st_lower s) (tables ?w)"
      using audited_UpdateSMTPBackendSealedPassword [of "st_lower s" "tables w" i e' "clock w"] u Cons.prems(2) by (simp add: audited_def)
    have step: "run_state (rewrap_loop s (row # rows) n) w = run_state (rewrap_loop s rows (n + 1)) ?w"
      using True o e'(1) d u Cons.prems(1) by (simp add: row rand_Read_def run_exec_quiet)
    have "\<forall>(j, nm, x) \<in> set rows. x \<noteq> [] \<and> ok (keyring_Open (st_crypto s) (st_keyring s) x) \<and>
        (\<exists>b \<in> set (db_backends (tables ?w)). be_ID b = j \<and> be_AuthPasswordSealed b = x)"
    proof (clarify)
      fix j nm' x assume j: "(j, nm', x) \<in> set rows"
      then obtain b' where "b' \<in> set (db_backends (tables w))" "be_ID b' = j" "be_AuthPasswordSealed b' = x"
        "x \<noteq> [] \<and> ok (keyring_Open (st_crypto s) (st_keyring s) x)" using Cons.prems(4) by auto
      moreover have "j \<noteq> i" using i j by force
      ultimately show "x \<noteq> [] \<and> ok (keyring_Open (st_crypto s) (st_keyring s) x) \<and>
          (\<exists>b \<in> set (db_backends (tables ?w)). be_ID b = j \<and> be_AuthPasswordSealed b = x)" by (auto intro!: bexI [of _ b'])
    qed
    then obtain w' where r: "run_state (rewrap_loop s rows (n + 1)) ?w =
        ((None, n + 1 + int (length (filter (\<lambda>(i, nm, e). NeedsRewrap (st_keyring s) e) rows))), w')"
      and l: "list_all2 (rewrapped s (fst ` set rows)) (map ?h (db_backends (tables w))) (db_backends (tables w'))"
      using Cons.IH [of ?w "n + 1"] Cons.prems inv d by auto
    have "rewrapped s (fst ` set (row # rows)) x y"
      if "x \<in> set (db_backends (tables w))" "rewrapped s (fst ` set rows) (?h x) y" for x y
      using that only [OF that(1)] b e' o i keyring_Seal_ne [OF e'(1)]
      by (auto simp: rewrapped_def row OpenBackendPassword_def split: if_splits)
    with l have "list_all2 (rewrapped s (fst ` set (row # rows))) (db_backends (tables w)) (db_backends (tables w'))"
      unfolding list_all2_map1 by (auto intro: list.rel_mono_strong)
    with r step True show ?thesis by (simp add: row)
  qed
qed

section \<open>Properties\<close>

text \<open>
  C30: Routing picks the most specific domain. In a world without failures and a database that meets its constraints, resolving a sender
  domain that normalises to \<open>n\<close> reports ``not found'' exactly when no enabled domain with an enabled backend covers \<open>n\<close>
  (by equality, or as an ancestor that includes subdomains); otherwise it routes by the covering domain
  with the strictly longest name, to that domain's backend, or fails because the password of that backend does not open.
\<close>

theorem resolve_most_specific:
  assumes "quiet w" "db_inv (st_lower s) (tables w)" "NormalizeDomain (st_idna s) sd = Inr n"
    and "run_state (ResolveSender s sd) w = (res, w')"
  shows "case res of
      Inl e \<Rightarrow> if e = ErrNotFound then (\<forall>r b. \<not> candidate (tables w) n r b)
        else (\<exists>r b k. candidate (tables w) n r b \<and> OpenBackendPassword s (be_AuthPasswordSealed b) = Inl k)
    | Inr rt \<Rightarrow> (\<exists>r b pw. candidate (tables w) n r b \<and> OpenBackendPassword s (be_AuthPasswordSealed b) = Inr pw \<and>
        rt = route_of (dom_ID r) (dom_Name r) b pw \<and>
        (\<forall>r' b'. candidate (tables w) n r' b' \<longrightarrow> r' = r \<or> length (dom_Name r') < length (dom_Name r)))"
  using assms(4) ResolveSenderDomain_spec [OF assms(2), of n]
  unfolding run_ResolveSender_quiet [OF assms(1,3)]
  by (auto simp: store_wrap_def split: sum.splits prod.splits)

text \<open>
  A backend password never crosses a plaintext connection. Whatever route a sender resolves to, in a database that meets its
  constraints and with other sessions that keep them, the route authenticates only over STARTTLS or TLS.
\<close>

theorem route_never_plaintext_auth:
  assumes "db_inv (st_lower s) (tables w)" "\<forall>p \<in> set (peers w). \<forall>d. audited (st_lower s) d (p d)"
    and "run_state (ResolveSender s sd) w = (Inr rt, w')"
  shows "UsesAuth rt \<longrightarrow> sr_TLSMode rt \<in> {TLSModeSTARTTLS, TLSModeImplicit}"
proof -
  have inv: "db_inv (st_lower s) (interfere w)"
    using au.interfere_R [of "st_lower s" w] assms(1,2) by (auto simp: au.friendly_def audited_def)
  from assms(3) obtain n r b pw d' where q: "Queries_ResolveSenderDomain n (interfere w) = (Inr (r, b), d')"
    and rt: "rt = route_of (dom_ID r) (dom_Name r) b pw"
    by (auto simp: ResolveSender_def run_exec split: sum.splits prod.splits net_event.splits elim!: orelse_Inr)
  from ResolveSenderDomain_spec [OF inv, of n] q have "b \<in> set (db_backends (interfere w))" by (simp add: candidate_def)
  with inv have "be_TlsMode b \<noteq> TLSModeNone \<or> be_AuthUser b = []" "be_TlsMode b \<in> {TLSModeSTARTTLS, TLSModeImplicit, TLSModeNone}"
    by (auto simp: db_inv_def table_ok_iff backend_schema_def list_all_iff)
  then show ?thesis by (auto simp: rt route_of_def UsesAuth_def)
qed

text \<open>
  A backend password is kept exactly. The row a successful creation returns is in the database and opens to the password
  given; a user is stored exactly together with a password, and never for a plaintext connection.
\<close>

theorem backend_password_roundtrip:
  assumes "crypto_lawful (st_crypto s)" "keyring_ok (st_keyring s)" "run_state (CreateBackend s p) w = (Inr row, w')"
  shows "row \<in> set (db_backends (tables w')) \<and> OpenBackendPassword s (be_AuthPasswordSealed row) = Inr (nbp_AuthPassword p) \<and>
    (be_AuthUser row = [] \<longleftrightarrow> be_AuthPasswordSealed row = []) \<and> (be_TlsMode row = TLSModeNone \<longrightarrow> be_AuthUser row = [])"
proof -
  from assms(3) obtain q sealed w1 w2 d arg where n: "NewBackendParams_normalize s p = Inr q"
    and sl: "run_state (sealBackendPassword s (nbp_AuthPassword q)) w = (Inr sealed, w1)"
    and c: "Queries_CreateSMTPBackend (st_lower s) arg (clock w1) (draw_id w1) (interfere w1) = (Inr row, tables w')"
    and arg: "csb_AuthUser arg = nbp_AuthUser q" "csb_AuthPasswordSealed arg = sealed" "csb_TlsMode arg = nbp_TLSMode q"
    by (fastforce simp: CreateBackend_def run_exec split: sum.splits prod.splits net_event.splits elim!: orelse_Inr)
  have q: "nbp_AuthPassword q = nbp_AuthPassword p" "nbp_AuthUser q = [] \<longleftrightarrow> Secret_IsEmpty (nbp_AuthPassword q)"
    "nbp_TLSMode q = TLSModeNone \<longrightarrow> nbp_AuthUser q = []"
    using n by (auto simp: NewBackendParams_normalize_def Let_def split: if_splits)
  have r: "row \<in> set (db_backends (tables w'))" "be_AuthUser row = nbp_AuthUser q" "be_AuthPasswordSealed row = sealed" "be_TlsMode row = nbp_TLSMode q"
    using CreateSMTPBackend_Inr [OF c] arg by auto
  show ?thesis using sealBackendPassword_Inr [OF sl assms(1,2)] q r by simp
qed

text \<open>
  Re-wrapping completes a key rotation. When every stored password opens under the configured keys and the random generator
  works, re-wrapping succeeds and reports how many passwords were under another key; afterwards every backend is as before but for
  its envelope and time stamp, every password opens to the same text, and no envelope is under a key other than the active one.
\<close>

theorem rewrap_completes_rotation:
  assumes "crypto_lawful (st_crypto s)" "keyring_ok (st_keyring s)" "quiet w" "db_inv (st_lower s) (tables w)"
    and "\<forall>b \<in> set (db_backends (tables w)). be_AuthPasswordSealed b \<noteq> [] \<longrightarrow>
       ok (keyring_Open (st_crypto s) (st_keyring s) (be_AuthPasswordSealed b))"
    and "length (db_backends (tables w)) \<le> length (draws w)" "None \<notin> set (draws w)"
  shows "\<exists>w'. run_state (RewrapBackendPasswords s) w =
      ((None, int (length (filter (\<lambda>b. NeedsRewrap (st_keyring s) (be_AuthPasswordSealed b)) (db_backends (tables w))))), w') \<and>
    list_all2 (\<lambda>b b'. b' = b\<lparr>be_AuthPasswordSealed := be_AuthPasswordSealed b', be_UpdatedAt := be_UpdatedAt b'\<rparr> \<and>
        OpenBackendPassword s (be_AuthPasswordSealed b') = OpenBackendPassword s (be_AuthPasswordSealed b) \<and>
        \<not> NeedsRewrap (st_keyring s) (be_AuthPasswordSealed b'))
      (db_backends (tables w)) (db_backends (tables w'))"
proof -
  let ?bs = "filter (\<lambda>b. be_AuthPasswordSealed b \<noteq> []) (db_backends (tables w))"
  let ?rows = "map (\<lambda>b. (be_ID b, be_Name b, be_AuthPasswordSealed b)) (sort_key be_Name ?bs)"
  let ?w = "w\<lparr>ids := tl (ids w), tables := tables w\<rparr>"
  have none: "\<not> NeedsRewrap (st_keyring s) []" by (simp add: NeedsRewrap_def splitEnvelope_def)
  have "distinct (map be_ID (db_backends (tables w)))"
    using assms(4) by (simp add: db_inv_def table_ok_iff backend_schema_def distinct_sorted_wrt)
  then have "distinct (map be_ID ?bs)" by (simp add: distinct_map_filter)
  then have dist: "distinct (map fst ?rows)" by (simp add: comp_def distinct_map)
  have "length ?bs \<le> length (draws w)" using length_filter_le assms(6) by (rule le_trans)
  then have len: "length ?rows \<le> length (draws ?w)" by simp
  obtain w' where r: "run_state (rewrap_loop s ?rows 0) ?w =
      ((None, 0 + int (length (filter (\<lambda>(i, nm, e). NeedsRewrap (st_keyring s) e) ?rows))), w')"
    and l: "list_all2 (rewrapped s (fst ` set ?rows)) (db_backends (tables w)) (db_backends (tables w'))"
    using rewrap_loop_spec [OF assms(1,2) _ _ dist _ len, of 0] assms(3,4,5,7) by auto
  have "filter (\<lambda>b. be_AuthPasswordSealed b \<noteq> [] \<and> NeedsRewrap (st_keyring s) (be_AuthPasswordSealed b)) (db_backends (tables w)) =
      filter (\<lambda>b. NeedsRewrap (st_keyring s) (be_AuthPasswordSealed b)) (db_backends (tables w))"
    using none by (intro filter_cong) auto
  then have n: "length (filter (\<lambda>(i, nm, e). NeedsRewrap (st_keyring s) e) ?rows) =
      length (filter (\<lambda>b. NeedsRewrap (st_keyring s) (be_AuthPasswordSealed b)) (db_backends (tables w)))"
    by (simp add: filter_map comp_def filter_sort)
  have "run_state (RewrapBackendPasswords s) w = run_state (rewrap_loop s ?rows 0) ?w"
    using assms(3) by (simp add: RewrapBackendPasswords_def run_exec_quiet Queries_ListSMTPBackendsNeedingRewrap_def)
  moreover have "list_all2 (\<lambda>b b'. b' = b\<lparr>be_AuthPasswordSealed := be_AuthPasswordSealed b', be_UpdatedAt := be_UpdatedAt b'\<rparr> \<and>
        OpenBackendPassword s (be_AuthPasswordSealed b') = OpenBackendPassword s (be_AuthPasswordSealed b) \<and>
        \<not> NeedsRewrap (st_keyring s) (be_AuthPasswordSealed b'))
      (db_backends (tables w)) (db_backends (tables w'))"
  proof (rule list.rel_mono_strong [OF l])
    fix b b' assume b: "b \<in> set (db_backends (tables w))" and rel: "rewrapped s (fst ` set ?rows) b b'"
    show "b' = b\<lparr>be_AuthPasswordSealed := be_AuthPasswordSealed b', be_UpdatedAt := be_UpdatedAt b'\<rparr> \<and>
        OpenBackendPassword s (be_AuthPasswordSealed b') = OpenBackendPassword s (be_AuthPasswordSealed b) \<and>
        \<not> NeedsRewrap (st_keyring s) (be_AuthPasswordSealed b')"
    proof (cases "be_ID b \<in> fst ` set ?rows")
      case True
      with rel show ?thesis by (simp add: rewrapped_def)
    next
      case False
      then have "be_AuthPasswordSealed b = []" using b by (force simp: image_iff)
      with rel False none show ?thesis by (simp add: rewrapped_def)
    qed
  qed
  ultimately show ?thesis using r n by auto
qed

section \<open>Witnesses\<close>

definition sealed_hunter2 :: string where
  "sealed_hunter2 = ''v1:a:bm5ubm5ubm5ubm5uaHVudGVyMg==''"

definition demo_backend :: SmtpBackend where
  "demo_backend = \<lparr>be_ID = 21, be_Name = ''oci'', be_Host = ''smtp.example.net'', be_Port = 587, be_TlsMode = ''starttls'',
     be_AuthUser = ''ocid'', be_AuthPasswordSealed = sealed_hunter2, be_HeloName = [], be_MaxConcurrency = 2, be_Enabled = True,
     be_CreatedAt = 800, be_UpdatedAt = 800\<rparr>"

definition demo_domains :: "Domain list" where
  "demo_domains =
     [\<lparr>dom_ID = 31, dom_Name = ''example.com'', dom_SmtpBackendID = 21, dom_IncludeSubdomains = True, dom_Enabled = True,
       dom_CreatedAt = 800, dom_UpdatedAt = 800\<rparr>,
      \<lparr>dom_ID = 32, dom_Name = ''mail.example.com'', dom_SmtpBackendID = 21, dom_IncludeSubdomains = False, dom_Enabled = True,
       dom_CreatedAt = 800, dom_UpdatedAt = 800\<rparr>]"

definition route_db :: db where
  "route_db = empty_db\<lparr>db_backends := [demo_backend], db_domains := demo_domains\<rparr>"

definition route_world :: world where "route_world = demo_world\<lparr>tables := route_db\<rparr>"

lemma route_world_facts [simp]: "quiet route_world" "peers route_world = []" "tables route_world = route_db"
  by (simp_all add: route_world_def demo_world_def quiet_def)

lemma route_db_inv: "db_inv (st_lower demo_store) route_db"
  by code_simp

lemma demo_ring_ok: "keyring_ok (st_keyring demo_store)"
  by code_simp

lemma demo_resolve_all:
  "(NormalizeDomain (st_idna demo_store) ''Mail.Example.com'' = Inr ''mail.example.com'') \<and>
   (map_sum (\<lambda>_. ()) (\<lambda>rt. (sr_DomainName rt, sr_BackendID rt, UsesAuth rt))
     (fst (run_state (ResolveSender demo_store ''Mail.Example.com'') route_world)) = Inr (''mail.example.com'', 21, True))"
  by code_simp

lemmas demo_resolve =
  demo_resolve_all [THEN conjunct1]
  demo_resolve_all [THEN conjunct2]

lemma demo_route: "\<exists>rt w'. run_state (ResolveSender demo_store ''Mail.Example.com'') route_world = (Inr rt, w') \<and>
    sr_DomainName rt = ''mail.example.com'' \<and> UsesAuth rt"
  using demo_resolve(2) by (cases "run_state (ResolveSender demo_store ''Mail.Example.com'') route_world"; cases "fst (run_state (ResolveSender demo_store ''Mail.Example.com'') route_world)") auto

theorem resolve_most_specific_witness:
  "\<exists>rt w' r b. run_state (ResolveSender demo_store ''Mail.Example.com'') route_world = (Inr rt, w') \<and>
     candidate route_db ''mail.example.com'' r b \<and> sr_DomainName rt = dom_Name r \<and> sr_BackendID rt = be_ID b"
proof -
  obtain rt w' where r: "run_state (ResolveSender demo_store ''Mail.Example.com'') route_world = (Inr rt, w')" using demo_route by blast
  from resolve_most_specific [OF _ _ demo_resolve(1) r] route_db_inv obtain rr b pw where
    c: "candidate route_db ''mail.example.com'' rr b" "rt = route_of (dom_ID rr) (dom_Name rr) b pw" by auto
  from c(2) have "sr_DomainName rt = dom_Name rr \<and> sr_BackendID rt = be_ID b" by (simp add: route_of_def)
  with r c(1) show ?thesis by blast
qed

theorem route_never_plaintext_auth_witness:
  "\<exists>rt w'. run_state (ResolveSender demo_store ''Mail.Example.com'') route_world = (Inr rt, w') \<and> UsesAuth rt \<and>
     sr_TLSMode rt \<in> {TLSModeSTARTTLS, TLSModeImplicit}"
proof -
  obtain rt w' where r: "run_state (ResolveSender demo_store ''Mail.Example.com'') route_world = (Inr rt, w')" "UsesAuth rt"
    using demo_route by blast
  from route_never_plaintext_auth [OF _ _ r(1)] r show ?thesis using route_db_inv by auto
qed

definition demo_backend_params :: NewBackendParams where
  "demo_backend_params = \<lparr>nbp_Name = '' oci '', nbp_Host = ''smtp.example.net'', nbp_Port = 587, nbp_TLSMode = ''STARTTLS'',
     nbp_AuthUser = ''ocid'', nbp_AuthPassword = Secret ''hunter2'', nbp_HeloName = [], nbp_MaxConcurrency = 0, nbp_Enabled = True\<rparr>"

lemma demo_backend_created: "isl (fst (run_state (CreateBackend demo_store demo_backend_params) demo_world)) = False"
  by code_simp

theorem backend_password_roundtrip_witness:
  "\<exists>row w'. run_state (CreateBackend demo_store demo_backend_params) demo_world = (Inr row, w') \<and>
     OpenBackendPassword demo_store (be_AuthPasswordSealed row) = Inr (Secret ''hunter2'')"
proof -
  obtain row w' where r: "run_state (CreateBackend demo_store demo_backend_params) demo_world = (Inr row, w')"
    using not_isl [OF demo_backend_created] by (metis run_pair)
  from backend_password_roundtrip [OF demo_store_lawful(1) demo_ring_ok r] r show ?thesis by (auto simp: demo_backend_params_def)
qed

definition rotated_store :: Store where "rotated_store = demo_store\<lparr>st_keyring := ring_ab\<rparr>"

lemma rotated_opens_all:
  "(ok (keyring_Open plain_crypto ring_ab sealed_hunter2)) \<and>
   (NeedsRewrap ring_ab sealed_hunter2) \<and>
   (keyring_ok ring_ab)"
  by code_simp

lemmas rotated_opens =
  rotated_opens_all [THEN conjunct1]
  rotated_opens_all [THEN conjunct2, THEN conjunct1]
  rotated_opens_all [THEN conjunct2, THEN conjunct2]

theorem rewrap_completes_rotation_witness:
  "\<exists>w'. run_state (RewrapBackendPasswords rotated_store) route_world = ((None, 1), w') \<and>
     list_all (\<lambda>b. \<not> NeedsRewrap ring_ab (be_AuthPasswordSealed b)) (db_backends (tables w'))"
proof -
  have "\<exists>w'. run_state (RewrapBackendPasswords rotated_store) route_world =
      ((None, int (length (filter (\<lambda>b. NeedsRewrap (st_keyring rotated_store) (be_AuthPasswordSealed b)) (db_backends (tables route_world))))), w') \<and>
    list_all2 (\<lambda>b b'. b' = b\<lparr>be_AuthPasswordSealed := be_AuthPasswordSealed b', be_UpdatedAt := be_UpdatedAt b'\<rparr> \<and>
        OpenBackendPassword rotated_store (be_AuthPasswordSealed b') = OpenBackendPassword rotated_store (be_AuthPasswordSealed b) \<and>
        \<not> NeedsRewrap (st_keyring rotated_store) (be_AuthPasswordSealed b'))
      (db_backends (tables route_world)) (db_backends (tables w'))"
    by (rule rewrap_completes_rotation)
      (use rotated_opens route_db_inv demo_store_lawful in
        \<open>auto simp: rotated_store_def route_db_def demo_backend_def demo_lib_def empty_db_def route_world_def demo_world_def quiet_def\<close>)
  then show ?thesis
    using rotated_opens(2)
    by (auto simp: rotated_store_def route_db_def demo_backend_def list_all2_Cons1)
qed

end
