(* ===== verification/Store_Email.thy ===== *)
theory Store_Email
  imports Store_Routing Store_Credential
begin

text \<open>
  Messages: \<^verbatim>\<open>src/internal/store/email.go\<close> and the message and test queries of \<^verbatim>\<open>admin.go\<close>.

  \<open>enqueue\<close> is the function the caller supplies to put the delivery job into the same transaction.

  Shown: a message, its payload and its job are stored together or not at all, whatever the network does; a rejected submission never has a
  payload; and the life of a message only moves along the transitions of its status, with \<^verbatim>\<open>sent\<close> and \<^verbatim>\<open>rejected\<close> final.
\<close>

section \<open>Operations\<close>

record NewMessageParams =
  nmp_CredentialID :: uuid
  nmp_Facade :: string
  nmp_FromAddr :: string
  nmp_FromDomain :: string
  nmp_To :: "string list"
  nmp_Cc :: "string list"
  nmp_Bcc :: "string list"
  nmp_EnvelopeRecipients :: "string list"
  nmp_Subject :: string
  nmp_MessageID :: string
  nmp_SizeBytes :: int
  nmp_BackendID :: uuid
  nmp_IdempotencyKey :: string
  nmp_RemoteIP :: netip_Addr

record RejectedMessageParams =
  rmp_CredentialID :: uuid
  rmp_Facade :: string
  rmp_Reason :: string
  rmp_FromAddr :: string
  rmp_FromDomain :: string
  rmp_To :: "string list"
  rmp_Cc :: "string list"
  rmp_Bcc :: "string list"
  rmp_EnvelopeRecipients :: "string list"
  rmp_Subject :: string
  rmp_MessageID :: string
  rmp_SizeBytes :: int
  rmp_RemoteIP :: netip_Addr

definition queued_row :: "NewMessageParams \<Rightarrow> InsertEmailMessageParams" where
  "queued_row p = \<lparr>iem_CredentialID = uuidPtr (nmp_CredentialID p), iem_Status = StatusQueued, iem_Facade = nmp_Facade p,
     iem_FromAddr = nmp_FromAddr p, iem_FromDomain = nmp_FromDomain p, iem_ToAddrs = nmp_To p, iem_CcAddrs = nmp_Cc p,
     iem_BccAddrs = nmp_Bcc p, iem_EnvelopeRecipients = nmp_EnvelopeRecipients p, iem_Subject = nmp_Subject p,
     iem_MessageID = nmp_MessageID p, iem_SizeBytes = to_int32 (nmp_SizeBytes p), iem_SmtpBackendID = uuidPtr (nmp_BackendID p),
     iem_IdempotencyKey = stringPtr (nmp_IdempotencyKey p), iem_RemoteIp = addrPtr (nmp_RemoteIP p)\<rparr>"

definition rejected_row :: "RejectedMessageParams \<Rightarrow> InsertEmailMessageParams" where
  "rejected_row p = \<lparr>iem_CredentialID = uuidPtr (rmp_CredentialID p), iem_Status = StatusRejected, iem_Facade = rmp_Facade p,
     iem_FromAddr = rmp_FromAddr p, iem_FromDomain = rmp_FromDomain p, iem_ToAddrs = rmp_To p, iem_CcAddrs = rmp_Cc p,
     iem_BccAddrs = rmp_Bcc p, iem_EnvelopeRecipients = rmp_EnvelopeRecipients p, iem_Subject = rmp_Subject p,
     iem_MessageID = rmp_MessageID p, iem_SizeBytes = to_int32 (rmp_SizeBytes p), iem_SmtpBackendID = None,
     iem_IdempotencyKey = None, iem_RemoteIp = addrPtr (rmp_RemoteIP p)\<rparr>"

text \<open>The body of the transaction: the row, its payload, its job. \<open>enqueue = None\<close> is a caller without an enqueue function.\<close>

definition insert_queued_tx ::
    "Store \<Rightarrow> NewMessageParams \<Rightarrow> string \<Rightarrow> (uuid \<Rightarrow> (pg_error, unit) result prog) option \<Rightarrow> (pg_error, EmailMessage) result prog" where
  "insert_queued_tx s p payload enqueue =
     orelse (exec_tx (Queries_InsertEmailMessage (st_lower s) (queued_row p))) (\<lambda>e. e)
       (\<lambda>row. orelse (exec_tx (\<lambda>now uid. Queries_InsertEmailPayload (msg_ID row) payload now)) (\<lambda>e. e)
          (\<lambda>_. case enqueue of
             None \<Rightarrow> ret (Inl (OtherError ''no enqueue function supplied''))
           | Some enq \<Rightarrow> orelse (enq (msg_ID row)) (\<lambda>e. e) (\<lambda>_. ret (Inr row))))"

definition InsertQueuedMessage ::
    "Store \<Rightarrow> NewMessageParams \<Rightarrow> string \<Rightarrow> (uuid \<Rightarrow> (pg_error, unit) result prog) option \<Rightarrow> (store_error, EmailMessage) result prog" where
  "InsertQueuedMessage s p payload enqueue =
     (if nmp_EnvelopeRecipients p = [] then ret (Inl (ErrPlain ''insert queued message: no envelope recipients''))
      else if payload = [] then ret (Inl (ErrPlain ''insert queued message: empty payload''))
      else orelse (withTx (insert_queued_tx s p payload enqueue)) store_wrap (\<lambda>row. ret (Inr row)))"

definition InsertRejectedMessage :: "Store \<Rightarrow> RejectedMessageParams \<Rightarrow> (store_error, EmailMessage) result prog" where
  "InsertRejectedMessage s p =
     (if rmp_Reason p = [] then ret (Inl (ErrPlain ''insert rejected message: a reason is required''))
      else orelse (exec (Queries_InsertRejectedEmailMessage (st_lower s) (rejected_row p) (Some (rmp_Reason p)))) store_wrap
             (\<lambda>row. ret (Inr row)))"

definition GetMessage :: "uuid \<Rightarrow> (store_error, EmailMessage) result prog" where
  "GetMessage i = orelse (exec (\<lambda>now uid. Queries_GetEmailMessage i)) store_wrap (\<lambda>row. ret (Inr row))"

definition FindByIdempotencyKey :: "uuid \<Rightarrow> string \<Rightarrow> int \<Rightarrow> (store_error, EmailMessage) result prog" where
  "FindByIdempotencyKey credentialID key ttl =
     orelse (exec (\<lambda>now uid. Queries_GetEmailMessageByIdempotencyKey (uuidPtr credentialID) (Some key) (intervalOf ttl) now)) store_wrap
       (\<lambda>row. ret (Inr row))"

definition GetPayload :: "uuid \<Rightarrow> (store_error, string) result prog" where
  "GetPayload i = orelse (exec (\<lambda>now uid. Queries_GetEmailPayload i)) store_wrap (\<lambda>raw. ret (Inr raw))"

definition MarkSending :: "Store \<Rightarrow> uuid \<Rightarrow> (store_error, bool) result prog" where
  "MarkSending s i =
     orelse (exec (\<lambda>now uid. Queries_MarkEmailSending (st_lower s) i now)) store_wrap (\<lambda>n. ret (Inr (n > 0)))"

definition MarkSent :: "Store \<Rightarrow> uuid \<Rightarrow> (store_error, unit) result prog" where
  "MarkSent s i = orelse (exec (\<lambda>now uid. Queries_MarkEmailSent (st_lower s) i now)) store_wrap (\<lambda>_. ret (Inr ()))"

definition MarkSentPartial :: "Store \<Rightarrow> uuid \<Rightarrow> string \<Rightarrow> string \<Rightarrow> (store_error, unit) result prog" where
  "MarkSentPartial s i code detail =
     orelse (exec (\<lambda>now uid. Queries_MarkEmailSentPartial (st_lower s) i (stringPtr code) (stringPtr detail) now)) store_wrap
       (\<lambda>_. ret (Inr ()))"

text \<open>The route of a message, whether its backend is enabled.\<close>

definition RouteForMessage :: "Store \<Rightarrow> EmailMessage \<Rightarrow> (store_error, SenderRoute \<times> bool) result prog" where
  "RouteForMessage s msg =
     (case msg_SmtpBackendID msg of
        None \<Rightarrow> ret (Inl ErrNotFound)
      | Some i \<Rightarrow>
          orelse (exec (\<lambda>now uid. Queries_GetSenderRouteForBackend i)) store_wrap
            (\<lambda>b. case OpenBackendPassword s (be_AuthPasswordSealed b) of
               Inl e \<Rightarrow> ret (Inl (ErrEnvelope e))
             | Inr password \<Rightarrow> ret (Inr (route_of uuid_Nil (msg_FromDomain msg) b password, be_Enabled b))))"

definition MarkFailed :: "Store \<Rightarrow> uuid \<Rightarrow> string \<Rightarrow> string \<Rightarrow> (store_error, unit) result prog" where
  "MarkFailed s i code detail =
     orelse (exec (\<lambda>now uid. Queries_MarkEmailFailed (st_lower s) i (stringPtr code) (stringPtr detail) now)) store_wrap
       (\<lambda>_. ret (Inr ()))"

definition MarkRetrying :: "Store \<Rightarrow> uuid \<Rightarrow> string \<Rightarrow> string \<Rightarrow> (store_error, unit) result prog" where
  "MarkRetrying s i code detail =
     orelse (exec (\<lambda>now uid. Queries_MarkEmailRetrying (st_lower s) i (stringPtr code) (stringPtr detail) now)) store_wrap
       (\<lambda>_. ret (Inr ()))"

definition PurgePayloads :: "int \<Rightarrow> int \<Rightarrow> (store_error, int) result prog" where
  "PurgePayloads sentRetention failedRetention =
     orelse (exec (\<lambda>now uid. Queries_PurgeSentPayloads (intervalOf sentRetention) (intervalOf failedRetention) now)) store_wrap
       (\<lambda>n. ret (Inr n))"

definition CountByStatus :: "(store_error, (string \<times> int) list) result prog" where
  "CountByStatus = orelse (exec (\<lambda>now uid. Queries_CountEmailsByStatus)) store_wrap (\<lambda>rows. ret (Inr rows))"

section \<open>The admin queries\<close>

record MessageFilter =
  mf_Status :: string
  mf_CredentialID :: uuid
  mf_Limit :: int
  mf_BeforeCreatedAt :: "timestamp option"
  mf_BeforeID :: uuid

text \<open>\<open>mf_BeforeCreatedAt = None\<close> is the zero \<^verbatim>\<open>time.Time\<close>.\<close>

definition list_params :: "MessageFilter \<Rightarrow> ListEmailMessagesParams" where
  "list_params f =
     \<lparr>lem_Status = (if mf_Status f \<noteq> [] then Some (mf_Status f) else None),
      lem_CredentialFilter = (if mf_CredentialID f \<noteq> uuid_Nil then Some (mf_CredentialID f) else None),
      lem_BeforeCreatedAt = mf_BeforeCreatedAt f,
      lem_BeforeID = (if mf_BeforeCreatedAt f \<noteq> None then Some (mf_BeforeID f) else None),
      lem_RowLimit = (if mf_Limit f \<le> 0 then 50 else mf_Limit f)\<rparr>"

definition ListMessages :: "MessageFilter \<Rightarrow> (store_error, (EmailMessage \<times> string option \<times> string option) list) result prog" where
  "ListMessages f = orelse (exec (\<lambda>now uid. Queries_ListEmailMessages (list_params f))) store_wrap (\<lambda>rows. ret (Inr rows))"

definition GetAdminMessage :: "uuid \<Rightarrow> (store_error, EmailMessage \<times> string option \<times> string option) result prog" where
  "GetAdminMessage i = orelse (exec (\<lambda>now uid. Queries_GetAdminEmailMessage i)) store_wrap (\<lambda>row. ret (Inr row))"

record PatternTestResult =
  ptr_Address :: string
  ptr_Allowed :: bool
  ptr_MatchedPattern :: string
  ptr_Patterns :: "string list"
  ptr_RoutableDomain :: bool
  ptr_BackendName :: string

definition TestPattern :: "Store \<Rightarrow> uuid \<Rightarrow> string \<Rightarrow> (store_error, PatternTestResult) result prog" where
  "TestPattern s credentialID address =
     orelse (LoadCredential s credentialID) (\<lambda>e. e)
       (\<lambda>auth. case ParseAddress (st_idna s) address of
          Inl e \<Rightarrow> ret (Inl (ErrAddress e))
        | Inr addr \<Rightarrow>
            do { route \<leftarrow> ResolveSender s (addr_Domain addr);
                 let result = \<lparr>ptr_Address = Address_String addr, ptr_Allowed = Match (ac_Patterns auth) addr \<noteq> None,
                               ptr_MatchedPattern = (case Match (ac_Patterns auth) addr of None \<Rightarrow> [] | Some m \<Rightarrow> Pattern_String m),
                               ptr_Patterns = map Pattern_String (ac_Patterns auth), ptr_RoutableDomain = False, ptr_BackendName = []\<rparr> in
                 case route of
                   Inr rt \<Rightarrow> ret (Inr (result\<lparr>ptr_RoutableDomain := True, ptr_BackendName := sr_BackendName rt\<rparr>))
                 | Inl e \<Rightarrow> if isNotFound e then ret (Inr result) else ret (Inl e) })"

record RecipientTestResult =
  rtr_Address :: string
  rtr_Allowed :: bool
  rtr_Restricted :: bool
  rtr_MatchedPattern :: string
  rtr_Patterns :: "string list"

definition TestRecipient :: "Store \<Rightarrow> uuid \<Rightarrow> string \<Rightarrow> (store_error, RecipientTestResult) result prog" where
  "TestRecipient s credentialID address =
     orelse (LoadCredential s credentialID) (\<lambda>e. e)
       (\<lambda>auth. ret (case ParseAddress (st_idna s) address of
          Inl e \<Rightarrow> Inl (ErrAddress e)
        | Inr addr \<Rightarrow> Inr \<lparr>rtr_Address = Address_String addr, rtr_Allowed = RecipientRules_Allows (ac_Recipients auth) addr,
              rtr_Restricted = Restricted (ac_Recipients auth),
              rtr_MatchedPattern = (case MatchedBy (ac_Recipients auth) addr of None \<Rightarrow> [] | Some m \<Rightarrow> Pattern_String m),
              rtr_Patterns = RecipientRules_Strings (ac_Recipients auth)\<rparr>))"

section \<open>Every operation is audited\<close>

text \<open>An enqueue function that only adds the job, and on an error at most jobs.\<close>

definition adds_jobs :: "(uuid \<Rightarrow> (pg_error, unit) result prog) \<Rightarrow> bool" where
  "adds_jobs enq \<longleftrightarrow> (\<forall>i w. case run_state (enq i) w of (r, w') \<Rightarrow> peers w' = peers w \<and> clock w' = clock w \<and>
     (case r of Inr _ \<Rightarrow> tables w' = (tables w)\<lparr>db_jobs := db_jobs (tables w) @ [i]\<rparr> | Inl _ \<Rightarrow> True) \<and>
     (\<exists>js. tables w' = (tables w)\<lparr>db_jobs := js\<rparr>))"

lemma enqueue_obeys: "adds_jobs enq \<Longrightarrow> au.obeys_tx lower (enq i)"
  by (fastforce simp: adds_jobs_def au.obeys_tx_def split: prod.splits)

lemma InsertQueuedMessage_obeys:
  assumes "adds_jobs enq"
  shows "au.obeys (st_lower s) (InsertQueuedMessage s p payload (Some enq))"
proof -
  have "au.obeys_tx (st_lower s) (enq i)" for i by (rule enqueue_obeys [OF assms])
  then show ?thesis
    unfolding InsertQueuedMessage_def insert_queued_tx_def by (auto intro!: au.obeys_rules audits)
qed

lemma email_ops_obey:
  "au.obeys (st_lower s) (InsertRejectedMessage s rp)" "au.obeys (st_lower s) (MarkSending s i)" "au.obeys (st_lower s) (MarkSent s i)"
  "au.obeys (st_lower s) (MarkSentPartial s i c d)" "au.obeys (st_lower s) (MarkFailed s i c d)"
  "au.obeys (st_lower s) (MarkRetrying s i c d)" "au.obeys (st_lower s) (PurgePayloads a b)"
  unfolding InsertRejectedMessage_def MarkSending_def MarkSent_def MarkSentPartial_def MarkFailed_def MarkRetrying_def PurgePayloads_def
  by (auto intro!: au.obeys_rules audits)

lemma email_reads_obey:
  "au.obeys lower (GetMessage i)" "au.obeys lower (FindByIdempotencyKey i k ttl)" "au.obeys lower (GetPayload i)"
  "au.obeys lower (RouteForMessage s msg)"
  unfolding GetMessage_def FindByIdempotencyKey_def GetPayload_def RouteForMessage_def
  by (auto intro!: au.obeys_rules split: sum.splits option.splits)

section \<open>Accepting a message\<close>

definition accepted :: "NewMessageParams \<Rightarrow> string \<Rightarrow> timestamp \<Rightarrow> db \<Rightarrow> db \<Rightarrow> EmailMessage \<Rightarrow> bool" where
  "accepted p payload now d d' row \<longleftrightarrow>
     (\<exists>uid. row = new_message (queued_row p) None now uid \<and> msg_ID row \<notin> message_ids d \<and>
        d' = d\<lparr>db_messages := db_messages d @ [row],
               db_payloads := db_payloads d @ [\<lparr>pay_EmailMessageID = msg_ID row, pay_Raw = payload, pay_CreatedAt = now\<rparr>],
               db_jobs := db_jobs d @ [msg_ID row]\<rparr>)"

lemma InsertEmailMessage_Inr:
  assumes "Queries_InsertEmailMessage lower arg now uid d = (Inr row, d')"
  shows "row = new_message arg None now uid" "d' = d\<lparr>db_messages := db_messages d @ [row]\<rparr>" "msg_ID row \<notin> message_ids d"
    "table_ok (db_message_schema lower d) (db_messages d) \<Longrightarrow> table_ok (db_message_schema lower d) (db_messages d')"
proof -
  let ?row = "new_message arg None now uid"
  from assms obtain t where t: "insert_row (db_message_schema lower d) ?row (db_messages d) = Inr t"
    "row = ?row" "d' = d\<lparr>db_messages := t\<rparr>"
    by (auto simp: Queries_InsertEmailMessage_def wrote_def Let_def split: sum.splits)
  show "row = ?row" "d' = d\<lparr>db_messages := db_messages d @ [row]\<rparr>" using t insert_row_Inr(1) [OF t(1)] by simp_all
  show "msg_ID row \<notin> message_ids d"
    using t(1,2) by (auto simp: insert_row_def write_rows_Inr collided_None db_message_schema_def message_schema_def sorted_wrt_append)
  show "table_ok (db_message_schema lower d) (db_messages d) \<Longrightarrow> table_ok (db_message_schema lower d) (db_messages d')"
    using insert_row_Inr(2) [OF t(1)] t(3) by simp
qed

lemma insert_queued_tx_Inr:
  assumes "run_state (insert_queued_tx s p payload (Some enq)) w = (Inr row, w')" "adds_jobs enq"
  shows "accepted p payload (clock w) (tables w) (tables w') row"
proof -
  obtain w1 w2 u where i: "run_state (exec_tx (Queries_InsertEmailMessage (st_lower s) (queued_row p))) w = (Inr row, w1)"
    and y: "run_state (exec_tx (\<lambda>now uid. Queries_InsertEmailPayload (msg_ID row) payload now)) w1 = (Inr (), w2)"
    and e: "run_state (enq (msg_ID row)) w2 = (Inr u, w')"
    using assms(1) unfolding insert_queued_tx_def by (force elim!: orelse_Inr)
  note im = InsertEmailMessage_Inr [OF exec_tx_Inr(1) [OF i]]
  have y': "tables w2 = (tables w1)\<lparr>db_payloads := db_payloads (tables w1) @
      [\<lparr>pay_EmailMessageID = msg_ID row, pay_Raw = payload, pay_CreatedAt = clock w1\<rparr>]\<rparr>"
    using exec_tx_Inr(1) [OF y]
    by (auto simp: Queries_InsertEmailPayload_def wrote_def split: sum.splits dest!: insert_row_Inr(1))
  have e': "tables w' = (tables w2)\<lparr>db_jobs := db_jobs (tables w2) @ [msg_ID row]\<rparr>"
    using assms(2) e by (auto simp: adds_jobs_def split: prod.splits sum.splits)
  show ?thesis
    using im(1-3) y' e' exec_tx_Inr(2) [OF i] by (auto simp: accepted_def)
qed

lemma insert_queued_outcome:
  assumes "adds_jobs enq" "peers w = []" "run_state (InsertQueuedMessage s p payload (Some enq)) w = (r, w')"
  shows "case r of
      Inr row \<Rightarrow> accepted p payload (clock w) (tables w) (tables w') row
    | Inl e \<Rightarrow> tables w' = tables w \<or> (e = classify connection_error \<and> (\<exists>row. accepted p payload (clock w) (tables w) (tables w') row))"
proof (cases "nmp_EnvelopeRecipients p = [] \<or> payload = []")
  case True
  with assms(3) show ?thesis by (auto simp: InsertQueuedMessage_def split: if_splits)
next
  case False
  obtain t w1 where t: "run_state (withTx (insert_queued_tx s p payload (Some enq))) w = (t, w1)" by fastforce
  have r: "w' = w1" "r = (case t of Inl e \<Rightarrow> Inl (store_wrap e) | Inr row \<Rightarrow> Inr row)"
    using assms(3) False t by (auto simp: InsertQueuedMessage_def orelse_run split: sum.splits)
  have i: "interfere w = tables w" using assms(2) by (simp add: interfere_def)
  from t show ?thesis
  proof (cases rule: withTx_cases)
    case (kept e)
    with r i show ?thesis by simp
  next
    case (committed row w2)
    from insert_queued_tx_Inr [OF committed(1) assms(1)] committed(2,3) r i show ?thesis
      by (auto simp: store_wrap_def)
  qed
qed

text \<open>
  C2: Accepting a message is all or nothing, whatever the network does. On success the database has exactly one
  new message, queued, with a fresh id and the data of the submission, its payload, and one delivery job for
  it. On an error nothing changed, unless the error is a lost connection, after which either nothing changed or all three are there: never
  a message without its job or a job without its message.
\<close>

theorem insert_queued_atomic:
  assumes "adds_jobs enq" "peers w = []" "run_state (InsertQueuedMessage s p payload (Some enq)) w = (r, w')"
  shows "case r of
      Inr row \<Rightarrow> accepted p payload (clock w) (tables w) (tables w') row
    | Inl e \<Rightarrow> tables w' = tables w \<or> (e = classify connection_error \<and> (\<exists>row. accepted p payload (clock w) (tables w) (tables w') row))"
  by (rule insert_queued_outcome [OF assms])

section \<open>Refusing a message\<close>

definition unpaid :: "db \<Rightarrow> uuid \<Rightarrow> bool" where
  "unpaid d i \<longleftrightarrow> (\<forall>y \<in> set (db_payloads d). pay_EmailMessageID y \<noteq> i)"

text \<open>
  A refused submission is recorded without its content. When a rejection is stored, the row is new, has the status
  \<^verbatim>\<open>rejected\<close> and the reason given, names no backend and carries no idempotency key, no payload and no job exist for it, and nothing else
  changed in the database.
\<close>

theorem rejection_stores_no_content:
  assumes "db_inv (st_lower s) (tables w)" "peers w = []" "run_state (InsertRejectedMessage s p) w = (Inr row, w')"
  shows "msg_Status row = StatusRejected \<and> msg_RejectionReason row = Some (rmp_Reason p) \<and> msg_SmtpBackendID row = None \<and>
    msg_IdempotencyKey row = None \<and> msg_FromAddr row = rmp_FromAddr p \<and> msg_ID row \<notin> message_ids (tables w) \<and>
    unpaid (tables w') (msg_ID row) \<and> tables w' = (tables w)\<lparr>db_messages := db_messages (tables w) @ [row]\<rparr>"
proof -
  let ?row = "new_message ((rejected_row p)\<lparr>iem_Status := ''rejected'', iem_SmtpBackendID := None, iem_IdempotencyKey := None\<rparr>)
    (Some (rmp_Reason p)) (clock w) (draw_id w)"
  from assms(2,3) obtain t where t: "insert_row (db_message_schema (st_lower s) (tables w)) ?row (db_messages (tables w)) = Inr t"
    "row = ?row" "tables w' = (tables w)\<lparr>db_messages := t\<rparr>"
    by (auto simp: InsertRejectedMessage_def run_exec interfere_def Queries_InsertRejectedEmailMessage_def wrote_def Let_def
        split: if_splits sum.splits prod.splits net_event.splits elim!: orelse_Inr)
  have new: "msg_ID row \<notin> message_ids (tables w)"
    using t(1,2) by (auto simp: insert_row_def write_rows_Inr collided_None db_message_schema_def message_schema_def sorted_wrt_append)
  have "pay_EmailMessageID y \<in> message_ids (tables w)" if "y \<in> set (db_payloads (tables w))" for y
    using assms(1) that by (auto simp: db_inv_def table_ok_iff payload_schema_def list_all_iff)
  then have "unpaid (tables w') (msg_ID row)" using new t(3) unfolding unpaid_def by (metis (no_types, lifting) db.select_convs(7) db.surjective db.update_convs(6))
  then show ?thesis using new t insert_row_Inr(1) [OF t(1)] by (simp add: new_message_def rejected_row_def)
qed

section \<open>The life of a message\<close>

text \<open>
  The transitions of the status column: a claim, a delivery, a permanent failure, a failure to retry. \<^verbatim>\<open>sent\<close> and
  \<^verbatim>\<open>rejected\<close> have no way out.
\<close>

inductive status_step :: "string \<Rightarrow> string \<Rightarrow> bool" where
  claim: "st \<in> {StatusQueued, StatusSending} \<Longrightarrow> status_step st StatusSending"
| deliver: "st \<in> {StatusQueued, StatusSending, StatusFailed} \<Longrightarrow> status_step st StatusSent"
| fail: "st \<in> {StatusQueued, StatusSending, StatusFailed} \<Longrightarrow> status_step st StatusFailed"
| retry: "st \<in> {StatusQueued, StatusSending, StatusFailed} \<Longrightarrow> status_step st StatusQueued"

inductive_cases status_stepE: "status_step a b"

lemmas status_step_intros = status_step.intros [simplified]

lemma status_terminal: "status_step\<^sup>*\<^sup>* a b \<Longrightarrow> a \<in> {StatusSent, StatusRejected} \<Longrightarrow> b = a"
  by (induction rule: rtranclp_induct) (auto elim: status_stepE)

datatype mark =
    MarkingSending
  | MarkingSent
  | MarkingSentPartial string string
  | MarkingFailed string string
  | MarkingRetrying string string

definition run_mark :: "Store \<Rightarrow> mark \<times> uuid \<Rightarrow> unit prog" where
  "run_mark s mi =
     (case mi of
        (MarkingSending, i) \<Rightarrow> do { _ \<leftarrow> MarkSending s i; ret () }
      | (MarkingSent, i) \<Rightarrow> do { _ \<leftarrow> MarkSent s i; ret () }
      | (MarkingSentPartial c d, i) \<Rightarrow> do { _ \<leftarrow> MarkSentPartial s i c d; ret () }
      | (MarkingFailed c d, i) \<Rightarrow> do { _ \<leftarrow> MarkFailed s i c d; ret () }
      | (MarkingRetrying c d, i) \<Rightarrow> do { _ \<leftarrow> MarkRetrying s i c d; ret () })"

primrec run_marks :: "Store \<Rightarrow> (mark \<times> uuid) list \<Rightarrow> unit prog" where
  "run_marks s [] = ret ()"
| "run_marks s (mi # ms) = do { _ \<leftarrow> run_mark s mi; run_marks s ms }"

text \<open>Every message keeps its place in the table, and its status moves along the transitions.\<close>

definition statuses_step :: "(string \<Rightarrow> string) \<Rightarrow> db \<Rightarrow> db \<Rightarrow> bool" where
  "statuses_step lower d d' \<longleftrightarrow> (db_inv lower d \<longrightarrow> db_inv lower d' \<and>
     list_all2 (\<lambda>m m'. msg_ID m' = msg_ID m \<and> status_step\<^sup>*\<^sup>* (msg_Status m) (msg_Status m')) (db_messages d) (db_messages d'))"

interpretation ms: db_order "statuses_step lower" for lower
proof unfold_locales
  show "statuses_step lower d d" for d by (simp add: statuses_step_def list_all2_same)
  fix d e f assume a: "statuses_step lower d e" "statuses_step lower e f"
  let ?P = "\<lambda>m m'. msg_ID m' = msg_ID m \<and> status_step\<^sup>*\<^sup>* (msg_Status m) (msg_Status m')"
  have "list_all2 ?P xs zs" if "list_all2 ?P xs ys" "list_all2 ?P ys zs" for xs ys zs
    by (rule list_all2_trans [OF _ that]) (auto elim: rtranclp_trans)
  with a show "statuses_step lower d f" unfolding statuses_step_def by blast
qed

lemma message_status_known:
  assumes "db_inv lower d" "m \<in> set (db_messages d)"
  shows "msg_Status m \<in> {StatusQueued, StatusSending, StatusSent, StatusFailed, StatusRejected}"
    "msg_Status m = StatusRejected \<longleftrightarrow> msg_RejectionReason m \<noteq> None"
  using assms by (auto simp: db_inv_def table_ok_iff message_schema_def list_all_iff)

lemma update_messages_steps:
  assumes "\<And>m. p m \<Longrightarrow> msg_ID (f m) = msg_ID m \<and> msg_RejectionReason (f m) = msg_RejectionReason m"
    and "\<And>m. p m \<Longrightarrow> evolves m ((f m)\<lparr>msg_UpdatedAt := now\<rparr>)"
    and "\<And>m. p m \<Longrightarrow> msg_Status m \<in> {StatusQueued, StatusSending, StatusFailed} \<Longrightarrow> status_step (msg_Status m) (msg_Status (f m))"
    and "\<And>m. p m \<Longrightarrow> msg_Status m \<noteq> StatusSent" "\<And>m. p m \<Longrightarrow> msg_Status (f m) \<noteq> StatusRejected"
  shows "statuses_step lower d (snd (update_messages lower p f now d))"
  unfolding statuses_step_def
proof (intro impI conjI)
  let ?d = "snd (update_messages lower p f now d)"
  let ?h = "\<lambda>m. if p m then (f m)\<lparr>msg_UpdatedAt := now\<rparr> else m"
  assume inv: "db_inv lower d"
  show inv': "db_inv lower ?d" using audited_update_messages [OF assms(2)] inv by (simp add: audited_def)
  have "db_messages ?d = db_messages d \<or> db_messages ?d = map ?h (db_messages d)"
    by (auto simp: update_messages_def wrote_def split: sum.splits dest!: update_rows_Inr(1))
  then show "list_all2 (\<lambda>m m'. msg_ID m' = msg_ID m \<and> status_step\<^sup>*\<^sup>* (msg_Status m) (msg_Status m')) (db_messages d) (db_messages ?d)"
  proof
    assume e: "db_messages ?d = map ?h (db_messages d)"
    have "msg_ID (?h m) = msg_ID m \<and> status_step\<^sup>*\<^sup>* (msg_Status m) (msg_Status (?h m))" if m: "m \<in> set (db_messages d)" for m
    proof (cases "p m")
      case True
      have "?h m \<in> set (db_messages ?d)" using m unfolding e by simp
      from message_status_known(2) [OF inv' this] message_status_known [OF inv m] assms(1,3,4,5) [OF True] True
      show ?thesis by auto
    qed simp
    then show ?thesis unfolding e by (simp add: list_all2_map2 list_all2_same)
  qed (simp add: list_all2_same)
qed

lemma mark_steps:
  "statuses_step lower d (snd (Queries_MarkEmailSending lower i now d))"
  "statuses_step lower d (snd (Queries_MarkEmailSent lower i now d))"
  "statuses_step lower d (snd (Queries_MarkEmailFailed lower i c t now d))"
  "statuses_step lower d (snd (Queries_MarkEmailRetrying lower i c t now d))"
  "statuses_step lower d (snd (Queries_MarkEmailSentPartial lower i c t now d))"
  subgoal unfolding Queries_MarkEmailSending_def Let_def
    by (auto intro!: update_messages_steps ms.R_refl simp: evolves_def intro: status_step_intros)
  subgoal unfolding Queries_MarkEmailSent_def by (rule update_messages_steps) (auto simp: evolves_def intro: status_step_intros)
  subgoal unfolding Queries_MarkEmailFailed_def by (rule update_messages_steps) (auto simp: evolves_def intro: status_step_intros)
  subgoal unfolding Queries_MarkEmailRetrying_def by (rule update_messages_steps) (auto simp: evolves_def intro: status_step_intros)
  subgoal unfolding Queries_MarkEmailSentPartial_def by (rule update_messages_steps) (auto simp: evolves_def intro: status_step_intros)
  done

lemma run_marks_obey: "ms.obeys (st_lower s) (run_marks s ms)"
proof -
  have "ms.obeys (st_lower s) (run_mark s mi)" for mi
    unfolding run_mark_def MarkSending_def MarkSent_def MarkSentPartial_def MarkFailed_def MarkRetrying_def
    by (auto intro!: ms.obeys_rules mark_steps split: prod.splits mark.splits)
  then show ?thesis by (induction ms) (auto intro!: ms.obeys_rules)
qed


section \<open>Claims\<close>

lemma update_messages_succeeds:
  assumes "db_inv lower d"
    and same: "\<And>m. p m \<Longrightarrow> msg_ID (f m) = msg_ID m \<and> msg_CredentialID (f m) = msg_CredentialID m \<and>
      msg_IdempotencyKey (f m) = msg_IdempotencyKey m \<and> msg_SmtpBackendID (f m) = msg_SmtpBackendID m"
    and checked: "\<And>m n c. m \<in> set (db_messages d) \<Longrightarrow> p m \<Longrightarrow> (n, c) \<in> set (checks (db_message_schema lower d)) \<Longrightarrow>
      c ((f m)\<lparr>msg_UpdatedAt := now\<rparr>)"
  shows "update_messages lower p f now d =
    (Inr (affected p (db_messages d)), d\<lparr>db_messages := map (\<lambda>m. if p m then (f m)\<lparr>msg_UpdatedAt := now\<rparr> else m) (db_messages d)\<rparr>)"
proof -
  define g where "g m = (f m)\<lparr>msg_UpdatedAt := now\<rparr>" for m
  define h where "h m = (if p m then g m else m)" for m
  let ?S = "db_message_schema lower d"
  have ok: "table_ok ?S (db_messages d)" using assms(1) by (simp add: db_inv_def db_message_schema_def)
  have "violated (checks ?S) (map g (filter p (db_messages d))) = None"
    using checked by (fastforce simp: violated_None list_all_iff g_def)
  moreover have "collided (uniques ?S) (map h (db_messages d)) = None"
  proof -
    have "msg_ID (h m) = msg_ID m" "msg_CredentialID (h m) = msg_CredentialID m" "msg_IdempotencyKey (h m) = msg_IdempotencyKey m" for m
      using same by (auto simp: h_def g_def)
    then show ?thesis using ok by (simp add: table_ok_iff collided_None db_message_schema_def message_schema_def sorted_wrt_map)
  qed
  moreover have "violated (fkeys ?S) (map g (filter p (db_messages d))) = None"
    using ok same by (auto simp: table_ok_iff violated_None list_all_iff g_def db_message_schema_def message_schema_def)
  ultimately show ?thesis
    unfolding update_messages_def update_rows_def wrote_def g_def [symmetric] h_def [symmetric] by (simp add: write_rows_def)
qed

lemma message_checks:
  assumes "db_inv lower d" "m \<in> set (db_messages d)"
  shows "0 \<le> msg_AttemptCount m" "msg_FromDomain m = lower (msg_FromDomain m)" "msg_Facade m \<in> {FacadeREST, FacadeSMTP}"
    "msg_Status m = StatusRejected \<or> msg_EnvelopeRecipients m \<noteq> []" "0 \<le> msg_SizeBytes m"
    "\<forall>k \<in> set_option (msg_IdempotencyKey m). 1 \<le> length k \<and> length k \<le> 255"
    "(msg_Status m = StatusRejected) = (msg_RejectionReason m \<noteq> None)"
proof -
  have ok: "table_ok (db_message_schema lower d) (db_messages d)" using assms(1) by (simp add: db_inv_def db_message_schema_def)
  have c: "c m" if "(n, c) \<in> set (checks (db_message_schema lower d))" for n c
    by (rule table_ok_check [OF ok that assms(2)])
  note s = db_message_schema_def message_schema_def
  show "0 \<le> msg_AttemptCount m" by (rule c [of "''email_message_attempts''"]) (simp add: s)
  show "msg_FromDomain m = lower (msg_FromDomain m)" by (rule c [of "''email_message_domain_case''"]) (simp add: s)
  show "msg_Facade m \<in> {FacadeREST, FacadeSMTP}" by (rule c [of "''email_message_facade''"]) (simp add: s)
  show "msg_Status m = StatusRejected \<or> msg_EnvelopeRecipients m \<noteq> []" by (rule c [of "''email_message_has_recipients''"]) (simp add: s)
  show "0 \<le> msg_SizeBytes m" by (rule c [of "''email_message_size''"]) (simp add: s)
  show "\<forall>k \<in> set_option (msg_IdempotencyKey m). 1 \<le> length k \<and> length k \<le> 255"
    by (rule c [of "''email_message_idempotency_length''"]) (simp add: s)
  show "(msg_Status m = StatusRejected) = (msg_RejectionReason m \<noteq> None)" by (rule c [of "''email_message_rejection''"]) (simp add: s)
qed

lemma message_checksI:
  assumes "0 \<le> msg_AttemptCount r" "msg_FromDomain r = lower (msg_FromDomain r)" "msg_Facade r \<in> {FacadeREST, FacadeSMTP}"
    "msg_Status r = StatusRejected \<or> msg_EnvelopeRecipients r \<noteq> []"
    "\<forall>k \<in> set_option (msg_IdempotencyKey r). 1 \<le> length k \<and> length k \<le> 255"
    "(msg_Status r = StatusRejected) = (msg_RejectionReason r \<noteq> None)" "msg_Status r \<noteq> StatusSent \<or> msg_SentAt r \<noteq> None"
    "0 \<le> msg_SizeBytes r" "msg_Status r \<in> {StatusQueued, StatusSending, StatusSent, StatusFailed, StatusRejected}"
    and "(n, c) \<in> set (checks (db_message_schema lower d))"
  shows "c r"
proof -
  have "list_all (\<lambda>(n, c). c r) (checks (db_message_schema lower d))"
    unfolding db_message_schema_def message_schema_def schema.select_convs list.pred_inject(2) prod.case
    by (intro conjI assms(1-9)) simp
  with assms(10) show ?thesis unfolding list_all_iff by fast
qed

lemma MarkEmailSending_succeeds:
  assumes "db_inv lower d" "\<forall>m \<in> set (db_messages d). msg_AttemptCount m < 2147483647"
  shows "Queries_MarkEmailSending lower i now d =
    (Inr (affected (\<lambda>m. msg_ID m = i \<and> msg_Status m \<in> {StatusQueued, StatusSending}) (db_messages d)),
     d\<lparr>db_messages := map (\<lambda>m. if msg_ID m = i \<and> msg_Status m \<in> {StatusQueued, StatusSending}
        then m\<lparr>msg_Status := StatusSending, msg_AttemptCount := msg_AttemptCount m + 1, msg_ErrorCode := None, msg_ErrorDetail := None,
               msg_UpdatedAt := now\<rparr> else m) (db_messages d)\<rparr>)"
proof -
  have "\<not> (\<exists>m \<in> set (db_messages d). (msg_ID m = i \<and> msg_Status m \<in> {''queued'', ''sending''}) \<and> 2147483647 \<le> msg_AttemptCount m)"
    using assms(2) by force
  then show ?thesis
    unfolding Queries_MarkEmailSending_def Let_def
    apply simp
    apply (subst update_messages_succeeds [OF assms(1)])
    subgoal by simp
    subgoal for m n c using message_checks [OF assms(1), of m] by (intro message_checksI [where n = n and c = c and lower = lower and d = d]) auto
    subgoal by (simp cong: if_cong)
    done
qed

text \<open>
  A claim counts the attempts. In a world without failures, claiming a message for delivery reports success exactly when its status is
  \<^verbatim>\<open>queued\<close> or \<^verbatim>\<open>sending\<close>; it then sets the status \<^verbatim>\<open>sending\<close>, clears the last error and adds one to the attempts, also
  when the message was claimed before; any other message is left as it is.
\<close>

theorem claim_counts_attempts:
  assumes "quiet w" "db_inv (st_lower s) (tables w)" "\<forall>m \<in> set (db_messages (tables w)). msg_AttemptCount m < 2147483647"
    and "m \<in> set (db_messages (tables w))" "run_state (MarkSending s (msg_ID m)) w = (r, w')"
  shows "r = Inr (msg_Status m \<in> {StatusQueued, StatusSending}) \<and>
    db_messages (tables w') = map (\<lambda>x. if x = m \<and> msg_Status m \<in> {StatusQueued, StatusSending}
      then m\<lparr>msg_Status := StatusSending, msg_AttemptCount := msg_AttemptCount m + 1, msg_ErrorCode := None, msg_ErrorDetail := None,
             msg_UpdatedAt := clock w\<rparr> else x) (db_messages (tables w))"
proof -
  let ?p = "\<lambda>x. msg_ID x = msg_ID m \<and> msg_Status x \<in> {StatusQueued, StatusSending}"
  have "distinct (map msg_ID (db_messages (tables w)))"
    using assms(2) by (simp add: db_inv_def table_ok_iff message_schema_def distinct_sorted_wrt)
  then have only: "x = m" if "x \<in> set (db_messages (tables w))" "msg_ID x = msg_ID m" for x
    using that assms(4) by (auto simp: distinct_map inj_on_def)
  have "(affected ?p (db_messages (tables w)) > 0) = (msg_Status m \<in> {StatusQueued, StatusSending})"
    using only assms(4) by (auto simp: affected_def filter_empty_conv)
  moreover have "db_messages (tables w') = map (\<lambda>x. if ?p x
      then x\<lparr>msg_Status := StatusSending, msg_AttemptCount := msg_AttemptCount x + 1, msg_ErrorCode := None, msg_ErrorDetail := None,
             msg_UpdatedAt := clock w\<rparr> else x) (db_messages (tables w))"
    "r = Inr (affected ?p (db_messages (tables w)) > 0)"
    using assms(5) MarkEmailSending_succeeds [OF assms(2,3), of "msg_ID m" "clock w"] assms(1)
    by (auto simp: MarkSending_def orelse_run run_exec_quiet)
  ultimately show ?thesis
    using only by (auto intro!: map_cong)
qed

text \<open>One statement of the store, without other sessions.\<close>

lemma alone_op:
  assumes "peers w = []" "run_state (orelse (exec q) store_wrap (\<lambda>x. ret (Inr (f x)))) w = (r, w')"
  shows "peers w' = []" "tables w' = tables w \<or> tables w' = snd (q (clock w) (draw_id w) (tables w))"
    "r = Inr y \<Longrightarrow> \<exists>x. y = f x \<and> fst (q (clock w) (draw_id w) (tables w)) = Inr x \<and> tables w' = snd (q (clock w) (draw_id w) (tables w))"
proof -
  obtain t w1 where t: "run_state (exec q) w = (t, w1)" by fastforce
  have r: "w' = w1" "r = (case t of Inl e \<Rightarrow> Inl (store_wrap e) | Inr x \<Rightarrow> Inr (f x))"
    using assms(2) t by (auto simp: orelse_run split: sum.splits)
  note a = alone_exec [OF assms(1) t]
  show "peers w' = []" "tables w' = tables w \<or> tables w' = snd (q (clock w) (draw_id w) (tables w))"
    "r = Inr y \<Longrightarrow> \<exists>x. y = f x \<and> fst (q (clock w) (draw_id w) (tables w)) = Inr x \<and> tables w' = snd (q (clock w) (draw_id w) (tables w))"
    using a r by (auto split: sum.splits)
qed

lemma GetMessage_alone:
  assumes "peers w = []" "run_state (GetMessage i) w = (r, w')"
  shows "tables w' = tables w \<and> peers w' = []" "r = Inr m \<Longrightarrow> m \<in> set (db_messages (tables w)) \<and> msg_ID m = i"
  using alone_op [OF assms(1) assms(2) [unfolded GetMessage_def]]
  by (auto simp: Queries_GetEmailMessage_def one_row_def split: option.splits dest!: find_SomeD)

section \<open>Witnesses\<close>

definition job_table_enqueue :: "uuid \<Rightarrow> (pg_error, unit) result prog" where
  "job_table_enqueue i = exec_tx (\<lambda>now uid d. (Inr (), d\<lparr>db_jobs := db_jobs d @ [i]\<rparr>))"

lemma same_jobs: "\<exists>js. d = d\<lparr>db_jobs := js\<rparr>" for d :: db
  by (rule exI [of _ "db_jobs d"]) simp

lemma job_table_enqueue_adds: "adds_jobs job_table_enqueue"
  by (auto simp: adds_jobs_def job_table_enqueue_def run_exec_tx same_jobs split: net_event.splits prod.splits)

definition mail_db :: db where
  "mail_db = cred_db\<lparr>db_backends := [demo_backend], db_domains := demo_domains\<rparr>"

definition mail_world :: world where "mail_world = demo_world\<lparr>tables := mail_db\<rparr>"

lemma mail_db_inv: "db_inv (st_lower demo_store) mail_db"
  by code_simp

lemma mail_world_facts [simp]: "quiet mail_world" "peers mail_world = []" "tables mail_world = mail_db"
  by (simp_all add: mail_world_def demo_world_def quiet_def)

definition demo_message :: NewMessageParams where
  "demo_message = \<lparr>nmp_CredentialID = 11, nmp_Facade = ''rest'', nmp_FromAddr = ''bob@example.com'', nmp_FromDomain = ''example.com'',
     nmp_To = [''eve@mail.example.org''], nmp_Cc = [], nmp_Bcc = [], nmp_EnvelopeRecipients = [''eve@mail.example.org''],
     nmp_Subject = ''hi'', nmp_MessageID = ''1@relais'', nmp_SizeBytes = 5, nmp_BackendID = 21, nmp_IdempotencyKey = ''k1'',
     nmp_RemoteIP = None\<rparr>"

lemma demo_insert: "isl (fst (run_state (InsertQueuedMessage demo_store demo_message ''hello'' (Some job_table_enqueue)) mail_world)) = False"
  by code_simp

theorem insert_queued_atomic_witness:
  "\<exists>row w'. run_state (InsertQueuedMessage demo_store demo_message ''hello'' (Some job_table_enqueue)) mail_world = (Inr row, w') \<and>
     accepted demo_message ''hello'' (clock mail_world) mail_db (tables w') row"
proof -
  obtain row w' where r: "run_state (InsertQueuedMessage demo_store demo_message ''hello'' (Some job_table_enqueue)) mail_world = (Inr row, w')"
    using not_isl [OF demo_insert] by (metis run_pair)
  from insert_queued_atomic [OF job_table_enqueue_adds _ r] r show ?thesis by auto
qed

definition demo_rejection :: RejectedMessageParams where
  "demo_rejection = \<lparr>rmp_CredentialID = 11, rmp_Facade = ''smtp'', rmp_Reason = ''sender_not_allowed'', rmp_FromAddr = ''ceo@bank.test'',
     rmp_FromDomain = ''bank.test'', rmp_To = [], rmp_Cc = [], rmp_Bcc = [], rmp_EnvelopeRecipients = [], rmp_Subject = [],
     rmp_MessageID = [], rmp_SizeBytes = 5, rmp_RemoteIP = None\<rparr>"

lemma demo_reject: "isl (fst (run_state (InsertRejectedMessage demo_store demo_rejection) mail_world)) = False"
  by code_simp

theorem rejection_stores_no_content_witness:
  "\<exists>row w'. run_state (InsertRejectedMessage demo_store demo_rejection) mail_world = (Inr row, w') \<and>
     msg_RejectionReason row = Some ''sender_not_allowed'' \<and> unpaid (tables w') (msg_ID row)"
proof -
  obtain row w' where r: "run_state (InsertRejectedMessage demo_store demo_rejection) mail_world = (Inr row, w')"
    using not_isl [OF demo_reject] by (metis run_pair)
  from rejection_stores_no_content [OF _ _ r] r show ?thesis using mail_db_inv by (auto simp: demo_rejection_def)
qed

definition demo_row :: EmailMessage where
  "demo_row = new_message (queued_row demo_message) None 900 41"

definition queued_world :: world where
  "queued_world = mail_world\<lparr>tables := mail_db\<lparr>db_messages := [demo_row], db_jobs := [41],
     db_payloads := [\<lparr>pay_EmailMessageID = 41, pay_Raw = ''hello'', pay_CreatedAt = 900\<rparr>]\<rparr>\<rparr>"

lemma queued_inv: "db_inv (st_lower demo_store) (tables queued_world)"
  by code_simp

lemma queued_world_facts [simp]: "quiet queued_world" "peers queued_world = []" "db_messages (tables queued_world) = [demo_row]"
  by (simp_all add: queued_world_def mail_world_def demo_world_def quiet_def)


theorem claim_counts_attempts_witness:
  "fst (run_state (MarkSending demo_store (msg_ID demo_row)) queued_world) = Inr True"
proof -
  obtain r w' where r: "run_state (MarkSending demo_store (msg_ID demo_row)) queued_world = (r, w')" by fastforce
  have "r = Inr (msg_Status demo_row \<in> {StatusQueued, StatusSending})"
    using claim_counts_attempts [OF _ queued_inv _ _ r] by (simp add: demo_row_def new_message_def)
  with r show ?thesis by (simp add: demo_row_def new_message_def queued_row_def)
qed

end
