(* ===== verification/Ingest.thy ===== *)
theory Ingest
  imports Mail_Norm Authn Store_Email
begin

text \<open>
  The one way into relais: \<^verbatim>\<open>src/internal/ingest/ingest.go\<close>. A submission is rate limited, looked up by its idempotency key, parsed,
  checked against the two allow-lists, routed and stored with its delivery job.

  The state is the world (\<^verbatim>\<open>World\<close>) and the table of token buckets (\<^verbatim>\<open>Rate_Limit\<close>), which is passed
  explicitly. The clock and the id generator of the service are the values they return during the submission; \<open>sv_uuid\<close> is the
  text of a UUID. Texts of errors and log lines are left out.
\<close>

section \<open>Types\<close>

definition ReasonSenderNotAllowed :: string where "ReasonSenderNotAllowed = ''sender_not_allowed''"
definition ReasonDomainNotConfigured :: string where "ReasonDomainNotConfigured = ''domain_not_configured''"
definition ReasonCredentialUnusable :: string where "ReasonCredentialUnusable = ''credential_unusable''"
definition ReasonRateLimited :: string where "ReasonRateLimited = ''rate_limited''"
definition ReasonNoRecipients :: string where "ReasonNoRecipients = ''no_recipients''"
definition ReasonTooManyRecipients :: string where "ReasonTooManyRecipients = ''too_many_recipients''"
definition ReasonInvalidRecipient :: string where "ReasonInvalidRecipient = ''invalid_recipient''"
definition ReasonRecipientNotAllowed :: string where "ReasonRecipientNotAllowed = ''recipient_not_allowed''"

record Rejection =
  rej_Reason :: string
  rej_MessageID :: uuid
  rej_Temporary :: bool

datatype submit_error = Refused Rejection | Internal store_error

definition AsRejection :: "submit_error \<Rightarrow> Rejection option" where
  "AsRejection e = (case e of Refused r \<Rightarrow> Some r | Internal _ \<Rightarrow> None)"

record Config =
  cfg_MaxMessageBytes :: int
  cfg_MaxHeaderCount :: int
  cfg_MaxHeaderBytes :: int
  cfg_MaxRecipients :: int
  cfg_DefaultRateLimitRPS :: rat
  cfg_DefaultRateLimitBurst :: int
  cfg_RejectedRateLimitRPS :: rat
  cfg_RejectedRateLimitBurst :: int
  cfg_IdempotencyTTL :: int

record ('l, 'h) Service =
  sv_store :: Store
  sv_enqueuer :: "uuid \<Rightarrow> (pg_error, unit) result prog"
  sv_cfg :: Config
  sv_rate :: "'l rate_lib"
  sv_mail :: "'h mail_lib"
  sv_uuid :: "uuid \<Rightarrow> string"
  sv_now :: int
  sv_newID :: string

text \<open>
  \<^verbatim>\<open>New\<close>: a missing store or enqueuer is an error; a missing limiter and out-of-range bounds get defaults. \<open>env\<close> has
  the remaining fields.
\<close>

definition ingest_New ::
    "Store option \<Rightarrow> (uuid \<Rightarrow> (pg_error, unit) result prog) option \<Rightarrow> 'l Limiter option \<Rightarrow> Config \<Rightarrow> ('l, 'h) Service \<Rightarrow>
     (string, ('l, 'h) Service \<times> 'l Limiter) result" where
  "ingest_New st enq lm cfg env =
     (case st of
        None \<Rightarrow> Inl ''ingest: a store is required''
      | Some s \<Rightarrow>
          (case enq of
             None \<Rightarrow> Inl ''ingest: an enqueuer is required''
           | Some e \<Rightarrow>
               Inr (env\<lparr>sv_store := s, sv_enqueuer := e,
                        sv_cfg := cfg\<lparr>cfg_MaxRecipients := (if cfg_MaxRecipients cfg \<le> 0 then 50 else cfg_MaxRecipients cfg),
                                      cfg_IdempotencyTTL := (if cfg_IdempotencyTTL cfg \<le> 0 then 24 * 3600 * nanos_per_second
                                                             else cfg_IdempotencyTTL cfg)\<rparr>\<rparr>,
                    case lm of None \<Rightarrow> ratelimit_New \<lparr>MaxEntries = 0, IdleTTL = 0\<rparr> | Some l \<Rightarrow> l)))"

record Request =
  rq_Credential :: AuthCredential
  rq_Facade :: string
  rq_Raw :: string
  rq_EnvelopeRecipients :: "string list"
  rq_DeclaredBcc :: "string list"
  rq_IdempotencyKey :: string
  rq_RemoteIP :: netip_Addr

record Result =
  res_ID :: uuid
  res_Status :: string
  res_RFCMessageID :: string
  res_Recipients :: "string list"
  res_BackendID :: uuid
  res_Duplicate :: bool

section \<open>Operations\<close>

definition refusal :: "string \<Rightarrow> Rejection" where
  "refusal reason = \<lparr>rej_Reason = reason, rej_MessageID = uuid_Nil, rej_Temporary = False\<rparr>"

definition derefUUID :: "uuid option \<Rightarrow> uuid" where
  "derefUUID i = (case i of None \<Rightarrow> uuid_Nil | Some u \<Rightarrow> u)"

definition replay :: "EmailMessage \<Rightarrow> Result" where
  "replay existing = \<lparr>res_ID = msg_ID existing, res_Status = msg_Status existing, res_RFCMessageID = msg_MessageID existing,
     res_Recipients = msg_EnvelopeRecipients existing, res_BackendID = derefUUID (msg_SmtpBackendID existing), res_Duplicate = True\<rparr>"

fun recipient_loop :: "idna_lib \<Rightarrow> RecipientRules \<Rightarrow> string list \<Rightarrow> string list \<Rightarrow> (Rejection, string list) result" where
  "recipient_loop x rules seen [] = Inr []"
| "recipient_loop x rules seen (raw # raws) =
     (case ParseAddress x raw of
        Inl e \<Rightarrow> Inl (refusal ReasonInvalidRecipient)
      | Inr addr \<Rightarrow>
          if \<not> RecipientRules_Allows rules addr then Inl (refusal ReasonRecipientNotAllowed)
          else let n = Address_String addr in
          if n \<in> set seen then recipient_loop x rules seen raws
          else (case recipient_loop x rules (n # seen) raws of Inl e \<Rightarrow> Inl e | Inr out \<Rightarrow> Inr (n # out)))"

definition validateRecipients :: "('l, 'h) Service \<Rightarrow> Request \<Rightarrow> (Rejection, string list) result" where
  "validateRecipients sv req =
     (if rq_EnvelopeRecipients req = [] then Inl (refusal ReasonNoRecipients)
      else if int (length (rq_EnvelopeRecipients req)) > cfg_MaxRecipients (sv_cfg sv) then Inl (refusal ReasonTooManyRecipients)
      else recipient_loop (st_idna (sv_store sv)) (ac_Recipients (rq_Credential req)) [] (rq_EnvelopeRecipients req))"

definition rejected_params :: "Request \<Rightarrow> Message \<Rightarrow> Rejection \<Rightarrow> RejectedMessageParams" where
  "rejected_params req msg rejection =
     \<lparr>rmp_CredentialID = cred_ID (ac_Credential (rq_Credential req)), rmp_Facade = rq_Facade req, rmp_Reason = rej_Reason rejection,
      rmp_FromAddr = Address_String (nm_From msg), rmp_FromDomain = addr_Domain (nm_From msg), rmp_To = nm_To msg, rmp_Cc = nm_Cc msg,
      rmp_Bcc = nm_Bcc msg, rmp_EnvelopeRecipients = rq_EnvelopeRecipients req, rmp_Subject = nm_Subject msg,
      rmp_MessageID = nm_MessageID msg, rmp_SizeBytes = int (length (rq_Raw req)), rmp_RemoteIP = rq_RemoteIP req\<rparr>"

definition ingest_reject ::
    "('l, 'h) Service \<Rightarrow> Request \<Rightarrow> Message \<Rightarrow> Rejection \<Rightarrow> 'l Limiter \<Rightarrow> ((submit_error, Result) result \<times> 'l Limiter) prog" where
  "ingest_reject sv req msg rejection lm =
     (let (allowed, lm') = Allow (sv_rate sv) lm (''rejected:'' @ sv_uuid sv (cred_ID (ac_Credential (rq_Credential req))))
                              (cfg_RejectedRateLimitRPS (sv_cfg sv)) (cfg_RejectedRateLimitBurst (sv_cfg sv)) (sv_now sv) in
      if \<not> allowed then ret (Inl (Refused rejection), lm')
      else do {
        r \<leftarrow> InsertRejectedMessage (sv_store sv) (rejected_params req msg rejection);
        ret (case r of
           Inl e \<Rightarrow> (Inl (Refused rejection), lm')
         | Inr row \<Rightarrow> (Inl (Refused (rejection\<lparr>rej_MessageID := msg_ID row\<rparr>)), lm')) })"

definition queued_params :: "Request \<Rightarrow> Message \<Rightarrow> string list \<Rightarrow> SenderRoute \<Rightarrow> NewMessageParams" where
  "queued_params req msg recipients route =
     \<lparr>nmp_CredentialID = cred_ID (ac_Credential (rq_Credential req)), nmp_Facade = rq_Facade req,
      nmp_FromAddr = Address_String (nm_From msg), nmp_FromDomain = addr_Domain (nm_From msg), nmp_To = nm_To msg, nmp_Cc = nm_Cc msg,
      nmp_Bcc = (if rq_DeclaredBcc req = [] then nm_Bcc msg else rq_DeclaredBcc req), nmp_EnvelopeRecipients = recipients,
      nmp_Subject = nm_Subject msg, nmp_MessageID = nm_MessageID msg, nmp_SizeBytes = nm_Size msg, nmp_BackendID = sr_BackendID route,
      nmp_IdempotencyKey = rq_IdempotencyKey req, nmp_RemoteIP = rq_RemoteIP req\<rparr>"

text \<open>The last part of \<^verbatim>\<open>Submit\<close>: store the message, answer a lost race for the key with the winner, note the use of the credential.\<close>

definition persist ::
    "('l, 'h) Service \<Rightarrow> Request \<Rightarrow> Message \<Rightarrow> string list \<Rightarrow> SenderRoute \<Rightarrow> (submit_error, Result) result prog" where
  "persist sv req msg recipients route =
     (let i = cred_ID (ac_Credential (rq_Credential req)) in do {
        r \<leftarrow> InsertQueuedMessage (sv_store sv) (queued_params req msg recipients route) (nm_Raw msg) (Some (sv_enqueuer sv));
        case r of
          Inl e \<Rightarrow>
            if rq_IdempotencyKey req \<noteq> [] \<and> ConstraintName e = ''email_message_idempotency_key''
            then do {
              f \<leftarrow> FindByIdempotencyKey i (rq_IdempotencyKey req) (cfg_IdempotencyTTL (sv_cfg sv));
              ret (case f of Inr existing \<Rightarrow> Inr (replay existing) | Inl _ \<Rightarrow> Inl (Internal e)) }
            else ret (Inl (Internal e))
        | Inr row \<Rightarrow> do {
            _ \<leftarrow> TouchCredential (sv_store sv) i;
            ret (Inr \<lparr>res_ID = msg_ID row, res_Status = msg_Status row, res_RFCMessageID = nm_MessageID msg, res_Recipients = recipients,
                      res_BackendID = sr_BackendID route, res_Duplicate = False\<rparr>) } })"

definition parse_options :: "('l, 'h) Service \<Rightarrow> mail_options" where
  "parse_options sv = \<lparr>mo_MaxBytes = cfg_MaxMessageBytes (sv_cfg sv), mo_MaxHeaderCount = cfg_MaxHeaderCount (sv_cfg sv),
     mo_MaxHeaderBytes = cfg_MaxHeaderBytes (sv_cfg sv), mo_Now = sv_now sv, mo_NewID = sv_newID sv\<rparr>"

text \<open>The middle part: parse, authorise, route.\<close>

definition authorise ::
    "('l, 'h) Service \<Rightarrow> Request \<Rightarrow> 'l Limiter \<Rightarrow> ((submit_error, Result) result \<times> 'l Limiter) prog" where
  "authorise sv req lm =
     (case mailnorm_Parse (sv_mail sv) (st_idna (sv_store sv)) (parse_options sv) (rq_Raw req) of
        Inl code \<Rightarrow> ingest_reject sv req no_message (refusal code) lm
      | Inr msg \<Rightarrow>
          if Match (ac_Patterns (rq_Credential req)) (nm_From msg) = None
          then ingest_reject sv req msg (refusal ReasonSenderNotAllowed) lm
          else (case validateRecipients sv req of
             Inl rejection \<Rightarrow> ingest_reject sv req msg rejection lm
           | Inr recipients \<Rightarrow> do {
               route \<leftarrow> ResolveSender (sv_store sv) (addr_Domain (nm_From msg));
               case route of
                 Inl e \<Rightarrow> if e = ErrNotFound then ingest_reject sv req msg (refusal ReasonDomainNotConfigured) lm
                          else ret (Inl (Internal e), lm)
               | Inr rt \<Rightarrow> do { r \<leftarrow> persist sv req msg recipients rt; ret (r, lm) } }))"

definition Submit ::
    "('l, 'h) Service \<Rightarrow> Request \<Rightarrow> 'l Limiter \<Rightarrow> ((submit_error, Result) result \<times> 'l Limiter) prog" where
  "Submit sv req lm =
     (let cfg = sv_cfg sv; cred = ac_Credential (rq_Credential req) in
      if \<not> Usable (rq_Credential req) then ingest_reject sv req no_message (refusal ReasonCredentialUnusable) lm
      else let (rps, burst) = RateLimit (rq_Credential req) (cfg_DefaultRateLimitRPS cfg) (cfg_DefaultRateLimitBurst cfg);
               (allowed, lm') = Allow (sv_rate sv) lm (sv_uuid sv (cred_ID cred)) rps burst (sv_now sv) in
      if \<not> allowed then ret (Inl (Refused ((refusal ReasonRateLimited)\<lparr>rej_Temporary := True\<rparr>)), lm')
      else if rq_IdempotencyKey req \<noteq> [] then do {
        f \<leftarrow> FindByIdempotencyKey (cred_ID cred) (rq_IdempotencyKey req) (cfg_IdempotencyTTL cfg);
        case f of
          Inr existing \<Rightarrow> ret (Inr (replay existing), lm')
        | Inl e \<Rightarrow> if e \<noteq> ErrNotFound then ret (Inl (Internal e), lm') else authorise sv req lm' }
      else authorise sv req lm')"

section \<open>Recipients\<close>

definition envelope_ok :: "idna_lib \<Rightarrow> RecipientRules \<Rightarrow> string list \<Rightarrow> string list \<Rightarrow> bool" where
  "envelope_ok x rules raws out \<longleftrightarrow>
     distinct out \<and> length out \<le> length raws \<and> (raws \<noteq> [] \<longrightarrow> out \<noteq> []) \<and>
     set out = {Address_String a | a raw. raw \<in> set raws \<and> ParseAddress x raw = Inr a} \<and>
     (\<forall>raw \<in> set raws. \<exists>a. ParseAddress x raw = Inr a \<and> RecipientRules_Allows rules a)"

lemma recipient_loop_Inr:
  assumes "recipient_loop x rules seen raws = Inr out"
  shows "\<exists>as. list_all2 (\<lambda>raw a. ParseAddress x raw = Inr a \<and> RecipientRules_Allows rules a) raws as \<and>
    out = nub_by (\<lambda>n. n) seen (map Address_String as)"
  using assms
proof (induction x rules seen raws arbitrary: out rule: recipient_loop.induct)
  case (2 x rules seen raw raws)
  obtain a where a: "ParseAddress x raw = Inr a" "RecipientRules_Allows rules a"
    using "2.prems" by (auto split: sum.splits if_splits)
  show ?case
  proof (cases "Address_String a \<in> set seen")
    case True
    then have "recipient_loop x rules seen raws = Inr out" using "2.prems" a by simp
    with "2.IH"(1) [OF a(1)] a True obtain as where
      "list_all2 (\<lambda>raw a. ParseAddress x raw = Inr a \<and> RecipientRules_Allows rules a) raws as" "out = nub_by (\<lambda>n. n) seen (map Address_String as)" by auto
    with a True show ?thesis by (intro exI [of _ "a # as"]) simp
  next
    case False
    then obtain o' where "recipient_loop x rules (Address_String a # seen) raws = Inr o'" "out = Address_String a # o'"
      using "2.prems" a by (auto simp: Let_def split: sum.splits)
    with "2.IH"(2) [OF a(1)] a False obtain as where
      "list_all2 (\<lambda>raw a. ParseAddress x raw = Inr a \<and> RecipientRules_Allows rules a) raws as"
      "o' = nub_by (\<lambda>n. n) (Address_String a # seen) (map Address_String as)" "out = Address_String a # o'" by auto
    with a False show ?thesis by (intro exI [of _ "a # as"]) simp
  qed
qed auto

lemma recipient_loop_parses:
  assumes "list_all (\<lambda>r. \<exists>a. ParseAddress x r = Inr a) raws" "recipient_loop x rules seen raws = Inl rej"
  shows "rej = refusal ReasonRecipientNotAllowed"
  using assms by (induction x rules seen raws rule: recipient_loop.induct) (auto simp: Let_def split: if_splits sum.splits)

lemma recipient_loop_ok: "recipient_loop x rules [] raws = Inr out \<Longrightarrow> envelope_ok x rules raws out"
proof -
  assume "recipient_loop x rules [] raws = Inr out"
  then obtain as where as: "list_all2 (\<lambda>raw a. ParseAddress x raw = Inr a \<and> RecipientRules_Allows rules a) raws as"
    "out = nub_by (\<lambda>n. n) [] (map Address_String as)" using recipient_loop_Inr by blast
  have 1: "set out = Address_String ` set as" using nub_by_keys [of "\<lambda>n. n" "[]" "map Address_String as"] as(2) by simp
  have 2: "set as = {a. \<exists>raw \<in> set raws. ParseAddress x raw = Inr a}"
    using as(1) by (force simp: list_all2_conv_all_nth in_set_conv_nth)
  have 3: "\<forall>raw \<in> set raws. \<exists>a. ParseAddress x raw = Inr a \<and> RecipientRules_Allows rules a"
    using as(1) by (force simp: list_all2_conv_all_nth in_set_conv_nth)
  have "length out \<le> length raws" "distinct out"
    using length_nub_by [of "\<lambda>n. n" "[]" "map Address_String as"] list_all2_lengthD [OF as(1)]
      nub_by_distinct [of "\<lambda>n. n" "[]" "map Address_String as"] as(2) by simp_all
  moreover have "raws \<noteq> [] \<Longrightarrow> out \<noteq> []" using 1 list_all2_lengthD [OF as(1)] by (cases raws; cases as) auto
  ultimately show ?thesis using 1 2 3 unfolding envelope_ok_def by blast
qed

lemma validateRecipients_Inr:
  assumes "validateRecipients sv req = Inr out"
  shows "envelope_ok (st_idna (sv_store sv)) (ac_Recipients (rq_Credential req)) (rq_EnvelopeRecipients req) out" "out \<noteq> []"
    "int (length out) \<le> cfg_MaxRecipients (sv_cfg sv)"
proof -
  have 1: "rq_EnvelopeRecipients req \<noteq> []" "int (length (rq_EnvelopeRecipients req)) \<le> cfg_MaxRecipients (sv_cfg sv)"
    "recipient_loop (st_idna (sv_store sv)) (ac_Recipients (rq_Credential req)) [] (rq_EnvelopeRecipients req) = Inr out"
    using assms by (auto simp: validateRecipients_def split: if_splits)
  show 2: "envelope_ok (st_idna (sv_store sv)) (ac_Recipients (rq_Credential req)) (rq_EnvelopeRecipients req) out"
    by (rule recipient_loop_ok [OF 1(3)])
  show "out \<noteq> []" "int (length out) \<le> cfg_MaxRecipients (sv_cfg sv)" using 1(1,2) 2 by (auto simp: envelope_ok_def)
qed

section \<open>The steps of a submission, without other sessions\<close>

lemma FindByIdempotencyKey_alone:
  assumes "peers w = []" "run_state (FindByIdempotencyKey i key ttl) w = (r, w')"
  shows "tables w' = tables w \<and> peers w' = [] \<and> clock w' = clock w"
    "r = Inr m \<Longrightarrow> m \<in> set (db_messages (tables w)) \<and> msg_CredentialID m = uuidPtr i \<and> msg_IdempotencyKey m = Some key \<and>
       clock w - intervalOf ttl < msg_CreatedAt m"
proof -
  let ?q = "\<lambda>now uid. Queries_GetEmailMessageByIdempotencyKey (uuidPtr i) (Some key) (intervalOf ttl) now"
  obtain t w1 where t: "run_state (exec ?q) w = (t, w1)" by fastforce
  have r: "w' = w1" "r = (case t of Inl e \<Rightarrow> Inl (store_wrap e) | Inr x \<Rightarrow> Inr x)"
    using assms(2) t by (auto simp: FindByIdempotencyKey_def orelse_run split: sum.splits)
  note a = alone_exec [OF assms(1) t]
  show "tables w' = tables w \<and> peers w' = [] \<and> clock w' = clock w"
    using a r by (auto simp: Queries_GetEmailMessageByIdempotencyKey_def one_row_def)
  show "r = Inr m \<Longrightarrow> m \<in> set (db_messages (tables w)) \<and> msg_CredentialID m = uuidPtr i \<and> msg_IdempotencyKey m = Some key \<and>
       clock w - intervalOf ttl < msg_CreatedAt m"
    using a(3) r(2) by (auto simp: Queries_GetEmailMessageByIdempotencyKey_def one_row_def split: sum.splits option.splits dest!: find_SomeD)
qed

definition routed :: "Store \<Rightarrow> db \<Rightarrow> string \<Rightarrow> SenderRoute \<Rightarrow> bool" where
  "routed s d sender rt \<longleftrightarrow> (\<exists>n r b pw. NormalizeDomain (st_idna s) sender = Inr n \<and> candidate d n r b \<and>
     rt = route_of (dom_ID r) (dom_Name r) b pw \<and> OpenBackendPassword s (be_AuthPasswordSealed b) = Inr pw \<and>
     (\<forall>r' b'. candidate d n r' b' \<longrightarrow> r' = r \<or> length (dom_Name r') < length (dom_Name r)))"

lemma ResolveSender_alone:
  assumes "peers w = []" "run_state (ResolveSender s sender) w = (res, w')"
  shows "tables w' = tables w \<and> peers w' = [] \<and> clock w' = clock w"
    "db_inv (st_lower s) (tables w) \<Longrightarrow> res = Inr rt \<Longrightarrow> routed s (tables w) sender rt"
proof -
  have "(tables w' = tables w \<and> peers w' = [] \<and> clock w' = clock w) \<and>
      (db_inv (st_lower s) (tables w) \<longrightarrow> res = Inr rt \<longrightarrow> routed s (tables w) sender rt)"
  proof (cases "NormalizeDomain (st_idna s) sender")
    case (Inl e)
    with assms show ?thesis by (auto simp: ResolveSender_def)
  next
    case (Inr n)
    obtain t w1 where t: "run_state (exec (\<lambda>now uid. Queries_ResolveSenderDomain n)) w = (t, w1)" by fastforce
    have w': "w' = w1" using assms(2) t Inr by (auto simp: ResolveSender_def orelse_run split: sum.splits prod.splits)
    have q: "snd (Queries_ResolveSenderDomain n d) = d" for d by (simp add: Queries_ResolveSenderDomain_def one_row_def)
    have "routed s (tables w) sender rt" if inv: "db_inv (st_lower s) (tables w)" and "res = Inr rt"
    proof -
      from that assms(2) t Inr obtain r b pw where p: "t = Inr (r, b)" "OpenBackendPassword s (be_AuthPasswordSealed b) = Inr pw"
        "rt = route_of (dom_ID r) (dom_Name r) b pw"
        by (auto simp: ResolveSender_def orelse_run split: sum.splits prod.splits)
      with alone_exec(3) [OF assms(1) t] have "fst (Queries_ResolveSenderDomain n (tables w)) = Inr (r, b)" by auto
      with ResolveSenderDomain_spec [OF inv, of n] p Inr show ?thesis unfolding routed_def by auto
    qed
    with alone_exec [OF assms(1) t] q w' show ?thesis by auto
  qed
  then show "tables w' = tables w \<and> peers w' = [] \<and> clock w' = clock w"
    "db_inv (st_lower s) (tables w) \<Longrightarrow> res = Inr rt \<Longrightarrow> routed s (tables w) sender rt" by auto
qed

definition refused_row :: "db \<Rightarrow> db \<Rightarrow> string \<Rightarrow> bool" where
  "refused_row d d' reason \<longleftrightarrow> d' = d \<or> (\<exists>row. d' = d\<lparr>db_messages := db_messages d @ [row]\<rparr> \<and> msg_Status row = StatusRejected \<and>
     msg_RejectionReason row = Some reason \<and> msg_SmtpBackendID row = None \<and> msg_IdempotencyKey row = None)"

lemma InsertRejectedMessage_alone:
  assumes "peers w = []" "run_state (InsertRejectedMessage s p) w = (r, w')"
  shows "refused_row (tables w) (tables w') (rmp_Reason p) \<and> peers w' = []"
proof (cases "rmp_Reason p = []")
  case True
  with assms show ?thesis by (simp add: InsertRejectedMessage_def refused_row_def)
next
  case False
  let ?q = "Queries_InsertRejectedEmailMessage (st_lower s) (rejected_row p) (Some (rmp_Reason p))"
  obtain t w1 where t: "run_state (exec ?q) w = (t, w1)" by fastforce
  have w': "w' = w1" using assms(2) t False by (auto simp: InsertRejectedMessage_def orelse_run split: sum.splits)
  have "refused_row d (snd (?q now uid d)) (rmp_Reason p)" for now uid d
    by (auto simp: refused_row_def Queries_InsertRejectedEmailMessage_def wrote_def Let_def new_message_def
        split: sum.splits dest!: insert_row_Inr(1))
  moreover have "refused_row d d (rmp_Reason p)" for d by (simp add: refused_row_def)
  ultimately show ?thesis using alone_exec [OF assms(1) t] w' by metis
qed

lemma ingest_reject_alone:
  assumes "peers w = []" "run_state (ingest_reject sv req msg rej lm) w = ((r, lm'), w')"
  shows "\<exists>i. r = Inl (Refused (rej\<lparr>rej_MessageID := i\<rparr>)) \<and> refused_row (tables w) (tables w') (rej_Reason rej)"
proof -
  have i: "rej = rej\<lparr>rej_MessageID := rej_MessageID rej\<rparr>" by simp
  obtain t w1 where t: "run_state (InsertRejectedMessage (sv_store sv) (rejected_params req msg rej)) w = (t, w1)" by fastforce
  have reason: "rmp_Reason (rejected_params req msg rej) = rej_Reason rej" by (simp add: rejected_params_def)
  note a = InsertRejectedMessage_alone [OF assms(1) t, unfolded reason]
  have "(\<exists>i. r = Inl (Refused (rej\<lparr>rej_MessageID := i\<rparr>))) \<and> (w' = w \<or> w' = w1)"
  proof (cases t)
    case (Inl e)
    with assms(2) t have "r = Inl (Refused rej)" "w' = w \<or> w' = w1"
      by (auto simp: ingest_reject_def Let_def split: if_splits prod.splits)
    with i show ?thesis by metis
  next
    case (Inr row)
    with assms(2) t have "(r = Inl (Refused rej) \<or> r = Inl (Refused (rej\<lparr>rej_MessageID := msg_ID row\<rparr>)))" "w' = w \<or> w' = w1"
      by (simp_all add: ingest_reject_def Let_def split: if_splits prod.splits)
    with i show ?thesis by metis
  qed
  with a show ?thesis by (auto simp: refused_row_def)
qed

text \<open>What is stored for an accepted submission; noting the use of the credential touches nothing else.\<close>

definition stored :: "Request \<Rightarrow> Message \<Rightarrow> string list \<Rightarrow> SenderRoute \<Rightarrow> timestamp \<Rightarrow> db \<Rightarrow> db \<Rightarrow> EmailMessage \<Rightarrow> bool" where
  "stored req msg rs rt now d d' row \<longleftrightarrow>
     (\<exists>d1 cs. accepted (queued_params req msg rs rt) (nm_Raw msg) now d d1 row \<and> d' = d1\<lparr>db_credentials := cs\<rparr>)"

lemma same_creds: "\<exists>cs. d = d\<lparr>db_credentials := cs\<rparr>" for d :: db
  by (rule exI [of _ "db_credentials d"]) simp

lemma accepted_stored: "accepted (queued_params req msg rs rt) (nm_Raw msg) now d d' row \<Longrightarrow> stored req msg rs rt now d d' row"
  unfolding stored_def using same_creds by blast

lemma TouchCredential_alone:
  assumes "peers w = []" "run_state (TouchCredential s i) w = (r, w')"
  shows "\<exists>cs. tables w' = (tables w)\<lparr>db_credentials := cs\<rparr>"
proof -
  let ?q = "\<lambda>now uid. Queries_TouchCredentialLastUsed (st_lower s) i (intervalOf touchInterval) now"
  obtain t w1 where t: "run_state (exec ?q) w = (t, w1)" by fastforce
  have w': "w' = w1" using assms(2) t by (auto simp: TouchCredential_def orelse_run split: sum.splits)
  have "\<exists>cs. snd (?q now uid d) = d\<lparr>db_credentials := cs\<rparr>" for now uid d
    by (auto simp: Queries_TouchCredentialLastUsed_def wrote_def Let_def same_creds split: sum.splits)
  with alone_exec [OF assms(1) t] w' same_creds show ?thesis by metis
qed

lemma adds_jobs_keeps:
  assumes "adds_jobs enq"
  shows "ka.keeps (enq i)" "kc.keeps c (enq i)"
proof -
  have "peers (snd (run_state (enq i) w)) = peers w \<and> clock (snd (run_state (enq i) w)) = clock w" for w
    using assms [unfolded adds_jobs_def, rule_format, of w i] by (auto split: prod.splits)
  then show "ka.keeps (enq i)" "kc.keeps c (enq i)" by (simp_all add: ka.keeps_def kc.keeps_def)
qed

lemma ka_InsertQueuedMessage: "adds_jobs enq \<Longrightarrow> ka.keeps (InsertQueuedMessage s p payload (Some enq))"
  unfolding InsertQueuedMessage_def insert_queued_tx_def by (auto intro!: ka.keeps_rules adds_jobs_keeps)

lemma kc_InsertQueuedMessage: "adds_jobs enq \<Longrightarrow> kc.keeps c (InsertQueuedMessage s p payload (Some enq))"
  unfolding InsertQueuedMessage_def insert_queued_tx_def by (auto intro!: kc.keeps_rules adds_jobs_keeps)

definition replayed :: "('l, 'h) Service \<Rightarrow> Request \<Rightarrow> timestamp \<Rightarrow> db \<Rightarrow> Result \<Rightarrow> bool" where
  "replayed sv req now d res \<longleftrightarrow> (\<exists>m \<in> set (db_messages d). res = replay m \<and> msg_CredentialID m = uuidPtr (cred_ID (ac_Credential (rq_Credential req))) \<and>
     msg_IdempotencyKey m = Some (rq_IdempotencyKey req) \<and> rq_IdempotencyKey req \<noteq> [] \<and>
     now - intervalOf (cfg_IdempotencyTTL (sv_cfg sv)) < msg_CreatedAt m)"

lemma persist_alone:
  assumes "adds_jobs (sv_enqueuer sv)" "peers w = []" "run_state (persist sv req msg rs rt) w = (r, w')"
  shows "case r of
      Inr res \<Rightarrow> (replayed sv req (clock w) (tables w) res \<and> tables w' = tables w) \<or>
        (\<exists>row. stored req msg rs rt (clock w) (tables w) (tables w') row \<and> res = \<lparr>res_ID = msg_ID row, res_Status = msg_Status row,
           res_RFCMessageID = nm_MessageID msg, res_Recipients = rs, res_BackendID = sr_BackendID rt, res_Duplicate = False\<rparr>)
    | Inl e \<Rightarrow> (\<exists>k. e = Internal k \<and> (tables w' = tables w \<or>
        (k = classify connection_error \<and> (\<exists>row. stored req msg rs rt (clock w) (tables w) (tables w') row))))"
proof -
  let ?p = "queued_params req msg rs rt" and ?i = "cred_ID (ac_Credential (rq_Credential req))"
  obtain t w1 where t: "run_state (InsertQueuedMessage (sv_store sv) ?p (nm_Raw msg) (Some (sv_enqueuer sv))) w = (t, w1)" by fastforce
  note o = insert_queued_outcome [OF assms(1,2) t]
  have p1: "peers w1 = []" by (rule ka.keepsD [OF ka_InsertQueuedMessage [OF assms(1)] assms(2) t])
  have c1: "clock w1 = clock w" by (rule kc.keepsD [OF kc_InsertQueuedMessage [OF assms(1)] refl t])
  show ?thesis
  proof (cases t)
    case (Inr row)
    obtain u w2 where u: "run_state (TouchCredential (sv_store sv) ?i) w1 = (u, w2)" by fastforce
    have "w' = w2" "r = Inr \<lparr>res_ID = msg_ID row, res_Status = msg_Status row,
           res_RFCMessageID = nm_MessageID msg, res_Recipients = rs, res_BackendID = sr_BackendID rt, res_Duplicate = False\<rparr>"
      using assms(3) t u Inr by (simp_all add: persist_def Let_def)
    moreover obtain cs where "tables w2 = (tables w1)\<lparr>db_credentials := cs\<rparr>" using TouchCredential_alone [OF p1 u] by blast
    ultimately show ?thesis using o Inr by (auto simp: stored_def)
  next
    case (Inl e)
    show ?thesis
    proof (cases "rq_IdempotencyKey req \<noteq> [] \<and> ConstraintName e = ''email_message_idempotency_key''")
      case True
      then have e: "e \<noteq> classify connection_error" by (auto simp: connection_error_def)
      obtain f w2 where f: "run_state (FindByIdempotencyKey ?i (rq_IdempotencyKey req) (cfg_IdempotencyTTL (sv_cfg sv))) w1 = (f, w2)" by fastforce
      have r: "w' = w2" "r = (case f of Inr existing \<Rightarrow> Inr (replay existing) | Inl _ \<Rightarrow> Inl (Internal e))"
        using assms(3) t f Inl True by (simp_all add: persist_def Let_def)
      have "tables w1 = tables w" using o Inl e by simp
      with r True c1 FindByIdempotencyKey_alone [OF p1 f] show ?thesis by (auto simp: replayed_def split: sum.splits)
    next
      case False
      then have "r = Inl (Internal e)" "w' = w1" using assms(3) t Inl by (auto simp: persist_def Let_def)
      with o Inl accepted_stored show ?thesis by fastforce
    qed
  qed
qed

section \<open>What a submission does\<close>

definition authorised :: "('l, 'h) Service \<Rightarrow> Request \<Rightarrow> db \<Rightarrow> Message \<Rightarrow> string list \<Rightarrow> SenderRoute \<Rightarrow> bool" where
  "authorised sv req d msg rs rt \<longleftrightarrow>
     mailnorm_Parse (sv_mail sv) (st_idna (sv_store sv)) (parse_options sv) (rq_Raw req) = Inr msg \<and>
     Allows (ac_Patterns (rq_Credential req)) (nm_From msg) \<and> rs \<noteq> [] \<and> int (length rs) \<le> cfg_MaxRecipients (sv_cfg sv) \<and>
     envelope_ok (st_idna (sv_store sv)) (ac_Recipients (rq_Credential req)) (rq_EnvelopeRecipients req) rs \<and>
     routed (sv_store sv) d (addr_Domain (nm_From msg)) rt"

definition submit_outcome :: "('l, 'h) Service \<Rightarrow> Request \<Rightarrow> timestamp \<Rightarrow> db \<Rightarrow> db \<Rightarrow> (submit_error, Result) result \<Rightarrow> bool" where
  "submit_outcome sv req now d d' r \<longleftrightarrow>
     (case r of
        Inr res \<Rightarrow> (replayed sv req now d res \<and> d' = d) \<or>
          (\<exists>msg rs rt row. authorised sv req d msg rs rt \<and> stored req msg rs rt now d d' row \<and> res = \<lparr>res_ID = msg_ID row,
             res_Status = msg_Status row, res_RFCMessageID = nm_MessageID msg, res_Recipients = rs, res_BackendID = sr_BackendID rt, res_Duplicate = False\<rparr>)
      | Inl (Refused rej) \<Rightarrow> refused_row d d' (rej_Reason rej)
      | Inl (Internal k) \<Rightarrow> d' = d \<or> (k = classify connection_error \<and>
          (\<exists>msg rs rt row. authorised sv req d msg rs rt \<and> stored req msg rs rt now d d' row)))"

lemma reject_outcome:
  assumes "peers w = []" "run_state (ingest_reject sv req msg rej lm) w = ((r, lm'), w')"
  shows "submit_outcome sv req (clock w) (tables w) (tables w') r"
  using ingest_reject_alone [OF assms] by (auto simp: submit_outcome_def)

lemma authorise_outcome:
  assumes "adds_jobs (sv_enqueuer sv)" "peers w = []" "db_inv (st_lower (sv_store sv)) (tables w)"
    and "run_state (authorise sv req lm) w = ((r, lm'), w')"
  shows "submit_outcome sv req (clock w) (tables w) (tables w') r"
proof (cases "mailnorm_Parse (sv_mail sv) (st_idna (sv_store sv)) (parse_options sv) (rq_Raw req)")
  case (Inl code)
  with assms(4) show ?thesis by (auto simp: authorise_def intro: reject_outcome [OF assms(2)])
next
  case (Inr msg)
  note m = this
  show ?thesis
  proof (cases "Match (ac_Patterns (rq_Credential req)) (nm_From msg)")
    case None
    with m assms(4) show ?thesis by (auto simp: authorise_def intro: reject_outcome [OF assms(2)])
  next
    case (Some pat)
    show ?thesis
    proof (cases "validateRecipients sv req")
      case (Inl rej)
      with m Some assms(4) show ?thesis by (auto simp: authorise_def intro: reject_outcome [OF assms(2)])
    next
      case (Inr rs)
      obtain t w1 where t: "run_state (ResolveSender (sv_store sv) (addr_Domain (nm_From msg))) w = (t, w1)" by fastforce
      note R = ResolveSender_alone [OF assms(2) t]
      have run: "run_state (case t of Inl e \<Rightarrow> if e = ErrNotFound then ingest_reject sv req msg (refusal ReasonDomainNotConfigured) lm
                          else ret (Inl (Internal e), lm)
               | Inr rt \<Rightarrow> do { r \<leftarrow> persist sv req msg rs rt; ret (r, lm) }) w1 = ((r, lm'), w')"
        using assms(4) m Some Inr t by (simp add: authorise_def)
      show ?thesis
      proof (cases t)
        case (Inl e)
        with run R(1) reject_outcome [of w1 sv req msg] show ?thesis by (auto simp: submit_outcome_def split: if_splits)
      next
        case t: (Inr rt)
        have a: "authorised sv req (tables w) msg rs rt"
          unfolding authorised_def using m Some validateRecipients_Inr [OF Inr] R(2) [OF assms(3) t] by (auto simp: Allows_def)
        obtain r1 w2 where p: "run_state (persist sv req msg rs rt) w1 = (r1, w2)" by fastforce
        with run t have "r = r1" "w' = w2" by auto
        with persist_alone [OF assms(1) _ p] R(1) a show ?thesis
          unfolding submit_outcome_def by (auto split: sum.splits) 
      qed
    qed
  qed
qed

text \<open>The ways through the first steps of \<^verbatim>\<open>Submit\<close>.\<close>

abbreviation find_key :: "('l, 'h) Service \<Rightarrow> Request \<Rightarrow> (store_error, EmailMessage) result prog" where
  "find_key sv req \<equiv> FindByIdempotencyKey (cred_ID (ac_Credential (rq_Credential req))) (rq_IdempotencyKey req) (cfg_IdempotencyTTL (sv_cfg sv))"

definition admitted :: "('l, 'h) Service \<Rightarrow> Request \<Rightarrow> 'l Limiter \<Rightarrow> 'l Limiter \<Rightarrow> bool" where
  "admitted sv req lm lm' \<longleftrightarrow> Usable (rq_Credential req) \<and>
     (case RateLimit (rq_Credential req) (cfg_DefaultRateLimitRPS (sv_cfg sv)) (cfg_DefaultRateLimitBurst (sv_cfg sv)) of (rps, burst) \<Rightarrow>
        Allow (sv_rate sv) lm (sv_uuid sv (cred_ID (ac_Credential (rq_Credential req)))) rps burst (sv_now sv) = (True, lm'))"

lemma Submit_cases:
  assumes "run_state (Submit sv req lm) w = ((r, lm'), w')"
  obtains (unusable) "\<not> Usable (rq_Credential req)" "run_state (ingest_reject sv req no_message (refusal ReasonCredentialUnusable) lm) w = ((r, lm'), w')"
  | (limited) "r = Inl (Refused ((refusal ReasonRateLimited)\<lparr>rej_Temporary := True\<rparr>))" "w' = w" "\<nexists>lm'. admitted sv req lm lm'"
  | (replay) m lm1 where "admitted sv req lm lm1" "rq_IdempotencyKey req \<noteq> []" "run_state (find_key sv req) w = (Inr m, w')" "r = Inr (replay m)"
  | (lookup_failed) e lm1 where "admitted sv req lm lm1" "run_state (find_key sv req) w = (Inl e, w')" "r = Inl (Internal e)"
  | (fresh) lm1 w1 where "admitted sv req lm lm1" "run_state (authorise sv req lm1) w1 = ((r, lm'), w')"
      "(rq_IdempotencyKey req = [] \<and> w1 = w) \<or> (rq_IdempotencyKey req \<noteq> [] \<and> run_state (find_key sv req) w = (Inl ErrNotFound, w1))"
proof (cases "Usable (rq_Credential req)")
  case False
  with assms that(1) show ?thesis by (simp add: Submit_def Let_def)
next
  case True
  obtain rps burst where rb: "RateLimit (rq_Credential req) (cfg_DefaultRateLimitRPS (sv_cfg sv)) (cfg_DefaultRateLimitBurst (sv_cfg sv)) = (rps, burst)" by fastforce
  obtain ok lm1 where al: "Allow (sv_rate sv) lm (sv_uuid sv (cred_ID (ac_Credential (rq_Credential req)))) rps burst (sv_now sv) = (ok, lm1)" by fastforce
  show ?thesis
  proof (cases ok)
    case False
    with assms True rb al that(2) show ?thesis by (auto simp: Submit_def Let_def admitted_def)
  next
    case ok: True
    have ad: "admitted sv req lm lm1" using True rb al ok by (simp add: admitted_def)
    show ?thesis
    proof (cases "rq_IdempotencyKey req = []")
      case True
      with assms \<open>Usable (rq_Credential req)\<close> rb al ok have "run_state (authorise sv req lm1) w = ((r, lm'), w')" by (simp add: Submit_def Let_def)
      with ad True that(5) show ?thesis by blast
    next
      case False
      obtain f w1 where f: "run_state (find_key sv req) w = (f, w1)" by fastforce
      have run: "run_state (case f of Inr existing \<Rightarrow> ret (Inr (replay existing), lm1)
          | Inl e \<Rightarrow> if e \<noteq> ErrNotFound then ret (Inl (Internal e), lm1) else authorise sv req lm1) w1 = ((r, lm'), w')"
        using assms \<open>Usable (rq_Credential req)\<close> rb al ok False f by (simp add: Submit_def Let_def)
      with ad False f that(3,4,5) show ?thesis by (cases f) (auto split: if_splits)
    qed
  qed
qed

lemma Submit_outcome:
  assumes "adds_jobs (sv_enqueuer sv)" "peers w = []" "db_inv (st_lower (sv_store sv)) (tables w)"
    and "run_state (Submit sv req lm) w = ((r, lm'), w')"
  shows "submit_outcome sv req (clock w) (tables w) (tables w') r"
  using assms(4)
proof (cases rule: Submit_cases)
  case unusable
  then show ?thesis by (intro reject_outcome [OF assms(2)])
next
  case (replay m lm1)
  with FindByIdempotencyKey_alone [OF assms(2) replay(3)] show ?thesis by (auto simp: submit_outcome_def replayed_def)
next
  case (fresh lm1 w1)
  then have "tables w1 = tables w \<and> peers w1 = [] \<and> clock w1 = clock w" using assms(2) FindByIdempotencyKey_alone(1) [OF assms(2)] by blast
  with authorise_outcome [OF assms(1) _ _ fresh(2)] assms(3) show ?thesis by simp
qed (use FindByIdempotencyKey_alone(1) [OF assms(2)] in \<open>auto simp: submit_outcome_def refused_row_def refusal_def\<close>)

text \<open>
  C1: Nothing is accepted that the credential may not send. Whatever the network does, a submission answered as new was made with a usable
  credential whose rate limit admitted it; the sender is the single From address of a message that parsed, and the credential's sender list
  allows it; the recipients are distinct, within the limit, exactly the normalised envelope addresses, each
  allowed by the recipient list; the backend is that of the most specific enabled domain covering the sender. The database
  gained exactly the queued message with these data, its payload (the message as rewritten) and its job.
\<close>

theorem accepted_is_authorised:
  assumes "adds_jobs (sv_enqueuer sv)" "peers w = []" "db_inv (st_lower (sv_store sv)) (tables w)"
    and "run_state (Submit sv req lm) w = ((Inr res, lm'), w')" "\<not> res_Duplicate res"
  shows "(\<exists>lm1. admitted sv req lm lm1) \<and>
    (\<exists>msg rs rt row. authorised sv req (tables w) msg rs rt \<and> stored req msg rs rt (clock w) (tables w) (tables w') row \<and>
       res_ID res = msg_ID row \<and> res_Recipients res = rs \<and> res_BackendID res = sr_BackendID rt)"
proof -
  have "\<exists>lm1. admitted sv req lm lm1"
    using assms(4) by (cases rule: Submit_cases) (auto dest: ingest_reject_alone [OF assms(2)])
  moreover have "\<not> replayed sv req (clock w) (tables w) res" using assms(5) by (auto simp: replayed_def replay_def)
  then obtain msg rs rt row where "authorised sv req (tables w) msg rs rt" "stored req msg rs rt (clock w) (tables w) (tables w') row"
    "res_ID res = msg_ID row" "res_Recipients res = rs" "res_BackendID res = sr_BackendID rt"
    using Submit_outcome [OF assms(1-4)] by (auto simp: submit_outcome_def)
  ultimately show ?thesis by blast
qed

text \<open>
  C22: A refusal stores no content. Whatever the network does, a refused submission leaves the database as it was, or with one more row that
  has the status rejected, the reason the client is told, no backend and no idempotency key; payloads and jobs are never touched. A submission
  that fails inside changes nothing, unless a connection was lost while storing an authorised message; and a replay changes nothing.
\<close>

theorem refusal_stores_no_content:
  assumes "adds_jobs (sv_enqueuer sv)" "peers w = []" "db_inv (st_lower (sv_store sv)) (tables w)"
    and "run_state (Submit sv req lm) w = ((r, lm'), w')"
  shows "case r of
      Inl (Refused rej) \<Rightarrow> refused_row (tables w) (tables w') (rej_Reason rej) \<and> db_payloads (tables w') = db_payloads (tables w) \<and>
        db_jobs (tables w') = db_jobs (tables w)
    | Inl (Internal k) \<Rightarrow> tables w' = tables w \<or> (k = classify connection_error \<and>
        (\<exists>msg rs rt row. authorised sv req (tables w) msg rs rt \<and> stored req msg rs rt (clock w) (tables w) (tables w') row))
    | Inr res \<Rightarrow> res_Duplicate res \<longrightarrow> tables w' = tables w"
  using Submit_outcome [OF assms] by (auto simp: submit_outcome_def refused_row_def split: sum.splits submit_error.splits)

section \<open>Idempotency keys\<close>

lemma Submit_obeys:
  assumes "adds_jobs (sv_enqueuer sv)"
  shows "au.obeys (st_lower (sv_store sv)) (Submit sv req lm)"
proof -
  have r: "au.obeys (st_lower (sv_store sv)) (ingest_reject sv req msg rej l)" for msg rej and l :: "'a Limiter"
    unfolding ingest_reject_def Let_def by (auto intro!: au.obeys_rules email_ops_obey split: prod.splits)
  have "au.obeys (st_lower (sv_store sv)) (persist sv req msg rs rt)" for msg rs rt
    unfolding persist_def Let_def
    by (auto intro!: au.obeys_rules InsertQueuedMessage_obeys [OF assms] credential_ops_obey email_reads_obey split: sum.splits)
  with r have "au.obeys (st_lower (sv_store sv)) (authorise sv req l)" for l
    unfolding authorise_def by (auto intro!: au.obeys_rules ResolveSender_obeys split: sum.splits)
  with r show ?thesis
    unfolding Submit_def Let_def by (auto intro!: au.obeys_rules email_reads_obey split: sum.splits prod.splits)
qed

lemma key_unique:
  assumes "db_inv lower d" "m \<in> set (db_messages d)" "m' \<in> set (db_messages d)"
    and "msg_CredentialID m = Some i" "msg_CredentialID m' = Some i" "msg_IdempotencyKey m = Some k" "msg_IdempotencyKey m' = Some k"
  shows "m = m'"
proof -
  let ?clash = "\<lambda>a b. msg_CredentialID a \<noteq> None \<and> msg_IdempotencyKey a \<noteq> None \<and>
    msg_CredentialID a = msg_CredentialID b \<and> msg_IdempotencyKey a = msg_IdempotencyKey b"
  have s: "sorted_wrt (\<lambda>a b. \<not> ?clash a b) (db_messages d)"
    using assms(1) by (auto simp: db_inv_def table_ok_iff message_schema_def)
  obtain a b where ab: "a < length (db_messages d)" "b < length (db_messages d)" "db_messages d ! a = m" "db_messages d ! b = m'"
    using assms(2,3) by (auto simp: in_set_conv_nth)
  have c: "?clash m m'" "?clash m' m" using assms(4-7) by simp_all
  have "\<not> a < b" "\<not> b < a" using sorted_wrt_nth_less [OF s] ab c by blast+
  then show ?thesis using ab by (metis linorder_neqE_nat)
qed

lemma find_key_quiet:
  assumes "quiet w" "db_inv lower (tables w)" "m \<in> set (db_messages (tables w))" "msg_CredentialID m = Some i" "i \<noteq> uuid_Nil"
    and "msg_IdempotencyKey m = Some key" "clock w - intervalOf ttl < msg_CreatedAt m"
  shows "\<exists>w'. run_state (FindByIdempotencyKey i key ttl) w = (Inr m, w') \<and> tables w' = tables w"
proof -
  let ?P = "\<lambda>m. msg_CredentialID m = Some i \<and> msg_IdempotencyKey m = Some key \<and> clock w - intervalOf ttl < msg_CreatedAt m"
  have "find ?P (db_messages (tables w)) = Some m"
  proof (rule find_unique)
    show "m \<in> set (db_messages (tables w))" "?P m" using assms by simp_all
    show "x = m" if "x \<in> set (db_messages (tables w))" "?P x" for x
      using key_unique [OF assms(2) that(1) assms(3)] that(2) assms(4,6) by simp
  qed
  then show ?thesis
    using assms(1,5) by (simp add: FindByIdempotencyKey_def orelse_run run_exec_quiet Queries_GetEmailMessageByIdempotencyKey_def one_row_def uuidPtr_def)
qed

lemma stored_row:
  assumes "stored req msg rs rt now d d' row"
  shows "row \<in> set (db_messages d')" "db_messages d' = db_messages d @ [row]" "msg_CredentialID row = uuidPtr (cred_ID (ac_Credential (rq_Credential req)))"
    "msg_IdempotencyKey row = stringPtr (rq_IdempotencyKey req)" "msg_CreatedAt row = now" "msg_MessageID row = nm_MessageID msg"
    "msg_EnvelopeRecipients row = rs" "msg_SmtpBackendID row = uuidPtr (sr_BackendID rt)"
  using assms by (auto simp: stored_def accepted_def new_message_def queued_row_def queued_params_def)


text \<open>
  An expired key is never usable again. Once the lifetime of an idempotency key is over, no submission of that
  credential with that key is accepted, new or as a replay, whatever the network does and whatever message it carries: the lookup no longer finds the first
  message, and the unique index still refuses a second one.
\<close>

theorem expired_key_is_dead:
  assumes "adds_jobs (sv_enqueuer sv)" "peers w = []" "db_inv (st_lower (sv_store sv)) (tables w)"
    and "m \<in> set (db_messages (tables w))" "msg_CredentialID m = Some (cred_ID (ac_Credential (rq_Credential req)))"
    and "msg_IdempotencyKey m = Some (rq_IdempotencyKey req)" "msg_CreatedAt m + intervalOf (cfg_IdempotencyTTL (sv_cfg sv)) \<le> clock w"
    and "cred_ID (ac_Credential (rq_Credential req)) \<noteq> uuid_Nil" "rq_IdempotencyKey req \<noteq> []"
    and "run_state (Submit sv req lm) w = ((r, lm'), w')"
  shows "isl r"
proof (rule ccontr)
  assume "\<not> isl r"
  then obtain res where r: "r = Inr res" by (cases r) auto
  have i: "uuidPtr (cred_ID (ac_Credential (rq_Credential req))) = Some (cred_ID (ac_Credential (rq_Credential req)))"
    using assms(8) by (simp add: uuidPtr_def)
  have "db_inv (st_lower (sv_store sv)) (tables w')"
    using au.obeysD [OF Submit_obeys [OF assms(1)] assms(10) au.friendly_alone [OF assms(2)]] assms(3) by (simp add: audited_def)
  note inv = assms(3) this
  consider (old) m' where "m' \<in> set (db_messages (tables w))" "msg_CredentialID m' = Some (cred_ID (ac_Credential (rq_Credential req)))"
      "msg_IdempotencyKey m' = Some (rq_IdempotencyKey req)" "clock w - intervalOf (cfg_IdempotencyTTL (sv_cfg sv)) < msg_CreatedAt m'"
    | (new) msg rs rt row where "stored req msg rs rt (clock w) (tables w) (tables w') row"
    using Submit_outcome [OF assms(1-3,10)] r i by (auto simp: submit_outcome_def replayed_def)
  then show False
  proof cases
    case old
    with key_unique [OF inv(1) assms(4) old(1)] assms(5-7) show False by auto
  next
    case (new msg rs rt row)
    have "row = m" using stored_row [OF new] key_unique [OF inv(2), of m row] assms(4-6,9) i by (simp add: stringPtr_def)
    moreover have "msg_ID row \<notin> message_ids (tables w)" using new by (auto simp: stored_def accepted_def)
    ultimately show False using assms(4) by auto
  qed
qed

section \<open>Witnesses\<close>

definition open_rate :: "unit rate_lib" where
  "open_rate = \<lparr>NewLimiter = (\<lambda>rps burst. ()), AllowN = (\<lambda>l now n. (True, l))\<rparr>"

definition demo_config :: Config where
  "demo_config = \<lparr>cfg_MaxMessageBytes = 1000, cfg_MaxHeaderCount = 10, cfg_MaxHeaderBytes = 500, cfg_MaxRecipients = 5,
     cfg_DefaultRateLimitRPS = 1, cfg_DefaultRateLimitBurst = 5, cfg_RejectedRateLimitRPS = 1, cfg_RejectedRateLimitBurst = 5,
     cfg_IdempotencyTTL = 1000000\<rparr>"

definition demo_service :: "(unit, (string \<times> string) list) Service" where
  "demo_service = \<lparr>sv_store = demo_store, sv_enqueuer = job_table_enqueue, sv_cfg = demo_config, sv_rate = open_rate,
     sv_mail = field_mail, sv_uuid = (\<lambda>i. ''u''), sv_now = 0, sv_newID = ''42''\<rparr>"

definition plain_example :: Pattern where
  "plain_example = \<lparr>normalized = ''*@example.com'', pat_local = ''*'', localAny = True, pat_domain = ''example.com'', subdomainAny = False\<rparr>"

definition demo_request :: Request where
  "demo_request = \<lparr>rq_Credential = \<lparr>ac_Credential = demo_cred, ac_Patterns = [plain_example], ac_Recipients = \<lparr>rr_set = []\<rparr>\<rparr>,
     rq_Facade = ''smtp'', rq_Raw = demo_mail, rq_EnvelopeRecipients = [''Eve@example.org'', ''eve@EXAMPLE.org''],
     rq_DeclaredBcc = [], rq_IdempotencyKey = ''k7'', rq_RemoteIP = None\<rparr>"

definition stranger_request :: Request where
  "stranger_request = demo_request\<lparr>rq_Credential := \<lparr>ac_Credential = demo_cred, ac_Patterns = [], ac_Recipients = \<lparr>rr_set = []\<rparr>\<rparr>\<rparr>"

definition no_buckets :: "unit Limiter" where
  "no_buckets = \<lparr>maxEntries = 10, idleTTL = 1000, buckets = []\<rparr>"

lemma demo_submit_all:
  "(map_sum (\<lambda>_. ()) (\<lambda>r. (res_Recipients r, res_BackendID r, res_Duplicate r)) (fst (fst (run_state (Submit demo_service demo_request no_buckets) mail_world))) =
     Inr ([''eve@example.org''], 21, False)) \<and>
   (map_sum (\<lambda>e. case e of Refused r \<Rightarrow> rej_Reason r | Internal _ \<Rightarrow> []) (\<lambda>r. ())
     (fst (fst (run_state (Submit demo_service stranger_request no_buckets) mail_world))) = Inl ''sender_not_allowed'')"
  by code_simp

lemmas demo_submit =
  demo_submit_all [THEN conjunct1]
  demo_submit_all [THEN conjunct2]

lemma demo_service_facts: "adds_jobs (sv_enqueuer demo_service)" "sv_store demo_service = demo_store"
  by (simp_all add: demo_service_def job_table_enqueue_adds)

lemma demo_accepted:
  "\<exists>res lm w'. run_state (Submit demo_service demo_request no_buckets) mail_world = ((Inr res, lm), w') \<and>
     res_Recipients res = [''eve@example.org''] \<and> \<not> res_Duplicate res"
proof -
  obtain r lm w' where r: "run_state (Submit demo_service demo_request no_buckets) mail_world = ((r, lm), w')" by (metis surj_pair)
  with demo_submit(1) show ?thesis by (cases r) auto
qed

theorem accepted_is_authorised_witness:
  "\<exists>res lm w' msg rs rt row. run_state (Submit demo_service demo_request no_buckets) mail_world = ((Inr res, lm), w') \<and>
     authorised demo_service demo_request mail_db msg rs rt \<and> stored demo_request msg rs rt (clock mail_world) mail_db (tables w') row"
proof -
  obtain res lm w' where r: "run_state (Submit demo_service demo_request no_buckets) mail_world = ((Inr res, lm), w')" "\<not> res_Duplicate res"
    using demo_accepted by blast
  from accepted_is_authorised [OF demo_service_facts(1) _ _ r] r mail_db_inv show ?thesis by (auto simp: demo_service_facts)
qed

theorem refusal_stores_no_content_witness:
  "\<exists>rej lm w'. run_state (Submit demo_service stranger_request no_buckets) mail_world = ((Inl (Refused rej), lm), w') \<and>
     refused_row mail_db (tables w') ''sender_not_allowed'' \<and> db_jobs (tables w') = []"
proof -
  obtain r lm w' where r: "run_state (Submit demo_service stranger_request no_buckets) mail_world = ((r, lm), w')" by (metis surj_pair)
  with demo_submit(2) obtain rej where j: "r = Inl (Refused rej)" "rej_Reason rej = ''sender_not_allowed''"
    by (cases r) (auto split: submit_error.splits)
  have "db_jobs mail_db = []" by (simp add: mail_db_def cred_db_def empty_db_def)
  with refusal_stores_no_content [OF demo_service_facts(1) _ _ r] r j mail_db_inv show ?thesis by (auto simp: demo_service_facts)
qed


definition late_world :: world where
  "late_world = queued_world\<lparr>clock := 900 + 1000\<rparr>"

theorem expired_key_is_dead_witness:
  "isl (fst (fst (run_state (Submit demo_service (demo_request\<lparr>rq_IdempotencyKey := ''k1''\<rparr>) no_buckets) late_world))) = True"
proof -
  let ?q = "demo_request\<lparr>rq_IdempotencyKey := ''k1''\<rparr>"
  obtain r lm w' where r: "run_state (Submit demo_service ?q no_buckets) late_world = ((r, lm), w')" by (metis surj_pair)
  have "isl r"
    by (rule expired_key_is_dead [OF demo_service_facts(1) _ _ _ _ _ _ _ _ r, of demo_row])
      (use queued_inv in \<open>auto simp: late_world_def demo_service_facts demo_row_def new_message_def queued_row_def demo_message_def
        demo_request_def demo_cred_def uuidPtr_def stringPtr_def demo_service_def demo_config_def intervalOf_def\<close>)
  then show ?thesis using r by simp
qed

end
