(* ===== verification/Mail_Build.thy ===== *)
theory Mail_Build
  imports Mail_Norm "HOL-Library.Multiset"
begin

text \<open>
  Composing a message from the fields of the REST payload: \<^verbatim>\<open>src/internal/mailbuild/mailbuild.go\<close>.

  Encoding is \<^verbatim>\<open>go-message\<close>'s, the parameter \<open>bl_write\<close>: it is given the calls made on the header, in order
  (\<open>header_op\<close>), and the parts (\<open>mime_message\<close>), and returns the bytes or fails. \<open>bl_ParseAddress\<close> is the standard
  library's parser of one address with its display name. The map of custom headers is the list of its entries in the order of
  the first loop; \<open>bl_order\<close> is the order of the second. An error is its code and its field, both empty when it is not one of
  the package's own.
\<close>

section \<open>Types\<close>

definition MB_InvalidFrom :: string where "MB_InvalidFrom = ''invalid_from''"
definition MB_MissingRecipients :: string where "MB_MissingRecipients = ''missing_recipients''"
definition MB_InvalidRecipient :: string where "MB_InvalidRecipient = ''invalid_recipient''"
definition MB_TooManyRecipients :: string where "MB_TooManyRecipients = ''too_many_recipients''"
definition MB_MissingBody :: string where "MB_MissingBody = ''missing_body''"
definition MB_InvalidHeader :: string where "MB_InvalidHeader = ''invalid_header''"
definition MB_InvalidAttachment :: string where "MB_InvalidAttachment = ''invalid_attachment''"
definition MB_TooLarge :: string where "MB_TooLarge = ''message_too_large''"

type_synonym build_error = "string \<times> string"
type_synonym mailbox = "string \<times> string"

record Attachment =
  at_Filename :: string
  at_ContentType :: string
  at_Content :: string
  at_ContentID :: string

record Build_Input =
  bi_From :: string
  bi_To :: "string list"
  bi_Cc :: "string list"
  bi_Bcc :: "string list"
  bi_ReplyTo :: "string list"
  bi_Subject :: string
  bi_Text :: string
  bi_HTML :: string
  bi_Headers :: "(string \<times> string) list"
  bi_Attachments :: "Attachment list"

record Build_Options =
  bo_MaxRecipients :: int
  bo_MaxBytes :: int
  bo_Now :: int

record Build_Result =
  br_Raw :: string
  br_From :: Address
  br_To :: "string list"
  br_Cc :: "string list"
  br_Bcc :: "string list"
  br_Envelope :: "string list"
  br_Subject :: string

datatype header_op =
    SetAddressList string "mailbox list"
  | SetSubject string
  | SetDate int
  | SetField string string
  | SetContentType string

datatype mime_file = Attached string string string | Inlined string string string string

datatype mime_message = SingleInline string | Multipart "(string \<times> string) list" "mime_file list"

record build_lib =
  bl_ParseAddress :: "string \<Rightarrow> mailbox option"
  bl_order :: "(string \<times> string) list \<Rightarrow> (string \<times> string) list"
  bl_QEncode :: "string \<Rightarrow> string"
  bl_write :: "header_op list \<Rightarrow> mime_message \<Rightarrow> string option"

section \<open>Validation\<close>

definition contains_line_break :: "string \<Rightarrow> bool" where
  "contains_line_break s \<longleftrightarrow> list_ex (\<lambda>c. c = CR \<or> c = LF) s"

definition parseSender :: "build_lib \<Rightarrow> idna_lib \<Rightarrow> string \<Rightarrow> (build_error, mailbox \<times> Address) result" where
  "parseSender b x v =
     (let trimmed = trim_space v in
      if trimmed = [] then Inl (MB_InvalidFrom, ''from'')
      else (case bl_ParseAddress b trimmed of
         None \<Rightarrow> Inl (MB_InvalidFrom, ''from'')
       | Some (name, address) \<Rightarrow>
           (case ParseAddress x address of
              Inl e \<Rightarrow> Inl (MB_InvalidFrom, ''from'')
            | Inr norm \<Rightarrow> Inr ((name, Address_String norm), norm))))"

fun parseAddressList :: "build_lib \<Rightarrow> idna_lib \<Rightarrow> string \<Rightarrow> string list \<Rightarrow> (build_error, mailbox list) result" where
  "parseAddressList b x field [] = Inr []"
| "parseAddressList b x field (v # vs) =
     (let trimmed = trim_space v in
      if trimmed = [] then Inl (MB_InvalidRecipient, field)
      else (case bl_ParseAddress b trimmed of
         None \<Rightarrow> Inl (MB_InvalidRecipient, field)
       | Some (name, address) \<Rightarrow>
           (case ParseAddress x address of
              Inl e \<Rightarrow> Inl (MB_InvalidRecipient, field)
            | Inr norm \<Rightarrow>
                (case parseAddressList b x field vs of Inl e \<Rightarrow> Inl e | Inr out \<Rightarrow> Inr ((name, Address_String norm) # out)))))"

definition reservedHeaders :: "string list" where
  "reservedHeaders = [''from'', ''to'', ''cc'', ''bcc'', ''reply-to'', ''subject'', ''sender'', ''return-path'', ''mime-version'',
     ''content-type'', ''content-transfer-encoding'', ''content-disposition'', ''bcc-recipients'']"

fun validateHeaders :: "idna_lib \<Rightarrow> (string \<times> string) list \<Rightarrow> build_error option" where
  "validateHeaders x [] = None"
| "validateHeaders x ((key, v) # hs) =
     (let trimmed = trim_space key in
      if trimmed = [] then Some (MB_InvalidHeader, ''headers'')
      else if to_lower (unicode_lower x) trimmed \<in> set reservedHeaders then Some (MB_InvalidHeader, ''headers'')
      else if list_ex (\<lambda>c. ord c \<le> 32 \<or> ord c \<ge> 127 \<or> c = CHR '':'') trimmed then Some (MB_InvalidHeader, ''headers'')
      else if contains_line_break v then Some (MB_InvalidHeader, ''headers'')
      else validateHeaders x hs)"

fun validateAttachments :: "Attachment list \<Rightarrow> build_error option" where
  "validateAttachments [] = None"
| "validateAttachments (a # as) =
     (let filename = trim_space (at_Filename a) in
      if filename = [] then Some (MB_InvalidAttachment, ''attachments'')
      else if contains_line_break filename then Some (MB_InvalidAttachment, ''attachments'')
      else if list_ex (\<lambda>c. c = CHR ''/'' \<or> c = CHR 0x5C) filename then Some (MB_InvalidAttachment, ''attachments'')
      else if at_Content a = [] then Some (MB_InvalidAttachment, ''attachments'')
      else if contains_line_break (at_ContentType a) then Some (MB_InvalidAttachment, ''attachments'')
      else validateAttachments as)"

definition encodeHeaderValue :: "build_lib \<Rightarrow> string \<Rightarrow> string" where
  "encodeHeaderValue b v = (if list_ex (\<lambda>c. ord c \<ge> 128) v then bl_QEncode b v else v)"

definition addressStrings :: "mailbox list \<Rightarrow> string list" where
  "addressStrings addrs = map snd addrs"

definition dedupe :: "string list list \<Rightarrow> string list" where
  "dedupe ls = nub_by (\<lambda>a. a) [] (concat ls)"

section \<open>Writing\<close>

text \<open>\<^verbatim>\<open>strings.Trim(s, "<>")\<close>.\<close>

definition trim_angles :: "string \<Rightarrow> string" where
  "trim_angles s = (let p = (\<lambda>c. c = CHR ''<'' \<or> c = CHR ''>'') in rev (dropWhile p (rev (dropWhile p s))))"

definition writeAttachment :: "Attachment \<Rightarrow> mime_file" where
  "writeAttachment a =
     (let contentType = (if trim_space (at_ContentType a) = [] then ''application/octet-stream'' else trim_space (at_ContentType a)) in
      if at_ContentID a = [] then Attached contentType (at_Filename a) (at_Content a)
      else Inlined contentType (at_Filename a) (''<'' @ trim_angles (at_ContentID a) @ ''>'') (at_Content a))"

definition writeBodyParts :: "Build_Input \<Rightarrow> bool \<Rightarrow> bool \<Rightarrow> (string \<times> string) list" where
  "writeBodyParts inp hasText hasHTML =
     (if hasText then [(''text/plain'', bi_Text inp)] else []) @ (if hasHTML then [(''text/html'', bi_HTML inp)] else [])"

definition writeMessage :: "build_lib \<Rightarrow> header_op list \<Rightarrow> Build_Input \<Rightarrow> string option" where
  "writeMessage b header inp =
     (let hasText = trim_space (bi_Text inp) \<noteq> []; hasHTML = trim_space (bi_HTML inp) \<noteq> [] in
      if bi_Attachments inp = [] \<and> hasText \<noteq> hasHTML
      then let (body, contentType) = (if hasHTML then (bi_HTML inp, ''text/html'') else (bi_Text inp, ''text/plain'')) in
           bl_write b (header @ [SetContentType contentType]) (SingleInline body)
      else bl_write b header (Multipart (writeBodyParts inp hasText hasHTML) (map writeAttachment (bi_Attachments inp))))"

definition build_header :: "build_lib \<Rightarrow> Build_Options \<Rightarrow> Build_Input \<Rightarrow> mailbox \<Rightarrow> mailbox list \<Rightarrow> mailbox list \<Rightarrow> mailbox list \<Rightarrow> header_op list" where
  "build_header b opts inp from to cc replyTo =
     [SetAddressList ''From'' [from]] @ (if to \<noteq> [] then [SetAddressList ''To'' to] else []) @
     (if cc \<noteq> [] then [SetAddressList ''Cc'' cc] else []) @ (if replyTo \<noteq> [] then [SetAddressList ''Reply-To'' replyTo] else []) @
     [SetSubject (bi_Subject inp), SetDate (bo_Now opts)] @
     map (\<lambda>(key, v). SetField key (encodeHeaderValue b v)) (bl_order b (bi_Headers inp))"

definition build_result :: "build_lib \<Rightarrow> Build_Options \<Rightarrow> Build_Input \<Rightarrow> mailbox \<times> Address \<Rightarrow> mailbox list \<Rightarrow> mailbox list \<Rightarrow> mailbox list \<Rightarrow>
    mailbox list \<Rightarrow> idna_lib \<Rightarrow> (build_error, Build_Result) result" where
  "build_result b opts inp sender to cc bcc replyTo x =
     (let res = \<lparr>br_Raw = [], br_From = snd sender, br_To = addressStrings to, br_Cc = addressStrings cc, br_Bcc = addressStrings bcc,
                 br_Envelope = dedupe [addressStrings to, addressStrings cc, addressStrings bcc], br_Subject = []\<rparr> in
      if br_Envelope res = [] then Inl (MB_MissingRecipients, ''to'')
      else if bo_MaxRecipients opts > 0 \<and> int (length (br_Envelope res)) > bo_MaxRecipients opts then Inl (MB_TooManyRecipients, ''to'')
      else if trim_space (bi_Text inp) = [] \<and> trim_space (bi_HTML inp) = [] then Inl (MB_MissingBody, ''text'')
      else (case validateHeaders x (bi_Headers inp) of
         Some e \<Rightarrow> Inl e
       | None \<Rightarrow>
           (case validateAttachments (bi_Attachments inp) of
              Some e \<Rightarrow> Inl e
            | None \<Rightarrow>
                (case writeMessage b (build_header b opts inp (fst sender) to cc replyTo) inp of
                   None \<Rightarrow> Inl ([], [])
                 | Some raw \<Rightarrow>
                     if bo_MaxBytes opts > 0 \<and> int (length raw) > bo_MaxBytes opts then Inl (MB_TooLarge, ''attachments'')
                     else Inr (res\<lparr>br_Raw := raw, br_Subject := bi_Subject inp\<rparr>)))))"

definition Build :: "build_lib \<Rightarrow> idna_lib \<Rightarrow> Build_Input \<Rightarrow> Build_Options \<Rightarrow> (build_error, Build_Result) result" where
  "Build b x inp opts =
     (case parseSender b x (bi_From inp) of
        Inl e \<Rightarrow> Inl e
      | Inr sender \<Rightarrow>
     (case parseAddressList b x ''to'' (bi_To inp) of
        Inl e \<Rightarrow> Inl e
      | Inr to \<Rightarrow>
     (case parseAddressList b x ''cc'' (bi_Cc inp) of
        Inl e \<Rightarrow> Inl e
      | Inr cc \<Rightarrow>
     (case parseAddressList b x ''bcc'' (bi_Bcc inp) of
        Inl e \<Rightarrow> Inl e
      | Inr bcc \<Rightarrow>
     (case parseAddressList b x ''reply_to'' (bi_ReplyTo inp) of
        Inl e \<Rightarrow> Inl e
      | Inr replyTo \<Rightarrow> build_result b opts inp sender to cc bcc replyTo x)))))"

section \<open>What is built\<close>

definition build_lawful :: "build_lib \<Rightarrow> bool" where
  "build_lawful b \<longleftrightarrow> (\<forall>h. mset (bl_order b h) = mset h)"

definition reads_as :: "build_lib \<Rightarrow> idna_lib \<Rightarrow> string \<Rightarrow> string \<Rightarrow> bool" where
  "reads_as b x v r \<longleftrightarrow> (\<exists>name address a. bl_ParseAddress b (trim_space v) = Some (name, address) \<and> ParseAddress x address = Inr a \<and>
     r = Address_String a)"

lemma parseSender_Inr:
  "parseSender b x v = Inr (mb, a) \<Longrightarrow> snd mb = Address_String a \<and>
     (\<exists>address. bl_ParseAddress b (trim_space v) = Some (fst mb, address) \<and> ParseAddress x address = Inr a)"
  by (auto simp: parseSender_def Let_def split: if_splits option.splits sum.splits)

lemma parseAddressList_Inr: "parseAddressList b x field vs = Inr out \<Longrightarrow> list_all2 (reads_as b x) vs (addressStrings out)"
proof (induction vs arbitrary: out)
  case (Cons v vs)
  then obtain name address a o' where "bl_ParseAddress b (trim_space v) = Some (name, address)" "ParseAddress x address = Inr a"
    "parseAddressList b x field vs = Inr o'" "out = (name, Address_String a) # o'"
    by (auto simp: Let_def split: if_splits option.splits sum.splits)
  with Cons.IH show ?case by (auto simp: addressStrings_def reads_as_def)
qed (simp add: addressStrings_def)

lemma dedupe_parts: "distinct (dedupe ls)" "set (dedupe ls) = \<Union> (set ` set ls)" "dedupe ls = [] \<longleftrightarrow> concat ls = []"
proof -
  show d: "distinct (dedupe ls)" using nub_by_distinct [of "\<lambda>a. a" "[]" "concat ls"] by (simp add: dedupe_def)
  show s: "set (dedupe ls) = \<Union> (set ` set ls)" using nub_by_keys [of "\<lambda>a. a" "[]" "concat ls"] by (simp add: dedupe_def)
  show "dedupe ls = [] \<longleftrightarrow> concat ls = []" using s by (metis set_concat set_empty)
qed

definition field_ok :: "idna_lib \<Rightarrow> string \<times> string \<Rightarrow> bool" where
  "field_ok x kv \<longleftrightarrow> to_lower (unicode_lower x) (trim_space (fst kv)) \<notin> set reservedHeaders \<and> \<not> contains_line_break (snd kv) \<and>
     trim_space (fst kv) \<noteq> [] \<and> list_all (\<lambda>c. 32 < ord c \<and> ord c < 127 \<and> c \<noteq> CHR '':'') (trim_space (fst kv))"

lemma validateHeaders_None: "validateHeaders x hs = None \<longleftrightarrow> list_all (field_ok x) hs"
proof (induction x hs rule: validateHeaders.induct)
  case (2 x key v hs)
  have "list_all (\<lambda>c. 32 < ord c \<and> ord c < 127 \<and> c \<noteq> CHR '':'') t \<longleftrightarrow> \<not> list_ex (\<lambda>c. ord c \<le> 32 \<or> ord c \<ge> 127 \<or> c = CHR '':'') t" for t
    unfolding list_all_iff list_ex_iff by (meson not_less)
  with 2 show ?case unfolding validateHeaders.simps Let_def field_ok_def list.pred_inject by simp
qed simp

definition file_ok :: "Attachment \<Rightarrow> bool" where
  "file_ok a \<longleftrightarrow> trim_space (at_Filename a) \<noteq> [] \<and> \<not> contains_line_break (trim_space (at_Filename a)) \<and> at_Content a \<noteq> [] \<and>
     \<not> contains_line_break (at_ContentType a) \<and> list_all (\<lambda>c. c \<noteq> CHR ''/'' \<and> c \<noteq> CHR 0x5C) (trim_space (at_Filename a))"

lemma validateAttachments_None: "validateAttachments as = None \<longleftrightarrow> list_all file_ok as"
proof (induction as)
  case (Cons a as)
  have "list_all (\<lambda>c. c \<noteq> CHR ''/'' \<and> c \<noteq> CHR 0x5C) t \<longleftrightarrow> \<not> list_ex (\<lambda>c. c = CHR ''/'' \<or> c = CHR 0x5C) t" for t
    unfolding list_all_iff list_ex_iff by blast
  then have "file_ok a \<longleftrightarrow> validateAttachments [a] = None" by (simp add: file_ok_def Let_def)
  with Cons.IH show ?case by (simp add: Let_def)
qed simp

lemma build_result_Inr:
  assumes "build_result b opts inp sender to cc bcc replyTo x = Inr res"
  shows "res = \<lparr>br_Raw = br_Raw res, br_From = snd sender, br_To = addressStrings to, br_Cc = addressStrings cc, br_Bcc = addressStrings bcc,
      br_Envelope = dedupe [addressStrings to, addressStrings cc, addressStrings bcc], br_Subject = bi_Subject inp\<rparr>"
    "br_Envelope res \<noteq> []" "within (bo_MaxRecipients opts) (length (br_Envelope res))" "within (bo_MaxBytes opts) (length (br_Raw res))"
    "trim_space (bi_Text inp) \<noteq> [] \<or> trim_space (bi_HTML inp) \<noteq> []" "list_all (field_ok x) (bi_Headers inp)" "list_all file_ok (bi_Attachments inp)"
    "writeMessage b (build_header b opts inp (fst sender) to cc replyTo) inp = Some (br_Raw res)"
  using assms by (auto simp: build_result_def Let_def within_def validateHeaders_None [symmetric] validateAttachments_None [symmetric]
      split: if_splits option.splits)

text \<open>The calls on a header that name a sender, blind recipients, or anything else a client may not set.\<close>

definition op_ok :: "idna_lib \<Rightarrow> Build_Input \<Rightarrow> header_op \<Rightarrow> bool" where
  "op_ok x inp op \<longleftrightarrow>
     (case op of
        SetAddressList name _ \<Rightarrow> name \<in> {''From'', ''To'', ''Cc'', ''Reply-To''}
      | SetField key _ \<Rightarrow> (\<exists>v. (key, v) \<in> set (bi_Headers inp) \<and> field_ok x (key, v))
      | _ \<Rightarrow> True)"

definition from_ops :: "header_op list \<Rightarrow> header_op list" where
  "from_ops ops = filter (\<lambda>op. case op of SetAddressList name _ \<Rightarrow> name = ''From'' | _ \<Rightarrow> False) ops"

lemma build_header_ok:
  assumes "build_lawful b" "list_all (field_ok x) (bi_Headers inp)"
  shows "list_all (op_ok x inp) (build_header b opts inp from to cc replyTo)"
    "from_ops (build_header b opts inp from to cc replyTo) = [SetAddressList ''From'' [from]]"
proof -
  have s: "set (bl_order b (bi_Headers inp)) = set (bi_Headers inp)" using assms(1) by (metis build_lawful_def set_mset_mset)
  show "list_all (op_ok x inp) (build_header b opts inp from to cc replyTo)"
    using assms(2) by (fastforce simp: build_header_def op_ok_def list_all_iff s)
  show "from_ops (build_header b opts inp from to cc replyTo) = [SetAddressList ''From'' [from]]"
    by (auto simp: build_header_def from_ops_def filter_empty_conv)
qed


section \<open>Witnesses\<close>

definition demo_build :: build_lib where
  "demo_build = \<lparr>bl_ParseAddress = (\<lambda>s. Some ([], s)), bl_order = (\<lambda>h. h), bl_QEncode = (\<lambda>s. s),
     bl_write = (\<lambda>ops m. case m of SingleInline body \<Rightarrow> Some (''From: bob@example.com'' @ [LF, LF] @ body) | _ \<Rightarrow> None)\<rparr>"

definition demo_input :: Build_Input where
  "demo_input = \<lparr>bi_From = ''Bob@example.com'', bi_To = [''Eve@example.org'', ''eve@EXAMPLE.org''], bi_Cc = [], bi_Bcc = [''mal@example.org''],
     bi_ReplyTo = [], bi_Subject = ''hi'', bi_Text = ''hello'', bi_HTML = [], bi_Headers = [(''X-Tag'', ''a'')], bi_Attachments = []\<rparr>"

definition demo_build_options :: Build_Options where
  "demo_build_options = \<lparr>bo_MaxRecipients = 5, bo_MaxBytes = 1000, bo_Now = 0\<rparr>"

lemma demo_built: "map_sum (\<lambda>e. e) br_Envelope (Build demo_build ascii_idna demo_input demo_build_options) = Inr [''eve@example.org'', ''mal@example.org'']"
  by code_simp


text \<open>
  Two gaps of the validation: a field name is checked without the white space around it but written with it, line breaks included, and the content id of an
  inline file is not checked at all.
\<close>

lemma unchecked_line_breaks:
  "validateHeaders ascii_idna [(''X-Tag'' @ [CR, LF], ''a'')] = None \<and>
   from_ops [SetField (''X-Tag'' @ [CR, LF]) ''a''] = [] \<and>
   validateAttachments [\<lparr>at_Filename = ''a'', at_ContentType = [], at_Content = ''x'', at_ContentID = ''i'' @ [CR, LF] @ ''X: y''\<rparr>] = None \<and>
   writeAttachment \<lparr>at_Filename = ''a'', at_ContentType = [], at_Content = ''x'', at_ContentID = ''i'' @ [CR, LF] @ ''X: y''\<rparr> =
     Inlined ''application/octet-stream'' ''a'' (''<i'' @ [CR, LF] @ ''X: y>'') ''x''"
  by code_simp

end
