(* ===== verification/Sender.thy ===== *)
theory Sender
  imports Store_Routing
begin

text \<open>
  Delivery to an outbound relay: \<^verbatim>\<open>src/internal/sender/sender.go\<close>.

  The relay, and \<^verbatim>\<open>go-smtp\<close> in between, are the parameter \<open>relay\<close>: what each command of one attempt returns, and whether the
  connection is encrypted. Every function returns the commands it sent next to its result, so that what goes over the wire can be
  spoken of. An error of the libraries is the record of what the source asks of it with \<^verbatim>\<open>errors.Is\<close> and \<^verbatim>\<open>errors.As\<close>. The
  deadlines and the watchdog only decide when a command fails, which the parameter leaves open.

  The per-backend connection slots are a state machine of their own: \<^verbatim>\<open>acquire\<close> and the release it returns.
\<close>

section \<open>Errors\<close>

datatype Kind = KindTransient | KindPermanent

definition CodeDial :: string where "CodeDial = ''dial_failed''"
definition CodeTLS :: string where "CodeTLS = ''tls_failed''"
definition CodeEHLO :: string where "CodeEHLO = ''ehlo_failed''"
definition CodeAuthUnsupported :: string where "CodeAuthUnsupported = ''auth_unsupported''"
definition CodeAuthFailed :: string where "CodeAuthFailed = ''auth_failed''"
definition CodeAuthInsecure :: string where "CodeAuthInsecure = ''auth_insecure''"
definition CodeMailFrom :: string where "CodeMailFrom = ''mail_from_rejected''"
definition CodeAllRecipientsRejected :: string where "CodeAllRecipientsRejected = ''all_recipients_rejected''"
definition CodeDataRejected :: string where "CodeDataRejected = ''data_rejected''"
definition CodeWriteFailed :: string where "CodeWriteFailed = ''write_failed''"
definition CodeTimeout :: string where "CodeTimeout = ''timeout''"
definition CodeCanceled :: string where "CodeCanceled = ''canceled''"
definition CodeInternal :: string where "CodeInternal = ''internal_error''"
definition CodePartialRecipients :: string where "CodePartialRecipients = ''partial_recipients''"

record go_err =
  ge_canceled :: bool
  ge_deadline :: bool
  ge_tls :: bool
  ge_smtp :: "(int \<times> string) option"
  ge_timeout :: bool
  ge_eof :: bool
  ge_text :: string

record Send_Error =
  se_Kind :: Kind
  se_Code :: string
  se_Detail :: string
  se_SMTPCode :: int

definition summarize :: "go_err \<Rightarrow> string" where
  "summarize e =
     (case ge_smtp e of
        Some (code, text) \<Rightarrow>
          (let message = trim_space text in if message = [] then show_int code else show_int code @ '' '' @ message)
      | None \<Rightarrow> if ge_eof e then ''the relay closed the connection'' else ge_text e)"

definition smtpCode :: "go_err \<Rightarrow> int" where
  "smtpCode e = (case ge_smtp e of Some (code, _) \<Rightarrow> code | None \<Rightarrow> 0)"

definition contextError :: "go_err \<Rightarrow> string \<Rightarrow> Send_Error" where
  "contextError e what = \<lparr>se_Kind = KindTransient, se_Code = (if ge_deadline e then CodeTimeout else CodeCanceled), se_Detail = what, se_SMTPCode = 0\<rparr>"

definition classify_send :: "string \<Rightarrow> string \<Rightarrow> go_err \<Rightarrow> Send_Error" where
  "classify_send code what e =
     (if ge_canceled e \<or> ge_deadline e then contextError e what
      else if ge_tls e then \<lparr>se_Kind = KindTransient, se_Code = CodeTLS, se_Detail = what @ '': '' @ summarize e, se_SMTPCode = 0\<rparr>
      else (case ge_smtp e of
         Some (n, _) \<Rightarrow> \<lparr>se_Kind = (if n \<ge> 500 then KindPermanent else KindTransient), se_Code = code,
                         se_Detail = what @ '': '' @ summarize e, se_SMTPCode = n\<rparr>
       | None \<Rightarrow>
           if ge_timeout e then \<lparr>se_Kind = KindTransient, se_Code = CodeTimeout, se_Detail = what @ '': timed out'', se_SMTPCode = 0\<rparr>
           else \<lparr>se_Kind = KindTransient, se_Code = code, se_Detail = what @ '': '' @ summarize e, se_SMTPCode = 0\<rparr>))"

definition internal_error :: "string \<Rightarrow> Send_Error" where
  "internal_error detail = \<lparr>se_Kind = KindPermanent, se_Code = CodeInternal, se_Detail = detail, se_SMTPCode = 0\<rparr>"

definition refused_locally :: "string \<Rightarrow> string \<Rightarrow> Send_Error" where
  "refused_locally code detail = \<lparr>se_Kind = KindPermanent, se_Code = code, se_Detail = detail, se_SMTPCode = 0\<rparr>"

definition IsPermanent :: "Send_Error \<Rightarrow> bool" where
  "IsPermanent e \<longleftrightarrow> se_Kind e = KindPermanent"

definition Send_Error_text :: "Send_Error \<Rightarrow> string" where
  "Send_Error_text e = (if se_Detail e = [] then se_Code e else se_Code e @ '': '' @ se_Detail e)"

section \<open>Messages and results\<close>

record Outbound =
  out_From :: string
  out_Recipients :: "string list"
  out_Raw :: string

record RejectedRecipient =
  rr_Address :: string
  rr_SMTPCode :: int
  rr_Detail :: string

record Send_Result =
  sr_Accepted :: "string list"
  sr_Rejected :: "RejectedRecipient list"
  sr_Response :: string
  sr_UsedTLS :: bool

definition Partial :: "Send_Result \<Rightarrow> bool" where
  "Partial r \<longleftrightarrow> length (sr_Rejected r) > 0"

definition RejectedDetail :: "Send_Result \<Rightarrow> string" where
  "RejectedDetail r = (if sr_Rejected r = [] then [] else
     join_with ''; '' (map (\<lambda>x. rr_Address x @ '' ('' @ show_int (rr_SMTPCode x) @ '' '' @ rr_Detail x @ '')'') (sr_Rejected r)))"

section \<open>Configuration\<close>

record Send_Config =
  sc_Timeout :: int
  sc_HeloName :: string
  sc_MinTLSVersion :: int
  sc_InsecureSkipVerifyHosts :: "string list"

definition VersionTLS12 :: int where "VersionTLS12 = 771"

text \<open>\<^verbatim>\<open>New\<close>: the defaults; two minutes in nanoseconds.\<close>

definition sender_New :: "Send_Config \<Rightarrow> Send_Config" where
  "sender_New cfg = cfg\<lparr>sc_Timeout := (if sc_Timeout cfg \<le> 0 then 120 * nanos_per_second else sc_Timeout cfg),
     sc_MinTLSVersion := (if sc_MinTLSVersion cfg = 0 then VersionTLS12 else sc_MinTLSVersion cfg),
     sc_HeloName := (if sc_HeloName cfg = [] then ''localhost'' else sc_HeloName cfg)\<rparr>"

text \<open>
  \<open>text_lib\<close>: what the standard library does to text that is not ASCII, and \<^verbatim>\<open>net.ParseIP\<close> with \<^verbatim>\<open>IsLoopback\<close> and
  \<^verbatim>\<open>IsPrivate\<close> of its result.
\<close>

record text_lib =
  tx_lower :: "string \<Rightarrow> string"
  tx_upper :: "string \<Rightarrow> string"
  tx_fold :: "string \<Rightarrow> string \<Rightarrow> bool"
  tx_ip :: "string \<Rightarrow> (bool \<times> bool) option"

definition ascii_upper :: "char \<Rightarrow> char" where
  "ascii_upper c = (if is_lower c then char_of (ord c - 32) else c)"

definition to_upper :: "text_lib \<Rightarrow> string \<Rightarrow> string" where
  "to_upper x s = (if list_all is_ascii s then map ascii_upper s else tx_upper x s)"

definition equal_fold :: "text_lib \<Rightarrow> string \<Rightarrow> string \<Rightarrow> bool" where
  "equal_fold x s t = (if list_all is_ascii s \<and> list_all is_ascii t then map ascii_lower s = map ascii_lower t else tx_fold x s t)"

definition isLocalHost :: "text_lib \<Rightarrow> string \<Rightarrow> bool" where
  "isLocalHost x host =
     (if to_lower (tx_lower x) host \<in> {''localhost'', ''127.0.0.1'', ''::1'', ''mailpit''} then True
      else (case tx_ip x host of Some (loopback, private) \<Rightarrow> loopback \<or> private | None \<Rightarrow> False))"

record tls_config =
  tc_ServerName :: string
  tc_MinVersion :: int
  tc_InsecureSkipVerify :: bool

definition tlsConfig :: "text_lib \<Rightarrow> Send_Config \<Rightarrow> SenderRoute \<Rightarrow> tls_config" where
  "tlsConfig x cfg route = \<lparr>tc_ServerName = sr_Host route, tc_MinVersion = sc_MinTLSVersion cfg,
     tc_InsecureSkipVerify = list_ex (\<lambda>host. equal_fold x (trim_space host) (sr_Host route) \<and> isLocalHost x (sr_Host route))
       (sc_InsecureSkipVerifyHosts cfg)\<rparr>"

definition heloName :: "Send_Config \<Rightarrow> SenderRoute \<Rightarrow> string" where
  "heloName cfg route = (if sr_HeloName route \<noteq> [] then sr_HeloName route else sc_HeloName cfg)"

section \<open>The relay\<close>

record relay =
  rl_dial :: "go_err option"
  rl_starttls :: "go_err option"
  rl_hello :: "go_err option"
  rl_encrypted :: bool
  rl_extension :: "string \<Rightarrow> string option"
  rl_auth :: "go_err option"
  rl_mail :: "go_err option"
  rl_rcpt :: "nat \<Rightarrow> go_err option"
  rl_data :: "go_err option"
  rl_write :: "go_err option"
  rl_close :: "go_err + string option"
  rl_quit :: "go_err option"

datatype auth_mechanism = AuthPlain | AuthLogin

datatype wire =
    Connect bool tls_config
  | StartTLS tls_config
  | Hello string
  | Auth auth_mechanism string string
  | MailFrom string
  | RcptTo string
  | Data
  | Payload string
  | Quit

section \<open>One attempt\<close>

definition Route_Address :: "SenderRoute \<Rightarrow> string" where
  "Route_Address r = sr_Host r @ '':'' @ show_int (sr_Port r)"

definition sender_dial :: "text_lib \<Rightarrow> Send_Config \<Rightarrow> SenderRoute \<Rightarrow> relay \<Rightarrow> wire list \<times> (Send_Error, unit) result" where
  "sender_dial x cfg route rl =
     ([Connect (sr_TLSMode route = TLSModeImplicit) (tlsConfig x cfg route)],
      case rl_dial rl of
        None \<Rightarrow> Inr ()
      | Some e \<Rightarrow>
          Inl (classify_send (if sr_TLSMode route = TLSModeImplicit \<and> ge_tls e then CodeTLS else CodeDial) (''connect to '' @ Route_Address route) e))"

definition pickAuthMechanism :: "text_lib \<Rightarrow> SenderRoute \<Rightarrow> relay \<Rightarrow> (Send_Error, auth_mechanism) result" where
  "pickAuthMechanism x route rl =
     (case rl_extension rl ''AUTH'' of
        None \<Rightarrow> Inl (refused_locally CodeAuthUnsupported (sr_Host route @ '' does not advertise AUTH, but a credential is configured for it''))
      | Some mechanisms \<Rightarrow>
          (let offered = to_upper x mechanisms in
           if contains_sub offered ''PLAIN'' then Inr AuthPlain
           else if contains_sub offered ''LOGIN'' then Inr AuthLogin
           else Inl (refused_locally CodeAuthUnsupported
                  (sr_Host route @ '' offers AUTH '' @ mechanisms @ ''; relais supports PLAIN and LOGIN''))))"

definition authenticate :: "text_lib \<Rightarrow> SenderRoute \<Rightarrow> relay \<Rightarrow> wire list \<times> (Send_Error, unit) result" where
  "authenticate x route rl =
     (if \<not> UsesAuth route then ([], Inr ())
      else if \<not> rl_encrypted rl
      then ([], Inl (refused_locally CodeAuthInsecure (''refusing to send SMTP AUTH over an unencrypted connection to '' @ sr_Host route)))
      else (case pickAuthMechanism x route rl of
         Inl e \<Rightarrow> ([], Inl e)
       | Inr mech \<Rightarrow>
           ([Auth mech (sr_AuthUser route) (Reveal (sr_AuthPassword route))],
            case rl_auth rl of
              None \<Rightarrow> Inr ()
            | Some e \<Rightarrow> Inl \<lparr>se_Kind = KindPermanent, se_Code = CodeAuthFailed, se_Detail = summarize e, se_SMTPCode = smtpCode e\<rparr>)))"

definition handshake :: "text_lib \<Rightarrow> Send_Config \<Rightarrow> SenderRoute \<Rightarrow> relay \<Rightarrow> wire list \<times> (Send_Error, unit) result" where
  "handshake x cfg route rl =
     (let starttls = (if sr_TLSMode route = TLSModeSTARTTLS then [StartTLS (tlsConfig x cfg route)] else []) in
      case (if sr_TLSMode route = TLSModeSTARTTLS then rl_starttls rl else None) of
        Some e \<Rightarrow> (starttls, Inl (classify_send CodeTLS (''STARTTLS with '' @ sr_Host route) e))
      | None \<Rightarrow>
          (let sent = starttls @ [Hello (heloName cfg route)] in
           case rl_hello rl of
             Some e \<Rightarrow> (sent, Inl (classify_send CodeEHLO ''EHLO'' e))
           | None \<Rightarrow> (case authenticate x route rl of (ws, r) \<Rightarrow> (sent @ ws, r))))"

text \<open>The recipients one by one; \<open>i\<close> numbers the command.\<close>

fun rcpt_loop :: "relay \<Rightarrow> nat \<Rightarrow> string list \<Rightarrow> string list \<times> RejectedRecipient list" where
  "rcpt_loop rl i [] = ([], [])"
| "rcpt_loop rl i (r # rs) =
     (case rcpt_loop rl (Suc i) rs of (accepted, rejected) \<Rightarrow>
        (case rl_rcpt rl i of
           Some e \<Rightarrow> (accepted, \<lparr>rr_Address = r, rr_SMTPCode = smtpCode e, rr_Detail = summarize e\<rparr> # rejected)
         | None \<Rightarrow> (r # accepted, rejected)))"

definition rejection_kind :: "RejectedRecipient list \<Rightarrow> Kind" where
  "rejection_kind rejected =
     (if list_ex (\<lambda>r. rr_SMTPCode r \<ge> 400 \<and> rr_SMTPCode r < 500) rejected then KindTransient else KindPermanent)"

definition deliver :: "relay \<Rightarrow> Outbound \<Rightarrow> wire list \<times> Send_Result \<times> Send_Error option" where
  "deliver rl msg =
     (let result0 = \<lparr>sr_Accepted = [], sr_Rejected = [], sr_Response = [], sr_UsedTLS = rl_encrypted rl\<rparr>; sent0 = [MailFrom (out_From msg)] in
      case rl_mail rl of
        Some e \<Rightarrow> (sent0, result0, Some (classify_send CodeMailFrom (''MAIL FROM '' @ out_From msg) e))
      | None \<Rightarrow>
          (let (accepted, rejected) = rcpt_loop rl 0 (out_Recipients msg);
               result = result0\<lparr>sr_Accepted := accepted, sr_Rejected := rejected\<rparr>;
               sent = sent0 @ map RcptTo (out_Recipients msg) in
           if accepted = []
           then (sent, result, Some \<lparr>se_Kind = rejection_kind rejected, se_Code = CodeAllRecipientsRejected,
                                     se_Detail = RejectedDetail result, se_SMTPCode = 0\<rparr>)
           else (case rl_data rl of
              Some e \<Rightarrow> (sent @ [Data], result, Some (classify_send CodeDataRejected ''DATA'' e))
            | None \<Rightarrow>
                (case rl_write rl of
                   Some e \<Rightarrow> (sent @ [Data, Payload (out_Raw msg)], result, Some (classify_send CodeWriteFailed ''writing the message'' e))
                 | None \<Rightarrow>
                     (case rl_close rl of
                        Inl e \<Rightarrow> (sent @ [Data, Payload (out_Raw msg)], result, Some (classify_send CodeDataRejected ''end of DATA'' e))
                      | Inr response \<Rightarrow>
                          (sent @ [Data, Payload (out_Raw msg), Quit],
                           (case response of None \<Rightarrow> result | Some text \<Rightarrow> result\<lparr>sr_Response := trim_space text\<rparr>), None))))))"

text \<open>
  \<^verbatim>\<open>Send\<close>. \<open>slot = Some e\<close>: the context ended with \<open>e\<close> before a connection slot was free.
\<close>

definition no_result :: Send_Result where
  "no_result = \<lparr>sr_Accepted = [], sr_Rejected = [], sr_Response = [], sr_UsedTLS = False\<rparr>"

definition Send :: "text_lib \<Rightarrow> Send_Config \<Rightarrow> go_err option \<Rightarrow> SenderRoute \<Rightarrow> relay \<Rightarrow> Outbound \<Rightarrow> wire list \<times> Send_Result \<times> Send_Error option" where
  "Send x cfg slot route rl msg =
     (if out_Recipients msg = [] then ([], no_result, Some (internal_error ''no recipients''))
      else if out_Raw msg = [] then ([], no_result, Some (internal_error ''empty message''))
      else (case slot of
         Some e \<Rightarrow> ([], no_result, Some (contextError e (''waiting for a free connection slot to '' @ sr_BackendName route)))
       | None \<Rightarrow>
           (case sender_dial x cfg route rl of
              (ws, Inl e) \<Rightarrow> (ws, no_result, Some e)
            | (ws, Inr _) \<Rightarrow>
                (case handshake x cfg route rl of
                   (ws', Inl e) \<Rightarrow> (ws @ ws', no_result, Some e)
                 | (ws', Inr _) \<Rightarrow> (case deliver rl msg of (ws'', result, err) \<Rightarrow> (ws @ ws' @ ws'', result, err))))))"

section \<open>Probing\<close>

record ProbeResult =
  pr_UsedTLS :: bool
  pr_Authenticated :: bool
  pr_Extensions :: "string list"

definition probe_extensions :: "relay \<Rightarrow> string list" where
  "probe_extensions rl = List.map_filter (\<lambda>ext. map_option (\<lambda>params. if params = [] then ext else ext @ '' '' @ params) (rl_extension rl ext))
     [''AUTH'', ''STARTTLS'', ''SIZE'', ''8BITMIME'', ''PIPELINING'', ''ENHANCEDSTATUSCODES'']"

definition Probe :: "text_lib \<Rightarrow> Send_Config \<Rightarrow> go_err option \<Rightarrow> SenderRoute \<Rightarrow> relay \<Rightarrow> wire list \<times> (Send_Error, ProbeResult) result" where
  "Probe x cfg slot route rl =
     (case slot of
        Some e \<Rightarrow> ([], Inl (contextError e (''waiting for a free connection slot to '' @ sr_BackendName route)))
      | None \<Rightarrow>
          (case sender_dial x cfg route rl of
             (ws, Inl e) \<Rightarrow> (ws, Inl e)
           | (ws, Inr _) \<Rightarrow>
               (case handshake x cfg route rl of
                  (ws', Inl e) \<Rightarrow> (ws @ ws', Inl e)
                | (ws', Inr _) \<Rightarrow>
                    (ws @ ws' @ [Quit], Inr \<lparr>pr_UsedTLS = rl_encrypted rl, pr_Authenticated = UsesAuth route,
                                           pr_Extensions = probe_extensions rl\<rparr>))))"

section \<open>Connection slots\<close>

text \<open>
  Channels are numbered in the order they are made; each has its capacity and the number of tokens in it. \<open>slots\<close> is the map of
  the sender, from a backend to the channel in use.
\<close>

record slot_state =
  chans :: "(nat \<times> nat) list"
  slots :: "(uuid \<times> nat) list"

definition slot_size :: "SenderRoute \<Rightarrow> nat" where
  "slot_size route = (if sr_MaxConcurrency route < 1 then 1 else nat (sr_MaxConcurrency route))"

definition acquire_channel :: "slot_state \<Rightarrow> SenderRoute \<Rightarrow> slot_state \<times> nat" where
  "acquire_channel st route =
     (let cap = slot_size route; fresh = length (chans st) in
      case map_of (slots st) (sr_BackendID route) of
        Some c \<Rightarrow>
          if fst (chans st ! c) \<noteq> cap
          then (st\<lparr>chans := chans st @ [(cap, 0)], slots := AList.update (sr_BackendID route) fresh (slots st)\<rparr>, fresh)
          else (st, c)
      | None \<Rightarrow> (st\<lparr>chans := chans st @ [(cap, 0)], slots := AList.update (sr_BackendID route) fresh (slots st)\<rparr>, fresh))"

definition put_token :: "slot_state \<Rightarrow> nat \<Rightarrow> slot_state option" where
  "put_token st c =
     (case chans st ! c of (cap, used) \<Rightarrow> if used < cap then Some (st\<lparr>chans := (chans st)[c := (cap, Suc used)]\<rparr>) else None)"

definition take_token :: "slot_state \<Rightarrow> nat \<Rightarrow> slot_state" where
  "take_token st c = (case chans st ! c of (cap, used) \<Rightarrow> st\<lparr>chans := (chans st)[c := (cap, used - 1)]\<rparr>)"

text \<open>
  Deliveries run concurrently. A delivery enters (finding its channel under the lock), waits until it can put a token or its context ends,
  and takes a token back when it finishes. \<open>ok_route\<close> limits the routes that are used.
\<close>

inductive slot_reach :: "(SenderRoute \<Rightarrow> bool) \<Rightarrow> slot_state \<Rightarrow> (uuid \<times> nat) list \<Rightarrow> (uuid \<times> nat) list \<Rightarrow> bool" for ok_route where
  slot_init: "slot_reach ok_route \<lparr>chans = [], slots = []\<rparr> [] []"
| slot_enter: "slot_reach ok_route st waiting running \<Longrightarrow> ok_route route \<Longrightarrow> acquire_channel st route = (st', c) \<Longrightarrow>
    slot_reach ok_route st' ((sr_BackendID route, c) # waiting) running"
| slot_take: "slot_reach ok_route st waiting running \<Longrightarrow> (b, c) \<in> set waiting \<Longrightarrow> put_token st c = Some st' \<Longrightarrow>
    slot_reach ok_route st' (remove1 (b, c) waiting) ((b, c) # running)"
| slot_cancel: "slot_reach ok_route st waiting running \<Longrightarrow> (b, c) \<in> set waiting \<Longrightarrow>
    slot_reach ok_route st (remove1 (b, c) waiting) running"
| slot_finish: "slot_reach ok_route st waiting running \<Longrightarrow> (b, c) \<in> set running \<Longrightarrow>
    slot_reach ok_route (take_token st c) waiting (remove1 (b, c) running)"

inductive_cases slot_enterE: "slot_reach ok_route st ((b, c) # waiting) running"

definition tokens_ok :: "slot_state \<Rightarrow> (uuid \<times> nat) list \<Rightarrow> (uuid \<times> nat) list \<Rightarrow> bool" where
  "tokens_ok st waiting running \<longleftrightarrow>
     (\<forall>b c. (b, c) \<in> set waiting \<union> set running \<union> set (slots st) \<longrightarrow> c < length (chans st)) \<and>
     (\<forall>c < length (chans st). snd (chans st ! c) = length (filter (\<lambda>x. snd x = c) running) \<and> snd (chans st ! c) \<le> fst (chans st ! c))"

lemma tokens_okD:
  assumes "tokens_ok st waiting running"
  shows "(b, c) \<in> set waiting \<Longrightarrow> c < length (chans st)" "(b, c) \<in> set running \<Longrightarrow> c < length (chans st)"
    "(b, c) \<in> set (slots st) \<Longrightarrow> c < length (chans st)"
    "c < length (chans st) \<Longrightarrow> snd (chans st ! c) = length (filter (\<lambda>x. snd x = c) running)"
    "c < length (chans st) \<Longrightarrow> snd (chans st ! c) \<le> fst (chans st ! c)"
  using assms unfolding tokens_ok_def by blast+

lemma tokens_okI:
  assumes "length (chans st) = n" "\<And>b c. (b, c) \<in> set waiting \<union> set running \<union> set (slots st) \<Longrightarrow> c < n"
    and "\<And>c. c < n \<Longrightarrow> snd (chans st ! c) = length (filter (\<lambda>x. snd x = c) running) \<and> snd (chans st ! c) \<le> fst (chans st ! c)"
  shows "tokens_ok st waiting running"
  using assms unfolding tokens_ok_def by blast

lemma length_filter_remove1:
  "x \<in> set xs \<Longrightarrow> length (filter P (remove1 x xs)) = (if P x then length (filter P xs) - 1 else length (filter P xs))"
proof (induction xs)
  case (Cons a xs)
  have "P x \<Longrightarrow> x \<in> set xs \<Longrightarrow> 0 < length (filter P xs)" by (auto simp: filter_empty_conv)
  with Cons show ?case by auto
qed simp

lemma set_update_subset: "set (AList.update k v xs) \<subseteq> insert (k, v) (set xs)"
  by (induction xs) auto

lemma acquire_channel_cases:
  assumes "acquire_channel st route = (st', c)"
  obtains (same) "st' = st" "map_of (slots st) (sr_BackendID route) = Some c" "fst (chans st ! c) = slot_size route"
  | (fresh) "st' = st\<lparr>chans := chans st @ [(slot_size route, 0)], slots := AList.update (sr_BackendID route) c (slots st)\<rparr>"
      "c = length (chans st)" "map_of (slots st) (sr_BackendID route) = None \<or>
       (\<exists>c'. map_of (slots st) (sr_BackendID route) = Some c' \<and> fst (chans st ! c') \<noteq> slot_size route)"
proof (cases "\<exists>c'. map_of (slots st) (sr_BackendID route) = Some c' \<and> fst (chans st ! c') = slot_size route")
  case True
  with assms that(1) show ?thesis by (auto simp: acquire_channel_def Let_def)
next
  case False
  then have "st' = st\<lparr>chans := chans st @ [(slot_size route, 0)], slots := AList.update (sr_BackendID route) c (slots st)\<rparr>" "c = length (chans st)"
    using assms by (auto simp: acquire_channel_def Let_def split: option.splits)
  with False that(2) show ?thesis by (cases "map_of (slots st) (sr_BackendID route)") auto
qed

lemma tokens_ok_enter:
  assumes "tokens_ok st waiting running" "acquire_channel st route = (st', c)"
  shows "tokens_ok st' ((sr_BackendID route, c) # waiting) running"
  using assms(2)
proof (cases rule: acquire_channel_cases)
  case same
  then show ?thesis using assms(1) tokens_okD(3) [OF assms(1) map_of_SomeD [OF same(2)]] by (auto simp: tokens_ok_def)
next
  case fresh
  note D = tokens_okD [OF assms(1)]
  have z: "filter (\<lambda>x. snd x = c) running = []" using D(2) fresh(2) by (fastforce simp: filter_empty_conv)
  have "c' < Suc (length (chans st))" if "(b, c') \<in> set ((sr_BackendID route, c) # waiting) \<union> set running \<union> set (slots st')" for b c'
    using that D(1-3) fresh(1,2) set_update_subset [of "sr_BackendID route" c "slots st"] by (fastforce simp: less_Suc_eq)
  moreover have "snd (chans st' ! c') = length (filter (\<lambda>x. snd x = c') running) \<and> snd (chans st' ! c') \<le> fst (chans st' ! c')"
    if "c' < Suc (length (chans st))" for c'
    using that D(4,5) fresh(1,2) z by (cases "c' = c") (auto simp: nth_append)
  moreover have "length (chans st') = Suc (length (chans st))" using fresh(1) by simp
  ultimately show ?thesis by (intro tokens_okI)
qed

lemma slot_reach_tokens: "slot_reach ok_route st waiting running \<Longrightarrow> tokens_ok st waiting running"
proof (induction rule: slot_reach.induct)
  case (slot_take st waiting running b c st')
  note D = tokens_okD [OF slot_take.IH]
  have c: "c < length (chans st)" by (rule D(1) [OF slot_take(2)])
  obtain cap used where p: "chans st ! c = (cap, used)" by fastforce
  then have u: "used < cap" "st' = st\<lparr>chans := (chans st)[c := (cap, Suc used)]\<rparr>"
    using slot_take(3) by (auto simp: put_token_def split: if_splits)
  have w: "set (remove1 (b, c) waiting) \<subseteq> set waiting" by (rule set_remove1_subset)
  have "snd (chans st' ! c') = length (filter (\<lambda>x. snd x = c') ((b, c) # running)) \<and> snd (chans st' ! c') \<le> fst (chans st' ! c')"
    if "c' < length (chans st)" for c'
    using that D(4,5) [of c'] p u c by (auto simp: nth_list_update)
  moreover have "c' < length (chans st)" if "(b', c') \<in> set (remove1 (b, c) waiting) \<union> set ((b, c) # running) \<union> set (slots st')" for b' c'
    using that D(1-3) c w u(2) by auto
  moreover have "length (chans st') = length (chans st)" using u(2) by simp
  ultimately show ?case by (intro tokens_okI)
next
  case (slot_finish st waiting running b c)
  note D = tokens_okD [OF slot_finish.IH]
  have c: "c < length (chans st)" by (rule D(2) [OF slot_finish(2)])
  obtain cap used where p: "chans st ! c = (cap, used)" by fastforce
  have r: "set (remove1 (b, c) running) \<subseteq> set running" by (rule set_remove1_subset)
  have t: "take_token st c = st\<lparr>chans := (chans st)[c := (cap, used - 1)]\<rparr>" using p by (simp add: take_token_def)
  have "snd (chans (take_token st c) ! c') = length (filter (\<lambda>x. snd x = c') (remove1 (b, c) running)) \<and>
      snd (chans (take_token st c) ! c') \<le> fst (chans (take_token st c) ! c')" if "c' < length (chans st)" for c'
    using that D(4,5) [of c'] p c length_filter_remove1 [OF slot_finish(2), of "\<lambda>x. snd x = c'"] unfolding t
    by (auto simp: nth_list_update)
  moreover have "c' < length (chans st)" if "(b', c') \<in> set waiting \<union> set (remove1 (b, c) running) \<union> set (slots (take_token st c))" for b' c'
    using that D(1-3) r unfolding t by auto
  moreover have "length (chans (take_token st c)) = length (chans st)" unfolding t by simp
  ultimately show ?case by (intro tokens_okI)
next
  case (slot_cancel st waiting running b c)
  then show ?case using set_remove1_subset [of "(b, c)" waiting] unfolding tokens_ok_def by blast
qed (simp add: tokens_ok_def, rule tokens_ok_enter)

definition settled :: "(uuid \<Rightarrow> nat) \<Rightarrow> slot_state \<Rightarrow> (uuid \<times> nat) list \<Rightarrow> (uuid \<times> nat) list \<Rightarrow> bool" where
  "settled cl st waiting running \<longleftrightarrow>
     (\<forall>b c. (b, c) \<in> set waiting \<union> set running \<longrightarrow> map_of (slots st) b = Some c) \<and>
     (\<forall>b c. map_of (slots st) b = Some c \<longrightarrow> fst (chans st ! c) = cl b)"

lemma slot_reach_settled:
  assumes "slot_reach (\<lambda>r. slot_size r = cl (sr_BackendID r)) st waiting running"
  shows "settled cl st waiting running"
  using assms
proof (induction rule: slot_reach.induct)
  case (slot_enter st waiting running route st' c)
  have t: "tokens_ok st waiting running" by (rule slot_reach_tokens [OF slot_enter(1)])
  from slot_enter(3) show ?case
  proof (cases rule: acquire_channel_cases)
    case same
    then show ?thesis using slot_enter by (auto simp: settled_def)
  next
    case fresh
    then have n: "map_of (slots st) (sr_BackendID route) = None" using slot_enter by (auto simp: settled_def)
    have l: "c' < length (chans st)" if "map_of (slots st) b = Some c'" for b c'
      by (rule tokens_okD(3) [OF t map_of_SomeD [OF that]])
    show ?thesis using slot_enter(2,4) fresh n l by (auto simp: settled_def nth_append update_conv')
  qed
next
  case (slot_take st waiting running b c st')
  have "chans st' = (chans st)[c := (fst (chans st ! c), Suc (snd (chans st ! c)))]" "slots st' = slots st"
    using slot_take(3) by (auto simp: put_token_def split: if_splits prod.splits)
  then have "fst (chans st' ! c') = fst (chans st ! c')" for c'
    by (cases "c < length (chans st)") (auto simp: nth_list_update list_update_beyond)
  with slot_take \<open>slots st' = slots st\<close> set_remove1_subset [of "(b, c)" waiting] show ?case by (auto simp: settled_def)
next
  case (slot_finish st waiting running b c)
  have "chans (take_token st c) = (chans st)[c := (fst (chans st ! c), snd (chans st ! c) - 1)]" "slots (take_token st c) = slots st"
    by (auto simp: take_token_def split: prod.splits)
  then have "fst (chans (take_token st c) ! c') = fst (chans st ! c')" for c'
    by (cases "c < length (chans st)") (auto simp: nth_list_update list_update_beyond)
  with slot_finish \<open>slots (take_token st c) = slots st\<close> set_remove1_subset [of "(b, c)" running] show ?case by (auto simp: settled_def)
next
  case (slot_cancel st waiting running b c)
  then show ?case using set_remove1_subset [of "(b, c)" waiting] by (auto simp: settled_def)
qed (simp add: settled_def)

text \<open>
  C28: The ceiling of a backend holds. However deliveries enter, wait, are cancelled and finish, no channel ever holds more tokens than its capacity,
  and each running delivery has exactly one; so while the ceilings of the backends do not change, at most that many deliveries to
  a backend are connected at a time (at least one is always allowed).
\<close>

theorem backend_ceiling_holds:
  assumes "slot_reach (\<lambda>r. slot_size r = cl (sr_BackendID r)) st waiting running"
  shows "tokens_ok st waiting running \<and> length (filter (\<lambda>x. fst x = k) running) \<le> cl k"
proof -
  note t = slot_reach_tokens [OF assms] and f = slot_reach_settled [OF assms]
  have "length (filter (\<lambda>x. fst x = k) running) \<le> cl k"
  proof (cases "map_of (slots st) k")
    case None
    then have "x \<notin> set running" if "fst x = k" for x using f that by (cases x) (auto simp: settled_def)
    then have "filter (\<lambda>x. fst x = k) running = []" by (auto simp: filter_empty_conv)
    then show ?thesis by simp
  next
    case (Some c)
    have "snd x = c" if "x \<in> set running" "fst x = k" for x using f that Some by (cases x) (auto simp: settled_def)
    then have "filter (\<lambda>x. fst x = k) running = filter (\<lambda>x. fst x = k) (filter (\<lambda>x. snd x = c) running)"
      unfolding filter_filter by (intro filter_cong) auto
    then have "length (filter (\<lambda>x. fst x = k) running) \<le> length (filter (\<lambda>x. snd x = c) running)"
      by (metis length_filter_le)
    also have "\<dots> \<le> cl k"
      using tokens_okD(4,5) [OF t tokens_okD(3) [OF t map_of_SomeD [OF Some]]] f Some by (auto simp: settled_def)
    finally show ?thesis .
  qed
  with t show ?thesis by simp
qed

section \<open>What goes over the wire\<close>

fun is_mail :: "wire \<Rightarrow> bool" where
  "is_mail (MailFrom _) = True"
| "is_mail (RcptTo _) = True"
| "is_mail Data = True"
| "is_mail (Payload _) = True"
| "is_mail _ = False"

fun is_auth :: "wire \<Rightarrow> bool" where
  "is_auth (Auth _ _ _) = True"
| "is_auth _ = False"

lemma dial_wire: "sender_dial x cfg route rl = (ws, r) \<Longrightarrow> c \<in> set ws \<Longrightarrow> \<not> is_auth c \<and> \<not> is_mail c"
  by (auto simp: sender_dial_def)

lemma authenticate_wire:
  assumes "authenticate x route rl = (ws, r)" "c \<in> set ws"
  shows "rl_encrypted rl \<and> (\<exists>m. c = Auth m (sr_AuthUser route) (Reveal (sr_AuthPassword route))) \<and> UsesAuth route"
  using assms by (auto simp: authenticate_def split: if_splits sum.splits)

lemma authenticate_clear: "UsesAuth route \<Longrightarrow> \<not> rl_encrypted rl \<Longrightarrow>
    authenticate x route rl = ([], Inl (refused_locally CodeAuthInsecure (''refusing to send SMTP AUTH over an unencrypted connection to '' @ sr_Host route)))"
  by (simp add: authenticate_def)

lemma handshake_wire:
  assumes "handshake x cfg route rl = (ws, r)" "c \<in> set ws"
  shows "\<not> is_mail c" "is_auth c \<Longrightarrow> rl_encrypted rl \<and> (\<exists>m. c = Auth m (sr_AuthUser route) (Reveal (sr_AuthPassword route)))"
  using assms by (auto simp: handshake_def Let_def split: option.splits if_splits prod.splits dest!: authenticate_wire)

lemma handshake_clear:
  assumes "UsesAuth route" "\<not> rl_encrypted rl" "handshake x cfg route rl = (ws, r)"
  shows "isl r"
  using assms by (auto simp: handshake_def Let_def authenticate_clear split: option.splits if_splits)

lemma deliver_wire: "deliver rl msg = (ws, res, err) \<Longrightarrow> c \<in> set ws \<Longrightarrow> \<not> is_auth c"
  by (auto simp: deliver_def Let_def split: option.splits if_splits sum.splits prod.splits)

lemma Send_cases:
  assumes "Send x cfg slot route rl msg = (ws, res, err)"
  obtains (early) e where "err = Some e" "\<And>c. c \<in> set ws \<Longrightarrow> \<not> is_mail c \<and> (is_auth c \<longrightarrow> rl_encrypted rl \<and>
      (\<exists>m. c = Auth m (sr_AuthUser route) (Reveal (sr_AuthPassword route))))" "res = no_result"
  | (delivering) ws1 ws2 ws3 where "sender_dial x cfg route rl = (ws1, Inr ())" "handshake x cfg route rl = (ws2, Inr ())"
      "deliver rl msg = (ws3, res, err)" "ws = ws1 @ ws2 @ ws3" "out_Recipients msg \<noteq> []" "out_Raw msg \<noteq> []"
proof -
  obtain ws1 d ws2 h ws3 res3 err3 where p: "sender_dial x cfg route rl = (ws1, d)" "handshake x cfg route rl = (ws2, h)" "deliver rl msg = (ws3, res3, err3)"
    by (metis surj_pair)
  note w = dial_wire [OF p(1)] handshake_wire [OF p(2)]
  show ?thesis
  proof (cases "out_Recipients msg = [] \<or> out_Raw msg = [] \<or> slot \<noteq> None \<or> isl d \<or> isl h")
    case True
    then have "(\<exists>e. err = Some e) \<and> set ws \<subseteq> set ws1 \<union> set ws2 \<and> res = no_result"
      using assms p by (auto simp: Send_def split: if_splits option.splits sum.splits prod.splits)
    with that(1) w show ?thesis by blast
  next
    case False
    then obtain a b where "d = Inr a" "h = Inr b" by (cases d; cases h) auto
    with False assms p that(2) show ?thesis by (auto simp: Send_def)
  qed
qed

text \<open>
  C4: A relay password is only ever sent encrypted. Whatever the relay answers and whatever the route says, every authentication that goes over the wire,
  in a delivery or a probe, goes over an encrypted connection, with the user and password of the route; and on an unencrypted
  connection with a route that has a password no envelope and no message is sent, and the attempt fails.
\<close>

theorem password_only_encrypted:
  assumes "Send x cfg slot route rl msg = (ws, res, err)" "Probe x cfg slot route rl = (ps, pr)"
  shows "(Auth m u p \<in> set ws \<union> set ps \<longrightarrow> rl_encrypted rl \<and> u = sr_AuthUser route \<and> p = Reveal (sr_AuthPassword route)) \<and>
    (UsesAuth route \<and> \<not> rl_encrypted rl \<longrightarrow> err \<noteq> None \<and> isl pr \<and> \<not> list_ex is_mail ws)"
proof -
  have auth: "is_auth (Auth m u p)" by simp
  have s: "rl_encrypted rl \<and> u = sr_AuthUser route \<and> p = Reveal (sr_AuthPassword route)" if "Auth m u p \<in> set ws"
    using assms(1)
  proof (cases rule: Send_cases)
    case (early e)
    from early(2) [OF that] show ?thesis by simp
  next
    case (delivering ws1 ws2 ws3)
    from that delivering(4) auth dial_wire [OF delivering(1)] deliver_wire [OF delivering(3)] have "Auth m u p \<in> set ws2"
      by (metis Un_iff set_append)
    from handshake_wire(2) [OF delivering(2) this] show ?thesis by simp
  qed
  obtain ws1 d ws2 h where p: "sender_dial x cfg route rl = (ws1, d)" "handshake x cfg route rl = (ws2, h)" by (metis surj_pair)
  have ps: "set ps \<subseteq> set ws1 \<union> set ws2 \<union> {Quit}" "isl h \<Longrightarrow> isl pr"
    using assms(2) p by (auto simp: Probe_def split: option.splits sum.splits prod.splits)
  have "rl_encrypted rl \<and> u = sr_AuthUser route \<and> p = Reveal (sr_AuthPassword route)" if "Auth m u p \<in> set ps"
    using that ps(1) auth dial_wire [OF p(1)] handshake_wire(2) [OF p(2)] by blast
  moreover have "err \<noteq> None \<and> isl pr \<and> \<not> list_ex is_mail ws" if c: "UsesAuth route \<and> \<not> rl_encrypted rl"
    using assms(1)
  proof (cases rule: Send_cases)
    case early
    with ps(2) handshake_clear [OF _ _ p(2)] c show ?thesis by (auto simp: list_ex_iff)
  next
    case delivering
    with handshake_clear c show ?thesis by fastforce
  qed
  ultimately show ?thesis using s by blast
qed

section \<open>What is delivered\<close>

lemma rcpt_loop_parts:
  assumes "rcpt_loop rl i rs = (acc, rej)"
  shows "subseq acc rs" "subseq (map rr_Address rej) rs" "length acc + length rej = length rs" "set rs = set acc \<union> rr_Address ` set rej"
    "\<forall>r \<in> set rej. \<exists>j e. rl_rcpt rl j = Some e \<and> rr_SMTPCode r = smtpCode e"
  using assms
proof (induction rl i rs arbitrary: acc rej rule: rcpt_loop.induct)
  case (2 rl i r rs)
  obtain a b where ab: "rcpt_loop rl (Suc i) rs = (a, b)" by fastforce
  note IH = "2.IH" [OF ab]
  {
    case 1 then show ?case using IH ab by (auto split: option.splits)
  next
    case 2 then show ?case using IH ab by (auto split: option.splits)
  next
    case 3 then show ?case using IH ab by (auto split: option.splits)
  next
    case 4 then show ?case using IH(4) ab by (auto split: option.splits)
  next
    case 5 then show ?case using IH(5) ab by (auto split: option.splits) blast
  }
qed auto


text \<open>
  Only an answer of the relay stops the retries, with one exception. An error of the dialogue is permanent exactly when it is a reply of 500 or more (and neither a
  cancellation nor a TLS failure). But when no recipient was accepted and none of the failures was a reply from 400 to 499, the message fails for good, even
  if every command failed because the connection was lost, which is classified as transient everywhere else.
\<close>

theorem lost_recipients_fail_for_good:
  assumes "rl_mail rl = None" "out_Recipients msg \<noteq> []" "\<And>i. \<exists>e. rl_rcpt rl i = Some e \<and> ge_smtp e = None"
    and "deliver rl msg = (ws, res, err)"
  shows "(\<exists>e. err = Some e \<and> IsPermanent e \<and> se_Code e = CodeAllRecipientsRejected) \<and>
    (\<forall>code what i. \<not> IsPermanent (classify_send code what (the (rl_rcpt rl i))))"
proof -
  obtain acc rej where r: "rcpt_loop rl 0 (out_Recipients msg) = (acc, rej)" by fastforce
  have "acc = []" if "rcpt_loop rl i rs = (acc, rej)" for acc rej i rs
    using that assms(3)
  proof (induction rl i rs arbitrary: acc rej rule: rcpt_loop.induct)
    case (2 rl i q rs)
    obtain a b where "rcpt_loop rl (Suc i) rs = (a, b)" by fastforce
    with "2.IH" [OF this "2.prems"(2)] "2.prems" show ?case by (metis (no_types, lifting) old.prod.case option.simps(5) prod.inject rcpt_loop.simps(2))
  qed auto
  then have a: "acc = []" using r by blast
  have "\<not> list_ex (\<lambda>r. rr_SMTPCode r \<ge> 400 \<and> rr_SMTPCode r < 500) rej"
  proof -
    have "rr_SMTPCode q = 0" if "q \<in> set rej" for q
    proof -
      from that rcpt_loop_parts(5) [OF r] obtain j e where "rl_rcpt rl j = Some e" "rr_SMTPCode q = smtpCode e" by blast
      with assms(3) [of j] show ?thesis by (auto simp: smtpCode_def)
    qed
    then show ?thesis by (auto simp: list_ex_iff)
  qed
  then have "\<exists>e. err = Some e \<and> IsPermanent e \<and> se_Code e = CodeAllRecipientsRejected"
    using assms(1,4) r a by (auto simp: deliver_def Let_def rejection_kind_def IsPermanent_def)
  moreover have "\<not> IsPermanent (classify_send code what (the (rl_rcpt rl i)))" for code what i
    using assms(3) [of i] by (auto simp: classify_send_def contextError_def IsPermanent_def split: option.splits)
  ultimately show ?thesis by blast
qed

section \<open>Witnesses\<close>

definition plain_text :: text_lib where
  "plain_text = \<lparr>tx_lower = (\<lambda>s. s), tx_upper = (\<lambda>s. s), tx_fold = (=), tx_ip = (\<lambda>_. None)\<rparr>"

definition demo_send_config :: Send_Config where
  "demo_send_config = sender_New \<lparr>sc_Timeout = 0, sc_HeloName = [], sc_MinTLSVersion = 0, sc_InsecureSkipVerifyHosts = []\<rparr>"

definition demo_send_route :: SenderRoute where
  "demo_send_route = route_of 31 ''example.com'' demo_backend (Secret ''hunter2'')"

definition reply :: "int \<Rightarrow> go_err" where
  "reply n = \<lparr>ge_canceled = False, ge_deadline = False, ge_tls = False, ge_smtp = Some (n, ''no''), ge_timeout = False, ge_eof = False, ge_text = []\<rparr>"

definition hangup :: go_err where
  "hangup = \<lparr>ge_canceled = False, ge_deadline = False, ge_tls = False, ge_smtp = None, ge_timeout = False, ge_eof = True, ge_text = ''EOF''\<rparr>"

definition good_relay :: relay where
  "good_relay = \<lparr>rl_dial = None, rl_starttls = None, rl_hello = None, rl_encrypted = True,
     rl_extension = (\<lambda>e. if e = ''AUTH'' then Some ''plain login'' else None), rl_auth = None, rl_mail = None,
     rl_rcpt = (\<lambda>i. if i = 1 then Some (reply 550) else None), rl_data = None, rl_write = None, rl_close = Inr (Some '' queued ''), rl_quit = None\<rparr>"

definition demo_outbound :: Outbound where
  "demo_outbound = \<lparr>out_From = ''bob@example.com'', out_Recipients = [''eve@example.org'', ''mal@example.org''], out_Raw = ''hello''\<rparr>"

lemma demo_send:
  "Send plain_text demo_send_config None demo_send_route good_relay demo_outbound =
     ([Connect False (tlsConfig plain_text demo_send_config demo_send_route), StartTLS (tlsConfig plain_text demo_send_config demo_send_route),
       Hello ''localhost'', Auth AuthPlain ''ocid'' ''hunter2'', MailFrom ''bob@example.com'', RcptTo ''eve@example.org'', RcptTo ''mal@example.org'',
       Data, Payload ''hello'', Quit],
      \<lparr>sr_Accepted = [''eve@example.org''], sr_Rejected = [\<lparr>rr_Address = ''mal@example.org'', rr_SMTPCode = 550, rr_Detail = ''550 no''\<rparr>],
       sr_Response = ''queued'', sr_UsedTLS = True\<rparr>, None)"
  by code_simp

theorem password_only_encrypted_witness:
  "\<exists>ws res err ps pr. Send plain_text demo_send_config None demo_send_route good_relay demo_outbound = (ws, res, err) \<and>
     Auth AuthPlain ''ocid'' ''hunter2'' \<in> set ws \<and> rl_encrypted good_relay \<and>
     Send plain_text demo_send_config None demo_send_route (good_relay\<lparr>rl_encrypted := False\<rparr>) demo_outbound = ps \<and>
     Probe plain_text demo_send_config None demo_send_route (good_relay\<lparr>rl_encrypted := False\<rparr>) = pr \<and>
     \<not> list_ex is_mail (fst ps) \<and> isl (snd pr)"
proof -
  let ?bad = "good_relay\<lparr>rl_encrypted := False\<rparr>"
  obtain ws res err where s: "Send plain_text demo_send_config None demo_send_route good_relay demo_outbound = (ws, res, err)" by (metis surj_pair)
  obtain ps pr where p: "Probe plain_text demo_send_config None demo_send_route good_relay = (ps, pr)" by (metis surj_pair)
  have "Auth AuthPlain ''ocid'' ''hunter2'' \<in> set ws" using s demo_send by auto
  moreover from this have "rl_encrypted good_relay" using password_only_encrypted [OF s p, of AuthPlain "''ocid''" "''hunter2''"] by blast
  moreover obtain wb rb eb where sb: "Send plain_text demo_send_config None demo_send_route ?bad demo_outbound = (wb, rb, eb)" by (metis surj_pair)
  moreover obtain pb qb where pb: "Probe plain_text demo_send_config None demo_send_route ?bad = (pb, qb)" by (metis surj_pair)
  moreover have "UsesAuth demo_send_route" by code_simp
  moreover from this have "\<not> list_ex is_mail wb \<and> isl qb" using password_only_encrypted [OF sb pb] by simp
  ultimately show ?thesis using s by auto
qed


theorem lost_recipients_fail_for_good_witness:
  "\<exists>ws res e. deliver (good_relay\<lparr>rl_rcpt := (\<lambda>_. Some hangup)\<rparr>) demo_outbound = (ws, res, Some e) \<and> IsPermanent e \<and>
     \<not> IsPermanent (classify_send CodeMailFrom [] hangup)"
proof -
  let ?r = "good_relay\<lparr>rl_rcpt := (\<lambda>_. Some hangup)\<rparr>"
  obtain ws res err where d: "deliver ?r demo_outbound = (ws, res, err)" by (metis surj_pair)
  have "(\<exists>e. err = Some e \<and> IsPermanent e \<and> se_Code e = CodeAllRecipientsRejected) \<and>
    (\<forall>code what i. \<not> IsPermanent (classify_send code what (the (rl_rcpt ?r i))))"
    by (rule lost_recipients_fail_for_good [OF _ _ _ d]) (auto simp: good_relay_def demo_outbound_def hangup_def)
  with d show ?thesis by auto
qed

lemma demo_slots:
  "slot_reach (\<lambda>r. slot_size r = 2) \<lparr>chans = [(2, 1)], slots = [(21, 0)]\<rparr> [] [(21, 0)]"
proof -
  have r: "slot_size demo_send_route = 2" "sr_BackendID demo_send_route = 21" by (simp_all add: slot_size_def demo_send_route_def route_of_def demo_backend_def)
  have 1: "slot_reach (\<lambda>r. slot_size r = 2) \<lparr>chans = [(2, 0)], slots = [(21, 0)]\<rparr> [(21, 0)] []"
    using slot_enter [OF slot_init, where route = demo_send_route and st' = "\<lparr>chans = [(2, 0)], slots = [(21, 0)]\<rparr>" and c = 0] r
    by (simp add: acquire_channel_def)
  show ?thesis using slot_take [OF 1, where b = 21 and c = 0 and st' = "\<lparr>chans = [(2, 1)], slots = [(21, 0)]\<rparr>"]
    by (simp add: put_token_def)
qed

theorem backend_ceiling_holds_witness:
  "slot_reach (\<lambda>r. slot_size r = (\<lambda>_. 2) (sr_BackendID r)) \<lparr>chans = [(2, 1)], slots = [(21, 0)]\<rparr> [] [(21, 0)] \<and>
     length (filter (\<lambda>x. fst x = 21) [(21 :: uuid, 0 :: nat)]) \<le> 2"
  using backend_ceiling_holds [where cl = "\<lambda>_. 2", OF demo_slots] demo_slots by simp

end
