(* ===== verification/Http_Api.thy ===== *)
theory Http_Api
  imports Ingest Mail_Build Sender
begin

text \<open>
  The submission API: \<^verbatim>\<open>src/internal/httpapi/emails.go\<close>, \<^verbatim>\<open>errors.go\<close> and \<^verbatim>\<open>middleware.go\<close>, with the
  settings of \<^verbatim>\<open>server.go\<close>.

  A request is what the router and the decoder make of it: its headers, and for a submission what reading the JSON body gave
  (\<open>decoded\<close>). A response is its status, the headers the code sets and its body before it is written as JSON. Parameters of
  the server are the parsers and formatters of the standard library and of \<^verbatim>\<open>uuid\<close>, and the texts of errors. Tracing
  and the access log are not modelled.
\<close>

section \<open>Requests and responses\<close>

record error_body =
  eb_Code :: string
  eb_Message :: string
  eb_Field :: string
  eb_MessageID :: string

record sendResponse =
  sp_ID :: string
  sp_Status :: string
  sp_MessageID :: string
  sp_Recipients :: "string list"
  sp_Idempotent :: bool

record messageError =
  me_Code :: string
  me_Detail :: string

record messageResponse =
  mr_ID :: string
  mr_Status :: string
  mr_From :: string
  mr_To :: "string list"
  mr_Cc :: "string list"
  mr_Bcc :: "string list"
  mr_Subject :: string
  mr_MessageID :: string
  mr_Recipients :: "string list"
  mr_SizeBytes :: int
  mr_Attempts :: int
  mr_CreatedAt :: string
  mr_SentAt :: "string option"
  mr_Error :: "messageError option"
  mr_RejectionReason :: "string option"

datatype rest_body = SendBody sendResponse | MessageBody messageResponse

datatype 'b http_body = ErrorEnvelope error_body | JsonBody 'b | NoBody

record 'b http_response =
  rs_Status :: int
  rs_Headers :: "(string \<times> string) list"
  rs_Body :: "'b http_body"

record requestAttachment =
  ra_Filename :: string
  ra_Content :: string
  ra_ContentType :: string
  ra_ContentID :: string

record sendRequest =
  sq_From :: string
  sq_To :: "string list"
  sq_Cc :: "string list"
  sq_Bcc :: "string list"
  sq_ReplyTo :: "string list"
  sq_Subject :: string
  sq_Text :: string
  sq_HTML :: string
  sq_Headers :: "(string \<times> string) list"
  sq_Attachments :: "requestAttachment list"

text \<open>What the decoder reports: too many bytes, an error with its text, or a value and whether more follows.\<close>

datatype 'a decoded = TooManyBytes int | NotJSON string | OneValue 'a bool

record Limits =
  lim_MaxMessageBytes :: int
  lim_MaxRequestBytes :: int
  lim_MaxRecipients :: int

record ('l, 'h) http_server =
  hs_ingest :: "('l, 'h) Service"
  hs_store :: Store
  hs_authenticator :: Store
  hs_limits :: Limits
  hs_trustedProxyHeader :: string
  hs_build :: build_lib
  hs_now :: int
  hs_uuid_Parse :: "string \<Rightarrow> uuid option"
  hs_uuid :: "uuid \<Rightarrow> string"
  hs_rfc3339 :: "timestamp \<Rightarrow> string"
  hs_detail :: "Rejection \<Rightarrow> string"
  hs_build_text :: "build_error \<Rightarrow> string"

definition httpapi_NewServer :: "bool \<Rightarrow> bool \<Rightarrow> bool \<Rightarrow> bool \<Rightarrow> ('l, 'h) http_server \<Rightarrow> (string, ('l, 'h) http_server) result" where
  "httpapi_NewServer hasIngest hasStore hasAuthenticator hasPool opts =
     (if \<not> hasIngest then Inl ''httpapi: an ingest service is required''
      else if \<not> hasStore then Inl ''httpapi: a store is required''
      else if \<not> hasAuthenticator then Inl ''httpapi: an authenticator is required''
      else if \<not> hasPool then Inl ''httpapi: a database pool is required''
      else Inr (opts\<lparr>hs_limits := (hs_limits opts)\<lparr>lim_MaxRecipients :=
             (if lim_MaxRecipients (hs_limits opts) \<le> 0 then 50 else lim_MaxRecipients (hs_limits opts))\<rparr>\<rparr>))"

section \<open>Writing responses\<close>

definition codeInvalidJSON :: string where "codeInvalidJSON = ''invalid_json''"
definition codeUnauthorized :: string where "codeUnauthorized = ''unauthorized''"
definition codeNotFound :: string where "codeNotFound = ''not_found''"
definition codePayloadTooBig :: string where "codePayloadTooBig = ''message_too_large''"
definition codeInternal :: string where "codeInternal = ''internal_error''"
definition codeUnavailable :: string where "codeUnavailable = ''service_unavailable''"

definition writeJSON :: "(string \<times> string) list \<Rightarrow> int \<Rightarrow> 'b http_body \<Rightarrow> 'b http_response" where
  "writeJSON earlier status body = \<lparr>rs_Status = status, rs_Headers = earlier @ [(''Content-Type'', ''application/json; charset=utf-8''),
     (''Cache-Control'', ''no-store'')], rs_Body = body\<rparr>"

definition writeError :: "(string \<times> string) list \<Rightarrow> int \<Rightarrow> error_body \<Rightarrow> 'b http_response" where
  "writeError earlier status body = writeJSON earlier status (ErrorEnvelope body)"

definition plain_error :: "string \<Rightarrow> string \<Rightarrow> error_body" where
  "plain_error code message = \<lparr>eb_Code = code, eb_Message = message, eb_Field = [], eb_MessageID = []\<rparr>"

definition rejection_status :: "string \<Rightarrow> int" where
  "rejection_status reason =
     (if reason \<in> {ReasonSenderNotAllowed, ReasonRecipientNotAllowed} then 403
      else if reason = ReasonCredentialUnusable then 401
      else if reason = ReasonRateLimited then 429
      else if reason \<in> {CodeTooLarge, CodeHeadersTooLarge} then 413
      else 422)"

definition writeRejection :: "('l, 'h) http_server \<Rightarrow> Rejection \<Rightarrow> 'b http_response" where
  "writeRejection srv rejection =
     writeError (if rej_Reason rejection = ReasonRateLimited then [(''Retry-After'', ''1'')] else []) (rejection_status (rej_Reason rejection))
       \<lparr>eb_Code = rej_Reason rejection, eb_Message = hs_detail srv rejection, eb_Field = [],
        eb_MessageID = (if rej_MessageID rejection \<noteq> uuid_Nil then hs_uuid srv (rej_MessageID rejection) else [])\<rparr>"

definition writeBuildError :: "('l, 'h) http_server \<Rightarrow> build_error \<Rightarrow> 'b http_response" where
  "writeBuildError srv e =
     writeError [] (if fst e = MB_TooLarge then 413 else 422)
       \<lparr>eb_Code = fst e, eb_Message = hs_build_text srv e, eb_Field = snd e, eb_MessageID = []\<rparr>"

definition writeUnauthorized :: "'b http_response" where
  "writeUnauthorized = writeError [(''WWW-Authenticate'', ''Bearer realm='' @ [CHR 0x22] @ ''relais'' @ [CHR 0x22])] 401
     (plain_error codeUnauthorized ''authentication failed'')"

definition writeInternal :: "'b http_response" where
  "writeInternal = writeError [] 500 (plain_error codeInternal ''the request could not be completed'')"

definition writeUnavailable :: "'b http_response" where
  "writeUnavailable = writeError [(''Retry-After'', ''5'')] 503
     (plain_error codeUnavailable ''the service is temporarily unable to accept submissions'')"

definition no_such_message :: "rest_body http_response" where
  "no_such_message = writeError [] 404 (plain_error codeNotFound ''no such message'')"

definition decodeJSON :: "'a decoded \<Rightarrow> ('b http_response, 'a) result" where
  "decodeJSON d =
     (case d of
        TooManyBytes limit \<Rightarrow> Inl (writeError [] 413 (plain_error codePayloadTooBig
          (''the request body exceeds the configured limit of '' @ show_int limit @ '' bytes'')))
      | NotJSON text \<Rightarrow> Inl (writeError [] 400 (plain_error codeInvalidJSON (''the request body is not valid JSON: '' @ text)))
      | OneValue v trailing \<Rightarrow>
          if trailing then Inl (writeError [] 400 (plain_error codeInvalidJSON ''the request body must contain exactly one JSON object''))
          else Inr v)"

section \<open>Decoding a submission\<close>

text \<open>\<open>list_of\<close> and \<open>string_of\<close> are \<^verbatim>\<open>json.Unmarshal\<close> into a list of strings and into a string.\<close>

definition addressList_UnmarshalJSON :: "(string \<Rightarrow> string list option) \<Rightarrow> (string \<Rightarrow> string option) \<Rightarrow> string \<Rightarrow> string list option" where
  "addressList_UnmarshalJSON list_of string_of data =
     (let trimmed = trim_space data in
      if trimmed = ''null'' then Some []
      else if has_prefix trimmed ''['' then list_of data
      else map_option (\<lambda>single. [single]) (string_of data))"

definition decodeBase64 :: "string \<Rightarrow> string option" where
  "decodeBase64 v =
     (let cleaned = filter (\<lambda>c. \<not> (c = LF \<or> c = CR \<or> c = CHR '' '' \<or> c = CHR 0x09)) v in
      if cleaned = [] then None
      else (case b64_decode std_alphabet True cleaned of
         Some d \<Rightarrow> Some d
       | None \<Rightarrow> (case b64_decode std_alphabet False cleaned of
            Some d \<Rightarrow> Some d
          | None \<Rightarrow> (case b64_decode url_alphabet True cleaned of
               Some d \<Rightarrow> Some d
             | None \<Rightarrow> b64_decode url_alphabet False cleaned))))"

fun decodeAttachments :: "requestAttachment list \<Rightarrow> (build_error, Attachment list) result" where
  "decodeAttachments [] = Inr []"
| "decodeAttachments (a # as) =
     (case decodeBase64 (ra_Content a) of
        None \<Rightarrow> Inl (MB_InvalidAttachment, ''attachments'')
      | Some bytes \<Rightarrow>
          (case decodeAttachments as of
             Inl e \<Rightarrow> Inl e
           | Inr out \<Rightarrow> Inr (\<lparr>at_Filename = ra_Filename a, at_ContentType = ra_ContentType a, at_Content = bytes, at_ContentID = ra_ContentID a\<rparr> # out)))"

definition build_input :: "sendRequest \<Rightarrow> Attachment list \<Rightarrow> Build_Input" where
  "build_input rq as = \<lparr>bi_From = sq_From rq, bi_To = sq_To rq, bi_Cc = sq_Cc rq, bi_Bcc = sq_Bcc rq, bi_ReplyTo = sq_ReplyTo rq,
     bi_Subject = sq_Subject rq, bi_Text = sq_Text rq, bi_HTML = sq_HTML rq, bi_Headers = sq_Headers rq, bi_Attachments = as\<rparr>"

section \<open>Middleware\<close>

record requestInfo =
  ri_clientIP :: netip_Addr
  ri_credential :: "AuthCredential option"

definition credentialFrom :: "requestInfo option \<Rightarrow> AuthCredential option" where
  "credentialFrom info = (case info of None \<Rightarrow> None | Some i \<Rightarrow> ri_credential i)"

definition clientIPFrom :: "requestInfo option \<Rightarrow> netip_Addr" where
  "clientIPFrom info = (case info of None \<Rightarrow> None | Some i \<Rightarrow> ri_clientIP i)"

text \<open>\<open>split\<close>, \<open>parse\<close> and \<open>unmap\<close> are \<^verbatim>\<open>net.SplitHostPort\<close>, \<^verbatim>\<open>netip.ParseAddr\<close> and \<^verbatim>\<open>Unmap\<close>.\<close>

definition peerAddr :: "(string \<Rightarrow> string option) \<Rightarrow> (string \<Rightarrow> netip_Addr) \<Rightarrow> (string \<Rightarrow> string) \<Rightarrow> string \<Rightarrow> netip_Addr" where
  "peerAddr split parse unmap remoteAddr =
     (case parse (case split remoteAddr of Some host \<Rightarrow> host | None \<Rightarrow> remoteAddr) of None \<Rightarrow> None | Some ip \<Rightarrow> Some (unmap ip))"

text \<open>\<open>header\<close> gives the value of a request header, empty when it is absent; \<open>parse\<close> is \<^verbatim>\<open>netip.ParseAddr\<close>.\<close>

definition resolveClientIP :: "(string \<Rightarrow> netip_Addr) \<Rightarrow> string \<Rightarrow> (string \<Rightarrow> string) \<Rightarrow> netip_Addr \<Rightarrow> requestInfo" where
  "resolveClientIP parse trustedHeader header peer =
     \<lparr>ri_clientIP =
        (if trustedHeader \<noteq> [] \<and> header trustedHeader \<noteq> []
         then (case parse (trim_space (takeWhile (\<lambda>c. c \<noteq> CHR '','') (header trustedHeader))) of Some ip \<Rightarrow> Some ip | None \<Rightarrow> peer)
         else peer),
      ri_credential = None\<rparr>"

definition requireAPIKey :: "('l, 'h) http_server \<Rightarrow> string \<Rightarrow> requestInfo option \<Rightarrow> (rest_body http_response, requestInfo option) result prog" where
  "requireAPIKey srv authorization info =
     (case BearerToken authorization of
        Inl _ \<Rightarrow> ret (Inl writeUnauthorized)
      | Inr token \<Rightarrow> do {
          r \<leftarrow> APIKey (hs_authenticator srv) token;
          ret (case r of
             Inl e \<Rightarrow> if e \<noteq> ErrUnauthenticated then Inl writeUnavailable else Inl writeUnauthorized
           | Inr auth \<Rightarrow> Inr (map_option (\<lambda>i. i\<lparr>ri_credential := Some auth\<rparr>) info)) })"

section \<open>Handlers\<close>

definition rest_request :: "AuthCredential \<Rightarrow> Build_Result \<Rightarrow> string \<Rightarrow> netip_Addr \<Rightarrow> Request" where
  "rest_request auth built key ip = \<lparr>rq_Credential = auth, rq_Facade = FacadeREST, rq_Raw = br_Raw built, rq_EnvelopeRecipients = br_Envelope built,
     rq_DeclaredBcc = br_Bcc built, rq_IdempotencyKey = trim_space key, rq_RemoteIP = ip\<rparr>"

definition handleSendEmail ::
    "('l, 'h) http_server \<Rightarrow> requestInfo option \<Rightarrow> string \<Rightarrow> sendRequest decoded \<Rightarrow> 'l Limiter \<Rightarrow> (rest_body http_response \<times> 'l Limiter) prog" where
  "handleSendEmail srv info key body lm =
     (case credentialFrom info of
        None \<Rightarrow> ret (writeInternal, lm)
      | Some auth \<Rightarrow>
          (case decodeJSON body of
             Inl response \<Rightarrow> ret (response, lm)
           | Inr request \<Rightarrow>
               (case decodeAttachments (sq_Attachments request) of
                  Inl e \<Rightarrow> ret (writeBuildError srv e, lm)
                | Inr attachments \<Rightarrow>
                    (case Build (hs_build srv) (st_idna (sv_store (hs_ingest srv))) (build_input request attachments)
                            \<lparr>bo_MaxRecipients = lim_MaxRecipients (hs_limits srv), bo_MaxBytes = lim_MaxMessageBytes (hs_limits srv), bo_Now = hs_now srv\<rparr> of
                       Inl e \<Rightarrow> ret (writeBuildError srv e, lm)
                     | Inr built \<Rightarrow> do {
                         (r, lm') \<leftarrow> Submit (hs_ingest srv) (rest_request auth built key (clientIPFrom info)) lm;
                         ret (case r of
                            Inl e \<Rightarrow> (case AsRejection e of Some rejection \<Rightarrow> writeRejection srv rejection | None \<Rightarrow> writeUnavailable)
                          | Inr result \<Rightarrow>
                              writeJSON [] (if res_Duplicate result then 200 else 202)
                                (JsonBody (SendBody \<lparr>sp_ID = hs_uuid srv (res_ID result), sp_Status = res_Status result, sp_MessageID = res_RFCMessageID result,
                                   sp_Recipients = res_Recipients result, sp_Idempotent = res_Duplicate result\<rparr>)), lm') }))))"

definition message_response :: "('l, 'h) http_server \<Rightarrow> EmailMessage \<Rightarrow> messageResponse" where
  "message_response srv msg = \<lparr>mr_ID = hs_uuid srv (msg_ID msg), mr_Status = msg_Status msg, mr_From = msg_FromAddr msg, mr_To = msg_ToAddrs msg,
     mr_Cc = msg_CcAddrs msg, mr_Bcc = msg_BccAddrs msg, mr_Subject = msg_Subject msg, mr_MessageID = msg_MessageID msg,
     mr_Recipients = msg_EnvelopeRecipients msg, mr_SizeBytes = msg_SizeBytes msg, mr_Attempts = msg_AttemptCount msg,
     mr_CreatedAt = hs_rfc3339 srv (msg_CreatedAt msg), mr_SentAt = map_option (hs_rfc3339 srv) (msg_SentAt msg),
     mr_Error = map_option (\<lambda>c. \<lparr>me_Code = c, me_Detail = (case msg_ErrorDetail msg of None \<Rightarrow> [] | Some t \<Rightarrow> t)\<rparr>) (msg_ErrorCode msg),
     mr_RejectionReason = msg_RejectionReason msg\<rparr>"

definition handleGetEmail :: "('l, 'h) http_server \<Rightarrow> requestInfo option \<Rightarrow> string \<Rightarrow> rest_body http_response prog" where
  "handleGetEmail srv info idText =
     (case credentialFrom info of
        None \<Rightarrow> ret writeInternal
      | Some auth \<Rightarrow>
          (case hs_uuid_Parse srv idText of
             None \<Rightarrow> ret no_such_message
           | Some i \<Rightarrow> do {
               r \<leftarrow> GetMessage i;
               ret (case r of
                  Inl e \<Rightarrow> if e = ErrNotFound then no_such_message else writeUnavailable
                | Inr msg \<Rightarrow>
                    if msg_CredentialID msg = None \<or> msg_CredentialID msg \<noteq> Some (cred_ID (ac_Credential auth)) then no_such_message
                    else writeJSON [] 200 (JsonBody (MessageBody (message_response srv msg)))) }))"

text \<open>The two routes under \<^verbatim>\<open>/v1\<close>, behind \<^verbatim>\<open>requireAPIKey\<close>.\<close>

definition post_emails ::
    "('l, 'h) http_server \<Rightarrow> string \<Rightarrow> string \<Rightarrow> requestInfo option \<Rightarrow> sendRequest decoded \<Rightarrow> 'l Limiter \<Rightarrow> (rest_body http_response \<times> 'l Limiter) prog" where
  "post_emails srv authorization key info body lm = do {
     r \<leftarrow> requireAPIKey srv authorization info;
     case r of Inl response \<Rightarrow> ret (response, lm) | Inr info' \<Rightarrow> handleSendEmail srv info' key body lm }"

definition get_email :: "('l, 'h) http_server \<Rightarrow> string \<Rightarrow> requestInfo option \<Rightarrow> string \<Rightarrow> rest_body http_response prog" where
  "get_email srv authorization info idText = do {
     r \<leftarrow> requireAPIKey srv authorization info;
     case r of Inl response \<Rightarrow> ret response | Inr info' \<Rightarrow> handleGetEmail srv info' idText }"

section \<open>Programs that only read\<close>

interpretation ro: db_order "\<lambda>d d'. d' = d"
  by unfold_locales simp_all

lemma authentication_reads: "ro.obeys (APIKey st token)" "ro.obeys (GetMessage i)"
proof -
  have "ro.obeys (authn_verify st l p t)" for l p t
    unfolding authn_verify_def LoadCredentialByLookup_def withPatterns_def
    by (auto intro!: ro.obeys_rules simp: Queries_GetCredentialByLookup_def Queries_ListFromPatterns_def Queries_ListRecipientPatterns_def one_row_def
        split: sum.splits)
  then show "ro.obeys (APIKey st token)" unfolding APIKey_def by (auto intro: ro.obeys_return split: sum.splits prod.splits)
  show "ro.obeys (GetMessage i)" unfolding GetMessage_def by (auto intro!: ro.obeys_rules simp: Queries_GetEmailMessage_def one_row_def)
qed

lemma APIKey_keeps: "ka.keeps (APIKey st token)" "kc.keeps c (APIKey st token)"
proof -
  have "ka.keeps (authn_verify st l p t)" "kc.keeps c (authn_verify st l p t)" for l p t
    unfolding authn_verify_def LoadCredentialByLookup_def withPatterns_def
    by (auto intro!: ka.keeps_rules kc.keeps_rules split: sum.splits)
  then show "ka.keeps (APIKey st token)" "kc.keeps c (APIKey st token)"
    unfolding APIKey_def by (auto intro: ka.keeps_return kc.keeps_return split: sum.splits prod.splits)
qed

lemma APIKey_alone:
  assumes "peers w = []" "run_state (APIKey st token) w = (r, w')"
  shows "tables w' = tables w" "peers w' = []" "clock w' = clock w"
  using ro.obeysD [OF authentication_reads(1) assms(2) ro.friendly_alone [OF assms(1)]] ka.keepsD [OF APIKey_keeps(1) assms(1,2)]
    kc.keepsD [OF APIKey_keeps(2) refl assms(2)] by simp_all

definition key_holder :: "('l, 'h) http_server \<Rightarrow> string \<Rightarrow> world \<Rightarrow> AuthCredential \<Rightarrow> bool" where
  "key_holder srv authorization w ac \<longleftrightarrow>
     (\<exists>token w'. BearerToken authorization = Inr token \<and> run_state (APIKey (hs_authenticator srv) token) w = (Inr ac, w'))"

lemma requireAPIKey_alone:
  assumes "peers w = []" "run_state (requireAPIKey srv authorization info) w = (r, w')"
  shows "tables w' = tables w" "peers w' = []" "clock w' = clock w"
    "case r of Inl response \<Rightarrow> response \<in> {writeUnauthorized, writeUnavailable}
      | Inr info' \<Rightarrow> \<exists>ac. key_holder srv authorization w ac \<and> info' = map_option (\<lambda>i. i\<lparr>ri_credential := Some ac\<rparr>) info"
proof -
  have "(tables w' = tables w \<and> peers w' = [] \<and> clock w' = clock w) \<and> (case r of Inl response \<Rightarrow> response \<in> {writeUnauthorized, writeUnavailable}
      | Inr info' \<Rightarrow> \<exists>ac. key_holder srv authorization w ac \<and> info' = map_option (\<lambda>i. i\<lparr>ri_credential := Some ac\<rparr>) info)"
  proof (cases "BearerToken authorization")
    case (Inl e)
    with assms show ?thesis by (auto simp: requireAPIKey_def)
  next
    case (Inr token)
    obtain t w1 where t: "run_state (APIKey (hs_authenticator srv) token) w = (t, w1)" by fastforce
    with assms(2) Inr APIKey_alone [OF assms(1) t] show ?thesis
      by (auto simp: requireAPIKey_def key_holder_def split: sum.splits if_splits)
  qed
  then show "tables w' = tables w" "peers w' = []" "clock w' = clock w"
    "case r of Inl response \<Rightarrow> response \<in> {writeUnauthorized, writeUnavailable}
      | Inr info' \<Rightarrow> \<exists>ac. key_holder srv authorization w ac \<and> info' = map_option (\<lambda>i. i\<lparr>ri_credential := Some ac\<rparr>) info" by simp_all
qed

section \<open>What an answer means\<close>

lemmas error_writers = writeError_def writeJSON_def plain_error_def writeUnauthorized_def writeUnavailable_def writeInternal_def
  no_such_message_def writeRejection_def writeBuildError_def

lemma rejection_status_range: "rejection_status reason \<in> {400..499}"
  by (simp add: rejection_status_def)

lemma error_status:
  "rs_Status (writeRejection srv rej) = rejection_status (rej_Reason rej)" "rs_Status (writeBuildError srv e) = (if fst e = MB_TooLarge then 413 else 422)"
  "rs_Status writeUnauthorized = 401" "rs_Status writeUnavailable = 503" "rs_Status writeInternal = 500"
  by (simp_all add: error_writers)

lemma decodeJSON_status: "decodeJSON d = Inl response \<Longrightarrow> rs_Status response \<in> {400, 413}"
  by (auto simp: decodeJSON_def error_writers split: decoded.splits if_splits)

definition built_from :: "('l, 'h) http_server \<Rightarrow> sendRequest decoded \<Rightarrow> Build_Result \<Rightarrow> bool" where
  "built_from srv body built \<longleftrightarrow> (\<exists>request attachments. body = OneValue request False \<and> decodeAttachments (sq_Attachments request) = Inr attachments \<and>
     Build (hs_build srv) (st_idna (sv_store (hs_ingest srv))) (build_input request attachments)
       \<lparr>bo_MaxRecipients = lim_MaxRecipients (hs_limits srv), bo_MaxBytes = lim_MaxMessageBytes (hs_limits srv), bo_Now = hs_now srv\<rparr> = Inr built)"

text \<open>The ways through \<^verbatim>\<open>handleSendEmail\<close>: an answer without a submission, or a submission and its answer.\<close>

lemma handleSendEmail_cases:
  assumes "run_state (handleSendEmail srv info key body lm) w = ((resp, lm'), w')"
  obtains (answered) "w' = w" "rs_Status resp \<in> {400..599}"
  | (submitted) ac built r where "credentialFrom info = Some ac" "built_from srv body built"
      "run_state (Submit (hs_ingest srv) (rest_request ac built key (clientIPFrom info)) lm) w = ((r, lm'), w')"
      "resp = (case r of
         Inl e \<Rightarrow> (case AsRejection e of Some rejection \<Rightarrow> writeRejection srv rejection | None \<Rightarrow> writeUnavailable)
       | Inr result \<Rightarrow>
           writeJSON [] (if res_Duplicate result then 200 else 202)
             (JsonBody (SendBody \<lparr>sp_ID = hs_uuid srv (res_ID result), sp_Status = res_Status result, sp_MessageID = res_RFCMessageID result,
                sp_Recipients = res_Recipients result, sp_Idempotent = res_Duplicate result\<rparr>)))"
proof (cases "credentialFrom info")
  case None
  with assms that(1) show ?thesis by (simp add: handleSendEmail_def error_status)
next
  case (Some ac)
  show ?thesis
  proof (cases "decodeJSON body :: (rest_body http_response, sendRequest) result")
    case (Inl response)
    with assms Some decodeJSON_status [OF Inl] that(1) show ?thesis by (auto simp: handleSendEmail_def)
  next
    case (Inr request)
    then have b: "body = OneValue request False" by (auto simp: decodeJSON_def split: decoded.splits if_splits)
    show ?thesis
    proof (cases "decodeAttachments (sq_Attachments request)")
      case (Inl e)
      with assms Some Inr that(1) show ?thesis by (auto simp: handleSendEmail_def error_status split: if_splits)
    next
      case att: (Inr attachments)
      show ?thesis
      proof (cases "Build (hs_build srv) (st_idna (sv_store (hs_ingest srv))) (build_input request attachments)
         \<lparr>bo_MaxRecipients = lim_MaxRecipients (hs_limits srv), bo_MaxBytes = lim_MaxMessageBytes (hs_limits srv), bo_Now = hs_now srv\<rparr>")
        case (Inl e)
        with assms Some Inr att that(1) show ?thesis by (auto simp: handleSendEmail_def error_status split: if_splits)
      next
        case built: (Inr built)
        have bf: "built_from srv body built" unfolding built_from_def using b att built by blast
        obtain r lm1 w1 where sub: "run_state (Submit (hs_ingest srv) (rest_request ac built key (clientIPFrom info)) lm) w = ((r, lm1), w1)"
          by (metis surj_pair)
        with assms Some Inr att built that(2) [OF Some bf] show ?thesis by (auto simp: handleSendEmail_def)
      qed
    qed
  qed
qed

definition rest_accepted :: "('l, 'h) http_server \<Rightarrow> Request \<Rightarrow> timestamp \<Rightarrow> db \<Rightarrow> db \<Rightarrow> rest_body http_response \<Rightarrow> bool" where
  "rest_accepted srv req now d d' resp \<longleftrightarrow> (\<exists>msg rs rt row. authorised (hs_ingest srv) req d msg rs rt \<and> stored req msg rs rt now d d' row \<and>
     rs_Body resp = JsonBody (SendBody \<lparr>sp_ID = hs_uuid srv (msg_ID row), sp_Status = msg_Status row, sp_MessageID = nm_MessageID msg, sp_Recipients = rs,
       sp_Idempotent = False\<rparr>))"

lemma submitted_answer:
  assumes "submit_outcome (hs_ingest srv) req now d d' r"
    and "resp = (case r of
         Inl e \<Rightarrow> (case AsRejection e of Some rejection \<Rightarrow> writeRejection srv rejection | None \<Rightarrow> writeUnavailable)
       | Inr result \<Rightarrow>
           writeJSON [] (if res_Duplicate result then 200 else 202)
             (JsonBody (SendBody \<lparr>sp_ID = hs_uuid srv (res_ID result), sp_Status = res_Status result, sp_MessageID = res_RFCMessageID result,
                sp_Recipients = res_Recipients result, sp_Idempotent = res_Duplicate result\<rparr>)))"
  shows "(rs_Status resp = 202 \<longrightarrow> rest_accepted srv req now d d' resp) \<and>
    (rs_Status resp = 200 \<longrightarrow> d' = d \<and> (\<exists>res. replayed (hs_ingest srv) req now d res)) \<and>
    (rs_Status resp \<notin> {200, 202} \<longrightarrow> rs_Status resp \<in> {400..599}) \<and>
    (rs_Status resp \<notin> {202, 503} \<longrightarrow> db_payloads d' = db_payloads d \<and> db_jobs d' = db_jobs d)"
proof (cases r)
  case (Inr res)
  from assms(1) Inr have "(replayed (hs_ingest srv) req now d res \<and> d' = d) \<or>
      (\<exists>msg rs rt row. authorised (hs_ingest srv) req d msg rs rt \<and> stored req msg rs rt now d d' row \<and> res = \<lparr>res_ID = msg_ID row,
             res_Status = msg_Status row, res_RFCMessageID = nm_MessageID msg, res_Recipients = rs, res_BackendID = sr_BackendID rt, res_Duplicate = False\<rparr>)"
    by (simp add: submit_outcome_def)
  then show ?thesis
  proof (elim disjE conjE exE)
    assume p: "replayed (hs_ingest srv) req now d res" "d' = d"
    then have "res_Duplicate res" by (auto simp: replayed_def replay_def)
    with p assms(2) Inr show ?thesis by (auto simp: writeJSON_def)
  next
    fix msg rs rt row
    assume "authorised (hs_ingest srv) req d msg rs rt" "stored req msg rs rt now d d' row"
      and res: "res = \<lparr>res_ID = msg_ID row, res_Status = msg_Status row, res_RFCMessageID = nm_MessageID msg, res_Recipients = rs,
        res_BackendID = sr_BackendID rt, res_Duplicate = False\<rparr>"
    with assms(2) Inr have "rest_accepted srv req now d d' resp" "rs_Status resp = 202"
      unfolding rest_accepted_def by (auto simp: writeJSON_def)
    then show ?thesis by simp
  qed
next
  case (Inl e)
  show ?thesis
  proof (cases e)
    case (Refused rej)
    have "rejection_status (rej_Reason rej) \<in> {400..499}" by (rule rejection_status_range)
    with assms Inl Refused show ?thesis by (auto simp: submit_outcome_def refused_row_def AsRejection_def error_status)
  next
    case (Internal k)
    with assms Inl show ?thesis by (auto simp: AsRejection_def error_status)
  qed
qed

text \<open>
  C5: The status code tells the truth. A submission over HTTP is answered 202 only when its bearer key is that of a usable credential, its body was one JSON object
  from which a message was built, and that message was authorised for the credential and stored, queued, with its payload and
  its job; the body of the answer is the stored row's. It is answered 200 only when it is the replay of an earlier one, and then nothing is stored. Any other status is an
  error, and unless it is 503 (try again) the payloads and the jobs are as they were.
\<close>

theorem rest_answer_is_true:
  assumes "adds_jobs (sv_enqueuer (hs_ingest srv))" "peers w = []" "db_inv (st_lower (sv_store (hs_ingest srv))) (tables w)"
    and "run_state (post_emails srv authorization key info body lm) w = ((resp, lm'), w')"
  shows "(rs_Status resp = 202 \<longrightarrow> (\<exists>ac built. key_holder srv authorization w ac \<and> built_from srv body built \<and>
      rest_accepted srv (rest_request ac built key (clientIPFrom info)) (clock w) (tables w) (tables w') resp)) \<and>
    (rs_Status resp = 200 \<longrightarrow> tables w' = tables w \<and> (\<exists>ac built res. key_holder srv authorization w ac \<and>
      replayed (hs_ingest srv) (rest_request ac built key (clientIPFrom info)) (clock w) (tables w) res)) \<and>
    (rs_Status resp \<notin> {200, 202} \<longrightarrow> rs_Status resp \<in> {400..599}) \<and>
    (rs_Status resp \<notin> {202, 503} \<longrightarrow> db_payloads (tables w') = db_payloads (tables w) \<and> db_jobs (tables w') = db_jobs (tables w))"
proof -
  obtain r w1 where r: "run_state (requireAPIKey srv authorization info) w = (r, w1)" by fastforce
  note A = requireAPIKey_alone [OF assms(2) r]
  show ?thesis
  proof (cases r)
    case (Inl response)
    with assms(4) r A(1,4) show ?thesis by (auto simp: post_emails_def error_status)
  next
    case (Inr info')
    with A(4) obtain ac where ac: "key_holder srv authorization w ac" "info' = map_option (\<lambda>i. i\<lparr>ri_credential := Some ac\<rparr>) info" by auto
    have run: "run_state (handleSendEmail srv info' key body lm) w1 = ((resp, lm'), w')" using assms(4) r Inr by (simp add: post_emails_def)
    have ip: "clientIPFrom info' = clientIPFrom info" using ac(2) by (auto simp: clientIPFrom_def split: option.splits)
    from run show ?thesis
    proof (cases rule: handleSendEmail_cases)
      case answered
      with A(1) show ?thesis by auto
    next
      case (submitted ac' built res)
      have "ac' = ac" using submitted(1) ac(2) by (auto simp: credentialFrom_def split: option.splits)
      note O = Submit_outcome [OF assms(1) A(2) assms(3) [folded A(1)] submitted(3)]
      from submitted_answer [OF O submitted(4)] submitted(2) ac(1) A(1,3) ip \<open>ac' = ac\<close> show ?thesis by auto
    qed
  qed
qed


section \<open>Idempotency keys\<close>

text \<open>
  The table allows keys of at most 255 bytes, and nothing checks a key before the insertion: a submission with a longer one is never accepted.
\<close>

lemma long_key_never_accepted:
  assumes "adds_jobs (sv_enqueuer sv)" "peers w = []" "db_inv (st_lower (sv_store sv)) (tables w)"
    and "run_state (Submit sv req lm) w = ((r, lm'), w')" "length (rq_IdempotencyKey req) > 255"
  shows "isl r"
proof (rule ccontr)
  assume "\<not> isl r"
  then obtain res where r: "r = Inr res" by (cases r) auto
  have short: "length k \<le> 255" if "db_inv (st_lower (sv_store sv)) d" "m \<in> set (db_messages d)" "msg_IdempotencyKey m = Some k" for d m k
  proof -
    have ok: "table_ok (db_message_schema (st_lower (sv_store sv)) d) (db_messages d)" using that(1) by (simp add: db_inv_def db_message_schema_def)
    have "\<forall>k \<in> set_option (msg_IdempotencyKey m). 1 \<le> length k \<and> length k \<le> 255"
      by (rule table_ok_check [OF ok _ that(2), of "''email_message_idempotency_length''"]) (simp add: db_message_schema_def message_schema_def)
    with that(3) show ?thesis by simp
  qed
  have "audited (st_lower (sv_store sv)) (tables w) (tables w')"
    using au.obeysD [OF Submit_obeys [OF assms(1)] assms(4) au.friendly_alone [OF assms(2)]] by simp
  then have inv: "db_inv (st_lower (sv_store sv)) (tables w')" using assms(3) by (simp add: audited_def)
  from Submit_outcome [OF assms(1-4)] r consider "replayed sv req (clock w) (tables w) res"
    | msg rs rt row where "stored req msg rs rt (clock w) (tables w) (tables w') row" by (auto simp: submit_outcome_def)
  then show False
  proof cases
    case 1
    with short [OF assms(3)] assms(5) show False by (fastforce simp: replayed_def)
  next
    case 2
    then have "row \<in> set (db_messages (tables w'))" "msg_IdempotencyKey row = Some (rq_IdempotencyKey req)"
      using assms(5) by (auto simp: stored_def accepted_def new_message_def queued_row_def queued_params_def stringPtr_def)
    with short [OF inv] assms(5) show False by fastforce
  qed
qed

section \<open>Witnesses\<close>

definition demo_http :: "(unit, (string \<times> string) list) http_server" where
  "demo_http = \<lparr>hs_ingest = demo_service, hs_store = demo_store, hs_authenticator = demo_store,
     hs_limits = \<lparr>lim_MaxMessageBytes = 1000, lim_MaxRequestBytes = 2000, lim_MaxRecipients = 5\<rparr>, hs_trustedProxyHeader = [],
     hs_build = demo_build\<lparr>bl_write := (\<lambda>ops m. Some demo_mail)\<rparr>, hs_now = 0,
     hs_uuid_Parse = (\<lambda>t. if t = ''41'' then Some 41 else None), hs_uuid = (\<lambda>i. ''u''), hs_rfc3339 = (\<lambda>t. ''t''), hs_detail = (\<lambda>_. []),
     hs_build_text = (\<lambda>_. [])\<rparr>"

definition demo_send_request :: sendRequest where
  "demo_send_request = \<lparr>sq_From = ''bob@example.com'', sq_To = [''Eve@mail.example.org''], sq_Cc = [], sq_Bcc = [], sq_ReplyTo = [],
     sq_Subject = ''hi'', sq_Text = ''hello'', sq_HTML = [], sq_Headers = [],
     sq_Attachments = [\<lparr>ra_Filename = ''a.txt'', ra_Content = ''aGVsbG8'', ra_ContentType = [], ra_ContentID = []\<rparr>]\<rparr>"

definition rest_world :: world where
  "rest_world = queued_world\<lparr>tables := (tables queued_world)\<lparr>db_credentials := [known_cred]\<rparr>\<rparr>"

definition demo_authorization :: string where
  "demo_authorization = ''Bearer '' @ known_token"

definition demo_info :: "requestInfo option" where
  "demo_info = Some \<lparr>ri_clientIP = None, ri_credential = None\<rparr>"

lemma demo_post_all:
  "(rs_Status (fst (fst (run_state (post_emails demo_http demo_authorization [] demo_info (OneValue demo_send_request False) no_buckets) rest_world))) = 202) \<and>
   (rs_Status (fst (fst (run_state (post_emails demo_http demo_authorization (replicate 256 (CHR ''k'')) demo_info (OneValue demo_send_request False) no_buckets) rest_world))) = 503)"
  by code_simp

lemmas demo_post =
  demo_post_all [THEN conjunct1]
  demo_post_all [THEN conjunct2]

lemma rest_inv: "db_inv (st_lower demo_store) (tables rest_world)" "peers rest_world = []"
  by (code_simp, simp add: rest_world_def)

lemma demo_http_facts: "hs_ingest demo_http = demo_service"
  by (simp add: demo_http_def)

theorem rest_answer_is_true_witness:
  "\<exists>resp lm' w' ac built. run_state (post_emails demo_http demo_authorization [] demo_info (OneValue demo_send_request False) no_buckets) rest_world = ((resp, lm'), w') \<and>
     rs_Status resp = 202 \<and> rest_accepted demo_http (rest_request ac built [] None) (clock rest_world) (tables rest_world) (tables w') resp"
proof -
  obtain resp lm' w' where r: "run_state (post_emails demo_http demo_authorization [] demo_info (OneValue demo_send_request False) no_buckets) rest_world = ((resp, lm'), w')"
    by (metis surj_pair)
  have "rs_Status resp = 202" using demo_post(1) r by simp
  moreover have "clientIPFrom demo_info = None" by (simp add: clientIPFrom_def demo_info_def)
  ultimately show ?thesis
    using rest_answer_is_true [OF _ rest_inv(2) _ r] r rest_inv(1) by (fastforce simp: demo_http_facts demo_service_facts)
qed

lemma demo_get: "(case rs_Body (fst (run_state (get_email demo_http demo_authorization demo_info ''41'') rest_world)) of JsonBody (MessageBody _) \<Rightarrow> True | _ \<Rightarrow> False)"
  by code_simp


end
