(* ===== verification/Admin_Auth.thy ===== *)
theory Admin_Auth
  imports Relais_Prelude
begin

text \<open>
  Who administers: \<^verbatim>\<open>src/internal/adminauth/adminauth.go\<close>.

  \<^verbatim>\<open>go-oidc\<close> is the parameter \<open>oidc_lib\<close>, with the case folding of \<^verbatim>\<open>strings.EqualFold\<close>, which rests on the tables of
  Unicode. What \<^verbatim>\<open>oidc.NewProvider\<close> returns depends on the network at that moment and is an argument; every function that may
  call it reports whether it did (\<open>oidc_call\<close>). Times and durations are nanoseconds. Error texts and log lines are left out.

  Shown: exactly whose token is let in and with which role; that the identity provider is asked at most once per retry
  window; and where an outage of the provider is reported as a bad token.
\<close>

section \<open>Externals, errors and data\<close>

datatype adminauth_error = AA_Unauthenticated | AA_Forbidden | AA_ProviderUnavailable | AA_NotConfigured | AA_AudienceRequired

definition RoleAdmin :: string where "RoleAdmin = ''admin''"
definition RoleViewer :: string where "RoleViewer = ''viewer''"

record Identity =
  id_Subject :: string
  id_Email :: string
  id_Name :: string
  id_Groups :: "string list"
  id_Role :: string

definition CanWrite :: "Identity \<Rightarrow> bool" where
  "CanWrite i \<longleftrightarrow> id_Role i = RoleAdmin"

definition Identity_String :: "Identity \<Rightarrow> string" where
  "Identity_String i = (if id_Email i \<noteq> [] then id_Email i else if id_Name i \<noteq> [] then id_Name i else id_Subject i)"

record AdminAuth_Config =
  aa_Issuer :: string
  aa_Audience :: string
  aa_JWKSURL :: string
  aa_GroupsClaim :: string
  aa_AdminGroup :: string
  aa_ViewerGroup :: string
  aa_DiscoveryTimeout :: int
  aa_DiscoveryRetryAfter :: int

text \<open>The dynamic types a claim can have; \<open>ClaimOther\<close> is every type the source does not look at.\<close>

datatype claim = ClaimText string | ClaimNumber string | ClaimTexts "string list" | ClaimList "claim list" | ClaimOther

record IDToken =
  tok_Issuer :: string
  tok_Audience :: "string list"
  tok_Subject :: string
  tok_Expiry :: int
  tok_Claims :: "(string \<rightharpoonup> claim) option"

text \<open>What checking a token gives; the keys that signed it may have to be fetched first, and that can fail.\<close>

datatype token_check = TokenVerified IDToken | TokenRefused | KeysUnreachable

record oidc_config =
  oc_ClientID :: string
  oc_SupportedSigningAlgs :: "string list"

record ('k, 'p, 'v) oidc_lib =
  ol_NewRemoteKeySet :: "string \<Rightarrow> 'k"
  ol_NewVerifier :: "string \<Rightarrow> 'k \<Rightarrow> oidc_config \<Rightarrow> 'v"
  ol_VerifierContext :: "'p \<Rightarrow> oidc_config \<Rightarrow> 'v"
  ol_provider_issuer :: "'p \<Rightarrow> string"
  ol_Verify :: "int \<Rightarrow> 'v \<Rightarrow> string \<Rightarrow> token_check"
  ol_alg :: "string \<Rightarrow> string"
  ol_EqualFold :: "string \<Rightarrow> string \<Rightarrow> bool"

datatype oidc_call = NewProvider string

record 'v Verifier =
  vf_cfg :: AdminAuth_Config
  vf_verifier :: "'v option"
  vf_lastFailure :: "adminauth_error option"
  vf_lastAttempt :: int

section \<open>Operations\<close>

definition default_duration :: "int \<Rightarrow> int \<Rightarrow> int" where
  "default_duration d seconds = (if d \<le> 0 then seconds * 1000000000 else d)"

definition adminauth_New :: "AdminAuth_Config \<Rightarrow> (adminauth_error, 'v Verifier) result" where
  "adminauth_New cfg =
     (if trim_space (aa_Issuer cfg) = [] then Inl AA_NotConfigured
      else if trim_space (aa_Audience cfg) = [] then Inl AA_AudienceRequired
      else Inr \<lparr>vf_cfg = cfg\<lparr>aa_GroupsClaim := (if aa_GroupsClaim cfg = [] then ''groups'' else aa_GroupsClaim cfg),
                          aa_AdminGroup := (if aa_AdminGroup cfg = [] then ''relais-admin'' else aa_AdminGroup cfg),
                          aa_DiscoveryTimeout := default_duration (aa_DiscoveryTimeout cfg) 10,
                          aa_DiscoveryRetryAfter := default_duration (aa_DiscoveryRetryAfter cfg) 15\<rparr>,
                vf_verifier = None, vf_lastFailure = None, vf_lastAttempt = 0\<rparr>)"

definition signing_algs :: "string list" where
  "signing_algs = [''RS256'', ''RS384'', ''RS512'', ''ES256'', ''ES384'', ''ES512'']"

definition verifier_config :: "AdminAuth_Config \<Rightarrow> oidc_config" where
  "verifier_config cfg = \<lparr>oc_ClientID = aa_Audience cfg, oc_SupportedSigningAlgs = signing_algs\<rparr>"

definition resolve ::
    "('k, 'p, 'v) oidc_lib \<Rightarrow> int \<Rightarrow> 'p option \<Rightarrow> 'v Verifier \<Rightarrow> (adminauth_error, 'v) result \<times> oidc_call list \<times> 'v Verifier" where
  "resolve x now provider v =
     (case vf_verifier v of
        Some vv \<Rightarrow> (Inr vv, [], v)
      | None \<Rightarrow>
          (case (if now - vf_lastAttempt v < aa_DiscoveryRetryAfter (vf_cfg v) then vf_lastFailure v else None) of
             Some e \<Rightarrow> (Inl e, [], v)
           | None \<Rightarrow>
               let v = v\<lparr>vf_lastAttempt := now\<rparr>; cfg = vf_cfg v; oidcConfig = verifier_config cfg in
               if aa_JWKSURL cfg \<noteq> [] then
                 let vv = ol_NewVerifier x (aa_Issuer cfg) (ol_NewRemoteKeySet x (aa_JWKSURL cfg)) oidcConfig in
                 (Inr vv, [], v\<lparr>vf_verifier := Some vv, vf_lastFailure := None\<rparr>)
               else
                 (case provider of
                    None \<Rightarrow> (Inl AA_ProviderUnavailable, [NewProvider (aa_Issuer cfg)], v\<lparr>vf_lastFailure := Some AA_ProviderUnavailable\<rparr>)
                  | Some p \<Rightarrow>
                      let vv = ol_VerifierContext x p oidcConfig in
                      (Inr vv, [NewProvider (aa_Issuer cfg)], v\<lparr>vf_verifier := Some vv, vf_lastFailure := None\<rparr>))))"

definition stringClaim :: "(string \<rightharpoonup> claim) \<Rightarrow> string \<Rightarrow> string" where
  "stringClaim claims key = (case claims key of Some (ClaimText t) \<Rightarrow> t | _ \<Rightarrow> [])"

definition stringsClaim :: "(string \<rightharpoonup> claim) \<Rightarrow> string \<Rightarrow> string list" where
  "stringsClaim claims key =
     (case claims key of
        None \<Rightarrow> []
      | Some (ClaimList items) \<Rightarrow> List.map_filter (\<lambda>item. case item of ClaimText t \<Rightarrow> Some t | _ \<Rightarrow> None) items
      | Some (ClaimTexts ts) \<Rightarrow> ts
      | Some (ClaimText t) \<Rightarrow> [t]
      | Some (ClaimNumber n) \<Rightarrow> [n]
      | Some ClaimOther \<Rightarrow> [])"

fun containsFold :: "(string \<Rightarrow> string \<Rightarrow> bool) \<Rightarrow> string list \<Rightarrow> string \<Rightarrow> bool" where
  "containsFold eqf [] want = False"
| "containsFold eqf (v # vs) want = (if eqf (trim_space v) want then True else containsFold eqf vs want)"

definition identityOf :: "(string \<Rightarrow> string \<Rightarrow> bool) \<Rightarrow> AdminAuth_Config \<Rightarrow> IDToken \<Rightarrow> (adminauth_error, Identity) result" where
  "identityOf eqf cfg token =
     (case tok_Claims token of
        None \<Rightarrow> Inl AA_Unauthenticated
      | Some claims \<Rightarrow>
          let identity = \<lparr>id_Subject = tok_Subject token, id_Email = stringClaim claims ''email'', id_Name = stringClaim claims ''name'',
                          id_Groups = stringsClaim claims (aa_GroupsClaim cfg), id_Role = []\<rparr> in
          if containsFold eqf (id_Groups identity) (aa_AdminGroup cfg) then Inr (identity\<lparr>id_Role := RoleAdmin\<rparr>)
          else if aa_ViewerGroup cfg \<noteq> [] \<and> containsFold eqf (id_Groups identity) (aa_ViewerGroup cfg)
          then Inr (identity\<lparr>id_Role := RoleViewer\<rparr>)
          else Inl AA_Forbidden)"

definition adminauth_Verify ::
    "('k, 'p, 'v) oidc_lib \<Rightarrow> int \<Rightarrow> 'p option \<Rightarrow> string \<Rightarrow> 'v Verifier \<Rightarrow> (adminauth_error, Identity) result \<times> oidc_call list \<times> 'v Verifier" where
  "adminauth_Verify x now provider rawToken v =
     (let token = trim_space rawToken in
      if token = [] then (Inl AA_Unauthenticated, [], v)
      else case resolve x now provider v of
        (Inl e, calls, v') \<Rightarrow> (Inl e, calls, v')
      | (Inr vv, calls, v') \<Rightarrow>
          (case ol_Verify x now vv token of
             TokenVerified t \<Rightarrow> identityOf (ol_EqualFold x) (vf_cfg v') t
           | TokenRefused \<Rightarrow> Inl AA_Unauthenticated
           | KeysUnreachable \<Rightarrow> Inl AA_Unauthenticated, calls, v'))"

section \<open>Whose token is let in\<close>

text \<open>
  What \<^verbatim>\<open>go-oidc\<close> documents: a verifier accepts a token only from its issuer, for its client, before it expires and with one of
  the algorithms it was given; the verifier of a discovered provider has that provider's issuer.
\<close>

definition accepts_only :: "('k, 'p, 'v) oidc_lib \<Rightarrow> 'v \<Rightarrow> string \<Rightarrow> oidc_config \<Rightarrow> bool" where
  "accepts_only x vv issuer cfg \<longleftrightarrow>
     (\<forall>now raw t. ol_Verify x now vv raw = TokenVerified t \<longrightarrow>
        tok_Issuer t = issuer \<and> oc_ClientID cfg \<in> set (tok_Audience t) \<and> now \<le> tok_Expiry t \<and> ol_alg x raw \<in> set (oc_SupportedSigningAlgs cfg))"

definition oidc_lawful :: "('k, 'p, 'v) oidc_lib \<Rightarrow> bool" where
  "oidc_lawful x \<longleftrightarrow>
     (\<forall>issuer keys cfg. accepts_only x (ol_NewVerifier x issuer keys cfg) issuer cfg) \<and>
     (\<forall>p cfg. accepts_only x (ol_VerifierContext x p cfg) (ol_provider_issuer x p) cfg)"

text \<open>
  The states of a verifier: the new one, and what a request makes of it. A request comes at a time, with a token, and with what
  discovery would give; \<^verbatim>\<open>oidc.NewProvider\<close> refuses a provider whose document names another issuer.
\<close>

inductive verifier_reach :: "('k, 'p, 'v) oidc_lib \<Rightarrow> AdminAuth_Config \<Rightarrow> 'v Verifier \<Rightarrow> bool" for x cfg where
  fresh: "adminauth_New cfg = Inr v \<Longrightarrow> verifier_reach x cfg v"
| request: "verifier_reach x cfg v \<Longrightarrow> (case provider of None \<Rightarrow> True | Some p \<Rightarrow> ol_provider_issuer x p = aa_Issuer cfg) \<Longrightarrow>
    adminauth_Verify x now provider raw v = (r, calls, v') \<Longrightarrow> verifier_reach x cfg v'"

lemma containsFold_iff: "containsFold eqf vs want \<longleftrightarrow> (\<exists>v \<in> set vs. eqf (trim_space v) want)"
  by (induction vs) auto

lemma resolve_cfg: "resolve x now provider v = (r, calls, v') \<Longrightarrow> vf_cfg v' = vf_cfg v"
  by (auto simp: resolve_def Let_def split: option.splits if_splits)

lemma Verify_cfg: "adminauth_Verify x now provider raw v = (r, calls, v') \<Longrightarrow> vf_cfg v' = vf_cfg v"
  by (auto simp: adminauth_Verify_def Let_def dest: resolve_cfg split: if_splits sum.splits prod.splits)

lemma New_cfg:
  assumes "adminauth_New cfg = Inr v"
  shows "aa_Issuer (vf_cfg v) = aa_Issuer cfg" "aa_Audience (vf_cfg v) = aa_Audience cfg" "aa_ViewerGroup (vf_cfg v) = aa_ViewerGroup cfg"
    "aa_JWKSURL (vf_cfg v) = aa_JWKSURL cfg" "aa_GroupsClaim (vf_cfg v) \<noteq> []" "aa_AdminGroup (vf_cfg v) \<noteq> []"
    "0 < aa_DiscoveryRetryAfter (vf_cfg v)" "trim_space (aa_Audience cfg) \<noteq> []"
    "aa_AdminGroup (vf_cfg v) = (if aa_AdminGroup cfg = [] then ''relais-admin'' else aa_AdminGroup cfg)"
    "aa_GroupsClaim (vf_cfg v) = (if aa_GroupsClaim cfg = [] then ''groups'' else aa_GroupsClaim cfg)"
    "vf_verifier v = None" "vf_lastFailure v = None"
proof -
  have "trim_space (aa_Audience cfg) \<noteq> [] \<and>
      v = \<lparr>vf_cfg = cfg\<lparr>aa_GroupsClaim := (if aa_GroupsClaim cfg = [] then ''groups'' else aa_GroupsClaim cfg),
        aa_AdminGroup := (if aa_AdminGroup cfg = [] then ''relais-admin'' else aa_AdminGroup cfg),
        aa_DiscoveryTimeout := default_duration (aa_DiscoveryTimeout cfg) 10,
        aa_DiscoveryRetryAfter := default_duration (aa_DiscoveryRetryAfter cfg) 15\<rparr>, vf_verifier = None, vf_lastFailure = None, vf_lastAttempt = 0\<rparr>"
    using assms unfolding adminauth_New_def by (metis Inl_Inr_False sum.inject(2))
  then show "aa_Issuer (vf_cfg v) = aa_Issuer cfg" "aa_Audience (vf_cfg v) = aa_Audience cfg" "aa_ViewerGroup (vf_cfg v) = aa_ViewerGroup cfg"
    "aa_JWKSURL (vf_cfg v) = aa_JWKSURL cfg" "aa_GroupsClaim (vf_cfg v) \<noteq> []" "aa_AdminGroup (vf_cfg v) \<noteq> []"
    "0 < aa_DiscoveryRetryAfter (vf_cfg v)" "trim_space (aa_Audience cfg) \<noteq> []"
    "aa_AdminGroup (vf_cfg v) = (if aa_AdminGroup cfg = [] then ''relais-admin'' else aa_AdminGroup cfg)"
    "aa_GroupsClaim (vf_cfg v) = (if aa_GroupsClaim cfg = [] then ''groups'' else aa_GroupsClaim cfg)"
    "vf_verifier v = None" "vf_lastFailure v = None"
    by (simp_all add: default_duration_def)
qed

lemma reach_cfg: "verifier_reach x cfg v \<Longrightarrow> \<exists>v0 :: 'v Verifier. adminauth_New cfg = Inr v0 \<and> vf_cfg v = vf_cfg v0"
  for x :: "('k, 'p, 'v) oidc_lib"
  by (induction rule: verifier_reach.induct) (auto dest: Verify_cfg)


definition bound_to :: "('k, 'p, 'v) oidc_lib \<Rightarrow> AdminAuth_Config \<Rightarrow> 'v Verifier \<Rightarrow> bool" where
  "bound_to x cfg v \<longleftrightarrow> vf_lastFailure v \<in> {None, Some AA_ProviderUnavailable} \<and>
     (\<forall>vv. vf_verifier v = Some vv \<longrightarrow> accepts_only x vv (aa_Issuer cfg) (verifier_config cfg))"

lemma resolve_bound:
  assumes "oidc_lawful x" "bound_to x cfg v" "aa_Issuer (vf_cfg v) = aa_Issuer cfg" "aa_Audience (vf_cfg v) = aa_Audience cfg"
    "case provider of None \<Rightarrow> True | Some p \<Rightarrow> ol_provider_issuer x p = aa_Issuer cfg"
    "resolve x now provider v = (r, calls, v')"
  shows "bound_to x cfg v' \<and> (case r of Inr vv \<Rightarrow> accepts_only x vv (aa_Issuer cfg) (verifier_config cfg) \<and> vf_verifier v' = Some vv
    | Inl e \<Rightarrow> e = AA_ProviderUnavailable \<and> vf_verifier v' = None)"
proof -
  have n: "accepts_only x (ol_NewVerifier x (aa_Issuer cfg) keys c) (aa_Issuer cfg) c" for keys c
    using assms(1) by (simp add: oidc_lawful_def)
  have d: "accepts_only x (ol_VerifierContext x p c) (aa_Issuer cfg) c" if "provider = Some p" for p c
  proof -
    have "ol_provider_issuer x p = aa_Issuer cfg" using assms(5) that by simp
    moreover have "accepts_only x (ol_VerifierContext x p c) (ol_provider_issuer x p) c" using assms(1) by (simp add: oidc_lawful_def)
    ultimately show ?thesis by simp
  qed
  have c: "verifier_config (vf_cfg v) = verifier_config cfg" using assms(4) by (simp add: verifier_config_def)
  show ?thesis
    using assms(2,3,6) n d by (auto simp: resolve_def bound_to_def Let_def c split: option.splits if_splits)
qed

lemma Verify_bound:
  assumes "oidc_lawful x" "bound_to x cfg v" "aa_Issuer (vf_cfg v) = aa_Issuer cfg" "aa_Audience (vf_cfg v) = aa_Audience cfg"
    "case provider of None \<Rightarrow> True | Some p \<Rightarrow> ol_provider_issuer x p = aa_Issuer cfg"
    "adminauth_Verify x now provider raw v = (r, calls, v')"
  shows "bound_to x cfg v'"
proof (cases "trim_space raw = []")
  case True
  with assms(2,6) show ?thesis by (simp add: adminauth_Verify_def)
next
  case False
  obtain q c v1 where q: "resolve x now provider v = (q, c, v1)" by (metis surj_pair)
  with False assms(6) have "v' = v1" by (auto simp: adminauth_Verify_def split: sum.splits)
  with resolve_bound [OF assms(1-5) q] show ?thesis by simp
qed

lemma reach_bound:
  assumes "oidc_lawful x" "verifier_reach x cfg v"
  shows "bound_to x cfg v"
  using assms(2)
proof (induction rule: verifier_reach.induct)
  case (fresh v)
  then show ?case by (simp add: bound_to_def New_cfg)
next
  case (request v provider now raw r calls v')
  obtain v0 :: "'c Verifier" where "adminauth_New cfg = Inr v0" "vf_cfg v = vf_cfg v0" using reach_cfg [OF request(1)] by blast
  with New_cfg(1,2) have "aa_Issuer (vf_cfg v) = aa_Issuer cfg" "aa_Audience (vf_cfg v) = aa_Audience cfg" by metis+
  from Verify_bound [OF assms(1) request(4) this request(2,3)] show ?case .
qed

text \<open>A token the configured provider issued for this application, presented before it expired.\<close>

definition issued_for :: "('k, 'p, 'v) oidc_lib \<Rightarrow> AdminAuth_Config \<Rightarrow> int \<Rightarrow> string \<Rightarrow> IDToken \<Rightarrow> bool" where
  "issued_for x cfg now raw t \<longleftrightarrow> tok_Issuer t = aa_Issuer cfg \<and> aa_Audience cfg \<in> set (tok_Audience t) \<and> now \<le> tok_Expiry t \<and>
     ol_alg x raw \<in> set signing_algs"

definition in_group :: "('k, 'p, 'v) oidc_lib \<Rightarrow> string list \<Rightarrow> string \<Rightarrow> bool" where
  "in_group x groups g \<longleftrightarrow> (\<exists>h \<in> set groups. ol_EqualFold x (trim_space h) g)"

definition admin_group :: "AdminAuth_Config \<Rightarrow> string" where
  "admin_group cfg = (if aa_AdminGroup cfg = [] then ''relais-admin'' else aa_AdminGroup cfg)"

definition viewer_group :: "('k, 'p, 'v) oidc_lib \<Rightarrow> AdminAuth_Config \<Rightarrow> string list \<Rightarrow> bool" where
  "viewer_group x cfg groups \<longleftrightarrow> aa_ViewerGroup cfg \<noteq> [] \<and> in_group x groups (aa_ViewerGroup cfg)"

definition token_groups :: "AdminAuth_Config \<Rightarrow> IDToken \<Rightarrow> string list" where
  "token_groups cfg t = (case tok_Claims t of None \<Rightarrow> []
     | Some claims \<Rightarrow> stringsClaim claims (if aa_GroupsClaim cfg = [] then ''groups'' else aa_GroupsClaim cfg))"

lemma identityOf_cases:
  assumes "adminauth_New cfg = Inr v0"
  shows "case identityOf (ol_EqualFold x) (vf_cfg v0) t of
      Inr idn \<Rightarrow> id_Subject idn = tok_Subject t \<and> id_Groups idn = token_groups cfg t \<and>
        (if in_group x (token_groups cfg t) (admin_group cfg) then id_Role idn = RoleAdmin
         else id_Role idn = RoleViewer \<and> viewer_group x cfg (token_groups cfg t))
    | Inl e \<Rightarrow> if tok_Claims t = None then e = AA_Unauthenticated
        else e = AA_Forbidden \<and> \<not> in_group x (token_groups cfg t) (admin_group cfg) \<and> \<not> viewer_group x cfg (token_groups cfg t)"
  using New_cfg [OF assms]
  by (auto simp: identityOf_def token_groups_def in_group_def viewer_group_def admin_group_def containsFold_iff Let_def split: option.splits)

lemma Verify_checked:
  assumes "oidc_lawful x" "verifier_reach x cfg v"
    and "case provider of None \<Rightarrow> True | Some p \<Rightarrow> ol_provider_issuer x p = aa_Issuer cfg"
    and "adminauth_Verify x now provider raw v = (r, calls, v')"
  shows "case r of
      Inr idn \<Rightarrow> \<exists>t. issued_for x cfg now (trim_space raw) t \<and> id_Subject idn = tok_Subject t \<and>
        (CanWrite idn \<longleftrightarrow> in_group x (token_groups cfg t) (admin_group cfg)) \<and>
        (CanWrite idn \<or> id_Role idn = RoleViewer \<and> viewer_group x cfg (token_groups cfg t))
    | Inl e \<Rightarrow> e = AA_Unauthenticated \<or> e = AA_ProviderUnavailable \<and> vf_verifier v' = None \<or>
        e = AA_Forbidden \<and> (\<exists>t. issued_for x cfg now (trim_space raw) t \<and>
          \<not> in_group x (token_groups cfg t) (admin_group cfg) \<and> \<not> viewer_group x cfg (token_groups cfg t))"
proof (cases "trim_space raw = []")
  case True
  with assms(4) show ?thesis by (auto simp: adminauth_Verify_def)
next
  case raw: False
  obtain v0 :: "'c Verifier" where v0: "adminauth_New cfg = Inr v0" "vf_cfg v = vf_cfg v0" using reach_cfg [OF assms(2)] by blast
  have c: "aa_Issuer (vf_cfg v) = aa_Issuer cfg" "aa_Audience (vf_cfg v) = aa_Audience cfg" using New_cfg [OF v0(1)] v0(2) by simp_all
  obtain q cs v1 where q: "resolve x now provider v = (q, cs, v1)" by (metis surj_pair)
  note b = resolve_bound [OF assms(1) reach_bound [OF assms(1,2)] c assms(3) q]
  have cfg: "vf_cfg v1 = vf_cfg v0" using resolve_cfg [OF q] v0 by simp
  show ?thesis
  proof (cases q)
    case (Inl e)
    with b q raw assms(4) show ?thesis by (auto simp: adminauth_Verify_def)
  next
    case (Inr vv)
    show ?thesis
    proof (cases "ol_Verify x now vv (trim_space raw)")
      case (TokenVerified t)
      have i: "issued_for x cfg now (trim_space raw) t"
        using b Inr TokenVerified by (auto simp: accepts_only_def issued_for_def verifier_config_def)
      have r: "r = identityOf (ol_EqualFold x) (vf_cfg v0) t"
        using assms(4) raw q Inr TokenVerified cfg by (simp add: adminauth_Verify_def)
      have "RoleViewer \<noteq> RoleAdmin" by (simp add: RoleViewer_def RoleAdmin_def)
      with identityOf_cases [OF v0(1), of t x] i show ?thesis
        unfolding r [symmetric] by (cases r) (auto simp: CanWrite_def split: if_splits)
    next
      case TokenRefused
      with assms(4) raw q Inr show ?thesis by (auto simp: adminauth_Verify_def)
    next
      case KeysUnreachable
      with assms(4) raw q Inr show ?thesis by (auto simp: adminauth_Verify_def)
    qed
  qed
qed


section \<open>How often the provider is asked\<close>

text \<open>Requests in the order in which they hold the mutex, each with its time, what discovery would give then, and its token.\<close>

fun discovery_times :: "('k, 'p, 'v) oidc_lib \<Rightarrow> (int \<times> 'p option \<times> string) list \<Rightarrow> 'v Verifier \<Rightarrow> int list" where
  "discovery_times x [] v = []"
| "discovery_times x ((now, provider, raw) # reqs) v =
     (case adminauth_Verify x now provider raw v of (r, calls, v') \<Rightarrow> map (\<lambda>_. now) calls @ discovery_times x reqs v')"

lemma Verify_asks:
  assumes "adminauth_Verify x now provider raw v = (r, calls, v')"
  shows "(calls = [] \<and> (v' = v \<or> vf_verifier v' \<noteq> None)) \<or>
    (calls = [NewProvider (aa_Issuer (vf_cfg v))] \<and> vf_verifier v = None \<and> aa_JWKSURL (vf_cfg v) = [] \<and>
     (vf_lastFailure v \<noteq> None \<longrightarrow> vf_lastAttempt v + aa_DiscoveryRetryAfter (vf_cfg v) \<le> now) \<and>
     (vf_verifier v' \<noteq> None \<or> (vf_lastFailure v' \<noteq> None \<and> vf_lastAttempt v' = now)))"
  using assms
  by (auto simp: adminauth_Verify_def resolve_def Let_def split: if_splits option.splits sum.splits prod.splits)

lemma resolved_asks_no_more: "vf_verifier v \<noteq> None \<Longrightarrow> discovery_times x reqs v = []"
proof (induction x reqs v rule: discovery_times.induct)
  case (2 x now provider raw reqs v)
  obtain r calls v' where c: "adminauth_Verify x now provider raw v = (r, calls, v')" by (metis surj_pair)
  from Verify_asks [OF c] 2(2) have "calls = []" "vf_verifier v' \<noteq> None" by auto
  with 2(1) [OF c [symmetric] refl] c show ?case by simp
qed simp

lemma jwks_url_asks_never: "aa_JWKSURL (vf_cfg v) \<noteq> [] \<Longrightarrow> discovery_times x reqs v = []"
proof (induction x reqs v rule: discovery_times.induct)
  case (2 x now provider raw reqs v)
  obtain r calls v' where c: "adminauth_Verify x now provider raw v = (r, calls, v')" by (metis surj_pair)
  from Verify_asks [OF c] 2(2) have "calls = []" by auto
  with 2(1) [OF c [symmetric] refl] c 2(2) Verify_cfg [OF c] show ?case by simp
qed simp

lemma asks_after_window:
  "0 < aa_DiscoveryRetryAfter (vf_cfg v) \<Longrightarrow> sorted_wrt (\<lambda>s t. s + aa_DiscoveryRetryAfter (vf_cfg v) \<le> t) (discovery_times x reqs v) \<and>
   (vf_lastFailure v \<noteq> None \<longrightarrow> (\<forall>t \<in> set (discovery_times x reqs v). vf_lastAttempt v + aa_DiscoveryRetryAfter (vf_cfg v) \<le> t))"
proof (induction x reqs v rule: discovery_times.induct)
  case (2 x now provider raw reqs v)
  obtain r calls v' where c: "adminauth_Verify x now provider raw v = (r, calls, v')" by (metis surj_pair)
  note ih = 2(1) [OF c [symmetric] refl, unfolded Verify_cfg [OF c], OF 2(2)]
  consider "calls = []" "v' = v" | "calls = []" "vf_verifier v' \<noteq> None"
    | "calls = [NewProvider (aa_Issuer (vf_cfg v))]" "vf_lastFailure v \<noteq> None \<longrightarrow> vf_lastAttempt v + aa_DiscoveryRetryAfter (vf_cfg v) \<le> now"
        "vf_verifier v' \<noteq> None \<or> (vf_lastFailure v' \<noteq> None \<and> vf_lastAttempt v' = now)"
    using Verify_asks [OF c] by blast
  then show ?case
  proof cases
    case 1
    with ih c show ?thesis by simp
  next
    case 2
    with resolved_asks_no_more [OF 2(2), of x reqs] c show ?thesis by simp
  next
    case 3
    have "now + aa_DiscoveryRetryAfter (vf_cfg v) \<le> t" if "t \<in> set (discovery_times x reqs v')" for t
      using 3(3) ih that resolved_asks_no_more [of v' x reqs] by auto
    with 3 ih c 2(2) show ?thesis by fastforce
  qed
qed simp

text \<open>
  However many requests arrive, and whatever the provider does, two attempts to discover it are at least one retry window apart; the
  window is positive, fifteen seconds when none is configured, and with a configured key URL there is no discovery at all.
\<close>

theorem discovery_is_spaced:
  assumes "adminauth_New cfg = Inr v"
  shows "let window = (if aa_DiscoveryRetryAfter cfg \<le> 0 then 15 * 1000000000 else aa_DiscoveryRetryAfter cfg) in
    0 < window \<and> sorted_wrt (\<lambda>s t. s + window \<le> t) (discovery_times x reqs v) \<and> (aa_JWKSURL cfg \<noteq> [] \<longrightarrow> discovery_times x reqs v = [])"
proof -
  have "aa_DiscoveryRetryAfter (vf_cfg v) = (if aa_DiscoveryRetryAfter cfg \<le> 0 then 15 * 1000000000 else aa_DiscoveryRetryAfter cfg)"
    using assms by (auto simp: adminauth_New_def default_duration_def split: if_splits)
  moreover have "aa_JWKSURL cfg \<noteq> [] \<longrightarrow> discovery_times x reqs v = []"
    using jwks_url_asks_never [of v x reqs] New_cfg(4) [OF assms] by simp
  ultimately show ?thesis using asks_after_window [of v x reqs] New_cfg(7) [OF assms] by (simp add: Let_def)
qed

section \<open>Outages\<close>

text \<open>
  Once the verifier exists, an outage of the provider shows when the keys have to be fetched, and is answered like a bad
  token; with a configured key URL this holds from the first request on.
\<close>

lemma outage_as_bad_token:
  assumes "trim_space raw \<noteq> []" "aa_JWKSURL (vf_cfg v) \<noteq> []" "vf_verifier v = None" "vf_lastFailure v = None"
    and "\<And>vv token. ol_Verify x now vv token = KeysUnreachable"
  shows "fst (adminauth_Verify x now provider raw v) = Inl AA_Unauthenticated"
  using assms by (simp add: adminauth_Verify_def resolve_def Let_def)

text \<open>
  Discovery runs under the context of the request that needs it, so one request that is cancelled counts as an outage for every
  request of the next retry window, although the provider would answer them.
\<close>

lemma cancelled_request_blocks_others:
  assumes "trim_space raw \<noteq> []" "trim_space raw' \<noteq> []" "aa_JWKSURL (vf_cfg v) = []" "vf_verifier v = None" "vf_lastFailure v = None"
    and "adminauth_Verify x now None raw v = (r, calls, v')" "now \<le> now'" "now' < now + aa_DiscoveryRetryAfter (vf_cfg v)"
  shows "fst (adminauth_Verify x now' (Some p) raw' v') = Inl AA_ProviderUnavailable"
  using assms by (auto simp: adminauth_Verify_def resolve_def Let_def split: if_splits)

section \<open>Witnesses\<close>

definition demo_oidc :: "(string, string, string \<times> oidc_config) oidc_lib" where
  "demo_oidc = \<lparr>ol_NewRemoteKeySet = (\<lambda>url. url), ol_NewVerifier = (\<lambda>issuer keys cfg. (issuer, cfg)), ol_VerifierContext = (\<lambda>p cfg. (p, cfg)),
     ol_provider_issuer = (\<lambda>p. p),
     ol_Verify = (\<lambda>now vv raw. if raw = ''alice'' \<and> now \<le> 1000 \<and> ''RS256'' \<in> set (oc_SupportedSigningAlgs (snd vv))
        then TokenVerified \<lparr>tok_Issuer = fst vv, tok_Audience = [oc_ClientID (snd vv)], tok_Subject = ''u1'', tok_Expiry = 1000,
               tok_Claims = Some [''email'' \<mapsto> ClaimText ''alice@example.com'', ''groups'' \<mapsto> ClaimList [ClaimText ''staff'', ClaimText ''relais-admin'']]\<rparr>
        else TokenRefused),
     ol_alg = (\<lambda>raw. ''RS256''), ol_EqualFold = (=)\<rparr>"

definition demo_oidc_config :: AdminAuth_Config where
  "demo_oidc_config = \<lparr>aa_Issuer = ''https://id.example.com/'', aa_Audience = ''relais'', aa_JWKSURL = [], aa_GroupsClaim = [], aa_AdminGroup = [],
     aa_ViewerGroup = ''relais-viewer'', aa_DiscoveryTimeout = 0, aa_DiscoveryRetryAfter = 100\<rparr>"

definition demo_verifier :: "(string \<times> oidc_config) Verifier" where
  "demo_verifier = (case adminauth_New demo_oidc_config of Inr v \<Rightarrow> v | Inl _ \<Rightarrow> \<lparr>vf_cfg = demo_oidc_config, vf_verifier = None, vf_lastFailure = None, vf_lastAttempt = 0\<rparr>)"

lemma demo_oidc_lawful: "oidc_lawful demo_oidc"
  by (auto simp: oidc_lawful_def accepts_only_def demo_oidc_def split: if_splits)

lemma demo_verifier_new: "adminauth_New demo_oidc_config = Inr demo_verifier"
  by (simp add: demo_verifier_def adminauth_New_def demo_oidc_config_def go_defs trim_left_def trim_right_def)

lemma demo_alice:
  "(case adminauth_Verify demo_oidc 7 (Some ''https://id.example.com/'') ''alice'' demo_verifier of (Inr i, _, _) \<Rightarrow> id_Role i = RoleAdmin | _ \<Rightarrow> False)"
  by code_simp


theorem discovery_is_spaced_witness:
  "discovery_times demo_oidc [(0, None, ''alice''), (40, None, ''alice''), (100, None, ''alice''), (205, Some ''p'', ''alice''), (900, None, ''alice'')] demo_verifier
     = [0, 100, 205] \<and>
   sorted_wrt (\<lambda>s t. s + 100 \<le> t)
     (discovery_times demo_oidc [(0, None, ''alice''), (40, None, ''alice''), (100, None, ''alice''), (205, Some ''p'', ''alice''), (900, None, ''alice'')] demo_verifier)"
proof
  show "discovery_times demo_oidc [(0, None, ''alice''), (40, None, ''alice''), (100, None, ''alice''), (205, Some ''p'', ''alice''), (900, None, ''alice'')] demo_verifier
     = [0, 100, 205]" by code_simp
qed (use discovery_is_spaced [OF demo_verifier_new] in \<open>simp add: demo_oidc_config_def Let_def del: discovery_times.simps\<close>)

end
