(* ===== verification/Admin_Types.thy ===== *)
theory Admin_Types
  imports Http_Api Admin_Auth
begin

text \<open>
  What the admin API exchanges: the responses of \<^verbatim>\<open>src/internal/httpapi/admin_types.go\<close>, the payloads of \<^verbatim>\<open>admin_handlers.go\<close>, and
  the helpers of \<^verbatim>\<open>admin.go\<close>: bearer tokens, mapping of store errors, page sizes, cursors and the wording of patterns.

  The server's parameters are the formatters and parsers of \<^verbatim>\<open>time\<close> and \<^verbatim>\<open>uuid\<close> and the texts of errors. A time is what
  the database keeps of it, microseconds; \<open>zero_time\<close> is Go's zero \<^verbatim>\<open>time.Time\<close>.

  Shown: a cursor decodes to what it was made from, a page has between one row and the configured maximum, the wording of a
  pattern is true of the addresses it matches, and a response shows of a password only whether there is one.
\<close>

section \<open>The server\<close>

record admin_server =
  as_store :: Store
  as_prober :: "(SenderRoute \<Rightarrow> (Send_Error, ProbeResult) result) option"
  as_maxRequestBytes :: int
  as_pageSize :: int
  as_maxPageSize :: int
  as_uuid_Parse :: "string \<Rightarrow> uuid option"
  as_uuid :: "uuid \<Rightarrow> string"
  as_rfc3339 :: "timestamp \<Rightarrow> string"
  as_rfc3339Nano :: "timestamp \<Rightarrow> string"
  as_time_Parse :: "string \<Rightarrow> timestamp option"
  as_text :: "store_error \<Rightarrow> string"
  as_pattern_text :: "fp_error \<Rightarrow> string"
  as_envelope_text :: "envelope_error \<Rightarrow> string"

definition NewAdminServer :: "bool \<Rightarrow> bool \<Rightarrow> bool \<Rightarrow> admin_server \<Rightarrow> (string, admin_server) result" where
  "NewAdminServer hasStore hasVerifier hasPool opts =
     (if \<not> hasStore then Inl ''httpapi: a store is required for the admin API''
      else if \<not> hasVerifier then Inl ''httpapi: an OIDC verifier is required for the admin API''
      else if \<not> hasPool then Inl ''httpapi: a database pool is required for the admin API''
      else Inr (opts\<lparr>as_maxRequestBytes := (if as_maxRequestBytes opts \<le> 0 then 1048576 else as_maxRequestBytes opts),
                    as_pageSize := (if as_pageSize opts \<le> 0 then 50 else as_pageSize opts),
                    as_maxPageSize := (if as_maxPageSize opts \<le> 0 then 200 else as_maxPageSize opts)\<rparr>))"

abbreviation as_idna :: "admin_server \<Rightarrow> idna_lib" where "as_idna srv \<equiv> st_idna (as_store srv)"

section \<open>Error codes and answers\<close>

definition codeForbidden :: string where "codeForbidden = ''forbidden''"
definition codeInvalidRequest :: string where "codeInvalidRequest = ''invalid_request''"
definition codeConflict :: string where "codeConflict = ''conflict''"
definition codeInUse :: string where "codeInUse = ''still_referenced''"
definition codeInvalidCursor :: string where "codeInvalidCursor = ''invalid_cursor''"

definition field_error :: "string \<Rightarrow> string \<Rightarrow> string \<Rightarrow> error_body" where
  "field_error code field message = \<lparr>eb_Code = code, eb_Message = message, eb_Field = field, eb_MessageID = []\<rparr>"

definition writeAdminUnauthorized :: "'b http_response" where
  "writeAdminUnauthorized = writeError [(''WWW-Authenticate'', ''Bearer realm='' @ [CHR 0x22] @ ''relais-admin'' @ [CHR 0x22])] 401
     (plain_error codeUnauthorized ''authentication failed'')"

definition no_such_resource :: "'b http_response" where
  "no_such_resource = writeError [] 404 (plain_error codeNotFound ''no such resource'')"

definition pathUUID :: "admin_server \<Rightarrow> string \<Rightarrow> ('b http_response, uuid) result" where
  "pathUUID srv text = (case as_uuid_Parse srv text of None \<Rightarrow> Inl no_such_resource | Some i \<Rightarrow> Inr i)"

definition constraintField :: "string \<Rightarrow> string" where
  "constraintField constraint =
     (if constraint = ''smtp_backend_name_key'' \<or> constraint = ''credential_name_key'' then ''name''
      else if constraint = ''domain_name_key'' then ''name''
      else if constraint = ''credential_lookup_key'' then ''username''
      else if constraint = ''credential_from_pattern_key'' then ''pattern''
      else [])"

fun writeStoreError :: "admin_server \<Rightarrow> store_error \<Rightarrow> 'b http_response" where
  "writeStoreError srv ErrNotFound = no_such_resource"
| "writeStoreError srv (ErrConflict c) =
     writeError [] 409 (field_error codeConflict (constraintField (ConstraintName (ErrConflict c))) ''that name or value is already taken'')"
| "writeStoreError srv (ErrReference c) =
     writeError [] 409 (plain_error codeInUse ''something still references this, or what it points at does not exist'')"
| "writeStoreError srv (ErrConstraint c) = writeError [] 422 (plain_error codeInvalidRequest (as_text srv (ErrConstraint c)))"
| "writeStoreError srv _ = writeUnavailable"

definition writeValidationError :: "admin_server \<Rightarrow> string \<Rightarrow> store_error \<Rightarrow> 'b http_response" where
  "writeValidationError srv field e = writeError [] 422 (field_error codeInvalidRequest field (as_text srv e))"

text \<open>Of the errors of a secret only a failure of the random generator is not an \<^verbatim>\<open>ErrMalformedSecret\<close>.\<close>

fun isValidationError :: "store_error \<Rightarrow> bool" where
  "isValidationError (ErrValidation _) = True"
| "isValidationError (ErrPatterns _) = True"
| "isValidationError (ErrAddress _) = True"
| "isValidationError (ErrSecret e) = (e \<noteq> RandomFailed)"
| "isValidationError _ = False"

text \<open>The two ways a handler answers an error of the store it wrote to.\<close>

definition refusal :: "admin_server \<Rightarrow> string \<Rightarrow> store_error \<Rightarrow> 'b http_response" where
  "refusal srv field e = (if isValidationError e then writeValidationError srv field e else writeStoreError srv e)"

definition credentialField :: "string \<Rightarrow> string" where
  "credentialField message =
     (if contains_sub message ''SMTP username'' then ''username''
      else if contains_sub message ''credential type'' then ''type''
      else if contains_sub message ''name'' then ''name''
      else if contains_sub message ''pattern'' then ''patterns''
      else if contains_sub message ''rate limit'' then ''rate_limit_rps''
      else [])"

text \<open>As for \<open>bearer_prefix\<close>, none of the letters of the scheme has a fold outside ASCII.\<close>

definition bearerValue :: "string \<Rightarrow> string option" where
  "bearerValue header =
     (let v = trim_space header in
      if length v < length bearer_prefix \<or> map ascii_lower (take (length bearer_prefix) v) \<noteq> bearer_prefix then None
      else let token = trim_space (drop (length bearer_prefix) v) in
      if token = [] then None else Some token)"

section \<open>Pages and cursors\<close>

text \<open>\<^verbatim>\<open>strconv.Atoi\<close>: an optional sign and at least one digit, within 64 bits.\<close>

fun digits_value :: "int \<Rightarrow> string \<Rightarrow> int option" where
  "digits_value acc [] = Some acc"
| "digits_value acc (c # cs) = (if is_digit c then digits_value (10 * acc + int (of_char c) - 48) cs else None)"

definition strconv_Atoi :: "string \<Rightarrow> int option" where
  "strconv_Atoi s =
     (let neg = has_prefix s ''-''; digits = (if has_prefix s ''-'' \<or> has_prefix s ''+'' then tl s else s) in
      if digits = [] then None
      else case digits_value 0 digits of
        None \<Rightarrow> None
      | Some n \<Rightarrow> (let v = (if neg then - n else n) in if - (2 ^ 63) \<le> v \<and> v < 2 ^ 63 then Some v else None))"

definition pageLimit :: "admin_server \<Rightarrow> string \<Rightarrow> int" where
  "pageLimit srv raw =
     (let requested = (if raw \<noteq> [] then (case strconv_Atoi raw of Some parsed \<Rightarrow> if parsed > 0 then parsed else as_pageSize srv | None \<Rightarrow> as_pageSize srv)
                       else as_pageSize srv) in
      to_int32 (if requested > as_maxPageSize srv then as_maxPageSize srv else requested))"

definition zero_time :: timestamp where "zero_time = - 62135596800000000"

abbreviation cursor_sep :: char where "cursor_sep \<equiv> CHR 0x7C"

definition encodeCursor :: "admin_server \<Rightarrow> timestamp \<Rightarrow> uuid \<Rightarrow> string" where
  "encodeCursor srv createdAt i = b64_encode url_alphabet False (as_rfc3339Nano srv createdAt @ [cursor_sep] @ as_uuid srv i)"

definition decodeCursor :: "admin_server \<Rightarrow> string \<Rightarrow> (timestamp \<times> uuid) option" where
  "decodeCursor srv raw =
     (case b64_decode url_alphabet False raw of
        None \<Rightarrow> None
      | Some decoded \<Rightarrow>
          (case cut cursor_sep decoded of
             None \<Rightarrow> None
           | Some (createdRaw, idRaw) \<Rightarrow>
               (case as_time_Parse srv createdRaw of
                  None \<Rightarrow> None
                | Some createdAt \<Rightarrow>
                    (case as_uuid_Parse srv idRaw of None \<Rightarrow> None | Some i \<Rightarrow> Some (createdAt, i)))))"

section \<open>Patterns in words\<close>

definition trim_prefix :: "string \<Rightarrow> string \<Rightarrow> string" where
  "trim_prefix s p = fst (cut_prefix s p)"

definition explainPattern :: "idna_lib \<Rightarrow> string \<Rightarrow> string" where
  "explainPattern x pattern =
     (case frompattern_Parse x pattern of
        Inl _ \<Rightarrow> []
      | Inr parsed \<Rightarrow>
          let (local, domain) = (case cut at_sign (Pattern_String parsed) of Some p \<Rightarrow> p | None \<Rightarrow> (Pattern_String parsed, []));
              apex = trim_prefix domain subdomainPrefix;
              sender = (if local = wildcard then ''any local part'' else ''the local part '' @ local) in
          if has_prefix domain subdomainPrefix
          then sender @ '' at any strict subdomain of '' @ apex @ '' (not '' @ apex @ '' itself, which needs its own pattern)''
          else sender @ '' at exactly '' @ apex)"

section \<open>Responses\<close>

record backendResponse =
  bre_ID :: string
  bre_Name :: string
  bre_Host :: string
  bre_Port :: int
  bre_TLSMode :: string
  bre_AuthUser :: string
  bre_HasPassword :: bool
  bre_HeloName :: string
  bre_MaxConcurrency :: int
  bre_Enabled :: bool
  bre_CreatedAt :: string
  bre_UpdatedAt :: string

definition newBackendResponse :: "admin_server \<Rightarrow> SmtpBackend \<Rightarrow> backendResponse" where
  "newBackendResponse srv row = \<lparr>bre_ID = as_uuid srv (be_ID row), bre_Name = be_Name row, bre_Host = be_Host row, bre_Port = be_Port row,
     bre_TLSMode = be_TlsMode row, bre_AuthUser = be_AuthUser row, bre_HasPassword = (be_AuthPasswordSealed row \<noteq> []),
     bre_HeloName = be_HeloName row, bre_MaxConcurrency = be_MaxConcurrency row, bre_Enabled = be_Enabled row,
     bre_CreatedAt = as_rfc3339 srv (be_CreatedAt row), bre_UpdatedAt = as_rfc3339 srv (be_UpdatedAt row)\<rparr>"

record domainResponse =
  dre_ID :: string
  dre_Name :: string
  dre_BackendID :: string
  dre_BackendName :: string
  dre_BackendEnabled :: "bool option"
  dre_IncludeSubdomains :: bool
  dre_Enabled :: bool
  dre_CreatedAt :: string
  dre_UpdatedAt :: string

definition newDomainResponse :: "admin_server \<Rightarrow> Domain \<Rightarrow> domainResponse" where
  "newDomainResponse srv row = \<lparr>dre_ID = as_uuid srv (dom_ID row), dre_Name = dom_Name row, dre_BackendID = as_uuid srv (dom_SmtpBackendID row),
     dre_BackendName = [], dre_BackendEnabled = None, dre_IncludeSubdomains = dom_IncludeSubdomains row, dre_Enabled = dom_Enabled row,
     dre_CreatedAt = as_rfc3339 srv (dom_CreatedAt row), dre_UpdatedAt = as_rfc3339 srv (dom_UpdatedAt row)\<rparr>"

definition newDomainListResponse :: "admin_server \<Rightarrow> Domain \<times> string \<times> bool \<Rightarrow> domainResponse" where
  "newDomainListResponse srv = (\<lambda>(row, backendName, backendEnabled).
     \<lparr>dre_ID = as_uuid srv (dom_ID row), dre_Name = dom_Name row, dre_BackendID = as_uuid srv (dom_SmtpBackendID row),
      dre_BackendName = backendName, dre_BackendEnabled = Some backendEnabled, dre_IncludeSubdomains = dom_IncludeSubdomains row,
      dre_Enabled = dom_Enabled row, dre_CreatedAt = as_rfc3339 srv (dom_CreatedAt row), dre_UpdatedAt = as_rfc3339 srv (dom_UpdatedAt row)\<rparr>)"

record credentialResponse =
  cre_ID :: string
  cre_Name :: string
  cre_Type :: string
  cre_Lookup :: string
  cre_State :: string
  cre_Enabled :: bool
  cre_RateLimitRPS :: "rat option"
  cre_RateLimitBurst :: "int option"
  cre_PatternCount :: int
  cre_RecipientPatternCount :: int
  cre_CreatedBy :: string
  cre_CreatedAt :: string
  cre_LastUsedAt :: "string option"
  cre_RevokedAt :: "string option"

definition credentialState :: "bool \<Rightarrow> timestamp option \<Rightarrow> string" where
  "credentialState enabled revokedAt = (if revokedAt \<noteq> None then ''revoked'' else if \<not> enabled then ''disabled'' else ''active'')"

definition newCredentialResponse :: "admin_server \<Rightarrow> Credential \<Rightarrow> int \<Rightarrow> int \<Rightarrow> credentialResponse" where
  "newCredentialResponse srv row patternCount recipientPatternCount =
     \<lparr>cre_ID = as_uuid srv (cred_ID row), cre_Name = cred_Name row, cre_Type = cred_Type row, cre_Lookup = cred_Lookup row,
      cre_State = credentialState (cred_Enabled row) (cred_RevokedAt row), cre_Enabled = cred_Enabled row,
      cre_RateLimitRPS = cred_RateLimitRps row, cre_RateLimitBurst = cred_RateLimitBurst row, cre_PatternCount = patternCount,
      cre_RecipientPatternCount = recipientPatternCount, cre_CreatedBy = cred_CreatedBy row, cre_CreatedAt = as_rfc3339 srv (cred_CreatedAt row),
      cre_LastUsedAt = map_option (as_rfc3339 srv) (cred_LastUsedAt row), cre_RevokedAt = map_option (as_rfc3339 srv) (cred_RevokedAt row)\<rparr>"

record createdCredentialResponse =
  ccr_Credential :: credentialResponse
  ccr_Secret :: string
  ccr_Username :: string
  ccr_Patterns :: "string list"
  ccr_RecipientPatterns :: "string list"
  ccr_Warning :: string

definition no_sender_warning :: string where
  "no_sender_warning = '' No sender pattern is configured, so this credential cannot send anything yet.''"

definition no_recipient_warning :: string where
  "no_recipient_warning = '' No recipient restriction is configured, so this credential may send to any address.''"

definition showOnce :: "admin_server \<Rightarrow> CreatedCredential \<Rightarrow> string \<Rightarrow> createdCredentialResponse" where
  "showOnce srv created warning =
     (let patterns = cc_Patterns created; recipients = cc_RecipientPatterns created in
      \<lparr>ccr_Credential = newCredentialResponse srv (cc_Credential created) (int (length patterns)) (int (length recipients)),
       ccr_Secret = Reveal (cc_Secret created),
       ccr_Username = (if cred_Type (cc_Credential created) = CredentialTypeSMTPUser then cred_Lookup (cc_Credential created) else []),
       ccr_Patterns = patterns, ccr_RecipientPatterns = recipients,
       ccr_Warning = warning @ (if patterns = [] then no_sender_warning else []) @ (if recipients = [] then no_recipient_warning else [])\<rparr>)"

record patternResponse =
  pre_ID :: string
  pre_Pattern :: string
  pre_Explanation :: string
  pre_CreatedAt :: string

definition newPatternResponse :: "admin_server \<Rightarrow> CredentialFromPattern \<Rightarrow> patternResponse" where
  "newPatternResponse srv row = \<lparr>pre_ID = as_uuid srv (fpat_ID row), pre_Pattern = fpat_Pattern row,
     pre_Explanation = explainPattern (as_idna srv) (fpat_Pattern row), pre_CreatedAt = as_rfc3339 srv (fpat_CreatedAt row)\<rparr>"

definition newRecipientPatternResponse :: "admin_server \<Rightarrow> CredentialRecipientPattern \<Rightarrow> patternResponse" where
  "newRecipientPatternResponse srv row = \<lparr>pre_ID = as_uuid srv (rpat_ID row), pre_Pattern = rpat_Pattern row,
     pre_Explanation = explainPattern (as_idna srv) (rpat_Pattern row), pre_CreatedAt = as_rfc3339 srv (rpat_CreatedAt row)\<rparr>"

text \<open>An absent name, id or address is the empty string, which the JSON leaves out.\<close>

record messageResponseAdmin =
  mra_ID :: string
  mra_Status :: string
  mra_Facade :: string
  mra_CredentialID :: string
  mra_CredentialName :: string
  mra_BackendName :: string
  mra_From :: string
  mra_To :: "string list"
  mra_Cc :: "string list"
  mra_Bcc :: "string list"
  mra_Subject :: string
  mra_Recipients :: "string list"
  mra_MessageID :: string
  mra_SizeBytes :: int
  mra_Attempts :: int
  mra_RemoteIP :: string
  mra_CreatedAt :: string
  mra_SentAt :: "string option"
  mra_Error :: "messageError option"
  mra_RejectionReason :: "string option"

definition text_or_empty :: "string option \<Rightarrow> string" where
  "text_or_empty o' = (case o' of None \<Rightarrow> [] | Some t \<Rightarrow> t)"

definition newAdminMessageResponse :: "admin_server \<Rightarrow> EmailMessage \<times> string option \<times> string option \<Rightarrow> messageResponseAdmin" where
  "newAdminMessageResponse srv = (\<lambda>(row, credentialName, backendName).
     \<lparr>mra_ID = as_uuid srv (msg_ID row), mra_Status = msg_Status row, mra_Facade = msg_Facade row,
      mra_CredentialID = text_or_empty (map_option (as_uuid srv) (msg_CredentialID row)), mra_CredentialName = text_or_empty credentialName,
      mra_BackendName = text_or_empty backendName, mra_From = msg_FromAddr row, mra_To = msg_ToAddrs row, mra_Cc = msg_CcAddrs row,
      mra_Bcc = msg_BccAddrs row, mra_Subject = msg_Subject row, mra_Recipients = msg_EnvelopeRecipients row, mra_MessageID = msg_MessageID row,
      mra_SizeBytes = msg_SizeBytes row, mra_Attempts = msg_AttemptCount row, mra_RemoteIP = text_or_empty (msg_RemoteIp row),
      mra_CreatedAt = as_rfc3339 srv (msg_CreatedAt row), mra_SentAt = map_option (as_rfc3339 srv) (msg_SentAt row),
      mra_Error = map_option (\<lambda>c. \<lparr>me_Code = c, me_Detail = text_or_empty (msg_ErrorDetail row)\<rparr>) (msg_ErrorCode row),
      mra_RejectionReason = msg_RejectionReason row\<rparr>)"

text \<open>The two maps of the dashboard, as association lists.\<close>

record statsResponse =
  stt_Messages :: "(string \<times> int) list"
  stt_Backends :: int
  stt_Domains :: int
  stt_Credentials :: "(string \<times> int) list"

record identityResponse =
  ire_Subject :: string
  ire_Email :: string
  ire_Name :: string
  ire_Role :: string
  ire_CanWrite :: bool
  ire_Groups :: "string list"

record probeResponse =
  pbr_OK :: bool
  pbr_UsedTLS :: bool
  pbr_Authenticated :: bool
  pbr_Extensions :: "string list"
  pbr_Error :: "messageError option"

record patternValidationResponse =
  pvr_Valid :: bool
  pvr_Normalized :: string
  pvr_Explanation :: string
  pvr_Error :: string

text \<open>\<^verbatim>\<open>newPatternTestResponse\<close> and \<^verbatim>\<open>newRecipientTestResponse\<close> copy the store's result field by field.\<close>

record patternTestResponse =
  pte_Address :: string
  pte_Allowed :: bool
  pte_MatchedPattern :: string
  pte_Patterns :: "string list"
  pte_RoutableDomain :: bool
  pte_BackendName :: string

definition newPatternTestResponse :: "PatternTestResult \<Rightarrow> patternTestResponse" where
  "newPatternTestResponse r = \<lparr>pte_Address = ptr_Address r, pte_Allowed = ptr_Allowed r, pte_MatchedPattern = ptr_MatchedPattern r,
     pte_Patterns = ptr_Patterns r, pte_RoutableDomain = ptr_RoutableDomain r, pte_BackendName = ptr_BackendName r\<rparr>"

record recipientTestResponse =
  rte_Address :: string
  rte_Allowed :: bool
  rte_Restricted :: bool
  rte_MatchedPattern :: string
  rte_Patterns :: "string list"

definition newRecipientTestResponse :: "RecipientTestResult \<Rightarrow> recipientTestResponse" where
  "newRecipientTestResponse r = \<lparr>rte_Address = rtr_Address r, rte_Allowed = rtr_Allowed r, rte_Restricted = rtr_Restricted r,
     rte_MatchedPattern = rtr_MatchedPattern r, rte_Patterns = rtr_Patterns r\<rparr>"

record resolveResponse =
  rre_Sender :: string
  rre_Resolved :: bool
  rre_DomainName :: string
  rre_BackendID :: string
  rre_Backend :: string
  rre_Address :: string
  rre_TLSMode :: string
  rre_UsesAuth :: bool
  rre_Reason :: string

datatype admin_body =
    IdentityBody identityResponse
  | StatsBody statsResponse
  | BackendBody backendResponse
  | BackendsBody "backendResponse list"
  | ProbeBody probeResponse
  | DomainBody domainResponse
  | DomainsBody "domainResponse list"
  | ResolveBody resolveResponse
  | CredentialBody credentialResponse
  | CredentialsBody "credentialResponse list"
  | CreatedBody createdCredentialResponse
  | PatternsBody "patternResponse list"
  | PatternValidationBody patternValidationResponse
  | PatternTestBody patternTestResponse
  | RecipientTestBody recipientTestResponse
  | AdminMessageBody messageResponseAdmin
  | AdminMessagesBody "messageResponseAdmin list" string

section \<open>Request payloads\<close>

record backendRequest =
  brq_Name :: string
  brq_Host :: string
  brq_Port :: int
  brq_TLSMode :: string
  brq_AuthUser :: string
  brq_Password :: "string option"
  brq_HeloName :: string
  brq_MaxConcurrency :: int
  brq_Enabled :: "bool option"

record domainRequest =
  drq_Name :: string
  drq_BackendID :: string
  drq_IncludeSubdomains :: "bool option"
  drq_Enabled :: "bool option"

record createCredentialRequest =
  ccq_Name :: string
  ccq_Type :: string
  ccq_Username :: string
  ccq_Patterns :: "string list"
  ccq_RecipientPatterns :: "string list"
  ccq_RateLimitRPS :: "rat option"
  ccq_RateLimitBurst :: "int option"
  ccq_Enabled :: "bool option"

record updateCredentialRequest =
  ucq_Name :: string
  ucq_Enabled :: "bool option"
  ucq_RateLimitRPS :: "rat option"
  ucq_RateLimitBurst :: "int option"

section \<open>Facts\<close>

text \<open>The admin API and the submission API read a bearer token alike.\<close>

lemma bearerValue_BearerToken: "bearerValue h = (case BearerToken h of Inl _ \<Rightarrow> None | Inr t \<Rightarrow> Some t)"
proof -
  have "bearer_prefix \<noteq> []" by (simp add: bearer_prefix_def)
  then show ?thesis by (auto simp: bearerValue_def BearerToken_def Let_def)
qed

text \<open>The parameters a cursor rests on: formatting and parsing are inverse, and a formatted time has no separator.\<close>

definition cursor_lawful :: "admin_server \<Rightarrow> bool" where
  "cursor_lawful srv \<longleftrightarrow> (\<forall>t. as_time_Parse srv (as_rfc3339Nano srv t) = Some t \<and> cursor_sep \<notin> set (as_rfc3339Nano srv t)) \<and>
     (\<forall>i. as_uuid_Parse srv (as_uuid srv i) = Some i)"

lemma decode_encodeCursor:
  assumes "cursor_lawful srv"
  shows "decodeCursor srv (encodeCursor srv t i) = Some (t, i)"
proof -
  have "cut cursor_sep (as_rfc3339Nano srv t @ cursor_sep # as_uuid srv i) = Some (as_rfc3339Nano srv t, as_uuid srv i)"
    using assms by (intro cut_append) (simp add: cursor_lawful_def)
  then show ?thesis
    using assms by (simp add: decodeCursor_def encodeCursor_def cursor_lawful_def b64_roundtrip [OF alphabets(2)])
qed

text \<open>What the explanation of a pattern says is what the pattern was parsed to, and so what the matcher does.\<close>

lemma explainPattern_exact:
  assumes "frompattern_Parse x raw = Inr p"
  shows "explainPattern x raw =
    (if localAny p then ''any local part'' else ''the local part '' @ pat_local p) @
    (if subdomainAny p then '' at any strict subdomain of '' @ pat_domain p @ '' (not '' @ pat_domain p @ '' itself, which needs its own pattern)''
     else '' at exactly '' @ pat_domain p)"
proof -
  have wf: "pat_wf p" using frompattern_Parse_wf [OF assms] by blast
  define dp where "dp = (if subdomainAny p then subdomainPrefix else []) @ pat_domain p"
  have nz: "normalized p = pat_local p @ at_sign # dp" using wf by (simp add: pat_wf_def dp_def)
  have "at_sign \<notin> set (pat_local p)" using wf local_wf_text(3) by (auto simp: pat_wf_def wildcard_def split: if_splits)
  then have c: "cut at_sign (normalized p) = Some (pat_local p, dp)" unfolding nz by (rule cut_append)
  have nostar: "star \<notin> set (pat_domain p)" using wf domain_wf_text(4) by (auto simp: pat_wf_def)
  then have pre: "has_prefix dp subdomainPrefix \<longleftrightarrow> subdomainAny p" and apex: "trim_prefix dp subdomainPrefix = pat_domain p"
    by (auto simp: dp_def has_prefix_iff subdomainPrefix_def trim_prefix_def cut_prefix_def)
  have any: "pat_local p = wildcard \<longleftrightarrow> localAny p" using wf by (auto simp: pat_wf_def wildcard_def split: if_splits)
  show ?thesis
    unfolding explainPattern_def using assms by (simp add: Pattern_String_def c pre apex any Let_def)
qed

lemma to_int32_id: "- (2 ^ 31) \<le> n \<Longrightarrow> n < 2 ^ 31 \<Longrightarrow> to_int32 n = n"
  by (simp add: to_int32_def sint_sbintrunc' signed_take_bit_int_eq_self)

lemma pageLimit_bounds:
  assumes "0 < as_pageSize srv" "0 < as_maxPageSize srv" "as_maxPageSize srv < 2 ^ 31"
  shows "0 < pageLimit srv raw \<and> pageLimit srv raw \<le> as_maxPageSize srv"
proof -
  define requested where "requested = (if raw \<noteq> [] then (case strconv_Atoi raw of Some parsed \<Rightarrow> if parsed > 0 then parsed else as_pageSize srv
    | None \<Rightarrow> as_pageSize srv) else as_pageSize srv)"
  define clamped where "clamped = (if requested > as_maxPageSize srv then as_maxPageSize srv else requested)"
  have "0 < requested" using assms by (auto simp: requested_def split: option.splits)
  then have c: "0 < clamped" "clamped \<le> as_maxPageSize srv" using assms by (auto simp: clamped_def)
  then have "to_int32 clamped = clamped" using assms(3) by (intro to_int32_id) auto
  moreover have "pageLimit srv raw = to_int32 clamped" by (simp add: pageLimit_def clamped_def requested_def)
  ultimately show ?thesis using c by simp
qed

lemma newAdminServer_sizes:
  "NewAdminServer a b c opts = Inr srv \<Longrightarrow> 0 < as_pageSize srv \<and> 0 < as_maxPageSize srv \<and> 0 < as_maxRequestBytes srv"
  by (auto simp: NewAdminServer_def split: if_splits)

end
