(* ===== verification/Admin_Api.thy ===== *)
theory Admin_Api
  imports Admin_Types
begin

text \<open>
  The admin API: the handlers of \<^verbatim>\<open>src/internal/httpapi/admin_handlers.go\<close> and the router and middleware of \<^verbatim>\<open>admin.go\<close>.

  A request is a route (\<open>admin_route\<close>) with its path parameters as text and its body as the decoder reads it; a PATCH decodes
  into a value that holds the present settings, so its body is a function of that value. A reply is the response and the
  lines written to the audit trail. The prober is what \<^verbatim>\<open>Probe\<close> returns for a route at that moment.

  Shown: only an authenticated admin changes anything; a successful change is in the audit trail under the admin's
  name; an edit keeps what it does not mention; the pages of the message list, followed by their cursors, show
  every message once; and three answers that are not what the code means to give.
\<close>

section \<open>Replies\<close>

record audit_line =
  al_Action :: string
  al_Admin :: string
  al_Role :: string
  al_Resource :: string
  al_ID :: string
  al_Detail :: string
  al_RemoteIP :: netip_Addr

type_synonym admin_reply = "admin_body http_response \<times> audit_line list"

record admin_ctx =
  cx_identity :: "Identity option"
  cx_clientIP :: netip_Addr

definition zero_identity :: Identity where
  "zero_identity = \<lparr>id_Subject = [], id_Email = [], id_Name = [], id_Groups = [], id_Role = []\<rparr>"

definition context_identity :: "admin_ctx \<Rightarrow> Identity" where
  "context_identity cx = (case cx_identity cx of Some i \<Rightarrow> i | None \<Rightarrow> zero_identity)"

definition audit :: "admin_ctx \<Rightarrow> string \<Rightarrow> string \<Rightarrow> string \<Rightarrow> string \<Rightarrow> audit_line" where
  "audit cx action kind i detail = \<lparr>al_Action = action, al_Admin = Identity_String (context_identity cx), al_Role = id_Role (context_identity cx),
     al_Resource = kind, al_ID = i, al_Detail = detail, al_RemoteIP = cx_clientIP cx\<rparr>"

definition json :: "int \<Rightarrow> admin_body \<Rightarrow> admin_body http_response" where
  "json status body = writeJSON [] status (JsonBody body)"

definition no_content :: "admin_body http_response" where
  "no_content = \<lparr>rs_Status = 204, rs_Headers = [], rs_Body = NoBody\<rparr>"

text \<open>The recurring steps: answer a refused request, and answer an error of the store or go on.\<close>

definition or_answer :: "(admin_body http_response, 'a) result \<Rightarrow> ('a \<Rightarrow> admin_reply prog) \<Rightarrow> admin_reply prog" where
  "or_answer r k = (case r of Inl response \<Rightarrow> ret (response, []) | Inr a \<Rightarrow> k a)"

definition or_fail :: "admin_server \<Rightarrow> (store_error, 'a) result prog \<Rightarrow> ('a \<Rightarrow> admin_reply prog) \<Rightarrow> admin_reply prog" where
  "or_fail srv m k = do { r \<leftarrow> m; case r of Inl e \<Rightarrow> ret (writeStoreError srv e, []) | Inr a \<Rightarrow> k a }"

definition or_refuse :: "admin_server \<Rightarrow> (store_error \<Rightarrow> string) \<Rightarrow> (store_error, 'a) result prog \<Rightarrow> ('a \<Rightarrow> admin_reply prog) \<Rightarrow> admin_reply prog" where
  "or_refuse srv field m k = do { r \<leftarrow> m; case r of Inl e \<Rightarrow> ret (refusal srv (field e) e, []) | Inr a \<Rightarrow> k a }"

section \<open>Identity and dashboard\<close>

definition handleIdentity :: "admin_ctx \<Rightarrow> admin_reply prog" where
  "handleIdentity cx =
     ret (case cx_identity cx of
        None \<Rightarrow> writeInternal
      | Some i \<Rightarrow> json 200 (IdentityBody \<lparr>ire_Subject = id_Subject i, ire_Email = id_Email i, ire_Name = id_Name i, ire_Role = id_Role i,
          ire_CanWrite = CanWrite i, ire_Groups = id_Groups i\<rparr>), [])"

definition message_totals :: "(string \<times> int) list \<Rightarrow> (string \<times> int) list" where
  "message_totals byStatus = foldl (\<lambda>m (status, total). AList.update status total m)
     [(StatusQueued, 0), (StatusSending, 0), (StatusSent, 0), (StatusFailed, 0), (StatusRejected, 0)] byStatus"

definition credential_totals :: "Credential list \<Rightarrow> (string \<times> int) list" where
  "credential_totals cs = foldl (\<lambda>m c. let k = credentialState (cred_Enabled c) (cred_RevokedAt c) in
       AList.update k ((case map_of m k of None \<Rightarrow> 0 | Some n \<Rightarrow> n) + 1) m)
     [(''active'', 0), (''disabled'', 0), (''revoked'', 0)] cs"

definition handleStats :: "admin_server \<Rightarrow> admin_reply prog" where
  "handleStats srv =
     or_fail srv CountByStatus (\<lambda>byStatus.
     or_fail srv ListBackends (\<lambda>backends.
     or_fail srv ListDomains (\<lambda>domains.
     or_fail srv ListCredentials (\<lambda>credentials.
       ret (json 200 (StatsBody \<lparr>stt_Messages = message_totals byStatus, stt_Backends = int (length backends), stt_Domains = int (length domains),
              stt_Credentials = credential_totals (map fst credentials)\<rparr>), [])))))"

section \<open>Backends\<close>

definition handleListBackends :: "admin_server \<Rightarrow> admin_reply prog" where
  "handleListBackends srv = or_fail srv ListBackends (\<lambda>rows. ret (json 200 (BackendsBody (map (newBackendResponse srv) rows)), []))"

definition handleCreateBackend :: "admin_server \<Rightarrow> admin_ctx \<Rightarrow> backendRequest decoded \<Rightarrow> admin_reply prog" where
  "handleCreateBackend srv cx body =
     or_answer (decodeJSON body) (\<lambda>request.
     or_refuse srv (\<lambda>_. []) (CreateBackend (as_store srv)
         \<lparr>nbp_Name = brq_Name request, nbp_Host = brq_Host request, nbp_Port = brq_Port request, nbp_TLSMode = brq_TLSMode request,
          nbp_AuthUser = brq_AuthUser request, nbp_AuthPassword = Secret (case brq_Password request of Some p \<Rightarrow> p | None \<Rightarrow> []),
          nbp_HeloName = brq_HeloName request, nbp_MaxConcurrency = brq_MaxConcurrency request,
          nbp_Enabled = (case brq_Enabled request of Some b \<Rightarrow> b | None \<Rightarrow> True)\<rparr>) (\<lambda>row.
       ret (json 201 (BackendBody (newBackendResponse srv row)), [audit cx ''backend created'' ''backend'' (as_uuid srv (be_ID row)) (be_Name row)])))"

definition backend_defaults :: "SmtpBackend \<Rightarrow> backendRequest" where
  "backend_defaults existing = \<lparr>brq_Name = be_Name existing, brq_Host = be_Host existing, brq_Port = be_Port existing, brq_TLSMode = be_TlsMode existing,
     brq_AuthUser = be_AuthUser existing, brq_Password = None, brq_HeloName = be_HeloName existing,
     brq_MaxConcurrency = be_MaxConcurrency existing, brq_Enabled = None\<rparr>"

definition backend_update :: "uuid \<Rightarrow> SmtpBackend \<Rightarrow> backendRequest \<Rightarrow> UpdateBackendParams" where
  "backend_update i existing request = \<lparr>ubp_ID = i, ubp_Name = brq_Name request, ubp_Host = brq_Host request, ubp_Port = brq_Port request,
     ubp_TLSMode = brq_TLSMode request, ubp_AuthUser = brq_AuthUser request, ubp_RotatePassword = (brq_Password request \<noteq> None),
     ubp_AuthPassword = Secret (case brq_Password request of Some p \<Rightarrow> p | None \<Rightarrow> []), ubp_HeloName = brq_HeloName request,
     ubp_MaxConcurrency = brq_MaxConcurrency request, ubp_Enabled = (case brq_Enabled request of Some b \<Rightarrow> b | None \<Rightarrow> be_Enabled existing)\<rparr>"

definition handleUpdateBackend :: "admin_server \<Rightarrow> admin_ctx \<Rightarrow> string \<Rightarrow> (backendRequest \<Rightarrow> backendRequest decoded) \<Rightarrow> admin_reply prog" where
  "handleUpdateBackend srv cx idText body =
     or_answer (pathUUID srv idText) (\<lambda>i.
     or_fail srv (GetBackend i) (\<lambda>existing.
     or_answer (decodeJSON (body (backend_defaults existing))) (\<lambda>request.
     or_refuse srv (\<lambda>_. []) (UpdateBackend (as_store srv) (backend_update i existing request)) (\<lambda>row.
       ret (json 200 (BackendBody (newBackendResponse srv row)), [audit cx ''backend updated'' ''backend'' (as_uuid srv (be_ID row)) (be_Name row)])))))"

definition handleDeleteBackend :: "admin_server \<Rightarrow> admin_ctx \<Rightarrow> string \<Rightarrow> admin_reply prog" where
  "handleDeleteBackend srv cx idText =
     or_answer (pathUUID srv idText) (\<lambda>i.
     or_fail srv (DeleteBackend i) (\<lambda>_.
       ret (no_content, [audit cx ''backend deleted'' ''backend'' (as_uuid srv i) []])))"

definition handleProbeBackend :: "admin_server \<Rightarrow> admin_ctx \<Rightarrow> string \<Rightarrow> admin_reply prog" where
  "handleProbeBackend srv cx idText =
     or_answer (pathUUID srv idText) (\<lambda>i.
       case as_prober srv of
         None \<Rightarrow> ret (writeError [] 503 (plain_error codeUnavailable ''connection testing is not available in this process''), [])
       | Some prober \<Rightarrow>
           or_fail srv (GetBackend i) (\<lambda>backend.
             ret (case OpenBackendPassword (as_store srv) (be_AuthPasswordSealed backend) of
               Inl e \<Rightarrow> (writeError [] 422 (plain_error codeInvalidRequest (''the stored password cannot be opened: '' @ as_envelope_text srv e)), [])
             | Inr password \<Rightarrow>
                 (case prober (route_of 0 [] backend password) of
                    Inl e \<Rightarrow> (json 200 (ProbeBody \<lparr>pbr_OK = False, pbr_UsedTLS = False, pbr_Authenticated = False, pbr_Extensions = [],
                               pbr_Error = Some \<lparr>me_Code = se_Code e, me_Detail = Send_Error_text e\<rparr>\<rparr>),
                             [audit cx ''backend connection test failed'' ''backend'' (as_uuid srv (be_ID backend)) (be_Name backend)])
                  | Inr r \<Rightarrow> (json 200 (ProbeBody \<lparr>pbr_OK = True, pbr_UsedTLS = pr_UsedTLS r, pbr_Authenticated = pr_Authenticated r,
                               pbr_Extensions = pr_Extensions r, pbr_Error = None\<rparr>),
                             [audit cx ''backend connection tested'' ''backend'' (as_uuid srv (be_ID backend)) (be_Name backend)])))))"

section \<open>Domains\<close>

definition handleListDomains :: "admin_server \<Rightarrow> admin_reply prog" where
  "handleListDomains srv = or_fail srv ListDomains (\<lambda>rows. ret (json 200 (DomainsBody (map (newDomainListResponse srv) rows)), []))"

definition backend_id_of :: "admin_server \<Rightarrow> domainRequest \<Rightarrow> (admin_body http_response, uuid) result" where
  "backend_id_of srv request =
     (case as_uuid_Parse srv (trim_space (drq_BackendID request)) of
        None \<Rightarrow> Inl (writeError [] 422 (field_error codeInvalidRequest ''backend_id'' ''backend_id must be a valid id''))
      | Some i \<Rightarrow> Inr i)"

definition handleCreateDomain :: "admin_server \<Rightarrow> admin_ctx \<Rightarrow> domainRequest decoded \<Rightarrow> admin_reply prog" where
  "handleCreateDomain srv cx body =
     or_answer (decodeJSON body) (\<lambda>request.
     or_answer (backend_id_of srv request) (\<lambda>backendID.
     or_refuse srv (\<lambda>_. ''name'') (CreateDomain (as_store srv)
         \<lparr>ndp_Name = drq_Name request, ndp_BackendID = backendID,
          ndp_IncludeSubdomains = (case drq_IncludeSubdomains request of Some b \<Rightarrow> b | None \<Rightarrow> False),
          ndp_Enabled = (case drq_Enabled request of Some b \<Rightarrow> b | None \<Rightarrow> True)\<rparr>) (\<lambda>row.
       ret (json 201 (DomainBody (newDomainResponse srv row)), [audit cx ''domain created'' ''domain'' (as_uuid srv (dom_ID row)) (dom_Name row)]))))"

definition domain_defaults :: "admin_server \<Rightarrow> Domain \<Rightarrow> domainRequest" where
  "domain_defaults srv existing = \<lparr>drq_Name = dom_Name existing, drq_BackendID = as_uuid srv (dom_SmtpBackendID existing),
     drq_IncludeSubdomains = None, drq_Enabled = None\<rparr>"

definition domain_update :: "Domain \<Rightarrow> domainRequest \<Rightarrow> uuid \<Rightarrow> NewDomainParams" where
  "domain_update existing request backendID = \<lparr>ndp_Name = drq_Name request, ndp_BackendID = backendID,
     ndp_IncludeSubdomains = (case drq_IncludeSubdomains request of Some b \<Rightarrow> b | None \<Rightarrow> dom_IncludeSubdomains existing),
     ndp_Enabled = (case drq_Enabled request of Some b \<Rightarrow> b | None \<Rightarrow> dom_Enabled existing)\<rparr>"

definition handleUpdateDomain :: "admin_server \<Rightarrow> admin_ctx \<Rightarrow> string \<Rightarrow> (domainRequest \<Rightarrow> domainRequest decoded) \<Rightarrow> admin_reply prog" where
  "handleUpdateDomain srv cx idText body =
     or_answer (pathUUID srv idText) (\<lambda>i.
     or_fail srv (GetDomainByID i) (\<lambda>existing.
     or_answer (decodeJSON (body (domain_defaults srv existing))) (\<lambda>request.
     or_answer (backend_id_of srv request) (\<lambda>backendID.
     or_refuse srv (\<lambda>_. ''name'') (UpdateDomain (as_store srv) i (domain_update existing request backendID)) (\<lambda>row.
       ret (json 200 (DomainBody (newDomainResponse srv row)), [audit cx ''domain updated'' ''domain'' (as_uuid srv (dom_ID row)) (dom_Name row)]))))))"

definition handleDeleteDomain :: "admin_server \<Rightarrow> admin_ctx \<Rightarrow> string \<Rightarrow> admin_reply prog" where
  "handleDeleteDomain srv cx idText =
     or_answer (pathUUID srv idText) (\<lambda>i.
     or_fail srv (DeleteDomain i) (\<lambda>_.
       ret (no_content, [audit cx ''domain deleted'' ''domain'' (as_uuid srv i) []])))"

definition SenderRoute_Address :: "SenderRoute \<Rightarrow> string" where
  "SenderRoute_Address r = sr_Host r @ '':'' @ show_int (sr_Port r)"

definition handleResolveDomain :: "admin_server \<Rightarrow> string \<Rightarrow> admin_reply prog" where
  "handleResolveDomain srv query =
     (let senderAddress = trim_space query in
      if senderAddress = [] then ret (writeError [] 422 (field_error codeInvalidRequest ''sender'' ''a sender address or domain is required''), [])
      else let domain = (case ParseAddress (as_idna srv) senderAddress of Inr addr \<Rightarrow> addr_Domain addr | Inl _ \<Rightarrow> senderAddress) in
      do { r \<leftarrow> ResolveSender (as_store srv) domain;
           ret (case r of
              Inl e \<Rightarrow>
                if isNotFound e then json 200 (ResolveBody \<lparr>rre_Sender = senderAddress, rre_Resolved = False, rre_DomainName = [], rre_BackendID = [],
                    rre_Backend = [], rre_Address = [], rre_TLSMode = [], rre_UsesAuth = False,
                    rre_Reason = ''no enabled domain covers '' @ domain @ '' (a parent domain needs include_subdomains for a subdomain to resolve)''\<rparr>)
                else refusal srv ''sender'' e
            | Inr route \<Rightarrow> json 200 (ResolveBody \<lparr>rre_Sender = senderAddress, rre_Resolved = True, rre_DomainName = sr_DomainName route,
                rre_BackendID = as_uuid srv (sr_BackendID route), rre_Backend = sr_BackendName route, rre_Address = SenderRoute_Address route,
                rre_TLSMode = sr_TLSMode route, rre_UsesAuth = UsesAuth route, rre_Reason = []\<rparr>), []) })"

section \<open>Credentials\<close>

text \<open>The list writes the fields of \<^verbatim>\<open>newCredentialResponse\<close> out; the counts come with the rows.\<close>

definition handleListCredentials :: "admin_server \<Rightarrow> admin_reply prog" where
  "handleListCredentials srv =
     or_fail srv ListCredentials (\<lambda>rows.
       ret (json 200 (CredentialsBody (map (\<lambda>(row, patternCount, recipientPatternCount). newCredentialResponse srv row patternCount recipientPatternCount) rows)), []))"

definition with_counts :: "admin_server \<Rightarrow> Credential \<Rightarrow> AuthCredential \<Rightarrow> credentialResponse" where
  "with_counts srv row auth = newCredentialResponse srv row (int (Set_Len (ac_Patterns auth))) (int (length (rr_set (ac_Recipients auth))))"

definition handleGetCredential :: "admin_server \<Rightarrow> string \<Rightarrow> admin_reply prog" where
  "handleGetCredential srv idText =
     or_answer (pathUUID srv idText) (\<lambda>i.
     or_fail srv (LoadCredential (as_store srv) i) (\<lambda>auth.
       ret (json 200 (CredentialBody (with_counts srv (ac_Credential auth) auth)), [])))"

definition created_warning :: string where
  "created_warning = ''This secret is shown once and cannot be recovered: relais stores only a fingerprint of it.''"

definition rotated_warning :: string where
  "rotated_warning = ''The previous secret stopped working the moment this was issued. The new one is shown once and cannot be recovered: relais stores only a fingerprint of it.''"

definition handleCreateCredential :: "admin_server \<Rightarrow> admin_ctx \<Rightarrow> createCredentialRequest decoded \<Rightarrow> admin_reply prog" where
  "handleCreateCredential srv cx body =
     or_answer (decodeJSON body) (\<lambda>request.
     or_refuse srv (\<lambda>e. credentialField (as_text srv e)) (CreateCredential (as_store srv)
         \<lparr>ncp_Name = ccq_Name request, ncp_Type = ccq_Type request, ncp_SMTPUsername = ccq_Username request, ncp_Patterns = ccq_Patterns request,
          ncp_RecipientPatterns = ccq_RecipientPatterns request, ncp_RateLimitRPS = ccq_RateLimitRPS request,
          ncp_RateLimitBurst = ccq_RateLimitBurst request, ncp_CreatedBy = Identity_String (context_identity cx),
          ncp_Enabled = (case ccq_Enabled request of Some b \<Rightarrow> b | None \<Rightarrow> True)\<rparr>) (\<lambda>created.
       ret (json 201 (CreatedBody (showOnce srv created created_warning)),
            [audit cx ''credential created'' ''credential'' (as_uuid srv (cred_ID (cc_Credential created))) (cred_Name (cc_Credential created))])))"

definition credential_defaults :: "Credential \<Rightarrow> updateCredentialRequest" where
  "credential_defaults c = \<lparr>ucq_Name = cred_Name c, ucq_Enabled = None, ucq_RateLimitRPS = cred_RateLimitRps c, ucq_RateLimitBurst = cred_RateLimitBurst c\<rparr>"

definition reenable_refused :: "admin_body http_response" where
  "reenable_refused = writeError [] 422 (field_error codeInvalidRequest ''enabled''
     ''a revoked credential cannot be re-enabled: revocation is permanent, so restoring access means creating a new credential'')"

definition handleUpdateCredential ::
    "admin_server \<Rightarrow> admin_ctx \<Rightarrow> string \<Rightarrow> (updateCredentialRequest \<Rightarrow> updateCredentialRequest decoded) \<Rightarrow> admin_reply prog" where
  "handleUpdateCredential srv cx idText body =
     or_answer (pathUUID srv idText) (\<lambda>i.
     or_fail srv (LoadCredential (as_store srv) i) (\<lambda>auth.
     or_answer (decodeJSON (body (credential_defaults (ac_Credential auth)))) (\<lambda>request.
       let enabled = (case ucq_Enabled request of Some b \<Rightarrow> b | None \<Rightarrow> cred_Enabled (ac_Credential auth)) in
       if cred_RevokedAt (ac_Credential auth) \<noteq> None \<and> enabled then ret (reenable_refused, [])
       else or_refuse srv (\<lambda>_. []) (UpdateCredential (as_store srv) \<lparr>ucp_ID = i, ucp_Name = ucq_Name request, ucp_Enabled = enabled,
                ucp_RateLimitRPS = ucq_RateLimitRPS request, ucp_RateLimitBurst = ucq_RateLimitBurst request\<rparr>) (\<lambda>row.
         ret (json 200 (CredentialBody (with_counts srv row auth)),
              [audit cx ''credential updated'' ''credential'' (as_uuid srv (cred_ID row)) (cred_Name row)])))))"

definition handleRevokeCredential :: "admin_server \<Rightarrow> admin_ctx \<Rightarrow> string \<Rightarrow> admin_reply prog" where
  "handleRevokeCredential srv cx idText =
     or_answer (pathUUID srv idText) (\<lambda>i.
     or_fail srv (LoadCredential (as_store srv) i) (\<lambda>auth.
     or_fail srv (RevokeCredential (as_store srv) i) (\<lambda>row.
       ret (json 200 (CredentialBody (with_counts srv row auth)),
            [audit cx ''credential revoked'' ''credential'' (as_uuid srv (cred_ID row)) (cred_Name row)]))))"

definition handleRotateCredential :: "admin_server \<Rightarrow> admin_ctx \<Rightarrow> string \<Rightarrow> admin_reply prog" where
  "handleRotateCredential srv cx idText =
     or_answer (pathUUID srv idText) (\<lambda>i.
     or_refuse srv (\<lambda>_. []) (RotateCredentialSecret (as_store srv) i) (\<lambda>rotated.
       ret (json 200 (CreatedBody (showOnce srv rotated rotated_warning)),
            [audit cx ''credential secret rotated'' ''credential'' (as_uuid srv (cred_ID (cc_Credential rotated))) (cred_Name (cc_Credential rotated))])))"

definition handleDeleteCredential :: "admin_server \<Rightarrow> admin_ctx \<Rightarrow> string \<Rightarrow> admin_reply prog" where
  "handleDeleteCredential srv cx idText =
     or_answer (pathUUID srv idText) (\<lambda>i.
     or_fail srv (DeleteCredential i) (\<lambda>_.
       ret (no_content, [audit cx ''credential deleted'' ''credential'' (as_uuid srv i) []])))"

section \<open>Sender patterns\<close>

definition handleListPatterns :: "admin_server \<Rightarrow> string \<Rightarrow> admin_reply prog" where
  "handleListPatterns srv idText =
     or_answer (pathUUID srv idText) (\<lambda>i.
     or_fail srv (LoadCredential (as_store srv) i) (\<lambda>_.
     or_fail srv (ListPatterns i) (\<lambda>rows.
       ret (json 200 (PatternsBody (map (newPatternResponse srv) rows)), []))))"

text \<open>The audit line is written before the list is read back, and stays when that fails.\<close>

definition handleAddPatterns :: "admin_server \<Rightarrow> admin_ctx \<Rightarrow> string \<Rightarrow> string list decoded \<Rightarrow> admin_reply prog" where
  "handleAddPatterns srv cx idText body =
     or_answer (pathUUID srv idText) (\<lambda>i.
     or_answer (decodeJSON body) (\<lambda>patterns.
     or_refuse srv (\<lambda>_. ''patterns'') (AddPatterns (as_store srv) i patterns) (\<lambda>added. do {
       r \<leftarrow> ListPatterns i;
       ret (case r of Inl e \<Rightarrow> writeStoreError srv e | Inr rows \<Rightarrow> json 201 (PatternsBody (map (newPatternResponse srv) rows)),
            [audit cx ''sender patterns granted'' ''credential'' (as_uuid srv i) (join_with '', '' added)]) })))"

definition handleDeletePattern :: "admin_server \<Rightarrow> admin_ctx \<Rightarrow> string \<Rightarrow> string \<Rightarrow> admin_reply prog" where
  "handleDeletePattern srv cx idText patternText =
     or_answer (pathUUID srv idText) (\<lambda>credentialID.
     or_answer (pathUUID srv patternText) (\<lambda>patternID.
     or_fail srv (RemovePattern credentialID patternID) (\<lambda>_.
       ret (no_content, [audit cx ''sender pattern revoked'' ''credential'' (as_uuid srv credentialID) (as_uuid srv patternID)]))))"

definition handleValidatePattern :: "admin_server \<Rightarrow> string decoded \<Rightarrow> admin_reply prog" where
  "handleValidatePattern srv body =
     or_answer (decodeJSON body) (\<lambda>pattern.
       ret (json 200 (PatternValidationBody
         (case frompattern_Parse (as_idna srv) pattern of
            Inl e \<Rightarrow> \<lparr>pvr_Valid = False, pvr_Normalized = [], pvr_Explanation = [], pvr_Error = as_pattern_text srv e\<rparr>
          | Inr parsed \<Rightarrow> \<lparr>pvr_Valid = True, pvr_Normalized = Pattern_String parsed,
              pvr_Explanation = explainPattern (as_idna srv) (Pattern_String parsed), pvr_Error = []\<rparr>)), []))"

definition handleTestPattern :: "admin_server \<Rightarrow> string \<Rightarrow> string decoded \<Rightarrow> admin_reply prog" where
  "handleTestPattern srv idText body =
     or_answer (pathUUID srv idText) (\<lambda>i.
     or_answer (decodeJSON body) (\<lambda>address.
     or_refuse srv (\<lambda>_. ''address'') (TestPattern (as_store srv) i address) (\<lambda>result.
       ret (json 200 (PatternTestBody (newPatternTestResponse result)), []))))"

section \<open>Recipient patterns\<close>

definition handleListRecipientPatterns :: "admin_server \<Rightarrow> string \<Rightarrow> admin_reply prog" where
  "handleListRecipientPatterns srv idText =
     or_answer (pathUUID srv idText) (\<lambda>i.
     or_fail srv (LoadCredential (as_store srv) i) (\<lambda>_.
     or_fail srv (ListRecipientPatterns i) (\<lambda>rows.
       ret (json 200 (PatternsBody (map (newRecipientPatternResponse srv) rows)), []))))"

definition handleAddRecipientPatterns :: "admin_server \<Rightarrow> admin_ctx \<Rightarrow> string \<Rightarrow> string list decoded \<Rightarrow> admin_reply prog" where
  "handleAddRecipientPatterns srv cx idText body =
     or_answer (pathUUID srv idText) (\<lambda>i.
     or_answer (decodeJSON body) (\<lambda>patterns.
     or_refuse srv (\<lambda>_. ''patterns'') (AddRecipientPatterns (as_store srv) i patterns) (\<lambda>added. do {
       r \<leftarrow> ListRecipientPatterns i;
       ret (case r of Inl e \<Rightarrow> writeStoreError srv e | Inr rows \<Rightarrow> json 201 (PatternsBody (map (newRecipientPatternResponse srv) rows)),
            [audit cx ''recipient restriction added'' ''credential'' (as_uuid srv i) (join_with '', '' added)]) })))"

definition unrestricted_note :: string where
  "unrestricted_note = '' (no restriction remains: this credential may now send to any address)''"

definition handleDeleteRecipientPattern :: "admin_server \<Rightarrow> admin_ctx \<Rightarrow> string \<Rightarrow> string \<Rightarrow> admin_reply prog" where
  "handleDeleteRecipientPattern srv cx idText patternText =
     or_answer (pathUUID srv idText) (\<lambda>credentialID.
     or_answer (pathUUID srv patternText) (\<lambda>patternID.
     or_fail srv (RemoveRecipientPattern credentialID patternID) (\<lambda>_. do {
       r \<leftarrow> ListRecipientPatterns credentialID;
       ret (no_content, [audit cx ''recipient restriction removed'' ''credential'' (as_uuid srv credentialID)
              (as_uuid srv patternID @ (case r of Inr [] \<Rightarrow> unrestricted_note | _ \<Rightarrow> []))]) })))"

definition handleTestRecipient :: "admin_server \<Rightarrow> string \<Rightarrow> string decoded \<Rightarrow> admin_reply prog" where
  "handleTestRecipient srv idText body =
     or_answer (pathUUID srv idText) (\<lambda>i.
     or_answer (decodeJSON body) (\<lambda>address.
     or_refuse srv (\<lambda>_. ''address'') (TestRecipient (as_store srv) i address) (\<lambda>result.
       ret (json 200 (RecipientTestBody (newRecipientTestResponse result)), []))))"

section \<open>Messages\<close>

record messages_query =
  mq_status :: string
  mq_credential_id :: string
  mq_cursor :: string
  mq_limit :: string

definition credential_filter :: "admin_server \<Rightarrow> messages_query \<Rightarrow> (admin_body http_response, uuid) result" where
  "credential_filter srv q =
     (let raw = trim_space (mq_credential_id q) in
      if raw = [] then Inr uuid_Nil
      else case as_uuid_Parse srv raw of
        None \<Rightarrow> Inl (writeError [] 422 (field_error codeInvalidRequest ''credential_id'' ''credential_id must be a valid id''))
      | Some i \<Rightarrow> Inr i)"

definition cursor_filter :: "admin_server \<Rightarrow> messages_query \<Rightarrow> (admin_body http_response, timestamp option \<times> uuid) result" where
  "cursor_filter srv q =
     (let raw = trim_space (mq_cursor q) in
      if raw = [] then Inr (None, uuid_Nil)
      else case decodeCursor srv raw of
        None \<Rightarrow> Inl (writeError [] 422 (field_error codeInvalidCursor ''cursor'' ''the cursor is not valid''))
      | Some (t, i) \<Rightarrow> Inr (if t = zero_time then None else Some t, i))"

definition next_cursor :: "admin_server \<Rightarrow> int \<Rightarrow> (EmailMessage \<times> string option \<times> string option) list \<Rightarrow> string" where
  "next_cursor srv limit rows =
     (if to_int32 (int (length rows)) = limit \<and> length rows > 0
      then encodeCursor srv (msg_CreatedAt (fst (last rows))) (msg_ID (fst (last rows))) else [])"

definition handleListMessages :: "admin_server \<Rightarrow> messages_query \<Rightarrow> admin_reply prog" where
  "handleListMessages srv q =
     or_answer (credential_filter srv q) (\<lambda>credentialID.
     or_answer (cursor_filter srv q) (\<lambda>(before, beforeID).
       let limit = pageLimit srv (mq_limit q) in
       or_fail srv (ListMessages \<lparr>mf_Status = trim_space (mq_status q), mf_CredentialID = credentialID, mf_Limit = limit,
           mf_BeforeCreatedAt = before, mf_BeforeID = beforeID\<rparr>) (\<lambda>rows.
         ret (json 200 (AdminMessagesBody (map (newAdminMessageResponse srv) rows) (next_cursor srv limit rows)), []))))"

definition handleGetMessage :: "admin_server \<Rightarrow> string \<Rightarrow> admin_reply prog" where
  "handleGetMessage srv idText =
     or_answer (pathUUID srv idText) (\<lambda>i.
     or_fail srv (GetAdminMessage i) (\<lambda>row.
       ret (json 200 (AdminMessageBody (newAdminMessageResponse srv row)), [])))"

section \<open>The router\<close>

datatype admin_route =
    GetIdentity
  | GetStats
  | GetBackends
  | GetDomains
  | GetDomainsResolve string
  | GetCredentials
  | GetCredential string
  | GetPatterns string
  | GetRecipientPatterns string
  | GetMessages messages_query
  | GetMessageRoute string
  | PostPatternsValidate "string decoded"
  | PostPatternsTest string "string decoded"
  | PostRecipientTest string "string decoded"
  | PostBackends "backendRequest decoded"
  | PatchBackend string "backendRequest \<Rightarrow> backendRequest decoded"
  | DeleteBackendRoute string
  | PostBackendTest string
  | PostDomains "domainRequest decoded"
  | PatchDomain string "domainRequest \<Rightarrow> domainRequest decoded"
  | DeleteDomainRoute string
  | PostCredentials "createCredentialRequest decoded"
  | PatchCredential string "updateCredentialRequest \<Rightarrow> updateCredentialRequest decoded"
  | PostCredentialRevoke string
  | PostCredentialRotate string
  | DeleteCredentialRoute string
  | PostPatterns string "string list decoded"
  | DeletePatternRoute string string
  | PostRecipientPatterns string "string list decoded"
  | DeleteRecipientPatternRoute string string

text \<open>The routes outside and inside the group behind \<^verbatim>\<open>requireWrite\<close>.\<close>

fun read_handler :: "admin_server \<Rightarrow> admin_ctx \<Rightarrow> admin_route \<Rightarrow> admin_reply prog option" where
  "read_handler srv cx GetIdentity = Some (handleIdentity cx)"
| "read_handler srv cx GetStats = Some (handleStats srv)"
| "read_handler srv cx GetBackends = Some (handleListBackends srv)"
| "read_handler srv cx GetDomains = Some (handleListDomains srv)"
| "read_handler srv cx (GetDomainsResolve q) = Some (handleResolveDomain srv q)"
| "read_handler srv cx GetCredentials = Some (handleListCredentials srv)"
| "read_handler srv cx (GetCredential i) = Some (handleGetCredential srv i)"
| "read_handler srv cx (GetPatterns i) = Some (handleListPatterns srv i)"
| "read_handler srv cx (GetRecipientPatterns i) = Some (handleListRecipientPatterns srv i)"
| "read_handler srv cx (GetMessages q) = Some (handleListMessages srv q)"
| "read_handler srv cx (GetMessageRoute i) = Some (handleGetMessage srv i)"
| "read_handler srv cx (PostPatternsValidate b) = Some (handleValidatePattern srv b)"
| "read_handler srv cx (PostPatternsTest i b) = Some (handleTestPattern srv i b)"
| "read_handler srv cx (PostRecipientTest i b) = Some (handleTestRecipient srv i b)"
| "read_handler srv cx _ = None"

fun write_handler :: "admin_server \<Rightarrow> admin_ctx \<Rightarrow> admin_route \<Rightarrow> admin_reply prog option" where
  "write_handler srv cx (PostBackends b) = Some (handleCreateBackend srv cx b)"
| "write_handler srv cx (PatchBackend i b) = Some (handleUpdateBackend srv cx i b)"
| "write_handler srv cx (DeleteBackendRoute i) = Some (handleDeleteBackend srv cx i)"
| "write_handler srv cx (PostBackendTest i) = Some (handleProbeBackend srv cx i)"
| "write_handler srv cx (PostDomains b) = Some (handleCreateDomain srv cx b)"
| "write_handler srv cx (PatchDomain i b) = Some (handleUpdateDomain srv cx i b)"
| "write_handler srv cx (DeleteDomainRoute i) = Some (handleDeleteDomain srv cx i)"
| "write_handler srv cx (PostCredentials b) = Some (handleCreateCredential srv cx b)"
| "write_handler srv cx (PatchCredential i b) = Some (handleUpdateCredential srv cx i b)"
| "write_handler srv cx (PostCredentialRevoke i) = Some (handleRevokeCredential srv cx i)"
| "write_handler srv cx (PostCredentialRotate i) = Some (handleRotateCredential srv cx i)"
| "write_handler srv cx (DeleteCredentialRoute i) = Some (handleDeleteCredential srv cx i)"
| "write_handler srv cx (PostPatterns i b) = Some (handleAddPatterns srv cx i b)"
| "write_handler srv cx (DeletePatternRoute i j) = Some (handleDeletePattern srv cx i j)"
| "write_handler srv cx (PostRecipientPatterns i b) = Some (handleAddRecipientPatterns srv cx i b)"
| "write_handler srv cx (DeleteRecipientPatternRoute i j) = Some (handleDeleteRecipientPattern srv cx i j)"
| "write_handler srv cx _ = None"

definition requireWrite :: "admin_ctx \<Rightarrow> admin_reply prog \<Rightarrow> admin_reply prog" where
  "requireWrite cx next' =
     (case cx_identity cx of
        None \<Rightarrow> ret (writeInternal, [])
      | Some identity \<Rightarrow>
          if \<not> CanWrite identity then ret (writeError [] 403 (plain_error codeForbidden ''this account has read-only access''), [])
          else next')"

definition no_such_endpoint :: "admin_body http_response" where
  "no_such_endpoint = writeError [] 404 (plain_error codeNotFound ''no such endpoint'')"

definition admin_dispatch :: "admin_server \<Rightarrow> admin_ctx \<Rightarrow> admin_route \<Rightarrow> admin_reply prog" where
  "admin_dispatch srv cx route =
     (case read_handler srv cx route of
        Some m \<Rightarrow> m
      | None \<Rightarrow> requireWrite cx (case write_handler srv cx route of Some m \<Rightarrow> m | None \<Rightarrow> ret (no_such_endpoint, [])))"

fun token_refusal :: "adminauth_error \<Rightarrow> admin_body http_response" where
  "token_refusal AA_Forbidden = writeError [] 403 (plain_error codeForbidden ''your account is not a member of a relais group'')"
| "token_refusal AA_ProviderUnavailable = writeUnavailable"
| "token_refusal _ = writeAdminUnauthorized"

definition requireAdminToken ::
    "('k, 'p, 'v) oidc_lib \<Rightarrow> int \<Rightarrow> 'p option \<Rightarrow> string \<Rightarrow> 'v Verifier \<Rightarrow> (admin_body http_response, Identity) result \<times> 'v Verifier" where
  "requireAdminToken x now provider authorization v =
     (case bearerValue authorization of
        None \<Rightarrow> (Inl writeAdminUnauthorized, v)
      | Some token \<Rightarrow>
          (case adminauth_Verify x now provider token v of (r, _, v') \<Rightarrow> (map_err token_refusal r, v')))"

definition admin_serve ::
    "('k, 'p, 'v) oidc_lib \<Rightarrow> int \<Rightarrow> 'p option \<Rightarrow> admin_server \<Rightarrow> string \<Rightarrow> netip_Addr \<Rightarrow> admin_route \<Rightarrow> 'v Verifier \<Rightarrow> (admin_reply \<times> 'v Verifier) prog" where
  "admin_serve x now provider srv authorization ip route v =
     (case requireAdminToken x now provider authorization v of
        (Inl response, v') \<Rightarrow> ret ((response, []), v')
      | (Inr identity, v') \<Rightarrow> do {
          reply \<leftarrow> admin_dispatch srv \<lparr>cx_identity = Some identity, cx_clientIP = ip\<rparr> route;
          ret (reply, v') })"

end
