(* ===== verification/Admin_Facts.thy ===== *)
theory Admin_Facts
  imports Admin_Api
begin

text \<open>
  What the admin API (\<^verbatim>\<open>Admin_Api\<close>) guarantees: who may change what, what the audit trail holds, what an edit keeps, and that the pages
  of the message list are complete.
\<close>

section \<open>The handlers and the database\<close>

context db_order
begin

lemma obeys_or_answer: "(\<And>a. r = Inr a \<Longrightarrow> obeys (k a)) \<Longrightarrow> obeys (or_answer r k)"
  by (cases r) (auto simp: or_answer_def intro: obeys_return)

lemma obeys_or_fail: "obeys m \<Longrightarrow> (\<And>a. obeys (k a)) \<Longrightarrow> obeys (or_fail srv m k)"
  unfolding or_fail_def by (auto intro!: obeys_bind obeys_return split: sum.splits)

lemma obeys_or_refuse: "obeys m \<Longrightarrow> (\<And>a. obeys (k a)) \<Longrightarrow> obeys (or_refuse srv f m k)"
  unfolding or_refuse_def by (auto intro!: obeys_bind obeys_return split: sum.splits)

lemmas obeys_admin = obeys_or_answer obeys_or_fail obeys_or_refuse obeys_return obeys_bind

end

lemma withPatterns_reads: "ro.obeys (withPatterns s row)"
  unfolding withPatterns_def
  by (auto intro!: ro.obeys_rules simp: Queries_ListFromPatterns_def Queries_ListRecipientPatterns_def split: sum.splits)

lemma LoadCredential_reads: "ro.obeys (LoadCredential s i)"
  unfolding LoadCredential_def by (auto intro!: ro.obeys_rules withPatterns_reads simp: Queries_GetCredential_def one_row_def)

lemma routing_reads: "ro.obeys ListBackends" "ro.obeys ListDomains" "ro.obeys (GetBackend i)" "ro.obeys (GetDomainByID i)"
  unfolding ListBackends_def ListDomains_def GetBackend_def GetDomainByID_def
  by (auto intro!: ro.obeys_rules simp: Queries_ListSMTPBackends_def Queries_ListDomains_def Queries_GetSMTPBackend_def Queries_GetDomain_def one_row_def)

lemma ResolveSender_reads: "ro.obeys (ResolveSender s d)"
  unfolding ResolveSender_def
  by (auto intro!: ro.obeys_rules simp: Queries_ResolveSenderDomain_def one_row_def split: sum.splits)

lemma credential_reads: "ro.obeys ListCredentials" "ro.obeys (ListPatterns i)" "ro.obeys (ListRecipientPatterns i)"
  unfolding ListCredentials_def ListPatterns_def ListRecipientPatterns_def
  by (auto intro!: ro.obeys_rules simp: Queries_ListCredentials_def Queries_ListFromPatterns_def Queries_ListRecipientPatterns_def)

lemma message_reads: "ro.obeys CountByStatus" "ro.obeys (ListMessages f)" "ro.obeys (GetAdminMessage i)"
  unfolding CountByStatus_def ListMessages_def GetAdminMessage_def
  by (auto intro!: ro.obeys_rules simp: Queries_CountEmailsByStatus_def Queries_ListEmailMessages_def Queries_GetAdminEmailMessage_def one_row_def)

lemma test_reads: "ro.obeys (TestPattern s i a)" "ro.obeys (TestRecipient s i a)"
  unfolding TestPattern_def TestRecipient_def Let_def
  by (auto intro!: ro.obeys_rules LoadCredential_reads ResolveSender_reads split: sum.splits)

lemmas admin_reads = LoadCredential_reads routing_reads ResolveSender_reads credential_reads message_reads test_reads

lemma read_handlers_read: "read_handler srv cx route = Some m \<Longrightarrow> ro.obeys m"
  by (cases route)
    (auto simp: handleIdentity_def handleStats_def handleListBackends_def handleListDomains_def handleResolveDomain_def handleListCredentials_def
      handleGetCredential_def handleListPatterns_def handleListRecipientPatterns_def handleListMessages_def handleGetMessage_def
      handleValidatePattern_def handleTestPattern_def handleTestRecipient_def Let_def intro!: ro.obeys_admin admin_reads split: prod.splits)

text \<open>Every route has one handler.\<close>

lemma route_partition: "(read_handler srv cx route = None) \<longleftrightarrow> (write_handler srv cx route \<noteq> None)"
  by (cases route) simp_all

lemma write_handlers_obey: "write_handler srv cx route = Some m \<Longrightarrow> au.obeys (st_lower (as_store srv)) m"
  by (cases route)
    (auto simp: handleCreateBackend_def handleUpdateBackend_def handleDeleteBackend_def handleProbeBackend_def handleCreateDomain_def handleUpdateDomain_def
      handleDeleteDomain_def handleCreateCredential_def handleUpdateCredential_def handleRevokeCredential_def handleRotateCredential_def
      handleDeleteCredential_def handleAddPatterns_def handleDeletePattern_def handleAddRecipientPatterns_def handleDeleteRecipientPattern_def
      GetBackend_def GetDomainByID_def ListPatterns_def ListRecipientPatterns_def Let_def
      intro!: au.obeys_admin routing_ops_obey credential_ops_obey CreateCredential_obeys Load_obeys au.obeys_orelse au.obeys_exec split: option.splits)

text \<open>The ways through the router: a refusal, a read, or a write by an identity that may write.\<close>

lemma admin_serve_cases:
  assumes "run_state (admin_serve x now provider srv authorization ip route v) w = ((rp, v'), w')"
  obtains (refused) "w' = w" "snd rp = []" "rs_Status (fst rp) \<in> {401, 403, 503}"
  | (reading) token identity calls m where "bearerValue authorization = Some token" "adminauth_Verify x now provider token v = (Inr identity, calls, v')"
      "read_handler srv \<lparr>cx_identity = Some identity, cx_clientIP = ip\<rparr> route = Some m" "run_state m w = (rp, w')"
  | (writing) token identity calls m where "bearerValue authorization = Some token" "adminauth_Verify x now provider token v = (Inr identity, calls, v')"
      "CanWrite identity" "write_handler srv \<lparr>cx_identity = Some identity, cx_clientIP = ip\<rparr> route = Some m" "run_state m w = (rp, w')"
proof (cases "bearerValue authorization")
  case None
  with assms show ?thesis by (intro refused) (auto simp: admin_serve_def requireAdminToken_def writeAdminUnauthorized_def error_writers)
next
  case token: (Some token)
  obtain r calls v1 where r: "adminauth_Verify x now provider token v = (r, calls, v1)" by (metis surj_pair)
  show ?thesis
  proof (cases r)
    case (Inl e)
    with assms token r show ?thesis
      by (intro refused; cases e) (auto simp: admin_serve_def requireAdminToken_def map_err_def writeAdminUnauthorized_def error_writers)
  next
    case (Inr identity)
    let ?cx = "\<lparr>cx_identity = Some identity, cx_clientIP = ip\<rparr>"
    have v1: "v' = v1" and d: "run_state (admin_dispatch srv ?cx route) w = (rp, w')"
      using assms token r Inr by (auto simp: admin_serve_def requireAdminToken_def map_err_def split: prod.splits)
    note r' = r [unfolded Inr v1 [symmetric]]
    show ?thesis
    proof (cases "read_handler srv ?cx route")
      case (Some m)
      with d reading [OF token r'] show ?thesis by (simp add: admin_dispatch_def)
    next
      case None
      then obtain m where m: "write_handler srv ?cx route = Some m" using route_partition by blast
      show ?thesis
      proof (cases "CanWrite identity")
        case True
        with d None m writing [OF token r'] show ?thesis by (simp add: admin_dispatch_def requireWrite_def)
      next
        case False
        with d None show ?thesis by (intro refused) (auto simp: admin_dispatch_def requireWrite_def error_writers)
      qed
    qed
  qed
qed

text \<open>
  C9: Nothing in the database changes through the admin API but by a request to one of the writing routes with a token that the
  configured provider issued for relais to a member of the admin group; and such a change keeps the constraints of the schema
  and every message.
\<close>

theorem only_admins_change_anything:
  assumes "oidc_lawful x" "verifier_reach x cfg v" "case provider of None \<Rightarrow> True | Some p \<Rightarrow> ol_provider_issuer x p = aa_Issuer cfg"
    and "peers w = []" "run_state (admin_serve x now provider srv authorization ip route v) w = ((rp, v'), w')"
    and "tables w' \<noteq> tables w"
  shows "\<exists>token t cx. bearerValue authorization = Some token \<and> issued_for x cfg now (trim_space token) t \<and>
    in_group x (token_groups cfg t) (admin_group cfg) \<and> write_handler srv cx route \<noteq> None \<and>
    audited (st_lower (as_store srv)) (tables w) (tables w')"
  using assms(5)
proof (cases rule: admin_serve_cases)
  case refused
  with assms(6) show ?thesis by simp
next
  case (reading token identity calls m)
  from ro.obeysD [OF read_handlers_read [OF reading(3)] reading(4) ro.friendly_alone [OF assms(4)]] assms(6) show ?thesis by simp
next
  case (writing token identity calls m)
  from Verify_checked [OF assms(1-3) writing(2)] writing(3) obtain t where
    "issued_for x cfg now (trim_space token) t" "in_group x (token_groups cfg t) (admin_group cfg)" by auto
  moreover have "audited (st_lower (as_store srv)) (tables w) (tables w')"
    using au.obeysD [OF write_handlers_obey [OF writing(4)] writing(5) au.friendly_alone [OF assms(4)]] by simp
  ultimately show ?thesis using writing(1,4) by (metis option.distinct(1))
qed

section \<open>The audit trail\<close>

text \<open>A fallible program that, when it fails with anything but the given error, has changed nothing.\<close>

definition clean :: "(db \<Rightarrow> bool) \<Rightarrow> 'e \<Rightarrow> ('e, 'a) result prog \<Rightarrow> bool" where
  "clean I c m \<longleftrightarrow> (\<forall>w e w'. peers w = [] \<longrightarrow> I (tables w) \<longrightarrow> run_state m w = (Inl e, w') \<longrightarrow> e = c \<or> tables w' = tables w)"

definition reads :: "'a prog \<Rightarrow> bool" where
  "reads m \<longleftrightarrow> ro.obeys m \<and> ka.keeps m"

lemma readsD: "reads m \<Longrightarrow> peers w = [] \<Longrightarrow> run_state m w = (a, w') \<Longrightarrow> tables w' = tables w \<and> peers w' = []"
  unfolding reads_def using ro.obeysD [of m w a w'] ka.keepsD [of m w a w'] ro.friendly_alone [of w] by simp

lemma clean_ret: "clean I c (ret r)"
  by (simp add: clean_def)

lemma clean_exec:
  assumes "\<And>now uid d e. fst (q now uid d) = Inl e \<Longrightarrow> snd (q now uid d) = d"
  shows "clean I connection_error (exec q)"
  unfolding clean_def
proof (intro allI impI)
  fix w e w' assume "peers w = []" "I (tables w)" and r: "run_state (exec q) w = (Inl e, w')"
  from alone_exec(3) [OF this(1) r] assms [of "clock w" "draw_id w" "tables w" e] show "e = connection_error \<or> tables w' = tables w"
    by (metis sum.inject(1))
qed

lemma clean_withTx: "clean I connection_error (withTx m)"
  unfolding clean_def
proof (intro allI impI)
  fix w e w' assume "peers w = []" "I (tables w)" and r: "run_state (withTx m) w = (Inl e, w')"
  from r show "e = connection_error \<or> tables w' = tables w"
    by (cases rule: withTx_cases) (use \<open>peers w = []\<close> in \<open>auto simp: interfere_def\<close>)
qed

text \<open>After a program that only reads; and before a program that only fails with that error.\<close>

lemma clean_after_read: "reads m \<Longrightarrow> (\<And>a. clean I c (k a)) \<Longrightarrow> clean I c (orelse m g k)"
  unfolding clean_def by (auto simp: orelse_run split: prod.splits sum.splits) (metis readsD)+

lemma clean_before:
  assumes "clean I c m" "g c = c'" "\<And>a w e w'. run_state (k a) w = (Inl e, w') \<Longrightarrow> e = c'"
  shows "clean I c' (orelse m g k)"
  using assms(1) unfolding clean_def
  by (auto simp: orelse_run assms(2) split: prod.splits sum.splits dest: assms(3))

lemma reads_rand: "reads (rand_Read n)"
  by (simp add: reads_def ro.obeys_rules ka.keeps_rules)

lemma reads_mintFor: "reads (mintFor s typ u)"
  unfolding reads_def mintFor_def by (auto intro!: ro.obeys_rules ka.keeps_rules split: sum.splits)

lemma reads_seal: "reads (sealBackendPassword s p)"
  unfolding reads_def sealBackendPassword_def by (auto intro!: ro.obeys_rules ka.keeps_rules)

abbreviation lost :: store_error where "lost \<equiv> ErrDriver ''connection''"

lemma store_wrap_lost: "store_wrap connection_error = lost"
  by (simp add: store_wrap_def connection_error_def)

lemma answer_error_unchanged:
  "fst (wrote r f g d) = Inl e \<Longrightarrow> snd (wrote r f g d) = d"
  "fst (wrote_row r' p old upd h d) = Inl e \<Longrightarrow> snd (wrote_row r' p old upd h d) = d"
  by (auto simp: wrote_def wrote_row_def split: sum.splits option.splits)

lemma clean_statement:
  assumes "\<And>now uid d e. fst (q now uid d) = Inl e \<Longrightarrow> snd (q now uid d) = d"
  shows "clean I lost (orelse (exec q) store_wrap (\<lambda>row. ret (Inr row)))"
  by (rule clean_before [where c = connection_error, OF clean_exec [OF assms]]) (auto simp: store_wrap_lost)

lemma clean_delete:
  assumes "\<And>now uid d e. fst (q now uid d) = Inl e \<Longrightarrow> snd (q now uid d) = d"
    and "\<And>now uid d. I d \<Longrightarrow> fst (q now uid d) = Inr 0 \<Longrightarrow> snd (q now uid d) = d"
  shows "clean I lost (orelse (exec q) store_wrap (\<lambda>n. ret (if n = (0 :: int) then Inl ErrNotFound else Inr ())))"
  unfolding clean_def
proof (intro allI impI)
  fix w e w'
  assume p: "peers w = []" and i: "I (tables w)"
    and r: "run_state (orelse (exec q) store_wrap (\<lambda>n. ret (if n = (0 :: int) then Inl ErrNotFound else Inr ()))) w = (Inl e, w')"
  obtain a w1 where a: "run_state (exec q) w = (a, w1)" by fastforce
  show "e = lost \<or> tables w' = tables w"
  proof (cases a)
    case (Inl e1)
    have "clean (\<lambda>_. True) connection_error (exec q)" by (rule clean_exec [OF assms(1)])
    with a p Inl have "e1 = connection_error \<or> tables w1 = tables w" by (auto simp: clean_def)
    with r a Inl show ?thesis by (auto simp: orelse_run store_wrap_lost)
  next
    case (Inr n)
    with r a have n: "n = 0" "w' = w1" by (auto simp: orelse_run split: if_splits)
    from alone_exec(3) [OF p a] Inr n(1) have "fst (q (clock w) (draw_id w) (tables w)) = Inr 0" "tables w1 = snd (q (clock w) (draw_id w) (tables w))"
      by auto
    with assms(2) [OF i] n(2) show ?thesis by metis
  qed
qed

lemma none_affected: "affected p xs = 0 \<longleftrightarrow> (\<forall>x \<in> set xs. \<not> p x)"
  by (auto simp: affected_def filter_empty_conv)

lemma foreign_keys:
  assumes "db_inv lower d"
  shows "m \<in> set (db_messages d) \<Longrightarrow> msg_SmtpBackendID m = Some i \<Longrightarrow> i \<in> backend_ids d"
    "m \<in> set (db_messages d) \<Longrightarrow> msg_CredentialID m = Some i \<Longrightarrow> i \<in> credential_ids d"
    "p \<in> set (db_from_patterns d) \<Longrightarrow> fpat_CredentialID p \<in> credential_ids d"
    "r \<in> set (db_recipient_patterns d) \<Longrightarrow> rpat_CredentialID r \<in> credential_ids d"
proof -
  have "violated (fkeys (message_schema lower (credential_ids d) (backend_ids d))) (db_messages d) = None"
    "violated (fkeys (from_pattern_schema (credential_ids d))) (db_from_patterns d) = None"
    "violated (fkeys (recipient_pattern_schema (credential_ids d))) (db_recipient_patterns d) = None"
    using assms by (simp_all add: db_inv_def table_ok_def)
  then have f: "\<And>m. m \<in> set (db_messages d) \<Longrightarrow> set_option (msg_SmtpBackendID m) \<subseteq> backend_ids d \<and> set_option (msg_CredentialID m) \<subseteq> credential_ids d"
    "\<And>p. p \<in> set (db_from_patterns d) \<Longrightarrow> fpat_CredentialID p \<in> credential_ids d"
    "\<And>r. r \<in> set (db_recipient_patterns d) \<Longrightarrow> rpat_CredentialID r \<in> credential_ids d"
    by (auto simp: violated_None message_schema_def from_pattern_schema_def recipient_pattern_schema_def list_all_iff)
  from f(1) [of m] show "m \<in> set (db_messages d) \<Longrightarrow> msg_SmtpBackendID m = Some i \<Longrightarrow> i \<in> backend_ids d"
    "m \<in> set (db_messages d) \<Longrightarrow> msg_CredentialID m = Some i \<Longrightarrow> i \<in> credential_ids d" by auto
  show "p \<in> set (db_from_patterns d) \<Longrightarrow> fpat_CredentialID p \<in> credential_ids d" by (rule f(2))
  show "r \<in> set (db_recipient_patterns d) \<Longrightarrow> rpat_CredentialID r \<in> credential_ids d" by (rule f(3))
qed

lemma delete_nothing:
  assumes "db_inv lower d"
  shows "fst (Queries_DeleteSMTPBackend i now d) = Inr 0 \<Longrightarrow> snd (Queries_DeleteSMTPBackend i now d) = d"
    "fst (Queries_DeleteCredential i now d) = Inr 0 \<Longrightarrow> snd (Queries_DeleteCredential i now d) = d"
proof -
  assume "fst (Queries_DeleteSMTPBackend i now d) = Inr 0"
  then have b: "\<forall>b \<in> set (db_backends d). be_ID b \<noteq> i" by (auto simp: Queries_DeleteSMTPBackend_def none_affected split: if_splits)
  then have "\<forall>m \<in> set (db_messages d). msg_SmtpBackendID m \<noteq> Some i" using foreign_keys(1) [OF assms] by blast
  then have "map (\<lambda>m. if msg_SmtpBackendID m = Some i then m\<lparr>msg_SmtpBackendID := None, msg_UpdatedAt := now\<rparr> else m) (db_messages d) = db_messages d"
    by (intro map_idI) auto
  moreover have "filter (\<lambda>b. be_ID b \<noteq> i) (db_backends d) = db_backends d" using b by (simp add: filter_id_conv)
  ultimately show "snd (Queries_DeleteSMTPBackend i now d) = d" by (simp add: Queries_DeleteSMTPBackend_def)
next
  assume "fst (Queries_DeleteCredential i now d) = Inr 0"
  then have c: "\<forall>c \<in> set (db_credentials d). cred_ID c \<noteq> i" by (auto simp: Queries_DeleteCredential_def none_affected)
  then have f: "\<forall>m \<in> set (db_messages d). msg_CredentialID m \<noteq> Some i" "\<forall>p \<in> set (db_from_patterns d). fpat_CredentialID p \<noteq> i"
    "\<forall>p \<in> set (db_recipient_patterns d). rpat_CredentialID p \<noteq> i" using foreign_keys(2-4) [OF assms] by fastforce+
  then have "map (\<lambda>m. if msg_CredentialID m = Some i then m\<lparr>msg_CredentialID := None, msg_UpdatedAt := now\<rparr> else m) (db_messages d) = db_messages d"
    by (intro map_idI) auto
  with c f show "snd (Queries_DeleteCredential i now d) = d" by (simp add: Queries_DeleteCredential_def filter_id_conv)
qed

lemma clean_deletes:
  "clean (db_inv lower) lost (DeleteBackend i)" "clean (db_inv lower) lost (DeleteDomain i)" "clean (db_inv lower) lost (DeleteCredential i)"
  "clean (db_inv lower) lost (RemovePattern i j)" "clean (db_inv lower) lost (RemoveRecipientPattern i j)"
  unfolding DeleteBackend_def DeleteDomain_def DeleteCredential_def RemovePattern_def RemoveRecipientPattern_def
proof -
  show "clean (db_inv lower) lost (orelse (exec (\<lambda>now uid. Queries_DeleteSMTPBackend i now)) store_wrap (\<lambda>n. ret (if n = 0 then Inl ErrNotFound else Inr ())))"
    by (rule clean_delete) (auto simp: delete_nothing, auto simp: Queries_DeleteSMTPBackend_def split: if_splits)
  show "clean (db_inv lower) lost (orelse (exec (\<lambda>now uid. Queries_DeleteCredential i now)) store_wrap (\<lambda>n. ret (if n = 0 then Inl ErrNotFound else Inr ())))"
    by (rule clean_delete) (auto simp: delete_nothing, simp add: Queries_DeleteCredential_def)
qed (rule clean_delete; auto simp: Queries_DeleteDomain_def Queries_DeleteFromPattern_def Queries_DeleteRecipientPattern_def none_affected filter_id_conv)+

lemma reads_GetBackend: "reads (GetBackend i)"
  using routing_reads(3) unfolding reads_def GetBackend_def by (auto intro!: ka.keeps_rules)

lemma reads_LoadCredential: "reads (LoadCredential s i)"
  using LoadCredential_reads unfolding reads_def LoadCredential_def withPatterns_def by (auto intro!: ka.keeps_rules split: sum.splits)

lemma reads_ret: "reads (ret a)"
  by (simp add: reads_def ro.obeys_return ka.keeps_return)

lemma reads_orelse: "reads m \<Longrightarrow> (\<And>a. reads (k a)) \<Longrightarrow> reads (orelse m g k)"
  by (simp add: reads_def ro.obeys_orelse ka.keeps_orelse)

lemma clean_routing:
  "clean I lost (CreateBackend s nb)" "clean I lost (UpdateBackend s ub)" "clean I lost (CreateDomain s nd)" "clean I lost (UpdateDomain s i nd)"
  unfolding CreateBackend_def UpdateBackend_def update_backend_row_def CreateDomain_def UpdateDomain_def Let_def
  by (auto intro!: clean_ret clean_after_read clean_statement reads_seal reads_orelse reads_ret reads_GetBackend
      simp: Queries_CreateSMTPBackend_def Queries_UpdateSMTPBackend_def Queries_CreateDomain_def Queries_UpdateDomain_def Let_def answer_error_unchanged
      split: sum.splits)

text \<open>A step that may be tried again: the retry only follows an error that left the tables alone.\<close>

lemma clean_retry:
  assumes "clean I connection_error m" "ka.keeps m" "\<And>a w e w'. run_state (good a) w = (Inl e, w') \<Longrightarrow> e = lost"
    and "\<And>e. clean I lost (bad e)" "bad connection_error = ret (Inl lost)"
  shows "clean I lost (do { r \<leftarrow> m; case r of Inr a \<Rightarrow> good a | Inl e \<Rightarrow> bad e })"
  unfolding clean_def
proof (intro allI impI)
  fix w e w'
  assume w: "peers w = []" "I (tables w)" and r: "run_state (do { r \<leftarrow> m; case r of Inr a \<Rightarrow> good a | Inl e \<Rightarrow> bad e }) w = (Inl e, w')"
  obtain t w1 where t: "run_state m w = (t, w1)" by fastforce
  have p1: "peers w1 = []" by (rule ka.keepsD [OF assms(2) w(1) t])
  show "e = lost \<or> tables w' = tables w"
  proof (cases t)
    case (Inl e1)
    with r t have r1: "run_state (bad e1) w1 = (Inl e, w')" by simp
    show ?thesis
    proof (cases "e1 = connection_error")
      case True
      with r1 assms(5) show ?thesis by simp
    next
      case False
      with assms(1) w t Inl have "tables w1 = tables w" unfolding clean_def by blast
      with assms(4) [of e1] p1 w(2) r1 show ?thesis unfolding clean_def by metis
    qed
  next
    case (Inr a)
    with r t have "run_state (good a) w1 = (Inl e, w')" by simp
    with assms(3) show ?thesis by blast
  qed
qed

lemma CreateCredential_loop_clean: "clean I lost (CreateCredential_loop s p ps rs n)"
proof (induction n)
  case (Suc n)
  have k: "ka.keeps (withTx (create_credential_tx s p minted ps rs))" for minted
    unfolding create_credential_tx_def by (intro ka.keeps_rules)
  show ?case
    unfolding CreateCredential_loop.simps
    by (intro clean_after_read reads_mintFor clean_retry clean_withTx k)
      (auto simp: Suc.IH clean_ret store_wrap_def connection_error_def)
qed (simp add: clean_ret)

lemma list_after_rotation:
  "run_state (orelse (exec (\<lambda>now uid. Queries_ListFromPatterns i)) store_wrap (\<lambda>rows. ret (Inr (f rows)))) w = (Inl e, w') \<Longrightarrow> e = lost"
  by (auto simp: orelse_run run_exec Queries_ListFromPatterns_def store_wrap_lost split: prod.splits sum.splits net_event.splits)

lemma RotateCredentialSecret_loop_clean: "clean I lost (RotateCredentialSecret_loop s i c n)"
proof (induction n)
  case (Suc n)
  have q: "clean I connection_error (exec (\<lambda>now uid. Queries_RotateCredentialSecret (st_lower s) i l h now))" for l h
    by (rule clean_exec) (auto simp: Queries_RotateCredentialSecret_def Let_def answer_error_unchanged)
  show ?case
    unfolding RotateCredentialSecret_loop.simps
    by (intro clean_after_read reads_mintFor clean_retry q ka.keeps_exec)
      (auto simp: Suc.IH clean_ret store_wrap_def connection_error_def isNotFound_def intro: list_after_rotation)
qed (simp add: clean_ret)

lemma clean_patterns:
  "clean I lost (AddPatterns s i raw)" "clean I lost (AddRecipientPatterns s i raw)"
  unfolding AddPatterns_def AddRecipientPatterns_def
  by (auto intro!: clean_ret clean_before [where c = connection_error, OF clean_withTx] simp: store_wrap_lost split: sum.splits)

lemma clean_credentials:
  "clean I lost (CreateCredential s nc)" "clean I lost (UpdateCredential s uc)" "clean I lost (RevokeCredential s i)" "clean I lost (RotateCredentialSecret s i)"
proof -
  show "clean I lost (CreateCredential s nc)"
    unfolding CreateCredential_def by (auto intro!: clean_ret CreateCredential_loop_clean split: sum.splits)
  show "clean I lost (UpdateCredential s uc)" "clean I lost (RevokeCredential s i)"
    unfolding UpdateCredential_def RevokeCredential_def Let_def
    by (auto intro!: clean_ret clean_statement simp: Queries_UpdateCredential_def Queries_RevokeCredential_def Let_def answer_error_unchanged)
  have "reads (exec (\<lambda>now uid. Queries_GetCredential i))"
    unfolding reads_def by (auto intro!: ro.obeys_rules ka.keeps_rules simp: Queries_GetCredential_def one_row_def)
  then show "clean I lost (RotateCredentialSecret s i)"
    unfolding RotateCredentialSecret_def by (intro clean_after_read) (auto intro: clean_ret RotateCredentialSecret_loop_clean)
qed

lemmas clean_ops = clean_deletes clean_routing clean_patterns clean_credentials

text \<open>
  What a reply says of the trail: a success is written under the caller's name, in one line; and when nothing was written,
  nothing was changed, unless the answer is that the service is unavailable.
\<close>

definition told :: "(db \<Rightarrow> bool) \<Rightarrow> admin_ctx \<Rightarrow> admin_reply prog \<Rightarrow> bool" where
  "told I cx m \<longleftrightarrow> (\<forall>w resp ls w'. peers w = [] \<longrightarrow> I (tables w) \<longrightarrow> run_state m w = ((resp, ls), w') \<longrightarrow>
     (if ls = [] then rs_Status resp \<notin> {200..299} \<and> (tables w' = tables w \<or> resp = writeUnavailable)
      else \<exists>action kind i detail. ls = [audit cx action kind i detail]))"

lemma refusal_status:
  "rs_Status (writeStoreError srv e :: admin_body http_response) \<in> {404, 409, 422, 503}"
  "rs_Status (refusal srv f e :: admin_body http_response) \<in> {404, 409, 422, 503}"
  by (cases e; simp add: refusal_def writeValidationError_def no_such_resource_def error_writers)+

lemma decodeJSON_told: "decodeJSON d = Inl response \<Longrightarrow> rs_Status response \<notin> {200..299}"
  using decodeJSON_status [of d response] by auto

lemma pathUUID_told: "pathUUID srv i = Inl response \<Longrightarrow> rs_Status response \<notin> {200..299}"
  by (auto simp: pathUUID_def no_such_resource_def error_writers split: option.splits)

lemma backend_id_told: "backend_id_of srv rq = Inl response \<Longrightarrow> rs_Status response \<notin> {200..299}"
  by (auto simp: backend_id_of_def error_writers split: option.splits)

lemma told_answer:
  assumes "\<And>response. r = Inl response \<Longrightarrow> rs_Status response \<notin> {200..299}" "\<And>a. r = Inr a \<Longrightarrow> told I cx (k a)"
  shows "told I cx (or_answer r k)"
  using assms by (cases r) (auto simp: told_def or_answer_def)

lemma told_refused: "rs_Status resp \<notin> {200..299} \<Longrightarrow> told I cx (ret (resp, []))"
  by (auto simp: told_def)

lemma told_line: "told I cx (ret (resp, [audit cx action kind i detail]))"
  by (auto simp: told_def)

text \<open>After a read, and for the write a handler is about, whose continuation always writes its line.\<close>

lemma told_fail_read:
  assumes "reads m" "\<And>a. told I cx (k a)"
  shows "told I cx (or_fail srv m k)"
  unfolding told_def
proof (intro allI impI)
  fix w resp ls w'
  assume w: "peers w = []" "I (tables w)" and r: "run_state (or_fail srv m k) w = ((resp, ls), w')"
  obtain a w1 where a: "run_state m w = (a, w1)" by fastforce
  have w1: "tables w1 = tables w" "peers w1 = []" using readsD [OF assms(1) w(1) a] by auto
  show "if ls = [] then rs_Status resp \<notin> {200..299} \<and> (tables w' = tables w \<or> resp = writeUnavailable)
    else \<exists>action kind i detail. ls = [audit cx action kind i detail]"
  proof (cases a)
    case (Inl e)
    with r a w1 refusal_status(1) [of srv e] show ?thesis by (auto simp: or_fail_def)
  next
    case (Inr b)
    with r a have "run_state (k b) w1 = ((resp, ls), w')" by (simp add: or_fail_def)
    with assms(2) [of b] w1 w(2) show ?thesis unfolding told_def by metis
  qed
qed

definition always_told :: "admin_ctx \<Rightarrow> admin_reply prog \<Rightarrow> bool" where
  "always_told cx m \<longleftrightarrow> (\<forall>w. \<exists>action kind i detail. snd (fst (run_state m w)) = [audit cx action kind i detail])"

lemma told_write:
  assumes "clean I lost m" "\<And>a. always_told cx (k a)"
  shows "told I cx (or_fail srv m k)" "told I cx (or_refuse srv f m k)"
proof -
  have l: "writeStoreError srv lost = writeUnavailable" "refusal srv g lost = writeUnavailable" for g by (simp_all add: refusal_def)
  have step: "if ls = [] then rs_Status resp \<notin> {200..299} \<and> (tables w' = tables w \<or> resp = writeUnavailable)
      else \<exists>action kind i detail. ls = [audit cx action kind i detail]"
    if w: "peers w = []" "I (tables w)" and a: "run_state m w = (a, w1)"
      and r: "run_state (case a of Inl e \<Rightarrow> ret (h e, []) | Inr b \<Rightarrow> k b) w1 = ((resp, ls), w')"
      and h: "\<And>e. rs_Status (h e) \<in> {404, 409, 422, 503}" "h lost = writeUnavailable" for w a w1 h resp ls w'
  proof (cases a)
    case (Inl e)
    with a w assms(1) have "e = lost \<or> tables w1 = tables w" unfolding clean_def by blast
    with r Inl h(1) [of e] h(2) show ?thesis by auto
  next
    case (Inr b)
    with r have "run_state (k b) w1 = ((resp, ls), w')" by simp
    moreover obtain action kind i detail where "snd (fst (run_state (k b) w1)) = [audit cx action kind i detail]"
      using assms(2) [of b] unfolding always_told_def by blast
    ultimately show ?thesis by auto
  qed
  have bound: "told I cx (do { r \<leftarrow> m; case r of Inl e \<Rightarrow> ret (h e, []) | Inr a \<Rightarrow> k a })"
    if h: "\<And>e. rs_Status (h e) \<in> {404, 409, 422, 503}" "h lost = writeUnavailable" for h
    unfolding told_def
  proof (intro allI impI)
    fix w resp ls w'
    assume w: "peers w = []" "I (tables w)" and r: "run_state (do { r \<leftarrow> m; case r of Inl e \<Rightarrow> ret (h e, []) | Inr a \<Rightarrow> k a }) w = ((resp, ls), w')"
    obtain a w1 where a: "run_state m w = (a, w1)" by fastforce
    with r have "run_state (case a of Inl e \<Rightarrow> ret (h e, []) | Inr b \<Rightarrow> k b) w1 = ((resp, ls), w')" by simp
    from step [OF w a this h] show "if ls = [] then rs_Status resp \<notin> {200..299} \<and> (tables w' = tables w \<or> resp = writeUnavailable)
      else \<exists>action kind i detail. ls = [audit cx action kind i detail]" .
  qed
  show "told I cx (or_fail srv m k)" unfolding or_fail_def by (rule bound, rule refusal_status(1), rule l(1))
  show "told I cx (or_refuse srv f m k)" unfolding or_refuse_def by (rule bound, rule refusal_status(2), rule l(2))
qed

lemma always_told_ret: "always_told cx (ret (resp, [audit cx action kind i detail]))"
  by (auto simp: always_told_def)

lemma always_told_after: "always_told cx (do { r \<leftarrow> m; ret (g r, [audit cx action kind i (h r)]) })"
  by (auto simp: always_told_def split: prod.splits)

lemma reads_GetDomainByID: "reads (GetDomainByID i)"
  using routing_reads(4) unfolding reads_def GetDomainByID_def by (auto intro!: ka.keeps_rules)

lemma always_told_after_only: "always_told cx (do { r \<leftarrow> m; ret (g r, [audit cx action kind i detail]) })"
  by (rule always_told_after)

lemma probe_told: "told I cx (handleProbeBackend srv cx idText)"
  unfolding handleProbeBackend_def
proof (rule told_answer)
  fix i
  show "told I cx (case as_prober srv of
      None \<Rightarrow> ret (writeError [] 503 (plain_error codeUnavailable ''connection testing is not available in this process''), [])
    | Some prober \<Rightarrow> or_fail srv (GetBackend i) (\<lambda>backend.
        ret (case OpenBackendPassword (as_store srv) (be_AuthPasswordSealed backend) of
          Inl e \<Rightarrow> (writeError [] 422 (plain_error codeInvalidRequest (''the stored password cannot be opened: '' @ as_envelope_text srv e)), [])
        | Inr password \<Rightarrow> (case prober (route_of 0 [] backend password) of
            Inl e \<Rightarrow> (json 200 (ProbeBody \<lparr>pbr_OK = False, pbr_UsedTLS = False, pbr_Authenticated = False, pbr_Extensions = [],
                       pbr_Error = Some \<lparr>me_Code = se_Code e, me_Detail = Send_Error_text e\<rparr>\<rparr>),
                     [audit cx ''backend connection test failed'' ''backend'' (as_uuid srv (be_ID backend)) (be_Name backend)])
          | Inr r \<Rightarrow> (json 200 (ProbeBody \<lparr>pbr_OK = True, pbr_UsedTLS = pr_UsedTLS r, pbr_Authenticated = pr_Authenticated r,
                       pbr_Extensions = pr_Extensions r, pbr_Error = None\<rparr>),
                     [audit cx ''backend connection tested'' ''backend'' (as_uuid srv (be_ID backend)) (be_Name backend)])))))"
    by (cases "as_prober srv")
      (auto intro!: told_refused told_fail_read reads_GetBackend told_line simp: error_writers split: sum.splits)
qed (rule pathUUID_told)

lemmas told_steps = told_answer told_refused told_fail_read [OF reads_GetBackend] told_fail_read [OF reads_GetDomainByID]
  told_fail_read [OF reads_LoadCredential] told_write(1) [OF clean_deletes(1)] told_write(1) [OF clean_deletes(2)] told_write(1) [OF clean_deletes(3)]
  told_write(1) [OF clean_deletes(4)] told_write(1) [OF clean_deletes(5)] told_write(1) [OF clean_credentials(3)] told_write(2)
  clean_routing clean_patterns clean_credentials always_told_ret always_told_after always_told_after_only

lemma write_handlers_told: "write_handler srv cx route = Some m \<Longrightarrow> told (db_inv lower) cx m"
  by (cases route)
    (auto simp: handleCreateBackend_def handleUpdateBackend_def handleDeleteBackend_def handleCreateDomain_def handleUpdateDomain_def
      handleDeleteDomain_def handleCreateCredential_def handleUpdateCredential_def handleRevokeCredential_def handleRotateCredential_def
      handleDeleteCredential_def handleAddPatterns_def handleDeletePattern_def handleAddRecipientPatterns_def handleDeleteRecipientPattern_def
      Let_def reenable_refused_def error_writers dest: decodeJSON_told pathUUID_told backend_id_told intro!: told_steps probe_told)

definition silent :: "admin_reply prog \<Rightarrow> bool" where
  "silent m \<longleftrightarrow> (\<forall>w. snd (fst (run_state m w)) = [])"

lemma silent_rules:
  "silent (ret (resp, []))" "(\<And>a. silent (k a)) \<Longrightarrow> silent (or_answer r k)" "(\<And>a. silent (k a)) \<Longrightarrow> silent (or_fail srv m k)"
  "(\<And>a. silent (k a)) \<Longrightarrow> silent (or_refuse srv f m k)" "silent (do { r \<leftarrow> m; ret (g r, []) })"
  by (auto simp: silent_def or_answer_def or_fail_def or_refuse_def split: sum.splits prod.splits)

lemma read_handlers_silent: "read_handler srv cx route = Some m \<Longrightarrow> silent m"
  by (cases route)
    (auto simp: handleIdentity_def handleStats_def handleListBackends_def handleListDomains_def handleResolveDomain_def handleListCredentials_def
      handleGetCredential_def handleListPatterns_def handleListRecipientPatterns_def handleListMessages_def handleGetMessage_def
      handleValidatePattern_def handleTestPattern_def handleTestRecipient_def Let_def intro!: silent_rules split: prod.splits)

text \<open>
  C25: A change through the admin API is in the audit trail, in one line that names the admin whose token was checked, unless the answer
  is that the service is unavailable; a line is only written for an identity that may write; and a writing route never reports
  success without its line.
\<close>

theorem changes_are_in_the_trail:
  assumes "peers w = []" "db_inv (st_lower (as_store srv)) (tables w)"
    and "run_state (admin_serve x now provider srv authorization ip route v) w = (((resp, ls), v'), w')"
  shows "(ls = [] \<longrightarrow> tables w' = tables w \<or> resp = writeUnavailable) \<and>
    (ls \<noteq> [] \<longrightarrow> (\<exists>token identity calls line. bearerValue authorization = Some token \<and>
       adminauth_Verify x now provider token v = (Inr identity, calls, v') \<and> CanWrite identity \<and>
       ls = [line] \<and> al_Admin line = Identity_String identity \<and> al_Role line = RoleAdmin \<and> al_RemoteIP line = ip)) \<and>
    (rs_Status resp \<in> {200..299} \<and> write_handler srv cx route \<noteq> None \<longrightarrow> ls \<noteq> [])"
  using assms(3)
proof (cases rule: admin_serve_cases)
  case refused
  then show ?thesis by auto
next
  case (reading token identity calls m)
  from read_handlers_silent [OF reading(3)] reading(4) have "ls = []" by (auto simp: silent_def dest: spec [of _ w])
  moreover have "tables w' = tables w"
    using ro.obeysD [OF read_handlers_read [OF reading(3)] reading(4) ro.friendly_alone [OF assms(1)]] by simp
  moreover have "write_handler srv cx route = None"
    using reading(3) route_partition by (cases route) simp_all
  ultimately show ?thesis by simp
next
  case (writing token identity calls m)
  from write_handlers_told [OF writing(4)] assms(1,2) writing(5) have t:
    "if ls = [] then rs_Status resp \<notin> {200..299} \<and> (tables w' = tables w \<or> resp = writeUnavailable)
     else \<exists>action kind i detail. ls = [audit \<lparr>cx_identity = Some identity, cx_clientIP = ip\<rparr> action kind i detail]"
    unfolding told_def by blast
  show ?thesis
  proof (cases "ls = []")
    case False
    with t obtain action kind i detail where l: "ls = [audit \<lparr>cx_identity = Some identity, cx_clientIP = ip\<rparr> action kind i detail]" by auto
    with writing(1-3) show ?thesis by (auto simp: audit_def context_identity_def CanWrite_def)
  qed (use t in auto)
qed

section \<open>Answers that are not what is meant\<close>

lemma writeStoreError_no_body: "rs_Body (writeStoreError srv e) \<noteq> JsonBody b"
  by (cases e) (simp_all add: no_such_resource_def error_writers)

text \<open>
  The answer to a rotation always says that the credential may send to any address: the store returns no recipient patterns with
  it, although the rotated credential keeps those it has.
\<close>

lemma rotation_answer_claims_unrestricted:
  assumes "run_state (handleRotateCredential srv cx idText) w = ((resp, ls), w')" "rs_Body resp = JsonBody (CreatedBody c)"
  shows "ccr_RecipientPatterns c = [] \<and> cre_RecipientPatternCount (ccr_Credential c) = 0 \<and> (\<exists>t. ccr_Warning c = t @ no_recipient_warning)"
proof -
  have loop: "cc_RecipientPatterns cc = []" if "run_state (RotateCredentialSecret_loop s i existing n) v = (Inr cc, v')" for s i existing n v v' cc
    using that
  proof (induction n arbitrary: v)
    case (Suc n)
    from Suc.prems [unfolded RotateCredentialSecret_loop.simps] show ?case
      by (elim orelse_Inr) (auto simp: orelse_run dest: Suc.IH split: prod.splits sum.splits if_splits)
  qed simp
  obtain i cc v v' where "run_state (RotateCredentialSecret (as_store srv) i) v = (Inr cc, v')" and c: "c = showOnce srv cc rotated_warning"
    using assms by (auto simp: handleRotateCredential_def or_answer_def or_refuse_def json_def writeJSON_def refusal_def writeValidationError_def
        error_writers no_such_resource_def pathUUID_def writeStoreError_no_body split: sum.splits prod.splits option.splits if_splits)
  then have "cc_RecipientPatterns cc = []"
    unfolding RotateCredentialSecret_def by (elim orelse_Inr) (auto split: if_splits dest: loop)
  with c show ?thesis by (simp add: showOnce_def Let_def newCredentialResponse_def)
qed

text \<open>An edit that blanks the name of a credential, a mistake of the caller, is answered as an outage.\<close>

lemma blank_name_answered_503:
  assumes "trim_space (ucp_Name p) = []"
  shows "run_state (or_refuse srv (\<lambda>_. []) (UpdateCredential (as_store srv) p) k) w = ((writeUnavailable, []), w)"
  using assms by (simp add: or_refuse_def UpdateCredential_def refusal_def)

section \<open>Witnesses\<close>

definition demo_admin :: admin_server where
  "demo_admin = \<lparr>as_store = demo_store, as_prober = None, as_maxRequestBytes = 1000, as_pageSize = 1, as_maxPageSize = 3,
     as_uuid_Parse = (\<lambda>t. Some (word_of_nat (length t))), as_uuid = (\<lambda>i. replicate (unat i) (CHR ''x'')), as_rfc3339 = (\<lambda>t. ''t''),
     as_rfc3339Nano = (\<lambda>t. if t < 0 then CHR ''-'' # replicate (nat (- t)) (CHR ''1'') else replicate (nat t) (CHR ''1'')),
     as_time_Parse = (\<lambda>s. Some (if has_prefix s ''-'' then - int (length s - 1) else int (length s))),
     as_text = (\<lambda>e. []), as_pattern_text = (\<lambda>e. []), as_envelope_text = (\<lambda>e. [])\<rparr>"

definition eleven :: string where "eleven = replicate 11 (CHR ''x'')"

definition alice_token :: string where "alice_token = ''Bearer alice''"

lemma demo_revocation_all:
  "(map cred_Enabled (db_credentials (tables (snd (run_state
     (admin_serve demo_oidc 7 (Some ''https://id.example.com/'') demo_admin alice_token None (PostCredentialRevoke eleven) demo_verifier) cred_world)))) = [False]) \<and>
   (map al_Action (snd (fst (fst (run_state
     (admin_serve demo_oidc 7 (Some ''https://id.example.com/'') demo_admin alice_token None (PostCredentialRevoke eleven) demo_verifier) cred_world)))) = [''credential revoked''])"
  by code_simp

lemmas demo_revocation =
  demo_revocation_all [THEN conjunct1]
  demo_revocation_all [THEN conjunct2]

lemma demo_provider: "case Some ''https://id.example.com/'' of None \<Rightarrow> True | Some p \<Rightarrow> ol_provider_issuer demo_oidc p = aa_Issuer demo_oidc_config"
  by (simp add: demo_oidc_def demo_oidc_config_def)

theorem only_admins_change_anything_witness:
  "\<exists>rp v' w' token t. run_state (admin_serve demo_oidc 7 (Some ''https://id.example.com/'') demo_admin alice_token None (PostCredentialRevoke eleven) demo_verifier) cred_world
       = ((rp, v'), w') \<and> tables w' \<noteq> tables cred_world \<and> bearerValue alice_token = Some token \<and>
     issued_for demo_oidc demo_oidc_config 7 (trim_space token) t \<and> in_group demo_oidc (token_groups demo_oidc_config t) (admin_group demo_oidc_config)"
proof -
  obtain rp v' w' where r: "run_state (admin_serve demo_oidc 7 (Some ''https://id.example.com/'') demo_admin alice_token None
      (PostCredentialRevoke eleven) demo_verifier) cred_world = ((rp, v'), w')" by (metis surj_pair)
  have "map cred_Enabled (db_credentials (tables w')) = [False]" using demo_revocation(1) r by simp
  then have c: "tables w' \<noteq> tables cred_world" by (auto simp: cred_db_def demo_cred_def)
  from only_admins_change_anything [OF demo_oidc_lawful verifier_reach.fresh [OF demo_verifier_new] demo_provider _ r c] r c show ?thesis by fastforce
qed

theorem changes_are_in_the_trail_witness:
  "\<exists>resp ls v' w' line. run_state (admin_serve demo_oidc 7 (Some ''https://id.example.com/'') demo_admin alice_token None (PostCredentialRevoke eleven) demo_verifier) cred_world
       = (((resp, ls), v'), w') \<and> tables w' \<noteq> tables cred_world \<and> ls = [line] \<and> al_Action line = ''credential revoked'' \<and> al_Role line = RoleAdmin"
proof -
  obtain resp ls v' w' where r: "run_state (admin_serve demo_oidc 7 (Some ''https://id.example.com/'') demo_admin alice_token None
      (PostCredentialRevoke eleven) demo_verifier) cred_world = (((resp, ls), v'), w')" by (metis surj_pair)
  have "map cred_Enabled (db_credentials (tables w')) = [False]" "map al_Action ls = [''credential revoked'']" using demo_revocation r by simp_all
  then have c: "tables w' \<noteq> tables cred_world" "ls \<noteq> []" "map al_Action ls = [''credential revoked'']" by (auto simp: cred_db_def demo_cred_def)
  have "db_inv (st_lower (as_store demo_admin)) (tables cred_world)" using cred_db_inv by (simp add: demo_admin_def)
  from changes_are_in_the_trail [OF _ this r] c r show ?thesis by auto
qed

end
