(* ===== verification/Admin_Pages.thy ===== *)
theory Admin_Pages
  imports Admin_Facts
begin

text \<open>
  The pages of the admin message list (\<^verbatim>\<open>handleListMessages\<close> of \<^verbatim>\<open>src/internal/httpapi/admin_handlers.go\<close>): a client that follows
  the cursors (\<open>all_pages\<close>) sees every selected message exactly once, newest first, and comes to an end.
\<close>

section \<open>Cutting a sorted list at a key\<close>

lemma filter_beyond_key:
  assumes "sorted_wrt (\<lambda>a b. f a < f b) xs" "0 < k" "k \<le> length xs"
  shows "filter (\<lambda>a. (f (xs ! (k - 1)) :: 'b :: linorder) < f a) xs = drop k xs"
proof -
  have "filter (\<lambda>a. f (xs ! (k - 1)) < f a) (take k xs) = []"
  proof -
    have "\<not> f (xs ! (k - 1)) < f (xs ! j)" if "j < k" for j
    proof (cases "j = k - 1")
      case False
      with that have "j < k - 1" "k - 1 < length xs" using assms(2,3) by linarith+
      from sorted_wrt_nth_less [OF assms(1) this] show ?thesis by simp
    qed simp
    then show ?thesis using assms(3) by (auto simp: filter_empty_conv in_set_conv_nth)
  qed
  moreover have "filter (\<lambda>a. f (xs ! (k - 1)) < f a) (drop k xs) = drop k xs"
  proof -
    have "f (xs ! (k - 1)) < f (xs ! (k + j))" if "k + j < length xs" for j
      using sorted_wrt_nth_less [OF assms(1), of "k - 1" "k + j"] assms(2) that by auto
    then show ?thesis by (auto simp: filter_id_conv in_set_conv_nth)
  qed
  ultimately show ?thesis by (metis append_Nil append_take_drop_id filter_append)
qed

lemma strictly_sorted:
  assumes "distinct (map f xs)"
  shows "sorted_wrt (\<lambda>a b. f a < (f b :: 'b :: linorder)) (sort_key f xs)"
proof -
  have "distinct (map f (sort_key f xs))" by (metis assms distinct_map distinct_sort set_sort)
  moreover have "sorted (map f (sort_key f xs))" by simp
  ultimately have "sorted_wrt (<) (map f (sort_key f xs))" by (simp add: strict_sorted_iff)
  then show ?thesis by (simp add: sorted_wrt_map)
qed

section \<open>One page\<close>

text \<open>The rows a query selects, in the order of the list, without its cursor.\<close>

definition selection :: "admin_server \<Rightarrow> messages_query \<Rightarrow> uuid \<Rightarrow> db \<Rightarrow> EmailMessage list" where
  "selection srv q cred d = sort_key page_key (filter (\<lambda>m.
     (trim_space (mq_status q) = [] \<or> trim_space (mq_status q) = msg_Status m) \<and> (cred = uuid_Nil \<or> msg_CredentialID m = Some cred)) (db_messages d))"

definition at_row :: "admin_server \<Rightarrow> messages_query \<Rightarrow> EmailMessage list \<Rightarrow> nat \<Rightarrow> messages_query" where
  "at_row srv q rows k = q\<lparr>mq_cursor := (if k = 0 then [] else encodeCursor srv (msg_CreatedAt (rows ! (k - 1))) (msg_ID (rows ! (k - 1))))\<rparr>"

lemma cursor_text:
  "trim_space (encodeCursor srv t i) = encodeCursor srv t i" "encodeCursor srv t i \<noteq> []"
proof -
  have "list_all (\<lambda>c. is_ascii c \<and> \<not> ascii_space c) (pad_char # url_alphabet)" by code_simp
  then have "list_all (\<lambda>c. is_ascii c \<and> \<not> ascii_space c) (encodeCursor srv t i)"
    using set_b64_encode [OF alphabets(2), of False "as_rfc3339Nano srv t @ [cursor_sep] @ as_uuid srv i"]
    unfolding encodeCursor_def list_all_iff by auto
  then show "trim_space (encodeCursor srv t i) = encodeCursor srv t i" by (rule trim_space_all_id)
  show "encodeCursor srv t i \<noteq> []" by (simp add: encodeCursor_def b64_encode_Nil)
qed

lemma page_rows:
  assumes "cursor_lawful srv" "distinct (map msg_ID (db_messages d))" "\<And>m. m \<in> set (db_messages d) \<Longrightarrow> msg_CreatedAt m \<noteq> zero_time"
    and "k \<le> length (selection srv q cred d)" "0 < limit"
  shows "\<exists>before beforeID. cursor_filter srv (at_row srv q (selection srv q cred d) k) = Inr (before, beforeID) \<and>
    fst (Queries_ListEmailMessages (list_params \<lparr>mf_Status = trim_space (mq_status q), mf_CredentialID = cred, mf_Limit = limit,
      mf_BeforeCreatedAt = before, mf_BeforeID = beforeID\<rparr>) d) = Inr (map (with_names d) (take (nat limit) (drop k (selection srv q cred d))))"
proof -
  let ?P = "\<lambda>m. (trim_space (mq_status q) = [] \<or> trim_space (mq_status q) = msg_Status m) \<and> (cred = uuid_Nil \<or> msg_CredentialID m = Some cred)"
  define S where "S = selection srv q cred d"
  have S: "S = sort_key page_key (filter ?P (db_messages d))" by (simp add: S_def selection_def)
  have inj: "inj_on page_key (set (db_messages d))"
  proof (rule inj_onI)
    fix a b assume "a \<in> set (db_messages d)" "b \<in> set (db_messages d)" "page_key a = page_key b"
    then have "uint (msg_ID a) = uint (msg_ID b)" by (simp add: page_key_def)
    then have "msg_ID a = msg_ID b" by (rule unsigned_word_eqI)
    with assms(2) \<open>a \<in> _\<close> \<open>b \<in> _\<close> show "a = b" by (simp add: distinct_map inj_on_def)
  qed
  have "distinct (map page_key (filter ?P (db_messages d)))"
    using inj assms(2) by (auto simp: distinct_map intro: inj_on_subset)
  then have sorted: "sorted_wrt (\<lambda>a b. page_key a < page_key b) S" unfolding S by (rule strictly_sorted)
  show ?thesis
  proof (cases "k = 0")
    case True
    have "message_selected (list_params \<lparr>mf_Status = trim_space (mq_status q), mf_CredentialID = cred, mf_Limit = limit,
        mf_BeforeCreatedAt = None, mf_BeforeID = uuid_Nil\<rparr>) = ?P"
      by (auto simp: fun_eq_iff message_selected_def list_params_def before_cursor_def)
    with True assms(5) S show ?thesis
      by (simp add: cursor_filter_def at_row_def Queries_ListEmailMessages_def list_params_def S_def [symmetric])
  next
    case False
    define c where "c = S ! (k - 1)"
    have "c \<in> set S" using False assms(4) by (simp add: c_def S_def)
    then have "msg_CreatedAt c \<noteq> zero_time" using assms(3) [of c] by (auto simp: S)
    then have f: "cursor_filter srv (at_row srv q S k) = Inr (Some (msg_CreatedAt c), msg_ID c)"
      using False by (simp add: cursor_filter_def at_row_def cursor_text decode_encodeCursor [OF assms(1)] c_def)
    have lt: "page_key c < page_key m \<longleftrightarrow> msg_CreatedAt m < msg_CreatedAt c \<or> (msg_CreatedAt m = msg_CreatedAt c \<and> msg_ID m < msg_ID c)" for m
      by (auto simp: page_key_def less_prod_def word_less_def)
    have sel: "message_selected (list_params \<lparr>mf_Status = trim_space (mq_status q), mf_CredentialID = cred, mf_Limit = limit,
        mf_BeforeCreatedAt = Some (msg_CreatedAt c), mf_BeforeID = msg_ID c\<rparr>) = (\<lambda>m. page_key c < page_key m \<and> ?P m)"
      by (auto simp: fun_eq_iff message_selected_def list_params_def before_cursor_def lt)
    have "sort_key page_key (filter (\<lambda>m. page_key c < page_key m \<and> ?P m) (db_messages d)) = filter (\<lambda>m. page_key c < page_key m) S"
      unfolding S filter_sort by (simp add: conj_commute)
    also have "\<dots> = drop k S" unfolding c_def using sorted False assms(4) by (intro filter_beyond_key) (auto simp: S_def)
    finally show ?thesis
      using f sel assms(5) unfolding S_def [symmetric] by (auto simp: Queries_ListEmailMessages_def list_params_def)
  qed
qed

lemma run_page:
  assumes "quiet w" "cursor_lawful srv" "distinct (map msg_ID (db_messages (tables w)))"
    and "\<And>m. m \<in> set (db_messages (tables w)) \<Longrightarrow> msg_CreatedAt m \<noteq> zero_time"
    and "credential_filter srv q = Inr cred" "k \<le> length (selection srv q cred (tables w))"
    and "0 < pageLimit srv (mq_limit q)"
  defines "rows \<equiv> map (with_names (tables w)) (take (nat (pageLimit srv (mq_limit q))) (drop k (selection srv q cred (tables w))))"
  shows "run_state (handleListMessages srv (at_row srv q (selection srv q cred (tables w)) k)) w =
    ((json 200 (AdminMessagesBody (map (newAdminMessageResponse srv) rows) (next_cursor srv (pageLimit srv (mq_limit q)) rows)), []), w\<lparr>ids := tl (ids w)\<rparr>)"
proof -
  let ?q = "at_row srv q (selection srv q cred (tables w)) k"
  have q: "mq_status ?q = mq_status q" "mq_limit ?q = mq_limit q" "credential_filter srv ?q = Inr cred"
    using assms(5) by (simp_all add: at_row_def credential_filter_def)
  obtain before beforeID where b: "cursor_filter srv ?q = Inr (before, beforeID)"
    "fst (Queries_ListEmailMessages (list_params \<lparr>mf_Status = trim_space (mq_status q), mf_CredentialID = cred, mf_Limit = pageLimit srv (mq_limit q),
      mf_BeforeCreatedAt = before, mf_BeforeID = beforeID\<rparr>) (tables w)) = Inr rows"
    using page_rows [OF assms(2-4,6,7)] unfolding rows_def by blast
  obtain r d where l: "Queries_ListEmailMessages (list_params \<lparr>mf_Status = trim_space (mq_status q), mf_CredentialID = cred, mf_Limit = pageLimit srv (mq_limit q),
      mf_BeforeCreatedAt = before, mf_BeforeID = beforeID\<rparr>) (tables w) = (r, d)" by fastforce
  then have "d = tables w" "r = Inr rows" using b(2) by (auto simp: Queries_ListEmailMessages_def split: if_splits)
  with l q b(1) show ?thesis
    by (simp add: handleListMessages_def or_answer_def or_fail_def ListMessages_def orelse_run run_exec_quiet [OF assms(1)] Let_def)
qed

section \<open>All pages\<close>

text \<open>A client that asks for at most \<open>n\<close> pages, following the cursor of each.\<close>

fun all_pages :: "admin_server \<Rightarrow> messages_query \<Rightarrow> nat \<Rightarrow> messageResponseAdmin list option prog" where
  "all_pages srv q 0 = ret None"
| "all_pages srv q (Suc n) = do {
     (resp, _) \<leftarrow> handleListMessages srv q;
     case rs_Body resp of
       JsonBody (AdminMessagesBody rows next) \<Rightarrow>
         if next = [] then ret (Some rows)
         else do { rest \<leftarrow> all_pages srv (q\<lparr>mq_cursor := next\<rparr>) n; ret (map_option (\<lambda>r. rows @ r) rest) }
     | _ \<Rightarrow> ret None }"

lemma next_cursor_page:
  assumes "0 < limit" "limit < 2 ^ 31" "k \<le> length S"
  shows "next_cursor srv limit (map (with_names d) (take (nat limit) (drop k S))) =
    (if nat limit \<le> length S - k then encodeCursor srv (msg_CreatedAt (S ! (k + nat limit - 1))) (msg_ID (S ! (k + nat limit - 1))) else [])"
proof -
  define n where "n = min (nat limit) (length S - k)"
  have "to_int32 (int n) = int n"
    using assms(1,2) by (intro to_int32_id) (auto simp: n_def)
  moreover have "int n = limit \<longleftrightarrow> nat limit \<le> length S - k" using assms(1) by (auto simp: n_def)
  moreover have "last (map (with_names d) (take (nat limit) (drop k S))) = with_names d (S ! (k + nat limit - 1))" if "nat limit \<le> length S - k"
  proof -
    have "take (nat limit) (drop k S) \<noteq> []" using that assms(1) by auto
    then show ?thesis using that assms(1,3) by (simp add: last_map last_conv_nth nth_append min_def)
  qed
  ultimately show ?thesis
    using assms(1) by (auto simp: next_cursor_def n_def with_names_def)
qed

lemma pages_from:
  assumes "quiet w" "tables w = d" "cursor_lawful srv" "distinct (map msg_ID (db_messages d))"
    and "\<And>m. m \<in> set (db_messages d) \<Longrightarrow> msg_CreatedAt m \<noteq> zero_time"
    and "credential_filter srv q = Inr cred" "k \<le> length (selection srv q cred d)"
    and "0 < pageLimit srv (mq_limit q)" "pageLimit srv (mq_limit q) < 2 ^ 31" "length (selection srv q cred d) - k < n"
  shows "fst (run_state (all_pages srv (at_row srv q (selection srv q cred d) k) n) w) =
    Some (map (newAdminMessageResponse srv \<circ> with_names d) (drop k (selection srv q cred d)))"
  using assms(1,2,7,10)
proof (induction n arbitrary: w k)
  case (Suc n)
  define S where "S = selection srv q cred d"
  define limit where "limit = pageLimit srv (mq_limit q)"
  define page where "page = map (with_names d) (take (nat limit) (drop k S))"
  have k: "k \<le> length S" using Suc.prems(3) by (simp add: S_def)
  have run: "run_state (handleListMessages srv (at_row srv q S k)) w =
      ((json 200 (AdminMessagesBody (map (newAdminMessageResponse srv) page) (next_cursor srv limit page)), []), w\<lparr>ids := tl (ids w)\<rparr>)"
    using run_page [of w srv q cred k] Suc.prems assms(3-6,8) by (simp add: S_def limit_def page_def)
  have nc: "next_cursor srv limit page = (if nat limit \<le> length S - k then mq_cursor (at_row srv q S (k + nat limit)) else [])"
    using next_cursor_page [of limit k S srv d] assms(8,9) k by (simp add: page_def limit_def at_row_def)
  show ?case
  proof (cases "nat limit \<le> length S - k")
    case True
    have l: "0 < nat limit" using assms(8) by (simp add: limit_def)
    have q: "(at_row srv q S k)\<lparr>mq_cursor := mq_cursor (at_row srv q S (k + nat limit))\<rparr> = at_row srv q S (k + nat limit)"
      by (simp add: at_row_def)
    have ne: "mq_cursor (at_row srv q S (k + nat limit)) \<noteq> []" using l by (simp add: at_row_def cursor_text)
    obtain rest w2 where rest: "run_state (all_pages srv (at_row srv q S (k + nat limit)) n) (w\<lparr>ids := tl (ids w)\<rparr>) = (rest, w2)" by fastforce
    have "fst (run_state (all_pages srv (at_row srv q S (k + nat limit)) n) (w\<lparr>ids := tl (ids w)\<rparr>)) =
        Some (map (newAdminMessageResponse srv \<circ> with_names d) (drop (k + nat limit) S))"
      unfolding S_def by (rule Suc.IH) (use Suc.prems True l k in \<open>auto simp: S_def\<close>)
    moreover have "map (newAdminMessageResponse srv) page @ map (newAdminMessageResponse srv \<circ> with_names d) (drop (k + nat limit) S) =
        map (newAdminMessageResponse srv \<circ> with_names d) (drop k S)"
      using arg_cong [OF append_take_drop_id [of "nat limit" "drop k S"], of "map (newAdminMessageResponse srv \<circ> with_names d)"]
      by (simp add: page_def add.commute)
    ultimately show ?thesis
      unfolding S_def [symmetric] using run nc True ne q rest by (simp add: json_def writeJSON_def)
  next
    case False
    then have "page = map (with_names d) (drop k S)" by (simp add: page_def)
    with run nc False show ?thesis unfolding S_def [symmetric] by (simp add: json_def writeJSON_def)
  qed
qed simp

text \<open>
  C33: A client that starts the message list without a cursor and follows the cursors it is given gets, after at most one page more
  than there are messages, every message the query selects, each exactly once and newest first, whatever page size it asks for.
\<close>

theorem message_pages_complete:
  assumes "quiet w" "cursor_lawful srv" "db_inv lower (tables w)" "\<And>m. m \<in> set (db_messages (tables w)) \<Longrightarrow> msg_CreatedAt m \<noteq> zero_time"
    and "NewAdminServer a b c opts = Inr srv" "as_maxPageSize srv < 2 ^ 31"
    and "credential_filter srv q = Inr cred" "mq_cursor q = []" "length (db_messages (tables w)) < n"
  shows "fst (run_state (all_pages srv q n) w) =
    Some (map (newAdminMessageResponse srv \<circ> with_names (tables w)) (selection srv q cred (tables w)))"
proof -
  have "distinct (map msg_ID (db_messages (tables w)))"
    using assms(3) by (simp add: db_inv_def table_ok_iff message_schema_def distinct_sorted_wrt)
  moreover have "0 < pageLimit srv (mq_limit q)" "pageLimit srv (mq_limit q) < 2 ^ 31"
    using pageLimit_bounds [of srv "mq_limit q"] newAdminServer_sizes [OF assms(5)] assms(6) by auto
  moreover have "length (selection srv q cred (tables w)) \<le> length (db_messages (tables w))" by (simp add: selection_def)
  then have "length (selection srv q cred (tables w)) - 0 < n" using assms(9) by simp
  moreover have "at_row srv q (selection srv q cred (tables w)) 0 = q" using assms(8) by (simp add: at_row_def)
  ultimately show ?thesis using pages_from [of w "tables w" srv q cred 0 n] assms(1,2,4,7) by simp
qed

section \<open>Witness\<close>

lemma demo_cursor_lawful: "cursor_lawful demo_admin"
proof -
  have "replicate n (CHR ''1'') \<noteq> CHR ''-'' # r" for n r by (cases n) auto
  then show ?thesis by (auto simp: cursor_lawful_def demo_admin_def has_prefix_iff)
qed

definition later_row :: EmailMessage where
  "later_row = demo_row\<lparr>msg_ID := 42, msg_IdempotencyKey := None, msg_CreatedAt := 950\<rparr>"

definition pages_world :: world where
  "pages_world = queued_world\<lparr>tables := (tables queued_world)\<lparr>db_messages := [demo_row, later_row]\<rparr>\<rparr>"

definition plain_query :: messages_query where
  "plain_query = \<lparr>mq_status = [], mq_credential_id = [], mq_cursor = [], mq_limit = []\<rparr>"

lemma pages_rows:
  "(db_inv (st_lower demo_store) (tables pages_world)) \<and>
   (map msg_ID (selection demo_admin plain_query uuid_Nil (tables pages_world)) = [42, 41])"
  by code_simp

lemmas pages_world_inv = pages_rows [THEN conjunct1]
lemmas pages_selection = pages_rows [THEN conjunct2]

theorem message_pages_complete_witness:
  "\<exists>rows. fst (run_state (all_pages demo_admin plain_query 3) pages_world) = Some rows \<and> map mra_ID rows = map (as_uuid demo_admin) [42, 41]"
proof -
  have q: "quiet pages_world" "db_messages (tables pages_world) = [demo_row, later_row]" by (simp_all add: pages_world_def)
  have t: "\<And>m. m \<in> set (db_messages (tables pages_world)) \<Longrightarrow> msg_CreatedAt m \<noteq> zero_time"
    by (auto simp: q(2) later_row_def demo_row_def new_message_def zero_time_def)
  have s: "NewAdminServer True True True demo_admin = Inr demo_admin" "as_maxPageSize demo_admin < 2 ^ 31"
    by (simp_all add: NewAdminServer_def demo_admin_def)
  have c: "credential_filter demo_admin plain_query = Inr uuid_Nil" "mq_cursor plain_query = []" "length (db_messages (tables pages_world)) < 3"
    by (simp_all add: credential_filter_def plain_query_def q(2))
  have "map mra_ID (map (newAdminMessageResponse demo_admin \<circ> with_names (tables pages_world)) (selection demo_admin plain_query uuid_Nil (tables pages_world))) =
      map (as_uuid demo_admin) (map msg_ID (selection demo_admin plain_query uuid_Nil (tables pages_world)))"
    by (simp add: newAdminMessageResponse_def with_names_def)
  with message_pages_complete [OF q(1) demo_cursor_lawful pages_world_inv t s c] show ?thesis
    unfolding pages_selection by simp
qed

end
