(* ===== verification/Configuration.thy ===== *)
theory Configuration
  imports Complex_Main Relais_Prelude
begin

text \<open>
  The configuration of a process: \<^verbatim>\<open>src/internal/config/config.go\<close>, with its structs as records, the defaults of their
  \<^verbatim>\<open>env\<close> tags, the clean-up after parsing and the checks. The parser of the environment is a library (\<^verbatim>\<open>caarlos0/env\<close>) and
  a parameter. Durations are nanoseconds, 64-bit floats are rationals. An error is its kind with the values its text quotes, and
  \<^verbatim>\<open>errors.Join\<close> is the list of the errors, empty for nil.
\<close>

section \<open>Settings\<close>

abbreviation second :: int where "second \<equiv> 1000000000"
abbreviation minute :: int where "minute \<equiv> 60 * second"
abbreviation hour :: int where "hour \<equiv> 3600 * second"

record Database_Config =
  dbc_URL :: string
  dbc_MaxConns :: int
  dbc_MinConns :: int
  dbc_MaxConnLifetime :: int
  dbc_MaxConnIdleTime :: int
  dbc_ConnectTimeout :: int
  dbc_StatementCacheMode :: string

record HTTP_Config =
  htc_Enabled :: bool
  htc_Addr :: string
  htc_ReadHeaderTimeout :: int
  htc_ReadTimeout :: int
  htc_WriteTimeout :: int
  htc_IdleTimeout :: int
  htc_ShutdownTimeout :: int
  htc_TrustedProxyHeader :: string

record Admin_Config =
  adc_Enabled :: bool
  adc_Addr :: string
  adc_ReadHeaderTimeout :: int
  adc_ReadTimeout :: int
  adc_WriteTimeout :: int
  adc_IdleTimeout :: int
  adc_ShutdownTimeout :: int
  adc_MaxRequestBytes :: int
  adc_TrustedProxyHeader :: string
  adc_PageSize :: int
  adc_MaxPageSize :: int

record SMTP_Config =
  smc_Enabled :: bool
  smc_Addr :: string
  smc_TLSAddr :: string
  smc_Domain :: string
  smc_ReadTimeout :: int
  smc_WriteTimeout :: int
  smc_ShutdownTimeout :: int
  smc_MaxConnections :: int

record TLS_Config =
  tlc_CertFile :: string
  tlc_KeyFile :: string
  tlc_SelfSigned :: bool
  tlc_SelfSignedAllowInProd :: bool
  tlc_SelfSignedHosts :: "string list"
  tlc_SelfSignedValidity :: int
  tlc_SelfSignedDir :: string
  tlc_MinVersion :: string
  tlc_WatchInterval :: int

record Worker_Config =
  wkc_Enabled :: bool
  wkc_Count :: int
  wkc_ShutdownTimeout :: int
  wkc_MaxAttempts :: int
  wkc_JobTimeout :: int

record Sender_Config =
  snc_Timeout :: int
  snc_HeloName :: string
  snc_MinTLSVersion :: string
  snc_InsecureVerifyExemptHosts :: "string list"

record Secrets_Config =
  sec_EncryptionKeys :: string
  sec_EncryptionActiveKey :: string
  sec_CredentialPepper :: string

record RateLimit_Config =
  rlc_RPS :: rat
  rlc_Burst :: int
  rlc_RejectedRPS :: rat
  rlc_RejectedBurst :: int
  rlc_MaxCredentials :: int

record Retention_Config =
  rtc_Sent :: int
  rtc_Failed :: int
  rtc_Interval :: int
  rtc_IdempotencyTTL :: int

record OIDC_Config =
  oic_Issuer :: string
  oic_Audience :: string
  oic_JWKSURL :: string
  oic_DiscoveryTimeout :: int
  oic_DiscoveryRetryAfter :: int
  oic_GroupsClaim :: string
  oic_AdminGroup :: string
  oic_ViewerGroup :: string

record Obs_Config =
  obc_LogLevel :: string
  obc_LogFormat :: string
  obc_OTLPEndpoint :: string
  obc_OTLPHeaders :: "(string \<times> string) list"
  obc_OTLPTimeout :: int
  obc_TracesEnabled :: bool
  obc_TracesSampling :: rat

record Limits_Config =
  lmc_MaxMessageBytes :: int
  lmc_MaxRequestBytes :: int
  lmc_MaxRecipients :: int
  lmc_MaxHeaderCount :: int
  lmc_MaxHeaderBytes :: int

record Service_Config =
  cf_Env :: string
  cf_ServiceName :: string
  cf_Database :: Database_Config
  cf_HTTP :: HTTP_Config
  cf_Admin :: Admin_Config
  cf_SMTP :: SMTP_Config
  cf_TLS :: TLS_Config
  cf_Worker :: Worker_Config
  cf_Sender :: Sender_Config
  cf_Secrets :: Secrets_Config
  cf_RateLimit :: RateLimit_Config
  cf_Retention :: Retention_Config
  cf_OIDC :: OIDC_Config
  cf_Obs :: Obs_Config
  cf_Limits :: Limits_Config

section \<open>Defaults\<close>

text \<open>The \<^verbatim>\<open>envDefault\<close> tags, one group per struct: what the parser gives for variables that are not set.\<close>

definition default_Database :: Database_Config where
  "default_Database = \<lparr>dbc_URL = [], dbc_MaxConns = 10, dbc_MinConns = 0, dbc_MaxConnLifetime = hour,
     dbc_MaxConnIdleTime = 30 * minute, dbc_ConnectTimeout = 10 * second, dbc_StatementCacheMode = ''prepare''\<rparr>"

definition default_HTTP :: HTTP_Config where
  "default_HTTP = \<lparr>htc_Enabled = True, htc_Addr = '':8080'', htc_ReadHeaderTimeout = 10 * second, htc_ReadTimeout = 60 * second,
     htc_WriteTimeout = 60 * second, htc_IdleTimeout = 120 * second, htc_ShutdownTimeout = 20 * second, htc_TrustedProxyHeader = []\<rparr>"

definition default_Admin :: Admin_Config where
  "default_Admin = \<lparr>adc_Enabled = True, adc_Addr = '':8081'', adc_ReadHeaderTimeout = 10 * second, adc_ReadTimeout = 30 * second,
     adc_WriteTimeout = 30 * second, adc_IdleTimeout = 120 * second, adc_ShutdownTimeout = 20 * second,
     adc_MaxRequestBytes = 1048576, adc_TrustedProxyHeader = [], adc_PageSize = 50, adc_MaxPageSize = 200\<rparr>"

definition default_SMTP :: SMTP_Config where
  "default_SMTP = \<lparr>smc_Enabled = True, smc_Addr = '':587'', smc_TLSAddr = [], smc_Domain = [], smc_ReadTimeout = minute,
     smc_WriteTimeout = minute, smc_ShutdownTimeout = 20 * second, smc_MaxConnections = 100\<rparr>"

definition default_TLS :: TLS_Config where
  "default_TLS = \<lparr>tlc_CertFile = [], tlc_KeyFile = [], tlc_SelfSigned = False, tlc_SelfSignedAllowInProd = False,
     tlc_SelfSignedHosts = [''localhost'', ''127.0.0.1'', ''::1''], tlc_SelfSignedValidity = 8760 * hour, tlc_SelfSignedDir = [],
     tlc_MinVersion = ''1.2'', tlc_WatchInterval = 30 * second\<rparr>"

definition default_Worker :: Worker_Config where
  "default_Worker = \<lparr>wkc_Enabled = True, wkc_Count = 5, wkc_ShutdownTimeout = 30 * second, wkc_MaxAttempts = 8, wkc_JobTimeout = 2 * minute\<rparr>"

definition default_Sender :: Sender_Config where
  "default_Sender = \<lparr>snc_Timeout = 2 * minute, snc_HeloName = [], snc_MinTLSVersion = ''1.2'', snc_InsecureVerifyExemptHosts = []\<rparr>"

definition default_Secrets :: Secrets_Config where
  "default_Secrets = \<lparr>sec_EncryptionKeys = [], sec_EncryptionActiveKey = [], sec_CredentialPepper = []\<rparr>"

definition default_RateLimit :: RateLimit_Config where
  "default_RateLimit = \<lparr>rlc_RPS = 10, rlc_Burst = 20, rlc_RejectedRPS = 1, rlc_RejectedBurst = 10, rlc_MaxCredentials = 10000\<rparr>"

definition default_Retention :: Retention_Config where
  "default_Retention = \<lparr>rtc_Sent = 24 * hour, rtc_Failed = 168 * hour, rtc_Interval = hour, rtc_IdempotencyTTL = 24 * hour\<rparr>"

definition default_OIDC :: OIDC_Config where
  "default_OIDC = \<lparr>oic_Issuer = [], oic_Audience = [], oic_JWKSURL = [], oic_DiscoveryTimeout = 10 * second,
     oic_DiscoveryRetryAfter = 15 * second, oic_GroupsClaim = ''groups'', oic_AdminGroup = ''relais-admin'', oic_ViewerGroup = ''relais-viewer''\<rparr>"

definition default_Obs :: Obs_Config where
  "default_Obs = \<lparr>obc_LogLevel = ''info'', obc_LogFormat = ''json'', obc_OTLPEndpoint = [], obc_OTLPHeaders = [],
     obc_OTLPTimeout = 10 * second, obc_TracesEnabled = True, obc_TracesSampling = 1\<rparr>"

definition default_Limits :: Limits_Config where
  "default_Limits = \<lparr>lmc_MaxMessageBytes = 10485760, lmc_MaxRequestBytes = 15728640, lmc_MaxRecipients = 50,
     lmc_MaxHeaderCount = 200, lmc_MaxHeaderBytes = 131072\<rparr>"

definition default_Config :: Service_Config where
  "default_Config = \<lparr>cf_Env = ''prod'', cf_ServiceName = ''relais'', cf_Database = default_Database, cf_HTTP = default_HTTP,
     cf_Admin = default_Admin, cf_SMTP = default_SMTP, cf_TLS = default_TLS, cf_Worker = default_Worker, cf_Sender = default_Sender,
     cf_Secrets = default_Secrets, cf_RateLimit = default_RateLimit, cf_Retention = default_Retention, cf_OIDC = default_OIDC,
     cf_Obs = default_Obs, cf_Limits = default_Limits\<rparr>"

lemmas config_defaults = default_Config_def default_Database_def default_HTTP_def default_Admin_def default_SMTP_def default_TLS_def
  default_Worker_def default_Sender_def default_Secrets_def default_RateLimit_def default_Retention_def default_OIDC_def
  default_Obs_def default_Limits_def

section \<open>Errors\<close>

datatype config_error =
    ParseEnvironment string
  | WantLogLevel string | WantLogFormat string | WantSampling rat | WantEndpointURL string
  | WantTLSVersion string | WantSenderTLSVersion string | WantSenderTimeout
  | WantMaxMessageBytes | RequestBelowMessage int int | WantMaxRecipients
  | WantRPS | WantBurst | WantPurgeInterval
  | NeedDatabaseURL | WantMaxConns | WantMinConns | WantCacheMode string
  | NeedPepper | NeedKeyring
  | NothingToRun | AdminSharesAddr | WantWorkerCount | WantMaxAttempts | NeedAudience
  | NeedKeyFile | NeedCertFile | TwoCertificateSources | NeedCertificate | SelfSignedInProd string | NeedSelfSignedHosts

section \<open>Operations\<close>

text \<open>\<^verbatim>\<open>strings.TrimRight\<close> with a cutset of ASCII characters.\<close>

definition trim_right_any :: "string \<Rightarrow> string \<Rightarrow> string" where
  "trim_right_any cutset s = rev (dropWhile (\<lambda>x. x \<in> set cutset) (rev s))"

text \<open>\<open>u\<close> lowers text that is not ASCII; \<open>hostname\<close> is the result of \<^verbatim>\<open>os.Hostname\<close>.\<close>

definition applyDefaults :: "(string \<Rightarrow> string) \<Rightarrow> string option \<Rightarrow> Service_Config \<Rightarrow> Service_Config" where
  "applyDefaults u hostname c =
     (let c1 = (if smc_Domain (cf_SMTP c) = []
                then c\<lparr>cf_SMTP := (cf_SMTP c)\<lparr>smc_Domain :=
                       (case hostname of Some h \<Rightarrow> if h \<noteq> [] then h else ''localhost'' | None \<Rightarrow> ''localhost'')\<rparr>\<rparr>
                else c)
      in c1\<lparr>cf_Env := trim_space (cf_Env c1),
            cf_Obs := (cf_Obs c1)\<lparr>obc_LogLevel := to_lower u (trim_space (obc_LogLevel (cf_Obs c1))),
                                  obc_LogFormat := to_lower u (trim_space (obc_LogFormat (cf_Obs c1))),
                                  obc_OTLPEndpoint := trim_right_any ''/'' (trim_space (obc_OTLPEndpoint (cf_Obs c1)))\<rparr>\<rparr>)"

definition IsProd :: "(string \<Rightarrow> string) \<Rightarrow> Service_Config \<Rightarrow> bool" where
  "IsProd u c \<longleftrightarrow> to_lower u (cf_Env c) \<in> {''prod'', ''production''}"

text \<open>\<open>check b e\<close> is \<^verbatim>\<open>if !b { errs = append(errs, e) }\<close>.\<close>

definition check :: "bool \<Rightarrow> config_error \<Rightarrow> config_error list" where
  "check b e = (if b then [] else [e])"

definition Validate :: "Service_Config \<Rightarrow> config_error list" where
  "Validate c =
     (let ob = cf_Obs c; lm = cf_Limits c in
      check (obc_LogLevel ob \<in> {''debug'', ''info'', ''warn'', ''error''}) (WantLogLevel (obc_LogLevel ob)) @
      check (obc_LogFormat ob \<in> {''json'', ''text''}) (WantLogFormat (obc_LogFormat ob)) @
      check (\<not> (obc_TracesSampling ob < 0 \<or> obc_TracesSampling ob > 1)) (WantSampling (obc_TracesSampling ob)) @
      check (\<not> (obc_OTLPEndpoint ob \<noteq> [] \<and> \<not> has_prefix (obc_OTLPEndpoint ob) ''http://'' \<and> \<not> has_prefix (obc_OTLPEndpoint ob) ''https://''))
        (WantEndpointURL (obc_OTLPEndpoint ob)) @
      check (tlc_MinVersion (cf_TLS c) \<in> {''1.2'', ''1.3''}) (WantTLSVersion (tlc_MinVersion (cf_TLS c))) @
      check (snc_MinTLSVersion (cf_Sender c) \<in> {''1.2'', ''1.3''}) (WantSenderTLSVersion (snc_MinTLSVersion (cf_Sender c))) @
      check (\<not> snc_Timeout (cf_Sender c) \<le> 0) WantSenderTimeout @
      check (\<not> lmc_MaxMessageBytes lm \<le> 0) WantMaxMessageBytes @
      check (\<not> lmc_MaxRequestBytes lm < lmc_MaxMessageBytes lm) (RequestBelowMessage (lmc_MaxRequestBytes lm) (lmc_MaxMessageBytes lm)) @
      check (\<not> lmc_MaxRecipients lm \<le> 0) WantMaxRecipients @
      check (\<not> rlc_RPS (cf_RateLimit c) \<le> 0) WantRPS @
      check (\<not> rlc_Burst (cf_RateLimit c) \<le> 0) WantBurst @
      check (\<not> rtc_Interval (cf_Retention c) \<le> 0) WantPurgeInterval)"

text \<open>
  \<open>parse\<close> is \<^verbatim>\<open>env.ParseWithOptions\<close> with the prefix \<^verbatim>\<open>RELAIS_\<close>: from a map that stands for the environment, or the real
  environment without one, to the struct it filled and the text of its error. \<^verbatim>\<open>Load\<close> is \<^verbatim>\<open>LoadFrom(nil)\<close>.
\<close>

definition LoadFrom ::
    "(string \<Rightarrow> string) \<Rightarrow> string option \<Rightarrow> ((string \<rightharpoonup> string) option \<Rightarrow> Service_Config \<times> string option) \<Rightarrow> (string \<rightharpoonup> string) option \<Rightarrow>
     Service_Config \<times> config_error list" where
  "LoadFrom u hostname parse overlay =
     (case parse overlay of
        (c, Some e) \<Rightarrow> (c, [ParseEnvironment e])
      | (c, None) \<Rightarrow> let c' = applyDefaults u hostname c in (c', Validate c'))"

definition Load ::
    "(string \<Rightarrow> string) \<Rightarrow> string option \<Rightarrow> ((string \<rightharpoonup> string) option \<Rightarrow> Service_Config \<times> string option) \<Rightarrow> Service_Config \<times> config_error list" where
  "Load u hostname parse = LoadFrom u hostname parse None"

definition RequireDatabase :: "Service_Config \<Rightarrow> config_error option" where
  "RequireDatabase c =
     (let d = cf_Database c in
      if trim_space (dbc_URL d) = [] then Some NeedDatabaseURL
      else if dbc_MaxConns d \<le> 0 then Some WantMaxConns
      else if dbc_MinConns d < 0 \<or> dbc_MinConns d > dbc_MaxConns d then Some WantMinConns
      else if dbc_StatementCacheMode d \<notin> {''prepare'', ''describe'', ''none''} then Some (WantCacheMode (dbc_StatementCacheMode d))
      else None)"

definition RequirePepper :: "Service_Config \<Rightarrow> config_error option" where
  "RequirePepper c = (if trim_space (sec_CredentialPepper (cf_Secrets c)) = [] then Some NeedPepper else None)"

definition RequireKeyring :: "Service_Config \<Rightarrow> config_error option" where
  "RequireKeyring c = (if trim_space (sec_EncryptionKeys (cf_Secrets c)) = [] then Some NeedKeyring else None)"

definition AdminEnabled :: "Service_Config \<Rightarrow> bool" where
  "AdminEnabled c \<longleftrightarrow> adc_Enabled (cf_Admin c) \<and> trim_space (oic_Issuer (cf_OIDC c)) \<noteq> []"

definition requireTLS :: "(string \<Rightarrow> string) \<Rightarrow> Service_Config \<Rightarrow> config_error option" where
  "requireTLS u c =
     (let t = cf_TLS c; hasFiles = (tlc_CertFile t \<noteq> [] \<and> tlc_KeyFile t \<noteq> []) in
      if tlc_CertFile t \<noteq> [] \<and> tlc_KeyFile t = [] then Some NeedKeyFile
      else if tlc_KeyFile t \<noteq> [] \<and> tlc_CertFile t = [] then Some NeedCertFile
      else if hasFiles \<and> tlc_SelfSigned t then Some TwoCertificateSources
      else if \<not> hasFiles \<and> \<not> tlc_SelfSigned t then Some NeedCertificate
      else if tlc_SelfSigned t \<and> IsProd u c \<and> \<not> tlc_SelfSignedAllowInProd t then Some (SelfSignedInProd (cf_Env c))
      else if tlc_SelfSigned t \<and> length (tlc_SelfSignedHosts t) = 0 then Some NeedSelfSignedHosts
      else None)"

abbreviation joined :: "config_error option \<Rightarrow> config_error list" where
  "joined e \<equiv> (case e of None \<Rightarrow> [] | Some x \<Rightarrow> [x])"

definition RequireServe :: "(string \<Rightarrow> string) \<Rightarrow> Service_Config \<Rightarrow> config_error list" where
  "RequireServe u c =
     joined (RequireDatabase c) @ joined (RequirePepper c) @ joined (RequireKeyring c) @
     check (\<not> (\<not> htc_Enabled (cf_HTTP c) \<and> \<not> smc_Enabled (cf_SMTP c) \<and> \<not> wkc_Enabled (cf_Worker c) \<and> \<not> AdminEnabled c)) NothingToRun @
     check (\<not> (adc_Enabled (cf_Admin c) \<and> oic_Issuer (cf_OIDC c) \<noteq> [] \<and> adc_Addr (cf_Admin c) = htc_Addr (cf_HTTP c))) AdminSharesAddr @
     (if wkc_Enabled (cf_Worker c)
      then check (\<not> wkc_Count (cf_Worker c) \<le> 0) WantWorkerCount @ check (\<not> wkc_MaxAttempts (cf_Worker c) \<le> 0) WantMaxAttempts
      else []) @
     (if smc_Enabled (cf_SMTP c) then joined (requireTLS u c) else []) @
     check (\<not> (AdminEnabled c \<and> oic_Audience (cf_OIDC c) = [])) NeedAudience"

section \<open>Lemmas\<close>

lemma check_Nil [simp]: "check b e = [] \<longleftrightarrow> b"
  by (simp add: check_def)

lemma joined_Nil [simp]: "joined e = [] \<longleftrightarrow> e = None"
  by (cases e) auto

text \<open>What every accepted configuration satisfies; the components that are built from it rest on these.\<close>

lemma Validate_Nil:
  assumes "Validate c = []"
  shows "tlc_MinVersion (cf_TLS c) \<in> {''1.2'', ''1.3''}" "snc_MinTLSVersion (cf_Sender c) \<in> {''1.2'', ''1.3''}"
    "0 < snc_Timeout (cf_Sender c)" "0 < lmc_MaxMessageBytes (cf_Limits c)" "0 < lmc_MaxRecipients (cf_Limits c)"
    "lmc_MaxMessageBytes (cf_Limits c) \<le> lmc_MaxRequestBytes (cf_Limits c)" "0 < rlc_RPS (cf_RateLimit c)" "0 < rlc_Burst (cf_RateLimit c)"
  using assms by (auto simp: Validate_def Let_def)

lemma requireTLS_None:
  assumes "requireTLS u c = None"
  shows "(tlc_CertFile (cf_TLS c) \<noteq> [] \<and> tlc_KeyFile (cf_TLS c) \<noteq> []) \<noteq> tlc_SelfSigned (cf_TLS c)"
    "tlc_SelfSigned (cf_TLS c) \<Longrightarrow> tlc_SelfSignedHosts (cf_TLS c) \<noteq> [] \<and> (tlc_SelfSignedAllowInProd (cf_TLS c) \<or> \<not> IsProd u c)"
  using assms by (auto simp: requireTLS_def Let_def split: if_splits)

lemma RequireServe_Nil:
  assumes "RequireServe u c = []"
  shows "RequireDatabase c = None" "RequirePepper c = None" "RequireKeyring c = None"
    "htc_Enabled (cf_HTTP c) \<or> smc_Enabled (cf_SMTP c) \<or> wkc_Enabled (cf_Worker c) \<or> AdminEnabled c"
    "AdminEnabled c \<Longrightarrow> adc_Addr (cf_Admin c) \<noteq> htc_Addr (cf_HTTP c) \<and> oic_Audience (cf_OIDC c) \<noteq> []"
    "smc_Enabled (cf_SMTP c) \<Longrightarrow> requireTLS u c = None"
    "wkc_Enabled (cf_Worker c) \<Longrightarrow> 0 < wkc_Count (cf_Worker c) \<and> 0 < wkc_MaxAttempts (cf_Worker c)"
  using assms by (auto simp: RequireServe_def AdminEnabled_def)

end
