(* ===== verification/Fallible.thy ===== *)
theory Fallible
  imports Relais_Prelude
begin

text \<open>
  Fallible code in sequence: the \<^verbatim>\<open>if err != nil { return err }\<close> of the commands, of the document generator and of the migrations.
\<close>

section \<open>Fallible code in sequence\<close>

definition and_then :: "('e, 'a) result \<Rightarrow> ('a \<Rightarrow> ('e, 'b) result) \<Rightarrow> ('e, 'b) result" where
  "and_then r f = (case r of Inl e \<Rightarrow> Inl e | Inr x \<Rightarrow> f x)"

definition fail_if :: "bool \<Rightarrow> 'e \<Rightarrow> ('e, unit) result" where
  "fail_if b e = (if b then Inl e else Inr ())"

definition error_or :: "('f \<Rightarrow> 'e) \<Rightarrow> 'f option \<Rightarrow> ('e, unit) result" where
  "error_or f e = (case e of Some x \<Rightarrow> Inl (f x) | None \<Rightarrow> Inr ())"

lemma and_then_Inr [simp]: "and_then r f = Inr y \<longleftrightarrow> (\<exists>x. r = Inr x \<and> f x = Inr y)"
  by (cases r) (auto simp: and_then_def)

lemma and_then_simps [simp]: "and_then (Inl e) f = Inl e" "and_then (Inr x) f = f x"
  by (simp_all add: and_then_def)

lemma fail_if_Inr [simp]: "fail_if b e = Inr u \<longleftrightarrow> \<not> b"
  by (simp add: fail_if_def)

lemma fail_if_simps [simp]: "fail_if False e = Inr ()" "fail_if True e = Inl e"
  by (simp_all add: fail_if_def)

lemma error_or_Inr [simp]: "error_or f e = Inr u \<longleftrightarrow> e = None"
  by (cases e) (auto simp: error_or_def)

lemma error_or_simps [simp]: "error_or f None = Inr ()" "error_or f (Some x) = Inl (f x)"
  by (simp_all add: error_or_def)

lemma map_err_Inr [simp]: "map_err f r = Inr x \<longleftrightarrow> r = Inr x"
  by (cases r) (auto simp: map_err_def)

lemma map_err_simps [simp]: "map_err f (Inl e) = Inl (f e)" "map_err f (Inr x) = Inr x"
  by (simp_all add: map_err_def)

end
