(* ===== verification/Cmd_Session.thy ===== *)
theory Cmd_Session
  imports Configuration Store_Core Fallible
begin

text \<open>
  What the commands share: \<^verbatim>\<open>loadConfig\<close> and \<^verbatim>\<open>openSession\<close> of \<^verbatim>\<open>src/cmd/relais/main.go\<close>, from the environment to an open store. The
  telemetry exporter and the connection pool are only known here by whether they could be set up; \<^verbatim>\<open>Session_Life\<close> computes both.
\<close>

section \<open>Sessions\<close>

record session_world =
  sx_lower :: "string \<Rightarrow> string"
  sx_hostname :: "string option"
  sx_parse :: "(string \<rightharpoonup> string) option \<Rightarrow> Service_Config \<times> string option"
  sx_obs :: "string option"
  sx_db :: "string option"
  sx_lib :: externals

datatype session_error =
    BadConfig "config_error list" | BadTelemetry string | BadDatabase string | BadKeys keyring_error | BadPepper key_error

definition loadConfig :: "session_world \<Rightarrow> (session_error, Service_Config) result" where
  "loadConfig w =
     (let (cfg, errs) = Load (sx_lower w) (sx_hostname w) (sx_parse w)
      in if errs \<noteq> [] then Inl (BadConfig errs) else Inr cfg)"

text \<open>\<^verbatim>\<open>openSession\<close>, to the store; without \<open>needSecrets\<close> there is none. \<^verbatim>\<open>store.New\<close> only checks that its arguments are there.\<close>

definition openSession :: "session_world \<Rightarrow> bool \<Rightarrow> (session_error, Store option) result" where
  "openSession w needSecrets =
     and_then (loadConfig w) (\<lambda>cfg.
     and_then (error_or (\<lambda>e. BadConfig [e]) (RequireDatabase cfg)) (\<lambda>_.
     and_then (error_or BadTelemetry (sx_obs w)) (\<lambda>_.
     and_then (error_or BadDatabase (sx_db w)) (\<lambda>_.
       if \<not> needSecrets then Inr None
       else and_then (error_or (\<lambda>e. BadConfig [e]) (RequireKeyring cfg)) (\<lambda>_.
            and_then (error_or (\<lambda>e. BadConfig [e]) (RequirePepper cfg)) (\<lambda>_.
            and_then (map_err BadKeys (ParseKeyring (sec_EncryptionKeys (cf_Secrets cfg)) (sec_EncryptionActiveKey (cf_Secrets cfg)))) (\<lambda>keyring.
            and_then (map_err BadPepper (NewHasher (sec_CredentialPepper (cf_Secrets cfg)))) (\<lambda>hasher.
              Inr (Some \<lparr>st_keyring = keyring, st_hasher = hasher, st_lib = sx_lib w\<rparr>)))))))))"

lemma loadConfig_Inr:
  assumes "loadConfig w = Inr cfg"
  shows "cfg = fst (Load (sx_lower w) (sx_hostname w) (sx_parse w))" "Validate cfg = []"
  using assms by (auto simp: loadConfig_def Load_def LoadFrom_def Let_def split: prod.splits if_splits option.splits)

lemma openSession_Inr:
  assumes "openSession w True = Inr st"
  obtains cfg keyring hasher where "loadConfig w = Inr cfg"
    "ParseKeyring (sec_EncryptionKeys (cf_Secrets cfg)) (sec_EncryptionActiveKey (cf_Secrets cfg)) = Inr keyring"
    "NewHasher (sec_CredentialPepper (cf_Secrets cfg)) = Inr hasher"
    "st = Some \<lparr>st_keyring = keyring, st_hasher = hasher, st_lib = sx_lib w\<rparr>"
  using assms unfolding openSession_def by (auto intro!: that)

section \<open>Examples\<close>

definition session_config :: Service_Config where
  "session_config = default_Config\<lparr>cf_Database := default_Database\<lparr>dbc_URL := ''postgres://db''\<rparr>,
     cf_SMTP := default_SMTP\<lparr>smc_Domain := ''mx''\<rparr>,
     cf_Secrets := default_Secrets\<lparr>sec_EncryptionKeys := spec_a, sec_CredentialPepper := drop 2 spec_a\<rparr>\<rparr>"

definition demo_session :: session_world where
  "demo_session = \<lparr>sx_lower = (\<lambda>s. s), sx_hostname = None, sx_parse = (\<lambda>_. (session_config, None)), sx_obs = None, sx_db = None, sx_lib = demo_lib\<rparr>"

lemma session_texts_all:
  "(trim_space ''prod'' = ''prod'') \<and>
   (trim_space ''info'' = ''info'') \<and>
   (trim_space ''json'' = ''json'') \<and>
   (trim_space ''postgres://db'' \<noteq> []) \<and>
   (trim_space spec_a \<noteq> []) \<and>
   (trim_space (drop 2 spec_a) \<noteq> []) \<and>
   (NewHasher (drop 2 spec_a) = Inr \<lparr>pepper = key_a\<rparr>) \<and>
   (to_lower (\<lambda>s. s) ''info'' = ''info'') \<and>
   (to_lower (\<lambda>s. s) ''json'' = ''json'')"
  by code_simp

lemmas session_texts =
  session_texts_all [THEN conjunct1]
  session_texts_all [THEN conjunct2, THEN conjunct1]
  session_texts_all [THEN conjunct2, THEN conjunct2, THEN conjunct1]
  session_texts_all [THEN conjunct2, THEN conjunct2, THEN conjunct2, THEN conjunct1]
  session_texts_all [THEN conjunct2, THEN conjunct2, THEN conjunct2, THEN conjunct2, THEN conjunct1]
  session_texts_all [THEN conjunct2, THEN conjunct2, THEN conjunct2, THEN conjunct2, THEN conjunct2, THEN conjunct1]
  session_texts_all [THEN conjunct2, THEN conjunct2, THEN conjunct2, THEN conjunct2, THEN conjunct2, THEN conjunct2, THEN conjunct1]
  session_texts_all [THEN conjunct2, THEN conjunct2, THEN conjunct2, THEN conjunct2, THEN conjunct2, THEN conjunct2, THEN conjunct2, THEN conjunct1]
  session_texts_all [THEN conjunct2, THEN conjunct2, THEN conjunct2, THEN conjunct2, THEN conjunct2, THEN conjunct2, THEN conjunct2, THEN conjunct2]

lemma demo_session_opens: "openSession demo_session True = Inr (Some demo_store)"
proof -
  have "applyDefaults (\<lambda>s. s) None session_config = session_config"
    by (simp add: applyDefaults_def session_config_def config_defaults session_texts trim_right_any_def)
  moreover have "Validate session_config = []"
    by (simp add: Validate_def check_def session_config_def config_defaults)
  ultimately have load: "loadConfig demo_session = Inr session_config"
    by (simp add: loadConfig_def Load_def LoadFrom_def demo_session_def)
  show ?thesis
    unfolding openSession_def load
    by (simp add: RequireDatabase_def RequireKeyring_def RequirePepper_def session_config_def config_defaults session_texts
        parse_ring_a demo_session_def demo_store_def)
qed

end
