(* ===== verification/Tls_Conf.thy ===== *)
theory Tls_Conf
  imports Configuration Rate_Limit
begin

text \<open>
  The certificate of the SMTP listeners: \<^verbatim>\<open>src/internal/tlsconf/tlsconf.go\<close>. The files a process sees are a map from paths to
  files (symbolic links already followed); \<open>x509_lib\<close> holds what the source uses of \<^verbatim>\<open>crypto/x509\<close>, \<^verbatim>\<open>crypto/tls\<close>, \<^verbatim>\<open>encoding/pem\<close>
  and \<^verbatim>\<open>net\<close>. The closure kept in \<^verbatim>\<open>Provider.load\<close> is one of two values of a datatype. Log lines are left out, except in \<^verbatim>\<open>Watch\<close>,
  where they depend on a state of their own.

  \<^verbatim>\<open>Reload\<close> and \<^verbatim>\<open>ReloadIfChanged\<close> are modelled twice: as functions of the files, and as the steps between which other goroutines and
  the renewer of the certificate run.
\<close>

section \<open>Types\<close>

record os_file =
  fl_ModTime :: int
  fl_Bytes :: string

type_synonym disk = "string \<rightharpoonup> os_file"

type_synonym file_info = "int \<times> int"

definition os_Stat :: "disk \<Rightarrow> string \<Rightarrow> file_info option" where
  "os_Stat d path = map_option (\<lambda>f. (fl_ModTime f, int (length (fl_Bytes f)))) (d path)"

definition os_ReadFile :: "disk \<Rightarrow> string \<Rightarrow> string option" where
  "os_ReadFile d path = map_option fl_Bytes (d path)"

text \<open>The fields of \<^verbatim>\<open>x509.Certificate\<close> that the source writes or reads.\<close>

record 'i x509_Certificate =
  xc_SerialNumber :: int
  xc_CommonName :: string
  xc_Organization :: "string list"
  xc_NotBefore :: int
  xc_NotAfter :: int
  xc_KeyUsage :: "string list"
  xc_ExtKeyUsage :: "string list"
  xc_BasicConstraintsValid :: bool
  xc_IsCA :: bool
  xc_IPAddresses :: "'i list"
  xc_DNSNames :: "string list"

record ('k, 'i) tls_Certificate =
  tc_Certificate :: "string list"
  tc_PrivateKey :: 'k
  tc_Leaf :: "'i x509_Certificate option"

record ('k, 'i) x509_lib =
  xl_X509KeyPair :: "string \<Rightarrow> string \<Rightarrow> (string list \<times> 'k) option"
  xl_ParseCertificate :: "string \<Rightarrow> 'i x509_Certificate option"
  xl_VerifyHostname :: "'i x509_Certificate \<Rightarrow> string \<Rightarrow> bool"
  xl_ParseIP :: "string \<Rightarrow> 'i option"
  xl_IPEqual :: "'i \<Rightarrow> 'i \<Rightarrow> bool"
  xl_CreateCertificate :: "'i x509_Certificate \<Rightarrow> 'k \<Rightarrow> string option"
  xl_MarshalPKCS8 :: "'k \<Rightarrow> string option"
  xl_PEM :: "string \<Rightarrow> string \<Rightarrow> string"
  xl_Sum256 :: "string \<Rightarrow> string"
  xl_Join :: "string \<Rightarrow> string \<Rightarrow> string"

datatype Source = SourceFiles | SourceSelfSigned

record fileState =
  fs_certMod :: int
  fs_certSize :: int
  fs_keyMod :: int
  fs_keySize :: int
  fs_ok :: bool

definition no_state :: fileState where
  "no_state = \<lparr>fs_certMod = 0, fs_certSize = 0, fs_keyMod = 0, fs_keySize = 0, fs_ok = False\<rparr>"

record SelfSignedOptions =
  so_Hosts :: "string list"
  so_Validity :: int
  so_CacheDir :: string

datatype load_fn = LoadFiles string string | LoadSelfSigned SelfSignedOptions

datatype tls_error =
    UnsupportedVersion string | RefusedInProd | NoSource
  | Unreadable | BadKeyPair | BadLeaf | Expired string int
  | NoHosts | KeyGeneration | SerialGeneration | CreateFailed | ParseFailed | MarshalFailed
  | LoadFailed Source tls_error

record ('k, 'i) Provider =
  pv_source :: Source
  pv_minVersion :: int
  pv_load :: load_fn
  pv_certFile :: string
  pv_keyFile :: string
  pv_cert :: "('k, 'i) tls_Certificate option"
  pv_loadedFrom :: fileState

text \<open>
  What a call meets outside: the clock, the randomness of a key and of a serial number, and what \<^verbatim>\<open>MkdirAll\<close> and \<^verbatim>\<open>WriteFile\<close> do
  to the files, with whether they succeed.
\<close>

record 'k tls_env =
  te_now :: int
  te_key :: "'k option"
  te_serial :: "int option"
  te_MkdirAll :: "string \<Rightarrow> disk \<Rightarrow> disk \<times> bool"
  te_WriteFile :: "string \<Rightarrow> string \<Rightarrow> nat \<Rightarrow> disk \<Rightarrow> disk \<times> bool"

section \<open>Loading\<close>

definition selfSignedCertName :: string where "selfSignedCertName = ''relais-selfsigned.crt''"
definition selfSignedKeyName :: string where "selfSignedKeyName = ''relais-selfsigned.key''"
definition clockSkew :: int where "clockSkew = hour"

definition parseMinVersion :: "string \<Rightarrow> (tls_error, int) result" where
  "parseMinVersion name =
     (if name = ''1.2'' then Inr 771 else if name = ''1.3'' then Inr 772 else Inl (UnsupportedVersion name))"

text \<open>
  \<^verbatim>\<open>loadFiles\<close> reads the certificate and then the key; \<open>loadPair\<close> is the rest of it, on what was read.
\<close>

definition loadPair :: "('k, 'i) x509_lib \<Rightarrow> int \<Rightarrow> string \<Rightarrow> string option \<Rightarrow> string option \<Rightarrow> (tls_error, ('k, 'i) tls_Certificate) result" where
  "loadPair x now certFile certBytes keyBytes =
     (case certBytes of
        None \<Rightarrow> Inl Unreadable
      | Some cb \<Rightarrow>
          (case keyBytes of
             None \<Rightarrow> Inl Unreadable
           | Some kb \<Rightarrow>
               (case xl_X509KeyPair x cb kb of
                  None \<Rightarrow> Inl BadKeyPair
                | Some (chain, key) \<Rightarrow>
                    (case xl_ParseCertificate x (hd chain) of
                       None \<Rightarrow> Inl BadLeaf
                     | Some leaf \<Rightarrow>
                         if now > xc_NotAfter leaf then Inl (Expired certFile (xc_NotAfter leaf))
                         else Inr \<lparr>tc_Certificate = chain, tc_PrivateKey = key, tc_Leaf = Some leaf\<rparr>))))"

definition loadFiles :: "('k, 'i) x509_lib \<Rightarrow> int \<Rightarrow> disk \<Rightarrow> string \<Rightarrow> string \<Rightarrow> (tls_error, ('k, 'i) tls_Certificate) result" where
  "loadFiles x now d certFile keyFile = loadPair x now certFile (os_ReadFile d certFile) (os_ReadFile d keyFile)"

definition covers_host :: "('k, 'i) x509_lib \<Rightarrow> 'i x509_Certificate \<Rightarrow> string \<Rightarrow> bool" where
  "covers_host x leaf host =
     (case xl_ParseIP x host of
        Some ip \<Rightarrow> list_ex (\<lambda>candidate. xl_IPEqual x candidate ip) (xc_IPAddresses leaf)
      | None \<Rightarrow> xl_VerifyHostname x leaf host)"

definition leaf_covers :: "('k, 'i) x509_lib \<Rightarrow> 'i x509_Certificate option \<Rightarrow> string list \<Rightarrow> bool" where
  "leaf_covers x leaf hosts = (case leaf of None \<Rightarrow> False | Some l \<Rightarrow> list_all (covers_host x l) hosts)"

definition self_signed_template :: "('k, 'i) x509_lib \<Rightarrow> int \<Rightarrow> int \<Rightarrow> string list \<Rightarrow> int \<Rightarrow> 'i x509_Certificate" where
  "self_signed_template x now serial hosts validity =
     \<lparr>xc_SerialNumber = serial, xc_CommonName = hd hosts, xc_Organization = [''relais (self-signed)''],
      xc_NotBefore = now - clockSkew, xc_NotAfter = now + validity,
      xc_KeyUsage = [''DigitalSignature'', ''CertSign''], xc_ExtKeyUsage = [''ServerAuth''],
      xc_BasicConstraintsValid = True, xc_IsCA = True,
      xc_IPAddresses = List.map_filter (xl_ParseIP x) hosts, xc_DNSNames = filter (\<lambda>host. xl_ParseIP x host = None) hosts\<rparr>"

definition GenerateSelfSigned ::
    "('k, 'i) x509_lib \<Rightarrow> 'k tls_env \<Rightarrow> string list \<Rightarrow> int \<Rightarrow> (tls_error, ('k, 'i) tls_Certificate \<times> string \<times> string) result" where
  "GenerateSelfSigned x env hosts validity =
     (if length hosts = 0 then Inl NoHosts
      else let valid = (if validity \<le> 0 then 365 * 24 * hour else validity) in
        (case te_key env of
           None \<Rightarrow> Inl KeyGeneration
         | Some key \<Rightarrow>
             (case te_serial env of
                None \<Rightarrow> Inl SerialGeneration
              | Some serial \<Rightarrow>
                  (case xl_CreateCertificate x (self_signed_template x (te_now env) serial hosts valid) key of
                     None \<Rightarrow> Inl CreateFailed
                   | Some der \<Rightarrow>
                       (case xl_ParseCertificate x der of
                          None \<Rightarrow> Inl ParseFailed
                        | Some leaf \<Rightarrow>
                            (case xl_MarshalPKCS8 x key of
                               None \<Rightarrow> Inl MarshalFailed
                             | Some keyDER \<Rightarrow>
                                 Inr (\<lparr>tc_Certificate = [der], tc_PrivateKey = key, tc_Leaf = Some leaf\<rparr>,
                                      xl_PEM x ''CERTIFICATE'' der, xl_PEM x ''PRIVATE KEY'' keyDER)))))))"

text \<open>\<^verbatim>\<open>writeCache\<close>; the modes are 0o700, 0o644 and 0o600.\<close>

definition writeCache :: "('k, 'i) x509_lib \<Rightarrow> 'k tls_env \<Rightarrow> string \<Rightarrow> string \<Rightarrow> string \<Rightarrow> disk \<Rightarrow> disk \<times> bool" where
  "writeCache x env dir certPEM keyPEM d =
     (case te_MkdirAll env dir d of
        (d1, False) \<Rightarrow> (d1, False)
      | (d1, True) \<Rightarrow>
          (case te_WriteFile env (xl_Join x dir selfSignedCertName) certPEM 420 d1 of
             (d2, False) \<Rightarrow> (d2, False)
           | (d2, True) \<Rightarrow> te_WriteFile env (xl_Join x dir selfSignedKeyName) keyPEM 384 d2))"

definition selfSigned ::
    "('k, 'i) x509_lib \<Rightarrow> 'k tls_env \<Rightarrow> SelfSignedOptions \<Rightarrow> disk \<Rightarrow> (tls_error, ('k, 'i) tls_Certificate) result \<times> disk" where
  "selfSigned x env opts d =
     (let cached = (if so_CacheDir opts = [] then Inl Unreadable
                    else loadFiles x (te_now env) d (xl_Join x (so_CacheDir opts) selfSignedCertName) (xl_Join x (so_CacheDir opts) selfSignedKeyName));
          usable = (case cached of Inl _ \<Rightarrow> None | Inr c \<Rightarrow> if leaf_covers x (tc_Leaf c) (so_Hosts opts) then Some c else None)
      in case usable of
           Some c \<Rightarrow> (Inr c, d)
         | None \<Rightarrow>
             (case GenerateSelfSigned x env (so_Hosts opts) (so_Validity opts) of
                Inl e \<Rightarrow> (Inl e, d)
              | Inr (cert, certPEM, keyPEM) \<Rightarrow>
                  (Inr cert, if so_CacheDir opts = [] then d else fst (writeCache x env (so_CacheDir opts) certPEM keyPEM d))))"

definition run_load :: "('k, 'i) x509_lib \<Rightarrow> 'k tls_env \<Rightarrow> load_fn \<Rightarrow> disk \<Rightarrow> (tls_error, ('k, 'i) tls_Certificate) result \<times> disk" where
  "run_load x env load d =
     (case load of
        LoadFiles certFile keyFile \<Rightarrow> (loadFiles x (te_now env) d certFile keyFile, d)
      | LoadSelfSigned opts \<Rightarrow> selfSigned x env opts d)"

section \<open>The provider\<close>

text \<open>\<open>file_state\<close> is \<^verbatim>\<open>statFiles\<close> on what the two stats returned, \<open>install\<close> the end of \<^verbatim>\<open>Reload\<close> on what was loaded.\<close>

definition file_state :: "file_info option \<Rightarrow> file_info option \<Rightarrow> fileState" where
  "file_state certInfo keyInfo =
     (case (certInfo, keyInfo) of
        (Some (cm, cs), Some (km, ks)) \<Rightarrow> \<lparr>fs_certMod = cm, fs_certSize = cs, fs_keyMod = km, fs_keySize = ks, fs_ok = True\<rparr>
      | _ \<Rightarrow> no_state)"

definition statFiles :: "('k, 'i) Provider \<Rightarrow> disk \<Rightarrow> fileState" where
  "statFiles p d =
     (if pv_source p \<noteq> SourceFiles then no_state else file_state (os_Stat d (pv_certFile p)) (os_Stat d (pv_keyFile p)))"

definition install :: "fileState \<Rightarrow> (tls_error, ('k, 'i) tls_Certificate) result \<Rightarrow> ('k, 'i) Provider \<Rightarrow> tls_error option \<times> ('k, 'i) Provider" where
  "install state loaded p =
     (case loaded of
        Inl e \<Rightarrow> (Some (LoadFailed (pv_source p) e), p)
      | Inr cert \<Rightarrow> (None, p\<lparr>pv_cert := Some cert, pv_loadedFrom := state\<rparr>))"

definition Reload :: "('k, 'i) x509_lib \<Rightarrow> 'k tls_env \<Rightarrow> disk \<Rightarrow> ('k, 'i) Provider \<Rightarrow> tls_error option \<times> ('k, 'i) Provider \<times> disk" where
  "Reload x env d p =
     (let state = statFiles p d;
          (loaded, d') = run_load x env (pv_load p) d;
          (e, p') = install state loaded p
      in (e, p', d'))"

definition changed :: "fileState \<Rightarrow> fileState \<Rightarrow> bool" where
  "changed previous current \<longleftrightarrow> \<not> (fs_ok previous \<and> current = previous)"

definition ReloadIfChanged ::
    "('k, 'i) x509_lib \<Rightarrow> 'k tls_env \<Rightarrow> disk \<Rightarrow> ('k, 'i) Provider \<Rightarrow> (tls_error, bool) result \<times> ('k, 'i) Provider \<times> disk" where
  "ReloadIfChanged x env d p =
     (if pv_source p \<noteq> SourceFiles then (Inr False, p, d)
      else let current = statFiles p d in
        if \<not> fs_ok current then (Inr False, p, d)
        else if \<not> changed (pv_loadedFrom p) current then (Inr False, p, d)
        else (case Reload x env d p of
                (Some e, p', d') \<Rightarrow> (Inl e, p', d')
              | (None, p', d') \<Rightarrow> (Inr True, p', d')))"

definition tlsconf_New ::
    "(string \<Rightarrow> string) \<Rightarrow> ('k, 'i) x509_lib \<Rightarrow> 'k tls_env \<Rightarrow> Service_Config \<Rightarrow> disk \<Rightarrow> (tls_error, ('k, 'i) Provider) result \<times> disk" where
  "tlsconf_New u x env cfg d =
     (let t = cf_TLS cfg in
      case parseMinVersion (tlc_MinVersion t) of
        Inl e \<Rightarrow> (Inl e, d)
      | Inr minVersion \<Rightarrow>
          (let start = (\<lambda>source load certFile keyFile.
                 (case Reload x env d \<lparr>pv_source = source, pv_minVersion = minVersion, pv_load = load, pv_certFile = certFile,
                                       pv_keyFile = keyFile, pv_cert = None, pv_loadedFrom = no_state\<rparr> of
                    (Some e, _, d') \<Rightarrow> (Inl e, d')
                  | (None, p, d') \<Rightarrow> (Inr p, d')))
           in if tlc_CertFile t \<noteq> [] \<and> tlc_KeyFile t \<noteq> []
              then start SourceFiles (LoadFiles (tlc_CertFile t) (tlc_KeyFile t)) (tlc_CertFile t) (tlc_KeyFile t)
              else if tlc_SelfSigned t
              then if IsProd u cfg \<and> \<not> tlc_SelfSignedAllowInProd t then (Inl RefusedInProd, d)
                   else start SourceSelfSigned (LoadSelfSigned \<lparr>so_Hosts = tlc_SelfSignedHosts t, so_Validity = tlc_SelfSignedValidity t,
                          so_CacheDir = tlc_SelfSignedDir t\<rparr>) [] []
              else (Inl NoSource, d)))"

text \<open>
  \<^verbatim>\<open>Watch\<close>, as a function of the ticks before the context is done: each is what the check meets. \<open>warned\<close> is its local variable;
  the lines it logs are returned.
\<close>

datatype watch_line = LogKept tls_error | LogReloaded

fun watch_loop ::
    "('k, 'i) x509_lib \<Rightarrow> bool \<Rightarrow> ('k tls_env \<times> disk) list \<Rightarrow> ('k, 'i) Provider \<Rightarrow> watch_line list \<times> ('k, 'i) Provider" where
  "watch_loop x warned [] p = ([], p)"
| "watch_loop x warned ((env, d) # ticks) p =
     (case ReloadIfChanged x env d p of
        (Inl e, p', _) \<Rightarrow>
          (let (log, q) = watch_loop x True ticks p' in ((if warned then [] else [LogKept e]) @ log, q))
      | (Inr reloaded, p', _) \<Rightarrow>
          (let (log, q) = watch_loop x (if reloaded then False else warned) ticks p' in ((if reloaded then [LogReloaded] else []) @ log, q)))"

definition Watch ::
    "('k, 'i) x509_lib \<Rightarrow> int \<Rightarrow> ('k tls_env \<times> disk) list \<Rightarrow> ('k, 'i) Provider \<Rightarrow> watch_line list \<times> ('k, 'i) Provider" where
  "Watch x interval ticks p =
     (if pv_source p \<noteq> SourceFiles \<or> interval \<le> 0 then ([], p) else watch_loop x False ticks p)"

text \<open>\<^verbatim>\<open>Config\<close>: the minimum version and what \<^verbatim>\<open>GetCertificate\<close> answers at a handshake.\<close>

definition provider_Config :: "('k, 'i) Provider \<Rightarrow> int \<times> (string, ('k, 'i) tls_Certificate) result" where
  "provider_Config p =
     (pv_minVersion p, case pv_cert p of None \<Rightarrow> Inl ''no TLS certificate available'' | Some c \<Rightarrow> Inr c)"

definition hex_digit :: "nat \<Rightarrow> char" where
  "hex_digit n = (if n < 10 then char_of (48 + n) else char_of (87 + n))"

definition hex_EncodeToString :: "string \<Rightarrow> string" where
  "hex_EncodeToString s = concat (map (\<lambda>c. [hex_digit (ord c div 16), hex_digit (ord c mod 16)]) s)"

fun colon_pairs :: "string \<Rightarrow> string" where
  "colon_pairs (a # b # c # rest) = a # b # CHR '':'' # colon_pairs (c # rest)"
| "colon_pairs s = s"

definition provider_Fingerprint :: "('k, 'i) x509_lib \<Rightarrow> ('k, 'i) Provider \<Rightarrow> string" where
  "provider_Fingerprint x p =
     (case pv_cert p of
        None \<Rightarrow> []
      | Some cert \<Rightarrow>
          if length (tc_Certificate cert) = 0 then []
          else colon_pairs (hex_EncodeToString (xl_Sum256 x (tc_Certificate cert ! 0))))"

definition NotAfter :: "('k, 'i) Provider \<Rightarrow> int" where
  "NotAfter p = (case pv_cert p of None \<Rightarrow> 0 | Some cert \<Rightarrow> (case tc_Leaf cert of None \<Rightarrow> 0 | Some leaf \<Rightarrow> xc_NotAfter leaf))"

definition LeafPEM :: "('k, 'i) x509_lib \<Rightarrow> ('k, 'i) Provider \<Rightarrow> (string, string) result" where
  "LeafPEM x p =
     (case pv_cert p of
        None \<Rightarrow> Inl ''no TLS certificate available''
      | Some cert \<Rightarrow>
          if length (tc_Certificate cert) = 0 then Inl ''no TLS certificate available''
          else Inr (xl_PEM x ''CERTIFICATE'' (tc_Certificate cert ! 0)))"

section \<open>Reloads as steps\<close>

text \<open>
  Where a goroutine stands in \<^verbatim>\<open>ReloadIfChanged\<close> or \<^verbatim>\<open>Reload\<close>, with its local variables: it has stat'ed the certificate, both
  files, decided to reload; then, in \<^verbatim>\<open>Reload\<close>, stat'ed the certificate, both files, read the certificate file, read the key file
  and parsed the pair. The comparison and the swap are under the lock of the provider, so each is one step.
\<close>

datatype ('k, 'i) reload_pc =
    Idle
  | CheckedCert "file_info option"
  | Checked fileState
  | Reloading
  | StattedCert "file_info option"
  | Statted fileState
  | HaveCert fileState "string option"
  | HavePair fileState "(tls_error, ('k, 'i) tls_Certificate) result"

record ('k, 'i) tls_system =
  ts_disk :: disk
  ts_seen :: "(string \<times> file_info) set"
  ts_provider :: "('k, 'i) Provider"
  ts_pc :: "nat \<Rightarrow> ('k, 'i) reload_pc"

abbreviation set_pc :: "nat \<Rightarrow> ('k, 'i) reload_pc \<Rightarrow> ('k, 'i) tls_system \<Rightarrow> ('k, 'i) tls_system" where
  "set_pc g c st \<equiv> st\<lparr>ts_pc := (ts_pc st)(g := c)\<rparr>"

definition stats_of :: "('k, 'i) Provider \<Rightarrow> disk \<Rightarrow> (string \<times> file_info) set" where
  "stats_of p d = {(path, i). path \<in> {pv_certFile p, pv_keyFile p} \<and> os_Stat d path = Some i}"

text \<open>
  What the source assumes of a renewal: a file that is written gets a modification time and size it did not have before.
  A file may be left alone or disappear for a while.
\<close>

definition renewal :: "('k, 'i) tls_system \<Rightarrow> disk \<Rightarrow> bool" where
  "renewal st d \<longleftrightarrow>
     (\<forall>path \<in> {pv_certFile (ts_provider st), pv_keyFile (ts_provider st)}.
        d path = ts_disk st path \<or> d path = None \<or> (\<exists>i. os_Stat d path = Some i \<and> (path, i) \<notin> ts_seen st))"

inductive tls_step :: "('k, 'i) x509_lib \<Rightarrow> ('k, 'i) tls_system \<Rightarrow> ('k, 'i) tls_system \<Rightarrow> bool" for x where
  renew: "renewal st d \<Longrightarrow> tls_step x st (st\<lparr>ts_disk := d, ts_seen := ts_seen st \<union> stats_of (ts_provider st) d\<rparr>)"
| tick: "ts_pc st g = Idle \<Longrightarrow> tls_step x st (set_pc g (CheckedCert (os_Stat (ts_disk st) (pv_certFile (ts_provider st)))) st)"
| check_key: "ts_pc st g = CheckedCert ci \<Longrightarrow>
    tls_step x st (set_pc g (Checked (file_state ci (os_Stat (ts_disk st) (pv_keyFile (ts_provider st))))) st)"
| unchanged: "ts_pc st g = Checked current \<Longrightarrow> \<not> fs_ok current \<or> \<not> changed (pv_loadedFrom (ts_provider st)) current \<Longrightarrow>
    tls_step x st (set_pc g Idle st)"
| differs: "ts_pc st g = Checked current \<Longrightarrow> fs_ok current \<Longrightarrow> changed (pv_loadedFrom (ts_provider st)) current \<Longrightarrow>
    tls_step x st (set_pc g Reloading st)"
| hangup: "ts_pc st g = Idle \<Longrightarrow> tls_step x st (set_pc g Reloading st)"
| stat_cert: "ts_pc st g = Reloading \<Longrightarrow> tls_step x st (set_pc g (StattedCert (os_Stat (ts_disk st) (pv_certFile (ts_provider st)))) st)"
| stat_key: "ts_pc st g = StattedCert ci \<Longrightarrow>
    tls_step x st (set_pc g (Statted (file_state ci (os_Stat (ts_disk st) (pv_keyFile (ts_provider st))))) st)"
| read_cert: "ts_pc st g = Statted s \<Longrightarrow> tls_step x st (set_pc g (HaveCert s (os_ReadFile (ts_disk st) (pv_certFile (ts_provider st)))) st)"
| read_key: "ts_pc st g = HaveCert s cb \<Longrightarrow>
    tls_step x st (set_pc g (HavePair s (loadPair x now (pv_certFile (ts_provider st)) cb
                                          (os_ReadFile (ts_disk st) (pv_keyFile (ts_provider st))))) st)"
| swap: "ts_pc st g = HavePair s loaded \<Longrightarrow>
    tls_step x st (set_pc g Idle (st\<lparr>ts_provider := snd (install s loaded (ts_provider st))\<rparr>))"

definition tls_start :: "disk \<Rightarrow> ('k, 'i) Provider \<Rightarrow> ('k, 'i) tls_system" where
  "tls_start d p = \<lparr>ts_disk = d, ts_seen = stats_of p d, ts_provider = p, ts_pc = (\<lambda>_. Idle)\<rparr>"

section \<open>The recorded state and the certificate belong together\<close>

text \<open>
  \<open>kept st path i b\<close>: a file whose state was once \<open>i\<close> was read later as \<open>b\<close>, so if it is still in that state \<open>b\<close> is its content.
\<close>

definition kept :: "('k, 'i) tls_system \<Rightarrow> string \<Rightarrow> file_info \<Rightarrow> string option \<Rightarrow> bool" where
  "kept st path i b \<longleftrightarrow> (path, i) \<in> ts_seen st \<and> (os_Stat (ts_disk st) path = Some i \<longrightarrow> os_ReadFile (ts_disk st) path = b)"

abbreviation cert_info :: "fileState \<Rightarrow> file_info" where "cert_info s \<equiv> (fs_certMod s, fs_certSize s)"
abbreviation key_info :: "fileState \<Rightarrow> file_info" where "key_info s \<equiv> (fs_keyMod s, fs_keySize s)"

definition pair_kept :: "('k, 'i) x509_lib \<Rightarrow> ('k, 'i) tls_system \<Rightarrow> fileState \<Rightarrow> ('k, 'i) tls_Certificate \<Rightarrow> bool" where
  "pair_kept x st s c \<longleftrightarrow>
     (\<exists>now cb kb. loadPair x now (pv_certFile (ts_provider st)) cb kb = Inr c \<and>
        (fs_ok s \<longrightarrow> kept st (pv_certFile (ts_provider st)) (cert_info s) cb \<and> kept st (pv_keyFile (ts_provider st)) (key_info s) kb))"

definition pc_ok :: "('k, 'i) x509_lib \<Rightarrow> ('k, 'i) tls_system \<Rightarrow> ('k, 'i) reload_pc \<Rightarrow> bool" where
  "pc_ok x st c =
     (let cf = pv_certFile (ts_provider st); kf = pv_keyFile (ts_provider st) in
      case c of
        StattedCert ci \<Rightarrow> (\<forall>i. ci = Some i \<longrightarrow> (cf, i) \<in> ts_seen st)
      | Statted s \<Rightarrow> fs_ok s \<longrightarrow> (cf, cert_info s) \<in> ts_seen st \<and> (kf, key_info s) \<in> ts_seen st
      | HaveCert s cb \<Rightarrow> fs_ok s \<longrightarrow> kept st cf (cert_info s) cb \<and> (kf, key_info s) \<in> ts_seen st
      | HavePair s loaded \<Rightarrow> (\<forall>c'. loaded = Inr c' \<longrightarrow> pair_kept x st s c')
      | _ \<Rightarrow> True)"

definition tls_inv :: "('k, 'i) x509_lib \<Rightarrow> string \<Rightarrow> string \<Rightarrow> ('k, 'i) tls_system \<Rightarrow> bool" where
  "tls_inv x cf kf st \<longleftrightarrow>
     pv_source (ts_provider st) = SourceFiles \<and> pv_load (ts_provider st) = LoadFiles cf kf \<and>
     pv_certFile (ts_provider st) = cf \<and> pv_keyFile (ts_provider st) = kf \<and>
     stats_of (ts_provider st) (ts_disk st) \<subseteq> ts_seen st \<and>
     (\<exists>c. pv_cert (ts_provider st) = Some c \<and> pair_kept x st (pv_loadedFrom (ts_provider st)) c) \<and>
     (\<forall>g. pc_ok x st (ts_pc st g))"

lemma pair_keptI:
  assumes "loadPair x now (pv_certFile (ts_provider st)) cb kb = Inr c"
    "fs_ok s \<Longrightarrow> kept st (pv_certFile (ts_provider st)) (cert_info s) cb" "fs_ok s \<Longrightarrow> kept st (pv_keyFile (ts_provider st)) (key_info s) kb"
  shows "pair_kept x st s c"
  using assms by (auto simp: pair_kept_def)

lemma pc_ok_simps [simp]:
  "pc_ok x st (StattedCert ci) \<longleftrightarrow> (\<forall>i. ci = Some i \<longrightarrow> (pv_certFile (ts_provider st), i) \<in> ts_seen st)"
  "pc_ok x st (Statted s) \<longleftrightarrow>
     (fs_ok s \<longrightarrow> (pv_certFile (ts_provider st), cert_info s) \<in> ts_seen st \<and> (pv_keyFile (ts_provider st), key_info s) \<in> ts_seen st)"
  "pc_ok x st (HaveCert s cb) \<longleftrightarrow>
     (fs_ok s \<longrightarrow> kept st (pv_certFile (ts_provider st)) (cert_info s) cb \<and> (pv_keyFile (ts_provider st), key_info s) \<in> ts_seen st)"
  "pc_ok x st (HavePair s loaded) \<longleftrightarrow> (\<forall>c'. loaded = Inr c' \<longrightarrow> pair_kept x st s c')"
  "pc_ok x st Idle" "pc_ok x st (CheckedCert ci)" "pc_ok x st (Checked s)" "pc_ok x st Reloading"
  by (simp_all add: pc_ok_def)

lemma tls_inv_seen:
  assumes "tls_inv x cf kf st"
  shows "os_Stat (ts_disk st) (pv_certFile (ts_provider st)) = Some i \<Longrightarrow> (pv_certFile (ts_provider st), i) \<in> ts_seen st"
    "os_Stat (ts_disk st) (pv_keyFile (ts_provider st)) = Some i \<Longrightarrow> (pv_keyFile (ts_provider st), i) \<in> ts_seen st"
  using assms by (auto simp: tls_inv_def stats_of_def)

lemma file_state_ok: "fs_ok (file_state ci ki) \<Longrightarrow>
    ci = Some (cert_info (file_state ci ki)) \<and> ki = Some (key_info (file_state ci ki))"
  by (auto simp: file_state_def no_state_def split: option.splits)

lemma kept_renew:
  assumes "kept st path i b" "renewal st d" "path \<in> {pv_certFile (ts_provider st), pv_keyFile (ts_provider st)}"
  shows "kept (st\<lparr>ts_disk := d, ts_seen := ts_seen st \<union> more_seen\<rparr>) path i b"
proof -
  have "d path = ts_disk st path \<or> os_Stat d path \<noteq> Some i"
    using assms by (auto simp: kept_def renewal_def os_Stat_def)
  then show ?thesis using assms(1) by (auto simp: kept_def os_Stat_def os_ReadFile_def)
qed

lemma pair_kept_renew:
  assumes "pair_kept x st s c" "renewal st d"
  shows "pair_kept x (st\<lparr>ts_disk := d, ts_seen := ts_seen st \<union> more_seen\<rparr>) s c"
  using assms unfolding pair_kept_def
  by (auto intro: kept_renew)

lemma pc_ok_renew:
  assumes "pc_ok x st c" "renewal st d"
  shows "pc_ok x (st\<lparr>ts_disk := d, ts_seen := ts_seen st \<union> more_seen\<rparr>) c"
  using assms by (cases c) (auto intro: kept_renew pair_kept_renew)

lemma pc_only [simp]:
  "kept (st\<lparr>ts_pc := f\<rparr>) = kept st" "pair_kept x (st\<lparr>ts_pc := f\<rparr>) = pair_kept x st" "pc_ok x (st\<lparr>ts_pc := f\<rparr>) = pc_ok x st"
  by (auto simp: fun_eq_iff kept_def pair_kept_def pc_ok_def Let_def split: reload_pc.splits)

lemma tls_inv_pc:
  assumes "tls_inv x cf kf st" "pc_ok x st c"
  shows "tls_inv x cf kf (set_pc g c st)"
  using assms by (simp add: tls_inv_def)

lemma install_only [simp]:
  "pv_source (snd (install s loaded p)) = pv_source p" "pv_load (snd (install s loaded p)) = pv_load p"
  "pv_certFile (snd (install s loaded p)) = pv_certFile p" "pv_keyFile (snd (install s loaded p)) = pv_keyFile p"
  by (simp_all add: install_def split: sum.splits)

lemma provider_only:
  assumes "pv_certFile q = pv_certFile (ts_provider st)" "pv_keyFile q = pv_keyFile (ts_provider st)"
  shows "kept (st\<lparr>ts_provider := q\<rparr>) = kept st" "pair_kept x (st\<lparr>ts_provider := q\<rparr>) = pair_kept x st"
    "pc_ok x (st\<lparr>ts_provider := q\<rparr>) = pc_ok x st"
  using assms by (auto simp: fun_eq_iff kept_def pair_kept_def pc_ok_def Let_def split: reload_pc.splits)

lemma tls_inv_swap:
  assumes inv: "tls_inv x cf kf st" and at: "ts_pc st g = HavePair s loaded"
  shows "tls_inv x cf kf (set_pc g Idle (st\<lparr>ts_provider := snd (install s loaded (ts_provider st))\<rparr>))"
proof -
  let ?q = "snd (install s loaded (ts_provider st))"
  have "pc_ok x st (HavePair s loaded)" using inv at by (metis tls_inv_def)
  then have "\<exists>c. pv_cert ?q = Some c \<and> pair_kept x st (pv_loadedFrom ?q) c"
    using inv by (cases loaded) (auto simp: tls_inv_def install_def)
  moreover have "stats_of ?q = stats_of (ts_provider st)" by (simp add: stats_of_def fun_eq_iff)
  ultimately show ?thesis
    using inv by (simp add: tls_inv_def provider_only)
qed

lemma tls_inv_renew:
  assumes inv: "tls_inv x cf kf st" and r: "renewal st d"
  shows "tls_inv x cf kf (st\<lparr>ts_disk := d, ts_seen := ts_seen st \<union> stats_of (ts_provider st) d\<rparr>)"
  using inv by (auto simp: tls_inv_def intro: pc_ok_renew [OF _ r] pair_kept_renew [OF _ r])

lemma tls_step_inv:
  assumes "tls_step x st st'" "tls_inv x cf kf st"
  shows "tls_inv x cf kf st'"
  using assms
proof (induction rule: tls_step.induct)
  case (renew st d)
  then show ?case by (simp add: tls_inv_renew)
next
  case (swap st g s loaded)
  then show ?case by (intro tls_inv_swap)
next
  case (stat_cert st g)
  then show ?case by (intro tls_inv_pc) (auto dest: tls_inv_seen)
next
  case (stat_key st g ci)
  let ?s = "file_state ci (os_Stat (ts_disk st) (pv_keyFile (ts_provider st)))"
  have "pc_ok x st (StattedCert ci)" using stat_key by (metis tls_inv_def)
  then have "pc_ok x st (Statted ?s)"
    using tls_inv_seen [OF stat_key(2)] file_state_ok [of ci "os_Stat (ts_disk st) (pv_keyFile (ts_provider st))"] by simp
  then show ?case using stat_key by (intro tls_inv_pc)
next
  case (read_cert st g s)
  have "pc_ok x st (Statted s)" using read_cert by (metis tls_inv_def)
  then show ?case using read_cert by (intro tls_inv_pc) (auto simp: kept_def)
next
  case (read_key st g s cb now)
  have "pc_ok x st (HaveCert s cb)" using read_key by (metis tls_inv_def)
  then have "pc_ok x st (HavePair s (loadPair x now (pv_certFile (ts_provider st)) cb (os_ReadFile (ts_disk st) (pv_keyFile (ts_provider st)))))"
    by (auto simp: kept_def intro: pair_keptI)
  then show ?case using read_key by (intro tls_inv_pc)
qed (auto intro!: tls_inv_pc)

lemma tls_reach_inv: "(tls_step x)\<^sup>*\<^sup>* st st' \<Longrightarrow> tls_inv x cf kf st \<Longrightarrow> tls_inv x cf kf st'"
  by (induction rule: rtranclp_induct) (auto intro: tls_step_inv)

lemma New_files:
  assumes "tlsconf_New u x env cfg d = (Inr p, d')" "tlc_CertFile (cf_TLS cfg) \<noteq> []" "tlc_KeyFile (cf_TLS cfg) \<noteq> []"
  shows "tls_inv x (tlc_CertFile (cf_TLS cfg)) (tlc_KeyFile (cf_TLS cfg)) (tls_start d p)"
proof -
  obtain c s where c: "loadFiles x (te_now env) d (tlc_CertFile (cf_TLS cfg)) (tlc_KeyFile (cf_TLS cfg)) = Inr c"
    and p: "pv_source p = SourceFiles" "pv_load p = LoadFiles (tlc_CertFile (cf_TLS cfg)) (tlc_KeyFile (cf_TLS cfg))"
      "pv_certFile p = tlc_CertFile (cf_TLS cfg)" "pv_keyFile p = tlc_KeyFile (cf_TLS cfg)"
      "pv_cert p = Some c" "pv_loadedFrom p = file_state (os_Stat d (pv_certFile p)) (os_Stat d (pv_keyFile p))"
    using assms
    by (auto simp: tlsconf_New_def Let_def Reload_def run_load_def install_def statFiles_def split: sum.splits prod.splits)
  have "pair_kept x (tls_start d p) (pv_loadedFrom p) c"
    using c file_state_ok [of "os_Stat d (pv_certFile p)" "os_Stat d (pv_keyFile p)"] p
    by (intro pair_keptI [of _ "te_now env" _ "os_ReadFile d (pv_certFile p)" "os_ReadFile d (pv_keyFile p)"])
      (auto simp: tls_start_def loadFiles_def kept_def stats_of_def)
  then show ?thesis
    using p by (simp add: tls_inv_def tls_start_def)
qed

lemma loadPair_now: "loadPair x now cf cb kb = Inr c \<Longrightarrow> loadPair x now' cf cb kb = Inr c' \<Longrightarrow> c = c'"
  by (auto simp: loadPair_def split: option.splits if_splits)

lemma load_needs_files:
  assumes "loadFiles x now d cf kf = Inr c"
  shows "fs_ok (file_state (os_Stat d cf) (os_Stat d kf))"
  using assms by (auto simp: loadFiles_def loadPair_def os_ReadFile_def os_Stat_def file_state_def split: option.splits)

lemma unchanged_is_current:
  assumes inv: "tls_inv x cf kf st" and same: "\<not> changed (pv_loadedFrom (ts_provider st)) (statFiles (ts_provider st) (ts_disk st))"
    and load: "loadFiles x now (ts_disk st) cf kf = Inr c"
  shows "pv_cert (ts_provider st) = Some c"
proof -
  let ?s = "pv_loadedFrom (ts_provider st)"
  have s: "fs_ok ?s" "?s = file_state (os_Stat (ts_disk st) cf) (os_Stat (ts_disk st) kf)"
    using inv same by (auto simp: changed_def statFiles_def tls_inv_def)
  then have i: "os_Stat (ts_disk st) cf = Some (cert_info ?s)" "os_Stat (ts_disk st) kf = Some (key_info ?s)"
    by (metis file_state_ok)+
  obtain c' now' cb kb where c': "pv_cert (ts_provider st) = Some c'" "loadPair x now' cf cb kb = Inr c'"
    and k: "kept st cf (cert_info ?s) cb" "kept st kf (key_info ?s) kb"
    using inv s by (auto simp: tls_inv_def pair_kept_def)
  have "cb = os_ReadFile (ts_disk st) cf" "kb = os_ReadFile (ts_disk st) kf" using k i by (auto simp: kept_def)
  then show ?thesis using c' load loadPair_now by (auto simp: loadFiles_def)
qed

text \<open>A check that no other goroutine interrupts is the function: its steps lead to the provider it returns.\<close>

lemma alone_reload:
  assumes inv: "tls_inv x cf kf st" and at: "ts_pc st g = Reloading" and r: "Reload x env (ts_disk st) (ts_provider st) = (e, p', d')"
  shows "(tls_step x)\<^sup>*\<^sup>* st (set_pc g Idle (st\<lparr>ts_provider := p'\<rparr>)) \<and> d' = ts_disk st"
proof -
  let ?p = "ts_provider st" and ?d = "ts_disk st"
  let ?s = "file_state (os_Stat ?d (pv_certFile ?p)) (os_Stat ?d (pv_keyFile ?p))"
  let ?l = "loadPair x (te_now env) (pv_certFile ?p) (os_ReadFile ?d (pv_certFile ?p)) (os_ReadFile ?d (pv_keyFile ?p))"
  have files: "pv_source ?p = SourceFiles" "pv_load ?p = LoadFiles (pv_certFile ?p) (pv_keyFile ?p)"
    using inv by (auto simp: tls_inv_def)
  have p': "p' = snd (install ?s ?l ?p)" "d' = ?d"
    using r files by (auto simp: Reload_def run_load_def statFiles_def loadFiles_def split: prod.splits)
  have steps: "tls_step x st (set_pc g (StattedCert (os_Stat ?d (pv_certFile ?p))) st)"
    "tls_step x (set_pc g (StattedCert (os_Stat ?d (pv_certFile ?p))) st) (set_pc g (Statted ?s) st)"
    "tls_step x (set_pc g (Statted ?s) st) (set_pc g (HaveCert ?s (os_ReadFile ?d (pv_certFile ?p))) st)"
    "tls_step x (set_pc g (HaveCert ?s (os_ReadFile ?d (pv_certFile ?p))) st) (set_pc g (HavePair ?s ?l) st)"
    "tls_step x (set_pc g (HavePair ?s ?l) st) (set_pc g Idle (st\<lparr>ts_provider := p'\<rparr>))"
    using tls_step.stat_cert [OF at, of x]
      tls_step.stat_key [of "set_pc g (StattedCert (os_Stat ?d (pv_certFile ?p))) st" g "os_Stat ?d (pv_certFile ?p)" x]
      tls_step.read_cert [of "set_pc g (Statted ?s) st" g ?s x]
      tls_step.read_key [of "set_pc g (HaveCert ?s (os_ReadFile ?d (pv_certFile ?p))) st" g ?s "os_ReadFile ?d (pv_certFile ?p)" x "te_now env"]
      tls_step.swap [of "set_pc g (HavePair ?s ?l) st" g ?s ?l x] p'
    by simp_all
  note tail = converse_rtranclp_into_rtranclp [where r = "tls_step x"]
  show ?thesis
    using steps p'(2) by (intro conjI tail [OF steps(1)] tail [OF steps(2)] tail [OF steps(3)] tail [OF steps(4)] tail [OF steps(5)]) auto
qed

lemma alone_check:
  assumes inv: "tls_inv x cf kf st" and at: "ts_pc st g = Idle" and r: "ReloadIfChanged x env (ts_disk st) (ts_provider st) = (r, p', d')"
  shows "(tls_step x)\<^sup>*\<^sup>* st (st\<lparr>ts_provider := p'\<rparr>)"
proof -
  let ?p = "ts_provider st" and ?d = "ts_disk st"
  let ?ci = "os_Stat ?d (pv_certFile ?p)" and ?s = "statFiles ?p ?d"
  have src: "pv_source ?p = SourceFiles" using inv by (simp add: tls_inv_def)
  have same: "(ts_pc st)(g := Idle) = ts_pc st" using at by (auto simp: fun_eq_iff)
  have two: "(tls_step x)\<^sup>*\<^sup>* st (set_pc g (Checked ?s) st)"
    using tls_step.tick [OF at, of x] tls_step.check_key [of "set_pc g (CheckedCert ?ci) st" g ?ci x] src
    by (auto simp: statFiles_def intro: converse_rtranclp_into_rtranclp)
  show ?thesis
  proof (cases "fs_ok ?s \<and> changed (pv_loadedFrom ?p) ?s")
    case True
    then have "tls_step x (set_pc g (Checked ?s) st) (set_pc g Reloading st)"
      using tls_step.differs [of "set_pc g (Checked ?s) st" g ?s x] by simp
    then have three: "(tls_step x)\<^sup>*\<^sup>* st (set_pc g Reloading st)" by (rule rtranclp.rtrancl_into_rtrancl [OF two])
    obtain e where "Reload x env ?d ?p = (e, p', d')"
      using r True src by (auto simp: ReloadIfChanged_def Let_def split: prod.splits option.splits)
    then have "(tls_step x)\<^sup>*\<^sup>* (set_pc g Reloading st) (set_pc g Idle ((set_pc g Reloading st)\<lparr>ts_provider := p'\<rparr>))"
      using alone_reload [of x cf kf "set_pc g Reloading st" g env e p' d'] tls_inv_pc [OF inv, of Reloading g] by simp
    with three show ?thesis using same by (auto simp: rtranclp_trans)
  next
    case False
    then have "tls_step x (set_pc g (Checked ?s) st) (set_pc g Idle st)"
      using tls_step.unchanged [of "set_pc g (Checked ?s) st" g ?s x] by auto
    moreover have "p' = ?p" using r False src by (auto simp: ReloadIfChanged_def Let_def split: if_splits)
    ultimately show ?thesis using rtranclp.rtrancl_into_rtrancl [OF two] same by simp
  qed
qed

section \<open>Properties\<close>

text \<open>
  C15: A renewed certificate is served, and a broken one never takes the listener down. Take a provider that loaded a
  certificate from files at startup, and any later moment: the files may have been written any number of times, one after the other,
  and any number of reloads, from the watch and from signals, may be under way and may have overlapped with the writes. When the watch then
  checks the files and they hold a pair that loads, the provider ends up serving exactly that pair, whether the check decided to reload or not;
  when they do not, it goes on serving the certificate it had and records nothing, so that the next check tries again. It is
  never left without a certificate.
\<close>

theorem renewals_are_served:
  assumes new: "tlsconf_New u x env cfg d0 = (Inr p0, d1)" "tlc_CertFile (cf_TLS cfg) \<noteq> []" "tlc_KeyFile (cf_TLS cfg) \<noteq> []"
    and reach: "(tls_step x)\<^sup>*\<^sup>* (tls_start d0 p0) st"
    and check: "ReloadIfChanged x env' (ts_disk st) (ts_provider st) = (r, p', d')"
  shows "(case loadFiles x (te_now env') (ts_disk st) (tlc_CertFile (cf_TLS cfg)) (tlc_KeyFile (cf_TLS cfg)) of
            Inr c \<Rightarrow> ok r \<and> pv_cert p' = Some c
          | Inl _ \<Rightarrow> p' = ts_provider st) \<and>
         pv_cert p' \<noteq> None \<and> d' = ts_disk st"
proof -
  let ?p = "ts_provider st" and ?d = "ts_disk st" and ?cf = "tlc_CertFile (cf_TLS cfg)" and ?kf = "tlc_KeyFile (cf_TLS cfg)"
  have inv: "tls_inv x ?cf ?kf st" using New_files [OF new] reach by (rule tls_reach_inv [rotated])
  then have p: "pv_source ?p = SourceFiles" "pv_load ?p = LoadFiles ?cf ?kf" "pv_certFile ?p = ?cf" "pv_keyFile ?p = ?kf" "pv_cert ?p \<noteq> None"
    by (auto simp: tls_inv_def)
  show ?thesis
  proof (cases "loadFiles x (te_now env') ?d ?cf ?kf")
    case (Inl e)
    then show ?thesis
      using check p by (auto simp: ReloadIfChanged_def Reload_def run_load_def install_def Let_def split: if_splits)
  next
    case (Inr c)
    have "fs_ok (statFiles ?p ?d)" using load_needs_files [OF Inr] p by (simp add: statFiles_def)
    moreover have "\<not> changed (pv_loadedFrom ?p) (statFiles ?p ?d) \<Longrightarrow> pv_cert ?p = Some c"
      by (rule unchanged_is_current [OF inv _ Inr])
    ultimately show ?thesis
      using check p Inr by (auto simp: ReloadIfChanged_def Reload_def run_load_def install_def Let_def split: if_splits)
  qed
qed

text \<open>
  What the cached self-signed certificate rests on: a created certificate parses, its leaf names the addresses and the valid host
  names of the template, its PEM form loads with its key, the two file names differ, and the directory can be written.
\<close>

definition x509_lawful :: "('k, 'i) x509_lib \<Rightarrow> (string \<Rightarrow> bool) \<Rightarrow> bool" where
  "x509_lawful x valid \<longleftrightarrow>
     (\<forall>t key der. xl_CreateCertificate x t key = Some der \<longrightarrow>
        (\<exists>leaf. xl_ParseCertificate x der = Some leaf \<and>
           (\<forall>ip \<in> set (xc_IPAddresses t). list_ex (\<lambda>candidate. xl_IPEqual x candidate ip) (xc_IPAddresses leaf)) \<and>
           (\<forall>h \<in> set (xc_DNSNames t). valid h \<longrightarrow> xl_VerifyHostname x leaf h)) \<and>
        (\<forall>kd. xl_MarshalPKCS8 x key = Some kd \<longrightarrow>
           xl_X509KeyPair x (xl_PEM x ''CERTIFICATE'' der) (xl_PEM x ''PRIVATE KEY'' kd) = Some ([der], key))) \<and>
     (\<forall>dir. xl_Join x dir selfSignedCertName \<noteq> xl_Join x dir selfSignedKeyName)"

definition cache_works :: "'k tls_env \<Rightarrow> bool" where
  "cache_works env \<longleftrightarrow>
     (\<forall>dir d. te_MkdirAll env dir d = (d, True)) \<and>
     (\<forall>path b m d. \<exists>t. te_WriteFile env path b m d = (d(path \<mapsto> \<lparr>fl_ModTime = t, fl_Bytes = b\<rparr>), True))"

lemma loadPair_later:
  assumes "loadPair x now cf cb kb = Inr c" "tc_Leaf c = Some leaf" "now' \<le> xc_NotAfter leaf"
  shows "loadPair x now' cf cb kb = Inr c"
  using assms by (auto simp: loadPair_def split: option.splits if_splits)

lemma writeCache_reads:
  assumes "x509_lawful x valid" "cache_works env" "d' = fst (writeCache x env dir certPEM keyPEM d)"
  shows "os_ReadFile d' (xl_Join x dir selfSignedCertName) = Some certPEM" "os_ReadFile d' (xl_Join x dir selfSignedKeyName) = Some keyPEM"
proof -
  let ?c = "xl_Join x dir selfSignedCertName" and ?k = "xl_Join x dir selfSignedKeyName"
  have mk: "te_MkdirAll env dir d = (d, True)" using assms(2) by (simp add: cache_works_def)
  obtain t where t: "te_WriteFile env ?c certPEM 420 d = (d(?c \<mapsto> \<lparr>fl_ModTime = t, fl_Bytes = certPEM\<rparr>), True)"
    using assms(2) unfolding cache_works_def by metis
  obtain t' where t': "te_WriteFile env ?k keyPEM 384 (d(?c \<mapsto> \<lparr>fl_ModTime = t, fl_Bytes = certPEM\<rparr>)) =
      (d(?c \<mapsto> \<lparr>fl_ModTime = t, fl_Bytes = certPEM\<rparr>, ?k \<mapsto> \<lparr>fl_ModTime = t', fl_Bytes = keyPEM\<rparr>), True)"
    using assms(2) unfolding cache_works_def by metis
  have "?c \<noteq> ?k" using assms(1) by (simp add: x509_lawful_def)
  then show "os_ReadFile d' ?c = Some certPEM" "os_ReadFile d' ?k = Some keyPEM"
    using assms(3) mk t t' by (auto simp: writeCache_def os_ReadFile_def)
qed

lemma template_covers:
  assumes law: "x509_lawful x valid" and make: "xl_CreateCertificate x (self_signed_template x now serial hosts validity) key = Some der"
    and leaf: "xl_ParseCertificate x der = Some leaf" and hosts: "list_all (\<lambda>h. xl_ParseIP x h \<noteq> None \<or> valid h) hosts"
  shows "leaf_covers x (Some leaf) hosts"
proof -
  let ?t = "self_signed_template x now serial hosts validity"
  have ips: "\<forall>ip \<in> set (xc_IPAddresses ?t). list_ex (\<lambda>candidate. xl_IPEqual x candidate ip) (xc_IPAddresses leaf)"
    and names: "\<forall>h \<in> set (xc_DNSNames ?t). valid h \<longrightarrow> xl_VerifyHostname x leaf h"
    using law make leaf unfolding x509_lawful_def by (metis option.inject)+
  have "covers_host x leaf h" if h: "h \<in> set hosts" for h
  proof (cases "xl_ParseIP x h")
    case None
    then show ?thesis using names hosts h by (auto simp: covers_host_def self_signed_template_def list_all_iff)
  next
    case (Some ip)
    then have "ip \<in> set (xc_IPAddresses ?t)" using h by (force simp: self_signed_template_def List.map_filter_def)
    then show ?thesis using ips Some by (simp add: covers_host_def)
  qed
  then show ?thesis by (simp add: leaf_covers_def list_all_iff)
qed

lemma GenerateSelfSigned_Inr:
  assumes "GenerateSelfSigned x env hosts validity = Inr (c, certPEM, keyPEM)"
  obtains key serial der leaf kd valid where
    "xl_CreateCertificate x (self_signed_template x (te_now env) serial hosts valid) key = Some der"
    "xl_ParseCertificate x der = Some leaf" "xl_MarshalPKCS8 x key = Some kd"
    "c = \<lparr>tc_Certificate = [der], tc_PrivateKey = key, tc_Leaf = Some leaf\<rparr>"
    "certPEM = xl_PEM x ''CERTIFICATE'' der" "keyPEM = xl_PEM x ''PRIVATE KEY'' kd"
  using assms by (auto simp: GenerateSelfSigned_def Let_def split: if_splits option.splits)

text \<open>
  A restart keeps the certificate. With a cache directory that can be written, what one run serves as its self-signed
  certificate, whether it was generated or read back, the next run reads back, until it expires: nothing is generated again and the
  files stay as they are, so a client may pin it. The hosts are IP addresses or valid host names.
\<close>

theorem restart_keeps_certificate:
  assumes law: "x509_lawful x valid" "cache_works env" and dir: "so_CacheDir opts \<noteq> []"
    and hosts: "list_all (\<lambda>h. xl_ParseIP x h \<noteq> None \<or> valid h) (so_Hosts opts)"
    and run: "selfSigned x env opts d = (Inr c, d')" and alive: "tc_Leaf c = Some leaf" "te_now env' \<le> xc_NotAfter leaf"
  shows "selfSigned x env' opts d' = (Inr c, d')"
proof -
  let ?cf = "xl_Join x (so_CacheDir opts) selfSignedCertName" and ?kf = "xl_Join x (so_CacheDir opts) selfSignedKeyName"
  have "leaf_covers x (tc_Leaf c) (so_Hosts opts) \<and> (\<exists>now. loadFiles x now d' ?cf ?kf = Inr c)"
  proof (cases "\<exists>c0. loadFiles x (te_now env) d ?cf ?kf = Inr c0 \<and> leaf_covers x (tc_Leaf c0) (so_Hosts opts)")
    case True
    then show ?thesis using run dir by (auto simp: selfSigned_def)
  next
    case False
    then obtain certPEM keyPEM where g: "GenerateSelfSigned x env (so_Hosts opts) (so_Validity opts) = Inr (c, certPEM, keyPEM)"
      and w: "d' = fst (writeCache x env (so_CacheDir opts) certPEM keyPEM d)"
      using run dir by (auto simp: selfSigned_def Let_def split: sum.splits if_splits option.splits prod.splits)
    obtain key serial der leaf kd vd where g':
      "xl_CreateCertificate x (self_signed_template x (te_now env) serial (so_Hosts opts) vd) key = Some der"
      "xl_ParseCertificate x der = Some leaf" "xl_MarshalPKCS8 x key = Some kd"
      "c = \<lparr>tc_Certificate = [der], tc_PrivateKey = key, tc_Leaf = Some leaf\<rparr>"
      "certPEM = xl_PEM x ''CERTIFICATE'' der" "keyPEM = xl_PEM x ''PRIVATE KEY'' kd"
      by (rule GenerateSelfSigned_Inr [OF g])
    have "xl_X509KeyPair x certPEM keyPEM = Some ([der], key)" using law(1) g' unfolding x509_lawful_def by metis
    then have "loadFiles x (xc_NotAfter leaf) d' ?cf ?kf = Inr c"
      using g' by (simp add: loadFiles_def loadPair_def writeCache_reads [OF law w])
    then show ?thesis using template_covers [OF law(1) g'(1,2) hosts] g'(4) by auto
  qed
  then obtain now where now: "leaf_covers x (tc_Leaf c) (so_Hosts opts)" "loadFiles x now d' ?cf ?kf = Inr c" by blast
  then have "loadFiles x (te_now env') d' ?cf ?kf = Inr c"
    using alive loadPair_later by (auto simp: loadFiles_def)
  then show ?thesis using now(1) dir by (simp add: selfSigned_def)
qed

section \<open>Examples\<close>

text \<open>Files that both hold one word are a pair, valid until time 100.\<close>

definition demo_leaf :: "string x509_Certificate" where
  "demo_leaf = \<lparr>xc_SerialNumber = 1, xc_CommonName = ''mx'', xc_Organization = [], xc_NotBefore = 0, xc_NotAfter = 100, xc_KeyUsage = [],
     xc_ExtKeyUsage = [], xc_BasicConstraintsValid = True, xc_IsCA = False, xc_IPAddresses = [], xc_DNSNames = [''mx'']\<rparr>"

definition demo_x509 :: "(string, string) x509_lib" where
  "demo_x509 = \<lparr>xl_X509KeyPair = (\<lambda>c k. if c = k then Some ([c], k) else None), xl_ParseCertificate = (\<lambda>_. Some demo_leaf),
     xl_VerifyHostname = (\<lambda>l h. h \<in> set (xc_DNSNames l)), xl_ParseIP = (\<lambda>_. None), xl_IPEqual = (=),
     xl_CreateCertificate = (\<lambda>_ k. Some k), xl_MarshalPKCS8 = Some, xl_PEM = (\<lambda>_ b. b), xl_Sum256 = take 32, xl_Join = (\<lambda>d f. d @ ''/'' @ f)\<rparr>"

definition demo_tls_env :: "string tls_env" where
  "demo_tls_env = \<lparr>te_now = 5, te_key = Some ''key'', te_serial = Some 1, te_MkdirAll = (\<lambda>_ d. (d, True)),
     te_WriteFile = (\<lambda>path b _ d. (d(path \<mapsto> \<lparr>fl_ModTime = 5, fl_Bytes = b\<rparr>), True))\<rparr>"

definition demo_tls_config :: Service_Config where
  "demo_tls_config = default_Config\<lparr>cf_TLS := default_TLS\<lparr>tlc_CertFile := ''c'', tlc_KeyFile := ''k''\<rparr>\<rparr>"

definition demo_disk :: "int \<Rightarrow> string \<Rightarrow> int \<Rightarrow> string \<Rightarrow> disk" where
  "demo_disk t c t' k = [''c'' \<mapsto> \<lparr>fl_ModTime = t, fl_Bytes = c\<rparr>, ''k'' \<mapsto> \<lparr>fl_ModTime = t', fl_Bytes = k\<rparr>]"

definition demo_pair :: "string \<Rightarrow> (string, string) tls_Certificate" where
  "demo_pair b = \<lparr>tc_Certificate = [b], tc_PrivateKey = b, tc_Leaf = Some demo_leaf\<rparr>"

definition demo_provider :: "(string, string) Provider" where
  "demo_provider = \<lparr>pv_source = SourceFiles, pv_minVersion = 771, pv_load = LoadFiles ''c'' ''k'', pv_certFile = ''c'', pv_keyFile = ''k'',
     pv_cert = Some (demo_pair ''one''), pv_loadedFrom = \<lparr>fs_certMod = 1, fs_certSize = 3, fs_keyMod = 1, fs_keySize = 3, fs_ok = True\<rparr>\<rparr>"

lemmas demo_tls_defs = demo_x509_def demo_tls_env_def demo_tls_config_def demo_disk_def demo_pair_def demo_provider_def config_defaults
  os_Stat_def os_ReadFile_def loadFiles_def loadPair_def file_state_def

lemma demo_new:
  "tlsconf_New id demo_x509 demo_tls_env demo_tls_config (demo_disk 1 ''one'' 1 ''one'') = (Inr demo_provider, demo_disk 1 ''one'' 1 ''one'')"
  by (simp add: tlsconf_New_def parseMinVersion_def Reload_def statFiles_def run_load_def install_def demo_leaf_def demo_tls_defs)

lemma demo_renewal:
  "\<exists>st. (tls_step demo_x509)\<^sup>*\<^sup>* (tls_start (demo_disk 1 ''one'' 1 ''one'') demo_provider) st \<and>
        ts_disk st = demo_disk 2 ''two'' 3 ''two'' \<and> ts_pc st 0 = HaveCert (pv_loadedFrom demo_provider) (Some ''one'')"
proof -
  let ?r = "tls_step demo_x509" and ?s0 = "tls_start (demo_disk 1 ''one'' 1 ''one'') demo_provider"
  let ?s1 = "set_pc 0 Reloading ?s0" and ?i = "Some (1, 3)"
  let ?s2 = "set_pc 0 (StattedCert ?i) ?s1"
  let ?s3 = "set_pc 0 (Statted (pv_loadedFrom demo_provider)) ?s2"
  let ?s4 = "set_pc 0 (HaveCert (pv_loadedFrom demo_provider) (Some ''one'')) ?s3"
  let ?w = "\<lambda>d st. st\<lparr>ts_disk := d, ts_seen := ts_seen st \<union> stats_of (ts_provider st) d\<rparr>"
  let ?s5 = "?w (demo_disk 2 ''two'' 1 ''one'') ?s4" and ?d = "demo_disk 2 ''two'' 3 ''two''"
  have "?r ?s0 ?s1" "?r ?s1 ?s2" "?r ?s2 ?s3" "?r ?s3 ?s4"
    using tls_step.hangup [of ?s0 0 demo_x509] tls_step.stat_cert [of ?s1 0 demo_x509]
      tls_step.stat_key [of ?s2 0 ?i demo_x509] tls_step.read_cert [of ?s3 0 "pv_loadedFrom demo_provider" demo_x509]
    by (simp_all add: tls_start_def demo_tls_defs)
  moreover have "?r ?s4 ?s5"
    by (rule tls_step.renew) (simp add: renewal_def tls_start_def stats_of_def demo_tls_defs)
  moreover have "?r ?s5 (?w ?d ?s5)"
    by (rule tls_step.renew) (simp add: renewal_def tls_start_def stats_of_def demo_tls_defs)
  ultimately have "?r\<^sup>*\<^sup>* ?s0 (?w ?d ?s5)"
    by (meson converse_rtranclp_into_rtranclp rtranclp.rtrancl_refl)
  then show ?thesis by (intro exI [of _ "?w ?d ?s5"]) (simp add: tls_start_def)
qed

lemma renewals_are_served_witness:
  "\<exists>st r p' d'. (tls_step demo_x509)\<^sup>*\<^sup>* (tls_start (demo_disk 1 ''one'' 1 ''one'') demo_provider) st \<and>
     ts_pc st 0 = HaveCert (pv_loadedFrom demo_provider) (Some ''one'') \<and>
     ReloadIfChanged demo_x509 demo_tls_env (ts_disk st) (ts_provider st) = (r, p', d') \<and> pv_cert p' = Some (demo_pair ''two'')"
proof -
  obtain st where st: "(tls_step demo_x509)\<^sup>*\<^sup>* (tls_start (demo_disk 1 ''one'' 1 ''one'') demo_provider) st"
      "ts_disk st = demo_disk 2 ''two'' 3 ''two''" "ts_pc st 0 = HaveCert (pv_loadedFrom demo_provider) (Some ''one'')"
    using demo_renewal by blast
  obtain r p' d' where c: "ReloadIfChanged demo_x509 demo_tls_env (ts_disk st) (ts_provider st) = (r, p', d')" by (metis prod_cases3)
  have "tlc_CertFile (cf_TLS demo_tls_config) = ''c''" "tlc_KeyFile (cf_TLS demo_tls_config) = ''k''"
    by (simp_all add: demo_tls_config_def)
  moreover have "loadFiles demo_x509 (te_now demo_tls_env) (ts_disk st) ''c'' ''k'' = Inr (demo_pair ''two'')"
    unfolding st(2) by (simp add: demo_leaf_def demo_tls_defs)
  ultimately have "pv_cert p' = Some (demo_pair ''two'')"
    using renewals_are_served [OF demo_new _ _ st(1) c] by simp
  then show ?thesis using st c by blast
qed

end
