(* ===== verification/Smtpd.thy ===== *)
theory Smtpd
  imports Ingest Sender
begin

text \<open>
  The SMTP submission server: \<^verbatim>\<open>src/internal/smtpd/smtpd.go\<close>.

  \<^verbatim>\<open>go-smtp\<close> reads the protocol and calls the session; \<open>smtp_event\<close> lists these calls with what they are given, and
  \<open>smtp_reach\<close> is every state a session can get into, whatever is called and whatever happens elsewhere in between. The PLAIN
  exchange is \<^verbatim>\<open>go-sasl\<close>'s, the parameter \<open>sd_plain\<close>; \<open>None\<close> as a response is a client that sent no initial
  response. \<open>sd_detail\<close> is the text of a rejection. The listeners, their shutdown and the log are not modelled.
\<close>

section \<open>The server\<close>

record smtp_reply =
  rp_Code :: int
  rp_Enhanced :: "int \<times> int \<times> int"
  rp_Message :: string

record Smtpd_Config =
  sdc_Domain :: string
  sdc_Addr :: string
  sdc_TLSAddr :: string
  sdc_ReadTimeout :: int
  sdc_WriteTimeout :: int
  sdc_ShutdownTimeout :: int
  sdc_MaxMessageBytes :: int
  sdc_MaxRecipients :: int
  sdc_MaxConnections :: int

datatype plain_answer = PlainAsk string | PlainBad | PlainClaim string string string

record ('l, 'h) smtpd =
  sd_ingest :: "('l, 'h) Service"
  sd_authenticator :: Store
  sd_cfg :: Smtpd_Config
  sd_plain :: "string option \<Rightarrow> plain_answer"
  sd_text :: text_lib
  sd_detail :: "Rejection \<Rightarrow> string"

text \<open>\<^verbatim>\<open>New\<close>; \<open>certs\<close> says whether a certificate provider was given, \<open>env\<close> has the fields that are not options.\<close>

definition smtpd_New ::
    "('l, 'h) Service option \<Rightarrow> Store option \<Rightarrow> bool \<Rightarrow> Smtpd_Config \<Rightarrow> ('l, 'h) smtpd \<Rightarrow> (string, ('l, 'h) smtpd) result" where
  "smtpd_New ing au certs cfg env =
     (case ing of
        None \<Rightarrow> Inl ''smtpd: an ingest service is required''
      | Some i \<Rightarrow>
          (case au of
             None \<Rightarrow> Inl ''smtpd: an authenticator is required''
           | Some a \<Rightarrow>
               if \<not> certs then Inl ''smtpd: a TLS certificate provider is required''
               else if sdc_Addr cfg = [] \<and> sdc_TLSAddr cfg = [] then Inl ''smtpd: no listener address configured''
               else Inr (env\<lparr>sd_ingest := i, sd_authenticator := a,
                 sd_cfg := cfg\<lparr>sdc_Domain := (if sdc_Domain cfg = [] then ''localhost'' else sdc_Domain cfg),
                               sdc_MaxRecipients := (if sdc_MaxRecipients cfg \<le> 0 then 50 else sdc_MaxRecipients cfg),
                               sdc_MaxMessageBytes := (if sdc_MaxMessageBytes cfg \<le> 0 then 10 * 2 ^ 20 else sdc_MaxMessageBytes cfg),
                               sdc_ShutdownTimeout := (if sdc_ShutdownTimeout cfg \<le> 0 then 20 * nanos_per_second else sdc_ShutdownTimeout cfg)\<rparr>\<rparr>)))"

text \<open>\<^verbatim>\<open>newSMTPServer\<close>: the settings given to \<^verbatim>\<open>go-smtp\<close>.\<close>

record smtp_settings =
  sst_Domain :: string
  sst_ReadTimeout :: int
  sst_WriteTimeout :: int
  sst_MaxMessageBytes :: int
  sst_MaxRecipients :: int
  sst_AllowInsecureAuth :: bool
  sst_STARTTLS :: bool

definition newSMTPServer :: "Smtpd_Config \<Rightarrow> bool \<Rightarrow> smtp_settings" where
  "newSMTPServer cfg implicitTLS = \<lparr>sst_Domain = sdc_Domain cfg, sst_ReadTimeout = sdc_ReadTimeout cfg, sst_WriteTimeout = sdc_WriteTimeout cfg,
     sst_MaxMessageBytes = sdc_MaxMessageBytes cfg, sst_MaxRecipients = sdc_MaxRecipients cfg, sst_AllowInsecureAuth = False,
     sst_STARTTLS = (\<not> implicitTLS)\<rparr>"

section \<open>The session\<close>

record session =
  ss_remoteIP :: netip_Addr
  ss_credential :: AuthCredential
  ss_authenticated :: bool
  ss_envelopeFrom :: string
  ss_recipients :: "string list"

text \<open>\<^verbatim>\<open>store.AuthCredential{}\<close>.\<close>

definition zero_credential :: AuthCredential where
  "zero_credential = \<lparr>ac_Credential = \<lparr>cred_ID = uuid_Nil, cred_Name = [], cred_Type = [], cred_Lookup = [], cred_SecretHmac = [],
     cred_Enabled = False, cred_RateLimitRps = None, cred_RateLimitBurst = None, cred_CreatedBy = [], cred_CreatedAt = 0, cred_UpdatedAt = 0,
     cred_LastUsedAt = None, cred_RevokedAt = None\<rparr>, ac_Patterns = [], ac_Recipients = \<lparr>rr_set = []\<rparr>\<rparr>"

definition newSession :: "netip_Addr \<Rightarrow> session" where
  "newSession ip = \<lparr>ss_remoteIP = ip, ss_credential = zero_credential, ss_authenticated = False, ss_envelopeFrom = [], ss_recipients = []\<rparr>"

datatype sasl_server = PlainServer | LoginServer string bool

definition AuthMechanisms :: "string list" where
  "AuthMechanisms = [''PLAIN'', ''LOGIN'']"

definition session_Auth :: "('l, 'h) smtpd \<Rightarrow> bool \<Rightarrow> string \<Rightarrow> (smtp_reply, sasl_server) result" where
  "session_Auth sm encrypted mech =
     (if \<not> encrypted
      then Inl \<lparr>rp_Code = 538, rp_Enhanced = (5, 7, 11), rp_Message = ''encryption required for requested authentication mechanism''\<rparr>
      else let up = to_upper (sd_text sm) mech in
      if up = ''PLAIN'' then Inr PlainServer
      else if up = ''LOGIN'' then Inr (LoginServer [] False)
      else Inl \<lparr>rp_Code = 504, rp_Enhanced = (5, 5, 4), rp_Message = ''unsupported authentication mechanism''\<rparr>)"

definition session_authenticate :: "('l, 'h) smtpd \<Rightarrow> session \<Rightarrow> string \<Rightarrow> string \<Rightarrow> (smtp_reply option \<times> session) prog" where
  "session_authenticate sm s username password = do {
     r \<leftarrow> SMTPUser (sd_authenticator sm) username password;
     ret (case r of
        Inl e \<Rightarrow>
          if e \<noteq> ErrUnauthenticated
          then (Some \<lparr>rp_Code = 454, rp_Enhanced = (4, 7, 0), rp_Message = ''temporary authentication failure, try again later''\<rparr>, s)
          else (Some \<lparr>rp_Code = 535, rp_Enhanced = (5, 7, 8), rp_Message = ''authentication credentials invalid''\<rparr>, s)
      | Inr auth \<Rightarrow> (None, s\<lparr>ss_credential := auth, ss_authenticated := True\<rparr>)) }"

text \<open>One call of \<^verbatim>\<open>Next\<close>: a challenge, the end, or an error, which is a reply when the session made it.\<close>

datatype sasl_step = Challenge string sasl_server | SaslDone | SaslError "smtp_reply option"

definition loginServer_Next :: "('l, 'h) smtpd \<Rightarrow> string \<Rightarrow> bool \<Rightarrow> string option \<Rightarrow> session \<Rightarrow> (sasl_step \<times> session) prog" where
  "loginServer_Next sm username gotUsername response s =
     (let text = (case response of None \<Rightarrow> [] | Some t \<Rightarrow> t) in
      if \<not> gotUsername then ret (Challenge ''Password:'' (LoginServer text True), s)
      else do { (e, s') \<leftarrow> session_authenticate sm s username text;
                ret (case e of Some rep \<Rightarrow> SaslError (Some rep) | None \<Rightarrow> SaslDone, s') })"

definition sasl_Next :: "('l, 'h) smtpd \<Rightarrow> sasl_server \<Rightarrow> string option \<Rightarrow> session \<Rightarrow> (sasl_step \<times> session) prog" where
  "sasl_Next sm srv response s =
     (case srv of
        LoginServer username got \<Rightarrow> loginServer_Next sm username got response s
      | PlainServer \<Rightarrow>
          (case sd_plain sm response of
             PlainAsk challenge \<Rightarrow> ret (Challenge challenge PlainServer, s)
           | PlainBad \<Rightarrow> ret (SaslError None, s)
           | PlainClaim identity username password \<Rightarrow>
               do { (e, s') \<leftarrow> session_authenticate sm s username password;
                    ret (case e of Some rep \<Rightarrow> SaslError (Some rep) | None \<Rightarrow> SaslDone, s') }))"

text \<open>The exchange \<^verbatim>\<open>go-smtp\<close> makes of it, with the responses of the client; \<open>None\<close> when the client stops answering.\<close>

primrec auth_exchange :: "('l, 'h) smtpd \<Rightarrow> string option list \<Rightarrow> sasl_server \<Rightarrow> session \<Rightarrow> (sasl_step option \<times> session) prog" where
  "auth_exchange sm [] srv s = ret (None, s)"
| "auth_exchange sm (r # rs) srv s = do {
     (step, s') \<leftarrow> sasl_Next sm srv r s;
     case step of Challenge c srv' \<Rightarrow> auth_exchange sm rs srv' s' | _ \<Rightarrow> ret (Some step, s') }"

definition auth_required :: smtp_reply where
  "auth_required = \<lparr>rp_Code = 530, rp_Enhanced = (5, 7, 0), rp_Message = ''authentication required''\<rparr>"

definition session_Mail :: "session \<Rightarrow> string \<Rightarrow> smtp_reply option \<times> session" where
  "session_Mail s from =
     (if \<not> ss_authenticated s then (Some auth_required, s)
      else (None, s\<lparr>ss_envelopeFrom := from, ss_recipients := []\<rparr>))"

definition session_Rcpt :: "('l, 'h) smtpd \<Rightarrow> session \<Rightarrow> string \<Rightarrow> smtp_reply option \<times> session" where
  "session_Rcpt sm s to =
     (if \<not> ss_authenticated s then (Some auth_required, s)
      else (case ParseAddress (st_idna (sd_authenticator sm)) to of
         Inl e \<Rightarrow> (Some \<lparr>rp_Code = 550, rp_Enhanced = (5, 1, 3), rp_Message = ''bad destination address syntax: '' @ to\<rparr>, s)
       | Inr addr \<Rightarrow>
           if int (length (ss_recipients s)) \<ge> sdc_MaxRecipients (sd_cfg sm)
           then (Some \<lparr>rp_Code = 452, rp_Enhanced = (4, 5, 3),
                       rp_Message = ''too many recipients in one transaction (limit '' @ show_int (sdc_MaxRecipients (sd_cfg sm)) @ '')''\<rparr>, s)
           else (None, s\<lparr>ss_recipients := ss_recipients s @ [Address_String addr]\<rparr>)))"

definition acceptedReply :: "('l, 'h) smtpd \<Rightarrow> Result \<Rightarrow> smtp_reply" where
  "acceptedReply sm res = \<lparr>rp_Code = 250, rp_Enhanced = (2, 0, 0),
     rp_Message = (if res_Duplicate res then ''OK: duplicate of '' @ sv_uuid (sd_ingest sm) (res_ID res) @ '', nothing queued''
                   else ''OK: queued as '' @ sv_uuid (sd_ingest sm) (res_ID res))\<rparr>"

definition rejection_code :: "string \<Rightarrow> int \<times> int \<times> int \<times> int" where
  "rejection_code reason =
     (if reason = ReasonSenderNotAllowed then (550, 5, 7, 1)
      else if reason = ReasonDomainNotConfigured then (550, 5, 7, 1)
      else if reason = ReasonRecipientNotAllowed then (550, 5, 7, 1)
      else if reason = ReasonCredentialUnusable then (530, 5, 7, 0)
      else if reason = ReasonRateLimited then (451, 4, 3, 2)
      else if reason = ReasonTooManyRecipients then (452, 4, 5, 3)
      else if reason = ReasonInvalidRecipient then (550, 5, 1, 3)
      else if reason = ReasonNoRecipients then (554, 5, 5, 1)
      else if reason \<in> {CodeTooLarge, CodeHeadersTooLarge, CodeTooManyHeaders} then (552, 5, 3, 4)
      else if reason \<in> {CodeNoFrom, CodeMultipleFrom, CodeInvalidFrom, CodeEmpty, CodeMalformedHeaders} then (550, 5, 6, 0)
      else (550, 5, 7, 1))"

definition rejectionReply :: "('l, 'h) smtpd \<Rightarrow> Rejection \<Rightarrow> smtp_reply" where
  "rejectionReply sm rejection = (case rejection_code (rej_Reason rejection) of (code, enhanced) \<Rightarrow>
     \<lparr>rp_Code = code, rp_Enhanced = enhanced,
      rp_Message = (if sd_detail sm rejection \<noteq> [] then sd_detail sm rejection else rej_Reason rejection)\<rparr>)"

definition smtp_request :: "session \<Rightarrow> string \<Rightarrow> Request" where
  "smtp_request s raw = \<lparr>rq_Credential = ss_credential s, rq_Facade = FacadeSMTP, rq_Raw = raw, rq_EnvelopeRecipients = ss_recipients s,
     rq_DeclaredBcc = [], rq_IdempotencyKey = [], rq_RemoteIP = ss_remoteIP s\<rparr>"

text \<open>\<open>broken\<close> is the reply that the reader's own error carries, if any.\<close>

definition session_Data ::
    "('l, 'h) smtpd \<Rightarrow> session \<Rightarrow> reader \<Rightarrow> smtp_reply option \<Rightarrow> 'l Limiter \<Rightarrow> (smtp_reply \<times> 'l Limiter) prog" where
  "session_Data sm s r broken lm =
     (if \<not> ss_authenticated s then ret (auth_required, lm)
      else (case ReadAll r (sdc_MaxMessageBytes (sd_cfg sm)) of
         Inl code \<Rightarrow>
           ret (case (if code = CodeTooLarge then None else broken) of
              Some rep \<Rightarrow> rep
            | None \<Rightarrow>
                if code = CodeTooLarge
                then \<lparr>rp_Code = 552, rp_Enhanced = (5, 3, 4),
                      rp_Message = ''message exceeds the '' @ show_int (sdc_MaxMessageBytes (sd_cfg sm)) @ '' byte limit''\<rparr>
                else \<lparr>rp_Code = 451, rp_Enhanced = (4, 3, 0), rp_Message = ''could not read the message, try again''\<rparr>, lm)
       | Inr raw \<Rightarrow> do {
           (res, lm') \<leftarrow> Submit (sd_ingest sm) (smtp_request s raw) lm;
           ret (case res of
              Inr result \<Rightarrow> acceptedReply sm result
            | Inl e \<Rightarrow>
                (case AsRejection e of
                   Some rejection \<Rightarrow> rejectionReply sm rejection
                 | None \<Rightarrow> \<lparr>rp_Code = 451, rp_Enhanced = (4, 3, 0), rp_Message = ''temporarily unable to accept the message, try again''\<rparr>), lm') }))"

definition session_Reset :: "session \<Rightarrow> session" where
  "session_Reset s = s\<lparr>ss_envelopeFrom := [], ss_recipients := []\<rparr>"

section \<open>A connection\<close>

datatype smtp_event =
    EvAuth bool string "string option list"
  | EvMail string
  | EvRcpt string
  | EvData reader "smtp_reply option"
  | EvReset

fun smtp_step :: "('l, 'h) smtpd \<Rightarrow> smtp_event \<Rightarrow> session \<Rightarrow> 'l Limiter \<Rightarrow> (smtp_reply option \<times> session \<times> 'l Limiter) prog" where
  "smtp_step sm (EvAuth encrypted mech rs) s lm =
     (case session_Auth sm encrypted mech of
        Inl rep \<Rightarrow> ret (Some rep, s, lm)
      | Inr srv \<Rightarrow> do { (step, s') \<leftarrow> auth_exchange sm rs srv s;
                        ret (case step of Some (SaslError rep) \<Rightarrow> rep | _ \<Rightarrow> None, s', lm) })"
| "smtp_step sm (EvMail from) s lm = (case session_Mail s from of (r, s') \<Rightarrow> ret (r, s', lm))"
| "smtp_step sm (EvRcpt to) s lm = (case session_Rcpt sm s to of (r, s') \<Rightarrow> ret (r, s', lm))"
| "smtp_step sm (EvData r broken) s lm = do { (rep, lm') \<leftarrow> session_Data sm s r broken lm; ret (Some rep, s, lm') }"
| "smtp_step sm EvReset s lm = ret (None, session_Reset s, lm)"

inductive smtp_reach :: "('l, 'h) smtpd \<Rightarrow> session \<Rightarrow> bool" for sm where
  smtp_new: "smtp_reach sm (newSession ip)"
| smtp_call: "smtp_reach sm s \<Longrightarrow> run_state (smtp_step sm e s lm) w = ((r, s', lm'), w') \<Longrightarrow> smtp_reach sm s'"

section \<open>Who may submit\<close>

text \<open>What a session knows: its credential was let in at some moment, and its recipients are normal and within the limit.\<close>

definition let_in_once :: "('l, 'h) smtpd \<Rightarrow> AuthCredential \<Rightarrow> bool" where
  "let_in_once sm ac \<longleftrightarrow> Usable ac \<and> (\<exists>username password w w'. run_state (SMTPUser (sd_authenticator sm) username password) w = (Inr ac, w'))"

lemma SMTPUser_usable: "run_state (SMTPUser st u p) w = (Inr ac, w') \<Longrightarrow> Usable ac"
  by (auto simp: SMTPUser_def Usable_def answers_def split: sum.splits dest!: authn_verify_Inr)

lemma session_authenticate_run:
  assumes "run_state (session_authenticate sm s u p) w = ((e, s'), w')"
  shows "s' = s \<or> (\<exists>ac. s' = s\<lparr>ss_credential := ac, ss_authenticated := True\<rparr> \<and> let_in_once sm ac)"
proof -
  obtain r w1 where r: "run_state (SMTPUser (sd_authenticator sm) u p) w = (r, w1)" by fastforce
  with assms show ?thesis using SMTPUser_usable [of "sd_authenticator sm" u p w _ w1]
    by (auto simp: session_authenticate_def let_in_once_def split: sum.splits if_splits)
qed

lemma sasl_Next_run:
  assumes "run_state (sasl_Next sm srv r s) w = ((step, s'), w')"
  shows "s' = s \<or> (\<exists>ac. s' = s\<lparr>ss_credential := ac, ss_authenticated := True\<rparr> \<and> let_in_once sm ac)"
  using assms
  by (auto simp: sasl_Next_def loginServer_Next_def Let_def split: sasl_server.splits plain_answer.splits if_splits prod.splits option.splits
      dest!: session_authenticate_run)

lemma auth_exchange_run:
  assumes "run_state (auth_exchange sm rs srv s) w = ((step, s'), w')"
  shows "s' = s \<or> (\<exists>ac. s' = s\<lparr>ss_credential := ac, ss_authenticated := True\<rparr> \<and> let_in_once sm ac)"
  using assms
proof (induction rs arbitrary: srv s w)
  case (Cons r rs)
  obtain st s1 w1 where n: "run_state (sasl_Next sm srv r s) w = ((st, s1), w1)" by (metis surj_pair)
  show ?case
  proof (cases st)
    case (Challenge c srv')
    with Cons.prems n have "run_state (auth_exchange sm rs srv' s1) w1 = ((step, s'), w')" by simp
    from Cons.IH [OF this] sasl_Next_run [OF n] show ?thesis by auto
  qed (use Cons.prems n sasl_Next_run [OF n] in auto)
qed simp

text \<open>The protocol seen from outside: how a session may change, with all of the implementation's failures left to \<open>sess_stays\<close>.\<close>

inductive session_move :: "('l, 'h) smtpd \<Rightarrow> smtp_event \<Rightarrow> session \<Rightarrow> session \<Rightarrow> bool" for sm where
  sess_stays: "session_move sm e s s"
| sess_auth: "let_in_once sm ac \<Longrightarrow> session_move sm (EvAuth True mech rs) s (s\<lparr>ss_credential := ac, ss_authenticated := True\<rparr>)"
| sess_mail: "ss_authenticated s \<Longrightarrow> session_move sm (EvMail from) s (s\<lparr>ss_envelopeFrom := from, ss_recipients := []\<rparr>)"
| sess_rcpt: "ss_authenticated s \<Longrightarrow> ParseAddress (st_idna (sd_authenticator sm)) to = Inr a \<Longrightarrow>
    int (length (ss_recipients s)) < sdc_MaxRecipients (sd_cfg sm) \<Longrightarrow>
    session_move sm (EvRcpt to) s (s\<lparr>ss_recipients := ss_recipients s @ [Address_String a]\<rparr>)"
| sess_reset: "session_move sm EvReset s (session_Reset s)"

lemma smtp_step_move:
  assumes "run_state (smtp_step sm e s lm) w = ((r, s', lm'), w')"
  shows "session_move sm e s s'"
proof (cases e)
  case (EvAuth encrypted mech rs)
  with assms show ?thesis
    by (auto simp: session_Auth_def split: sum.splits if_splits prod.splits dest!: auth_exchange_run intro: session_move.intros)
qed (use assms in \<open>auto simp: session_Mail_def session_Rcpt_def session_Data_def split: sum.splits if_splits prod.splits intro: session_move.intros\<close>)

definition session_ok :: "('l, 'h) smtpd \<Rightarrow> session \<Rightarrow> bool" where
  "session_ok sm s \<longleftrightarrow> (if ss_authenticated s then let_in_once sm (ss_credential s) else ss_recipients s = [] \<and> ss_envelopeFrom s = []) \<and>
     (ss_recipients s = [] \<or> int (length (ss_recipients s)) \<le> sdc_MaxRecipients (sd_cfg sm)) \<and>
     (\<forall>r \<in> set (ss_recipients s). \<exists>to a. ParseAddress (st_idna (sd_authenticator sm)) to = Inr a \<and> r = Address_String a)"

lemma session_move_ok: "session_move sm e s s' \<Longrightarrow> session_ok sm s \<Longrightarrow> session_ok sm s'"
  by (induction rule: session_move.induct) (fastforce simp: session_ok_def session_Reset_def split: if_splits)+

lemma smtp_reach_ok: "smtp_reach sm s \<Longrightarrow> session_ok sm s"
proof (induction rule: smtp_reach.induct)
  case (smtp_call s e lm w r s' lm' w')
  then show ?case by (blast intro: session_move_ok smtp_step_move)
qed (simp add: session_ok_def newSession_def)

lemma smtp_step_locked:
  assumes "\<not> ss_authenticated s" "run_state (smtp_step sm e s lm) w = ((r, s', lm'), w')"
  shows "case e of EvAuth encrypted mech rs \<Rightarrow> True | EvReset \<Rightarrow> w' = w \<and> lm' = lm
    | _ \<Rightarrow> r = Some auth_required \<and> s' = s \<and> w' = w \<and> lm' = lm"
  using assms by (cases e) (auto simp: session_Mail_def session_Rcpt_def session_Data_def)

lemma smtp_step_clear:
  assumes "run_state (smtp_step sm (EvAuth False mech rs) s lm) w = ((r, s', lm'), w')"
  shows "s' = s \<and> w' = w \<and> lm' = lm \<and> (\<exists>rep. r = Some rep \<and> rp_Code rep = 538)"
  using assms by (auto simp: session_Auth_def)

text \<open>
  C3: No anonymous relay, and no password in the clear. Whatever a client sends and whatever happens elsewhere in between: a session that is not
  authenticated answers MAIL, RCPT and DATA with 530 and changes nothing, neither itself nor the database nor the rate limits; AUTH on an unencrypted connection is answered with
  538 and changes nothing; and the credential of an authenticated session was at some moment accepted, usable, for a username
  and a password.
\<close>

theorem no_anonymous_relay:
  assumes "smtp_reach sm s" "run_state (smtp_step sm e s lm) w = ((r, s', lm'), w')"
  shows "(\<not> ss_authenticated s \<longrightarrow> (case e of EvAuth encrypted mech rs \<Rightarrow> ss_authenticated s' \<longrightarrow> encrypted | EvReset \<Rightarrow> w' = w \<and> lm' = lm
      | _ \<Rightarrow> r = Some auth_required \<and> s' = s \<and> w' = w \<and> lm' = lm)) \<and>
    (\<forall>mech rs. e = EvAuth False mech rs \<longrightarrow> s' = s \<and> w' = w \<and> lm' = lm \<and> (\<exists>rep. r = Some rep \<and> rp_Code rep = 538)) \<and>
    (ss_authenticated s' \<longrightarrow> let_in_once sm (ss_credential s'))"
proof -
  have "session_ok sm s'" using smtp_reach_ok [OF smtp_call [OF assms]] .
  then have "ss_authenticated s' \<longrightarrow> let_in_once sm (ss_credential s')" by (simp add: session_ok_def)
  moreover have "\<forall>mech rs. e = EvAuth False mech rs \<longrightarrow> s' = s \<and> w' = w \<and> lm' = lm \<and> (\<exists>rep. r = Some rep \<and> rp_Code rep = 538)"
    using assms(2) smtp_step_clear by blast
  ultimately show ?thesis using smtp_step_locked [OF _ assms(2)] smtp_step_clear [of sm _ _ s lm w r s' lm' w'] assms(2)
    by (cases e) (auto split: smtp_event.splits)
qed

section \<open>What an answer means\<close>

lemma rejection_code_range:
  "400 \<le> fst (rejection_code reason)" "fst (rejection_code reason) \<le> 599" "fst (rejection_code reason) \<noteq> 250"
  "fst (rejection_code reason) < 500 \<longleftrightarrow> reason = ReasonRateLimited \<or> reason = ReasonTooManyRecipients"
  by (auto simp: rejection_code_def ReasonSenderNotAllowed_def ReasonDomainNotConfigured_def ReasonRecipientNotAllowed_def
      ReasonCredentialUnusable_def ReasonRateLimited_def ReasonTooManyRecipients_def)

lemma rejectionReply_code: "rp_Code (rejectionReply sm rej) = fst (rejection_code (rej_Reason rej))"
  by (simp add: rejectionReply_def split: prod.splits)

text \<open>
  C14: 250 is a promise, and anything else is none. A submission is answered 250 only on a session that authenticated, when the message it read is authorised for the session's
  credential and stored, queued, with its payload and its job; the answer then names it. Any other answer is a 4xx or a 5xx, and
  unless it is 451 (try again) the payloads and the jobs are as they were. A refusal is a 4xx exactly when it is about the rate or the number of recipients.
\<close>

theorem smtp_answer_is_true:
  assumes "smtp_reach sm s" "adds_jobs (sv_enqueuer (sd_ingest sm))" "peers w = []" "db_inv (st_lower (sv_store (sd_ingest sm))) (tables w)"
    and "run_state (session_Data sm s r broken lm) w = ((rep, lm'), w')" "pred_option (\<lambda>b. rp_Code b \<in> {400..599}) broken"
  shows "(rp_Code rep = 250 \<longrightarrow> let_in_once sm (ss_credential s) \<and>
      (\<exists>raw msg rs rt row. ReadAll r (sdc_MaxMessageBytes (sd_cfg sm)) = Inr raw \<and>
         authorised (sd_ingest sm) (smtp_request s raw) (tables w) msg rs rt \<and>
         stored (smtp_request s raw) msg rs rt (clock w) (tables w) (tables w') row \<and>
         rp_Message rep = ''OK: queued as '' @ sv_uuid (sd_ingest sm) (msg_ID row))) \<and>
    (rp_Code rep \<noteq> 250 \<longrightarrow> rp_Code rep \<in> {400..599}) \<and>
    (rp_Code rep \<notin> {250, 451} \<longrightarrow> db_payloads (tables w') = db_payloads (tables w) \<and> db_jobs (tables w') = db_jobs (tables w)) \<and>
    (rp_Code (rejectionReply sm rej) < 500 \<longleftrightarrow> rej_Reason rej \<in> {ReasonRateLimited, ReasonTooManyRecipients})"
proof (cases "ss_authenticated s")
  case False
  with assms(5) show ?thesis by (auto simp: session_Data_def auth_required_def rejectionReply_code rejection_code_range)
next
  case True
  have l: "let_in_once sm (ss_credential s)" using smtp_reach_ok [OF assms(1)] True by (simp add: session_ok_def)
  note code = rejectionReply_code rejection_code_range
  show ?thesis
  proof (cases "ReadAll r (sdc_MaxMessageBytes (sd_cfg sm))")
    case (Inl c)
    with True assms(5,6) show ?thesis by (auto simp: session_Data_def code split: option.splits if_splits)
  next
    case (Inr raw)
    let ?req = "smtp_request s raw"
    obtain res lm1 w1 where sub: "run_state (Submit (sd_ingest sm) ?req lm) w = ((res, lm1), w1)" by (metis surj_pair)
    note o = Submit_outcome [OF assms(2-4) sub]
    have key: "\<not> replayed (sd_ingest sm) ?req (clock w) (tables w) x" for x by (simp add: replayed_def smtp_request_def)
    have run: "w' = w1" "rep = (case res of Inr result \<Rightarrow> acceptedReply sm result
        | Inl e \<Rightarrow> (case AsRejection e of Some rejection \<Rightarrow> rejectionReply sm rejection
            | None \<Rightarrow> \<lparr>rp_Code = 451, rp_Enhanced = (4, 3, 0), rp_Message = ''temporarily unable to accept the message, try again''\<rparr>))"
      using assms(5) True Inr sub by (simp_all add: session_Data_def)
    show ?thesis
    proof (cases res)
      case (Inl e)
      with o run show ?thesis
        by (cases e) (auto simp: submit_outcome_def refused_row_def AsRejection_def code)
    next
      case res: (Inr result)
      with o key obtain msg rs rt row where a: "authorised (sd_ingest sm) ?req (tables w) msg rs rt"
        "stored ?req msg rs rt (clock w) (tables w) (tables w1) row" "res_ID result = msg_ID row" "\<not> res_Duplicate result"
        by (auto simp: submit_outcome_def)
      with run res have "rp_Code rep = 250" "rp_Message rep = ''OK: queued as '' @ sv_uuid (sd_ingest sm) (msg_ID row)"
        by (simp_all add: acceptedReply_def)
      with l a Inr run(1) show ?thesis by (auto simp: code)
    qed
  qed
qed

section \<open>Recipients\<close>

lemma session_recipients_normal:
  assumes "smtp_reach sm s" "idna_lawful (st_idna (sd_authenticator sm))" "r \<in> set (ss_recipients s)"
  shows "\<exists>a. ParseAddress (st_idna (sd_authenticator sm)) r = Inr a \<and> Address_String a = r"
proof -
  from smtp_reach_ok [OF assms(1)] assms(3) obtain to a where "ParseAddress (st_idna (sd_authenticator sm)) to = Inr a" "r = Address_String a"
    by (auto simp: session_ok_def)
  with addr_form.reparse [OF assms(2)] show ?thesis by blast
qed

text \<open>
  A bad recipient is refused when it is named. Nothing that RCPT accepted is refused at DATA for its syntax or its number: as long as the
  server's limit is not above the pipeline's, the pipeline refuses the envelope of a session only when it is empty or when the credential's recipient list
  forbids an address; otherwise it keeps exactly the session's recipients.
\<close>

theorem rcpt_refuses_early:
  assumes "smtp_reach sm s" "sd_authenticator sm = sv_store (sd_ingest sm)" "idna_lawful (st_idna (sd_authenticator sm))"
    and "sdc_MaxRecipients (sd_cfg sm) \<le> cfg_MaxRecipients (sv_cfg (sd_ingest sm))"
  shows "case validateRecipients (sd_ingest sm) (smtp_request s raw) of
      Inr out \<Rightarrow> set out = set (ss_recipients s) \<and> distinct out
    | Inl rej \<Rightarrow> (if ss_recipients s = [] then rej_Reason rej = ReasonNoRecipients else rej_Reason rej = ReasonRecipientNotAllowed)"
proof -
  let ?x = "st_idna (sd_authenticator sm)" and ?rules = "ac_Recipients (ss_credential s)"
  note ok = smtp_reach_ok [OF assms(1), unfolded session_ok_def] and norm = session_recipients_normal [OF assms(1,3)]
  have parses: "list_all (\<lambda>r. \<exists>a. ParseAddress ?x r = Inr a) (ss_recipients s)" using norm by (fastforce simp: list_all_iff)
  show ?thesis
  proof (cases "validateRecipients (sd_ingest sm) (smtp_request s raw)")
    case (Inl rej)
    then show ?thesis
      using recipient_loop_parses [OF parses, of ?rules "[]"] ok assms(2,4)
      by (auto simp: validateRecipients_def smtp_request_def refusal_def split: if_splits)
  next
    case (Inr out)
    then have "envelope_ok ?x ?rules (ss_recipients s) out"
      using validateRecipients_Inr(1) [OF Inr] assms(2) by (simp add: smtp_request_def)
    moreover have "{Address_String a | a raw. raw \<in> set (ss_recipients s) \<and> ParseAddress ?x raw = Inr a} = set (ss_recipients s)"
      using norm by force
    ultimately show ?thesis using Inr by (simp add: envelope_ok_def)
  qed
qed

section \<open>Two weaknesses\<close>

text \<open>
  AUTH LOGIN without an initial response cannot succeed. The exchange takes a missing initial response for an empty username, so the client's next
  response, the username, is tried as the password of nobody and refused with 535, without asking the database.
\<close>

theorem login_needs_initial_response:
  assumes "to_upper (sd_text sm) mech = ''LOGIN''"
    and "run_state (smtp_step sm (EvAuth True mech (None # Some username # rs)) s lm) w = ((r, s', lm'), w')"
  shows "s' = s \<and> w' = w \<and> (\<exists>rep. r = Some rep \<and> rp_Code rep = 535)"
proof -
  have "NormalizeSMTPUsername x [] = Inl EmptyUsername" for x
    by (simp add: NormalizeSMTPUsername_def to_lower_def)
  then show ?thesis using assms
    by (auto simp: session_Auth_def sasl_Next_def loginServer_Next_def session_authenticate_def SMTPUser_def)
qed

section \<open>Witnesses\<close>

definition demo_smtpd :: "(unit, (string \<times> string) list) smtpd" where
  "demo_smtpd = \<lparr>sd_ingest = demo_service, sd_authenticator = demo_store,
     sd_cfg = \<lparr>sdc_Domain = ''relais'', sdc_Addr = '':587'', sdc_TLSAddr = [], sdc_ReadTimeout = 0, sdc_WriteTimeout = 0, sdc_ShutdownTimeout = 0,
       sdc_MaxMessageBytes = 1000, sdc_MaxRecipients = 5, sdc_MaxConnections = 0\<rparr>,
     sd_plain = (\<lambda>_. PlainBad), sd_text = plain_text, sd_detail = (\<lambda>_. [])\<rparr>"

definition smtp_cred :: Credential where
  "smtp_cred = known_cred\<lparr>cred_Type := CredentialTypeSMTPUser, cred_Lookup := ''blog''\<rparr>"

definition smtp_world :: world where
  "smtp_world = mail_world\<lparr>tables := mail_db\<lparr>db_credentials := [smtp_cred]\<rparr>\<rparr>"

text \<open>The calls of a client, one after the other, with the answers in the reverse order.\<close>

fun smtp_calls :: "('l, 'h) smtpd \<Rightarrow> smtp_event list \<Rightarrow> smtp_reply option list \<Rightarrow> session \<Rightarrow> 'l Limiter \<Rightarrow>
    (smtp_reply option list \<times> session \<times> 'l Limiter) prog" where
  "smtp_calls sm [] rs s lm = ret (rs, s, lm)"
| "smtp_calls sm (e # es) rs s lm = do { (r, s', lm') \<leftarrow> smtp_step sm e s lm; smtp_calls sm es (r # rs) s' lm' }"

definition demo_login :: "smtp_event list" where
  "demo_login = [EvAuth True ''LOGIN'' [Some ''blog'', Some ''s3cret'']]"

definition demo_mailing :: "smtp_event list" where
  "demo_mailing = [EvMail ''bounce@example.net'', EvRcpt ''Eve@mail.example.org'', EvData \<lparr>content = demo_mail, fails = False\<rparr> None]"

lemma smtp_calls_reach:
  "smtp_reach sm s \<Longrightarrow> run_state (smtp_calls sm es rs s lm) w = ((rs', s', lm'), w') \<Longrightarrow> smtp_reach sm s'"
proof (induction es arbitrary: rs s lm w)
  case (Cons e es)
  obtain r s1 lm1 w1 where "run_state (smtp_step sm e s lm) w = ((r, s1, lm1), w1)" by (metis surj_pair)
  with Cons smtp_call [OF Cons.prems(1) this] show ?case by auto
qed simp

text \<open>
  An open session outlives the revocation of its credential: a client that logged in before still gets its message accepted.
\<close>

lemma demo_sessions:
  "(case run_state (smtp_calls demo_smtpd demo_login [] (newSession None) no_buckets) smtp_world of ((rs, s, lm), w) \<Rightarrow>
   case run_state (RevokeCredential demo_store 11) w of (row, w') \<Rightarrow>
   rs = [None] \<and> \<not> isl row \<and> list_all (\<lambda>c. cred_RevokedAt c \<noteq> None) (db_credentials (tables w')) \<and>
   map (map_option rp_Code) (fst (fst (run_state (smtp_calls demo_smtpd demo_mailing [] s lm) w'))) = [Some 250, None, None]) \<and>
   ((case run_state (smtp_calls demo_smtpd (demo_login @ butlast demo_mailing) [] (newSession None) no_buckets) smtp_world of ((rs, s, lm), w) \<Rightarrow>
     rs = [None, None, None] \<and> ss_authenticated s \<and> ss_recipients s = [''eve@mail.example.org''] \<and>
     rp_Code (fst (fst (run_state (session_Data demo_smtpd s \<lparr>content = demo_mail, fails = False\<rparr> None lm) smtp_world))) = 250))"
  by code_simp

lemmas revocation_misses_open_sessions = demo_sessions [THEN conjunct1]
lemmas demo_logged_in = demo_sessions [THEN conjunct2]

lemma smtp_inv: "db_inv (st_lower demo_store) (tables smtp_world)"
  by code_simp

definition demo_data :: reader where
  "demo_data = \<lparr>content = demo_mail, fails = False\<rparr>"

lemma demo_session:
  obtains s lm where "smtp_reach demo_smtpd s" "ss_authenticated s" "ss_recipients s = [''eve@mail.example.org'']"
    "rp_Code (fst (fst (run_state (session_Data demo_smtpd s demo_data None lm) smtp_world))) = 250"
proof -
  obtain rs s lm w where r: "run_state (smtp_calls demo_smtpd (demo_login @ butlast demo_mailing) [] (newSession None) no_buckets) smtp_world = ((rs, s, lm), w)"
    by (metis surj_pair)
  from smtp_calls_reach [OF smtp_new r] demo_logged_in r that show ?thesis by (auto simp: demo_data_def)
qed

theorem no_anonymous_relay_witness:
  "\<exists>s lm rep s' lm' w'. smtp_reach demo_smtpd s \<and>
     run_state (smtp_step demo_smtpd (EvData demo_data None) s no_buckets) smtp_world = ((Some auth_required, s', lm'), w') \<and> w' = smtp_world"
proof -
  obtain r s' lm' w' where r: "run_state (smtp_step demo_smtpd (EvData demo_data None) (newSession None) no_buckets) smtp_world = ((r, s', lm'), w')"
    by (metis surj_pair)
  from no_anonymous_relay [OF smtp_new r] have "r = Some auth_required \<and> w' = smtp_world" by (simp add: newSession_def)
  with r smtp_new show ?thesis by blast
qed

lemma demo_smtpd_facts: "sd_ingest demo_smtpd = demo_service" "sd_authenticator demo_smtpd = demo_store" "peers smtp_world = []"
  "sdc_MaxRecipients (sd_cfg demo_smtpd) \<le> cfg_MaxRecipients (sv_cfg (sd_ingest demo_smtpd))"
  by (simp_all add: demo_smtpd_def smtp_world_def demo_service_def demo_config_def)

theorem smtp_answer_is_true_witness:
  "\<exists>s lm rep lm' w' raw msg rs rt row. run_state (session_Data demo_smtpd s demo_data None lm) smtp_world = ((rep, lm'), w') \<and>
     rp_Code rep = 250 \<and> stored (smtp_request s raw) msg rs rt (clock smtp_world) (tables smtp_world) (tables w') row"
proof -
  obtain s lm where s: "smtp_reach demo_smtpd s" "rp_Code (fst (fst (run_state (session_Data demo_smtpd s demo_data None lm) smtp_world))) = 250"
    using demo_session by blast
  obtain rep lm' w' where r: "run_state (session_Data demo_smtpd s demo_data None lm) smtp_world = ((rep, lm'), w')" by (metis surj_pair)
  have "rp_Code rep = 250" using s(2) r by simp
  with smtp_answer_is_true [OF s(1) _ _ _ r] r show ?thesis
    using smtp_inv by (fastforce simp: demo_smtpd_facts demo_service_facts)
qed

theorem rcpt_refuses_early_witness:
  "\<exists>s out. smtp_reach demo_smtpd s \<and> ss_recipients s = [''eve@mail.example.org''] \<and>
     (validateRecipients demo_service (smtp_request s []) = Inr [''eve@mail.example.org''] \<or>
      validateRecipients demo_service (smtp_request s []) = Inl out \<and> rej_Reason out = ReasonRecipientNotAllowed)"
proof -
  obtain s where s: "smtp_reach demo_smtpd s" "ss_recipients s = [''eve@mail.example.org'']" using demo_session by blast
  have d: "out = [a]" if "set out = {a}" "distinct out" for out and a :: string
    using that by (cases out; cases "tl out") auto
  show ?thesis using rcpt_refuses_early [OF s(1) _ _ demo_smtpd_facts(4), of "[]"] s demo_store_lawful
    by (auto simp: demo_smtpd_facts demo_service_facts split: sum.splits dest: d)
qed

theorem login_needs_initial_response_witness:
  "\<exists>r s' lm' w'. run_state (smtp_step demo_smtpd (EvAuth True ''login'' [None, Some ''blog'']) (newSession None) no_buckets) smtp_world =
     ((Some r, s', lm'), w') \<and> rp_Code r = 535"
proof -
  obtain r s' lm' w' where r: "run_state (smtp_step demo_smtpd (EvAuth True ''login'' [None, Some ''blog'']) (newSession None) no_buckets) smtp_world =
     ((r, s', lm'), w')" by (metis surj_pair)
  have "to_upper (sd_text demo_smtpd) ''login'' = ''LOGIN''" by code_simp
  from login_needs_initial_response [OF this r] r show ?thesis by auto
qed

end
