(* ===== verification/Jobs.thy ===== *)
theory Jobs
  imports Sender Store_Email
begin

text \<open>
  The delivery worker and the retention sweep: \<^verbatim>\<open>src/internal/jobs/jobs.go\<close>.

  \<^verbatim>\<open>river\<close> calls \<^verbatim>\<open>Work\<close>, and calls it again later when it returned an error and attempts are left; \<open>job_outcome\<close> is what it
  sees. The worker's deliverer is the sender (\<^verbatim>\<open>Sender\<close>); it may behave differently at every attempt. \<open>wk_text\<close> and
  \<open>wk_quote\<close> are the texts of errors and \<^verbatim>\<open>%q\<close>. Besides its outcome, \<open>Work\<close> reports what it handed to the relay.
\<close>

section \<open>The interface to the sender\<close>

locale deliverer =
  fixes send :: "SenderRoute \<Rightarrow> Outbound \<Rightarrow> Send_Result \<times> Send_Error option"
  assumes reports_everyone: "send route msg = (res, None) \<Longrightarrow>
    sr_Accepted res \<noteq> [] \<and> set (out_Recipients msg) = set (sr_Accepted res) \<union> rr_Address ` set (sr_Rejected res)"
begin

lemma full_delivery: "send route msg = (res, None) \<Longrightarrow> \<not> Partial res \<Longrightarrow> set (sr_Accepted res) = set (out_Recipients msg)"
  using reports_everyone [of route msg res] by (simp add: Partial_def)

lemma someone_accepted: "send route msg = (res, None) \<Longrightarrow> \<exists>r \<in> set (out_Recipients msg). r \<in> set (sr_Accepted res)"
  using reports_everyone [of route msg res] by (cases "sr_Accepted res") auto

end

interpretation dlv: deliverer "\<lambda>route msg. snd (Send x cfg slot route rl msg)" for x cfg slot rl
proof
  fix route msg res
  assume a: "snd (Send x cfg slot route rl msg) = (res, None)"
  then obtain ws where s: "Send x cfg slot route rl msg = (ws, res, None)" by (metis prod.collapse)
  from s show "sr_Accepted res \<noteq> [] \<and> set (out_Recipients msg) = set (sr_Accepted res) \<union> rr_Address ` set (sr_Rejected res)"
  proof (cases rule: Send_cases)
    case (delivering ws1 ws2 ws3)
    obtain acc rej where r: "rcpt_loop rl 0 (out_Recipients msg) = (acc, rej)" by fastforce
    have "sr_Accepted res = acc \<and> sr_Rejected res = rej \<and> acc \<noteq> []"
      using delivering(3) r by (auto simp: deliver_def Let_def split: option.splits if_splits sum.splits)
    with rcpt_loop_parts(4) [OF r] show ?thesis by simp
  qed simp
qed

section \<open>The worker\<close>

datatype job_outcome = JobDone | JobCancelled | JobError

record job =
  job_MessageID :: uuid
  job_Attempt :: int
  job_MaxAttempts :: int

record worker =
  wk_store :: Store
  wk_send :: "int \<Rightarrow> SenderRoute \<Rightarrow> Outbound \<Rightarrow> Send_Result \<times> Send_Error option"
  wk_text :: "store_error \<Rightarrow> string"
  wk_quote :: "string \<Rightarrow> string"

type_synonym handed = "(SenderRoute \<times> Outbound \<times> Send_Result \<times> Send_Error option) option"

definition work_permanent :: "worker \<Rightarrow> uuid \<Rightarrow> string \<Rightarrow> string \<Rightarrow> job_outcome prog" where
  "work_permanent wk i code detail =
     do { r \<leftarrow> MarkFailed (wk_store wk) i code detail; ret (case r of Inl _ \<Rightarrow> JobError | Inr _ \<Rightarrow> JobCancelled) }"

definition work_transient :: "worker \<Rightarrow> job \<Rightarrow> string \<Rightarrow> string \<Rightarrow> job_outcome prog" where
  "work_transient wk jb code detail =
     (if job_Attempt jb \<ge> job_MaxAttempts jb
      then do { r \<leftarrow> MarkFailed (wk_store wk) (job_MessageID jb) code detail; ret (case r of Inl _ \<Rightarrow> JobError | Inr _ \<Rightarrow> JobCancelled) }
      else do { _ \<leftarrow> MarkRetrying (wk_store wk) (job_MessageID jb) code detail; ret JobError })"

definition outbound_of :: "EmailMessage \<Rightarrow> string \<Rightarrow> Outbound" where
  "outbound_of msg payload = \<lparr>out_From = msg_FromAddr msg, out_Recipients = msg_EnvelopeRecipients msg, out_Raw = payload\<rparr>"

text \<open>The last part of \<^verbatim>\<open>Work\<close>: hand the message to the relay and record what came of it.\<close>

definition work_send :: "worker \<Rightarrow> job \<Rightarrow> EmailMessage \<Rightarrow> string \<Rightarrow> SenderRoute \<Rightarrow> (job_outcome \<times> handed) prog" where
  "work_send wk jb msg payload route =
     (let i = job_MessageID jb; m = outbound_of msg payload; (result, err) = wk_send wk (job_Attempt jb) route m;
          given = Some (route, m, result, err) in
      case err of
        Some e \<Rightarrow>
          if IsPermanent e then do { o' \<leftarrow> work_permanent wk i (se_Code e) (Send_Error_text e); ret (o', given) }
          else do { o' \<leftarrow> work_transient wk jb (se_Code e) (Send_Error_text e); ret (o', given) }
      | None \<Rightarrow>
          if Partial result then do {
            r \<leftarrow> MarkSentPartial (wk_store wk) i CodePartialRecipients (RejectedDetail result);
            ret (case r of Inl _ \<Rightarrow> JobError | Inr _ \<Rightarrow> JobDone, given) }
          else do {
            r \<leftarrow> MarkSent (wk_store wk) i;
            ret (case r of Inl _ \<Rightarrow> JobCancelled | Inr _ \<Rightarrow> JobDone, given) })"

definition Work :: "worker \<Rightarrow> job \<Rightarrow> (job_outcome \<times> handed) prog" where
  "Work wk jb =
     (let i = job_MessageID jb; s = wk_store wk in do {
        g \<leftarrow> GetMessage i;
        case g of
          Inl e \<Rightarrow> ret (if e = ErrNotFound then JobCancelled else JobError, None)
        | Inr msg \<Rightarrow>
            if msg_Status msg = StatusSent then ret (JobDone, None)
            else do {
              c \<leftarrow> MarkSending s i;
              case c of
                Inl _ \<Rightarrow> ret (JobError, None)
              | Inr claimed \<Rightarrow>
                  if \<not> claimed then ret (JobDone, None)
                  else do {
                    p \<leftarrow> GetPayload i;
                    case p of
                      Inl e \<Rightarrow>
                        if e = ErrNotFound then do {
                          o' \<leftarrow> work_permanent wk i ''payload_purged'' ''the message body was purged by retention before it could be delivered'';
                          ret (o', None) }
                        else ret (JobError, None)
                    | Inr payload \<Rightarrow> do {
                        rt \<leftarrow> RouteForMessage s msg;
                        case rt of
                          Inl e \<Rightarrow>
                            if e = ErrNotFound then do {
                              o' \<leftarrow> work_permanent wk i ''backend_missing'' ''the backend this message was routed to no longer exists'';
                              ret (o', None) }
                            else do { o' \<leftarrow> work_transient wk jb ''backend_unavailable'' (wk_text wk e); ret (o', None) }
                        | Inr (route, enabled) \<Rightarrow>
                            if \<not> enabled then do {
                              o' \<leftarrow> work_transient wk jb ''backend_disabled'' (''backend '' @ wk_quote wk (sr_BackendName route) @ '' is disabled'');
                              ret (o', None) }
                            else work_send wk jb msg payload route } } } })"

definition PurgePayloads_Work :: "int \<Rightarrow> int \<Rightarrow> job_outcome prog" where
  "PurgePayloads_Work sentRetention failedRetention =
     do { r \<leftarrow> PurgePayloads sentRetention failedRetention; ret (case r of Inl _ \<Rightarrow> JobError | Inr _ \<Rightarrow> JobDone) }"

text \<open>
  \<^verbatim>\<open>NewEnqueuer\<close> and \<^verbatim>\<open>Enqueue\<close>; \<open>insertTx\<close> is \<^verbatim>\<open>river\<close>'s insertion of a job for a message with a queue and a number of attempts.
\<close>

definition QueueEmailSend :: string where "QueueEmailSend = ''email_send''"

definition enqueuer_attempts :: "int \<Rightarrow> int" where
  "enqueuer_attempts maxAttempts = (if maxAttempts \<le> 0 then 8 else maxAttempts)"

definition Enqueue :: "(uuid \<Rightarrow> string \<Rightarrow> int \<Rightarrow> (pg_error, unit) result prog) \<Rightarrow> int \<Rightarrow> uuid \<Rightarrow> (pg_error, unit) result prog" where
  "Enqueue insertTx maxAttempts messageID =
     orelse (insertTx messageID QueueEmailSend (enqueuer_attempts maxAttempts)) (\<lambda>e. e) (\<lambda>_. ret (Inr ()))"

text \<open>What \<^verbatim>\<open>river\<close> does with a job: attempt after attempt while \<^verbatim>\<open>Work\<close> returns an error and attempts are left.\<close>

primrec run_attempts :: "worker \<Rightarrow> uuid \<Rightarrow> int \<Rightarrow> nat \<Rightarrow> job_outcome prog" where
  "run_attempts wk i mx 0 = ret JobError"
| "run_attempts wk i mx (Suc n) =
     do { (o', _) \<leftarrow> Work wk \<lparr>job_MessageID = i, job_Attempt = mx - int n, job_MaxAttempts = mx\<rparr>;
          if o' = JobError then run_attempts wk i mx n else ret o' }"

section \<open>What is handed to the relay\<close>

lemma message_unique:
  assumes "db_inv lower d" "m \<in> set (db_messages d)" "m' \<in> set (db_messages d)" "msg_ID m = msg_ID m'"
  shows "m = m'"
proof -
  have "distinct (map msg_ID (db_messages d))"
    using assms(1) by (simp add: db_inv_def table_ok_iff message_schema_def distinct_sorted_wrt)
  with assms(2-4) show ?thesis by (auto simp: distinct_map inj_on_def)
qed

lemma MarkSending_alone:
  assumes "peers w = []" "run_state (MarkSending s i) w = (r, w')"
  shows "peers w' = []" "\<exists>ms. tables w' = (tables w)\<lparr>db_messages := ms\<rparr>"
    "r = Inr True \<Longrightarrow> \<exists>m \<in> set (db_messages (tables w)). msg_ID m = i \<and> msg_Status m \<in> {StatusQueued, StatusSending}"
proof -
  note a = alone_op [OF assms(1) assms(2) [unfolded MarkSending_def]]
  have u: "\<exists>ms. snd (update_messages lower p f now d) = d\<lparr>db_messages := ms\<rparr>" for lower p f now d
    by (auto simp: update_messages_def wrote_def split: sum.splits intro: exI [of _ "db_messages d"])
  have same: "\<exists>ms. d = d\<lparr>db_messages := ms\<rparr>" for d :: db by (rule exI [of _ "db_messages d"]) simp
  have q: "\<exists>ms. snd (Queries_MarkEmailSending lower i now d) = d\<lparr>db_messages := ms\<rparr>" for lower now d
    using u same by (auto simp: Queries_MarkEmailSending_def Let_def)
  show "peers w' = []" by (rule a(1))
  show "\<exists>ms. tables w' = (tables w)\<lparr>db_messages := ms\<rparr>" using a(2) q same by metis
  show "\<exists>m \<in> set (db_messages (tables w)). msg_ID m = i \<and> msg_Status m \<in> {StatusQueued, StatusSending}" if "r = Inr True"
  proof -
    from a(3) [OF that] obtain n where "True = (n > 0)" "fst (Queries_MarkEmailSending (st_lower s) i (clock w) (tables w)) = Inr n" by blast
    then have "0 < affected (\<lambda>m. msg_ID m = i \<and> msg_Status m \<in> {StatusQueued, StatusSending}) (db_messages (tables w))"
      by (auto simp: Queries_MarkEmailSending_def update_messages_def wrote_def Let_def split: if_splits sum.splits)
    then show ?thesis by (auto simp: affected_def filter_empty_conv length_greater_0_conv)
  qed
qed

lemma GetPayload_alone:
  assumes "peers w = []" "run_state (GetPayload i) w = (r, w')"
  shows "tables w' = tables w \<and> peers w' = []" "r = Inr raw \<Longrightarrow> \<exists>y \<in> set (db_payloads (tables w)). pay_EmailMessageID y = i \<and> pay_Raw y = raw"
  using alone_op [OF assms(1) assms(2) [unfolded GetPayload_def]]
  by (auto simp: Queries_GetEmailPayload_def one_row_def split: option.splits dest!: find_SomeD)

definition pinned :: "Store \<Rightarrow> db \<Rightarrow> EmailMessage \<Rightarrow> SenderRoute \<Rightarrow> bool \<Rightarrow> bool" where
  "pinned s d m route enabled \<longleftrightarrow> (\<exists>b \<in> set (db_backends d). \<exists>pw. msg_SmtpBackendID m = Some (be_ID b) \<and> be_Enabled b = enabled \<and>
     OpenBackendPassword s (be_AuthPasswordSealed b) = Inr pw \<and> route = route_of uuid_Nil (msg_FromDomain m) b pw)"

lemma RouteForMessage_alone:
  assumes "peers w = []" "run_state (RouteForMessage s m) w = (r, w')"
  shows "tables w' = tables w \<and> peers w' = []" "r = Inr (route, enabled) \<Longrightarrow> pinned s (tables w) m route enabled"
proof -
  have "(tables w' = tables w \<and> peers w' = []) \<and> (r = Inr (route, enabled) \<longrightarrow> pinned s (tables w) m route enabled)"
  proof (cases "msg_SmtpBackendID m")
    case None
    with assms show ?thesis by (auto simp: RouteForMessage_def)
  next
    case (Some i)
    obtain t w1 where t: "run_state (exec (\<lambda>now uid. Queries_GetSenderRouteForBackend i)) w = (t, w1)" by fastforce
    note a = alone_exec [OF assms(1) t]
    have w': "w' = w1" using assms(2) t Some by (auto simp: RouteForMessage_def orelse_run split: sum.splits)
    have q: "snd (Queries_GetSenderRouteForBackend i d) = d" for d by (simp add: Queries_GetSenderRouteForBackend_def one_row_def)
    have "pinned s (tables w) m route enabled" if "r = Inr (route, enabled)"
    proof -
      from that assms(2) t Some obtain b pw where "t = Inr b" "OpenBackendPassword s (be_AuthPasswordSealed b) = Inr pw"
        "route = route_of uuid_Nil (msg_FromDomain m) b pw" "enabled = be_Enabled b"
        by (auto simp: RouteForMessage_def orelse_run split: sum.splits)
      moreover from this a(3) have "b \<in> set (db_backends (tables w)) \<and> be_ID b = i"
        by (auto simp: Queries_GetSenderRouteForBackend_def one_row_def split: option.splits dest!: find_SomeD)
      ultimately show ?thesis using Some by (auto simp: pinned_def)
    qed
    with a q w' show ?thesis by auto
  qed
  then show "tables w' = tables w \<and> peers w' = []" "r = Inr (route, enabled) \<Longrightarrow> pinned s (tables w) m route enabled" by auto
qed

lemma work_send_handed:
  assumes "run_state (work_send wk jb m payload route) w = ((out, given), w')"
  shows "given = Some (route, outbound_of m payload, wk_send wk (job_Attempt jb) route (outbound_of m payload))"
  using assms by (auto simp: work_send_def Let_def split: prod.splits option.splits if_splits sum.splits)

lemma Work_handed:
  assumes "run_state (Work wk jb) w = ((out, Some (route, ob, answer)), w')"
  obtains m w1 w2 w3 payload w4 where "run_state (GetMessage (job_MessageID jb)) w = (Inr m, w1)" "msg_Status m \<noteq> StatusSent"
    "run_state (MarkSending (wk_store wk) (job_MessageID jb)) w1 = (Inr True, w2)"
    "run_state (GetPayload (job_MessageID jb)) w2 = (Inr payload, w3)"
    "run_state (RouteForMessage (wk_store wk) m) w3 = (Inr (route, True), w4)"
    "run_state (work_send wk jb m payload route) w4 = ((out, Some (route, ob, answer)), w')"
proof -
  let ?i = "job_MessageID jb"
  obtain g w1 where g: "run_state (GetMessage ?i) w = (g, w1)" by fastforce
  with assms obtain m where m: "g = Inr m" "msg_Status m \<noteq> StatusSent" by (cases g) (auto simp: Work_def Let_def split: if_splits)
  obtain c w2 where c: "run_state (MarkSending (wk_store wk) ?i) w1 = (c, w2)" by fastforce
  with assms g m have c': "c = Inr True" by (cases c) (auto simp: Work_def Let_def split: if_splits)
  obtain p w3 where p: "run_state (GetPayload ?i) w2 = (p, w3)" by fastforce
  with assms g m c c' obtain payload where p': "p = Inr payload" by (cases p) (auto simp: Work_def Let_def split: if_splits prod.splits)
  obtain t w4 where t: "run_state (RouteForMessage (wk_store wk) m) w3 = (t, w4)" by fastforce
  with assms g m c c' p p' obtain rt where t': "t = Inr (rt, True)" by (cases t) (auto simp: Work_def Let_def split: if_splits prod.splits)
  have s: "run_state (work_send wk jb m payload rt) w4 = ((out, Some (route, ob, answer)), w')"
    using assms g m c c' p p' t t' by (simp add: Work_def Let_def)
  from work_send_handed [OF s] have "rt = route" by simp
  with that [OF g [unfolded m(1)] m(2) c [unfolded c'] p [unfolded p']] t t' s show ?thesis by simp
qed

text \<open>
  C8: Only a message that waits is handed to a relay. Whatever the network does, when a job hands something to a relay, the message of the job is stored with the
  status queued or sending, what is handed over is its sender, its envelope recipients and its stored payload, and the
  relay is the enabled backend the message was pinned to.
\<close>

theorem only_waiting_messages_go_out:
  assumes "peers w = []" "db_inv (st_lower (wk_store wk)) (tables w)"
    and "run_state (Work wk jb) w = ((out, Some (route, ob, answer)), w')"
  shows "\<exists>m \<in> set (db_messages (tables w)). msg_ID m = job_MessageID jb \<and> msg_Status m \<in> {StatusQueued, StatusSending} \<and>
    out_From ob = msg_FromAddr m \<and> out_Recipients ob = msg_EnvelopeRecipients m \<and>
    (\<exists>y \<in> set (db_payloads (tables w)). pay_EmailMessageID y = msg_ID m \<and> pay_Raw y = out_Raw ob) \<and>
    pinned (wk_store wk) (tables w) m route True \<and> answer = wk_send wk (job_Attempt jb) route ob"
  using assms(3)
proof (cases rule: Work_handed)
  case (1 m w1 w2 w3 payload w4)
  note g = GetMessage_alone [OF assms(1) 1(1)]
  have m: "m \<in> set (db_messages (tables w))" "msg_ID m = job_MessageID jb" using g(2) by auto
  note c = MarkSending_alone [OF _ 1(3)]
  obtain ms where w2: "peers w2 = []" "tables w2 = (tables w)\<lparr>db_messages := ms\<rparr>" using c(1,2) g(1) by auto
  obtain m' where "m' \<in> set (db_messages (tables w))" "msg_ID m' = job_MessageID jb" "msg_Status m' \<in> {StatusQueued, StatusSending}"
    using c(3) g(1) by auto
  with message_unique [OF assms(2) m(1)] m(2) have st: "msg_Status m \<in> {StatusQueued, StatusSending}" by metis
  note p = GetPayload_alone [OF w2(1) 1(4)]
  have "pinned (wk_store wk) (tables w2) m route True" using RouteForMessage_alone(2) [OF _ 1(5)] p(1) by simp
  then have "pinned (wk_store wk) (tables w) m route True" using w2(2) by (simp add: pinned_def)
  moreover have "ob = outbound_of m payload" "answer = wk_send wk (job_Attempt jb) route ob" using work_send_handed [OF 1(6)] by simp_all
  ultimately show ?thesis using m st p(2) w2(2) by (intro bexI [of _ m]) (auto simp: outbound_of_def)
qed

section \<open>What is recorded\<close>

text \<open>Without failures, every change of status of a message that is not final succeeds.\<close>

definition replaced :: "db \<Rightarrow> uuid \<Rightarrow> EmailMessage \<Rightarrow> db" where
  "replaced d i m' = d\<lparr>db_messages := map (\<lambda>x. if msg_ID x = i then m' else x) (db_messages d)\<rparr>"

lemma mark_statement:
  assumes "db_inv lower d" "m \<in> set (db_messages d)" "msg_Status m \<in> {StatusQueued, StatusSending, StatusFailed}"
    and same: "\<And>x. msg_ID (f x) = msg_ID x \<and> msg_CredentialID (f x) = msg_CredentialID x \<and>
      msg_IdempotencyKey (f x) = msg_IdempotencyKey x \<and> msg_SmtpBackendID (f x) = msg_SmtpBackendID x"
    and kept: "\<And>x. msg_AttemptCount (f x) = msg_AttemptCount x \<and> msg_FromDomain (f x) = msg_FromDomain x \<and> msg_Facade (f x) = msg_Facade x \<and>
      msg_EnvelopeRecipients (f x) = msg_EnvelopeRecipients x \<and> msg_SizeBytes (f x) = msg_SizeBytes x \<and> msg_RejectionReason (f x) = msg_RejectionReason x"
    and st: "\<And>x. msg_Status (f x) \<in> {StatusQueued, StatusSent, StatusFailed} \<and> (msg_Status (f x) = StatusSent \<longrightarrow> msg_SentAt (f x) \<noteq> None)"
  shows "\<exists>n. update_messages lower (\<lambda>x. msg_ID x = msg_ID m \<and> msg_Status x \<noteq> ''sent'') f now d =
    (Inr n, replaced d (msg_ID m) ((f m)\<lparr>msg_UpdatedAt := now\<rparr>))"
proof -
  have only: "x = m" if "x \<in> set (db_messages d)" "msg_ID x = msg_ID m" for x
    using message_unique [OF assms(1) that(1) assms(2)] that(2) by simp
  note m = message_checks [OF assms(1,2)]
  have rr: "msg_RejectionReason m = None" using message_status_known(2) [OF assms(1,2)] assms(3) by auto
  have "update_messages lower (\<lambda>x. msg_ID x = msg_ID m \<and> msg_Status x \<noteq> ''sent'') f now d =
     (Inr (affected (\<lambda>x. msg_ID x = msg_ID m \<and> msg_Status x \<noteq> ''sent'') (db_messages d)),
      d\<lparr>db_messages := map (\<lambda>x. if msg_ID x = msg_ID m \<and> msg_Status x \<noteq> ''sent'' then (f x)\<lparr>msg_UpdatedAt := now\<rparr> else x) (db_messages d)\<rparr>)"
  proof (rule update_messages_succeeds [OF assms(1) same])
    fix x n c assume x: "x \<in> set (db_messages d)" "msg_ID x = msg_ID m \<and> msg_Status x \<noteq> ''sent''" and nc: "(n, c) \<in> set (checks (db_message_schema lower d))"
    have "x = m" using only x by blast
    have "c ((f m)\<lparr>msg_UpdatedAt := now\<rparr>)"
      by (rule message_checksI [OF _ _ _ _ _ _ _ _ _ nc])
        (insert m(1,3-6) m(2) [symmetric] same [of m] kept [of m] st [of m] rr assms(3), auto)
    with \<open>x = m\<close> show "c ((f x)\<lparr>msg_UpdatedAt := now\<rparr>)" by simp
  qed
  moreover have "map (\<lambda>x. if msg_ID x = msg_ID m \<and> msg_Status x \<noteq> ''sent'' then (f x)\<lparr>msg_UpdatedAt := now\<rparr> else x) (db_messages d) =
      map (\<lambda>x. if msg_ID x = msg_ID m then (f m)\<lparr>msg_UpdatedAt := now\<rparr> else x) (db_messages d)"
  proof (intro map_cong refl)
    fix x assume "x \<in> set (db_messages d)"
    then show "(if msg_ID x = msg_ID m \<and> msg_Status x \<noteq> ''sent'' then (f x)\<lparr>msg_UpdatedAt := now\<rparr> else x) =
        (if msg_ID x = msg_ID m then (f m)\<lparr>msg_UpdatedAt := now\<rparr> else x)"
      using only [of x] assms(3) by (cases "msg_ID x = msg_ID m") auto
  qed
  ultimately show ?thesis by (simp add: replaced_def)
qed

definition now_at :: "world \<Rightarrow> world \<Rightarrow> uuid \<Rightarrow> string \<Rightarrow> int \<Rightarrow> bool" where
  "now_at w w' i st n \<longleftrightarrow> (\<exists>m' k. w' = w\<lparr>ids := k, tables := replaced (tables w) i m'\<rparr> \<and>
     msg_ID m' = i \<and> msg_Status m' = st \<and> msg_AttemptCount m' = n)"

lemma now_at_trans: "now_at w w1 i st n \<Longrightarrow> now_at w1 w2 i st' n' \<Longrightarrow> now_at w w2 i st' n'"
proof -
  assume "now_at w w1 i st n" "now_at w1 w2 i st' n'"
  then obtain a k b j where a: "w1 = w\<lparr>ids := k, tables := replaced (tables w) i a\<rparr>" "msg_ID a = i"
    and b: "w2 = w1\<lparr>ids := j, tables := replaced (tables w1) i b\<rparr>" "msg_ID b = i" "msg_Status b = st'" "msg_AttemptCount b = n'"
    unfolding now_at_def by blast
  have "replaced (replaced d i a) i b = replaced d i b" for d using a(2) by (auto simp: replaced_def)
  with a(1) have "w2 = w\<lparr>ids := j, tables := replaced (tables w) i b\<rparr>" using b(1) by simp
  with b(2-4) show ?thesis unfolding now_at_def by blast
qed

lemma now_at_ids [simp]: "now_at (w\<lparr>ids := k\<rparr>) w' i st n = now_at w w' i st n"
  by (simp add: now_at_def)

lemma now_at_in:
  assumes "now_at w w' i st n" "m \<in> set (db_messages (tables w))" "msg_ID m = i"
  obtains m' where "m' \<in> set (db_messages (tables w'))" "msg_ID m' = i" "msg_Status m' = st" "msg_AttemptCount m' = n"
  using assms by (fastforce simp: now_at_def replaced_def)

lemma mark_run:
  assumes "quiet w" "\<exists>n. q (clock w) (tables w) = (Inr n, replaced (tables w) i m')" "msg_ID m' = i"
  shows "\<exists>w'. run_state (orelse (exec (\<lambda>now uid. q now)) store_wrap (\<lambda>_. ret (Inr ()))) w = (Inr (), w') \<and>
    now_at w w' i (msg_Status m') (msg_AttemptCount m')"
proof -
  obtain n where n: "q (clock w) (tables w) = (Inr n, replaced (tables w) i m')" using assms(2) by blast
  let ?w = "w\<lparr>ids := tl (ids w), tables := replaced (tables w) i m'\<rparr>"
  have "run_state (orelse (exec (\<lambda>now uid. q now)) store_wrap (\<lambda>_. ret (Inr ()))) w = (Inr (), ?w)"
    using assms(1) n by (simp add: orelse_run run_exec_quiet)
  then show ?thesis unfolding now_at_def using assms(3) by blast
qed

lemma marks_quiet:
  assumes "quiet w" "db_inv (st_lower s) (tables w)" "m \<in> set (db_messages (tables w))" "msg_Status m \<in> {StatusQueued, StatusSending, StatusFailed}"
  shows "\<exists>w'. run_state (MarkSent s (msg_ID m)) w = (Inr (), w') \<and> now_at w w' (msg_ID m) StatusSent (msg_AttemptCount m)"
    "\<exists>w'. run_state (MarkSentPartial s (msg_ID m) c t) w = (Inr (), w') \<and> now_at w w' (msg_ID m) StatusSent (msg_AttemptCount m)"
    "\<exists>w'. run_state (MarkFailed s (msg_ID m) c t) w = (Inr (), w') \<and> now_at w w' (msg_ID m) StatusFailed (msg_AttemptCount m)"
    "\<exists>w'. run_state (MarkRetrying s (msg_ID m) c t) w = (Inr (), w') \<and> now_at w w' (msg_ID m) StatusQueued (msg_AttemptCount m)"
proof -
  note u = mark_statement [OF assms(2-4), where now = "clock w"] and r = mark_run [OF assms(1), where i = "msg_ID m"]
  let ?sent = "\<lambda>x. x\<lparr>msg_Status := ''sent'', msg_SentAt := Some (clock w), msg_ErrorCode := None, msg_ErrorDetail := None\<rparr>"
  let ?part = "\<lambda>x. x\<lparr>msg_Status := ''sent'', msg_SentAt := Some (clock w), msg_ErrorCode := stringPtr c, msg_ErrorDetail := stringPtr t\<rparr>"
  let ?to = "\<lambda>st x. x\<lparr>msg_Status := st, msg_ErrorCode := stringPtr c, msg_ErrorDetail := stringPtr t\<rparr>"
  show "\<exists>w'. run_state (MarkSent s (msg_ID m)) w = (Inr (), w') \<and> now_at w w' (msg_ID m) StatusSent (msg_AttemptCount m)"
    using r [where q = "\<lambda>now. Queries_MarkEmailSent (st_lower s) (msg_ID m) now" and m' = "(?sent m)\<lparr>msg_UpdatedAt := clock w\<rparr>"] u [of ?sent]
    unfolding MarkSent_def Queries_MarkEmailSent_def by simp
  show "\<exists>w'. run_state (MarkSentPartial s (msg_ID m) c t) w = (Inr (), w') \<and> now_at w w' (msg_ID m) StatusSent (msg_AttemptCount m)"
    using r [where q = "\<lambda>now. Queries_MarkEmailSentPartial (st_lower s) (msg_ID m) (stringPtr c) (stringPtr t) now" and m' = "(?part m)\<lparr>msg_UpdatedAt := clock w\<rparr>"]
      u [of ?part] unfolding MarkSentPartial_def Queries_MarkEmailSentPartial_def by simp
  show "\<exists>w'. run_state (MarkFailed s (msg_ID m) c t) w = (Inr (), w') \<and> now_at w w' (msg_ID m) StatusFailed (msg_AttemptCount m)"
    using r [where q = "\<lambda>now. Queries_MarkEmailFailed (st_lower s) (msg_ID m) (stringPtr c) (stringPtr t) now" and m' = "(?to ''failed'' m)\<lparr>msg_UpdatedAt := clock w\<rparr>"]
      u [of "?to ''failed''"] unfolding MarkFailed_def Queries_MarkEmailFailed_def by simp
  show "\<exists>w'. run_state (MarkRetrying s (msg_ID m) c t) w = (Inr (), w') \<and> now_at w w' (msg_ID m) StatusQueued (msg_AttemptCount m)"
    using r [where q = "\<lambda>now. Queries_MarkEmailRetrying (st_lower s) (msg_ID m) (stringPtr c) (stringPtr t) now" and m' = "(?to ''queued'' m)\<lparr>msg_UpdatedAt := clock w\<rparr>"]
      u [of "?to ''queued''"] unfolding MarkRetrying_def Queries_MarkEmailRetrying_def by simp
qed

text \<open>The worker's own steps, in the same setting; \<open>waiting\<close> is a message the worker may claim.\<close>

definition waiting :: "Store \<Rightarrow> world \<Rightarrow> EmailMessage \<Rightarrow> bool" where
  "waiting s w m \<longleftrightarrow> quiet w \<and> db_inv (st_lower s) (tables w) \<and> m \<in> set (db_messages (tables w)) \<and>
     msg_Status m \<in> {StatusQueued, StatusSending}"

fun job_status :: "job_outcome \<Rightarrow> string" where
  "job_status JobDone = StatusSent"
| "job_status JobCancelled = StatusFailed"
| "job_status JobError = StatusQueued"

definition verdict :: "job \<Rightarrow> Send_Error option \<Rightarrow> job_outcome" where
  "verdict jb err = (case err of None \<Rightarrow> JobDone
     | Some e \<Rightarrow> if IsPermanent e \<or> job_MaxAttempts jb \<le> job_Attempt jb then JobCancelled else JobError)"

lemma waiting_marks:
  assumes "waiting s w m"
  shows "\<exists>w'. run_state (MarkSent s (msg_ID m)) w = (Inr (), w') \<and> now_at w w' (msg_ID m) StatusSent (msg_AttemptCount m)"
    "\<exists>w'. run_state (MarkSentPartial s (msg_ID m) c t) w = (Inr (), w') \<and> now_at w w' (msg_ID m) StatusSent (msg_AttemptCount m)"
    "\<exists>w'. run_state (MarkFailed s (msg_ID m) c t) w = (Inr (), w') \<and> now_at w w' (msg_ID m) StatusFailed (msg_AttemptCount m)"
    "\<exists>w'. run_state (MarkRetrying s (msg_ID m) c t) w = (Inr (), w') \<and> now_at w w' (msg_ID m) StatusQueued (msg_AttemptCount m)"
  using assms marks_quiet [of w s m] by (auto simp: waiting_def)

lemma permanent_quiet:
  assumes "waiting (wk_store wk) w m"
  shows "\<exists>w'. run_state (work_permanent wk (msg_ID m) c t) w = (JobCancelled, w') \<and> now_at w w' (msg_ID m) StatusFailed (msg_AttemptCount m)"
  using waiting_marks(3) [OF assms, of c t] by (auto simp: work_permanent_def)

lemma transient_quiet:
  assumes "waiting (wk_store wk) w m" "msg_ID m = job_MessageID jb"
  shows "\<exists>w' out. run_state (work_transient wk jb c t) w = (out, w') \<and> now_at w w' (msg_ID m) (job_status out) (msg_AttemptCount m) \<and>
    out = (if job_MaxAttempts jb \<le> job_Attempt jb then JobCancelled else JobError)"
  using waiting_marks(3,4) [OF assms(1), of c t] assms(2) by (auto simp: work_transient_def)

lemma work_send_quiet:
  assumes "waiting (wk_store wk) w m" "msg_ID m = job_MessageID jb"
  shows "\<exists>out w' res err. run_state (work_send wk jb msg payload route) w = ((out, Some (route, outbound_of msg payload, res, err)), w') \<and>
    now_at w w' (msg_ID m) (job_status out) (msg_AttemptCount m) \<and> out = verdict jb err"
proof -
  obtain res err where r: "wk_send wk (job_Attempt jb) route (outbound_of msg payload) = (res, err)" by fastforce
  show ?thesis
  proof (cases err)
    case None
    with r assms(2) waiting_marks(1) [OF assms(1)] waiting_marks(2) [OF assms(1), of CodePartialRecipients "RejectedDetail res"]
    show ?thesis by (cases "Partial res") (fastforce simp: work_send_def Let_def verdict_def)+
  next
    case (Some e)
    with r assms(2) permanent_quiet [OF assms(1), of "se_Code e" "Send_Error_text e"]
      transient_quiet [OF assms, of "se_Code e" "Send_Error_text e"]
    show ?thesis by (cases "IsPermanent e") (fastforce simp: work_send_def Let_def verdict_def)+
  qed
qed

lemma find_message:
  assumes "db_inv lower d" "m \<in> set (db_messages d)"
  shows "find (\<lambda>x. msg_ID x = msg_ID m) (db_messages d) = Some m"
proof (cases "find (\<lambda>x. msg_ID x = msg_ID m) (db_messages d)")
  case None
  with assms(2) show ?thesis by (auto simp: find_None_iff)
next
  case (Some x)
  with message_unique [OF assms(1) _ assms(2), of x] show ?thesis by (auto dest!: find_SomeD)
qed

lemma GetMessage_quiet:
  "waiting s w m \<Longrightarrow> \<exists>k. run_state (GetMessage (msg_ID m)) w = (Inr m, w\<lparr>ids := k\<rparr>)"
  by (auto simp: waiting_def GetMessage_def orelse_run run_exec_quiet Queries_GetEmailMessage_def find_message one_row_def)

lemma GetPayload_quiet: "quiet w \<Longrightarrow> \<exists>r k. run_state (GetPayload i) w = (r, w\<lparr>ids := k\<rparr>) \<and> (\<forall>e. r = Inl e \<longrightarrow> e = ErrNotFound)"
  by (auto simp: GetPayload_def orelse_run run_exec_quiet Queries_GetEmailPayload_def one_row_def store_wrap_def split: sum.splits option.splits)

lemma RouteForMessage_quiet: "quiet w \<Longrightarrow> \<exists>r k. run_state (RouteForMessage s m) w = (r, w\<lparr>ids := k\<rparr>)"
  by (cases "msg_SmtpBackendID m")
    (force simp: RouteForMessage_def orelse_run run_exec_quiet Queries_GetSenderRouteForBackend_def one_row_def
       split: sum.splits option.splits intro: exI [of _ "ids w"])+

lemma MarkSending_quiet:
  assumes "waiting s w m" "\<forall>x \<in> set (db_messages (tables w)). msg_AttemptCount x < 2147483647"
  shows "\<exists>w'. run_state (MarkSending s (msg_ID m)) w = (Inr True, w') \<and> now_at w w' (msg_ID m) StatusSending (msg_AttemptCount m + 1)"
proof -
  have w: "quiet w" "db_inv (st_lower s) (tables w)" "m \<in> set (db_messages (tables w))" "msg_Status m \<in> {StatusQueued, StatusSending}"
    using assms(1) by (simp_all add: waiting_def)
  let ?p = "\<lambda>x. msg_ID x = msg_ID m \<and> msg_Status x \<in> {StatusQueued, StatusSending}"
  let ?m = "m\<lparr>msg_Status := StatusSending, msg_AttemptCount := msg_AttemptCount m + 1, msg_ErrorCode := None, msg_ErrorDetail := None,
    msg_UpdatedAt := clock w\<rparr>"
  have "m \<in> set (filter ?p (db_messages (tables w)))" using w(3,4) by simp
  then have n: "affected ?p (db_messages (tables w)) > 0" unfolding affected_def using length_pos_if_in_set by fastforce
  have "map (\<lambda>x. if ?p x then x\<lparr>msg_Status := StatusSending, msg_AttemptCount := msg_AttemptCount x + 1, msg_ErrorCode := None,
      msg_ErrorDetail := None, msg_UpdatedAt := clock w\<rparr> else x) (db_messages (tables w)) =
    map (\<lambda>x. if msg_ID x = msg_ID m then ?m else x) (db_messages (tables w))"
  proof (intro map_cong refl)
    fix x assume "x \<in> set (db_messages (tables w))"
    then show "(if ?p x then x\<lparr>msg_Status := StatusSending, msg_AttemptCount := msg_AttemptCount x + 1, msg_ErrorCode := None,
      msg_ErrorDetail := None, msg_UpdatedAt := clock w\<rparr> else x) = (if msg_ID x = msg_ID m then ?m else x)"
      using message_unique [OF w(2) _ w(3), of x] w(4) by (cases "msg_ID x = msg_ID m") auto
  qed
  then have q: "Queries_MarkEmailSending (st_lower s) (msg_ID m) (clock w) (tables w) =
      (Inr (affected ?p (db_messages (tables w))), replaced (tables w) (msg_ID m) ?m)"
    unfolding MarkEmailSending_succeeds [OF w(2) assms(2)] replaced_def by simp
  have "run_state (MarkSending s (msg_ID m)) w = (Inr True, w\<lparr>ids := tl (ids w), tables := replaced (tables w) (msg_ID m) ?m\<rparr>)"
    using w(1) q n by (simp add: MarkSending_def orelse_run run_exec_quiet)
  then show ?thesis unfolding now_at_def
    by (intro exI conjI) (assumption | rule refl | simp)+
qed

lemma now_at_waiting:
  assumes "waiting s w m" "now_at w w' (msg_ID m) st n" "st \<in> {StatusQueued, StatusSending}" "db_inv (st_lower s) (tables w')"
  obtains m' where "waiting s w' m'" "msg_ID m' = msg_ID m" "msg_AttemptCount m' = n"
proof -
  have "quiet w'" using assms(1,2) by (auto simp: now_at_def waiting_def quiet_def)
  with assms(1,3,4) that show ?thesis
    by (auto elim!: now_at_in [OF assms(2)] simp: waiting_def)
qed

lemma now_at_quiet: "now_at w w' i st n \<Longrightarrow> quiet w' = quiet w"
  by (auto simp: now_at_def quiet_def)

lemma waiting_ids [simp]: "waiting s (w\<lparr>ids := k\<rparr>) m = waiting s w m"
  by (simp add: waiting_def)

lemma Work_quiet:
  assumes "waiting (wk_store wk) w m" "\<forall>x \<in> set (db_messages (tables w)). msg_AttemptCount x < 2147483647" "msg_ID m = job_MessageID jb"
  shows "\<exists>out given w'. run_state (Work wk jb) w = ((out, given), w') \<and> now_at w w' (msg_ID m) (job_status out) (msg_AttemptCount m + 1) \<and>
    (case given of None \<Rightarrow> out = JobCancelled \<or> out = JobError \<and> job_Attempt jb < job_MaxAttempts jb
      | Some (route, ob, res, err) \<Rightarrow> out = verdict jb err)"
proof -
  let ?i = "msg_ID m" and ?s = "wk_store wk"
  obtain k where g: "run_state (GetMessage ?i) w = (Inr m, w\<lparr>ids := k\<rparr>)" using GetMessage_quiet [OF assms(1)] by blast
  have ns: "msg_Status m \<noteq> StatusSent" using assms(1) by (auto simp: waiting_def)
  obtain w1 where c: "run_state (MarkSending ?s ?i) (w\<lparr>ids := k\<rparr>) = (Inr True, w1)" "now_at w w1 ?i StatusSending (msg_AttemptCount m + 1)"
    using MarkSending_quiet [of ?s "w\<lparr>ids := k\<rparr>" m] assms(1,2) by auto
  have "audited (st_lower ?s) (tables w) (tables w1)"
    using au.obeysD [OF email_ops_obey(2) c(1)] assms(1) by (simp add: waiting_def quiet_def au.friendly_def)
  then have inv: "db_inv (st_lower ?s) (tables w1)" using assms(1) by (simp add: audited_def waiting_def)
  obtain m1 where m1: "waiting ?s w1 m1" "msg_ID m1 = ?i" "msg_AttemptCount m1 = msg_AttemptCount m + 1"
    using now_at_waiting [OF assms(1) c(2) _ inv] by auto
  have q: "quiet w1" using m1(1) by (simp add: waiting_def)
  obtain p k1 where p: "run_state (GetPayload ?i) w1 = (p, w1\<lparr>ids := k1\<rparr>)" "\<forall>e. p = Inl e \<longrightarrow> e = ErrNotFound" using GetPayload_quiet [OF q] by blast
  obtain t k2 where t: "run_state (RouteForMessage ?s m) (w1\<lparr>ids := k1\<rparr>) = (t, w1\<lparr>ids := k2\<rparr>)"
    using RouteForMessage_quiet [of "w1\<lparr>ids := k1\<rparr>" ?s m] q by auto
  note run = Work_def Let_def g ns c(1) p(1) t assms(3) [symmetric]
  have up: ?thesis if "run_state (Work wk jb) w = ((out, given), w')" "now_at w1 w' ?i (job_status out) (msg_AttemptCount m1)"
    "case given of None \<Rightarrow> out = JobCancelled \<or> out = JobError \<and> job_Attempt jb < job_MaxAttempts jb
      | Some (route, ob, res, err) \<Rightarrow> out = verdict jb err" for out given w'
    using that now_at_trans [OF c(2)] m1(2,3) by auto
  have m1k: "waiting ?s (w1\<lparr>ids := j\<rparr>) m1" "msg_ID m1 = job_MessageID jb" for j using m1 assms(3) by simp_all
  note P = permanent_quiet [OF m1k(1), unfolded now_at_ids m1(2)] and T = transient_quiet [OF m1k, unfolded now_at_ids m1(2)]
    and S = work_send_quiet [OF m1k, unfolded now_at_ids m1(2)]
  show ?thesis
  proof (cases p)
    case (Inl e)
    obtain w' where "run_state (work_permanent wk ?i ''payload_purged'' ''the message body was purged by retention before it could be delivered'')
        (w1\<lparr>ids := k1\<rparr>) = (JobCancelled, w')" "now_at w1 w' ?i StatusFailed (msg_AttemptCount m1)"
      using P by blast
    with Inl p(2) ns show ?thesis by (intro up [of JobCancelled None w']) (simp_all add: run)
  next
    case (Inr payload)
    show ?thesis
    proof (cases t)
      case (Inl e)
      obtain w' where P1: "run_state (work_permanent wk ?i ''backend_missing'' ''the backend this message was routed to no longer exists'')
          (w1\<lparr>ids := k2\<rparr>) = (JobCancelled, w')" "now_at w1 w' ?i StatusFailed (msg_AttemptCount m1)"
        using P by blast
      obtain w'' out where T1: "run_state (work_transient wk jb ''backend_unavailable'' (wk_text wk e)) (w1\<lparr>ids := k2\<rparr>) = (out, w'')"
          "now_at w1 w'' ?i (job_status out) (msg_AttemptCount m1)" "out = (if job_MaxAttempts jb \<le> job_Attempt jb then JobCancelled else JobError)"
        using T by blast
      show ?thesis
      proof (cases "e = ErrNotFound")
        case True
        with P1 Inl Inr ns show ?thesis by (intro up [of JobCancelled None w']) (simp_all add: run)
      next
        case False
        with T1 Inl Inr ns show ?thesis by (intro up [of out None w'']) (simp_all add: run)
      qed
    next
      case t': (Inr re)
      obtain route enabled where re: "re = (route, enabled)" by fastforce
      obtain w' out where T1: "run_state (work_transient wk jb ''backend_disabled'' (''backend '' @ wk_quote wk (sr_BackendName route) @ '' is disabled''))
          (w1\<lparr>ids := k2\<rparr>) = (out, w')"
          "now_at w1 w' ?i (job_status out) (msg_AttemptCount m1)" "out = (if job_MaxAttempts jb \<le> job_Attempt jb then JobCancelled else JobError)"
        using T by blast
      obtain o2 w2 res err where S1: "run_state (work_send wk jb m payload route) (w1\<lparr>ids := k2\<rparr>) = ((o2, Some (route, outbound_of m payload, res, err)), w2)"
          "now_at w1 w2 ?i (job_status o2) (msg_AttemptCount m1)" "o2 = verdict jb err"
        using S by blast
      show ?thesis
      proof (cases enabled)
        case True
        with S1 t' re Inr ns show ?thesis by (intro up [of o2 "Some (route, outbound_of m payload, res, err)" w2]) (simp_all add: run)
      next
        case False
        with T1 t' re Inr ns show ?thesis by (intro up [of out None w']) (simp_all add: run)
      qed
    qed
  qed
qed

lemma Work_obeys: "au.obeys (st_lower (wk_store wk)) (Work wk jb)"
proof -
  note ops = email_ops_obey [where s = "wk_store wk"] and reads = email_reads_obey [where lower = "st_lower (wk_store wk)"]
  have "au.obeys (st_lower (wk_store wk)) (work_permanent wk i c t)" for i c t
    unfolding work_permanent_def by (intro au.obeys_bind au.obeys_return ops)
  moreover have "au.obeys (st_lower (wk_store wk)) (work_transient wk jb c t)" for c t
    unfolding work_transient_def by (auto intro!: au.obeys_bind au.obeys_return ops)
  ultimately show ?thesis unfolding Work_def work_send_def Let_def
    by (auto intro!: au.obeys_bind au.obeys_return ops reads split: sum.splits option.splits prod.splits)
qed

text \<open>
  C18: The status says what happened. Without failures of the database, for a message that waits, a job adds one to its attempts and changes nothing else in the database than this message,
  whose status is then: sent when \<^verbatim>\<open>Work\<close> returned nil, failed when it cancelled the job, queued when it asked for a retry.
  The relay's answer decides: nil for a delivery, also a partial one; cancelled for a permanent refusal or at the last attempt;
  a retry for any other refusal. When nothing was handed to a relay, the message never becomes sent.
\<close>

theorem work_records_outcome:
  assumes "waiting (wk_store wk) w m" "\<forall>x \<in> set (db_messages (tables w)). msg_AttemptCount x < 2147483647" "msg_ID m = job_MessageID jb"
    and "run_state (Work wk jb) w = ((out, given), w')"
  shows "(\<exists>m'. tables w' = replaced (tables w) (msg_ID m) m' \<and> msg_ID m' = msg_ID m \<and> msg_AttemptCount m' = msg_AttemptCount m + 1 \<and>
      msg_Status m' = job_status out) \<and> (case given of None \<Rightarrow> out = JobCancelled \<or> out = JobError \<and> job_Attempt jb < job_MaxAttempts jb
      | Some (route, ob, res, err) \<Rightarrow> out = verdict jb err)"
  using Work_quiet [OF assms(1-3)] assms(4) by (auto simp: now_at_def)

lemma run_attempts_settles:
  assumes "waiting (wk_store wk) w m" "\<forall>x \<in> set (db_messages (tables w)). msg_AttemptCount x + int n \<le> 2147483647" "0 < n" "int n \<le> mx"
  shows "\<exists>out w' c. run_state (run_attempts wk (msg_ID m) mx n) w = (out, w') \<and> out \<noteq> JobError \<and>
    now_at w w' (msg_ID m) (job_status out) c \<and> msg_AttemptCount m < c \<and> c \<le> msg_AttemptCount m + int n"
  using assms
proof (induction n arbitrary: w m)
  case (Suc n)
  let ?i = "msg_ID m" let ?jb = "\<lparr>job_MessageID = ?i, job_Attempt = mx - int n, job_MaxAttempts = mx\<rparr>"
  have "\<forall>x \<in> set (db_messages (tables w)). msg_AttemptCount x < 2147483647" using Suc.prems(2) by fastforce
  from Work_quiet [OF Suc.prems(1) this, of ?jb] obtain out given w1 where r: "run_state (Work wk ?jb) w = ((out, given), w1)"
    and n: "now_at w w1 ?i (job_status out) (msg_AttemptCount m + 1)"
    and g: "case given of None \<Rightarrow> out = JobCancelled \<or> out = JobError \<and> job_Attempt ?jb < job_MaxAttempts ?jb
      | Some (route, ob, res, err) \<Rightarrow> out = verdict ?jb err" by auto
  show ?case
  proof (cases "out = JobError")
    case False
    with r n show ?thesis by (auto intro: exI [of _ out] exI [of _ w1] exI [of _ "msg_AttemptCount m + 1"])
  next
    case True
    have pos: "0 < n" using g True by (auto simp: verdict_def split: option.splits if_splits)
    have "audited (st_lower (wk_store wk)) (tables w) (tables w1)"
      using au.obeysD [OF Work_obeys r] Suc.prems(1) by (simp add: waiting_def quiet_def au.friendly_def)
    then have inv: "db_inv (st_lower (wk_store wk)) (tables w1)" using Suc.prems(1) by (simp add: audited_def waiting_def)
    obtain m1 where m1: "waiting (wk_store wk) w1 m1" "msg_ID m1 = ?i" "msg_AttemptCount m1 = msg_AttemptCount m + 1"
      using now_at_waiting [OF Suc.prems(1) n _ inv] True by auto
    have "\<forall>x \<in> set (db_messages (tables w1)). msg_AttemptCount x + int n \<le> 2147483647"
      using n Suc.prems(1,2) by (fastforce simp: now_at_def replaced_def waiting_def split: if_splits)
    from Suc.IH [OF m1(1) this pos] Suc.prems(4) obtain o2 w2 c where "run_state (run_attempts wk ?i mx n) w1 = (o2, w2)" "o2 \<noteq> JobError"
      "now_at w1 w2 ?i (job_status o2) c" "msg_AttemptCount m + 1 < c" "c \<le> msg_AttemptCount m + 1 + int n" using m1(2,3) by auto
    with r True now_at_trans [OF n] show ?thesis
      by (intro exI [of _ o2] exI [of _ w2] exI [of _ c]) simp
  qed
qed simp

text \<open>
  C7: No message stays waiting. Whatever the relays answer, attempt after attempt: without failures of the database, after at most \<open>mx\<close> attempts a queued message is
  either sent or failed, its status is what the last attempt returned, and it counts between one and \<open>mx\<close> more attempts.
\<close>

theorem every_message_is_settled:
  assumes "waiting (wk_store wk) w m" "0 < mx" "\<forall>x \<in> set (db_messages (tables w)). msg_AttemptCount x + mx \<le> 2147483647"
  shows "\<exists>out w' m'. run_state (run_attempts wk (msg_ID m) mx (nat mx)) w = (out, w') \<and> tables w' = replaced (tables w) (msg_ID m) m' \<and>
    (out, msg_Status m') \<in> {(JobDone, StatusSent), (JobCancelled, StatusFailed)} \<and>
    msg_AttemptCount m < msg_AttemptCount m' \<and> msg_AttemptCount m' \<le> msg_AttemptCount m + mx"
proof -
  have "\<forall>x \<in> set (db_messages (tables w)). msg_AttemptCount x + int (nat mx) \<le> 2147483647" using assms(2,3) by simp
  from run_attempts_settles [OF assms(1) this, of mx] assms(2) obtain out w' c where
    r: "run_state (run_attempts wk (msg_ID m) mx (nat mx)) w = (out, w')" "out \<noteq> JobError" "now_at w w' (msg_ID m) (job_status out) c"
      "msg_AttemptCount m < c" "c \<le> msg_AttemptCount m + mx" by auto
  then show ?thesis by (cases out) (auto simp: now_at_def)
qed

text \<open>
  C32: A full delivery is never tried again. Whatever fails, when the relay took the message for every recipient, the job ends: \<^verbatim>\<open>Work\<close> does not return an error that
  makes \<^verbatim>\<open>river\<close> run it again, also when the status could not be recorded; and everyone on the envelope was accepted.
\<close>

theorem full_delivery_not_repeated:
  assumes "\<And>a route ob. \<exists>x cfg slot rl. wk_send wk a route ob = snd (Send x cfg slot route rl ob)"
    and "run_state (Work wk jb) w = ((out, Some (route, ob, res, None)), w')" "\<not> Partial res"
  shows "out \<noteq> JobError \<and> set (sr_Accepted res) = set (out_Recipients ob)"
  using assms(2)
proof (cases rule: Work_handed)
  case (1 m w1 w2 w3 payload w4)
  from work_send_handed [OF 1(6)] have s: "ob = outbound_of m payload" "wk_send wk (job_Attempt jb) route ob = (res, None)" by simp_all
  have "out \<noteq> JobError" using 1(6) s assms(3) by (auto simp: work_send_def Let_def split: sum.splits prod.splits)
  moreover obtain x cfg slot rl where "snd (Send x cfg slot route rl ob) = (res, None)" using assms(1) s(2) by metis
  ultimately show ?thesis using dlv.full_delivery assms(3) by blast
qed

section \<open>Witnesses\<close>

definition demo_worker :: worker where
  "demo_worker = \<lparr>wk_store = demo_store, wk_send = (\<lambda>_ route ob. snd (Send plain_text demo_send_config None route good_relay ob)),
     wk_text = (\<lambda>_. ''error''), wk_quote = (\<lambda>n. n)\<rparr>"

definition demo_job :: job where
  "demo_job = \<lparr>job_MessageID = 41, job_Attempt = 1, job_MaxAttempts = 3\<rparr>"

definition pair_world :: world where
  "pair_world = queued_world\<lparr>tables := (tables queued_world)\<lparr>db_messages :=
     [demo_row\<lparr>msg_EnvelopeRecipients := [''eve@mail.example.org'', ''mal@mail.example.org'']\<rparr>]\<rparr>\<rparr>"

definition accepted_by :: "(job_outcome \<times> handed) \<times> world \<Rightarrow> job_outcome \<times> string list" where
  "accepted_by r = (fst (fst r), case snd (fst r) of None \<Rightarrow> [] | Some (route, ob, res, err) \<Rightarrow> sr_Accepted res)"

fun full_run :: "(job_outcome \<times> handed) \<times> world \<Rightarrow> bool" where
  "full_run ((JobDone, Some (route, ob, res, None)), w) = (\<not> Partial res)"
| "full_run _ = False"

text \<open>
  A partial delivery whose record is lost is delivered again: the first attempt hands the message to the relay, which takes it for one of two
  recipients, the statement that records it fails, and the second attempt hands it over again.
\<close>

lemma demo_attempts:
  "(let r1 = run_state (Work demo_worker demo_job) (pair_world\<lparr>net := [Answered, Answered, Answered, Answered, RequestLost]\<rparr>);
       r2 = run_state (Work demo_worker (demo_job\<lparr>job_Attempt := 2\<rparr>)) (snd r1)
   in accepted_by r1 = (JobError, [''eve@mail.example.org'']) \<and> accepted_by r2 = (JobDone, [''eve@mail.example.org''])) \<and>
   (full_run (run_state (Work demo_worker demo_job) queued_world))"
  by code_simp

lemmas partial_delivery_repeated = demo_attempts [THEN conjunct1]
lemmas demo_work = demo_attempts [THEN conjunct2]

lemma demo_waiting: "waiting (wk_store demo_worker) queued_world demo_row" "msg_ID demo_row = 41" "msg_AttemptCount demo_row = 0"
  "msg_ID demo_row = job_MessageID demo_job"
  using queued_inv by (simp_all add: waiting_def demo_worker_def demo_row_def new_message_def queued_row_def demo_job_def)

lemma demo_work_handed:
  obtains route ob res w' where "run_state (Work demo_worker demo_job) queued_world = ((JobDone, Some (route, ob, res, None)), w')"
    "\<not> Partial res"
  using demo_work that by (cases "run_state (Work demo_worker demo_job) queued_world" rule: full_run.cases) auto

theorem only_waiting_messages_go_out_witness:
  "\<exists>route ob answer w'. run_state (Work demo_worker demo_job) queued_world = ((JobDone, Some (route, ob, answer)), w') \<and>
     out_Recipients ob = msg_EnvelopeRecipients demo_row \<and> pinned demo_store (tables queued_world) demo_row route True"
proof -
  obtain route ob res w' where r: "run_state (Work demo_worker demo_job) queued_world = ((JobDone, Some (route, ob, res, None)), w')"
    by (rule demo_work_handed)
  from only_waiting_messages_go_out [OF _ _ r] queued_inv have
    "out_Recipients ob = msg_EnvelopeRecipients demo_row \<and> pinned demo_store (tables queued_world) demo_row route True"
    by (simp add: demo_worker_def)
  with r show ?thesis by blast
qed

theorem work_records_outcome_witness:
  "\<exists>given w' m'. run_state (Work demo_worker demo_job) queued_world = ((JobDone, given), w') \<and>
     tables w' = replaced (tables queued_world) 41 m' \<and> msg_Status m' = StatusSent \<and> msg_AttemptCount m' = 1"
proof -
  obtain route ob res w' where r: "run_state (Work demo_worker demo_job) queued_world = ((JobDone, Some (route, ob, res, None)), w')"
    by (rule demo_work_handed)
  have "\<forall>x \<in> set (db_messages (tables queued_world)). msg_AttemptCount x < 2147483647" using demo_waiting(3) by simp
  from work_records_outcome [OF demo_waiting(1) this demo_waiting(4) r] demo_waiting(2,3) r show ?thesis by auto
qed

theorem every_message_is_settled_witness:
  "\<exists>out w' m'. run_state (run_attempts demo_worker 41 3 3) queued_world = (out, w') \<and>
    (out, msg_Status m') \<in> {(JobDone, StatusSent), (JobCancelled, StatusFailed)} \<and> tables w' = replaced (tables queued_world) 41 m'"
proof -
  have "\<forall>x \<in> set (db_messages (tables queued_world)). msg_AttemptCount x + 3 \<le> 2147483647" using demo_waiting(3) by simp
  from every_message_is_settled [OF demo_waiting(1) _ this] demo_waiting(2) show ?thesis by (simp add: eval_nat_numeral) blast
qed

theorem full_delivery_not_repeated_witness:
  "\<exists>route ob res w'. run_state (Work demo_worker demo_job) queued_world = ((JobDone, Some (route, ob, res, None)), w') \<and>
     set (sr_Accepted res) = set (out_Recipients ob)"
proof -
  obtain route ob res w' where r: "run_state (Work demo_worker demo_job) queued_world = ((JobDone, Some (route, ob, res, None)), w')"
    "\<not> Partial res" by (rule demo_work_handed)
  have "\<exists>x cfg slot rl. wk_send demo_worker a route ob = snd (Send x cfg slot route rl ob)" for a route ob
    by (auto simp: demo_worker_def)
  from full_delivery_not_repeated [OF this r] r show ?thesis by blast
qed

end
