(* ===== verification/Serve.thy ===== *)
theory Serve
  imports Cmd_Session Tls_Conf Smtpd Jobs Admin_Types
begin

text \<open>
  The long-lived process: \<^verbatim>\<open>src/cmd/relais/cmd_serve.go\<close>, with the client of the job queue it builds (\<^verbatim>\<open>NewClient\<close> of
  \<^verbatim>\<open>src/internal/jobs/jobs.go\<close>). \<open>cmdServe\<close> goes from the environment to the moment where the process waits for its subsystems: which of
  them run, and with what settings. An error comes with what had been started before it.

  The fields of the components that are not options of their constructors (libraries, clocks) come from the templates of
  \<open>serve_world\<close>, as does what the outside answers: \<^verbatim>\<open>net.Listen\<close>, \<^verbatim>\<open>river\<close>, the files. Log lines and timeouts of the HTTP servers are left out.
\<close>

section \<open>The client of the job queue\<close>

definition QueueMaintenance :: string where "QueueMaintenance = ''maintenance''"

record ClientOptions =
  co_hasStore :: bool
  co_hasDeliverer :: bool
  co_Workers :: bool
  co_Count :: int
  co_MaxAttempts :: int
  co_JobTimeout :: int
  co_SentRetention :: int
  co_FailedRetention :: int
  co_PurgeInterval :: int

text \<open>What \<^verbatim>\<open>river\<close> is configured with; no queue is consumed by an insert-only client.\<close>

record river_config =
  rv_MaxAttempts :: int
  rv_JobTimeout :: int
  rv_Queues :: "(string \<times> int) list"
  rv_Purge :: "(int \<times> int \<times> int \<times> bool) option"

definition jobs_NewClient :: "(river_config \<Rightarrow> string option) \<Rightarrow> ClientOptions \<Rightarrow> (string, river_config) result" where
  "jobs_NewClient river opts =
     and_then (fail_if (\<not> co_hasStore opts) ''jobs: a store is required'') (\<lambda>_.
     and_then
       (if co_Workers opts
        then and_then (fail_if (\<not> co_hasDeliverer opts) ''jobs: a deliverer is required to run workers'') (\<lambda>_.
          Inr \<lparr>rv_MaxAttempts = (if co_MaxAttempts opts \<le> 0 then 8 else co_MaxAttempts opts),
               rv_JobTimeout = co_JobTimeout opts,
               rv_Queues = [(QueueEmailSend, if co_Count opts \<le> 0 then 5 else co_Count opts), (QueueMaintenance, 1)],
               rv_Purge = Some (if co_PurgeInterval opts \<le> 0 then hour else co_PurgeInterval opts,
                                co_SentRetention opts, co_FailedRetention opts, True)\<rparr>)
        else Inr \<lparr>rv_MaxAttempts = 0, rv_JobTimeout = 0, rv_Queues = [], rv_Purge = None\<rparr>)
       (\<lambda>cfg. case river cfg of Some e \<Rightarrow> Inl e | None \<Rightarrow> Inr cfg))"

section \<open>The process\<close>

datatype subsystem =
    HTTPListener string | DeliveryWorkers | CertificateReloads | CertificateWatch | AdminListener string | SubmissionServer

datatype serve_error =
    ServeSession session_error | ServeConfig "config_error list" | ServeTLS tls_error | ServeText string
  | ServeListen string string | ServeWorkers string | ServeAdminAuth adminauth_error

record ('l, 'h, 'k, 'i) serve_world =
  sw_session :: session_world
  sw_x509 :: "('k, 'i) x509_lib"
  sw_tls_env :: "'k tls_env"
  sw_disk :: disk
  sw_river :: "river_config \<Rightarrow> string option"
  sw_river_start :: "string option"
  sw_insertTx :: "uuid \<Rightarrow> string \<Rightarrow> int \<Rightarrow> (pg_error, unit) result prog"
  sw_listen :: "string \<Rightarrow> string option"
  sw_service :: "('l, 'h) Service"
  sw_http :: "('l, 'h) http_server"
  sw_smtpd :: "('l, 'h) smtpd"
  sw_admin :: admin_server
  sw_probe :: "Send_Config \<Rightarrow> SenderRoute \<Rightarrow> (Send_Error, ProbeResult) result"

record ('l, 'h, 'v, 'k, 'i) process =
  pr_store :: Store
  pr_certs :: "('k, 'i) Provider option"
  pr_sender :: Send_Config
  pr_river :: river_config
  pr_ingest :: "('l, 'h) Service"
  pr_limiter :: "'l Limiter"
  pr_http :: "(string \<times> ('l, 'h) http_server) option"
  pr_admin :: "(string \<times> 'v Verifier \<times> admin_server) option"
  pr_smtp :: "('l, 'h) smtpd option"
  pr_started :: "subsystem list"

definition buildSender :: "Service_Config \<Rightarrow> Send_Config" where
  "buildSender cfg =
     sender_New \<lparr>sc_Timeout = snc_Timeout (cf_Sender cfg),
       sc_HeloName = (if snc_HeloName (cf_Sender cfg) = [] then smc_Domain (cf_SMTP cfg) else snc_HeloName (cf_Sender cfg)),
       sc_MinTLSVersion = (if snc_MinTLSVersion (cf_Sender cfg) = ''1.3'' then 772 else VersionTLS12),
       sc_InsecureSkipVerifyHosts = snc_InsecureVerifyExemptHosts (cf_Sender cfg)\<rparr>"

definition client_options :: "Service_Config \<Rightarrow> ClientOptions" where
  "client_options cfg = \<lparr>co_hasStore = True, co_hasDeliverer = True, co_Workers = wkc_Enabled (cf_Worker cfg), co_Count = wkc_Count (cf_Worker cfg),
     co_MaxAttempts = wkc_MaxAttempts (cf_Worker cfg), co_JobTimeout = wkc_JobTimeout (cf_Worker cfg), co_SentRetention = rtc_Sent (cf_Retention cfg),
     co_FailedRetention = rtc_Failed (cf_Retention cfg), co_PurgeInterval = rtc_Interval (cf_Retention cfg)\<rparr>"

definition ingest_config :: "Service_Config \<Rightarrow> Ingest.Config" where
  "ingest_config cfg = \<lparr>cfg_MaxMessageBytes = lmc_MaxMessageBytes (cf_Limits cfg), cfg_MaxHeaderCount = lmc_MaxHeaderCount (cf_Limits cfg),
     cfg_MaxHeaderBytes = lmc_MaxHeaderBytes (cf_Limits cfg), cfg_MaxRecipients = lmc_MaxRecipients (cf_Limits cfg),
     cfg_DefaultRateLimitRPS = rlc_RPS (cf_RateLimit cfg), cfg_DefaultRateLimitBurst = rlc_Burst (cf_RateLimit cfg),
     cfg_RejectedRateLimitRPS = rlc_RejectedRPS (cf_RateLimit cfg), cfg_RejectedRateLimitBurst = rlc_RejectedBurst (cf_RateLimit cfg),
     cfg_IdempotencyTTL = rtc_IdempotencyTTL (cf_Retention cfg)\<rparr>"

definition serve_ingest :: "('l, 'h, 'k, 'i) serve_world \<Rightarrow> Service_Config \<Rightarrow> Store \<Rightarrow> (string, ('l, 'h) Service \<times> 'l Limiter) result" where
  "serve_ingest w cfg st =
     ingest_New (Some st) (Some (Enqueue (sw_insertTx w) (wkc_MaxAttempts (cf_Worker cfg))))
       (Some (ratelimit_New \<lparr>MaxEntries = rlc_MaxCredentials (cf_RateLimit cfg), IdleTTL = 0\<rparr>)) (ingest_config cfg) (sw_service w)"

definition serve_certs :: "('l, 'h, 'k, 'i) serve_world \<Rightarrow> Service_Config \<Rightarrow> (tls_error, ('k, 'i) Provider option) result" where
  "serve_certs w cfg =
     (if smc_Enabled (cf_SMTP cfg)
      then (case fst (tlsconf_New (sx_lower (sw_session w)) (sw_x509 w) (sw_tls_env w) cfg (sw_disk w)) of
              Inl e \<Rightarrow> Inl e
            | Inr p \<Rightarrow> Inr (Some p))
      else Inr None)"

definition http_options :: "('l, 'h, 'k, 'i) serve_world \<Rightarrow> Service_Config \<Rightarrow> Store \<Rightarrow> ('l, 'h) Service \<Rightarrow> ('l, 'h) http_server" where
  "http_options w cfg st ing = (sw_http w)\<lparr>hs_ingest := ing, hs_store := st, hs_authenticator := st,
     hs_limits := \<lparr>lim_MaxMessageBytes = lmc_MaxMessageBytes (cf_Limits cfg), lim_MaxRequestBytes = lmc_MaxRequestBytes (cf_Limits cfg),
                  lim_MaxRecipients = lmc_MaxRecipients (cf_Limits cfg)\<rparr>,
     hs_trustedProxyHeader := htc_TrustedProxyHeader (cf_HTTP cfg)\<rparr>"

definition serve_http ::
    "('l, 'h, 'k, 'i) serve_world \<Rightarrow> Service_Config \<Rightarrow> Store \<Rightarrow> ('l, 'h) Service \<Rightarrow> (serve_error, (string \<times> ('l, 'h) http_server) option) result" where
  "serve_http w cfg st ing =
     (if htc_Enabled (cf_HTTP cfg)
      then and_then (map_err ServeText (httpapi_NewServer True True True True (http_options w cfg st ing))) (\<lambda>srv.
           and_then (error_or (ServeListen (htc_Addr (cf_HTTP cfg))) (sw_listen w (htc_Addr (cf_HTTP cfg)))) (\<lambda>_.
             Inr (Some (htc_Addr (cf_HTTP cfg), srv))))
      else Inr None)"

definition admin_auth_config :: "Service_Config \<Rightarrow> AdminAuth_Config" where
  "admin_auth_config cfg = \<lparr>aa_Issuer = oic_Issuer (cf_OIDC cfg), aa_Audience = oic_Audience (cf_OIDC cfg), aa_JWKSURL = oic_JWKSURL (cf_OIDC cfg),
     aa_GroupsClaim = oic_GroupsClaim (cf_OIDC cfg), aa_AdminGroup = oic_AdminGroup (cf_OIDC cfg), aa_ViewerGroup = oic_ViewerGroup (cf_OIDC cfg),
     aa_DiscoveryTimeout = oic_DiscoveryTimeout (cf_OIDC cfg), aa_DiscoveryRetryAfter = oic_DiscoveryRetryAfter (cf_OIDC cfg)\<rparr>"

definition serve_admin ::
    "('l, 'h, 'k, 'i) serve_world \<Rightarrow> Service_Config \<Rightarrow> Store \<Rightarrow> (serve_error, (string \<times> 'v Verifier \<times> admin_server) option) result" where
  "serve_admin w cfg st =
     (if AdminEnabled cfg
      then and_then (map_err ServeAdminAuth (adminauth_New (admin_auth_config cfg))) (\<lambda>verifier.
           and_then (map_err ServeText (NewAdminServer True True True ((sw_admin w)\<lparr>as_store := st, as_prober := Some (sw_probe w (buildSender cfg)),
             as_maxRequestBytes := adc_MaxRequestBytes (cf_Admin cfg), as_pageSize := adc_PageSize (cf_Admin cfg),
             as_maxPageSize := adc_MaxPageSize (cf_Admin cfg)\<rparr>))) (\<lambda>srv.
           and_then (error_or (ServeListen (adc_Addr (cf_Admin cfg))) (sw_listen w (adc_Addr (cf_Admin cfg)))) (\<lambda>_.
             Inr (Some (adc_Addr (cf_Admin cfg), verifier, srv)))))
      else Inr None)"

definition smtpd_config :: "Service_Config \<Rightarrow> Smtpd_Config" where
  "smtpd_config cfg = \<lparr>sdc_Domain = smc_Domain (cf_SMTP cfg), sdc_Addr = smc_Addr (cf_SMTP cfg), sdc_TLSAddr = smc_TLSAddr (cf_SMTP cfg),
     sdc_ReadTimeout = smc_ReadTimeout (cf_SMTP cfg), sdc_WriteTimeout = smc_WriteTimeout (cf_SMTP cfg), sdc_ShutdownTimeout = smc_ShutdownTimeout (cf_SMTP cfg),
     sdc_MaxMessageBytes = lmc_MaxMessageBytes (cf_Limits cfg), sdc_MaxRecipients = lmc_MaxRecipients (cf_Limits cfg),
     sdc_MaxConnections = smc_MaxConnections (cf_SMTP cfg)\<rparr>"

definition serve_smtp ::
    "('l, 'h, 'k, 'i) serve_world \<Rightarrow> Service_Config \<Rightarrow> Store \<Rightarrow> ('l, 'h) Service \<Rightarrow> ('k, 'i) Provider option \<Rightarrow> (string, ('l, 'h) smtpd option) result" where
  "serve_smtp w cfg st ing certs =
     (if smc_Enabled (cf_SMTP cfg)
      then and_then (smtpd_New (Some ing) (Some st) (certs \<noteq> None) (smtpd_config cfg) (sw_smtpd w)) (\<lambda>sd. Inr (Some sd))
      else Inr None)"

definition on :: "bool \<Rightarrow> subsystem \<Rightarrow> subsystem list" where
  "on b s = (if b then [s] else [])"

text \<open>\<open>started n e\<close> is the error \<open>e\<close> of a step that comes after the subsystems \<open>n\<close> were started.\<close>

abbreviation started :: "subsystem list \<Rightarrow> serve_error \<Rightarrow> serve_error \<times> subsystem list" where
  "started n e \<equiv> (e, n)"

definition cmdServe :: "('l, 'h, 'k, 'i) serve_world \<Rightarrow> (serve_error \<times> subsystem list, ('l, 'h, 'v, 'k, 'i) process) result" where
  "cmdServe w =
     and_then (map_err (started [] \<circ> ServeSession) (loadConfig (sw_session w))) (\<lambda>cfg.
     and_then (fail_if (RequireServe (sx_lower (sw_session w)) cfg \<noteq> []) (started [] (ServeConfig (RequireServe (sx_lower (sw_session w)) cfg)))) (\<lambda>_.
     and_then (map_err (started [] \<circ> ServeSession) (openSession (sw_session w) True)) (\<lambda>opened.
     let st = the opened in
     and_then (map_err (started [] \<circ> ServeTLS) (serve_certs w cfg)) (\<lambda>certs.
     and_then (map_err (started [] \<circ> ServeText) (jobs_NewClient (sw_river w) (client_options cfg))) (\<lambda>river.
     and_then (map_err (started [] \<circ> ServeText) (serve_ingest w cfg st)) (\<lambda>(ing, lm).
     and_then (map_err (started []) (serve_http w cfg st ing)) (\<lambda>http.
     let n1 = on (htc_Enabled (cf_HTTP cfg)) (HTTPListener (htc_Addr (cf_HTTP cfg))) in
     and_then (map_err (started n1 \<circ> ServeWorkers) (if wkc_Enabled (cf_Worker cfg) then error_or (\<lambda>e. e) (sw_river_start w) else Inr ())) (\<lambda>_.
     let n2 = n1 @ on (wkc_Enabled (cf_Worker cfg)) DeliveryWorkers @ [CertificateReloads] @ on (certs \<noteq> None) CertificateWatch in
     and_then (map_err (started n2) (serve_admin w cfg st)) (\<lambda>admin.
     let n3 = n2 @ on (AdminEnabled cfg) (AdminListener (adc_Addr (cf_Admin cfg))) in
     and_then (map_err (started n3 \<circ> ServeText) (serve_smtp w cfg st ing certs)) (\<lambda>smtp.
       Inr \<lparr>pr_store = st, pr_certs = certs, pr_sender = buildSender cfg, pr_river = river, pr_ingest = ing, pr_limiter = lm,
            pr_http = http, pr_admin = admin, pr_smtp = smtp, pr_started = n3 @ on (smc_Enabled (cf_SMTP cfg)) SubmissionServer\<rparr>))))))))))"

text \<open>
  \<^verbatim>\<open>watchCertificateReloads\<close>: for every hang-up signal before the end, what the reload meets; a process without a certificate
  read from files ignores them.
\<close>

fun hangups :: "('k, 'i) x509_lib \<Rightarrow> ('k tls_env \<times> disk) list \<Rightarrow> ('k, 'i) Provider \<Rightarrow> ('k, 'i) Provider" where
  "hangups x [] p = p"
| "hangups x ((env, d) # signals) p = hangups x signals (fst (snd (Reload x env d p)))"

definition watchCertificateReloads ::
    "('k, 'i) x509_lib \<Rightarrow> ('k tls_env \<times> disk) list \<Rightarrow> ('k, 'i) Provider option \<Rightarrow> ('k, 'i) Provider option" where
  "watchCertificateReloads x signals certs =
     (case certs of
        None \<Rightarrow> None
      | Some p \<Rightarrow> if pv_source p = SourceFiles then Some (hangups x signals p) else Some p)"

section \<open>A process that runs\<close>

text \<open>\<open>certified\<close>: the submission server has a certificate to serve, of a kind this deployment may serve.\<close>

definition certified :: "(string \<Rightarrow> string) \<Rightarrow> Service_Config \<Rightarrow> ('k, 'i) Provider option \<Rightarrow> bool" where
  "certified u cfg certs \<longleftrightarrow>
     (\<exists>prov v c. certs = Some prov \<and> provider_Config prov = (v, Inr c) \<and> VersionTLS12 \<le> v \<and>
        (pv_source prov = SourceSelfSigned \<longrightarrow> tlc_SelfSignedAllowInProd (cf_TLS cfg) \<or> \<not> IsProd u cfg))"

text \<open>\<open>same_rules\<close>: a way in uses the one pipeline and the one store, and enforces the limits of the pipeline.\<close>

definition same_rules :: "('l, 'h, 'v, 'k, 'i) process \<Rightarrow> ('l, 'h) Service \<Rightarrow> Store \<Rightarrow> int \<Rightarrow> int \<Rightarrow> bool" where
  "same_rules p ing st maxBytes maxRecipients \<longleftrightarrow>
     ing = pr_ingest p \<and> st = pr_store p \<and> maxBytes = cfg_MaxMessageBytes (sv_cfg (pr_ingest p)) \<and>
     maxRecipients = cfg_MaxRecipients (sv_cfg (pr_ingest p))"

definition http_addr :: "('l, 'h, 'v, 'k, 'i) process \<Rightarrow> string option" where
  "http_addr p = map_option fst (pr_http p)"

lemma New_provider:
  assumes "tlsconf_New u x env cfg d = (Inr p, d')"
  shows "\<exists>v c. provider_Config p = (v, Inr c) \<and> VersionTLS12 \<le> v"
    "pv_source p = SourceSelfSigned \<Longrightarrow> tlc_SelfSignedAllowInProd (cf_TLS cfg) \<or> \<not> IsProd u cfg"
  using assms
  by (auto simp: tlsconf_New_def parseMinVersion_def Let_def Reload_def install_def provider_Config_def VersionTLS12_def
      split: sum.splits prod.splits if_splits)

lemma serve_certs_Inr:
  assumes "serve_certs w cfg = Inr certs" "smc_Enabled (cf_SMTP cfg)"
  shows "certified (sx_lower (sw_session w)) cfg certs"
proof -
  obtain p d' where p: "tlsconf_New (sx_lower (sw_session w)) (sw_x509 w) (sw_tls_env w) cfg (sw_disk w) = (Inr p, d')" "certs = Some p"
    using assms by (auto simp: serve_certs_def split: sum.splits prod.splits) (metis prod.collapse)
  show ?thesis using New_provider [OF p(1)] p(2) by (auto simp: certified_def)
qed

lemma serve_ingest_Inr:
  assumes "serve_ingest w cfg st = Inr (ing, lm)"
  shows "sv_store ing = st" "cfg_MaxMessageBytes (sv_cfg ing) = lmc_MaxMessageBytes (cf_Limits cfg)"
    "cfg_MaxRecipients (sv_cfg ing) = (if lmc_MaxRecipients (cf_Limits cfg) \<le> 0 then 50 else lmc_MaxRecipients (cf_Limits cfg))"
  using assms by (auto simp: serve_ingest_def ingest_New_def ingest_config_def)

lemma serve_http_Inr:
  assumes "serve_http w cfg st ing = Inr http"
  shows "map_option fst http = (if htc_Enabled (cf_HTTP cfg) then Some (htc_Addr (cf_HTTP cfg)) else None)"
    "http = Some (a, srv) \<Longrightarrow> hs_ingest srv = ing \<and> hs_authenticator srv = st \<and>
       lim_MaxMessageBytes (hs_limits srv) = lmc_MaxMessageBytes (cf_Limits cfg) \<and>
       lim_MaxRequestBytes (hs_limits srv) = lmc_MaxRequestBytes (cf_Limits cfg) \<and>
       lim_MaxRecipients (hs_limits srv) = (if lmc_MaxRecipients (cf_Limits cfg) \<le> 0 then 50 else lmc_MaxRecipients (cf_Limits cfg))"
  using assms by (auto simp: serve_http_def httpapi_NewServer_def http_options_def split: if_splits)

lemma serve_admin_Inr:
  assumes "serve_admin w cfg st = Inr admin"
  shows "admin = None \<longleftrightarrow> \<not> AdminEnabled cfg"
    "admin = Some (a, v, srv) \<Longrightarrow> a = adc_Addr (cf_Admin cfg) \<and> trim_space (aa_Issuer (vf_cfg v)) \<noteq> [] \<and>
       trim_space (aa_Audience (vf_cfg v)) \<noteq> [] \<and> as_store srv = st \<and> 0 < as_maxRequestBytes srv"
proof -
  show "admin = None \<longleftrightarrow> \<not> AdminEnabled cfg"
    using assms by (auto simp: serve_admin_def split: if_splits)
  assume "admin = Some (a, v, srv)"
  with assms obtain opts where "a = adc_Addr (cf_Admin cfg)" and v: "adminauth_New (admin_auth_config cfg) = Inr v"
    and srv: "NewAdminServer True True True opts = Inr srv" "as_store opts = st"
    by (auto simp: serve_admin_def split: if_splits)
  moreover have "trim_space (aa_Issuer (admin_auth_config cfg)) \<noteq> []"
    using v by (auto simp: adminauth_New_def split: if_splits)
  moreover have "as_store srv = st \<and> 0 < as_maxRequestBytes srv"
    using srv by (auto simp: NewAdminServer_def)
  ultimately show "a = adc_Addr (cf_Admin cfg) \<and> trim_space (aa_Issuer (vf_cfg v)) \<noteq> [] \<and>
       trim_space (aa_Audience (vf_cfg v)) \<noteq> [] \<and> as_store srv = st \<and> 0 < as_maxRequestBytes srv"
    using New_cfg(1, 2, 8) [OF v] by simp
qed

lemma serve_smtp_Inr:
  assumes "serve_smtp w cfg st ing certs = Inr smtp"
  shows "smtp = None \<longleftrightarrow> \<not> smc_Enabled (cf_SMTP cfg)"
    "smtp = Some sd \<Longrightarrow> sd_ingest sd = ing \<and> sd_authenticator sd = st \<and>
       sdc_MaxMessageBytes (sd_cfg sd) = (if lmc_MaxMessageBytes (cf_Limits cfg) \<le> 0 then 10 * 2 ^ 20 else lmc_MaxMessageBytes (cf_Limits cfg)) \<and>
       sdc_MaxRecipients (sd_cfg sd) = (if lmc_MaxRecipients (cf_Limits cfg) \<le> 0 then 50 else lmc_MaxRecipients (cf_Limits cfg))"
  using assms by (auto simp: serve_smtp_def smtpd_New_def smtpd_config_def split: if_splits)

lemma buildSender_safe:
  "0 < sc_Timeout (buildSender cfg)" "VersionTLS12 \<le> sc_MinTLSVersion (buildSender cfg)" "sc_HeloName (buildSender cfg) \<noteq> []"
  by (auto simp: buildSender_def sender_New_def VersionTLS12_def)

lemma cmdServe_Inr:
  assumes "cmdServe w = Inr p" "loadConfig (sw_session w) = Inr cfg"
  shows "RequireServe (sx_lower (sw_session w)) cfg = []" "serve_certs w cfg = Inr (pr_certs p)"
    "serve_ingest w cfg (pr_store p) = Inr (pr_ingest p, pr_limiter p)" "serve_http w cfg (pr_store p) (pr_ingest p) = Inr (pr_http p)"
    "serve_admin w cfg (pr_store p) = Inr (pr_admin p)" "serve_smtp w cfg (pr_store p) (pr_ingest p) (pr_certs p) = Inr (pr_smtp p)"
    "pr_sender p = buildSender cfg" "openSession (sw_session w) True = Inr opened \<Longrightarrow> pr_store p = the opened"
    "DeliveryWorkers \<in> set (pr_started p) \<longleftrightarrow> wkc_Enabled (cf_Worker cfg)"
  using assms by (auto simp: cmdServe_def Let_def on_def)

section \<open>Properties\<close>

text \<open>
  C16: A process that gets past its start is put together safely. If the submission server runs, there is a certificate to
  serve at a minimum version of TLS 1.2, and it is not a self-signed one in production unless that was asked for. Every way in, REST or SMTP, uses the one
  pipeline and store and enforces its limits on size and recipients, which are positive, and a REST request may be at least as large as a message.
  If the admin API runs, it has an issuer and an audience to check tokens against, and does not share its address with the public API. At least one subsystem
  runs, and the relays are spoken to under a time limit and at least TLS 1.2.
\<close>

theorem running_process_is_safe:
  fixes p :: "('l, 'h, 'v, 'k, 'i) process"
  assumes run: "cmdServe w = Inr p" and cfg: "loadConfig (sw_session w) = Inr cfg"
  shows "(\<forall>sd. pr_smtp p = Some sd \<longrightarrow> certified (sx_lower (sw_session w)) cfg (pr_certs p) \<and>
            same_rules p (sd_ingest sd) (sd_authenticator sd) (sdc_MaxMessageBytes (sd_cfg sd)) (sdc_MaxRecipients (sd_cfg sd))) \<and>
         (\<forall>a srv. pr_http p = Some (a, srv) \<longrightarrow>
            same_rules p (hs_ingest srv) (hs_authenticator srv) (lim_MaxMessageBytes (hs_limits srv)) (lim_MaxRecipients (hs_limits srv)) \<and>
            lim_MaxMessageBytes (hs_limits srv) \<le> lim_MaxRequestBytes (hs_limits srv)) \<and>
         (\<forall>a v srv. pr_admin p = Some (a, v, srv) \<longrightarrow> trim_space (aa_Issuer (vf_cfg v)) \<noteq> [] \<and> trim_space (aa_Audience (vf_cfg v)) \<noteq> [] \<and>
            http_addr p \<noteq> Some a \<and> as_store srv = pr_store p) \<and>
         sv_store (pr_ingest p) = pr_store p \<and> 0 < cfg_MaxMessageBytes (sv_cfg (pr_ingest p)) \<and> 0 < cfg_MaxRecipients (sv_cfg (pr_ingest p)) \<and>
         0 < sc_Timeout (pr_sender p) \<and> VersionTLS12 \<le> sc_MinTLSVersion (pr_sender p) \<and>
         (pr_http p \<noteq> None \<or> pr_smtp p \<noteq> None \<or> pr_admin p \<noteq> None \<or> DeliveryWorkers \<in> set (pr_started p))"
proof -
  note parts = cmdServe_Inr [OF run cfg]
  note valid = Validate_Nil [OF loadConfig_Inr(2) [OF cfg]] and serve = RequireServe_Nil [OF parts(1)]
  note ing = serve_ingest_Inr [OF parts(3)]
  have smtp: "certified (sx_lower (sw_session w)) cfg (pr_certs p) \<and>
      same_rules p (sd_ingest sd) (sd_authenticator sd) (sdc_MaxMessageBytes (sd_cfg sd)) (sdc_MaxRecipients (sd_cfg sd))"
    if "pr_smtp p = Some sd" for sd
    using serve_smtp_Inr [OF parts(6)] that ing valid serve_certs_Inr [OF parts(2)] by (auto simp: same_rules_def)
  have http: "same_rules p (hs_ingest srv) (hs_authenticator srv) (lim_MaxMessageBytes (hs_limits srv)) (lim_MaxRecipients (hs_limits srv)) \<and>
      lim_MaxMessageBytes (hs_limits srv) \<le> lim_MaxRequestBytes (hs_limits srv)" if "pr_http p = Some (a, srv)" for a srv
    using serve_http_Inr(2) [OF parts(4) that] ing valid by (auto simp: same_rules_def)
  have admin: "trim_space (aa_Issuer (vf_cfg v)) \<noteq> [] \<and> trim_space (aa_Audience (vf_cfg v)) \<noteq> [] \<and>
      http_addr p \<noteq> Some a \<and> as_store srv = pr_store p" if "pr_admin p = Some (a, v, srv)" for a v srv
    using serve_admin_Inr [OF parts(5)] that serve(5) serve_http_Inr(1) [OF parts(4)] by (auto simp: http_addr_def)
  have "pr_http p = None \<longleftrightarrow> \<not> htc_Enabled (cf_HTTP cfg)" using serve_http_Inr(1) [OF parts(4)] by (cases "pr_http p") (auto split: if_splits)
  then have "pr_http p \<noteq> None \<or> pr_smtp p \<noteq> None \<or> pr_admin p \<noteq> None \<or> DeliveryWorkers \<in> set (pr_started p)"
    using serve(4) serve_admin_Inr(1) [OF parts(5)] serve_smtp_Inr(1) [OF parts(6)] parts(9) by auto
  moreover have "sv_store (pr_ingest p) = pr_store p" "0 < cfg_MaxMessageBytes (sv_cfg (pr_ingest p))" "0 < cfg_MaxRecipients (sv_cfg (pr_ingest p))"
    "0 < sc_Timeout (pr_sender p)" "VersionTLS12 \<le> sc_MinTLSVersion (pr_sender p)"
    using ing valid(4,5) parts(7) buildSender_safe [of cfg] by simp_all
  ultimately show ?thesis using smtp http admin by blast
qed

text \<open>A hang-up signal never leaves the process without the certificate it had.\<close>

lemma hangups_keep_serving:
  assumes "pv_cert p \<noteq> None"
  shows "pv_cert (hangups x signals p) \<noteq> None"
  using assms
proof (induction x signals p rule: hangups.induct)
  case (2 x env d signals p)
  have "pv_cert (fst (snd (Reload x env d p))) \<noteq> None"
    using 2(2) by (auto simp: Reload_def install_def split: prod.splits sum.splits)
  then show ?case using 2(1) by simp
qed simp

section \<open>Examples\<close>

definition serve_config :: "string \<Rightarrow> Service_Config" where
  "serve_config audience = demo_tls_config\<lparr>cf_Database := default_Database\<lparr>dbc_URL := ''postgres://db''\<rparr>,
     cf_SMTP := default_SMTP\<lparr>smc_Domain := ''mx''\<rparr>,
     cf_Secrets := default_Secrets\<lparr>sec_EncryptionKeys := spec_a, sec_CredentialPepper := drop 2 spec_a\<rparr>,
     cf_OIDC := default_OIDC\<lparr>oic_Issuer := ''https://id'', oic_Audience := audience\<rparr>\<rparr>"

definition serve_session :: "string \<Rightarrow> session_world" where
  "serve_session audience = \<lparr>sx_lower = (\<lambda>s. s), sx_hostname = None, sx_parse = (\<lambda>_. (serve_config audience, None)), sx_obs = None, sx_db = None,
     sx_lib = demo_lib\<rparr>"

definition bare_admin :: admin_server where
  "bare_admin = \<lparr>as_store = demo_store, as_prober = None, as_maxRequestBytes = 0, as_pageSize = 0, as_maxPageSize = 0,
     as_uuid_Parse = (\<lambda>_. None), as_uuid = (\<lambda>_. []), as_rfc3339 = (\<lambda>_. []), as_rfc3339Nano = (\<lambda>_. []), as_time_Parse = (\<lambda>_. None),
     as_text = (\<lambda>_. []), as_pattern_text = (\<lambda>_. []), as_envelope_text = (\<lambda>_. [])\<rparr>"

definition demo_serve :: "string \<Rightarrow> (unit, (string \<times> string) list, string, string) serve_world" where
  "demo_serve audience = \<lparr>sw_session = serve_session audience, sw_x509 = demo_x509, sw_tls_env = demo_tls_env, sw_disk = demo_disk 1 ''one'' 1 ''one'',
     sw_river = (\<lambda>_. None), sw_river_start = None, sw_insertTx = (\<lambda>i q n. job_table_enqueue i), sw_listen = (\<lambda>_. None), sw_service = demo_service,
     sw_http = demo_http, sw_smtpd = demo_smtpd, sw_admin = bare_admin,
     sw_probe = (\<lambda>_ _. Inr \<lparr>pr_UsedTLS = True, pr_Authenticated = False, pr_Extensions = []\<rparr>)\<rparr>"

lemma serve_texts_all:
  "(trim_space ''https://id'' \<noteq> []) \<and>
   (trim_space ''relais'' \<noteq> []) \<and>
   (trim_space ''  '' = [])"
  by code_simp

lemmas serve_texts =
  serve_texts_all [THEN conjunct1]
  serve_texts_all [THEN conjunct2, THEN conjunct1]
  serve_texts_all [THEN conjunct2, THEN conjunct2]

lemmas demo_texts = session_texts serve_texts

lemma serve_config_cleaned: "applyDefaults (\<lambda>s. s) None (serve_config audience) = serve_config audience"
  by (simp add: applyDefaults_def serve_config_def demo_tls_config_def config_defaults demo_texts trim_right_any_def)

lemma serve_config_valid: "Validate (serve_config audience) = []"
  by (simp add: Validate_def check_def serve_config_def demo_tls_config_def config_defaults)

lemma serve_session_opens:
  "loadConfig (serve_session audience) = Inr (serve_config audience)"
  "openSession (serve_session audience) True = Inr (Some demo_store)"
proof -
  show load: "loadConfig (serve_session audience) = Inr (serve_config audience)"
    by (simp add: loadConfig_def Load_def LoadFrom_def serve_session_def serve_config_cleaned serve_config_valid)
  show "openSession (serve_session audience) True = Inr (Some demo_store)"
    unfolding openSession_def load
    by (simp add: RequireDatabase_def RequireKeyring_def RequirePepper_def serve_config_def demo_tls_config_def config_defaults demo_texts
        parse_ring_a serve_session_def demo_store_def)
qed

lemma serve_config_served: "audience \<noteq> [] \<Longrightarrow> RequireServe (\<lambda>s. s) (serve_config audience) = []"
  by (simp add: RequireServe_def RequireDatabase_def RequireKeyring_def RequirePepper_def requireTLS_def AdminEnabled_def check_def
      serve_config_def demo_tls_config_def config_defaults demo_texts)

lemma serve_config_fields:
  "AdminEnabled (serve_config audience)" "wkc_Enabled (cf_Worker (serve_config audience))" "htc_Enabled (cf_HTTP (serve_config audience))"
  "smc_Enabled (cf_SMTP (serve_config audience))" "htc_Addr (cf_HTTP (serve_config audience)) = '':8080''"
  "smc_Addr (cf_SMTP (serve_config audience)) = '':587''" "oic_Audience (cf_OIDC (serve_config audience)) = audience"
  "oic_Issuer (cf_OIDC (serve_config audience)) = ''https://id''"
  by (simp_all add: AdminEnabled_def serve_config_def demo_tls_config_def config_defaults demo_texts)

lemma demo_serve_fields:
  "sw_session (demo_serve audience) = serve_session audience" "sx_lower (serve_session audience) = (\<lambda>s. s)"
  "sw_river (demo_serve audience) = (\<lambda>_. None)" "sw_river_start (demo_serve audience) = None" "sw_listen (demo_serve audience) = (\<lambda>_. None)"
  by (simp_all add: demo_serve_def serve_session_def)

lemma demo_serve_certs: "serve_certs (demo_serve audience) (serve_config audience) = Inr (Some demo_provider)"
  by (simp add: serve_certs_def serve_config_fields demo_serve_def serve_session_def tlsconf_New_def parseMinVersion_def Reload_def statFiles_def
      run_load_def install_def serve_config_def demo_leaf_def demo_tls_defs)

lemma demo_admin_refused:
  "trim_space audience = [] \<Longrightarrow> serve_admin (demo_serve audience) (serve_config audience) st = Inl (ServeAdminAuth AA_AudienceRequired)"
  by (simp add: serve_admin_def serve_config_fields adminauth_New_def admin_auth_config_def demo_texts)

text \<open>
  An audience of blanks passes the checks of the configuration, and the error comes from the admin authentication after the public API and
  the delivery workers have been started.
\<close>

lemma blank_audience_half_starts:
  "cmdServe (demo_serve ''  '') = Inl (ServeAdminAuth AA_AudienceRequired, [HTTPListener '':8080'', DeliveryWorkers, CertificateReloads, CertificateWatch])"
proof -
  have "RequireServe (\<lambda>s. s) (serve_config ''  '') = []" by (rule serve_config_served) simp
  then show ?thesis
    by (simp add: demo_admin_refused demo_texts cmdServe_def demo_serve_fields serve_session_opens demo_serve_certs serve_config_fields serve_ingest_def ingest_New_def
        serve_http_def httpapi_NewServer_def jobs_NewClient_def client_options_def on_def)
qed

lemma demo_process:
  "\<exists>p :: (unit, (string \<times> string) list, unit, string, string) process.
     cmdServe (demo_serve ''relais'') = Inr p \<and> pr_http p \<noteq> None \<and> pr_admin p \<noteq> None \<and> pr_smtp p \<noteq> None \<and> pr_certs p = Some demo_provider"
proof -
  have "RequireServe (\<lambda>s. s) (serve_config ''relais'') = []" by (rule serve_config_served) simp
  then show ?thesis
    by (simp add: cmdServe_def demo_serve_fields serve_session_opens demo_serve_certs serve_config_fields serve_ingest_def ingest_New_def
        serve_http_def httpapi_NewServer_def jobs_NewClient_def client_options_def on_def serve_admin_def adminauth_New_def admin_auth_config_def
        NewAdminServer_def serve_smtp_def smtpd_New_def smtpd_config_def demo_texts)
qed

lemma running_process_is_safe_witness:
  "\<exists>(p :: (unit, (string \<times> string) list, unit, string, string) process) a v srv.
     cmdServe (demo_serve ''relais'') = Inr p \<and> pr_smtp p \<noteq> None \<and> certified (\<lambda>s. s) (serve_config ''relais'') (pr_certs p) \<and>
     pr_admin p = Some (a, v, srv) \<and> trim_space (aa_Audience (vf_cfg v)) \<noteq> [] \<and> http_addr p \<noteq> Some a"
proof -
  obtain p :: "(unit, (string \<times> string) list, unit, string, string) process" where
    p: "cmdServe (demo_serve ''relais'') = Inr p" "pr_admin p \<noteq> None" "pr_smtp p \<noteq> None" using demo_process by blast
  obtain a v srv where a: "pr_admin p = Some (a, v, srv)" using p(2) by (cases "pr_admin p") auto
  have "loadConfig (sw_session (demo_serve ''relais'')) = Inr (serve_config ''relais'')"
    by (simp add: demo_serve_fields serve_session_opens)
  from running_process_is_safe [OF p(1) this] p a show ?thesis
    by (auto simp: demo_serve_fields intro!: exI [of _ p])
qed

end
