(* ===== verification/Cmd_Cli.thy ===== *)
theory Cmd_Cli
  imports Cmd_Session Authn Sender
begin

text \<open>
  The administrative commands: \<^verbatim>\<open>src/cmd/relais/cmd_credential.go\<close>, \<^verbatim>\<open>cmd_backend.go\<close>, \<^verbatim>\<open>cmd_domain.go\<close>, \<^verbatim>\<open>cmd_keygen.go\<close> and
  \<^verbatim>\<open>cmd_healthcheck.go\<close>, from the arguments of the process to the operations of the store, with the parser of package \<^verbatim>\<open>flag\<close> they rest on.
  A command returns the lines it printed and its error. A line is a value with what its text shows; usage texts are left out.
\<close>

section \<open>Package flag\<close>

datatype flag_kind = TextFlag | IntFlag | FloatFlag | DurationFlag | BoolFlag | ListFlag

datatype flag_value = FlagText string | FlagInt int | FlagFloat rat | FlagBool bool

datatype flag_error = BadSyntax string | NotDefined string | HelpWanted | NeedsArgument string | InvalidValue string string

text \<open>\<^verbatim>\<open>strconv.ParseInt\<close> with base 0 and 64 bits, \<^verbatim>\<open>strconv.ParseFloat\<close> and \<^verbatim>\<open>time.ParseDuration\<close>.\<close>

record flag_lib =
  fg_ParseInt :: "string \<Rightarrow> int option"
  fg_ParseFloat :: "string \<Rightarrow> rat option"
  fg_ParseDuration :: "string \<Rightarrow> int option"

definition strconv_ParseBool :: "string \<Rightarrow> bool option" where
  "strconv_ParseBool s =
     (if s \<in> {''1'', ''t'', ''T'', ''true'', ''TRUE'', ''True''} then Some True
      else if s \<in> {''0'', ''f'', ''F'', ''false'', ''FALSE'', ''False''} then Some False else None)"

text \<open>\<^verbatim>\<open>stringList.Set\<close>: one setting may carry several values.\<close>

definition stringList_Set :: "string \<Rightarrow> string list" where
  "stringList_Set value = filter (\<lambda>item. item \<noteq> []) (map trim_space (split_on (CHR '','') value))"

definition flag_Set :: "flag_lib \<Rightarrow> flag_kind \<Rightarrow> string \<Rightarrow> flag_value list option" where
  "flag_Set x kind value =
     (case kind of
        TextFlag \<Rightarrow> Some [FlagText value]
      | IntFlag \<Rightarrow> map_option (\<lambda>v. [FlagInt v]) (fg_ParseInt x value)
      | FloatFlag \<Rightarrow> map_option (\<lambda>v. [FlagFloat v]) (fg_ParseFloat x value)
      | DurationFlag \<Rightarrow> map_option (\<lambda>v. [FlagInt v]) (fg_ParseDuration x value)
      | BoolFlag \<Rightarrow> map_option (\<lambda>v. [FlagBool v]) (strconv_ParseBool value)
      | ListFlag \<Rightarrow> Some (map FlagText (stringList_Set value)))"

text \<open>The name of a flag argument and its value after an equals sign; \<open>None\<close> for an argument that is not a flag, or ends them.\<close>

definition flag_minuses :: "string \<Rightarrow> nat option" where
  "flag_minuses s =
     (case s of
        CHR ''-'' # CHR ''-'' # _ \<Rightarrow> Some 2
      | CHR ''-'' # _ # _ \<Rightarrow> Some 1
      | _ \<Rightarrow> None)"

definition flag_split :: "string \<Rightarrow> string \<times> string option" where
  "flag_split name =
     (case name of
        [] \<Rightarrow> ([], None)
      | c # cs \<Rightarrow> (case cut (CHR ''='') cs of None \<Rightarrow> (name, None) | Some (a, v) \<Rightarrow> (c # a, Some v)))"

definition bad_flag_name :: "string \<Rightarrow> bool" where
  "bad_flag_name name \<longleftrightarrow> name = [] \<or> hd name = CHR ''-'' \<or> hd name = CHR ''=''"

type_synonym flag_settings = "(string \<times> flag_value) list"

definition flag_note :: "flag_lib \<Rightarrow> string \<Rightarrow> flag_kind \<Rightarrow> string \<Rightarrow> (flag_error, flag_settings) result" where
  "flag_note x name kind value =
     (case flag_Set x kind value of None \<Rightarrow> Inl (InvalidValue name value) | Some vs \<Rightarrow> Inr (map (Pair name) vs))"

definition with_note ::
    "(flag_error, flag_settings) result \<Rightarrow> (flag_error, flag_settings \<times> string list) result \<Rightarrow> (flag_error, flag_settings \<times> string list) result" where
  "with_note note rest = and_then note (\<lambda>vs. and_then rest (\<lambda>(ws, args). Inr (vs @ ws, args)))"

text \<open>\<^verbatim>\<open>FlagSet.Parse\<close>: the settings in order and the arguments that are left, from the first that is not a flag.\<close>

fun flag_Parse :: "flag_lib \<Rightarrow> (string \<times> flag_kind) list \<Rightarrow> string list \<Rightarrow> (flag_error, flag_settings \<times> string list) result" where
  "flag_Parse x spec [] = Inr ([], [])"
| "flag_Parse x spec (s # args) =
     (case flag_minuses s of
        None \<Rightarrow> Inr ([], s # args)
      | Some n \<Rightarrow>
          if s = ''--'' then Inr ([], args)
          else if bad_flag_name (drop n s) then Inl (BadSyntax s)
          else (case flag_split (drop n s) of
            (name, value) \<Rightarrow>
              (case map_of spec name of
                 None \<Rightarrow> Inl (if name = ''help'' \<or> name = ''h'' then HelpWanted else NotDefined name)
               | Some BoolFlag \<Rightarrow>
                   with_note (flag_note x name BoolFlag (case value of None \<Rightarrow> ''true'' | Some v \<Rightarrow> v)) (flag_Parse x spec args)
               | Some kind \<Rightarrow>
                   (case value of
                      Some v \<Rightarrow> with_note (flag_note x name kind v) (flag_Parse x spec args)
                    | None \<Rightarrow>
                        (case args of
                           [] \<Rightarrow> Inl (NeedsArgument name)
                         | v # args' \<Rightarrow> with_note (flag_note x name kind v) (flag_Parse x spec args'))))))"

declare flag_Parse.simps [simp del]

definition settings_of :: "flag_settings \<Rightarrow> string \<Rightarrow> flag_value list" where
  "settings_of ss name = map snd (filter (\<lambda>(n, _). n = name) ss)"

text \<open>A flag that is set several times has the last value; \<open>flag_list\<close> has all.\<close>

definition flag_text :: "flag_settings \<Rightarrow> string \<Rightarrow> string \<Rightarrow> string" where
  "flag_text ss name def = (case rev (settings_of ss name) of FlagText v # _ \<Rightarrow> v | _ \<Rightarrow> def)"

definition flag_int :: "flag_settings \<Rightarrow> string \<Rightarrow> int \<Rightarrow> int" where
  "flag_int ss name def = (case rev (settings_of ss name) of FlagInt v # _ \<Rightarrow> v | _ \<Rightarrow> def)"

definition flag_float :: "flag_settings \<Rightarrow> string \<Rightarrow> rat \<Rightarrow> rat" where
  "flag_float ss name def = (case rev (settings_of ss name) of FlagFloat v # _ \<Rightarrow> v | _ \<Rightarrow> def)"

definition flag_bool :: "flag_settings \<Rightarrow> string \<Rightarrow> bool" where
  "flag_bool ss name = (case rev (settings_of ss name) of FlagBool v # _ \<Rightarrow> v | _ \<Rightarrow> False)"

definition flag_list :: "flag_settings \<Rightarrow> string \<Rightarrow> string list" where
  "flag_list ss name = List.map_filter (\<lambda>v. case v of FlagText t \<Rightarrow> Some t | _ \<Rightarrow> None) (settings_of ss name)"

section \<open>Commands\<close>

datatype stdin_line = StdinLine string | StdinError string | StdinEnd

record cli_env =
  ce_session :: session_world
  ce_flags :: flag_lib
  ce_uuid_Parse :: "string \<Rightarrow> uuid option"
  ce_uuid :: "uuid \<Rightarrow> string"
  ce_date :: "timestamp \<Rightarrow> string"
  ce_USER :: string
  ce_USERNAME :: string
  ce_stdin :: stdin_line
  ce_terminal :: bool
  ce_password :: "(string, string) result"

datatype cli_error =
    FlagError flag_error | UsageError string | BadID string string | SessionFailed session_error | StoreFailed store_error
  | NoSuch string string | Taken string string | InUse string | NoRoute string | SecretFailed string

datatype cli_line =
    Said string
  | CreatedLine string string uuid
  | SecretLine string string
  | PatternLine string
  | RowLine "string list"

type_synonym cli_out = "cli_line list \<times> cli_error option"

definition cli_fail :: "cli_error \<Rightarrow> cli_out prog" where
  "cli_fail e = ret ([], Some e)"

definition cli_done :: "cli_line list \<Rightarrow> cli_out prog" where
  "cli_done ls = ret (ls, None)"

definition with_flags :: "cli_env \<Rightarrow> (string \<times> flag_kind) list \<Rightarrow> string list \<Rightarrow> (flag_settings \<Rightarrow> string list \<Rightarrow> cli_out prog) \<Rightarrow> cli_out prog" where
  "with_flags env spec args k =
     (case flag_Parse (ce_flags env) spec args of Inl e \<Rightarrow> cli_fail (FlagError e) | Inr (ss, rest) \<Rightarrow> k ss rest)"

definition with_id :: "cli_env \<Rightarrow> string \<Rightarrow> string \<Rightarrow> (uuid \<Rightarrow> cli_out prog) \<Rightarrow> cli_out prog" where
  "with_id env what text k = (case ce_uuid_Parse env text of None \<Rightarrow> cli_fail (BadID what text) | Some i \<Rightarrow> k i)"

text \<open>The commands that take one id and nothing else.\<close>

definition one_id :: "cli_env \<Rightarrow> string \<Rightarrow> string list \<Rightarrow> (uuid \<Rightarrow> cli_out prog) \<Rightarrow> cli_out prog" where
  "one_id env what rest k = (case rest of [a] \<Rightarrow> with_id env what a k | _ \<Rightarrow> cli_fail (UsageError what))"

definition with_store :: "cli_env \<Rightarrow> (Store \<Rightarrow> cli_out prog) \<Rightarrow> cli_out prog" where
  "with_store env k =
     (case openSession (ce_session env) True of Inl e \<Rightarrow> cli_fail (SessionFailed e) | Inr st \<Rightarrow> k (the st))"

text \<open>An operation of the store whose error is reported as \<open>g\<close> says, after the lines \<open>said\<close>.\<close>

definition cli_try :: "cli_line list \<Rightarrow> (store_error, 'a) result prog \<Rightarrow> (store_error \<Rightarrow> cli_error) \<Rightarrow> ('a \<Rightarrow> cli_out prog) \<Rightarrow> cli_out prog" where
  "cli_try said m g k =
     do { r \<leftarrow> m; case r of Inl e \<Rightarrow> ret (said, Some (g e)) | Inr x \<Rightarrow> k x }"

definition not_found_as :: "cli_error \<Rightarrow> store_error \<Rightarrow> cli_error" where
  "not_found_as e se = (if se = ErrNotFound then e else StoreFailed se)"

definition reference_as :: "cli_error \<Rightarrow> store_error \<Rightarrow> cli_error" where
  "reference_as e se = (case se of ErrReference _ \<Rightarrow> e | _ \<Rightarrow> StoreFailed se)"

definition conflict_as :: "cli_error \<Rightarrow> store_error \<Rightarrow> cli_error" where
  "conflict_as e se = (case se of ErrConflict _ \<Rightarrow> e | _ \<Rightarrow> StoreFailed se)"

definition cli_credentialState :: "bool \<Rightarrow> bool \<Rightarrow> string" where
  "cli_credentialState enabled revoked = (if revoked then ''revoked'' else if \<not> enabled then ''disabled'' else ''active'')"

definition orDash :: "string \<Rightarrow> string" where
  "orDash value = (if value = [] then ''-'' else value)"

definition cliActor :: "cli_env \<Rightarrow> string" where
  "cliActor env =
     (let user = (if ce_USER env = [] then ce_USERNAME env else ce_USER env) in
      if user = [] then ''cli''
      else (case sx_hostname (ce_session env) of Some h \<Rightarrow> ''cli:'' @ user @ ''@'' @ h | None \<Rightarrow> ''cli:'' @ user))"

definition show_bool :: "bool \<Rightarrow> string" where
  "show_bool b = (if b then ''true'' else ''false'')"

subsection \<open>Credentials\<close>

definition any_recipient :: cli_line where
  "any_recipient = Said ''allowed recipients: any address (no restriction configured)''"

definition secret_lines :: "CreatedCredential \<Rightarrow> cli_line list" where
  "secret_lines cc =
     (if cred_Type (cc_Credential cc) = CredentialTypeSMTPUser
      then [SecretLine ''SMTP username'' (cred_Lookup (cc_Credential cc)), SecretLine ''SMTP password'' (Reveal (cc_Secret cc))]
      else [SecretLine ''API key'' (Reveal (cc_Secret cc))])"

definition credential_create_flags :: "(string \<times> flag_kind) list" where
  "credential_create_flags = [(''name'', TextFlag), (''type'', TextFlag), (''username'', TextFlag), (''from'', ListFlag), (''to'', ListFlag),
     (''rate-limit-rps'', FloatFlag), (''rate-limit-burst'', IntFlag), (''disabled'', BoolFlag)]"

definition credential_create_params :: "cli_env \<Rightarrow> flag_settings \<Rightarrow> NewCredentialParams" where
  "credential_create_params env ss =
     \<lparr>ncp_Name = flag_text ss ''name'' [], ncp_Type = flag_text ss ''type'' CredentialTypeAPIKey, ncp_SMTPUsername = flag_text ss ''username'' [],
      ncp_Patterns = flag_list ss ''from'', ncp_RecipientPatterns = flag_list ss ''to'',
      ncp_RateLimitRPS = (if flag_float ss ''rate-limit-rps'' 0 > 0 then Some (flag_float ss ''rate-limit-rps'' 0) else None),
      ncp_RateLimitBurst = (if flag_int ss ''rate-limit-burst'' 0 > 0 then Some (to_int32 (flag_int ss ''rate-limit-burst'' 0)) else None),
      ncp_CreatedBy = cliActor env, ncp_Enabled = (\<not> flag_bool ss ''disabled'')\<rparr>"

definition credential_create_error :: "string \<Rightarrow> string \<Rightarrow> store_error \<Rightarrow> cli_error" where
  "credential_create_error name username e =
     (case e of
        ErrConflict c \<Rightarrow>
          if ConstraintName e = ''credential_name_key'' then Taken ''credential'' name
          else if ConstraintName e = ''credential_lookup_key'' then Taken ''SMTP username'' username
          else StoreFailed e
      | _ \<Rightarrow> StoreFailed e)"

definition created_lines :: "cli_env \<Rightarrow> CreatedCredential \<Rightarrow> cli_line list" where
  "created_lines env cc =
     [CreatedLine ''created credential'' (cred_Name (cc_Credential cc)) (cred_ID (cc_Credential cc)),
      RowLine [cred_Type (cc_Credential cc), show_bool (cred_Enabled (cc_Credential cc))]] @
     secret_lines cc @
     [Said ''Copy the secret now: it is stored only as a fingerprint and cannot be shown again.''] @
     (if length (cc_Patterns cc) = 0
      then [Said ''Warning: no sender pattern is configured, so this credential cannot send anything yet.'']
      else Said ''allowed senders:'' # map PatternLine (cc_Patterns cc)) @
     (if length (cc_RecipientPatterns cc) = 0 then [any_recipient] else Said ''allowed recipients:'' # map PatternLine (cc_RecipientPatterns cc))"

definition cmdCredentialCreate :: "cli_env \<Rightarrow> string list \<Rightarrow> cli_out prog" where
  "cmdCredentialCreate env args =
     with_flags env credential_create_flags args (\<lambda>ss _.
       if flag_text ss ''name'' [] = [] then cli_fail (UsageError ''-name is required'')
       else with_store env (\<lambda>st.
         cli_try [] (CreateCredential st (credential_create_params env ss))
           (credential_create_error (flag_text ss ''name'' []) (flag_text ss ''username'' []))
           (\<lambda>cc. cli_done (created_lines env cc))))"

definition credential_row :: "cli_env \<Rightarrow> Credential \<times> int \<times> int \<Rightarrow> cli_line" where
  "credential_row env row =
     (case row of (c, patterns, recipients) \<Rightarrow>
        RowLine [cred_Name c, cred_Type c, cred_Lookup c, show_int patterns, if recipients > 0 then show_int recipients else ''any'',
          cli_credentialState (cred_Enabled c) (cred_RevokedAt c \<noteq> None),
          case cred_LastUsedAt c of None \<Rightarrow> ''never'' | Some t \<Rightarrow> ce_date env t, ce_uuid env (cred_ID c)])"

definition cmdCredentialList :: "cli_env \<Rightarrow> string list \<Rightarrow> cli_out prog" where
  "cmdCredentialList env args =
     with_flags env [] args (\<lambda>_ _. with_store env (\<lambda>st.
       cli_try [] ListCredentials StoreFailed (\<lambda>cs.
         cli_done (if cs = [] then [Said ''no credentials configured''] else map (credential_row env) cs))))"

definition credential_head :: "cli_env \<Rightarrow> Credential \<Rightarrow> cli_line list" where
  "credential_head env c =
     [CreatedLine ''credential'' (cred_Name c) (cred_ID c),
      RowLine [cred_Type c, cred_Lookup c, cli_credentialState (cred_Enabled c) (cred_RevokedAt c \<noteq> None)],
      RowLine [ce_date env (cred_CreatedAt c), orDash (cred_CreatedBy c)]] @
     (case cred_RevokedAt c of None \<Rightarrow> [] | Some t \<Rightarrow> [RowLine [ce_date env t]])"

definition cmdCredentialShow :: "cli_env \<Rightarrow> string list \<Rightarrow> cli_out prog" where
  "cmdCredentialShow env args =
     with_flags env [] args (\<lambda>_ rest. one_id env ''credential'' rest (\<lambda>i. with_store env (\<lambda>st.
       cli_try [] (LoadCredential st i) (not_found_as (NoSuch ''credential'' (ce_uuid env i))) (\<lambda>ac.
         let said = credential_head env (ac_Credential ac) in
         cli_try said (ListPatterns i) StoreFailed (\<lambda>ps.
           let said' = said @ (if ps = [] then [Said ''allowed senders: none (this credential cannot send anything)'']
                               else map (\<lambda>p. RowLine [fpat_Pattern p, ce_uuid env (fpat_ID p)]) ps) in
           cli_try said' (ListRecipientPatterns i) StoreFailed (\<lambda>rs.
             cli_done (said' @ (if rs = [] then [any_recipient] else map (\<lambda>p. RowLine [rpat_Pattern p, ce_uuid env (rpat_ID p)]) rs))))))))"

definition cmdCredentialRotate :: "cli_env \<Rightarrow> string list \<Rightarrow> cli_out prog" where
  "cmdCredentialRotate env args =
     with_flags env [] args (\<lambda>_ rest. one_id env ''credential'' rest (\<lambda>i. with_store env (\<lambda>st.
       cli_try [] (RotateCredentialSecret st i) (not_found_as (NoSuch ''credential'' (ce_uuid env i))) (\<lambda>cc.
         cli_done ([CreatedLine ''rotated credential'' (cred_Name (cc_Credential cc)) (cred_ID (cc_Credential cc))] @ secret_lines cc)))))"

text \<open>\<^verbatim>\<open>cmdCredentialDelete\<close> reports every error of the first read as a missing credential.\<close>

definition cmdCredentialDelete :: "cli_env \<Rightarrow> string list \<Rightarrow> cli_out prog" where
  "cmdCredentialDelete env args =
     with_flags env [] args (\<lambda>_ rest. one_id env ''credential'' rest (\<lambda>i. with_store env (\<lambda>st.
       do { existing \<leftarrow> exec (\<lambda>_ _. Queries_GetCredential i);
            case existing of
              Inl _ \<Rightarrow> cli_fail (NoSuch ''credential'' (ce_uuid env i))
            | Inr c \<Rightarrow>
                cli_try [] (DeleteCredential i) (not_found_as (NoSuch ''credential'' (ce_uuid env i)))
                  (\<lambda>_. cli_done [CreatedLine ''deleted credential'' (cred_Name c) i]) })))"

definition cmdCredentialRevoke :: "cli_env \<Rightarrow> string list \<Rightarrow> cli_out prog" where
  "cmdCredentialRevoke env args =
     with_flags env [] args (\<lambda>_ rest. one_id env ''credential'' rest (\<lambda>i. with_store env (\<lambda>st.
       cli_try [] (RevokeCredential st i) (not_found_as (NoSuch ''credential'' (ce_uuid env i))) (\<lambda>c.
         cli_done [CreatedLine ''revoked credential'' (cred_Name c) (cred_ID c), RowLine [case cred_RevokedAt c of None \<Rightarrow> [] | Some t \<Rightarrow> ce_date env t]]))))"

definition only_listed :: cli_line where
  "only_listed = Said ''this credential can now send only to the addresses listed above''"

definition cmdCredentialRecipient :: "cli_env \<Rightarrow> string list \<Rightarrow> cli_out prog" where
  "cmdCredentialRecipient env args =
     (case args of
        action # idArg # flagArgs \<Rightarrow>
          with_id env ''credential'' idArg (\<lambda>i. with_flags env [(''to'', ListFlag)] flagArgs (\<lambda>ss rest. with_store env (\<lambda>st.
            if action = ''add'' then
              (if flag_list ss ''to'' = [] then cli_fail (UsageError ''at least one -to pattern is required'')
               else cli_try [] (AddRecipientPatterns st i (flag_list ss ''to'')) (reference_as (NoSuch ''credential'' (ce_uuid env i)))
                      (\<lambda>added. cli_done (map PatternLine added @ [only_listed])))
            else if action = ''rm'' then
              one_id env ''pattern'' rest (\<lambda>j.
                cli_try [] (RemoveRecipientPattern i j) (not_found_as (NoSuch ''recipient pattern'' (ce_uuid env j))) (\<lambda>_.
                  do { remaining \<leftarrow> ListRecipientPatterns i;
                       cli_done ([CreatedLine ''removed recipient pattern'' [] j] @
                         (case remaining of
                            Inr [] \<Rightarrow> [Said ''no restriction remains: this credential may now send to any address'']
                          | _ \<Rightarrow> [])) }))
            else cli_fail (UsageError ''unknown recipient action''))))
      | _ \<Rightarrow> cli_fail (UsageError ''an action and a credential id are required''))"

definition cmdCredentialPattern :: "cli_env \<Rightarrow> string list \<Rightarrow> cli_out prog" where
  "cmdCredentialPattern env args =
     (case args of
        action # idArg # flagArgs \<Rightarrow>
          with_id env ''credential'' idArg (\<lambda>i. with_flags env [(''from'', ListFlag)] flagArgs (\<lambda>ss rest. with_store env (\<lambda>st.
            if action = ''add'' then
              (if flag_list ss ''from'' = [] then cli_fail (UsageError ''at least one -from pattern is required'')
               else cli_try [] (AddPatterns st i (flag_list ss ''from'')) (reference_as (NoSuch ''credential'' (ce_uuid env i)))
                      (\<lambda>added. cli_done (map PatternLine added)))
            else if action = ''rm'' then
              one_id env ''pattern'' rest (\<lambda>j.
                cli_try [] (RemovePattern i j) (not_found_as (NoSuch ''pattern'' (ce_uuid env j))) (\<lambda>_.
                  cli_done [CreatedLine ''removed pattern'' [] j]))
            else cli_fail (UsageError ''unknown pattern action''))))
      | _ \<Rightarrow> cli_fail (UsageError ''an action and a credential id are required''))"

definition cmdCredential :: "cli_env \<Rightarrow> string list \<Rightarrow> cli_out prog" where
  "cmdCredential env args =
     (case args of
        [] \<Rightarrow> cli_fail (UsageError ''usage: relais credential create|list|show|rotate|revoke|delete|pattern|recipient'')
      | a # rest \<Rightarrow>
          if a = ''create'' then cmdCredentialCreate env rest
          else if a = ''list'' then cmdCredentialList env rest
          else if a = ''show'' then cmdCredentialShow env rest
          else if a = ''rotate'' then cmdCredentialRotate env rest
          else if a = ''revoke'' then cmdCredentialRevoke env rest
          else if a = ''delete'' then cmdCredentialDelete env rest
          else if a = ''recipient'' then cmdCredentialRecipient env rest
          else if a = ''pattern'' then cmdCredentialPattern env rest
          else cli_fail (UsageError a))"

subsection \<open>Backends\<close>

definition authDescription :: "string \<Rightarrow> string" where
  "authDescription user = (if user = [] then ''-'' else if length user > 28 then take 25 user @ ''...'' else user)"

text \<open>\<^verbatim>\<open>readSecret\<close>; \<open>ce_stdin\<close> is what scanning a line gives, \<open>ce_password\<close> what \<^verbatim>\<open>term.ReadPassword\<close> gives.\<close>

definition readSecret :: "cli_env \<Rightarrow> bool \<Rightarrow> (string, string) result" where
  "readSecret env fromStdin =
     (if fromStdin
      then (case ce_stdin env of
              StdinError e \<Rightarrow> Inl e
            | StdinEnd \<Rightarrow> Inl ''no password on stdin''
            | StdinLine t \<Rightarrow> Inr (trim_right_any [char_of (13 :: nat), char_of (10 :: nat)] t))
      else if \<not> ce_terminal env then Inl ''stdin is not a terminal: pass -password-stdin to read the password from a pipe''
      else (case ce_password env of Inl e \<Rightarrow> Inl e | Inr raw \<Rightarrow> Inr (trim_space raw)))"

definition backend_add_flags :: "(string \<times> flag_kind) list" where
  "backend_add_flags = [(''name'', TextFlag), (''host'', TextFlag), (''port'', IntFlag), (''tls'', TextFlag), (''user'', TextFlag),
     (''password-stdin'', BoolFlag), (''helo'', TextFlag), (''max-concurrency'', IntFlag), (''disabled'', BoolFlag)]"

definition backend_add_params :: "flag_settings \<Rightarrow> string \<Rightarrow> NewBackendParams" where
  "backend_add_params ss password =
     \<lparr>nbp_Name = flag_text ss ''name'' [], nbp_Host = flag_text ss ''host'' [], nbp_Port = to_int32 (flag_int ss ''port'' 587),
      nbp_TLSMode = flag_text ss ''tls'' TLSModeSTARTTLS, nbp_AuthUser = flag_text ss ''user'' [], nbp_AuthPassword = Secret password,
      nbp_HeloName = flag_text ss ''helo'' [], nbp_MaxConcurrency = to_int32 (flag_int ss ''max-concurrency'' 2),
      nbp_Enabled = (\<not> flag_bool ss ''disabled'')\<rparr>"

definition backend_password :: "cli_env \<Rightarrow> flag_settings \<Rightarrow> (string, string) result" where
  "backend_password env ss =
     (if flag_text ss ''user'' [] = [] then Inr []
      else and_then (readSecret env (flag_bool ss ''password-stdin'')) (\<lambda>value.
        if value = [] then Inl ''an empty password was supplied for a backend that uses SMTP AUTH'' else Inr value))"

definition backend_row :: "cli_env \<Rightarrow> SmtpBackend \<Rightarrow> cli_line" where
  "backend_row env b = RowLine [be_Name b, be_Host b @ '':'' @ show_int (be_Port b), be_TlsMode b, authDescription (be_AuthUser b),
     show_int (be_MaxConcurrency b), show_bool (be_Enabled b), ce_uuid env (be_ID b)]"

definition cmdBackendAdd :: "cli_env \<Rightarrow> string list \<Rightarrow> cli_out prog" where
  "cmdBackendAdd env args =
     with_flags env backend_add_flags args (\<lambda>ss _.
       if flag_text ss ''name'' [] = [] \<or> flag_text ss ''host'' [] = [] then cli_fail (UsageError ''-name and -host are required'')
       else (case backend_password env ss of
         Inl e \<Rightarrow> cli_fail (SecretFailed e)
       | Inr password \<Rightarrow> with_store env (\<lambda>st.
           cli_try [] (CreateBackend st (backend_add_params ss password)) (conflict_as (Taken ''backend'' (flag_text ss ''name'' []))) (\<lambda>b.
             cli_done [CreatedLine ''created backend'' (be_Name b) (be_ID b), backend_row env b]))))"

definition cmdBackendList :: "cli_env \<Rightarrow> string list \<Rightarrow> cli_out prog" where
  "cmdBackendList env args =
     with_flags env [] args (\<lambda>_ _. with_store env (\<lambda>st.
       cli_try [] ListBackends StoreFailed (\<lambda>bs.
         cli_done (if bs = [] then [Said ''no backends configured''] else map (backend_row env) bs))))"

definition backend_rm_error :: "string \<Rightarrow> store_error \<Rightarrow> cli_error" where
  "backend_rm_error i e = (case e of ErrNotFound \<Rightarrow> NoSuch ''backend'' i | ErrReference _ \<Rightarrow> InUse i | _ \<Rightarrow> StoreFailed e)"

definition cmdBackendRemove :: "cli_env \<Rightarrow> string list \<Rightarrow> cli_out prog" where
  "cmdBackendRemove env args =
     with_flags env [] args (\<lambda>_ rest. one_id env ''backend'' rest (\<lambda>i. with_store env (\<lambda>st.
       cli_try [] (DeleteBackend i) (backend_rm_error (ce_uuid env i)) (\<lambda>_. cli_done [CreatedLine ''deleted backend'' [] i]))))"

definition cmdBackendRewrap :: "cli_env \<Rightarrow> string list \<Rightarrow> cli_out prog" where
  "cmdBackendRewrap env args =
     with_flags env [] args (\<lambda>_ _. with_store env (\<lambda>st.
       do { (e, count) \<leftarrow> RewrapBackendPasswords st;
            case e of
              Some err \<Rightarrow> cli_fail (StoreFailed err)
            | None \<Rightarrow> cli_done [if count = 0 then Said ''every backend password is already sealed under the active key''
                               else RowLine [''re-sealed'', show_int count]] }))"

definition cmdBackend :: "cli_env \<Rightarrow> string list \<Rightarrow> cli_out prog" where
  "cmdBackend env args =
     (case args of
        [] \<Rightarrow> cli_fail (UsageError ''usage: relais backend add|list|rm|rewrap'')
      | a # rest \<Rightarrow>
          if a = ''add'' then cmdBackendAdd env rest
          else if a = ''list'' then cmdBackendList env rest
          else if a = ''rm'' then cmdBackendRemove env rest
          else if a = ''rewrap'' then cmdBackendRewrap env rest
          else cli_fail (UsageError a))"

subsection \<open>Domains\<close>

definition resolveBackendRef :: "cli_env \<Rightarrow> Store \<Rightarrow> string \<Rightarrow> (cli_error, uuid \<times> string) result prog" where
  "resolveBackendRef env st ref =
     (case ce_uuid_Parse env ref of
        Some i \<Rightarrow> orelse (GetBackend i) (not_found_as (NoSuch ''backend'' (ce_uuid env i))) (\<lambda>b. ret (Inr (be_ID b, be_Name b)))
      | None \<Rightarrow> orelse (GetBackendByName st ref) (not_found_as (NoSuch ''backend'' ref)) (\<lambda>b. ret (Inr (be_ID b, be_Name b))))"

definition cmdDomainAdd :: "cli_env \<Rightarrow> string list \<Rightarrow> cli_out prog" where
  "cmdDomainAdd env args =
     with_flags env [(''name'', TextFlag), (''backend'', TextFlag), (''include-subdomains'', BoolFlag), (''disabled'', BoolFlag)] args (\<lambda>ss _.
       let name = flag_text ss ''name'' []; backend = flag_text ss ''backend'' [] in
       if name = [] \<or> backend = [] then cli_fail (UsageError ''-name and -backend are required'')
       else with_store env (\<lambda>st.
         do { r \<leftarrow> resolveBackendRef env st backend;
              case r of
                Inl e \<Rightarrow> cli_fail e
              | Inr (backendID, backendName) \<Rightarrow>
                  cli_try [] (CreateDomain st \<lparr>ndp_Name = name, ndp_BackendID = backendID, ndp_IncludeSubdomains = flag_bool ss ''include-subdomains'',
                                ndp_Enabled = (\<not> flag_bool ss ''disabled'')\<rparr>)
                    (conflict_as (Taken ''domain'' name)) (\<lambda>d.
                    cli_done ([CreatedLine ''created domain'' (dom_Name d) (dom_ID d), RowLine [backendName]] @
                      (if dom_Name d \<noteq> name then [RowLine [''normalized from'', name]] else []) @
                      [RowLine [show_bool (dom_IncludeSubdomains d), show_bool (dom_Enabled d)]])) }))"

definition domain_row :: "cli_env \<Rightarrow> Domain \<times> string \<times> bool \<Rightarrow> cli_line" where
  "domain_row env row =
     (case row of (d, backendName, backendEnabled) \<Rightarrow>
        RowLine [dom_Name d, backendName, show_bool (dom_IncludeSubdomains d),
          if dom_Enabled d \<and> \<not> backendEnabled then ''true (backend disabled)'' else show_bool (dom_Enabled d), ce_uuid env (dom_ID d)])"

definition cmdDomainList :: "cli_env \<Rightarrow> string list \<Rightarrow> cli_out prog" where
  "cmdDomainList env args =
     with_flags env [] args (\<lambda>_ _. with_store env (\<lambda>st.
       cli_try [] ListDomains StoreFailed (\<lambda>ds.
         cli_done (if ds = [] then [Said ''no domains configured''] else map (domain_row env) ds))))"

definition cmdDomainRemove :: "cli_env \<Rightarrow> string list \<Rightarrow> cli_out prog" where
  "cmdDomainRemove env args =
     with_flags env [] args (\<lambda>_ rest. one_id env ''domain'' rest (\<lambda>i. with_store env (\<lambda>st.
       cli_try [] (DeleteDomain i) (not_found_as (NoSuch ''domain'' (ce_uuid env i))) (\<lambda>_. cli_done [CreatedLine ''deleted domain'' [] i]))))"

definition cmdDomainResolve :: "cli_env \<Rightarrow> string list \<Rightarrow> cli_out prog" where
  "cmdDomainResolve env args =
     with_flags env [] args (\<lambda>_ rest.
       case rest of
         [a] \<Rightarrow> with_store env (\<lambda>st.
           cli_try [] (ResolveSender st a) (not_found_as (NoRoute a)) (\<lambda>route.
             cli_done [RowLine [a, sr_DomainName route, sr_BackendName route],
               RowLine [sr_Host route @ '':'' @ show_int (sr_Port route), sr_TLSMode route, show_bool (UsesAuth route), show_int (sr_MaxConcurrency route)]]))
       | _ \<Rightarrow> cli_fail (UsageError ''exactly one domain is required''))"

definition cmdDomain :: "cli_env \<Rightarrow> string list \<Rightarrow> cli_out prog" where
  "cmdDomain env args =
     (case args of
        [] \<Rightarrow> cli_fail (UsageError ''usage: relais domain add|list|rm|resolve'')
      | a # rest \<Rightarrow>
          if a = ''add'' then cmdDomainAdd env rest
          else if a = ''list'' then cmdDomainList env rest
          else if a = ''rm'' then cmdDomainRemove env rest
          else if a = ''resolve'' then cmdDomainResolve env rest
          else cli_fail (UsageError a))"

subsection \<open>Key material and the health check\<close>

definition emit :: "bool \<Rightarrow> string \<Rightarrow> string \<Rightarrow> cli_line list" where
  "emit export name value =
     (if export then [RowLine [''export'', name, value]] else [SecretLine name value, Said ''Set the variable to the value above.''])"

text \<open>\<open>draw\<close> is what the random generator returns for 32 bytes, with its error.\<close>

definition cmdKeygen :: "cli_env \<Rightarrow> (string, string) result \<Rightarrow> string list \<Rightarrow> cli_out" where
  "cmdKeygen env draw args =
     (case flag_Parse (ce_flags env) [(''export'', BoolFlag)] args of
        Inl e \<Rightarrow> ([], Some (FlagError e))
      | Inr (ss, rest) \<Rightarrow>
          (let kind = (case rest of [] \<Rightarrow> ''key'' | a # _ \<Rightarrow> a); export = flag_bool ss ''export'' in
           if kind = ''key'' then
             (case draw of Inl e \<Rightarrow> ([], Some (SecretFailed e))
              | Inr buf \<Rightarrow> (emit export ''RELAIS_SECRET_ENCRYPTION_KEYS'' (''1:'' @ the (GenerateKey (Some buf))), None))
           else if kind = ''pepper'' then
             (case draw of Inl e \<Rightarrow> ([], Some (SecretFailed e))
              | Inr buf \<Rightarrow> (emit export ''RELAIS_SECRET_CREDENTIAL_PEPPER'' (the (GenerateKey (Some buf))), None))
           else ([], Some (UsageError kind))))"

definition readinessURL :: "string \<Rightarrow> string" where
  "readinessURL addr =
     (case cut (CHR '':'') addr of
        None \<Rightarrow> ''http://127.0.0.1:8080/readyz''
      | Some (host, port) \<Rightarrow>
          ''http://'' @ (if host \<in> {[], ''0.0.0.0'', ''[::]'', ''::''} then ''127.0.0.1'' else host) @ '':'' @ port @ ''/readyz'')"

text \<open>
  The probe endpoints of \<^verbatim>\<open>src/internal/httpapi/health.go\<close>: status and body. \<open>healthy\<close> is \<^verbatim>\<open>db.Healthy\<close>, whether the pool answers within
  two seconds; every other path is not found.
\<close>

definition health_route :: "bool \<Rightarrow> string \<Rightarrow> int \<times> (string \<times> string) list" where
  "health_route healthy path =
     (if path = ''/healthz'' then (200, [(''status'', ''ok'')])
      else if path = ''/readyz''
      then if \<not> healthy then (503, [(''status'', ''unavailable''), (''reason'', ''database'')]) else (200, [(''status'', ''ready'')])
      else (404, []))"

datatype probe_error = ProbeFlags flag_error | ProbeConfig session_error | ProbeRequest string | ProbeStatus string int

text \<open>\<^verbatim>\<open>cmdHealthcheck\<close>; \<open>get\<close> is the request: an error, or a status.\<close>

definition cmdHealthcheck :: "cli_env \<Rightarrow> (string \<Rightarrow> (string, int) result) \<Rightarrow> string list \<Rightarrow> (probe_error, unit) result" where
  "cmdHealthcheck env get args =
     and_then (map_err ProbeFlags (flag_Parse (ce_flags env) [(''url'', TextFlag), (''timeout'', DurationFlag)] args)) (\<lambda>(ss, _).
     and_then (if flag_text ss ''url'' [] = []
               then and_then (map_err ProbeConfig (loadConfig (ce_session env))) (\<lambda>cfg. Inr (readinessURL (htc_Addr (cf_HTTP cfg))))
               else Inr (flag_text ss ''url'' [])) (\<lambda>target.
     and_then (map_err ProbeRequest (get target)) (\<lambda>status.
       fail_if (status \<noteq> 200) (ProbeStatus target status))))"

section \<open>Dispatch\<close>

text \<open>\<^verbatim>\<open>run\<close>, for the three commands that work on the store.\<close>

definition run_command :: "cli_env \<Rightarrow> string list \<Rightarrow> cli_out prog" where
  "run_command env args =
     (case args of
        [] \<Rightarrow> cli_fail (UsageError ''a command is required'')
      | command # rest \<Rightarrow>
          if command = ''backend'' then cmdBackend env rest
          else if command = ''domain'' then cmdDomain env rest
          else if command = ''credential'' then cmdCredential env rest
          else cli_fail (UsageError command))"

end
