(* ===== verification/Cmd_Facts.thy ===== *)
theory Cmd_Facts
  imports Cmd_Cli Admin_Facts
begin

text \<open>
  What the commands promise: they keep the constraints and the history of the database, a command line that is refused does nothing, and the
  secret that \<^verbatim>\<open>credential create\<close> prints is the one that authenticates. Smaller facts show where their output or their arguments
  mislead.
\<close>

section \<open>Commands as programs over the store\<close>

context db_order
begin

lemma obeys_cli_fail: "obeys (cli_fail e)"
  by (simp add: cli_fail_def obeys_return)

lemma obeys_cli_done: "obeys (cli_done ls)"
  by (simp add: cli_done_def obeys_return)

lemma obeys_cli_try: "obeys m \<Longrightarrow> (\<And>x. obeys (k x)) \<Longrightarrow> obeys (cli_try said m g k)"
  unfolding cli_try_def by (intro obeys_bind) (auto split: sum.splits intro: obeys_return)

lemma obeys_with_flags: "(\<And>ss rest. obeys (k ss rest)) \<Longrightarrow> obeys (with_flags env spec args k)"
  by (auto simp: with_flags_def intro: obeys_cli_fail split: sum.splits)

lemma obeys_with_id: "(\<And>i. obeys (k i)) \<Longrightarrow> obeys (with_id env what text k)"
  by (auto simp: with_id_def intro: obeys_cli_fail split: option.splits)

lemma obeys_one_id: "(\<And>i. obeys (k i)) \<Longrightarrow> obeys (one_id env what rest k)"
  by (auto simp: one_id_def intro: obeys_cli_fail obeys_with_id split: list.splits)

lemma obeys_with_store:
  assumes "\<And>st. st_lib st = sx_lib (ce_session env) \<Longrightarrow> obeys (k st)"
  shows "obeys (with_store env k)"
proof (cases "openSession (ce_session env) True")
  case (Inr st)
  then obtain keyring hasher where "st = Some \<lparr>st_keyring = keyring, st_hasher = hasher, st_lib = sx_lib (ce_session env)\<rparr>"
    by (rule openSession_Inr)
  then show ?thesis using assms Inr by (simp add: with_store_def)
qed (simp add: with_store_def obeys_cli_fail)

lemma obeys_if: "obeys p \<Longrightarrow> obeys q \<Longrightarrow> obeys (if b then p else q)"
  by simp

lemma obeys_case_list: "obeys p \<Longrightarrow> (\<And>x xs. obeys (k x xs)) \<Longrightarrow> obeys (case l of [] \<Rightarrow> p | x # xs \<Rightarrow> k x xs)"
  by (cases l) auto

lemma obeys_case_sum: "(\<And>e. obeys (p e)) \<Longrightarrow> (\<And>x. obeys (q x)) \<Longrightarrow> obeys (case r of Inl e \<Rightarrow> p e | Inr x \<Rightarrow> q x)"
  by (cases r) auto

lemma obeys_case_option: "obeys p \<Longrightarrow> (\<And>x. obeys (q x)) \<Longrightarrow> obeys (case r of None \<Rightarrow> p | Some x \<Rightarrow> q x)"
  by (cases r) auto

lemma obeys_case_prod: "(\<And>x y. obeys (p x y)) \<Longrightarrow> obeys (case r of (x, y) \<Rightarrow> p x y)"
  by (cases r) auto

lemmas obeys_cases = obeys_if obeys_case_list obeys_case_sum obeys_case_option obeys_case_prod

lemmas obeys_cli = obeys_cases obeys_cli_fail obeys_cli_done obeys_cli_try obeys_with_flags obeys_with_id obeys_one_id

end

lemmas credential_commands = cmdCredentialCreate_def cmdCredentialList_def cmdCredentialShow_def cmdCredentialRotate_def cmdCredentialDelete_def
  cmdCredentialRevoke_def cmdCredentialRecipient_def cmdCredentialPattern_def
lemmas backend_commands = cmdBackendAdd_def cmdBackendList_def cmdBackendRemove_def cmdBackendRewrap_def
lemmas domain_commands = cmdDomainAdd_def cmdDomainList_def cmdDomainRemove_def cmdDomainResolve_def

abbreviation cli_lower :: "cli_env \<Rightarrow> string \<Rightarrow> string" where
  "cli_lower env \<equiv> x_lower (sx_lib (ce_session env))"

lemma store_ops_obey:
  assumes "st_lib st = sx_lib (ce_session env)"
  shows "au.obeys (cli_lower env) (CreateCredential st p)" "au.obeys (cli_lower env) (RevokeCredential st i)"
    "au.obeys (cli_lower env) (RotateCredentialSecret st i)" "au.obeys (cli_lower env) (AddPatterns st i raw)"
    "au.obeys (cli_lower env) (AddRecipientPatterns st i raw)" "au.obeys (cli_lower env) (CreateBackend st nb)"
    "au.obeys (cli_lower env) (RewrapBackendPasswords st)" "au.obeys (cli_lower env) (CreateDomain st nd)"
  using assms CreateCredential_obeys [of st] credential_ops_obey [of st] routing_ops_obey [of st] by simp_all

lemma any_store_obey:
  "au.obeys lower (DeleteCredential i)" "au.obeys lower (RemovePattern i j)" "au.obeys lower (RemoveRecipientPattern i j)"
  "au.obeys lower (DeleteBackend i)" "au.obeys lower (DeleteDomain i)"
  by (simp_all add: DeleteCredential_def RemovePattern_def RemoveRecipientPattern_def DeleteBackend_def DeleteDomain_def
      au.obeys_orelse au.obeys_return au.obeys_exec audits)

lemma any_read_obey:
  "au.obeys lower ListCredentials" "au.obeys lower (ListPatterns i)" "au.obeys lower (ListRecipientPatterns i)" "au.obeys lower ListBackends"
  "au.obeys lower ListDomains" "au.obeys lower (GetBackend i)" "au.obeys lower (GetBackendByName st t)"
  "au.obeys lower (exec (\<lambda>_ _. Queries_GetCredential i))"
  unfolding ListCredentials_def ListPatterns_def ListRecipientPatterns_def ListBackends_def ListDomains_def GetBackend_def GetBackendByName_def
  by (auto intro!: au.obeys_rules)

lemma resolveBackendRef_obeys: "au.obeys lower (resolveBackendRef env st ref)"
  unfolding resolveBackendRef_def by (intro au.obeys_cases au.obeys_orelse au.obeys_return any_read_obey)

lemmas cli_obey = au.obeys_cli au.obeys_with_store au.obeys_bind store_ops_obey any_store_obey any_read_obey resolveBackendRef_obeys
  Load_obeys ResolveSender_obeys

lemma credential_commands_obey: "au.obeys (cli_lower env) (cmdCredential env args)"
  unfolding cmdCredential_def credential_commands Let_def by (intro cli_obey) assumption+

lemma backend_commands_obey: "au.obeys (cli_lower env) (cmdBackend env args)"
  unfolding cmdBackend_def backend_commands Let_def by (intro cli_obey) assumption+

lemma domain_commands_obey: "au.obeys (cli_lower env) (cmdDomain env args)"
  unfolding cmdDomain_def domain_commands Let_def by (intro cli_obey) assumption+

lemma commands_obey: "au.obeys (cli_lower env) (run_command env args)"
  unfolding run_command_def by (intro au.obeys_cli credential_commands_obey backend_commands_obey domain_commands_obey)

section \<open>A refused command line does nothing\<close>

text \<open>The errors of the command line itself, of the environment and of the password prompt.\<close>

definition front_error :: "cli_error \<Rightarrow> bool" where
  "front_error e = (case e of FlagError _ \<Rightarrow> True | UsageError _ \<Rightarrow> True | BadID _ _ \<Rightarrow> True | SessionFailed _ \<Rightarrow> True | SecretFailed _ \<Rightarrow> True | _ \<Rightarrow> False)"

definition prudent :: "cli_out prog \<Rightarrow> bool" where
  "prudent m \<longleftrightarrow> (\<forall>w ls e w'. run_state m w = ((ls, Some e), w') \<longrightarrow> front_error e \<longrightarrow> w' = w \<and> ls = [])"

definition store_error_only :: "cli_out prog \<Rightarrow> bool" where
  "store_error_only m \<longleftrightarrow> (\<forall>w ls e w'. run_state m w = ((ls, Some e), w') \<longrightarrow> \<not> front_error e)"

lemma settled_done: "store_error_only (cli_done ls)"
  by (simp add: store_error_only_def cli_done_def)

lemma settled_fail: "\<not> front_error e \<Longrightarrow> store_error_only (cli_fail e)"
  by (simp add: store_error_only_def cli_fail_def)

lemma settled_try: "(\<And>e. \<not> front_error (g e)) \<Longrightarrow> (\<And>x. store_error_only (k x)) \<Longrightarrow> store_error_only (cli_try said m g k)"
  by (auto simp: store_error_only_def cli_try_def split: sum.splits prod.splits)

lemma settled_bind: "(\<And>x. store_error_only (k x)) \<Longrightarrow> store_error_only (State_Monad.bind m k)"
  by (auto simp: store_error_only_def split: prod.splits)

lemma settled_cases:
  "store_error_only p \<Longrightarrow> (\<And>x. store_error_only (q x)) \<Longrightarrow> store_error_only (case r of None \<Rightarrow> p | Some x \<Rightarrow> q x)"
  "(\<And>e. store_error_only (p' e)) \<Longrightarrow> (\<And>x. store_error_only (q' x)) \<Longrightarrow> store_error_only (case s of Inl e \<Rightarrow> p' e | Inr x \<Rightarrow> q' x)"
  "(\<And>x y. store_error_only (t x y)) \<Longrightarrow> store_error_only (case z of (x, y) \<Rightarrow> t x y)"
  by (auto split: option.splits sum.splits prod.splits)

lemma prudent_settled: "store_error_only m \<Longrightarrow> prudent m"
  by (auto simp: store_error_only_def prudent_def)

lemma prudent_fail: "prudent (cli_fail e)"
  by (simp add: prudent_def cli_fail_def)

lemma prudent_rules:
  "(\<And>ss rest. prudent (f ss rest)) \<Longrightarrow> prudent (with_flags env spec args f)"
  "(\<And>i. prudent (k i)) \<Longrightarrow> prudent (with_id env what text k)"
  "(\<And>i. prudent (k i)) \<Longrightarrow> prudent (one_id env what rest k)"
  "(\<And>st. prudent (q st)) \<Longrightarrow> prudent (with_store env q)"
  "prudent a \<Longrightarrow> prudent b \<Longrightarrow> prudent (if c then a else b)"
  "prudent a \<Longrightarrow> (\<And>x xs. prudent (l x xs)) \<Longrightarrow> prudent (case args' of [] \<Rightarrow> a | x # xs \<Rightarrow> l x xs)"
  "(\<And>e. prudent (p e)) \<Longrightarrow> (\<And>x. prudent (r x)) \<Longrightarrow> prudent (case s of Inl e \<Rightarrow> p e | Inr x \<Rightarrow> r x)"
  by (auto simp: with_flags_def with_id_def one_id_def with_store_def intro: prudent_fail split: sum.splits option.splits list.splits)

lemma not_front:
  "\<not> front_error (NoSuch t i)" "\<not> front_error (StoreFailed e)" "\<not> front_error (Taken t i)" "\<not> front_error (InUse i)" "\<not> front_error (NoRoute t)"
  "\<not> front_error (not_found_as (NoSuch t i) e)" "\<not> front_error (not_found_as (NoRoute t) e)" "\<not> front_error (reference_as (NoSuch t i) e)"
  "\<not> front_error (conflict_as (Taken t i) e)" "\<not> front_error (credential_create_error t i e)" "\<not> front_error (backend_rm_error i e)"
  by (auto simp: front_error_def not_found_as_def reference_as_def conflict_as_def credential_create_error_def backend_rm_error_def
      split: store_error.splits)

lemma resolve_not_front: "store_error_only (do { r \<leftarrow> resolveBackendRef env st ref; case r of Inl e \<Rightarrow> cli_fail e | Inr (i, t) \<Rightarrow> k i t })"
  if "\<And>i t. store_error_only (k i t)"
proof -
  have "\<not> front_error e" if "run_state (resolveBackendRef env st ref) w = (Inl e, w')" for w w' e
    using that by (auto simp: resolveBackendRef_def orelse_def not_front split: option.splits sum.splits prod.splits)
  then show ?thesis using that by (auto simp: store_error_only_def cli_fail_def split: prod.splits sum.splits)
qed

lemmas cli_settled = prudent_settled settled_done settled_fail settled_try settled_bind settled_cases not_front resolve_not_front

lemma credential_commands_prudent: "prudent (cmdCredential env args)"
  unfolding cmdCredential_def credential_commands Let_def
  by (intro prudent_rules prudent_fail cli_settled)

lemma backend_commands_prudent: "prudent (cmdBackend env args)"
  unfolding cmdBackend_def backend_commands Let_def
  by (intro prudent_rules prudent_fail cli_settled)

lemma domain_commands_prudent: "prudent (cmdDomain env args)"
  unfolding cmdDomain_def domain_commands Let_def
  by (intro prudent_rules prudent_fail cli_settled)

lemma commands_prudent: "prudent (run_command env args)"
  unfolding run_command_def
  by (intro prudent_rules prudent_fail credential_commands_prudent backend_commands_prudent domain_commands_prudent)

section \<open>Properties\<close>


text \<open>The value of the first line that shows a secret under a label.\<close>

definition shown :: "string \<Rightarrow> cli_line list \<Rightarrow> string option" where
  "shown label ls = (case List.map_filter (\<lambda>l. case l of SecretLine n v \<Rightarrow> if n = label then Some v else None | _ \<Rightarrow> None) ls of
     [] \<Rightarrow> None | v # _ \<Rightarrow> Some v)"

text \<open>A client that was given what the command printed.\<close>

definition client_of :: "Store \<Rightarrow> cli_line list \<Rightarrow> (authn_error, AuthCredential) result prog" where
  "client_of st ls =
     (case shown ''API key'' ls of
        Some k \<Rightarrow> APIKey st k
      | None \<Rightarrow> SMTPUser st (the (shown ''SMTP username'' ls)) (the (shown ''SMTP password'' ls)))"

lemma shown_created:
  "cred_Type (cc_Credential cc) = CredentialTypeSMTPUser \<Longrightarrow> shown ''API key'' (created_lines env cc) = None"
  "cred_Type (cc_Credential cc) = CredentialTypeSMTPUser \<Longrightarrow> shown ''SMTP username'' (created_lines env cc) = Some (cred_Lookup (cc_Credential cc))"
  "cred_Type (cc_Credential cc) = CredentialTypeSMTPUser \<Longrightarrow> shown ''SMTP password'' (created_lines env cc) = Some (Reveal (cc_Secret cc))"
  "cred_Type (cc_Credential cc) \<noteq> CredentialTypeSMTPUser \<Longrightarrow> shown ''API key'' (created_lines env cc) = Some (Reveal (cc_Secret cc))"
  by (simp_all add: shown_def created_lines_def secret_lines_def any_recipient_def List.map_filter_def filter_map o_def)

lemma client_of_created:
  assumes "cred_Type (cc_Credential cc) \<in> {CredentialTypeAPIKey, CredentialTypeSMTPUser}"
  shows "client_of st (created_lines env cc) = presents st cc"
proof -
  have "CredentialTypeAPIKey \<noteq> CredentialTypeSMTPUser" by code_simp
  then show ?thesis using assms by (auto simp: client_of_def presents_def shown_created)
qed

lemma create_command:
  assumes "run_state (run_command env (''credential'' # ''create'' # args)) w = ((ls, None), w')"
  obtains ss rest st cc where "flag_Parse (ce_flags env) credential_create_flags args = Inr (ss, rest)"
    "openSession (ce_session env) True = Inr (Some st)" "st_lib st = sx_lib (ce_session env)"
    "run_state (CreateCredential st (credential_create_params env ss)) w = (Inr cc, w')" "ls = created_lines env cc"
proof -
  have "run_state (cmdCredentialCreate env args) w = ((ls, None), w')"
    using assms by (simp add: run_command_def cmdCredential_def)
  then obtain ss rest opened cc where p: "flag_Parse (ce_flags env) credential_create_flags args = Inr (ss, rest)"
      "openSession (ce_session env) True = Inr opened" "run_state (CreateCredential (the opened) (credential_create_params env ss)) w = (Inr cc, w')"
      "ls = created_lines env cc"
    unfolding cmdCredentialCreate_def with_flags_def with_store_def cli_try_def cli_fail_def cli_done_def
    by (auto split: sum.splits prod.splits if_splits)
  from p(2) obtain keyring hasher where "opened = Some \<lparr>st_keyring = keyring, st_hasher = hasher, st_lib = sx_lib (ce_session env)\<rparr>"
    by (rule openSession_Inr)
  then show thesis using p by (intro that [of ss rest "the opened" cc]) auto
qed

lemma created_is_new:
  assumes "run_state (CreateCredential s p) w = (Inr cc, w')" "db_inv (st_lower s) (tables w)" "peers w = []"
  shows "cc_Credential cc \<in> set (db_credentials (tables w')) \<and> cred_ID (cc_Credential cc) \<notin> credential_ids (tables w)"
  using assms(1)
proof (cases rule: CreateCredential_cases)
  case (tried q ps rs)
  from CreateCredential_loop_outcome [OF tried(4) assms(2,3)] show ?thesis
    by (auto simp: creation_outcome_def credential_created_def)
qed simp

text \<open>
  C29: The secret the operator copies from the terminal is the one that works. When \<^verbatim>\<open>relais credential create\<close> succeeds without
  database failures, a client that presents what the command printed, the API key as a bearer token or the SMTP username with its
  password, is let in as the credential just created, with the sender patterns given by \<^verbatim>\<open>-from\<close> (repeated or separated by commas)
  and no other; with \<^verbatim>\<open>-disabled\<close> it is turned away.
\<close>

theorem printed_secret_authenticates:
  assumes lib: "externals_lawful (sx_lib (ce_session env))" and w: "quiet w" "db_inv (cli_lower env) (tables w)"
    and run: "run_state (run_command env (''credential'' # ''create'' # args)) w = ((ls, None), w')"
  shows "\<exists>ss rest st ac w''. flag_Parse (ce_flags env) credential_create_flags args = Inr (ss, rest) \<and>
    openSession (ce_session env) True = Inr (Some st) \<and>
    run_state (client_of st ls) w' = (if flag_bool ss ''disabled'' then Inl ErrUnauthenticated else Inr ac, w'') \<and>
    ac_Credential ac \<in> set (db_credentials (tables w')) \<and> cred_ID (ac_Credential ac) \<notin> credential_ids (tables w) \<and>
    (\<forall>a. Allows (ac_Patterns ac) a \<longleftrightarrow>
       (\<exists>item \<in> set (flag_list ss ''from''). \<exists>q. frompattern_Parse (x_idna (sx_lib (ce_session env))) item = Inr q \<and> Matches q a))"
proof -
  from run obtain ss rest st cc where c: "flag_Parse (ce_flags env) credential_create_flags args = Inr (ss, rest)"
      "openSession (ce_session env) True = Inr (Some st)" "st_lib st = sx_lib (ce_session env)"
      "run_state (CreateCredential st (credential_create_params env ss)) w = (Inr cc, w')" "ls = created_lines env cc"
    by (rule create_command)
  have p: "ncp_Patterns (credential_create_params env ss) = flag_list ss ''from''"
      "ncp_Enabled (credential_create_params env ss) \<longleftrightarrow> \<not> flag_bool ss ''disabled''"
    by (simp_all add: credential_create_params_def)
  obtain ac w'' where l: "run_state (LoadCredentialByLookup st (cred_Lookup (cc_Credential cc))) w' = (Inr ac, w'')"
      "ac_Credential ac = cc_Credential cc" "cred_Type (cc_Credential cc) \<in> {CredentialTypeAPIKey, CredentialTypeSMTPUser}"
      "Usable ac \<longleftrightarrow> \<not> flag_bool ss ''disabled''" "secret_opens st cc"
      "\<forall>a. Allows (ac_Patterns ac) a \<longleftrightarrow>
         (\<exists>item \<in> set (flag_list ss ''from''). \<exists>q. frompattern_Parse (x_idna (sx_lib (ce_session env))) item = Inr q \<and> Matches q a)"
    using created_loads [OF _ w(1) _ c(4)] lib w(2) c(3) p by auto
  have "run_state (client_of st ls) w' = (if flag_bool ss ''disabled'' then Inl ErrUnauthenticated else Inr ac, w'')"
    using presents_secret [OF l(5,1,2,3)] client_of_created [OF l(3)] l(4) c(5) by simp
  moreover have "cc_Credential cc \<in> set (db_credentials (tables w'))" "cred_ID (cc_Credential cc) \<notin> credential_ids (tables w)"
    using created_is_new [OF c(4)] w c(3) by (auto simp: quiet_def)
  ultimately show ?thesis using c(1,2) l(2,6)
    by (intro exI [of _ ss] exI [of _ rest] exI [of _ st] exI [of _ ac] exI [of _ w'']) simp
qed

section \<open>Where the commands mislead\<close>

text \<open>
  A listen address of all IPv6 interfaces is probed as it is written: the address is cut at its first colon, so the cases for
  \<^verbatim>\<open>[::]\<close> and \<^verbatim>\<open>::\<close> are never met, and the loopback address is only used for the IPv4 forms.
\<close>

lemma readiness_of_all_ipv6: "readinessURL ''[::]:8080'' = ''http://[::]:8080/readyz'' \<and> readinessURL ''0.0.0.0:8080'' = ''http://127.0.0.1:8080/readyz''"
  by code_simp

text \<open>
  On an address without a host or of all IPv4 interfaces, the health check of a container is healthy exactly when the process answers
  and its database does.
\<close>

lemma healthcheck_reports_database:
  assumes "loadConfig (ce_session env) = Inr cfg" "htc_Addr (cf_HTTP cfg) \<in> {'':'' @ port, ''0.0.0.0:'' @ port}"
    and get: "\<And>path. get (''http://127.0.0.1:'' @ port @ path) = Inr (fst (health_route healthy path))"
  shows "cmdHealthcheck env get [] = (if healthy then Inr () else Inl (ProbeStatus (''http://127.0.0.1:'' @ port @ ''/readyz'') 503))"
proof -
  have "readinessURL (htc_Addr (cf_HTTP cfg)) = ''http://127.0.0.1:'' @ port @ ''/readyz''" using assms(2) by (auto simp: readinessURL_def)
  then show ?thesis
    using assms(1) get [of "''/readyz''"]
    by (simp add: cmdHealthcheck_def flag_Parse.simps flag_text_def settings_of_def health_route_def fail_if_def)
qed

text \<open>\<^verbatim>\<open>relais keygen key -export\<close>, the order of the usage text, prints no export statement: flags after the first argument are not read.\<close>

lemma keygen_export_ignored:
  "cmdKeygen env (Inr buf) [''key'', ''-export''] = cmdKeygen env (Inr buf) [''key'']"
  "cmdKeygen env (Inr buf) [''-export'', ''key''] = ([RowLine [''export'', ''RELAIS_SECRET_ENCRYPTION_KEYS'', ''1:'' @ the (GenerateKey (Some buf))]], None)"
  by (simp_all add: cmdKeygen_def flag_Parse.simps flag_minuses_def flag_split_def bad_flag_name_def with_note_def flag_note_def flag_Set_def strconv_ParseBool_def
      flag_bool_def settings_of_def emit_def)

text \<open>What \<^verbatim>\<open>keygen\<close> prints, the environment of the service takes.\<close>

lemma keygen_usable:
  assumes "length buf = KeySize"
  shows "\<exists>value. cmdKeygen env (Inr buf) [''key''] = (emit False ''RELAIS_SECRET_ENCRYPTION_KEYS'' value, None) \<and>
      ParseKeyring value [] = Inr \<lparr>keys = [(''1'', buf)], activeID = ''1''\<rparr>"
    "\<exists>value. cmdKeygen env (Inr buf) [''pepper''] = (emit False ''RELAIS_SECRET_CREDENTIAL_PEPPER'' value, None) \<and> NewHasher value = Inr \<lparr>pepper = buf\<rparr>"
proof -
  obtain key where key: "GenerateKey (Some buf) = Some key" by (simp add: GenerateKey_def)
  have "keyIDPattern ''1''" by code_simp
  from generated_key_usable [OF assms key this] have
    "NewHasher key = Inr \<lparr>pepper = buf\<rparr>" "ParseKeyring (''1:'' @ key) [] = Inr \<lparr>keys = [(''1'', buf)], activeID = ''1''\<rparr>" by simp_all
  then show "\<exists>value. cmdKeygen env (Inr buf) [''key''] = (emit False ''RELAIS_SECRET_ENCRYPTION_KEYS'' value, None) \<and>
      ParseKeyring value [] = Inr \<lparr>keys = [(''1'', buf)], activeID = ''1''\<rparr>"
    "\<exists>value. cmdKeygen env (Inr buf) [''pepper''] = (emit False ''RELAIS_SECRET_CREDENTIAL_PEPPER'' value, None) \<and> NewHasher value = Inr \<lparr>pepper = buf\<rparr>"
    using key by (auto simp: cmdKeygen_def flag_Parse.simps flag_minuses_def flag_bool_def settings_of_def)
qed

text \<open>Numbers are cut to 32 bits before they are checked: port 4294967883 is taken as port 587.\<close>

lemma port_wraps: "nbp_Port (backend_add_params [(''port'', FlagInt 4294967883)] password) = 587"
  by (simp add: backend_add_params_def flag_int_def settings_of_def) code_simp

section \<open>Witnesses\<close>

definition demo_cli :: cli_env where
  "demo_cli = \<lparr>ce_session = demo_session, ce_flags = \<lparr>fg_ParseInt = (\<lambda>_. None), fg_ParseFloat = (\<lambda>_. None), fg_ParseDuration = (\<lambda>_. None)\<rparr>,
     ce_uuid_Parse = (\<lambda>t. Some (word_of_nat (length t))), ce_uuid = (\<lambda>_. []), ce_date = (\<lambda>_. []), ce_USER = ''ops'', ce_USERNAME = [],
     ce_stdin = StdinEnd, ce_terminal = False, ce_password = Inl []\<rparr>"

definition create_args :: "string list" where
  "create_args = [''-name'', ''shop'', ''-from'', ''*@shop.example.com, ops@example.com'', ''-to'', ''*@example.org'']"

definition eleven_arg :: string where "eleven_arg = replicate 11 (CHR ''x'')"

definition create_settings :: flag_settings where
  "create_settings = [(''name'', FlagText ''shop''), (''from'', FlagText ''*@shop.example.com''), (''from'', FlagText ''ops@example.com''),
     (''to'', FlagText ''*@example.org'')]"

lemma demo_store_opened: "with_store demo_cli k = k demo_store"
  by (simp add: with_store_def demo_cli_def demo_session_opens)

lemma demo_parses_all:
  "(flag_Parse (ce_flags demo_cli) credential_create_flags create_args = Inr (create_settings, [])) \<and>
   (flag_Parse (ce_flags demo_cli) [] [eleven_arg] = Inr ([], [eleven_arg])) \<and>
   (flag_Parse (ce_flags demo_cli) [(''to'', ListFlag)] [''-to'', ''new@example.com''] = Inr ([(''to'', FlagText ''new@example.com'')], [])) \<and>
   (ce_uuid_Parse demo_cli eleven_arg = Some 11) \<and>
   (flag_text create_settings ''name'' [] \<noteq> []) \<and>
   (\<not> flag_bool create_settings ''disabled'') \<and>
   (flag_list [(''to'', FlagText ''new@example.com'')] ''to'' = [''new@example.com''])"
  by code_simp

lemmas demo_parses =
  demo_parses_all [THEN conjunct1]
  demo_parses_all [THEN conjunct2, THEN conjunct1]
  demo_parses_all [THEN conjunct2, THEN conjunct2, THEN conjunct1]
  demo_parses_all [THEN conjunct2, THEN conjunct2, THEN conjunct2, THEN conjunct1]
  demo_parses_all [THEN conjunct2, THEN conjunct2, THEN conjunct2, THEN conjunct2, THEN conjunct1]
  demo_parses_all [THEN conjunct2, THEN conjunct2, THEN conjunct2, THEN conjunct2, THEN conjunct2, THEN conjunct1]
  demo_parses_all [THEN conjunct2, THEN conjunct2, THEN conjunct2, THEN conjunct2, THEN conjunct2, THEN conjunct2]

lemma run_cli_try: "run_state m w = (Inr x, w') \<Longrightarrow> run_state (cli_try said m g (\<lambda>x. cli_done (f x))) w = ((f x, None), w')"
  by (simp add: cli_try_def cli_done_def)

lemma demo_cli_create:
  "isl (fst (run_state (CreateCredential demo_store (credential_create_params demo_cli create_settings)) demo_world)) = False"
  by code_simp

lemma demo_cli_runs:
  "\<exists>ls w'. run_state (run_command demo_cli (''credential'' # ''create'' # create_args)) demo_world = ((ls, None), w')"
  "\<exists>ls w'. run_state (run_command demo_cli [''credential'', ''revoke'', eleven_arg]) cred_world = ((ls, None), w')"
proof -
  obtain cc w' where c: "run_state (CreateCredential demo_store (credential_create_params demo_cli create_settings)) demo_world = (Inr cc, w')"
    using not_isl [OF demo_cli_create] by (metis run_pair)
  show "\<exists>ls w'. run_state (run_command demo_cli (''credential'' # ''create'' # create_args)) demo_world = ((ls, None), w')"
    using run_cli_try [OF c]
    by (simp add: run_command_def cmdCredential_def cmdCredentialCreate_def with_flags_def demo_parses demo_store_opened)
  obtain row v where r: "run_state (RevokeCredential demo_store 11) cred_world = (Inr row, v)"
    using not_isl [OF demo_revoke(1)] by (metis run_pair)
  show "\<exists>ls w'. run_state (run_command demo_cli [''credential'', ''revoke'', eleven_arg]) cred_world = ((ls, None), w')"
    using run_cli_try [OF r]
    by (simp add: run_command_def cmdCredential_def cmdCredentialRevoke_def with_flags_def one_id_def with_id_def demo_parses demo_store_opened)
qed

text \<open>
  Adding a recipient pattern ends with the claim that only the addresses just listed can be reached, although the patterns the credential
  had before are kept.
\<close>

lemma demo_recipient_added:
  "case run_state (AddRecipientPatterns demo_store 11 [''new@example.com'']) cred_world of (r, w') \<Rightarrow>
     r = Inr [''new@example.com''] \<and> map rpat_Pattern (db_recipient_patterns (tables w')) = [''*@*.example.org'', ''new@example.com'']"
  by code_simp

lemma recipient_add_overclaims:
  "\<exists>w'. run_state (run_command demo_cli [''credential'', ''recipient'', ''add'', eleven_arg, ''-to'', ''new@example.com'']) cred_world =
        (([PatternLine ''new@example.com'', only_listed], None), w') \<and>
     map rpat_Pattern (db_recipient_patterns (tables w')) = [''*@*.example.org'', ''new@example.com'']"
proof -
  obtain w' where r: "run_state (AddRecipientPatterns demo_store 11 [''new@example.com'']) cred_world = (Inr [''new@example.com''], w')"
      "map rpat_Pattern (db_recipient_patterns (tables w')) = [''*@*.example.org'', ''new@example.com'']"
    using demo_recipient_added by (auto split: prod.splits)
  from run_cli_try [OF r(1)] r(2) show ?thesis
    by (simp add: run_command_def cmdCredential_def cmdCredentialRecipient_def with_flags_def with_id_def demo_parses demo_store_opened)
qed


lemma printed_secret_authenticates_witness:
  "\<exists>ls w' st ac w''. run_state (run_command demo_cli (''credential'' # ''create'' # create_args)) demo_world = ((ls, None), w') \<and>
     run_state (client_of st ls) w' = (Inr ac, w'') \<and> ac_Credential ac \<in> set (db_credentials (tables w'))"
proof -
  obtain ls w' where r: "run_state (run_command demo_cli (''credential'' # ''create'' # create_args)) demo_world = ((ls, None), w')"
    using demo_cli_runs(1) by blast
  have lib: "externals_lawful (sx_lib (ce_session demo_cli))" "quiet demo_world" "db_inv (cli_lower demo_cli) (tables demo_world)"
    using demo_lib_lawful demo_world_facts empty_db_inv by (simp_all add: demo_cli_def demo_session_def)
  show ?thesis using printed_secret_authenticates [OF lib r] r demo_parses(1,6) by auto
qed

end
