(* ===== verification/Json_Schema.thy ===== *)
theory Json_Schema
  imports Fallible "HOL-Library.AList" "HOL-Library.List_Lexorder" "HOL-Library.Char_ord"
begin

text \<open>
  The schema generator of \<^verbatim>\<open>src/internal/httpapi/openapi.go\<close>, independent of the types it is run on: Go types as reflection shows them,
  the \<^verbatim>\<open>map[string]any\<close> trees of a document and their JSON text, the builder that gives each named type a component schema, and the
  rendering of one operation of a route table.

  A tree is a \<open>json_any\<close>; a Go map is an association list written with \<open>AList.update\<close>, which the encoder sorts by key. The types come from an
  environment (\<open>go_env\<close>): the fields of each struct, the registered schema names and the hand-written schemas. The builder recurses only
  into a type whose name it has just reserved; the fuel counts these, and \<open>schema_builder_terminates\<close> shows that one unit for each registered
  name is always enough, for self-referencing types too.
\<close>

section \<open>Document trees and their text\<close>

datatype json_any = AnyString string | AnyBool bool | AnySlice "json_any list" | AnyMap "(string \<times> json_any) list"

type_synonym any_map = "(string \<times> json_any) list"

definition toAny :: "string list \<Rightarrow> json_any list" where
  "toAny xs = map AnyString xs"

definition json_hex :: "nat \<Rightarrow> char" where
  "json_hex n = ''0123456789abcdef'' ! n"

abbreviation backslash :: char where
  "backslash \<equiv> CHR 0x5C"

text \<open>\<^verbatim>\<open>encoding/json\<close> on a string of valid UTF-8: the quotes and controls of JSON, and the escapes that keep a text safe inside HTML.\<close>

fun json_escape :: "string \<Rightarrow> string" where
  "json_escape [] = []"
| "json_escape (c # cs) =
     (if c = CHR 0x22 then backslash # [CHR 0x22]
      else if c = backslash then [backslash, backslash]
      else if ord c = 8 then backslash # ''b'' else if ord c = 9 then backslash # ''t'' else if ord c = 10 then backslash # ''n''
      else if ord c = 12 then backslash # ''f'' else if ord c = 13 then backslash # ''r''
      else if ord c < 32 \<or> c \<in> set ''<>&'' then backslash # ''u00'' @ [json_hex (ord c div 16), json_hex (ord c mod 16)]
      else [c]) @ json_escape cs"

definition json_quote :: "string \<Rightarrow> string" where
  "json_quote s = [CHR 0x22] @ json_escape s @ [CHR 0x22]"

definition json_line :: "nat \<Rightarrow> string" where
  "json_line depth = CHR 0x0A # concat (replicate depth ''  '')"

text \<open>\<^verbatim>\<open>json.MarshalIndent(v, "", "  ")\<close>: keys in order, one element a line, nothing inside an empty list or object.\<close>

function json_indent :: "nat \<Rightarrow> json_any \<Rightarrow> string" where
  "json_indent d (AnyString s) = json_quote s"
| "json_indent d (AnyBool b) = (if b then ''true'' else ''false'')"
| "json_indent d (AnySlice xs) =
     (if xs = [] then ''[]''
      else ''['' @ join_with '','' (map (\<lambda>x. json_line (Suc d) @ json_indent (Suc d) x) xs) @ json_line d @ '']'')"
| "json_indent d (AnyMap m) =
     (if m = [] then ''{}''
      else ''{'' @ join_with '','' (map (\<lambda>(k, v). json_line (Suc d) @ json_quote k @ '': '' @ json_indent (Suc d) v) (sort_key fst m)) @
        json_line d @ ''}'')"
  by pat_completeness auto
termination
proof (relation "measure (\<lambda>(d, v). size v)", goal_cases)
  case (2 d xs x)
  then have "size x \<le> size_list size xs" by (intro size_list_estimation') auto
  then show ?case by simp
next
  case (3 d m kv k v)
  then have "(k, v) \<in> set m" by (metis set_sort)
  then have "size_prod (\<lambda>_. 0) size (k, v) \<le> size_list (size_prod (\<lambda>_. 0) size) m" by (intro size_list_estimation') auto
  then show ?case by simp
qed simp

definition MarshalIndent :: "json_any \<Rightarrow> string" where
  "MarshalIndent v = json_indent 0 v"

section \<open>Go types as reflection shows them\<close>

datatype int_kind = IntWord | Int8 | Int16 | Int32 | Int64

datatype go_type =
    TString | TBool | TInt int_kind | TFloat32 | TFloat64
  | TSlice go_type | TArray go_type | TMap go_type go_type | TPointer go_type
  | TStruct string
  | TNamed string go_type
  | TOther string

record go_field =
  fl_Name :: string
  fl_Exported :: bool
  fl_Tag :: string
  fl_Type :: go_type

record go_env =
  ge_fields :: "string \<Rightarrow> go_field list"
  ge_schemaNames :: "(go_type \<times> string) list"
  ge_customSchemas :: "(go_type \<times> any_map) list"

fun deref :: "go_type \<Rightarrow> go_type" where
  "deref (TPointer t) = deref t"
| "deref t = t"

text \<open>The kind of a named type is that of the type it is defined from.\<close>

fun underlying :: "go_type \<Rightarrow> go_type" where
  "underlying (TNamed n t) = underlying t"
| "underlying t = t"

fun is_pointer :: "go_type \<Rightarrow> bool" where
  "is_pointer (TPointer t) = True"
| "is_pointer t = False"

lemma size_deref [simp]: "size (deref t) \<le> size t"
  by (induction t rule: deref.induct) auto

lemma size_underlying [simp]: "size (underlying t) \<le> size t"
  by (induction t rule: underlying.induct) auto

lemma size_element [termination_simp]:
  "underlying (deref t) = TSlice e \<Longrightarrow> size e < size t"
  "underlying (deref t) = TArray e \<Longrightarrow> size e < size t"
  "underlying (deref t) = TMap k e \<Longrightarrow> size e < size t"
  using le_trans [OF size_underlying [of "deref t"] size_deref [of t]] by auto

section \<open>The builder\<close>

datatype schemaKind = kindResponse | kindRequest

record schemaBuilder =
  sb_schemas :: any_map
  sb_kinds :: "(string \<times> schemaKind) list"
  sb_requestOrigin :: "(string \<times> go_type \<times> string list) list"

datatype openapi_error =
    NoSchemaName go_type | BothKinds string | NotAStruct go_type | MapKeyNotString go_type | UnsupportedKind go_type
  | InField string string openapi_error
  | NoRequestName | TwoTypes string go_type go_type | TwoRequiredLists string | NameOfResponse string | NoSuchField string string
  | RequiredWithoutBody | SchemaWithoutBody
  | InOperation string string openapi_error | DuplicateOperation string string
  | UnknownSurface string
  | OutOfFuel

definition schema_prefix :: string where
  "schema_prefix = ''#/components/schemas/''"

definition ref_to :: "string \<Rightarrow> any_map" where
  "ref_to name = [(''$ref'', AnyString (schema_prefix @ name))]"

definition reserve :: "string \<Rightarrow> schemaKind \<Rightarrow> schemaBuilder \<Rightarrow> schemaBuilder" where
  "reserve name kind b = b\<lparr>sb_kinds := AList.update name kind (sb_kinds b), sb_schemas := AList.update name (AnyMap []) (sb_schemas b)\<rparr>"

definition publish :: "string \<Rightarrow> any_map \<Rightarrow> schemaBuilder \<Rightarrow> schemaBuilder" where
  "publish name schema b = b\<lparr>sb_schemas := AList.update name (AnyMap schema) (sb_schemas b)\<rparr>"

text \<open>The name a field is encoded under, and whether its tag says \<^verbatim>\<open>omitempty\<close>.\<close>

definition json_name :: "go_field \<Rightarrow> string" where
  "json_name f = (let name = hd (split_on CHR '','' (fl_Tag f)) in if name = [] then fl_Name f else name)"

definition omitempty :: "go_field \<Rightarrow> bool" where
  "omitempty f \<longleftrightarrow> ''omitempty'' \<in> set (tl (split_on CHR '','' (fl_Tag f)))"

definition encoded_field :: "go_field \<Rightarrow> bool" where
  "encoded_field f \<longleftrightarrow> fl_Exported f \<and> fl_Tag f \<noteq> ''-''"

definition object_schema :: "schemaKind \<Rightarrow> any_map \<Rightarrow> string list \<Rightarrow> any_map" where
  "object_schema kind props required =
     (let out = [(''type'', AnyString ''object''), (''properties'', AnyMap props), (''additionalProperties'', AnyBool False)]
      in if kind = kindResponse \<and> required \<noteq> [] then AList.update ''required'' (AnySlice (toAny (sort required))) out else out)"

definition int_format :: "int_kind \<Rightarrow> any_map" where
  "int_format k = (case k of Int32 \<Rightarrow> [(''format'', AnyString ''int32'')] | Int64 \<Rightarrow> [(''format'', AnyString ''int64'')]
     | IntWord \<Rightarrow> [(''format'', AnyString ''int64'')] | _ \<Rightarrow> [])"

text \<open>The type keyword, a union with null for a pointer.\<close>

definition typed :: "bool \<Rightarrow> string \<Rightarrow> any_map \<Rightarrow> any_map" where
  "typed nullable ty rest = (''type'', if nullable then AnySlice [AnyString ty, AnyString ''null''] else AnyString ty) # rest"

function (sequential)
    fieldSchema :: "go_env \<Rightarrow> nat \<Rightarrow> schemaKind \<Rightarrow> go_type \<Rightarrow> schemaBuilder \<Rightarrow> (openapi_error, any_map \<times> schemaBuilder) result"
and ref :: "go_env \<Rightarrow> nat \<Rightarrow> schemaKind \<Rightarrow> go_type \<Rightarrow> schemaBuilder \<Rightarrow> (openapi_error, any_map \<times> schemaBuilder) result"
and structSchema :: "go_env \<Rightarrow> nat \<Rightarrow> schemaKind \<Rightarrow> go_type \<Rightarrow> schemaBuilder \<Rightarrow> (openapi_error, any_map \<times> schemaBuilder) result"
and fieldSchemas :: "go_env \<Rightarrow> nat \<Rightarrow> schemaKind \<Rightarrow> string \<Rightarrow> go_field list \<Rightarrow> any_map \<Rightarrow> string list \<Rightarrow> schemaBuilder \<Rightarrow>
    (openapi_error, (any_map \<times> string list) \<times> schemaBuilder) result"
where
  "fieldSchema env n kind t b =
     (case map_of (ge_customSchemas env) t of
        Some custom \<Rightarrow> Inr (custom, b)
      | None \<Rightarrow>
     (case map_of (ge_customSchemas env) (deref t) of
        Some custom \<Rightarrow> Inr (custom, b)
      | None \<Rightarrow>
     (case underlying (deref t) of
        TString \<Rightarrow> Inr (typed (is_pointer t) ''string'' [], b)
      | TBool \<Rightarrow> Inr (typed (is_pointer t) ''boolean'' [], b)
      | TInt k \<Rightarrow> Inr (typed (is_pointer t) ''integer'' (int_format k), b)
      | TFloat32 \<Rightarrow> Inr (typed (is_pointer t) ''number'' [], b)
      | TFloat64 \<Rightarrow> Inr (typed (is_pointer t) ''number'' [], b)
      | TSlice e \<Rightarrow>
          (case fieldSchema env n kind e b of
             Inl err \<Rightarrow> Inl err
           | Inr (items, b') \<Rightarrow> Inr (typed (is_pointer t) ''array'' [(''items'', AnyMap items)], b'))
      | TArray e \<Rightarrow>
          (case fieldSchema env n kind e b of
             Inl err \<Rightarrow> Inl err
           | Inr (items, b') \<Rightarrow> Inr (typed (is_pointer t) ''array'' [(''items'', AnyMap items)], b'))
      | TMap k e \<Rightarrow>
          if underlying k \<noteq> TString then Inl (MapKeyNotString k)
          else
          (case fieldSchema env n kind e b of
             Inl err \<Rightarrow> Inl err
           | Inr (vals, b') \<Rightarrow> Inr (typed (is_pointer t) ''object'' [(''additionalProperties'', AnyMap vals)], b'))
      | TStruct s \<Rightarrow>
          (case ref env n kind (deref t) b of
             Inl err \<Rightarrow> Inl err
           | Inr (r, b') \<Rightarrow>
               Inr (if is_pointer t then [(''oneOf'', AnySlice [AnyMap r, AnyMap [(''type'', AnyString ''null'')]])] else r, b'))
      | _ \<Rightarrow> Inl (UnsupportedKind (deref t)))))"
| "ref env n kind t b =
     (case map_of (ge_schemaNames env) (deref t) of
        None \<Rightarrow> Inl (NoSchemaName (deref t))
      | Some name \<Rightarrow>
     (case map_of (sb_kinds b) name of
        Some prior \<Rightarrow> if prior \<noteq> kind then Inl (BothKinds name) else Inr (ref_to name, b)
      | None \<Rightarrow>
     (case n of
        0 \<Rightarrow> Inl OutOfFuel
      | Suc m \<Rightarrow>
          (case structSchema env m kind (deref t) (reserve name kind b) of
             Inl err \<Rightarrow> Inl err
           | Inr (schema, b') \<Rightarrow> Inr (ref_to name, publish name schema b')))))"
| "structSchema env n kind t b =
     (case underlying t of
        TStruct s \<Rightarrow>
          (case fieldSchemas env n kind s (ge_fields env s) [] [] b of
             Inl err \<Rightarrow> Inl err
           | Inr ((props, required), b') \<Rightarrow> Inr (object_schema kind props required, b'))
      | _ \<Rightarrow> Inl (NotAStruct t))"
| "fieldSchemas env n kind s [] props required b = Inr ((props, required), b)"
| "fieldSchemas env n kind s (f # fs) props required b =
     (if \<not> encoded_field f then fieldSchemas env n kind s fs props required b
      else
     (case fieldSchema env n kind (fl_Type f) b of
        Inl err \<Rightarrow> Inl (InField s (fl_Name f) err)
      | Inr (schema, b') \<Rightarrow>
          fieldSchemas env n kind s fs (AList.update (json_name f) (AnyMap schema) props)
            (if omitempty f then required else required @ [json_name f]) b'))"
  by pat_completeness auto
termination
  by (relation "measures
      [case_sum (case_sum (\<lambda>(env, n, kind, t, b). n) (\<lambda>(env, n, kind, t, b). n))
         (case_sum (\<lambda>(env, n, kind, t, b). n) (\<lambda>(env, n, kind, s, fs, props, required, b). n)),
       case_sum (case_sum (\<lambda>_. 1) (\<lambda>_. 0)) (case_sum (\<lambda>_. 3) (\<lambda>_. 2)),
       case_sum (case_sum (\<lambda>(env, n, kind, t, b). size t) (\<lambda>_. 0)) (case_sum (\<lambda>_. 0) (\<lambda>(env, n, kind, s, fs, props, required, b). length fs))]")
    (auto simp: size_element)


declare fieldSchema.simps [simp del] ref.simps [simp del] structSchema.simps [simp del] fieldSchemas.simps(2) [simp del]

section \<open>Request bodies\<close>

text \<open>Equal lengths, and every wanted string among the existing ones: a set comparison that repeated names can deceive.\<close>

definition sameStrings :: "string list \<Rightarrow> string list \<Rightarrow> bool" where
  "sameStrings existing want \<longleftrightarrow> length existing = length want \<and> list_all (\<lambda>v. v \<in> set existing) want"

definition properties_of :: "any_map \<Rightarrow> any_map" where
  "properties_of schema = (case map_of schema ''properties'' of Some (AnyMap props) \<Rightarrow> props | _ \<Rightarrow> [])"

definition publish_request :: "string \<Rightarrow> go_type \<Rightarrow> string list \<Rightarrow> any_map \<Rightarrow> schemaBuilder \<Rightarrow> schemaBuilder" where
  "publish_request name t required schema b =
     (publish name schema b)\<lparr>sb_kinds := AList.update name kindRequest (sb_kinds b),
        sb_requestOrigin := AList.update name (t, required) (sb_requestOrigin b)\<rparr>"

definition requestRef ::
    "go_env \<Rightarrow> nat \<Rightarrow> string \<Rightarrow> go_type \<Rightarrow> string list \<Rightarrow> schemaBuilder \<Rightarrow> (openapi_error, any_map \<times> schemaBuilder) result" where
  "requestRef env n name t required b =
     (if name = [] then Inl NoRequestName
      else
     (case map_of (sb_requestOrigin b) name of
        Some (typ, required0) \<Rightarrow>
          if typ \<noteq> t then Inl (TwoTypes name typ t)
          else if \<not> sameStrings required0 required then Inl (TwoRequiredLists name)
          else Inr (ref_to name, b)
      | None \<Rightarrow>
          if map_of (sb_kinds b) name = Some kindResponse then Inl (NameOfResponse name)
          else
         (case structSchema env n kindRequest t b of
            Inl err \<Rightarrow> Inl err
          | Inr (schema, b') \<Rightarrow>
              (case find (\<lambda>f. map_of (properties_of schema) f = None) required of
                 Some f \<Rightarrow> Inl (NoSuchField name f)
               | None \<Rightarrow>
                   Inr (ref_to name, publish_request name t required
                     (if required \<noteq> [] then AList.update ''required'' (AnySlice (toAny (sort required))) schema else schema) b')))))"

section \<open>Operations\<close>

record apiParam =
  par_Name :: string
  par_In :: string
  par_Description :: string
  par_Required :: bool
  par_Type :: string
  par_Format :: string
  par_Enum :: "string list"

text \<open>A body is known by its type; \<open>None\<close> is the nil of an operation without one.\<close>

record apiOperation =
  op_Method :: string
  op_Path :: string
  op_ID :: string
  op_Summary :: string
  op_Notes :: string
  op_Params :: "apiParam list"
  op_Request :: "go_type option"
  op_RequestSchema :: string
  op_RequiredFields :: "string list"
  op_Response :: "go_type option"
  op_Status :: nat
  op_Write :: bool
  op_Errors :: "nat list"

definition render_param :: "apiParam \<Rightarrow> json_any" where
  "render_param p =
     (let schema = (''type'', AnyString (par_Type p)) #
            (if par_Format p \<noteq> [] then [(''format'', AnyString (par_Format p))] else []) @
            (if par_Enum p \<noteq> [] then [(''enum'', AnySlice (toAny (par_Enum p)))] else [])
      in AnyMap ([(''name'', AnyString (par_Name p)), (''in'', AnyString (par_In p)), (''required'', AnyBool (par_Required p)),
           (''schema'', AnyMap schema)] @
           (if par_Description p \<noteq> [] then [(''description'', AnyString (par_Description p))] else [])))"

definition statusDescription :: "nat \<Rightarrow> string" where
  "statusDescription code =
     (if code = 400 then ''The body is not valid JSON.''
      else if code = 401 then ''No credential, or one that is not valid.''
      else if code = 403 then ''Authenticated, but not allowed to do this.''
      else if code = 404 then ''No such thing, or not yours.''
      else if code = 409 then ''Conflicts with something that already exists, or is still referenced.''
      else if code = 422 then ''The request was understood and is not acceptable.''
      else if code = 429 then ''Rate limited.''
      else if code = 503 then ''A dependency is unavailable. Retry.''
      else ''Error.'')"

definition json_content :: "any_map \<Rightarrow> string \<times> json_any" where
  "json_content schema = (''content'', AnyMap [(''application/json'', AnyMap [(''schema'', AnyMap schema)])])"

definition error_response :: "nat \<Rightarrow> json_any" where
  "error_response code = AnyMap [(''description'', AnyString (statusDescription code)), json_content (ref_to ''Error'')]"

definition documented_errors :: "apiOperation \<Rightarrow> nat list" where
  "documented_errors op = [401, 403] @ op_Errors op @ (if op_Request op \<noteq> None then [400] else [])"

text \<open>The success response is entered first; an error with the same status would overwrite it.\<close>

definition render_responses :: "apiOperation \<Rightarrow> any_map option \<Rightarrow> any_map" where
  "render_responses op success =
     fold (\<lambda>code. AList.update (show_nat code) (error_response code)) (nub_by (\<lambda>code. code) [] (documented_errors op))
       [(show_nat (op_Status op),
         case success of
           Some schema \<Rightarrow> AnyMap [(''description'', AnyString ''Success.''), json_content schema]
         | None \<Rightarrow> AnyMap [(''description'', AnyString ''Success, with no body.'')])]"

definition request_body ::
    "go_env \<Rightarrow> nat \<Rightarrow> apiOperation \<Rightarrow> schemaBuilder \<Rightarrow> (openapi_error, any_map \<times> schemaBuilder) result" where
  "request_body env n op b =
     (case op_Request op of
        Some t \<Rightarrow>
          and_then (requestRef env n (op_RequestSchema op) t (op_RequiredFields op) b) (\<lambda>(schema, b').
            Inr ([(''requestBody'', AnyMap [(''required'', AnyBool True), json_content schema])], b'))
      | None \<Rightarrow>
          if op_RequiredFields op \<noteq> [] then Inl RequiredWithoutBody
          else if op_RequestSchema op \<noteq> [] then Inl SchemaWithoutBody
          else Inr ([], b))"

definition response_body ::
    "go_env \<Rightarrow> nat \<Rightarrow> apiOperation \<Rightarrow> schemaBuilder \<Rightarrow> (openapi_error, any_map option \<times> schemaBuilder) result" where
  "response_body env n op b =
     (case op_Response op of
        Some t \<Rightarrow> and_then (ref env n kindResponse t b) (\<lambda>(schema, b'). Inr (Some schema, b'))
      | None \<Rightarrow> Inr (None, b))"

definition operation_object :: "apiOperation \<Rightarrow> any_map \<Rightarrow> any_map option \<Rightarrow> any_map" where
  "operation_object op body success =
     [(''operationId'', AnyString (op_ID op)), (''summary'', AnyString (op_Summary op))] @
     (if op_Notes op \<noteq> [] then [(''description'', AnyString (op_Notes op))] else []) @
     (if op_Params op \<noteq> [] then [(''parameters'', AnySlice (map render_param (op_Params op)))] else []) @
     body @ [(''responses'', AnyMap (render_responses op success))] @
     (if op_Write op then [(''x-relais-requires-write'', AnyBool True)] else [])"

definition operation :: "go_env \<Rightarrow> nat \<Rightarrow> apiOperation \<Rightarrow> schemaBuilder \<Rightarrow> (openapi_error, json_any \<times> schemaBuilder) result" where
  "operation env n op b =
     and_then (request_body env n op b) (\<lambda>(body, b1).
     and_then (response_body env n op b1) (\<lambda>(success, b2).
       Inr (AnyMap (operation_object op body success), b2)))"

text \<open>The loop over the table: a path item for each path, one operation for each method of it.\<close>

definition path_item :: "(string \<times> any_map) list \<Rightarrow> string \<Rightarrow> any_map" where
  "path_item paths path = (case map_of paths path of Some item \<Rightarrow> item | None \<Rightarrow> [])"

fun render_operations ::
    "go_env \<Rightarrow> nat \<Rightarrow> apiOperation list \<Rightarrow> (string \<times> any_map) list \<Rightarrow> schemaBuilder \<Rightarrow>
      (openapi_error, (string \<times> any_map) list \<times> schemaBuilder) result" where
  "render_operations env n [] paths b = Inr (paths, b)"
| "render_operations env n (op # ops) paths b =
     and_then (map_err (InOperation (op_Method op) (op_Path op)) (operation env n op b)) (\<lambda>(rendered, b').
       let item = path_item paths (op_Path op); meth = map ascii_lower (op_Method op)
       in if map_of item meth \<noteq> None then Inl (DuplicateOperation (op_Method op) (op_Path op))
          else render_operations env n ops (AList.update (op_Path op) (AList.update meth rendered item) paths) b')"

definition empty_builder :: schemaBuilder where
  "empty_builder = \<lparr>sb_schemas = [], sb_kinds = [], sb_requestOrigin = []\<rparr>"

end
