(* ===== verification/Open_Api.thy ===== *)
theory Open_Api
  imports Json_Schema
begin

text \<open>
  The two OpenAPI documents of \<^verbatim>\<open>src/internal/httpapi/openapi.go\<close>: the request and response structs as reflection shows them (from
  \<^verbatim>\<open>admin_types.go\<close>, \<^verbatim>\<open>admin_handlers.go\<close>, \<^verbatim>\<open>emails.go\<close> and \<^verbatim>\<open>errors.go\<close>; none has an unexported or an embedded field), the schema
  names, the two route tables and the document around the rendered operations.
\<close>

section \<open>The structs\<close>

definition go_tagged :: "string \<Rightarrow> string \<Rightarrow> go_type \<Rightarrow> go_field" where
  "go_tagged name tag t = \<lparr>fl_Name = name, fl_Exported = True, fl_Tag = tag, fl_Type = t\<rparr>"

definition TaddressList :: go_type where
  "TaddressList = TNamed ''addressList'' (TSlice TString)"

definition backendResponse_fields :: "go_field list" where
  "backendResponse_fields =
     [go_tagged ''ID'' ''id'' TString,
      go_tagged ''Name'' ''name'' TString,
      go_tagged ''Host'' ''host'' TString,
      go_tagged ''Port'' ''port'' (TInt Int32),
      go_tagged ''TLSMode'' ''tls_mode'' TString,
      go_tagged ''AuthUser'' ''auth_user'' TString,
      go_tagged ''HasPassword'' ''has_password'' TBool,
      go_tagged ''HeloName'' ''helo_name'' TString,
      go_tagged ''MaxConcurrency'' ''max_concurrency'' (TInt Int32),
      go_tagged ''Enabled'' ''enabled'' TBool,
      go_tagged ''CreatedAt'' ''created_at'' TString,
      go_tagged ''UpdatedAt'' ''updated_at'' TString]"

definition domainResponse_fields :: "go_field list" where
  "domainResponse_fields =
     [go_tagged ''ID'' ''id'' TString,
      go_tagged ''Name'' ''name'' TString,
      go_tagged ''BackendID'' ''backend_id'' TString,
      go_tagged ''BackendName'' ''backend_name,omitempty'' TString,
      go_tagged ''BackendEnabled'' ''backend_enabled,omitempty'' (TPointer TBool),
      go_tagged ''IncludeSubdomains'' ''include_subdomains'' TBool,
      go_tagged ''Enabled'' ''enabled'' TBool,
      go_tagged ''CreatedAt'' ''created_at'' TString,
      go_tagged ''UpdatedAt'' ''updated_at'' TString]"

definition credentialResponse_fields :: "go_field list" where
  "credentialResponse_fields =
     [go_tagged ''ID'' ''id'' TString,
      go_tagged ''Name'' ''name'' TString,
      go_tagged ''Type'' ''type'' TString,
      go_tagged ''Lookup'' ''lookup'' TString,
      go_tagged ''State'' ''state'' TString,
      go_tagged ''Enabled'' ''enabled'' TBool,
      go_tagged ''RateLimitRPS'' ''rate_limit_rps'' (TPointer TFloat64),
      go_tagged ''RateLimitBurst'' ''rate_limit_burst'' (TPointer (TInt Int32)),
      go_tagged ''PatternCount'' ''pattern_count'' (TInt Int64),
      go_tagged ''RecipientPatternCount'' ''recipient_pattern_count'' (TInt Int64),
      go_tagged ''CreatedBy'' ''created_by'' TString,
      go_tagged ''CreatedAt'' ''created_at'' TString,
      go_tagged ''LastUsedAt'' ''last_used_at'' (TPointer TString),
      go_tagged ''RevokedAt'' ''revoked_at'' (TPointer TString)]"

definition createdCredentialResponse_fields :: "go_field list" where
  "createdCredentialResponse_fields =
     [go_tagged ''Credential'' ''credential'' (TStruct ''credentialResponse''),
      go_tagged ''Secret'' ''secret'' TString,
      go_tagged ''Username'' ''username,omitempty'' TString,
      go_tagged ''Patterns'' ''patterns'' (TSlice TString),
      go_tagged ''RecipientPatterns'' ''recipient_patterns'' (TSlice TString),
      go_tagged ''Warning'' ''warning'' TString]"

definition patternResponse_fields :: "go_field list" where
  "patternResponse_fields =
     [go_tagged ''ID'' ''id'' TString,
      go_tagged ''Pattern'' ''pattern'' TString,
      go_tagged ''Explanation'' ''explanation'' TString,
      go_tagged ''CreatedAt'' ''created_at'' TString]"

definition messageResponseAdmin_fields :: "go_field list" where
  "messageResponseAdmin_fields =
     [go_tagged ''ID'' ''id'' TString,
      go_tagged ''Status'' ''status'' TString,
      go_tagged ''Facade'' ''facade'' TString,
      go_tagged ''CredentialID'' ''credential_id,omitempty'' TString,
      go_tagged ''CredentialName'' ''credential_name,omitempty'' TString,
      go_tagged ''BackendName'' ''backend_name,omitempty'' TString,
      go_tagged ''From'' ''from'' TString,
      go_tagged ''To'' ''to'' (TSlice TString),
      go_tagged ''Cc'' ''cc,omitempty'' (TSlice TString),
      go_tagged ''Bcc'' ''bcc,omitempty'' (TSlice TString),
      go_tagged ''Subject'' ''subject'' TString,
      go_tagged ''Recipients'' ''recipients'' (TSlice TString),
      go_tagged ''MessageID'' ''message_id'' TString,
      go_tagged ''SizeBytes'' ''size_bytes'' (TInt Int32),
      go_tagged ''Attempts'' ''attempts'' (TInt Int32),
      go_tagged ''RemoteIP'' ''remote_ip,omitempty'' TString,
      go_tagged ''CreatedAt'' ''created_at'' TString,
      go_tagged ''SentAt'' ''sent_at'' (TPointer TString),
      go_tagged ''Error'' ''error,omitempty'' (TPointer (TStruct ''messageError'')),
      go_tagged ''RejectionReason'' ''rejection_reason,omitempty'' (TPointer TString)]"

definition listResponse_fields :: "go_type \<Rightarrow> go_field list" where
  "listResponse_fields t =
     [go_tagged ''Data'' ''data'' (TSlice t),
      go_tagged ''NextCursor'' ''next_cursor,omitempty'' TString]"

definition statsResponse_fields :: "go_field list" where
  "statsResponse_fields =
     [go_tagged ''Messages'' ''messages'' (TMap TString (TInt Int64)),
      go_tagged ''Backends'' ''backends'' (TInt IntWord),
      go_tagged ''Domains'' ''domains'' (TInt IntWord),
      go_tagged ''Credentials'' ''credentials'' (TMap TString (TInt IntWord))]"

definition identityResponse_fields :: "go_field list" where
  "identityResponse_fields =
     [go_tagged ''Subject'' ''subject'' TString,
      go_tagged ''Email'' ''email,omitempty'' TString,
      go_tagged ''Name'' ''name,omitempty'' TString,
      go_tagged ''Role'' ''role'' TString,
      go_tagged ''CanWrite'' ''can_write'' TBool,
      go_tagged ''Groups'' ''groups'' (TSlice TString)]"

definition probeResponse_fields :: "go_field list" where
  "probeResponse_fields =
     [go_tagged ''OK'' ''ok'' TBool,
      go_tagged ''UsedTLS'' ''used_tls'' TBool,
      go_tagged ''Authenticated'' ''authenticated'' TBool,
      go_tagged ''Extensions'' ''extensions,omitempty'' (TSlice TString),
      go_tagged ''Error'' ''error,omitempty'' (TPointer (TStruct ''messageError''))]"

definition patternValidationResponse_fields :: "go_field list" where
  "patternValidationResponse_fields =
     [go_tagged ''Valid'' ''valid'' TBool,
      go_tagged ''Normalized'' ''normalized,omitempty'' TString,
      go_tagged ''Explanation'' ''explanation,omitempty'' TString,
      go_tagged ''Error'' ''error,omitempty'' TString]"

definition patternTestResponse_fields :: "go_field list" where
  "patternTestResponse_fields =
     [go_tagged ''Address'' ''address'' TString,
      go_tagged ''Allowed'' ''allowed'' TBool,
      go_tagged ''MatchedPattern'' ''matched_pattern,omitempty'' TString,
      go_tagged ''Patterns'' ''patterns'' (TSlice TString),
      go_tagged ''RoutableDomain'' ''routable_domain'' TBool,
      go_tagged ''BackendName'' ''backend_name,omitempty'' TString]"

definition recipientTestResponse_fields :: "go_field list" where
  "recipientTestResponse_fields =
     [go_tagged ''Address'' ''address'' TString,
      go_tagged ''Allowed'' ''allowed'' TBool,
      go_tagged ''Restricted'' ''restricted'' TBool,
      go_tagged ''MatchedPattern'' ''matched_pattern,omitempty'' TString,
      go_tagged ''Patterns'' ''patterns'' (TSlice TString)]"

definition resolveResponse_fields :: "go_field list" where
  "resolveResponse_fields =
     [go_tagged ''Sender'' ''sender'' TString,
      go_tagged ''Resolved'' ''resolved'' TBool,
      go_tagged ''DomainName'' ''domain_name,omitempty'' TString,
      go_tagged ''BackendID'' ''backend_id,omitempty'' TString,
      go_tagged ''Backend'' ''backend_name,omitempty'' TString,
      go_tagged ''Address'' ''backend_address,omitempty'' TString,
      go_tagged ''TLSMode'' ''tls_mode,omitempty'' TString,
      go_tagged ''UsesAuth'' ''uses_auth'' TBool,
      go_tagged ''Reason'' ''reason,omitempty'' TString]"

definition backendRequest_fields :: "go_field list" where
  "backendRequest_fields =
     [go_tagged ''Name'' ''name'' TString,
      go_tagged ''Host'' ''host'' TString,
      go_tagged ''Port'' ''port'' (TInt Int32),
      go_tagged ''TLSMode'' ''tls_mode'' TString,
      go_tagged ''AuthUser'' ''auth_user'' TString,
      go_tagged ''Password'' ''password'' (TPointer TString),
      go_tagged ''HeloName'' ''helo_name'' TString,
      go_tagged ''MaxConcurrency'' ''max_concurrency'' (TInt Int32),
      go_tagged ''Enabled'' ''enabled'' (TPointer TBool)]"

definition domainRequest_fields :: "go_field list" where
  "domainRequest_fields =
     [go_tagged ''Name'' ''name'' TString,
      go_tagged ''BackendID'' ''backend_id'' TString,
      go_tagged ''IncludeSubdomains'' ''include_subdomains'' (TPointer TBool),
      go_tagged ''Enabled'' ''enabled'' (TPointer TBool)]"

definition createCredentialRequest_fields :: "go_field list" where
  "createCredentialRequest_fields =
     [go_tagged ''Name'' ''name'' TString,
      go_tagged ''Type'' ''type'' TString,
      go_tagged ''Username'' ''username'' TString,
      go_tagged ''Patterns'' ''patterns'' (TSlice TString),
      go_tagged ''RecipientPatterns'' ''recipient_patterns'' (TSlice TString),
      go_tagged ''RateLimitRPS'' ''rate_limit_rps'' (TPointer TFloat64),
      go_tagged ''RateLimitBurst'' ''rate_limit_burst'' (TPointer (TInt Int32)),
      go_tagged ''Enabled'' ''enabled'' (TPointer TBool)]"

definition updateCredentialRequest_fields :: "go_field list" where
  "updateCredentialRequest_fields =
     [go_tagged ''Name'' ''name'' TString,
      go_tagged ''Enabled'' ''enabled'' (TPointer TBool),
      go_tagged ''RateLimitRPS'' ''rate_limit_rps'' (TPointer TFloat64),
      go_tagged ''RateLimitBurst'' ''rate_limit_burst'' (TPointer (TInt Int32))]"

definition addPatternsRequest_fields :: "go_field list" where
  "addPatternsRequest_fields =
     [go_tagged ''Patterns'' ''patterns'' (TSlice TString)]"

definition validatePatternRequest_fields :: "go_field list" where
  "validatePatternRequest_fields =
     [go_tagged ''Pattern'' ''pattern'' TString]"

definition testPatternRequest_fields :: "go_field list" where
  "testPatternRequest_fields =
     [go_tagged ''Address'' ''address'' TString]"

definition testRecipientRequest_fields :: "go_field list" where
  "testRecipientRequest_fields =
     [go_tagged ''Address'' ''address'' TString]"

definition sendRequest_fields :: "go_field list" where
  "sendRequest_fields =
     [go_tagged ''From'' ''from'' TString,
      go_tagged ''To'' ''to'' TaddressList,
      go_tagged ''Cc'' ''cc'' TaddressList,
      go_tagged ''Bcc'' ''bcc'' TaddressList,
      go_tagged ''ReplyTo'' ''reply_to'' TaddressList,
      go_tagged ''Subject'' ''subject'' TString,
      go_tagged ''Text'' ''text'' TString,
      go_tagged ''HTML'' ''html'' TString,
      go_tagged ''Headers'' ''headers'' (TMap TString TString),
      go_tagged ''Attachments'' ''attachments'' (TSlice (TStruct ''requestAttachment''))]"

definition requestAttachment_fields :: "go_field list" where
  "requestAttachment_fields =
     [go_tagged ''Filename'' ''filename'' TString,
      go_tagged ''Content'' ''content'' TString,
      go_tagged ''ContentType'' ''content_type'' TString,
      go_tagged ''ContentID'' ''content_id'' TString]"

definition sendResponse_fields :: "go_field list" where
  "sendResponse_fields =
     [go_tagged ''ID'' ''id'' TString,
      go_tagged ''Status'' ''status'' TString,
      go_tagged ''MessageID'' ''message_id'' TString,
      go_tagged ''Recipients'' ''recipients'' (TSlice TString),
      go_tagged ''Idempotent'' ''idempotent_replay,omitempty'' TBool]"

definition messageResponse_fields :: "go_field list" where
  "messageResponse_fields =
     [go_tagged ''ID'' ''id'' TString,
      go_tagged ''Status'' ''status'' TString,
      go_tagged ''From'' ''from'' TString,
      go_tagged ''To'' ''to'' (TSlice TString),
      go_tagged ''Cc'' ''cc,omitempty'' (TSlice TString),
      go_tagged ''Bcc'' ''bcc,omitempty'' (TSlice TString),
      go_tagged ''Subject'' ''subject'' TString,
      go_tagged ''MessageID'' ''message_id'' TString,
      go_tagged ''Recipients'' ''recipients'' (TSlice TString),
      go_tagged ''SizeBytes'' ''size_bytes'' (TInt Int32),
      go_tagged ''Attempts'' ''attempts'' (TInt Int32),
      go_tagged ''CreatedAt'' ''created_at'' TString,
      go_tagged ''SentAt'' ''sent_at'' (TPointer TString),
      go_tagged ''Error'' ''error,omitempty'' (TPointer (TStruct ''messageError'')),
      go_tagged ''RejectionReason'' ''rejection_reason,omitempty'' (TPointer TString)]"

definition messageError_fields :: "go_field list" where
  "messageError_fields =
     [go_tagged ''Code'' ''code'' TString,
      go_tagged ''Detail'' ''detail'' TString]"

definition errorEnvelope_fields :: "go_field list" where
  "errorEnvelope_fields =
     [go_tagged ''Error'' ''error'' (TStruct ''errorBody'')]"

definition errorBody_fields :: "go_field list" where
  "errorBody_fields =
     [go_tagged ''Code'' ''code'' TString,
      go_tagged ''Message'' ''message'' TString,
      go_tagged ''Field'' ''field,omitempty'' TString,
      go_tagged ''MessageID'' ''message_id,omitempty'' TString]"

definition relais_structs :: "(string \<times> go_field list) list" where
  "relais_structs =
     [(''backendResponse'', backendResponse_fields),
      (''domainResponse'', domainResponse_fields),
      (''credentialResponse'', credentialResponse_fields),
      (''createdCredentialResponse'', createdCredentialResponse_fields),
      (''patternResponse'', patternResponse_fields),
      (''messageResponseAdmin'', messageResponseAdmin_fields),
      (''statsResponse'', statsResponse_fields),
      (''identityResponse'', identityResponse_fields),
      (''probeResponse'', probeResponse_fields),
      (''patternValidationResponse'', patternValidationResponse_fields),
      (''patternTestResponse'', patternTestResponse_fields),
      (''recipientTestResponse'', recipientTestResponse_fields),
      (''resolveResponse'', resolveResponse_fields),
      (''backendRequest'', backendRequest_fields),
      (''domainRequest'', domainRequest_fields),
      (''createCredentialRequest'', createCredentialRequest_fields),
      (''updateCredentialRequest'', updateCredentialRequest_fields),
      (''addPatternsRequest'', addPatternsRequest_fields),
      (''validatePatternRequest'', validatePatternRequest_fields),
      (''testPatternRequest'', testPatternRequest_fields),
      (''testRecipientRequest'', testRecipientRequest_fields),
      (''sendRequest'', sendRequest_fields),
      (''requestAttachment'', requestAttachment_fields),
      (''sendResponse'', sendResponse_fields),
      (''messageResponse'', messageResponse_fields),
      (''messageError'', messageError_fields),
      (''errorEnvelope'', errorEnvelope_fields),
      (''errorBody'', errorBody_fields),
      (''listResponse[backendResponse]'', listResponse_fields (TStruct ''backendResponse'')),
      (''listResponse[domainResponse]'', listResponse_fields (TStruct ''domainResponse'')),
      (''listResponse[credentialResponse]'', listResponse_fields (TStruct ''credentialResponse'')),
      (''listResponse[patternResponse]'', listResponse_fields (TStruct ''patternResponse'')),
      (''listResponse[messageResponseAdmin]'', listResponse_fields (TStruct ''messageResponseAdmin''))]"

section \<open>The registry\<close>

definition schemaNames :: "(go_type \<times> string) list" where
  "schemaNames =
     [(TStruct ''backendResponse'', ''Backend''),
      (TStruct ''domainResponse'', ''Domain''),
      (TStruct ''credentialResponse'', ''Credential''),
      (TStruct ''createdCredentialResponse'', ''CreatedCredential''),
      (TStruct ''patternResponse'', ''Pattern''),
      (TStruct ''messageResponseAdmin'', ''Message''),
      (TStruct ''messageResponse'', ''SentMessage''),
      (TStruct ''messageError'', ''MessageError''),
      (TStruct ''statsResponse'', ''Stats''),
      (TStruct ''identityResponse'', ''Identity''),
      (TStruct ''probeResponse'', ''ProbeResult''),
      (TStruct ''patternValidationResponse'', ''PatternValidation''),
      (TStruct ''patternTestResponse'', ''PatternTest''),
      (TStruct ''recipientTestResponse'', ''RecipientTest''),
      (TStruct ''resolveResponse'', ''ResolveResult''),
      (TStruct ''errorEnvelope'', ''Error''),
      (TStruct ''errorBody'', ''ErrorDetail''),
      (TStruct ''sendResponse'', ''SendResult''),
      (TStruct ''requestAttachment'', ''Attachment''),
      (TStruct ''listResponse[backendResponse]'', ''BackendList''),
      (TStruct ''listResponse[domainResponse]'', ''DomainList''),
      (TStruct ''listResponse[credentialResponse]'', ''CredentialList''),
      (TStruct ''listResponse[patternResponse]'', ''PatternList''),
      (TStruct ''listResponse[messageResponseAdmin]'', ''MessageList'')]"

definition customSchemas :: "(go_type \<times> any_map) list" where
  "customSchemas =
     [(TaddressList,
       [(''description'', AnyString ''One address, or a list of them.''),
        (''oneOf'', AnySlice
           [AnyMap [(''type'', AnyString ''string'')],
            AnyMap [(''type'', AnyString ''array''), (''items'', AnyMap [(''type'', AnyString ''string'')])]])])]"

definition struct_fields :: "string \<Rightarrow> go_field list" where
  "struct_fields s = (case map_of relais_structs s of Some fs \<Rightarrow> fs | None \<Rightarrow> [])"

definition relais_types :: go_env where
  "relais_types = \<lparr>ge_fields = struct_fields, ge_schemaNames = schemaNames, ge_customSchemas = customSchemas\<rparr>"

lemma relais_types_sel [simp]:
  "ge_fields relais_types = struct_fields" "ge_schemaNames relais_types = schemaNames" "ge_customSchemas relais_types = customSchemas"
  by (simp_all add: relais_types_def)

section \<open>The route tables\<close>

definition no_param :: apiParam where
  "no_param = \<lparr>par_Name = [], par_In = [], par_Description = [], par_Required = False, par_Type = [], par_Format = [], par_Enum = []\<rparr>"

definition no_operation :: apiOperation where
  "no_operation = \<lparr>op_Method = [], op_Path = [], op_ID = [], op_Summary = [], op_Notes = [], op_Params = [], op_Request = None,
     op_RequestSchema = [], op_RequiredFields = [], op_Response = None, op_Status = 0, op_Write = False, op_Errors = []\<rparr>"

definition idParam :: apiParam where
  "idParam = no_param\<lparr>par_Name := ''id'', par_In := ''path'', par_Required := True, par_Type := ''string'', par_Format := ''uuid''\<rparr>"

definition pagination :: "apiParam list" where
  "pagination =
     [no_param\<lparr>par_Name := ''limit'', par_In := ''query'', par_Type := ''integer'', par_Description := ''Page size.''\<rparr>,
      no_param\<lparr>par_Name := ''cursor'', par_In := ''query'', par_Type := ''string'',
        par_Description := ''Opaque cursor from a previous response's next_cursor. '' @
          ''Opaque so a client cannot build one by hand and then depend on its shape.''\<rparr>]"

definition overview_operations :: "apiOperation list" where
  "overview_operations = [
    no_operation\<lparr>op_Method := ''GET'', op_Path := ''/admin/v1/identity'', op_ID := ''getIdentity'',
      op_Summary := ''Who the caller is acting as'',
      op_Notes := ''The frontend renders write controls from this rather than by decoding the token, which is what the BFF design exists to avoid.'',
      op_Response := Some (TStruct ''identityResponse''), op_Status := 200\<rparr>,
    no_operation\<lparr>op_Method := ''GET'', op_Path := ''/admin/v1/stats'', op_ID := ''getStats'', op_Summary := ''Dashboard counters'',
      op_Response := Some (TStruct ''statsResponse''), op_Status := 200\<rparr>]"

definition backend_operations :: "apiOperation list" where
  "backend_operations = [
    no_operation\<lparr>op_Method := ''GET'', op_Path := ''/admin/v1/backends'', op_ID := ''listBackends'',
      op_Summary := ''List the SMTP relays mail is handed to'', op_Response := Some (TStruct ''listResponse[backendResponse]''), op_Status := 200\<rparr>,
    no_operation\<lparr>op_Method := ''POST'', op_Path := ''/admin/v1/backends'', op_ID := ''createBackend'', op_Summary := ''Register a relay'',
      op_Request := Some (TStruct ''backendRequest''), op_RequestSchema := ''BackendInput'',
      op_RequiredFields := [''name'', ''host'', ''port'', ''tls_mode''], op_Response := Some (TStruct ''backendResponse''), op_Status := 201,
      op_Write := True, op_Errors := [409, 422]\<rparr>,
    no_operation\<lparr>op_Method := ''PATCH'', op_Path := ''/admin/v1/backends/{id}'', op_ID := ''updateBackend'', op_Summary := ''Update a relay'',
      op_Notes := ''Absent fields are left as they are. Sending `password` replaces the sealed value; there is no way to read the current one back.'',
      op_Params := [idParam], op_Request := Some (TStruct ''backendRequest''), op_RequestSchema := ''BackendPatch'',
      op_Response := Some (TStruct ''backendResponse''), op_Status := 200, op_Write := True, op_Errors := [404, 409, 422]\<rparr>,
    no_operation\<lparr>op_Method := ''DELETE'', op_Path := ''/admin/v1/backends/{id}'', op_ID := ''deleteBackend'', op_Summary := ''Remove a relay'',
      op_Notes := ''Refused with 409 while a domain still points at it.'', op_Params := [idParam], op_Status := 204, op_Write := True,
      op_Errors := [404, 409]\<rparr>,
    no_operation\<lparr>op_Method := ''POST'', op_Path := ''/admin/v1/backends/{id}:test'', op_ID := ''probeBackend'',
      op_Summary := ''Open a connection to the relay and authenticate'',
      op_Notes := ''Counts as a write: it acts outside relais using stored credentials. Returns 200 with ok=false when the relay refuses, since the probe itself succeeded in finding that out.'',
      op_Params := [idParam], op_Response := Some (TStruct ''probeResponse''), op_Status := 200, op_Write := True, op_Errors := [404]\<rparr>]"

definition domain_operations :: "apiOperation list" where
  "domain_operations = [
    no_operation\<lparr>op_Method := ''GET'', op_Path := ''/admin/v1/domains'', op_ID := ''listDomains'',
      op_Summary := ''List the sending domains and where each routes'',
      op_Notes := ''Carries backend_enabled: a domain pointing at a disabled relay delivers nothing, and the UI must be able to say so.'',
      op_Response := Some (TStruct ''listResponse[domainResponse]''), op_Status := 200\<rparr>,
    no_operation\<lparr>op_Method := ''POST'', op_Path := ''/admin/v1/domains'', op_ID := ''createDomain'', op_Summary := ''Add a sending domain'',
      op_Request := Some (TStruct ''domainRequest''), op_RequestSchema := ''DomainInput'', op_RequiredFields := [''name'', ''backend_id''],
      op_Response := Some (TStruct ''domainResponse''), op_Status := 201, op_Write := True, op_Errors := [409, 422]\<rparr>,
    no_operation\<lparr>op_Method := ''PATCH'', op_Path := ''/admin/v1/domains/{id}'', op_ID := ''updateDomain'',
      op_Summary := ''Update a sending domain'', op_Params := [idParam], op_Request := Some (TStruct ''domainRequest''),
      op_RequestSchema := ''DomainPatch'', op_Response := Some (TStruct ''domainResponse''), op_Status := 200, op_Write := True,
      op_Errors := [404, 409, 422]\<rparr>,
    no_operation\<lparr>op_Method := ''DELETE'', op_Path := ''/admin/v1/domains/{id}'', op_ID := ''deleteDomain'',
      op_Summary := ''Remove a sending domain'', op_Params := [idParam], op_Status := 204, op_Write := True, op_Errors := [404, 409]\<rparr>,
    no_operation\<lparr>op_Method := ''GET'', op_Path := ''/admin/v1/domains:resolve'', op_ID := ''resolveDomain'',
      op_Summary := ''Which relay would carry this sender's mail'',
      op_Notes := ''A dry run. It answers the question a failing configuration actually poses, which is nearly always a missing include_subdomains.'',
      op_Params := [no_param\<lparr>par_Name := ''sender'', par_In := ''query'', par_Description := ''An email address.'', par_Type := ''string'', par_Required := True\<rparr>],
      op_Response := Some (TStruct ''resolveResponse''), op_Status := 200, op_Errors := [422]\<rparr>]"

definition credential_operations :: "apiOperation list" where
  "credential_operations = [
    no_operation\<lparr>op_Method := ''GET'', op_Path := ''/admin/v1/credentials'', op_ID := ''listCredentials'',
      op_Summary := ''List the sending credentials'',
      op_Notes := ''pattern_count is zero for a credential that can send as nobody. That is a misconfiguration, not a default, and deserves a badge.'',
      op_Response := Some (TStruct ''listResponse[credentialResponse]''), op_Status := 200\<rparr>,
    no_operation\<lparr>op_Method := ''POST'', op_Path := ''/admin/v1/credentials'', op_ID := ''createCredential'',
      op_Summary := ''Create a credential'',
      op_Notes := ''The only response that ever carries the secret in the clear. relais stores a peppered HMAC and cannot show it again, so a client that loses this response has to issue a new credential.'',
      op_Request := Some (TStruct ''createCredentialRequest''), op_RequestSchema := ''CreateCredentialInput'',
      op_RequiredFields := [''name'', ''type''], op_Response := Some (TStruct ''createdCredentialResponse''), op_Status := 201, op_Write := True,
      op_Errors := [409, 422]\<rparr>,
    no_operation\<lparr>op_Method := ''GET'', op_Path := ''/admin/v1/credentials/{id}'', op_ID := ''getCredential'',
      op_Summary := ''Fetch one credential'', op_Params := [idParam], op_Response := Some (TStruct ''credentialResponse''), op_Status := 200,
      op_Errors := [404]\<rparr>,
    no_operation\<lparr>op_Method := ''PATCH'', op_Path := ''/admin/v1/credentials/{id}'', op_ID := ''updateCredential'',
      op_Summary := ''Update a credential'', op_Params := [idParam], op_Request := Some (TStruct ''updateCredentialRequest''),
      op_RequestSchema := ''CredentialPatch'', op_Response := Some (TStruct ''credentialResponse''), op_Status := 200, op_Write := True,
      op_Errors := [404, 422]\<rparr>,
    no_operation\<lparr>op_Method := ''POST'', op_Path := ''/admin/v1/credentials/{id}:revoke'', op_ID := ''revokeCredential'',
      op_Summary := ''Revoke a credential'',
      op_Notes := ''Irreversible, and deliberately not a delete: the messages it sent keep pointing at it, which is what makes an audit possible.'',
      op_Params := [idParam], op_Response := Some (TStruct ''credentialResponse''), op_Status := 200, op_Write := True, op_Errors := [404]\<rparr>,
    no_operation\<lparr>op_Method := ''POST'', op_Path := ''/admin/v1/credentials/{id}:rotate'', op_ID := ''rotateCredential'',
      op_Summary := ''Issue a new secret for a credential'',
      op_Notes := ''The old secret stops working immediately. Everything else survives: the id, the name, the limits and the allow-list, so past messages keep their attribution. An smtp_user keeps its username and gets a new password; an api_key gets an entirely new token, because the lookup is part of the token. Answers 422 for a revoked credential: revocation is permanent. Like creation, this is a response that carries the secret once and cannot be replayed.'',
      op_Params := [idParam], op_Response := Some (TStruct ''createdCredentialResponse''), op_Status := 200, op_Write := True, op_Errors := [404, 422]\<rparr>,
    no_operation\<lparr>op_Method := ''DELETE'', op_Path := ''/admin/v1/credentials/{id}'', op_ID := ''deleteCredential'',
      op_Summary := ''Remove a credential'',
      op_Notes := ''Heavier than revoking, not stronger. The messages this credential sent survive but stop naming it, so the audit trail loses who submitted them; revoke is still the answer to a leaked secret.'',
      op_Params := [idParam], op_Status := 204, op_Write := True, op_Errors := [404]\<rparr>]"

definition pattern_operations :: "apiOperation list" where
  "pattern_operations = [
    no_operation\<lparr>op_Method := ''GET'', op_Path := ''/admin/v1/credentials/{id}/patterns'', op_ID := ''listPatterns'',
      op_Summary := ''The addresses this credential may send as'', op_Params := [idParam],
      op_Response := Some (TStruct ''listResponse[patternResponse]''), op_Status := 200, op_Errors := [404]\<rparr>,
    no_operation\<lparr>op_Method := ''POST'', op_Path := ''/admin/v1/credentials/{id}/patterns'', op_ID := ''addPatterns'',
      op_Summary := ''Allow more addresses'', op_Params := [idParam], op_Request := Some (TStruct ''addPatternsRequest''),
      op_RequestSchema := ''AddPatternsInput'', op_RequiredFields := [''patterns''], op_Response := Some (TStruct ''listResponse[patternResponse]''),
      op_Status := 201, op_Write := True, op_Errors := [404, 422]\<rparr>,
    no_operation\<lparr>op_Method := ''DELETE'', op_Path := ''/admin/v1/credentials/{id}/patterns/{patternID}'', op_ID := ''deletePattern'',
      op_Summary := ''Withdraw an allowed address'',
      op_Params := [idParam, no_param\<lparr>par_Name := ''patternID'', par_In := ''path'', par_Type := ''string'', par_Format := ''uuid'', par_Required := True\<rparr>],
      op_Status := 204, op_Write := True, op_Errors := [404]\<rparr>,
    no_operation\<lparr>op_Method := ''GET'', op_Path := ''/admin/v1/credentials/{id}/recipient-patterns'', op_ID := ''listRecipientPatterns'',
      op_Summary := ''The addresses this credential may send to'',
      op_Notes := ''An empty list means no restriction: the credential may send to any address. That is the opposite of the sender allow-list, where an empty list permits nothing.'',
      op_Params := [idParam], op_Response := Some (TStruct ''listResponse[patternResponse]''), op_Status := 200, op_Errors := [404]\<rparr>,
    no_operation\<lparr>op_Method := ''POST'', op_Path := ''/admin/v1/credentials/{id}/recipient-patterns'', op_ID := ''addRecipientPatterns'',
      op_Summary := ''Restrict who this credential may send to'',
      op_Notes := ''Adding the first pattern narrows a credential that could previously mail anyone. Same grammar as the sender allow-list.'',
      op_Params := [idParam], op_Request := Some (TStruct ''addPatternsRequest''), op_RequestSchema := ''AddPatternsInput'',
      op_RequiredFields := [''patterns''], op_Response := Some (TStruct ''listResponse[patternResponse]''), op_Status := 201, op_Write := True,
      op_Errors := [404, 422]\<rparr>,
    no_operation\<lparr>op_Method := ''DELETE'', op_Path := ''/admin/v1/credentials/{id}/recipient-patterns/{patternID}'',
      op_ID := ''deleteRecipientPattern'', op_Summary := ''Lift one recipient restriction'',
      op_Notes := ''Removing the last pattern leaves the credential able to send to any address again.'',
      op_Params := [idParam, no_param\<lparr>par_Name := ''patternID'', par_In := ''path'', par_Type := ''string'', par_Format := ''uuid'', par_Required := True\<rparr>],
      op_Status := 204, op_Write := True, op_Errors := [404]\<rparr>,
    no_operation\<lparr>op_Method := ''POST'', op_Path := ''/admin/v1/credentials/{id}/recipient-patterns:test'', op_ID := ''testRecipient'',
      op_Summary := ''Would this credential be allowed to send to this address'',
      op_Notes := ''Reports restricted=false when the credential carries no recipient patterns at all, because \"allowed\" then means \"allowed to mail anyone\" rather than \"matched a rule you wrote\".'',
      op_Params := [idParam], op_Request := Some (TStruct ''testRecipientRequest''), op_RequestSchema := ''TestRecipientInput'',
      op_RequiredFields := [''address''], op_Response := Some (TStruct ''recipientTestResponse''), op_Status := 200, op_Errors := [404, 422]\<rparr>,
    no_operation\<lparr>op_Method := ''POST'', op_Path := ''/admin/v1/patterns:validate'', op_ID := ''validatePattern'',
      op_Summary := ''Check a pattern and show its canonical form'',
      op_Notes := ''A dry run against the real grammar, which is why the frontend never reimplements it. Returns 200 with valid=false for a bad pattern: the question was answered.'',
      op_Request := Some (TStruct ''validatePatternRequest''), op_RequestSchema := ''ValidatePatternInput'', op_RequiredFields := [''pattern''],
      op_Response := Some (TStruct ''patternValidationResponse''), op_Status := 200\<rparr>,
    no_operation\<lparr>op_Method := ''POST'', op_Path := ''/admin/v1/credentials/{id}/patterns:test'', op_ID := ''testPattern'',
      op_Summary := ''Would this credential be allowed to send as this address'',
      op_Notes := ''Also answers whether any enabled domain routes that sender. A pattern can allow an address nothing routes, and seeing only \"allowed\" would send an operator away believing the setup works.'',
      op_Params := [idParam], op_Request := Some (TStruct ''testPatternRequest''), op_RequestSchema := ''TestPatternInput'',
      op_RequiredFields := [''address''], op_Response := Some (TStruct ''patternTestResponse''), op_Status := 200, op_Errors := [404, 422]\<rparr>]"

definition message_operations :: "apiOperation list" where
  "message_operations = [
    no_operation\<lparr>op_Method := ''GET'', op_Path := ''/admin/v1/messages'', op_ID := ''listMessages'',
      op_Summary := ''The message log, newest first'',
      op_Params := [no_param\<lparr>par_Name := ''status'', par_In := ''query'', par_Type := ''string'', par_Enum := [''queued'', ''sending'', ''sent'', ''failed'', ''rejected'', ''partial'']\<rparr>, no_param\<lparr>par_Name := ''credential_id'', par_In := ''query'', par_Type := ''string'', par_Format := ''uuid''\<rparr>] @ pagination,
      op_Response := Some (TStruct ''listResponse[messageResponseAdmin]''), op_Status := 200, op_Errors := [422]\<rparr>,
    no_operation\<lparr>op_Method := ''GET'', op_Path := ''/admin/v1/messages/{id}'', op_ID := ''getMessage'',
      op_Summary := ''One message, with the relay's own error'',
      op_Notes := ''Never the body. Content is held only until delivery and is returned by no endpoint.'', op_Params := [idParam],
      op_Response := Some (TStruct ''messageResponseAdmin''), op_Status := 200, op_Errors := [404]\<rparr>]"

definition adminOperations :: "apiOperation list" where
  "adminOperations = overview_operations @ backend_operations @ domain_operations @ credential_operations @ pattern_operations @ message_operations"

definition publicOperations :: "apiOperation list" where
  "publicOperations = [
    no_operation\<lparr>op_Method := ''POST'', op_Path := ''/v1/emails'', op_ID := ''sendEmail'', op_Summary := ''Submit a message for relaying'',
      op_Notes := ''Accepted means queued, not delivered. Send an Idempotency-Key header to make a retry safe: the same key returns the first result with idempotent_replay set, rather than sending twice.'',
      op_Request := Some (TStruct ''sendRequest''), op_RequestSchema := ''SendInput'', op_RequiredFields := [''from''],
      op_Response := Some (TStruct ''sendResponse''), op_Status := 202, op_Errors := [403, 422, 429]\<rparr>,
    no_operation\<lparr>op_Method := ''GET'', op_Path := ''/v1/emails/{id}'', op_ID := ''getEmail'',
      op_Summary := ''The status of a message you submitted'', op_Notes := ''Scoped to the calling credential: another credential's message is a 404.'',
      op_Params := [no_param\<lparr>par_Name := ''id'', par_In := ''path'', par_Type := ''string'', par_Format := ''uuid'', par_Required := True\<rparr>],
      op_Response := Some (TStruct ''messageResponse''), op_Status := 200, op_Errors := [404]\<rparr>]"

section \<open>The documents\<close>

definition SurfaceAdmin :: string where "SurfaceAdmin = ''admin''"
definition SurfacePublic :: string where "SurfacePublic = ''public''"
definition OpenAPIVersion :: string where "OpenAPIVersion = ''3.1.0''"
definition APIVersion :: string where "APIVersion = ''v1''"

definition operationsFor :: "string \<Rightarrow> (openapi_error, apiOperation list) result" where
  "operationsFor surface =
     (if surface = SurfaceAdmin then Inr adminOperations
      else if surface = SurfacePublic then Inr publicOperations
      else Inl (UnknownSurface surface))"

abbreviation newline :: string where
  "newline \<equiv> [CHR 0x0A]"

definition surfaceTitle :: "string \<Rightarrow> string" where
  "surfaceTitle surface = (if surface = SurfaceAdmin then ''relais admin API'' else ''relais sending API'')"

definition surfaceDescription :: "string \<Rightarrow> string" where
  "surfaceDescription surface =
     (if surface = SurfaceAdmin
      then ''The operator API: relays, sending domains, credentials and their '' @
        ''sender allow-lists, and the message log.'' @ newline @ newline @
        ''Served on the admin listener (RELAIS_ADMIN_ADDR, default :8081), which is '' @
        ''separate from the sending listener so that exposing one is a network '' @
        ''decision rather than a routing rule nobody must get wrong. It is not '' @
        ''intended to be reachable from a browser.'' @ newline @ newline @
        ''Generated from the Go types that serve the requests. Do not edit by hand.''
      else ''The sending API, equivalent to the SMTP submission fa'' @ [CHR 0xC3, CHR 0xA7] @ ''ade: both converge '' @
        ''on one pipeline, so a message is authorised the same way whichever it '' @
        ''arrived through.'' @ newline @ newline @
        ''Every request must be authenticated; there is no anonymous relaying under '' @
        ''any condition.'' @ newline @ newline @
        ''Generated from the Go types that serve the requests. Do not edit by hand.'')"

definition surfaceServers :: "string \<Rightarrow> json_any" where
  "surfaceServers surface = AnySlice
     [if surface = SurfaceAdmin
      then AnyMap [(''url'', AnyString ''http://localhost:8081''), (''description'', AnyString ''The admin listener.'')]
      else AnyMap [(''url'', AnyString ''http://localhost:8080''), (''description'', AnyString ''The sending listener.'')]]"

definition components :: "string \<Rightarrow> schemaBuilder \<Rightarrow> json_any" where
  "components surface b =
     (let schemes =
        (if surface = SurfaceAdmin
         then [(''oidc'', AnyMap [(''type'', AnyString ''http''), (''scheme'', AnyString ''bearer''), (''bearerFormat'', AnyString ''JWT''),
                (''description'', AnyString (''An access token from the configured OIDC issuer. The group claim '' @
                  ''decides the role; Go is the authority on that, never the caller.''))])]
         else [(''apiKey'', AnyMap [(''type'', AnyString ''http''), (''scheme'', AnyString ''bearer''),
                (''description'', AnyString (''A credential secret, shown once at creation. relais stores only a '' @ ''peppered HMAC of it.''))])])
      in AnyMap [(''schemas'', AnyMap (sb_schemas b)), (''securitySchemes'', AnyMap schemes)])"

definition schema_fuel :: nat where
  "schema_fuel = length schemaNames"

text \<open>The operations of a table, then the error envelope that every operation shares.\<close>

definition build_document :: "apiOperation list \<Rightarrow> (openapi_error, (string \<times> any_map) list \<times> schemaBuilder) result" where
  "build_document ops =
     and_then (render_operations relais_types schema_fuel ops [] empty_builder) (\<lambda>(paths, b).
     and_then (ref relais_types schema_fuel kindResponse (TStruct ''errorEnvelope'') b) (\<lambda>(_, b'). Inr (paths, b')))"

definition openapi_document :: "string \<Rightarrow> string \<Rightarrow> (string \<times> any_map) list \<Rightarrow> schemaBuilder \<Rightarrow> json_any" where
  "openapi_document surface version paths b = AnyMap
     [(''openapi'', AnyString OpenAPIVersion),
      (''info'', AnyMap [(''title'', AnyString (surfaceTitle surface)), (''version'', AnyString version),
         (''description'', AnyString (surfaceDescription surface))]),
      (''servers'', surfaceServers surface),
      (''paths'', AnyMap (map (\<lambda>(path, item). (path, AnyMap item)) paths)),
      (''components'', components surface b),
      (''security'', AnySlice [AnyMap [(if surface = SurfaceAdmin then ''oidc'' else ''apiKey'', AnySlice [])]])]"

definition OpenAPI :: "string \<Rightarrow> string \<Rightarrow> (openapi_error, string) result" where
  "OpenAPI surface version =
     and_then (operationsFor surface) (\<lambda>ops.
     and_then (build_document ops) (\<lambda>(paths, b).
       Inr (MarshalIndent (openapi_document surface version paths b) @ newline)))"

end
