(* ===== verification/Schema_Facts.thy ===== *)
theory Schema_Facts
  imports Json_Schema
begin

text \<open>
  Facts on the schema builder. It terminates for every environment (one unit of fuel for each registered name). What it publishes for a response
  is the schema a recursion on the types alone gives (\<open>field_schema_of\<close>, \<open>struct_schema_of\<close>), and every reference in it is to a published response.
\<close>

lemmas builder_induct = fieldSchema_ref_structSchema_fieldSchemas.induct

lemma reserve_sel [simp]:
  "map_of (sb_kinds (reserve name kind b)) = (map_of (sb_kinds b))(name \<mapsto> kind)"
  "map_of (sb_schemas (reserve name kind b)) = (map_of (sb_schemas b))(name \<mapsto> AnyMap [])"
  "sb_requestOrigin (reserve name kind b) = sb_requestOrigin b"
  by (simp_all add: reserve_def update_conv')

lemma publish_sel [simp]:
  "sb_kinds (publish name schema b) = sb_kinds b"
  "map_of (sb_schemas (publish name schema b)) = (map_of (sb_schemas b))(name \<mapsto> AnyMap schema)"
  "sb_requestOrigin (publish name schema b) = sb_requestOrigin b"
  by (simp_all add: publish_def update_conv')

section \<open>Termination\<close>

fun starved :: "openapi_error \<Rightarrow> bool" where
  "starved OutOfFuel = True"
| "starved (InField s f e) = starved e"
| "starved (InOperation m p e) = starved e"
| "starved e = False"

definition free_names :: "go_env \<Rightarrow> schemaBuilder \<Rightarrow> string set" where
  "free_names env b = snd ` set (ge_schemaNames env) - dom (map_of (sb_kinds b))"

lemma finite_free_names [simp]: "finite (free_names env b)"
  by (simp add: free_names_def)

definition fed :: "go_env \<Rightarrow> schemaBuilder \<Rightarrow> (openapi_error, 'a \<times> schemaBuilder) result \<Rightarrow> bool" where
  "fed env b r \<longleftrightarrow> (case r of Inl e \<Rightarrow> \<not> starved e | Inr (_, b') \<Rightarrow> free_names env b' \<subseteq> free_names env b)"

lemma fed_simps [simp]: "fed env b (Inl e) \<longleftrightarrow> \<not> starved e" "fed env b (Inr (x, b')) \<longleftrightarrow> free_names env b' \<subseteq> free_names env b"
  by (simp_all add: fed_def)

lemma fed_ref_step:
  assumes "map_of (ge_schemaNames env) t = Some name" "map_of (sb_kinds b) name = None" "card (free_names env b) \<le> Suc m"
  shows "card (free_names env (reserve name kind b)) \<le> m" "free_names env (reserve name kind b) \<subseteq> free_names env b"
proof -
  have "free_names env (reserve name kind b) = free_names env b - {name}" by (auto simp: free_names_def)
  moreover have "name \<in> free_names env b" using assms(1,2) by (force simp: free_names_def dest: map_of_SomeD)
  ultimately show "card (free_names env (reserve name kind b)) \<le> m" "free_names env (reserve name kind b) \<subseteq> free_names env b"
    using assms(3) by auto
qed

lemma fed_card: "free_names env b' \<subseteq> free_names env b \<Longrightarrow> card (free_names env b) \<le> n \<Longrightarrow> card (free_names env b') \<le> n"
  using card_mono [OF finite_free_names] le_trans by blast

lemma fed_trans: "free_names env b' \<subseteq> free_names env b \<Longrightarrow> fed env b' r \<Longrightarrow> fed env b r"
  by (auto simp: fed_def split: sum.splits)

lemma builder_fed:
  "card (free_names env b) \<le> n \<Longrightarrow> fed env b (fieldSchema env n kind t b)"
  "card (free_names env b) \<le> n \<Longrightarrow> fed env b (ref env n kind t b)"
  "card (free_names env b) \<le> n \<Longrightarrow> fed env b (structSchema env n kind t b)"
  "card (free_names env b) \<le> n \<Longrightarrow> fed env b (fieldSchemas env n kind s fs props required b)"
proof (induction env n kind t b and env n kind t b and env n kind t b and env n kind s fs props required b rule: builder_induct)
  case (1 env n kind t b)
  then show ?case
    by (subst fieldSchema.simps) (auto split: option.splits go_type.splits sum.splits)
next
  case (2 env n kind t b)
  show ?case
  proof (cases "map_of (ge_schemaNames env) (deref t)")
    case (Some name)
    show ?thesis
    proof (cases "map_of (sb_kinds b) name")
      case None
      have "n \<noteq> 0" using fed_ref_step(1) [OF Some None, of 0 kind] 2(2) fed_ref_step [OF Some None, of 0] 
        by (metis card_0_eq finite_free_names le_zero_eq DiffI None Some free_names_def domIff empty_iff image_eqI map_of_SomeD snd_conv)
      then obtain m where m: "n = Suc m" by (cases n) auto
      note step = fed_ref_step [OF Some None 2(2) [unfolded m], of kind]
      have "fed env (reserve name kind b) (structSchema env m kind (deref t) (reserve name kind b))"
        using 2(1) [OF Some None m step(1)] .
      then show ?thesis using step(2)
        by (subst ref.simps) (auto simp: Some None m free_names_def fed_def split: sum.splits)
    qed (subst ref.simps, auto simp: Some)
  qed (subst ref.simps, auto)
next
  case (3 env n kind t b)
  then show ?case
    by (subst structSchema.simps) (auto split: go_type.splits sum.splits)
next
  case (5 env n kind s f fs props required b)
  show ?case
  proof (cases "\<not> encoded_field f")
    case True
    then show ?thesis using 5(1,4) by (simp add: fieldSchemas.simps)
  next
    case False
    show ?thesis
    proof (cases "fieldSchema env n kind (fl_Type f) b")
      case (Inl e)
      then show ?thesis using False 5(2,4) by (simp add: fieldSchemas.simps)
    next
      case (Inr r)
      obtain schema b' where r: "r = (schema, b')" by fastforce
      have grown: "free_names env b' \<subseteq> free_names env b" using 5(2) [OF False 5(4)] Inr r by simp
      have "fed env b' (fieldSchemas env n kind s fs (AList.update (json_name f) (AnyMap schema) props)
          (if omitempty f then required else required @ [json_name f]) b')"
        using 5(3) [OF False Inr r [symmetric] fed_card [OF grown 5(4)]] .
      from fed_trans [OF grown this] show ?thesis using False Inr r by (simp add: fieldSchemas.simps split: if_splits)
    qed
  qed
qed auto


text \<open>A run that was not cut short is the run with any more fuel.\<close>

definition unstarved :: "(openapi_error, 'a) result \<Rightarrow> bool" where
  "unstarved r \<longleftrightarrow> (case r of Inl e \<Rightarrow> \<not> starved e | Inr _ \<Rightarrow> True)"

lemma unstarved_simps [simp]: "unstarved (Inl e) \<longleftrightarrow> \<not> starved e" "unstarved (Inr x)"
  by (simp_all add: unstarved_def)

lemma fed_unstarved: "fed env b r \<Longrightarrow> unstarved r"
  by (cases r) auto

lemma more_fuel:
  "unstarved (fieldSchema env n kind t b) \<Longrightarrow> n \<le> m \<Longrightarrow> fieldSchema env m kind t b = fieldSchema env n kind t b"
  "unstarved (ref env n kind t b) \<Longrightarrow> n \<le> m \<Longrightarrow> ref env m kind t b = ref env n kind t b"
  "unstarved (structSchema env n kind t b) \<Longrightarrow> n \<le> m \<Longrightarrow> structSchema env m kind t b = structSchema env n kind t b"
  "unstarved (fieldSchemas env n kind s fs props required b) \<Longrightarrow> n \<le> m \<Longrightarrow>
     fieldSchemas env m kind s fs props required b = fieldSchemas env n kind s fs props required b"
proof (induction env n kind t b and env n kind t b and env n kind t b and env n kind s fs props required b
    arbitrary: m and m and m and m rule: builder_induct)
  case (1 env n kind t b)
  show ?case
  proof (cases "map_of (ge_customSchemas env) t = None \<and> map_of (ge_customSchemas env) (deref t) = None")
    case True
    then have none: "map_of (ge_customSchemas env) t = None" "map_of (ge_customSchemas env) (deref t) = None" by simp_all
    note unfold = fieldSchema.simps [of env _ kind t b]
    show ?thesis
    proof (cases "underlying (deref t)")
      case (TSlice e)
      then show ?thesis using 1(1) [OF none TSlice _ 1(6)] 1(5) by (auto simp: unfold none split: sum.splits)
    next
      case (TArray e)
      then show ?thesis using 1(2) [OF none TArray _ 1(6)] 1(5) by (auto simp: unfold none split: sum.splits)
    next
      case (TMap k e)
      then show ?thesis using 1(3) [OF none TMap _ _ 1(6)] 1(5) by (auto simp: unfold none split: sum.splits)
    next
      case (TStruct s)
      then show ?thesis using 1(4) [OF none TStruct _ 1(6)] 1(5) by (auto simp: unfold none split: sum.splits)
    qed (auto simp: unfold none)
  qed (auto simp: fieldSchema.simps split: option.splits)
next
  case (2 env n kind t b)
  show ?case
  proof (cases "map_of (ge_schemaNames env) (deref t)")
    case (Some name)
    show ?thesis
    proof (cases "map_of (sb_kinds b) name")
      case None
      with 2(2) Some obtain i where i: "n = Suc i" by (cases n) (auto simp: ref.simps)
      with 2(3) obtain j where j: "m = Suc j" "i \<le> j" by (cases m) auto
      show ?thesis using 2(1) [OF Some None i _ j(2)] 2(2) by (auto simp: ref.simps i j(1) Some None split: sum.splits)
    qed (simp add: ref.simps Some)
  qed (simp add: ref.simps)
next
  case (3 env n kind t b)
  then show ?case
    by (cases "underlying t") (auto simp: structSchema.simps split: sum.splits)
next
  case (5 env n kind s f fs props required b)
  show ?case
  proof (cases "\<not> encoded_field f")
    case True
    then show ?thesis using 5(1) [OF True _ 5(5)] 5(4) by (simp add: fieldSchemas.simps)
  next
    case False
    show ?thesis
    proof (cases "fieldSchema env n kind (fl_Type f) b")
      case (Inl e)
      then show ?thesis using False 5(2) [OF False _ 5(5)] 5(4) by (simp add: fieldSchemas.simps)
    next
      case (Inr r)
      then show ?thesis using False 5(2) [OF False _ 5(5)] 5(3) [OF False Inr _ _ 5(5)] 5(4)
        by (cases r) (simp add: fieldSchemas.simps)
    qed
  qed
qed simp

section \<open>The schemas the types alone determine\<close>

definition schema_name :: "go_env \<Rightarrow> go_type \<Rightarrow> string" where
  "schema_name env t = (case map_of (ge_schemaNames env) t of Some name \<Rightarrow> name | None \<Rightarrow> [])"

definition custom_schema :: "go_env \<Rightarrow> go_type \<Rightarrow> any_map option" where
  "custom_schema env t = (case map_of (ge_customSchemas env) t of Some m \<Rightarrow> Some m | None \<Rightarrow> map_of (ge_customSchemas env) (deref t))"

definition nullable_ref :: "bool \<Rightarrow> any_map \<Rightarrow> any_map" where
  "nullable_ref nullable r = (if nullable then [(''oneOf'', AnySlice [AnyMap r, AnyMap [(''type'', AnyString ''null'')]])] else r)"

fun field_schema_of :: "go_env \<Rightarrow> go_type \<Rightarrow> any_map" where
  "field_schema_of env t =
     (case custom_schema env t of
        Some m \<Rightarrow> m
      | None \<Rightarrow>
     (case underlying (deref t) of
        TString \<Rightarrow> typed (is_pointer t) ''string'' []
      | TBool \<Rightarrow> typed (is_pointer t) ''boolean'' []
      | TInt k \<Rightarrow> typed (is_pointer t) ''integer'' (int_format k)
      | TFloat32 \<Rightarrow> typed (is_pointer t) ''number'' []
      | TFloat64 \<Rightarrow> typed (is_pointer t) ''number'' []
      | TSlice e \<Rightarrow> typed (is_pointer t) ''array'' [(''items'', AnyMap (field_schema_of env e))]
      | TArray e \<Rightarrow> typed (is_pointer t) ''array'' [(''items'', AnyMap (field_schema_of env e))]
      | TMap k e \<Rightarrow> typed (is_pointer t) ''object'' [(''additionalProperties'', AnyMap (field_schema_of env e))]
      | TStruct s \<Rightarrow> nullable_ref (is_pointer t) (ref_to (schema_name env (deref t)))
      | _ \<Rightarrow> []))"

declare field_schema_of.simps [simp del]

definition described_fields :: "go_env \<Rightarrow> string \<Rightarrow> go_field list" where
  "described_fields env s = filter encoded_field (ge_fields env s)"

definition add_property :: "go_env \<Rightarrow> go_field \<Rightarrow> any_map \<Rightarrow> any_map" where
  "add_property env f = AList.update (json_name f) (AnyMap (field_schema_of env (fl_Type f)))"

definition required_fields :: "go_field list \<Rightarrow> string list" where
  "required_fields fs = map json_name (filter (\<lambda>f. \<not> omitempty f) fs)"

definition struct_schema_of :: "go_env \<Rightarrow> schemaKind \<Rightarrow> string \<Rightarrow> any_map" where
  "struct_schema_of env kind s =
     object_schema kind (fold (add_property env) (described_fields env s) []) (required_fields (described_fields env s))"

text \<open>A field type the generator supports, where the name of every struct it refers to is a good one.\<close>

fun field_known :: "go_env \<Rightarrow> (string \<Rightarrow> bool) \<Rightarrow> go_type \<Rightarrow> bool" where
  "field_known env good t =
     (custom_schema env t \<noteq> None \<or>
     (case underlying (deref t) of
        TString \<Rightarrow> True | TBool \<Rightarrow> True | TInt k \<Rightarrow> True | TFloat32 \<Rightarrow> True | TFloat64 \<Rightarrow> True
      | TSlice e \<Rightarrow> field_known env good e
      | TArray e \<Rightarrow> field_known env good e
      | TMap k e \<Rightarrow> underlying k = TString \<and> field_known env good e
      | TStruct s \<Rightarrow> map_of (ge_schemaNames env) (deref t) \<noteq> None \<and> good (schema_name env (deref t))
      | _ \<Rightarrow> False))"

declare field_known.simps [simp del]

lemma map_le_Some: "K \<subseteq>\<^sub>m K' \<Longrightarrow> K a = Some v \<Longrightarrow> K' a = Some v"
  by (metis domI map_le_def)

lemma field_known_mono: "field_known env good t \<Longrightarrow> (\<And>name. good name \<Longrightarrow> good' name) \<Longrightarrow> field_known env good' t"
proof (induction env good t rule: field_known.induct)
  case (1 env good t)
  from 1(4) show ?case
    using 1(1,2,3,5) by (auto simp: field_known.simps [of env _ t] split: go_type.splits)
qed

definition responses :: "schemaBuilder \<Rightarrow> string \<Rightarrow> bool" where
  "responses b name \<longleftrightarrow> map_of (sb_kinds b) name = Some kindResponse"

definition described :: "go_env \<Rightarrow> schemaBuilder \<Rightarrow> string \<Rightarrow> bool" where
  "described env b name \<longleftrightarrow> (\<exists>t s. map_of (ge_schemaNames env) t = Some name \<and> underlying t = TStruct s \<and>
     map_of (sb_schemas b) name = Some (AnyMap (struct_schema_of env kindResponse s)) \<and>
     (\<forall>f \<in> set (described_fields env s). field_known env (responses b) (fl_Type f)))"

text \<open>The invariant of the builder, but for the names it is in the middle of.\<close>

definition builder_inv :: "go_env \<Rightarrow> string set \<Rightarrow> schemaBuilder \<Rightarrow> bool" where
  "builder_inv env pending b \<longleftrightarrow> (\<forall>name. map_of (sb_kinds b) name = Some kindResponse \<and> name \<notin> pending \<longrightarrow> described env b name)"

definition extends :: "schemaBuilder \<Rightarrow> schemaBuilder \<Rightarrow> bool" where
  "extends b b' \<longleftrightarrow> map_of (sb_kinds b) \<subseteq>\<^sub>m map_of (sb_kinds b')"

lemma extends_refl [simp]: "extends b b"
  by (simp add: extends_def)

lemma extends_trans: "extends b b' \<Longrightarrow> extends b' b'' \<Longrightarrow> extends b b''"
  by (auto simp: extends_def intro: map_le_trans)

lemma extends_responses: "extends b b' \<Longrightarrow> responses b name \<Longrightarrow> responses b' name"
  by (auto simp: extends_def responses_def dest: map_le_Some)

lemma field_known_extends: "field_known env (responses b) t \<Longrightarrow> extends b b' \<Longrightarrow> field_known env (responses b') t"
  by (erule field_known_mono) (rule extends_responses)

lemma responses_publish [simp]: "responses (publish name schema b) = responses b"
  by (simp add: responses_def fun_eq_iff)

lemma described_mono:
  assumes "described env b name" "extends b b'" "map_of (sb_schemas b') name = map_of (sb_schemas b) name"
  shows "described env b' name"
  using assms(1,3) field_known_extends [OF _ assms(2)] unfolding described_def by fastforce

lemma builder_inv_reserve:
  assumes "builder_inv env P b" "map_of (sb_kinds b) name = None"
  shows "builder_inv env (insert name P) (reserve name kind b)" "extends b (reserve name kind b)"
proof -
  show e: "extends b (reserve name kind b)" using assms(2) by (auto simp: extends_def map_le_def)
  show "builder_inv env (insert name P) (reserve name kind b)"
    using assms(1) described_mono [OF _ e] by (auto simp: builder_inv_def)
qed

lemma builder_inv_publish:
  assumes "builder_inv env (insert name P) b" "map_of (sb_kinds b) name = Some kindResponse \<Longrightarrow> described env (publish name schema b) name"
  shows "builder_inv env P (publish name schema b)"
  unfolding builder_inv_def
proof (intro allI impI)
  fix x
  assume x: "map_of (sb_kinds (publish name schema b)) x = Some kindResponse \<and> x \<notin> P"
  show "described env (publish name schema b) x"
  proof (cases "x = name")
    case False
    with x assms(1) have "described env b x" by (simp add: builder_inv_def)
    then show ?thesis using False by (elim described_mono) (simp_all add: extends_def)
  qed (use x assms(2) in simp)
qed


lemma deref_deref [simp]: "deref (deref t) = deref t"
  by (induction t rule: deref.induct) auto

lemma field_schema_custom: "custom_schema env t = Some m \<Longrightarrow> field_schema_of env t = m"
  by (simp add: field_schema_of.simps)

lemma builder_refines:
  "builder_inv env P b \<Longrightarrow> fieldSchema env n kind t b = Inr (x, b') \<Longrightarrow>
    builder_inv env P b' \<and> extends b b' \<and> x = field_schema_of env t \<and> (kind = kindResponse \<longrightarrow> field_known env (responses b') t)"
  "builder_inv env P b \<Longrightarrow> ref env n kind t b = Inr (x, b') \<Longrightarrow>
    builder_inv env P b' \<and> extends b b' \<and> map_of (ge_schemaNames env) (deref t) = Some (schema_name env (deref t)) \<and>
    x = ref_to (schema_name env (deref t)) \<and> map_of (sb_kinds b') (schema_name env (deref t)) = Some kind"
  "builder_inv env P b \<Longrightarrow> structSchema env n kind t b = Inr (x, b') \<Longrightarrow>
    builder_inv env P b' \<and> extends b b' \<and> (\<exists>s. underlying t = TStruct s \<and> x = struct_schema_of env kind s \<and>
      (kind = kindResponse \<longrightarrow> (\<forall>f \<in> set (described_fields env s). field_known env (responses b') (fl_Type f))))"
  "builder_inv env P b \<Longrightarrow> fieldSchemas env n kind s fs props required b = Inr (y, b') \<Longrightarrow>
    builder_inv env P b' \<and> extends b b' \<and>
    y = (fold (add_property env) (filter encoded_field fs) props, required @ required_fields (filter encoded_field fs)) \<and>
    (kind = kindResponse \<longrightarrow> (\<forall>f \<in> set (filter encoded_field fs). field_known env (responses b') (fl_Type f)))"
proof (induction env n kind t b and env n kind t b and env n kind t b and env n kind s fs props required b
    arbitrary: P x b' and P x b' and P x b' and P y b' rule: builder_induct)
  case (1 env n kind t b)
  show ?case
  proof (cases "custom_schema env t")
    case (Some m)
    then have "fieldSchema env n kind t b = Inr (m, b)"
      by (auto simp: fieldSchema.simps custom_schema_def split: option.splits)
    then show ?thesis using 1(5,6) Some by (simp add: field_schema_custom field_known.simps)
  next
    case None
    then have none: "map_of (ge_customSchemas env) t = None" "map_of (ge_customSchemas env) (deref t) = None"
      by (auto simp: custom_schema_def split: option.splits)
    note unfold = fieldSchema.simps [of env n kind t b] field_schema_of.simps [of env t] field_known.simps [of env _ t]
    show ?thesis
    proof (cases "underlying (deref t)")
      case (TSlice e)
      from 1(6) obtain items where "fieldSchema env n kind e b = Inr (items, b')" "x = typed (is_pointer t) ''array'' [(''items'', AnyMap items)]"
        by (auto simp: unfold none TSlice split: sum.splits)
      with 1(1) [OF none TSlice 1(5)] show ?thesis by (simp add: unfold None TSlice)
    next
      case (TArray e)
      from 1(6) obtain items where "fieldSchema env n kind e b = Inr (items, b')" "x = typed (is_pointer t) ''array'' [(''items'', AnyMap items)]"
        by (auto simp: unfold none TArray split: sum.splits)
      with 1(2) [OF none TArray 1(5)] show ?thesis by (simp add: unfold None TArray)
    next
      case (TMap k e)
      from 1(6) obtain vals where "underlying k = TString" "fieldSchema env n kind e b = Inr (vals, b')"
          "x = typed (is_pointer t) ''object'' [(''additionalProperties'', AnyMap vals)]"
        by (auto simp: unfold none TMap split: sum.splits if_splits)
      with 1(3) [OF none TMap _ 1(5)] show ?thesis by (simp add: unfold None TMap)
    next
      case (TStruct s)
      from 1(6) obtain r where "ref env n kind (deref t) b = Inr (r, b')" "x = nullable_ref (is_pointer t) r"
        by (auto simp: unfold none TStruct nullable_ref_def split: sum.splits if_splits)
      with 1(4) [OF none TStruct 1(5)] show ?thesis by (simp add: unfold None TStruct responses_def)
    qed (use 1(5,6) in \<open>auto simp: unfold none None\<close>)
  qed
next
  case (2 env n kind t b)
  from 2(3) obtain name where name: "map_of (ge_schemaNames env) (deref t) = Some name"
    by (auto simp: ref.simps split: option.splits)
  then have sn: "schema_name env (deref t) = name" by (simp add: schema_name_def)
  show ?case
  proof (cases "map_of (sb_kinds b) name")
    case (Some k)
    with 2(2,3) name sn show ?thesis by (auto simp: ref.simps split: if_splits)
  next
    case None
    from 2(3) name None obtain m schema b1 where step: "n = Suc m"
      "structSchema env m kind (deref t) (reserve name kind b) = Inr (schema, b1)" "x = ref_to name" "b' = publish name schema b1"
      by (auto simp: ref.simps split: nat.splits sum.splits)
    note rsv = builder_inv_reserve [OF 2(2) None, of kind]
    from 2(1) [OF name None step(1) rsv(1) step(2)] obtain s where s: "builder_inv env (insert name P) b1" "extends (reserve name kind b) b1"
      "underlying (deref t) = TStruct s" "schema = struct_schema_of env kind s"
      "kind = kindResponse \<longrightarrow> (\<forall>f \<in> set (described_fields env s). field_known env (responses b1) (fl_Type f))" by blast
    have kb: "map_of (sb_kinds b1) name = Some kind" using s(2) by (auto simp: extends_def map_le_def)
    have "builder_inv env P b'" unfolding step(4)
      using s kb name by (intro builder_inv_publish) (auto simp: described_def)
    moreover have "extends b b'" using extends_trans [OF rsv(2) s(2)] by (simp add: step(4) extends_def)
    ultimately show ?thesis using step sn name kb by simp
  qed
next
  case (3 env n kind t b)
  then show ?case
    by (fastforce simp: structSchema.simps [of env n kind t b] struct_schema_of_def described_fields_def split: go_type.splits sum.splits)
next
  case (5 env n kind s f fs props required b)
  show ?case
  proof (cases "\<not> encoded_field f")
    case True
    then show ?thesis using 5(1) [OF True 5(4)] 5(5) by (simp add: fieldSchemas.simps)
  next
    case False
    with 5(5) obtain schema b1 where one: "fieldSchema env n kind (fl_Type f) b = Inr (schema, b1)"
      and rest: "fieldSchemas env n kind s fs (AList.update (json_name f) (AnyMap schema) props)
          (if omitempty f then required else required @ [json_name f]) b1 = Inr (y, b')"
      by (auto simp: fieldSchemas.simps split: sum.splits)
    note first = 5(2) [OF False 5(4) one]
    note more' = 5(3) [OF False one refl _ rest]
    have later: "extends b1 b'" using first more' by blast
    show ?thesis using first more' False extends_trans [OF _ later] field_known_extends [OF _ later]
      by (auto simp: add_property_def required_fields_def)
  qed
qed (auto simp: required_fields_def)


text \<open>A run for one kind only adds names of that kind.\<close>

definition adds_kind :: "schemaKind \<Rightarrow> schemaBuilder \<Rightarrow> schemaBuilder \<Rightarrow> bool" where
  "adds_kind kind b b' \<longleftrightarrow> (\<forall>name. map_of (sb_kinds b') name \<in> {map_of (sb_kinds b) name, Some kind}) \<and> sb_requestOrigin b' = sb_requestOrigin b"

lemma adds_kind_refl [simp]: "adds_kind kind b b"
  by (simp add: adds_kind_def)

lemma adds_kind_trans: "adds_kind kind b b' \<Longrightarrow> adds_kind kind b' b'' \<Longrightarrow> adds_kind kind b b''"
  unfolding adds_kind_def by (metis insert_iff)

lemma adds_kind_ref: "adds_kind kind (reserve name kind b) b' \<Longrightarrow> adds_kind kind b (publish name schema b')"
  by (auto simp: adds_kind_def split: if_splits)

lemma builder_adds:
  "fieldSchema env n kind t b = Inr (x, b') \<Longrightarrow> adds_kind kind b b'"
  "ref env n kind t b = Inr (x, b') \<Longrightarrow> adds_kind kind b b'"
  "structSchema env n kind t b = Inr (x, b') \<Longrightarrow> adds_kind kind b b'"
  "fieldSchemas env n kind s fs props required b = Inr (y, b') \<Longrightarrow> adds_kind kind b b'"
proof (induction env n kind t b and env n kind t b and env n kind t b and env n kind s fs props required b
    arbitrary: x b' and x b' and x b' and y b' rule: builder_induct)
  case (1 env n kind t b)
  from 1(5) show ?case
    using 1(1-4) unfolding fieldSchema.simps [of env n kind t b] by (cases "underlying (deref t)") (auto split: option.splits sum.splits if_splits)
next
  case (2 env n kind t b)
  then show ?case
    by (auto simp: ref.simps [of env n kind t b] intro: adds_kind_ref split: option.splits sum.splits nat.splits if_splits)
next
  case (3 env n kind t b)
  then show ?case
    by (auto simp: structSchema.simps [of env n kind t b] split: go_type.splits sum.splits)
next
  case (5 env n kind s f fs props required b)
  then show ?case
    by (fastforce simp: fieldSchemas.simps intro: adds_kind_trans split: sum.splits if_splits)
qed auto

end
