(* ===== verification/Json_Conform.thy ===== *)
theory Json_Conform
  imports Complex_Main Schema_Facts
begin

text \<open>
  What a published schema promises: JSON values, \<^verbatim>\<open>encoding/json\<close> on values of the reflected types, and the keywords of JSON Schema that the
  generator uses. The fuel of \<open>conforms\<close> bounds the references followed; three steps for each level of the value are enough
  (\<open>encoded_conforms\<close>): every value of a type, encoded, conforms to the schema generated for the type.
\<close>

section \<open>Values and their encoding\<close>

datatype jvalue = JNull | JBool bool | JInt int | JFloat rat | JString string | JArray "jvalue list" | JObject "(string \<times> jvalue) list"

text \<open>\<open>GNil\<close> is a nil pointer, or a nil slice or map.\<close>

datatype go_value =
    GString string | GBool bool | GInt int | GFloat rat
  | GNil | GPtr go_value
  | GSlice "go_value list" | GMap "(string \<times> go_value) list" | GStruct "go_value list"

fun elem_type :: "go_type \<Rightarrow> go_type" where
  "elem_type (TPointer e) = e" | "elem_type (TSlice e) = e" | "elem_type (TArray e) = e" | "elem_type (TMap k e) = e" | "elem_type t = t"

definition struct_of :: "go_env \<Rightarrow> go_type \<Rightarrow> go_field list" where
  "struct_of env t = (case underlying t of TStruct s \<Rightarrow> ge_fields env s | _ \<Rightarrow> [])"

definition empty_value :: "go_value \<Rightarrow> bool" where
  "empty_value v \<longleftrightarrow> v \<in> {GString [], GBool False, GInt 0, GFloat 0, GNil, GSlice [], GMap []}"

definition left_out :: "go_field \<Rightarrow> go_value \<Rightarrow> bool" where
  "left_out f v \<longleftrightarrow> \<not> encoded_field f \<or> omitempty f \<and> empty_value v"

fun encode :: "go_env \<Rightarrow> go_type \<Rightarrow> go_value \<Rightarrow> jvalue"
and encode_fields :: "go_env \<Rightarrow> go_field list \<Rightarrow> go_value list \<Rightarrow> (string \<times> jvalue) list" where
  "encode env t (GString s) = JString s"
| "encode env t (GBool b) = JBool b"
| "encode env t (GInt i) = JInt i"
| "encode env t (GFloat x) = JFloat x"
| "encode env t GNil = JNull"
| "encode env t (GPtr v) = encode env (elem_type t) v"
| "encode env t (GSlice vs) = JArray (map (encode env (elem_type (underlying t))) vs)"
| "encode env t (GMap kvs) = JObject (map (\<lambda>(k, v). (k, encode env (elem_type (underlying t)) v)) kvs)"
| "encode env t (GStruct vs) = JObject (encode_fields env (struct_of env t) vs)"
| "encode_fields env (f # fs) (v # vs) = (if left_out f v then [] else [(json_name f, encode env (fl_Type f) v)]) @ encode_fields env fs vs"
| "encode_fields env _ _ = []"

text \<open>
  A value of a type. A slice or map that is encoded at all is not nil, which would be encoded as null; a type with a hand-written schema has its own
  encoding and no values here.
\<close>

fun has_type :: "go_env \<Rightarrow> go_type \<Rightarrow> go_value \<Rightarrow> bool"
and fields_typed :: "go_env \<Rightarrow> go_field list \<Rightarrow> go_value list \<Rightarrow> bool" where
  "has_type env t (GString s) \<longleftrightarrow> custom_schema env t = None \<and> underlying t = TString"
| "has_type env t (GBool b) \<longleftrightarrow> custom_schema env t = None \<and> underlying t = TBool"
| "has_type env t (GInt i) \<longleftrightarrow> custom_schema env t = None \<and> (case underlying t of TInt k \<Rightarrow> True | _ \<Rightarrow> False)"
| "has_type env t (GFloat x) \<longleftrightarrow> custom_schema env t = None \<and> underlying t \<in> {TFloat32, TFloat64}"
| "has_type env t GNil \<longleftrightarrow> custom_schema env t = None \<and> is_pointer t"
| "has_type env t (GPtr v) \<longleftrightarrow> custom_schema env t = None \<and> is_pointer t \<and> has_type env (elem_type t) v"
| "has_type env t (GSlice vs) \<longleftrightarrow> custom_schema env t = None \<and> (case underlying t of TSlice e \<Rightarrow> True | TArray e \<Rightarrow> True | _ \<Rightarrow> False) \<and>
     list_all (has_type env (elem_type (underlying t))) vs"
| "has_type env t (GMap kvs) \<longleftrightarrow> custom_schema env t = None \<and> (case underlying t of TMap k e \<Rightarrow> True | _ \<Rightarrow> False) \<and>
     list_all (\<lambda>(k, v). has_type env (elem_type (underlying t)) v) kvs"
| "has_type env t (GStruct vs) \<longleftrightarrow> custom_schema env t = None \<and> (case underlying t of TStruct s \<Rightarrow> True | _ \<Rightarrow> False) \<and>
     fields_typed env (struct_of env t) vs"
| "fields_typed env [] vs \<longleftrightarrow> vs = []"
| "fields_typed env (f # fs) [] \<longleftrightarrow> False"
| "fields_typed env (f # fs) (v # vs) \<longleftrightarrow> (left_out f v \<or> has_type env (fl_Type f) v) \<and> fields_typed env fs vs"

section \<open>Conformance\<close>

definition type_matches :: "jvalue \<Rightarrow> json_any \<Rightarrow> bool" where
  "type_matches j ty =
     (case j of
        JNull \<Rightarrow> ty = AnyString ''null''
      | JBool _ \<Rightarrow> ty = AnyString ''boolean''
      | JInt _ \<Rightarrow> ty = AnyString ''integer'' \<or> ty = AnyString ''number''
      | JFloat _ \<Rightarrow> ty = AnyString ''number''
      | JString _ \<Rightarrow> ty = AnyString ''string''
      | JArray _ \<Rightarrow> ty = AnyString ''array''
      | JObject _ \<Rightarrow> ty = AnyString ''object'')"

definition type_ok :: "any_map \<Rightarrow> jvalue \<Rightarrow> bool" where
  "type_ok m j =
     (case map_of m ''type'' of
        None \<Rightarrow> True
      | Some (AnySlice tys) \<Rightarrow> list_ex (type_matches j) tys
      | Some ty \<Rightarrow> type_matches j ty)"

definition required_ok :: "any_map \<Rightarrow> (string \<times> jvalue) list \<Rightarrow> bool" where
  "required_ok m kvs =
     (case map_of m ''required'' of
        None \<Rightarrow> True
      | Some (AnySlice names) \<Rightarrow> list_all (\<lambda>name. case name of AnyString k \<Rightarrow> map_of kvs k \<noteq> None | _ \<Rightarrow> False) names
      | Some _ \<Rightarrow> False)"

definition referenced :: "(string \<Rightarrow> json_any option) \<Rightarrow> string \<Rightarrow> any_map option" where
  "referenced S r =
     (if has_prefix r schema_prefix
      then (case S (drop (length schema_prefix) r) of Some (AnyMap m) \<Rightarrow> Some m | _ \<Rightarrow> None)
      else None)"

fun conforms :: "(string \<Rightarrow> json_any option) \<Rightarrow> nat \<Rightarrow> json_any \<Rightarrow> jvalue \<Rightarrow> bool" where
  "conforms S 0 schema j = False"
| "conforms S (Suc n) (AnyMap m) j \<longleftrightarrow>
     (case map_of m ''$ref'' of
        None \<Rightarrow> True
      | Some (AnyString r) \<Rightarrow> (case referenced S r of Some m' \<Rightarrow> conforms S n (AnyMap m') j | None \<Rightarrow> False)
      | Some _ \<Rightarrow> False) \<and>
     (case map_of m ''oneOf'' of
        None \<Rightarrow> True
      | Some (AnySlice choices) \<Rightarrow> length (filter (\<lambda>s. conforms S n s j) choices) = 1
      | Some _ \<Rightarrow> False) \<and>
     type_ok m j \<and>
     (case j of
        JArray js \<Rightarrow> (case map_of m ''items'' of None \<Rightarrow> True | Some s \<Rightarrow> list_all (conforms S n s) js)
      | JObject kvs \<Rightarrow>
          required_ok m kvs \<and>
          list_all (\<lambda>(k, v). case map_of (properties_of m) k of
              Some s \<Rightarrow> conforms S n s v
            | None \<Rightarrow>
                (case map_of m ''additionalProperties'' of None \<Rightarrow> True | Some (AnyBool b) \<Rightarrow> b | Some s \<Rightarrow> conforms S n s v)) kvs
      | _ \<Rightarrow> True)"
| "conforms S (Suc n) (AnyBool b) j \<longleftrightarrow> b"
| "conforms S (Suc n) _ j \<longleftrightarrow> False"

definition schema_accepts :: "(string \<Rightarrow> json_any option) \<Rightarrow> json_any \<Rightarrow> jvalue \<Rightarrow> bool" where
  "schema_accepts S schema j \<longleftrightarrow> conforms S (3 * size j + 3) schema j"


section \<open>Soundness of the generated schemas\<close>

declare conforms.simps(2) [simp del]

fun schema_at :: "go_env \<Rightarrow> bool \<Rightarrow> go_type \<Rightarrow> any_map" where
  "schema_at env nullable t =
     (case underlying t of
        TString \<Rightarrow> typed nullable ''string'' []
      | TBool \<Rightarrow> typed nullable ''boolean'' []
      | TInt k \<Rightarrow> typed nullable ''integer'' (int_format k)
      | TFloat32 \<Rightarrow> typed nullable ''number'' []
      | TFloat64 \<Rightarrow> typed nullable ''number'' []
      | TSlice e \<Rightarrow> typed nullable ''array'' [(''items'', AnyMap (field_schema_of env e))]
      | TArray e \<Rightarrow> typed nullable ''array'' [(''items'', AnyMap (field_schema_of env e))]
      | TMap k e \<Rightarrow> typed nullable ''object'' [(''additionalProperties'', AnyMap (field_schema_of env e))]
      | TStruct s \<Rightarrow> nullable_ref nullable (ref_to (schema_name env t))
      | _ \<Rightarrow> [])"

declare schema_at.simps [simp del]

lemma field_schema_at: "custom_schema env t = None \<Longrightarrow> field_schema_of env t = schema_at env (is_pointer t) (deref t)"
  by (simp add: field_schema_of.simps schema_at.simps)

lemma underlying_deref: "\<not> is_pointer t \<Longrightarrow> deref t = t"
  by (cases t) auto

lemma underlying_not_pointer: "underlying t \<in> {TString, TBool, TInt k, TFloat32, TFloat64, TSlice e, TArray e, TMap k' e, TStruct s} \<Longrightarrow> deref t = t"
  by (cases t) auto

text \<open>The keywords of the schemas the generator writes.\<close>

lemma typed_keywords [simp]:
  "map_of (typed nullable ty rest) ''$ref'' = map_of rest ''$ref''" "map_of (typed nullable ty rest) ''oneOf'' = map_of rest ''oneOf''"
  "map_of (typed nullable ty rest) ''items'' = map_of rest ''items''" "map_of (typed nullable ty rest) ''required'' = map_of rest ''required''"
  "map_of (typed nullable ty rest) ''properties'' = map_of rest ''properties''"
  "map_of (typed nullable ty rest) ''additionalProperties'' = map_of rest ''additionalProperties''"
  by (simp_all add: typed_def)

lemma typed_ok [simp]: "type_ok (typed nullable ty rest) j \<longleftrightarrow> type_matches j (AnyString ty) \<or> nullable \<and> j = JNull"
  by (cases j) (auto simp: typed_def type_ok_def type_matches_def)

lemma int_format_keywords [simp]:
  "map_of (int_format k) ''$ref'' = None" "map_of (int_format k) ''oneOf'' = None" "map_of (int_format k) ''items'' = None"
  "map_of (int_format k) ''required'' = None" "map_of (int_format k) ''properties'' = None" "map_of (int_format k) ''additionalProperties'' = None"
  by (cases k; simp add: int_format_def)+

lemma object_keywords [simp]:
  "map_of (object_schema kind props required) ''$ref'' = None" "map_of (object_schema kind props required) ''oneOf'' = None"
  "type_ok (object_schema kind props required) j \<longleftrightarrow> type_matches j (AnyString ''object'')"
  "map_of (object_schema kind props required) ''additionalProperties'' = Some (AnyBool False)"
  "properties_of (object_schema kind props required) = props"
  "map_of (object_schema kind props required) ''required'' =
     (if kind = kindResponse \<and> required \<noteq> [] then Some (AnySlice (toAny (sort required))) else None)"
  by (simp_all add: object_schema_def Let_def properties_of_def type_ok_def)

lemma ref_keywords [simp]:
  "map_of (ref_to name) ''$ref'' = Some (AnyString (schema_prefix @ name))" "map_of (ref_to name) ''oneOf'' = None"
  "map_of (ref_to name) ''type'' = None" "map_of (ref_to name) ''items'' = None" "map_of (ref_to name) ''required'' = None"
  "map_of (ref_to name) ''properties'' = None" "map_of (ref_to name) ''additionalProperties'' = None"
  by (simp_all add: ref_to_def)

lemma referenced_prefix [simp]: "referenced S (schema_prefix @ name) = (case S name of Some (AnyMap m) \<Rightarrow> Some m | _ \<Rightarrow> None)"
  by (simp add: referenced_def has_prefix_def)

lemma conforms_ref:
  "S name = Some (AnyMap m) \<Longrightarrow> conforms S (Suc n) (AnyMap (ref_to name)) j \<longleftrightarrow> conforms S n (AnyMap m) j"
  by (auto simp: conforms.simps type_ok_def required_ok_def properties_of_def list_all_iff split: jvalue.splits)

lemma conforms_object:
  "conforms S (Suc n) (AnyMap (object_schema kindResponse props required)) j \<longleftrightarrow>
     (\<exists>kvs. j = JObject kvs \<and> set required \<subseteq> fst ` set kvs \<and>
        (\<forall>(k, v) \<in> set kvs. \<exists>s. map_of props k = Some s \<and> conforms S n s v))"
proof -
  have "required_ok (object_schema kindResponse props required) kvs \<longleftrightarrow> set required \<subseteq> fst ` set kvs" for kvs
    by (auto simp: required_ok_def toAny_def list_all_iff map_of_eq_None_iff)
  then show ?thesis
    by (cases j) (auto simp: conforms.simps type_matches_def list_all_iff split: option.splits)
qed

lemma conforms_null_choice:
  assumes "S name = Some (AnyMap (object_schema kindResponse props required))"
  shows "conforms S (Suc (Suc (Suc n))) (AnyMap (nullable_ref True (ref_to name))) j \<longleftrightarrow>
    conforms S (Suc (Suc n)) (AnyMap (ref_to name)) j \<or> j = JNull"
proof -
  have null: "conforms S (Suc (Suc n)) (AnyMap [(''type'', AnyString ''null'')]) i \<longleftrightarrow> i = JNull" for i
    by (cases i) (auto simp: conforms.simps type_ok_def type_matches_def)
  have "\<not> conforms S (Suc (Suc n)) (AnyMap (ref_to name)) JNull" using assms by (simp add: conforms_ref conforms_object)
  then show ?thesis
    unfolding conforms.simps(2) [of S "Suc (Suc n)"]
    by (cases j) (auto simp: nullable_ref_def null type_ok_def required_ok_def properties_of_def list_all_iff)
qed


text \<open>The properties of a struct's schema, and the fields its values are encoded to.\<close>

lemma properties_fold:
  "map_of (fold (add_property env) fs props) = map_of props ++ map_of (rev (map (\<lambda>f. (json_name f, AnyMap (field_schema_of env (fl_Type f)))) fs))"
  by (induction fs arbitrary: props) (auto simp: add_property_def update_conv' map_add_def fun_eq_iff split: option.splits)

lemma property_of:
  assumes "distinct (map json_name fs)" "f \<in> set fs"
  shows "map_of (fold (add_property env) fs []) (json_name f) = Some (AnyMap (field_schema_of env (fl_Type f)))"
proof -
  let ?m = "map (\<lambda>f. (json_name f, AnyMap (field_schema_of env (fl_Type f)))) fs"
  have "distinct (map fst ?m)" using assms(1) by (simp add: comp_def)
  then have "map_of (rev ?m) = map_of ?m" by (intro map_of_inject_set [THEN iffD2]) (simp_all add: rev_map [symmetric])
  then show ?thesis using assms \<open>distinct (map fst ?m)\<close> by (simp add: properties_fold)
qed

lemma encode_fields_set:
  "fields_typed env fs vs \<Longrightarrow> (k, j) \<in> set (encode_fields env fs vs) \<longleftrightarrow>
     (\<exists>(f, v) \<in> set (zip fs vs). \<not> left_out f v \<and> has_type env (fl_Type f) v \<and> k = json_name f \<and> j = encode env (fl_Type f) v)"
  by (induction fs arbitrary: vs) (case_tac vs; auto)+

lemma required_encoded:
  "fields_typed env fs vs \<Longrightarrow> set (required_fields (filter encoded_field fs)) \<subseteq> fst ` set (encode_fields env fs vs)"
  by (induction fs arbitrary: vs) (case_tac vs; auto simp: required_fields_def left_out_def)+

definition schemas_of :: "schemaBuilder \<Rightarrow> string \<Rightarrow> json_any option" where
  "schemas_of b = map_of (sb_schemas b)"

definition well_formed_env :: "go_env \<Rightarrow> bool" where
  "well_formed_env env \<longleftrightarrow> distinct (map fst (ge_schemaNames env)) \<and> distinct (map snd (ge_schemaNames env)) \<and>
     (\<forall>(t, name) \<in> set (ge_schemaNames env). case underlying t of TStruct s \<Rightarrow> distinct (map json_name (described_fields env s)) | _ \<Rightarrow> True)"

lemma known_struct:
  assumes "well_formed_env env" "builder_inv env {} b" "map_of (ge_schemaNames env) t \<noteq> None"
    "responses b (schema_name env t)"
  obtains s where "underlying t = TStruct s" "schemas_of b (schema_name env t) = Some (AnyMap (struct_schema_of env kindResponse s))"
    "\<forall>f \<in> set (described_fields env s). field_known env (responses b) (fl_Type f)" "distinct (map json_name (described_fields env s))"
proof -
  from assms(3) obtain name where name: "map_of (ge_schemaNames env) t = Some name" by auto
  then have sn: "schema_name env t = name" by (simp add: schema_name_def)
  from assms(2,4) sn have "described env b name" by (simp add: builder_inv_def responses_def)
  then obtain t' s where t': "map_of (ge_schemaNames env) t' = Some name" "underlying t' = TStruct s"
    "schemas_of b name = Some (AnyMap (struct_schema_of env kindResponse s))"
    "\<forall>f \<in> set (described_fields env s). field_known env (responses b) (fl_Type f)"
    by (auto simp: described_def schemas_of_def)
  have "inj_on snd (set (ge_schemaNames env))" using assms(1) by (simp add: well_formed_env_def distinct_map)
  from inj_onD [OF this _ map_of_SomeD [OF name] map_of_SomeD [OF t'(1)]] have "t = t'" by simp
  moreover have "distinct (map json_name (described_fields env s))"
    using map_of_SomeD [OF t'(1)] t'(2) assms(1) by (auto simp: well_formed_env_def)
  ultimately show thesis using that t' sn by simp
qed


lemma has_type_plain: "has_type env t v \<Longrightarrow> custom_schema env t = None"
  by (cases v) auto

lemma pointer_elem:
  assumes "is_pointer t"
  shows "deref t = deref (elem_type t)"
  using assms by (cases t) auto

lemma field_known_elem:
  assumes "is_pointer t" "custom_schema env t = None" "field_known env (responses b) t"
  shows "field_known env (responses b) (elem_type t)"
  using assms pointer_elem [OF assms(1)]
  by (auto simp: field_known.simps [of env _ t] field_known.simps [of env _ "elem_type t"] split: go_type.splits)

lemma size_array: "j \<in> set js \<Longrightarrow> size j < size (JArray js)"
  using size_list_estimation' [of j js "size j" size] by simp

lemma size_object: "(k, j) \<in> set kvs \<Longrightarrow> size j < size (JObject kvs)"
  using size_list_estimation' [of "(k, j)" kvs "size j" "size_prod (\<lambda>_. 0) size"] by simp

lemma fuel_step: "i < (j :: nat) \<Longrightarrow> 3 * j + 3 \<le> n \<Longrightarrow> \<exists>m. n = Suc (Suc (Suc m)) \<and> 3 * i + 3 \<le> m"
  by (intro exI [of _ "n - 3"]) auto

lemma fuel_le: "3 * j + 3 \<le> n \<Longrightarrow> \<exists>m. n = Suc (Suc (Suc m))"
  by (intro exI [of _ "n - 3"]) auto

locale published =
  fixes env :: go_env and b :: schemaBuilder
  assumes wf: "well_formed_env env" and inv: "builder_inv env {} b"
begin

abbreviation "S \<equiv> schemas_of b"

lemma struct_conforms:
  assumes known: "map_of (ge_schemaNames env) t \<noteq> None" "responses b (schema_name env t)"
    and typed: "fields_typed env (struct_of env t) vs"
    and fields: "\<And>f v m. (f, v) \<in> set (zip (struct_of env t) vs) \<Longrightarrow> \<not> left_out f v \<Longrightarrow> field_known env (responses b) (fl_Type f) \<Longrightarrow>
      3 * size (encode env (fl_Type f) v) + 3 \<le> m \<Longrightarrow> conforms S m (AnyMap (field_schema_of env (fl_Type f))) (encode env (fl_Type f) v)"
    and fuel: "3 * size (JObject (encode_fields env (struct_of env t) vs)) + 3 \<le> n"
  shows "conforms S n (AnyMap (nullable_ref nullable (ref_to (schema_name env t)))) (JObject (encode_fields env (struct_of env t) vs))"
proof -
  obtain s where s: "underlying t = TStruct s" "S (schema_name env t) = Some (AnyMap (struct_schema_of env kindResponse s))"
    "\<forall>f \<in> set (described_fields env s). field_known env (responses b) (fl_Type f)" "distinct (map json_name (described_fields env s))"
    using known_struct [OF wf inv known] by blast
  then have fs: "struct_of env t = ge_fields env s" by (simp add: struct_of_def)
  let ?kvs = "encode_fields env (ge_fields env s) vs" and ?props = "fold (add_property env) (described_fields env s) []"
  have object: "conforms S (Suc m) (AnyMap (struct_schema_of env kindResponse s)) (JObject ?kvs)" if "3 * size (JObject ?kvs) \<le> m" for m
    unfolding struct_schema_of_def conforms_object
  proof (intro exI [of _ ?kvs] conjI refl)
    show "set (required_fields (described_fields env s)) \<subseteq> fst ` set ?kvs"
      using required_encoded [OF typed [unfolded fs]] by (simp add: described_fields_def)
    show "\<forall>(k, j) \<in> set ?kvs. \<exists>sc. map_of ?props k = Some sc \<and> conforms S m sc j"
    proof clarify
      fix k j
      assume kj: "(k, j) \<in> set ?kvs"
      then obtain f v where fv: "(f, v) \<in> set (zip (struct_of env t) vs)" "\<not> left_out f v" "k = json_name f" "j = encode env (fl_Type f) v"
        using encode_fields_set [OF typed [unfolded fs]] fs by auto
      then have f: "f \<in> set (described_fields env s)"
        by (auto simp: described_fields_def left_out_def fs dest: set_zip_leftD)
      have "3 * size j + 3 \<le> m" using size_object [OF kj] that by simp
      then have "conforms S m (AnyMap (field_schema_of env (fl_Type f))) j"
        using fields [OF fv(1,2)] s(3) f fv(4) by simp
      then show "\<exists>sc. map_of ?props k = Some sc \<and> conforms S m sc j" using property_of [OF s(4) f] fv(3) by simp
    qed
  qed
  obtain m where m: "n = Suc (Suc (Suc m))" using fuel_le [OF fuel] by blast
  show ?thesis
  proof (cases nullable)
    case True
    have "conforms S (Suc (Suc m)) (AnyMap (ref_to (schema_name env t))) (JObject ?kvs)"
      using object [of m] fuel m by (simp add: conforms_ref [where S = S, OF s(2)] fs)
    then show ?thesis using conforms_null_choice [where S = S, OF s(2) [unfolded struct_schema_of_def]] by (simp add: m True fs)
  next
    case False
    then show ?thesis using object [of "Suc m"] fuel by (simp add: m nullable_ref_def conforms_ref [where S = S, OF s(2)] fs)
  qed
qed


lemma value_conforms:
  "has_type env' t v \<Longrightarrow> env' = env \<Longrightarrow> field_known env (responses b) t \<Longrightarrow> (is_pointer t \<Longrightarrow> nullable) \<Longrightarrow> 3 * size (encode env t v) + 3 \<le> n \<Longrightarrow>
     conforms S n (AnyMap (schema_at env nullable (deref t))) (encode env t v)"
  "fields_typed env' fs vs \<Longrightarrow> env' = env \<Longrightarrow> (f, v') \<in> set (zip fs vs) \<Longrightarrow> \<not> left_out f v' \<Longrightarrow> field_known env (responses b) (fl_Type f) \<Longrightarrow>
     3 * size (encode env (fl_Type f) v') + 3 \<le> n \<Longrightarrow> conforms S n (AnyMap (field_schema_of env (fl_Type f))) (encode env (fl_Type f) v')"
proof (induction env' t v and env' fs vs arbitrary: nullable n and f v' n rule: has_type_fields_typed.induct)
  case (1 env' t s)
  then show ?case using underlying_not_pointer [of t] fuel_le [OF 1(5)]
    by (auto simp: schema_at.simps conforms.simps type_matches_def)
next
  case (2 env' t c)
  then show ?case using underlying_not_pointer [of t] fuel_le [OF 2(5)]
    by (auto simp: schema_at.simps conforms.simps type_matches_def)
next
  case (3 env' t i)
  then show ?case using underlying_not_pointer [of t] fuel_le [OF 3(5)]
    by (auto simp: schema_at.simps conforms.simps type_matches_def split: go_type.splits)
next
  case (4 env' t x)
  then show ?case using underlying_not_pointer [of t] fuel_le [OF 4(5)]
    by (auto simp: schema_at.simps conforms.simps type_matches_def)
next
  case (5 env' t)
  then obtain m where m: "n = Suc (Suc (Suc m))" "nullable" using fuel_le [OF 5(5)] by auto
  show ?case
  proof (cases "underlying (deref t)")
    case (TStruct s)
    then have known: "map_of (ge_schemaNames env) (deref t) \<noteq> None" "responses b (schema_name env (deref t))"
      using 5(1,2,3) by (auto simp: field_known.simps [of env _ t])
    obtain s' where "S (schema_name env (deref t)) = Some (AnyMap (struct_schema_of env kindResponse s'))"
      using known_struct [OF wf inv known] by blast
    then show ?thesis using m
      by (simp add: schema_at.simps TStruct conforms_null_choice [where S = S] struct_schema_of_def)
  qed (use m 5(1,2,3) in \<open>auto simp: schema_at.simps conforms.simps field_known.simps [of env _ t]\<close>)
next
  case (6 env' t v)
  then have "is_pointer t" "custom_schema env t = None" by simp_all
  with 6 show ?case using field_known_elem pointer_elem by simp
next
  case (7 env' t vs)
  then obtain e where e: "underlying t = TSlice e \<or> underlying t = TArray e" by (auto split: go_type.splits)
  then have t: "deref t = t" using underlying_not_pointer [of t] by auto
  have known: "field_known env (responses b) e" using e t 7(2,3,4) by (auto simp: field_known.simps [of env _ t])
  have elem: "elem_type (underlying t) = e" using e by auto
  obtain m where m: "n = Suc m" using fuel_le [OF 7(6)] by blast
  have "conforms S m (AnyMap (field_schema_of env e)) (encode env e v)" if "v \<in> set vs" for v
  proof -
    have ty: "has_type env e v" using 7(2,3) that elem by (simp add: list_all_iff)
    have "3 * size (encode env e v) + 3 \<le> m" using size_array [of "encode env e v" "map (encode env e) vs"] 7(6) that m elem by simp
    then show ?thesis using 7(1) [OF that] ty known 7(3) elem by (simp add: field_schema_at [OF has_type_plain [OF ty]])
  qed
  then show ?case using e by (auto simp: t m schema_at.simps conforms.simps type_matches_def list_all_iff)
next
  case (8 env' t kvs)
  then obtain k e where e: "underlying t = TMap k e" by (auto split: go_type.splits)
  then have t: "deref t = t" using underlying_not_pointer [of t] by auto
  have known: "field_known env (responses b) e" using e t 8(2,3,4) by (auto simp: field_known.simps [of env _ t])
  obtain m where m: "n = Suc m" using fuel_le [OF 8(6)] by blast
  have "conforms S m (AnyMap (field_schema_of env e)) (encode env e v)" if "(k', v) \<in> set kvs" for k' v
  proof -
    have ty: "has_type env e v" using 8(2,3) that e by (auto simp: list_all_iff)
    have "(k', encode env e v) \<in> set (map (\<lambda>(k, v). (k, encode env e v)) kvs)" using that by force
    from size_object [OF this] have "3 * size (encode env e v) + 3 \<le> m" using 8(6) m e by simp
    then show ?thesis using 8(1) [OF that refl] ty known 8(3) e by (simp add: field_schema_at [OF has_type_plain [OF ty]])
  qed
  then show ?case using e by (auto simp: t m schema_at.simps conforms.simps type_matches_def list_all_iff required_ok_def properties_of_def)
next
  case (9 env' t vs)
  then obtain s where s: "underlying t = TStruct s" by (auto split: go_type.splits)
  then have t: "deref t = t" using underlying_not_pointer [of t] by auto
  have known: "map_of (ge_schemaNames env) t \<noteq> None" "responses b (schema_name env t)"
    using 9(2,3,4) t s by (auto simp: field_known.simps [of env _ t])
  have "conforms S n (AnyMap (nullable_ref nullable (ref_to (schema_name env t)))) (JObject (encode_fields env (struct_of env t) vs))"
    using 9(1) 9(2,3,6) by (intro struct_conforms [OF known]) auto
  then show ?case by (simp add: t s schema_at.simps)
next
  case (12 env' g fs w vs)
  from 12(5) consider "f = g" "v' = w" | "(f, v') \<in> set (zip fs vs)" by auto
  then show ?case
  proof cases
    case 1
    then have ty: "has_type env (fl_Type f) v'" using 12(3,4,6) by simp
    have "conforms S n (AnyMap (schema_at env (is_pointer (fl_Type f)) (deref (fl_Type f)))) (encode env (fl_Type f) v')"
      using 12 ty 1 by auto
    then show ?thesis by (simp add: field_schema_at [OF has_type_plain [OF ty]])
  next
    case 2
    then show ?thesis using 12 by auto
  qed
qed auto

theorem encoded_conforms:
  assumes "has_type env t v" "field_known env (responses b) t"
  shows "schema_accepts S (AnyMap (field_schema_of env t)) (encode env t v)"
  using value_conforms(1) [OF assms(1) refl assms(2), of "is_pointer t"] by (simp add: schema_accepts_def field_schema_at [OF has_type_plain [OF assms(1)]])

end

end
