(* ===== verification/Schema_Tables.thy ===== *)
theory Schema_Tables
  imports Schema_Facts
begin

text \<open>
  Facts on a whole route table: what a rendered table satisfies (\<open>render_operations_Inr\<close>, \<open>render_operations_keys\<close>), that fuel never decides the
  outcome, and a condition under which a table is rendered (\<open>render_operations_good\<close>).
\<close>

section \<open>Requests and operations\<close>

lemma publish_request_sel [simp]:
  "map_of (sb_kinds (publish_request name t required schema b)) = (map_of (sb_kinds b))(name \<mapsto> kindRequest)"
  "map_of (sb_schemas (publish_request name t required schema b)) = (map_of (sb_schemas b))(name \<mapsto> AnyMap schema)"
  "map_of (sb_requestOrigin (publish_request name t required schema b)) = (map_of (sb_requestOrigin b))(name \<mapsto> (t, required))"
  by (simp_all add: publish_request_def publish_def update_conv')

lemma builder_inv_request:
  assumes "builder_inv env P b" "map_of (sb_kinds b) name \<noteq> Some kindResponse"
  shows "builder_inv env P (publish_request name t required schema b)" "extends b (publish_request name t required schema b)"
proof -
  have "map_of (sb_kinds b) name \<in> {None, Some kindRequest}"
    using assms(2) by (cases "map_of (sb_kinds b) name"; cases "the (map_of (sb_kinds b) name)") auto
  then show e: "extends b (publish_request name t required schema b)" by (auto simp: extends_def map_le_def)
  show "builder_inv env P (publish_request name t required schema b)"
    using assms(1) described_mono [OF _ e] by (auto simp: builder_inv_def)
qed

text \<open>The contract a request name was published with.\<close>

definition contract_in :: "schemaBuilder \<Rightarrow> apiOperation \<Rightarrow> bool" where
  "contract_in b op \<longleftrightarrow> (case op_Request op of
      None \<Rightarrow> op_RequiredFields op = [] \<and> op_RequestSchema op = []
    | Some t \<Rightarrow> op_RequestSchema op \<noteq> [] \<and> map_of (sb_kinds b) (op_RequestSchema op) = Some kindRequest \<and>
        (\<exists>required. map_of (sb_requestOrigin b) (op_RequestSchema op) = Some (t, required) \<and> sameStrings required (op_RequiredFields op)))"

definition origins_known :: "go_env \<Rightarrow> schemaBuilder \<Rightarrow> bool" where
  "origins_known env b \<longleftrightarrow> (\<forall>name t required. map_of (sb_requestOrigin b) name = Some (t, required) \<longrightarrow>
     map_of (sb_kinds b) name = Some kindRequest \<and>
     (\<exists>s. underlying t = TStruct s \<and> set required \<subseteq> json_name ` set (described_fields env s)))"

definition response_in :: "go_env \<Rightarrow> schemaBuilder \<Rightarrow> apiOperation \<Rightarrow> bool" where
  "response_in env b op \<longleftrightarrow> (case op_Response op of
      None \<Rightarrow> True
    | Some t \<Rightarrow> map_of (ge_schemaNames env) (deref t) = Some (schema_name env (deref t)) \<and>
        map_of (sb_kinds b) (schema_name env (deref t)) = Some kindResponse)"

lemma property_names: "fst ` set (fold (add_property env) fs props) = json_name ` set fs \<union> fst ` set props"
  by (induction fs arbitrary: props) (auto simp: add_property_def dom_update)

lemma sameStrings_refl [simp]: "sameStrings xs xs"
  by (auto simp: sameStrings_def list_all_iff)


lemma requestRef_Inr:
  assumes "requestRef env n name t required b = Inr (x, b')" "builder_inv env {} b" "origins_known env b"
  shows "builder_inv env {} b'" "extends b b'" "origins_known env b'" "name \<noteq> []" "map_of (sb_kinds b') name = Some kindRequest"
    "\<exists>required0. map_of (sb_requestOrigin b') name = Some (t, required0) \<and> sameStrings required0 required"
    "map_of (sb_requestOrigin b) \<subseteq>\<^sub>m map_of (sb_requestOrigin b')"
proof -
  show ne: "name \<noteq> []" using assms(1) by (auto simp: requestRef_def split: if_splits)
  have "builder_inv env {} b' \<and> extends b b' \<and> origins_known env b' \<and> map_of (sb_kinds b') name = Some kindRequest \<and>
    (\<exists>required0. map_of (sb_requestOrigin b') name = Some (t, required0) \<and> sameStrings required0 required) \<and>
    map_of (sb_requestOrigin b) \<subseteq>\<^sub>m map_of (sb_requestOrigin b')"
  proof (cases "map_of (sb_requestOrigin b) name")
    case (Some o')
    then have "b' = b" "fst o' = t" "sameStrings (snd o') required"
      using assms(1) ne by (auto simp: requestRef_def split: prod.splits if_splits)
    then show ?thesis using Some assms(2,3) by (cases o') (auto simp: origins_known_def)
  next
    case None
    from assms(1) ne None obtain schema b1 where step: "map_of (sb_kinds b) name \<noteq> Some kindResponse"
        "structSchema env n kindRequest t b = Inr (schema, b1)" "find (\<lambda>f. map_of (properties_of schema) f = None) required = None"
        "b' = publish_request name t required (if required \<noteq> [] then AList.update ''required'' (AnySlice (toAny (sort required))) schema else schema) b1"
      by (auto simp: requestRef_def split: if_splits sum.splits option.splits)
    from builder_refines(3) [OF assms(2) step(2)] obtain s where s: "builder_inv env {} b1" "extends b b1" "underlying t = TStruct s"
      "schema = struct_schema_of env kindRequest s" by auto
    note adds = builder_adds(3) [OF step(2)]
    have free: "map_of (sb_kinds b1) name \<noteq> Some kindResponse" using adds step(1) unfolding adds_kind_def
      by (metis insertE option.inject schemaKind.distinct(1) singletonD)
    note req = builder_inv_request [OF s(1) free]
    have props: "properties_of schema = fold (add_property env) (described_fields env s) []"
      by (simp add: s(4) struct_schema_of_def object_schema_def properties_of_def)
    have fields: "set required \<subseteq> json_name ` set (described_fields env s)"
      using find_NoneD [OF step(3)] property_names [of env "described_fields env s" "[]"] by (auto simp: props map_of_eq_None_iff)
    have "origins_known env b'"
      using assms(3) adds s(2,3) fields unfolding step(4)
      by (auto simp: origins_known_def adds_kind_def extends_def) (metis map_le_Some)
    moreover have "map_of (sb_requestOrigin b) \<subseteq>\<^sub>m map_of (sb_requestOrigin b')"
      using adds None by (auto simp: step(4) adds_kind_def map_le_def)
    ultimately show ?thesis using req extends_trans [OF s(2) req(2)] unfolding step(4) by auto
  qed
  then show "builder_inv env {} b'" "extends b b'" "origins_known env b'" "map_of (sb_kinds b') name = Some kindRequest"
    "\<exists>required0. map_of (sb_requestOrigin b') name = Some (t, required0) \<and> sameStrings required0 required"
    "map_of (sb_requestOrigin b) \<subseteq>\<^sub>m map_of (sb_requestOrigin b')" by blast+
qed


text \<open>After a run on a table, every operation of it is in the builder.\<close>

definition table_inv :: "go_env \<Rightarrow> apiOperation list \<Rightarrow> schemaBuilder \<Rightarrow> bool" where
  "table_inv env ops b \<longleftrightarrow> builder_inv env {} b \<and> origins_known env b \<and> (\<forall>op \<in> set ops. contract_in b op \<and> response_in env b op)"

definition grows :: "schemaBuilder \<Rightarrow> schemaBuilder \<Rightarrow> bool" where
  "grows b b' \<longleftrightarrow> extends b b' \<and> map_of (sb_requestOrigin b) \<subseteq>\<^sub>m map_of (sb_requestOrigin b')"

lemma in_grown: "grows b b' \<Longrightarrow> contract_in b op \<Longrightarrow> contract_in b' op" "grows b b' \<Longrightarrow> response_in env b op \<Longrightarrow> response_in env b' op"
  by (auto simp: grows_def contract_in_def response_in_def extends_def split: option.splits dest: map_le_Some)

lemma origins_known_mono:
  "origins_known env b \<Longrightarrow> extends b b' \<Longrightarrow> sb_requestOrigin b' = sb_requestOrigin b \<Longrightarrow> origins_known env b'"
  unfolding origins_known_def extends_def by (metis map_le_Some)

lemma operation_Inr:
  assumes "operation env n op b = Inr (x, b')" "builder_inv env {} b" "origins_known env b"
  shows "builder_inv env {} b' \<and> origins_known env b' \<and> grows b b' \<and> contract_in b' op \<and> response_in env b' op"
proof -
  from assms(1) obtain body b1 success where req: "request_body env n op b = Inr (body, b1)" and res: "response_body env n op b1 = Inr (success, b')"
    by (auto simp: operation_def)
  have 1: "builder_inv env {} b1 \<and> origins_known env b1 \<and> grows b b1 \<and> contract_in b1 op"
  proof (cases "op_Request op")
    case None
    then show ?thesis using req assms(2,3) by (auto simp: request_body_def contract_in_def grows_def split: if_splits)
  next
    case (Some t)
    with req obtain x where "requestRef env n (op_RequestSchema op) t (op_RequiredFields op) b = Inr (x, b1)" by (auto simp: request_body_def)
    from requestRef_Inr [OF this assms(2,3)] show ?thesis using Some by (simp add: contract_in_def grows_def)
  qed
  have 2: "builder_inv env {} b' \<and> origins_known env b' \<and> grows b1 b' \<and> response_in env b' op"
  proof (cases "op_Response op")
    case None
    then show ?thesis using res 1 by (auto simp: response_body_def response_in_def grows_def)
  next
    case (Some t)
    with res obtain x where x: "ref env n kindResponse t b1 = Inr (x, b')" by (auto simp: response_body_def)
    have "sb_requestOrigin b' = sb_requestOrigin b1" using builder_adds(2) [OF x] by (simp add: adds_kind_def)
    then show ?thesis using builder_refines(2) [OF _ x] 1 Some origins_known_mono [of env b1 b']
      by (auto simp: response_in_def grows_def)
  qed
  show ?thesis using 1 2 in_grown(1) by (auto simp: grows_def extends_def intro: map_le_trans)
qed

lemma render_operations_Inr:
  assumes "render_operations env n ops paths b = Inr (paths', b')" "table_inv env done' b"
  shows "table_inv env (ops @ done') b' \<and> grows b b'"
  using assms
proof (induction ops arbitrary: paths b done')
  case (Cons op ops)
  from Cons.prems(1) obtain x b1 p1 where one: "operation env n op b = Inr (x, b1)" and rest: "render_operations env n ops p1 b1 = Inr (paths', b')"
    by (auto simp: Let_def split: if_splits)
  from operation_Inr [OF one] Cons.prems(2) have step: "table_inv env (op # done') b1" "grows b b1"
    using in_grown unfolding table_inv_def by auto
  from Cons.IH [OF rest step(1)] step(2) show ?case
    by (auto simp: table_inv_def grows_def extends_def intro: map_le_trans)
qed (simp add: grows_def)

text \<open>The paths, and that no method of a path is rendered twice.\<close>

definition operation_key :: "apiOperation \<Rightarrow> string \<times> string" where
  "operation_key op = (op_Path op, map ascii_lower (op_Method op))"

definition rendered_keys :: "(string \<times> any_map) list \<Rightarrow> (string \<times> string) set" where
  "rendered_keys paths = {(p, m). map_of (path_item paths p) m \<noteq> None}"

lemma rendered_keys_update:
  "rendered_keys (AList.update p (AList.update m x (path_item paths p)) paths) = insert (p, m) (rendered_keys paths)"
  by (auto simp: rendered_keys_def path_item_def update_conv' split: option.splits if_splits)

lemma render_operations_keys:
  assumes "render_operations env n ops paths b = Inr (paths', b')"
  shows "distinct (map operation_key ops) \<and> operation_key ` set ops \<inter> rendered_keys paths = {} \<and>
    rendered_keys paths' = rendered_keys paths \<union> operation_key ` set ops"
  using assms
proof (induction ops arbitrary: paths b)
  case (Cons op ops)
  let ?m = "map ascii_lower (op_Method op)" and ?item = "path_item paths (op_Path op)"
  from Cons.prems obtain x b1 where free: "map_of ?item ?m = None"
    and rest: "render_operations env n ops (AList.update (op_Path op) (AList.update ?m x ?item) paths) b1 = Inr (paths', b')"
    by (auto simp: Let_def split: if_splits)
  have key: "operation_key op = (op_Path op, ?m)" "(op_Path op, ?m) \<notin> rendered_keys paths"
    using free by (simp_all add: operation_key_def rendered_keys_def)
  from Cons.IH [OF rest] show ?case unfolding rendered_keys_update by (auto simp: key)
qed simp

section \<open>Fuel for a table\<close>

lemma fed_and_then:
  assumes "fed env b r" "\<And>x b'. r = Inr (x, b') \<Longrightarrow> free_names env b' \<subseteq> free_names env b \<Longrightarrow> fed env b' (f x b')"
  shows "fed env b (and_then r (\<lambda>(x, b'). f x b'))"
  using assms by (cases r) (auto elim: fed_trans [rotated])

lemma requestRef_fed: "card (free_names env b) \<le> n \<Longrightarrow> fed env b (requestRef env n name t required b)"
proof -
  assume n: "card (free_names env b) \<le> n"
  have "fed env b (structSchema env n kindRequest t b)" using builder_fed(3) [OF n] .
  moreover have "free_names env (publish_request name t required schema b') \<subseteq> free_names env b'" for schema b'
    by (auto simp: free_names_def)
  ultimately show ?thesis
    by (auto simp: requestRef_def split: option.splits sum.splits) blast+
qed

lemma operation_fed: "card (free_names env b) \<le> n \<Longrightarrow> fed env b (operation env n op b)"
  unfolding operation_def request_body_def response_body_def
  by (intro fed_and_then)
    (auto intro!: fed_and_then requestRef_fed builder_fed(2) dest: fed_card split: option.splits)

lemma render_operations_fed: "card (free_names env b) \<le> n \<Longrightarrow> fed env b (render_operations env n ops paths b)"
proof (induction ops arbitrary: paths b)
  case (Cons op ops)
  have "fed env b (map_err (InOperation (op_Method op) (op_Path op)) (operation env n op b))"
    using operation_fed [OF Cons.prems, of op] by (cases "operation env n op b") (auto simp: fed_def)
  then show ?case
    unfolding render_operations.simps using Cons.IH Cons.prems
    by (intro fed_and_then) (auto simp: Let_def intro: fed_card)
qed simp


lemma and_then_unstarved: "unstarved (and_then r f) \<Longrightarrow> unstarved r"
  by (cases r) auto

lemma requestRef_more_fuel:
  assumes "unstarved (requestRef env n name t required b)" "n \<le> m"
  shows "requestRef env m name t required b = requestRef env n name t required b"
  using assms more_fuel(3) [OF _ assms(2), of env kindRequest t b]
  by (cases "structSchema env n kindRequest t b") (auto simp: requestRef_def split: option.splits)

lemma request_body_more_fuel:
  assumes "unstarved (request_body env n op b)" "n \<le> m"
  shows "request_body env m op b = request_body env n op b"
  using assms requestRef_more_fuel [OF _ assms(2)] by (auto simp: request_body_def dest!: and_then_unstarved split: option.splits)

lemma response_body_more_fuel:
  assumes "unstarved (response_body env n op b)" "n \<le> m"
  shows "response_body env m op b = response_body env n op b"
  using assms more_fuel(2) [OF _ assms(2)] by (auto simp: response_body_def dest!: and_then_unstarved split: option.splits)

lemma operation_more_fuel:
  assumes "unstarved (operation env n op b)" "n \<le> m"
  shows "operation env m op b = operation env n op b"
proof -
  have req: "request_body env m op b = request_body env n op b"
    using request_body_more_fuel [OF _ assms(2)] assms(1) by (auto simp: operation_def dest: and_then_unstarved)
  show ?thesis
  proof (cases "request_body env n op b")
    case (Inr r)
    obtain body b1 where r: "r = (body, b1)" by fastforce
    have "unstarved (response_body env n op b1)" using assms(1) Inr r by (auto simp: operation_def dest: and_then_unstarved)
    then show ?thesis using response_body_more_fuel [OF _ assms(2)] by (simp add: operation_def req Inr r)
  qed (simp add: operation_def req)
qed

lemma render_operations_more_fuel:
  assumes "unstarved (render_operations env n ops paths b)" "n \<le> m"
  shows "render_operations env m ops paths b = render_operations env n ops paths b"
  using assms(1)
proof (induction ops arbitrary: paths b)
  case (Cons op ops)
  have "unstarved (operation env n op b)" using Cons.prems by (cases "operation env n op b") auto
  then have one: "operation env m op b = operation env n op b" using operation_more_fuel assms(2) by blast
  show ?case
  proof (cases "operation env n op b")
    case (Inr r)
    then show ?thesis using Cons one by (cases r) (auto simp: Let_def)
  qed (simp add: one)
qed simp

section \<open>What a rendered table shows\<close>

definition success_schema :: "go_env \<Rightarrow> apiOperation \<Rightarrow> any_map option" where
  "success_schema env op = map_option (\<lambda>t. ref_to (schema_name env (deref t))) (op_Response op)"

lemma operation_shows:
  assumes "operation env n op b = Inr (x, b')" "builder_inv env {} b" "origins_known env b"
  obtains body where "x = AnyMap (operation_object op body (success_schema env op))" "map_of body ''responses'' = None"
proof -
  from assms(1) obtain body b1 success where req: "request_body env n op b = Inr (body, b1)" and res: "response_body env n op b1 = Inr (success, b')"
    and x: "x = AnyMap (operation_object op body success)"
    by (auto simp: operation_def)
  have "builder_inv env {} b1"
    using req requestRef_Inr(1) assms(2,3) by (fastforce simp: request_body_def split: option.splits if_splits)
  then have "success = success_schema env op"
    using res builder_refines(2) by (fastforce simp: response_body_def success_schema_def split: option.splits)
  moreover have "map_of body ''responses'' = None"
    using req by (auto simp: request_body_def split: option.splits if_splits)
  ultimately show thesis using that x by blast
qed

definition shown :: "go_env \<Rightarrow> (string \<times> any_map) list \<Rightarrow> apiOperation \<Rightarrow> bool" where
  "shown env paths op \<longleftrightarrow> (\<exists>body. map_of (path_item paths (op_Path op)) (map ascii_lower (op_Method op)) =
     Some (AnyMap (operation_object op body (success_schema env op))) \<and> map_of body ''responses'' = None)"

lemma shown_update:
  assumes "map_of (path_item paths p) m = None" "shown env paths op"
  shows "shown env (AList.update p (AList.update m x (path_item paths p)) paths) op"
  using assms by (auto simp: shown_def path_item_def update_conv' split: option.splits if_splits)

lemma render_operations_shows:
  assumes "render_operations env n ops paths b = Inr (paths', b')" "table_inv env done' b" "\<forall>op \<in> set done'. shown env paths op"
  shows "\<forall>op \<in> set (ops @ done'). shown env paths' op"
  using assms
proof (induction ops arbitrary: paths b done')
  case (Cons op ops)
  let ?m = "map ascii_lower (op_Method op)" and ?item = "path_item paths (op_Path op)"
  from Cons.prems(1) obtain x b1 where free: "map_of ?item ?m = None" and one: "operation env n op b = Inr (x, b1)"
    and rest: "render_operations env n ops (AList.update (op_Path op) (AList.update ?m x ?item) paths) b1 = Inr (paths', b')"
    by (auto simp: Let_def split: if_splits)
  have inv: "builder_inv env {} b" "origins_known env b" using Cons.prems(2) by (simp_all add: table_inv_def)
  from operation_Inr [OF one inv] Cons.prems(2) have step: "table_inv env (op # done') b1"
    using in_grown unfolding table_inv_def by auto
  obtain body where "x = AnyMap (operation_object op body (success_schema env op))" "map_of body ''responses'' = None"
    using operation_shows [OF one inv] by blast
  then have "shown env (AList.update (op_Path op) (AList.update ?m x ?item) paths) op"
    by (auto simp: shown_def path_item_def update_conv')
  then have "\<forall>o' \<in> set (op # done'). shown env (AList.update (op_Path op) (AList.update ?m x ?item) paths) o'"
    using Cons.prems(3) shown_update [OF free] by simp
  from Cons.IH [OF rest step this] show ?case by auto
qed simp

section \<open>Tables that are rendered\<close>

text \<open>
  A division of the names into those of responses and those of requests is respected when no struct refers to one of the other side. With one, a table
  whose operations keep to it is rendered: the generator has no further reason to fail.
\<close>

definition divided :: "go_env \<Rightarrow> (string \<Rightarrow> schemaKind) \<Rightarrow> bool" where
  "divided env L \<longleftrightarrow> list_all (\<lambda>(t, name). case underlying t of
      TStruct s \<Rightarrow> list_all (\<lambda>f. field_known env (\<lambda>n. L n = L name) (fl_Type f)) (described_fields env s)
    | _ \<Rightarrow> False) (ge_schemaNames env)"

definition agrees :: "(string \<Rightarrow> schemaKind) \<Rightarrow> schemaBuilder \<Rightarrow> bool" where
  "agrees L b \<longleftrightarrow> (\<forall>name kind. map_of (sb_kinds b) name = Some kind \<longrightarrow> L name = kind)"

definition fine :: "(string \<Rightarrow> schemaKind) \<Rightarrow> (openapi_error, 'a \<times> schemaBuilder) result \<Rightarrow> bool" where
  "fine L r \<longleftrightarrow> (case r of Inl e \<Rightarrow> starved e | Inr (_, b') \<Rightarrow> agrees L b')"

lemma fine_simps [simp]: "fine L (Inl e) \<longleftrightarrow> starved e" "fine L (Inr (x, b')) \<longleftrightarrow> agrees L b'"
  by (simp_all add: fine_def)

lemma divided_struct:
  assumes "divided env L" "map_of (ge_schemaNames env) t = Some name"
  obtains s where "underlying t = TStruct s" "\<forall>f \<in> set (described_fields env s). field_known env (\<lambda>n. L n = L name) (fl_Type f)"
proof -
  have "case underlying t of TStruct s \<Rightarrow> list_all (\<lambda>f. field_known env (\<lambda>n. L n = L name) (fl_Type f)) (described_fields env s) | _ \<Rightarrow> False"
    using assms(1) map_of_SomeD [OF assms(2)] by (fastforce simp: divided_def list_all_iff)
  then show thesis using that by (cases "underlying t") (auto simp: list_all_iff)
qed

lemma agrees_reserve: "agrees L b \<Longrightarrow> L name = kind \<Longrightarrow> agrees L (reserve name kind b)"
  by (simp add: agrees_def)

lemma agrees_publish [simp]: "agrees L (publish name schema b) = agrees L b"
  by (simp add: agrees_def)

lemma builder_succeeds:
  "divided env L \<Longrightarrow> agrees L b \<Longrightarrow> field_known env (\<lambda>n. L n = kind) t \<Longrightarrow> fine L (fieldSchema env n kind t b)"
  "divided env L \<Longrightarrow> agrees L b \<Longrightarrow> map_of (ge_schemaNames env) (deref t) = Some name \<Longrightarrow> L name = kind \<Longrightarrow> fine L (ref env n kind t b)"
  "divided env L \<Longrightarrow> agrees L b \<Longrightarrow> underlying t = TStruct s \<Longrightarrow>
     \<forall>f \<in> set (described_fields env s). field_known env (\<lambda>n. L n = kind) (fl_Type f) \<Longrightarrow> fine L (structSchema env n kind t b)"
  "divided env L \<Longrightarrow> agrees L b \<Longrightarrow> \<forall>f \<in> set (filter encoded_field fs). field_known env (\<lambda>n. L n = kind) (fl_Type f) \<Longrightarrow>
     fine L (fieldSchemas env n kind s' fs props required b)"
proof (induction env n kind t b and env n kind t b and env n kind t b and env n kind s' fs props required b
    arbitrary: and name and s rule: builder_induct)
  case (1 env n kind t b)
  show ?case
  proof (cases "custom_schema env t")
    case (Some m)
    then show ?thesis using 1(6) by (auto simp: fieldSchema.simps custom_schema_def split: option.splits)
  next
    case None
    then have none: "map_of (ge_customSchemas env) t = None" "map_of (ge_customSchemas env) (deref t) = None"
      by (auto simp: custom_schema_def split: option.splits)
    note unfold = fieldSchema.simps [of env n kind t b] field_known.simps [of env _ t]
    show ?thesis
    proof (cases "underlying (deref t)")
      case (TSlice e)
      then show ?thesis using 1(1) [OF none TSlice 1(5,6)] 1(7) by (auto simp: unfold none None split: sum.splits)
    next
      case (TArray e)
      then show ?thesis using 1(2) [OF none TArray 1(5,6)] 1(7) by (auto simp: unfold none None split: sum.splits)
    next
      case (TMap k e)
      then show ?thesis using 1(3) [OF none TMap _ 1(5,6)] 1(7) by (auto simp: unfold none None split: sum.splits)
    next
      case (TStruct s)
      then obtain name where name: "map_of (ge_schemaNames env) (deref t) = Some name" "L name = kind"
        using 1(7) by (auto simp: unfold None schema_name_def)
      show ?thesis using 1(4) [OF none TStruct 1(5,6), of name] name by (auto simp: unfold none None TStruct split: sum.splits)
    qed (use 1(5,6,7) in \<open>auto simp: unfold none None\<close>)
  qed
next
  case (2 env n kind t b)
  obtain s where s: "underlying (deref t) = TStruct s" "\<forall>f \<in> set (described_fields env s). field_known env (\<lambda>n. L n = kind) (fl_Type f)"
    using divided_struct [OF 2(2,4)] 2(5) by metis
  show ?case
  proof (cases "map_of (sb_kinds b) name")
    case (Some prior)
    then show ?thesis using 2(3,4,5) by (simp add: ref.simps agrees_def)
  next
    case None
    note step = 2(1) [OF 2(4) None _ 2(2) agrees_reserve [OF 2(3,5)] s]
    show ?thesis using step by (cases n) (auto simp: ref.simps 2(4) None fine_def split: sum.splits)
  qed
next
  case (3 env n kind t b)
  then show ?case
    by (auto simp: structSchema.simps [of env n kind t b] described_fields_def fine_def split: sum.splits)
next
  case (5 env n kind s f fs props required b)
  show ?case
  proof (cases "\<not> encoded_field f")
    case True
    then show ?thesis using 5(1) [OF True 5(4,5)] 5(6) by (simp add: fieldSchemas.simps)
  next
    case False
    have one: "fine L (fieldSchema env n kind (fl_Type f) b)" using 5(2) [OF False 5(4,5)] 5(6) False by simp
    show ?thesis
    proof (cases "fieldSchema env n kind (fl_Type f) b")
      case (Inl e)
      then show ?thesis using one False by (simp add: fieldSchemas.simps)
    next
      case (Inr r)
      obtain schema b' where r: "r = (schema, b')" by fastforce
      have "agrees L b'" using one Inr r by simp
      from 5(3) [OF False Inr r [symmetric] 5(4) this] 5(6) show ?thesis using False Inr r by (simp add: fieldSchemas.simps split: if_splits)
    qed
  qed
qed auto


type_synonym contracts = "string \<Rightarrow> (go_type \<times> string list) option"

definition request_fits :: "go_env \<Rightarrow> (string \<Rightarrow> schemaKind) \<Rightarrow> contracts \<Rightarrow> apiOperation \<Rightarrow> bool" where
  "request_fits env L C op \<longleftrightarrow> (case op_Request op of
      None \<Rightarrow> op_RequiredFields op = [] \<and> op_RequestSchema op = []
    | Some t \<Rightarrow> op_RequestSchema op \<noteq> [] \<and> L (op_RequestSchema op) = kindRequest \<and> C (op_RequestSchema op) = Some (t, op_RequiredFields op) \<and>
        (case underlying t of
           TStruct s \<Rightarrow> list_all (\<lambda>f. field_known env (\<lambda>n. L n = kindRequest) (fl_Type f)) (described_fields env s) \<and>
             list_all (\<lambda>r. r \<in> set (map json_name (described_fields env s))) (op_RequiredFields op)
         | _ \<Rightarrow> False))"

definition response_fits :: "go_env \<Rightarrow> (string \<Rightarrow> schemaKind) \<Rightarrow> apiOperation \<Rightarrow> bool" where
  "response_fits env L op \<longleftrightarrow> (case op_Response op of
      None \<Rightarrow> True
    | Some t \<Rightarrow> (case map_of (ge_schemaNames env) (deref t) of Some name \<Rightarrow> L name = kindResponse | None \<Rightarrow> False))"

definition keeps_contracts :: "contracts \<Rightarrow> schemaBuilder \<Rightarrow> bool" where
  "keeps_contracts C b \<longleftrightarrow> map_of (sb_requestOrigin b) \<subseteq>\<^sub>m C"

definition fits_so_far :: "(string \<Rightarrow> schemaKind) \<Rightarrow> contracts \<Rightarrow> schemaBuilder \<Rightarrow> bool" where
  "fits_so_far L C b \<longleftrightarrow> agrees L b \<and> keeps_contracts C b"

definition good_run :: "(string \<Rightarrow> schemaKind) \<Rightarrow> contracts \<Rightarrow> (openapi_error, 'a \<times> schemaBuilder) result \<Rightarrow> bool" where
  "good_run L C r \<longleftrightarrow> (case r of Inl e \<Rightarrow> starved e | Inr (_, b') \<Rightarrow> fits_so_far L C b')"

lemma good_run_simps [simp]: "good_run L C (Inl e) \<longleftrightarrow> starved e" "good_run L C (Inr (x, b')) \<longleftrightarrow> fits_so_far L C b'"
  by (simp_all add: good_run_def)

lemma good_run_and_then:
  assumes "good_run L C r" "\<And>x b'. r = Inr (x, b') \<Longrightarrow> fits_so_far L C b' \<Longrightarrow> good_run L C (f x b')"
  shows "good_run L C (and_then r (\<lambda>(x, b'). f x b'))"
  using assms by (cases r) auto

lemma request_body_good:
  assumes "divided env L" "request_fits env L C op" "fits_so_far L C b"
  shows "good_run L C (request_body env n op b)"
proof (cases "op_Request op")
  case None
  then show ?thesis using assms(2,3) by (simp add: request_body_def request_fits_def)
next
  case (Some t)
  let ?name = "op_RequestSchema op" and ?required = "op_RequiredFields op"
  from assms(2) Some obtain s where s: "underlying t = TStruct s" "?name \<noteq> []" "L ?name = kindRequest" "C ?name = Some (t, ?required)"
    "\<forall>f \<in> set (described_fields env s). field_known env (\<lambda>n. L n = kindRequest) (fl_Type f)" "set ?required \<subseteq> json_name ` set (described_fields env s)"
    by (cases "underlying t") (auto simp: request_fits_def list_all_iff)
  have "good_run L C (requestRef env n ?name t ?required b)"
  proof (cases "map_of (sb_requestOrigin b) ?name")
    case (Some o')
    then have "o' = (t, ?required)" using assms(3) s(4) by (auto simp: fits_so_far_def keeps_contracts_def dest: map_le_Some)
    then show ?thesis using Some s(2) assms(3) by (simp add: requestRef_def)
  next
    case None
    have not: "map_of (sb_kinds b) ?name \<noteq> Some kindResponse" using assms(3) s(3) by (auto simp: fits_so_far_def agrees_def)
    have run: "fine L (structSchema env n kindRequest t b)"
      using assms(1,3) s(1,5) by (intro builder_succeeds(3)) (simp_all add: fits_so_far_def)
    show ?thesis
    proof (cases "structSchema env n kindRequest t b")
      case (Inl e)
      then show ?thesis using run None not s(2) by (simp add: requestRef_def)
    next
      case (Inr r)
      obtain schema b1 where r: "r = (schema, b1)" by fastforce
      have schema: "fst ` set (properties_of schema) = json_name ` set (described_fields env s)"
        using Inr s(1) property_names [of env "described_fields env s" "[]"] builder_refines(3) [of env UNIV b n kindRequest t schema b1] r
        by (auto simp: builder_inv_def struct_schema_of_def object_schema_def properties_of_def)
      have "find (\<lambda>f. map_of (properties_of schema) f = None) ?required = None"
        using s(6) schema by (auto simp: find_None_iff map_of_eq_None_iff)
      moreover have "sb_requestOrigin b1 = sb_requestOrigin b" using builder_adds(3) Inr r by (auto simp: adds_kind_def)
      ultimately show ?thesis
        using run Inr r None not s(2,3,4) assms(3)
        by (auto simp: requestRef_def fits_so_far_def agrees_def keeps_contracts_def map_le_def)
    qed
  qed
  then show ?thesis unfolding request_body_def Some by (auto intro!: good_run_and_then)
qed

lemma response_body_good:
  assumes "divided env L" "response_fits env L op" "fits_so_far L C b"
  shows "good_run L C (response_body env n op b)"
proof (cases "op_Response op")
  case (Some t)
  then obtain name where name: "map_of (ge_schemaNames env) (deref t) = Some name" "L name = kindResponse"
    using assms(2) by (auto simp: response_fits_def split: option.splits)
  have "fine L (ref env n kindResponse t b)" using assms(1,3) name by (intro builder_succeeds(2)) (simp_all add: fits_so_far_def)
  moreover have "sb_requestOrigin b' = sb_requestOrigin b" if "ref env n kindResponse t b = Inr (x, b')" for x b'
    using builder_adds(2) [OF that] by (simp add: adds_kind_def)
  ultimately have "good_run L C (ref env n kindResponse t b)"
    using assms(3) by (cases "ref env n kindResponse t b") (auto simp: fits_so_far_def keeps_contracts_def)
  then show ?thesis unfolding response_body_def Some by (auto intro!: good_run_and_then)
qed (use assms in \<open>simp add: response_body_def\<close>)

lemma render_operations_good:
  assumes "divided env L" "\<forall>op \<in> set ops. request_fits env L C op \<and> response_fits env L op"
    "distinct (map operation_key ops)" "operation_key ` set ops \<inter> rendered_keys paths = {}" "fits_so_far L C b"
  shows "good_run L C (render_operations env n ops paths b)"
  using assms(2-)
proof (induction ops arbitrary: paths b)
  case (Cons op ops)
  let ?m = "map ascii_lower (op_Method op)"
  have "good_run L C (operation env n op b)" unfolding operation_def
    using Cons.prems by (auto intro!: good_run_and_then request_body_good response_body_good assms(1))
  then have run: "good_run L C (map_err (InOperation (op_Method op) (op_Path op)) (operation env n op b))"
    by (cases "operation env n op b") auto
  have free: "map_of (path_item paths (op_Path op)) ?m = None"
    using Cons.prems(3) by (auto simp: operation_key_def rendered_keys_def)
  have keys: "operation_key ` set ops \<inter> insert (op_Path op, ?m) (rendered_keys paths) = {}"
    using Cons.prems(2,3) by (auto simp: operation_key_def)
  have rest: "good_run L C (render_operations env n ops (AList.update (op_Path op) (AList.update ?m x (path_item paths (op_Path op))) paths) b')"
    if "fits_so_far L C b'" for x b'
    by (rule Cons.IH) (use Cons.prems(1,2) keys that in \<open>simp_all add: rendered_keys_update\<close>)
  show ?case
    unfolding render_operations.simps by (intro good_run_and_then [OF run]) (simp add: free rest)
qed simp

section \<open>Tables that are refused\<close>

text \<open>What the comments of the generator ask of a table.\<close>

definition well_declared :: "go_env \<Rightarrow> apiOperation \<Rightarrow> bool" where
  "well_declared env op \<longleftrightarrow>
     (case op_Request op of
        None \<Rightarrow> op_RequiredFields op = [] \<and> op_RequestSchema op = []
      | Some t \<Rightarrow> op_RequestSchema op \<noteq> [] \<and>
          (case underlying t of TStruct s \<Rightarrow> set (op_RequiredFields op) \<subseteq> json_name ` set (described_fields env s) | _ \<Rightarrow> False)) \<and>
     (case op_Response op of None \<Rightarrow> True | Some t \<Rightarrow> map_of (ge_schemaNames env) (deref t) \<noteq> None)"

definition same_contract :: "apiOperation \<Rightarrow> apiOperation \<Rightarrow> bool" where
  "same_contract op op' \<longleftrightarrow> op_Request op = op_Request op' \<and> length (op_RequiredFields op) = length (op_RequiredFields op') \<and>
     (distinct (op_RequiredFields op) \<and> distinct (op_RequiredFields op') \<longrightarrow> set (op_RequiredFields op) = set (op_RequiredFields op'))"

definition compatible :: "go_env \<Rightarrow> apiOperation \<Rightarrow> apiOperation \<Rightarrow> bool" where
  "compatible env op op' \<longleftrightarrow> op_Request op \<noteq> None \<longrightarrow>
     (op_Request op' \<noteq> None \<and> op_RequestSchema op = op_RequestSchema op' \<longrightarrow> same_contract op op') \<and>
     (case op_Response op' of None \<Rightarrow> True | Some t \<Rightarrow> op_RequestSchema op \<noteq> schema_name env (deref t))"

definition consistent_table :: "go_env \<Rightarrow> apiOperation list \<Rightarrow> bool" where
  "consistent_table env ops \<longleftrightarrow> distinct (map operation_key ops) \<and> (\<forall>op \<in> set ops. well_declared env op) \<and>
     (\<forall>op \<in> set ops. \<forall>op' \<in> set ops. compatible env op op')"

lemma sameStrings_distinct:
  assumes "sameStrings xs ys" "distinct ys"
  shows "set ys = set xs"
proof -
  have "card (set ys) = length xs" using assms by (simp add: sameStrings_def distinct_card)
  then have "card (set xs) \<le> card (set ys)" using card_length [of xs] by simp
  then show ?thesis using assms(1) card_seteq [of "set xs" "set ys"] by (auto simp: sameStrings_def list_all_iff)
qed

lemma rendered_well_declared:
  assumes "table_inv env ops b" "op \<in> set ops"
  shows "well_declared env op"
proof -
  have c: "contract_in b op" and r: "response_in env b op" and o: "origins_known env b" using assms by (auto simp: table_inv_def)
  have "case op_Request op of
        None \<Rightarrow> op_RequiredFields op = [] \<and> op_RequestSchema op = []
      | Some t \<Rightarrow> op_RequestSchema op \<noteq> [] \<and>
          (case underlying t of TStruct s \<Rightarrow> set (op_RequiredFields op) \<subseteq> json_name ` set (described_fields env s) | _ \<Rightarrow> False)"
  proof (cases "op_Request op")
    case (Some t)
    from c Some obtain required where req: "op_RequestSchema op \<noteq> []" "map_of (sb_requestOrigin b) (op_RequestSchema op) = Some (t, required)"
      "sameStrings required (op_RequiredFields op)" by (auto simp: contract_in_def)
    from o req(2) obtain s where "underlying t = TStruct s" "set required \<subseteq> json_name ` set (described_fields env s)"
      unfolding origins_known_def by blast
    then show ?thesis using req(1,3) Some by (auto simp: sameStrings_def list_all_iff)
  qed (use c in \<open>simp add: contract_in_def\<close>)
  then show ?thesis using r by (simp add: well_declared_def response_in_def split: option.splits)
qed

lemma rendered_compatible:
  assumes "table_inv env ops b" "op \<in> set ops" "op' \<in> set ops"
  shows "compatible env op op'"
proof (cases "op_Request op")
  case (Some t)
  have c: "contract_in b op" "contract_in b op'" and r: "response_in env b op'" using assms by (auto simp: table_inv_def)
  from c(1) Some obtain required where req: "map_of (sb_kinds b) (op_RequestSchema op) = Some kindRequest"
    "map_of (sb_requestOrigin b) (op_RequestSchema op) = Some (t, required)" "sameStrings required (op_RequiredFields op)"
    by (auto simp: contract_in_def)
  have "same_contract op op'" if "op_Request op' \<noteq> None" "op_RequestSchema op = op_RequestSchema op'"
  proof -
    from that c(2) req(2) have req': "op_Request op' = Some t" "sameStrings required (op_RequiredFields op')" by (auto simp: contract_in_def)
    moreover have "length (op_RequiredFields op) = length (op_RequiredFields op')" using req(3) req'(2) by (simp add: sameStrings_def)
    ultimately show ?thesis using Some sameStrings_distinct [OF req(3)] sameStrings_distinct [OF req'(2)] by (simp add: same_contract_def)
  qed
  then show ?thesis using req(1) r Some by (auto simp: compatible_def response_in_def split: option.splits)
qed (simp add: compatible_def)

lemma rendered_consistent:
  assumes "render_operations env n ops [] empty_builder = Inr r"
  shows "consistent_table env ops"
proof -
  obtain paths b where r: "r = (paths, b)" by fastforce
  have "table_inv env [] empty_builder" by (simp add: table_inv_def builder_inv_def origins_known_def empty_builder_def)
  from render_operations_Inr [OF assms [unfolded r] this] have inv: "table_inv env ops b" by simp
  show ?thesis
    using render_operations_keys [OF assms [unfolded r]] rendered_well_declared [OF inv] rendered_compatible [OF inv] by (simp add: consistent_table_def)
qed


text \<open>A type that refers to itself, and two operations that share a route.\<close>

definition tree_types :: go_env where
  "tree_types = \<lparr>ge_fields = (\<lambda>_. [\<lparr>fl_Name = ''Name'', fl_Exported = True, fl_Tag = ''name'', fl_Type = TString\<rparr>,
       \<lparr>fl_Name = ''Children'', fl_Exported = True, fl_Tag = ''children,omitempty'', fl_Type = TSlice (TStruct ''node'')\<rparr>]),
     ge_schemaNames = [(TStruct ''node'', ''Node'')], ge_customSchemas = []\<rparr>"

definition get_tree :: apiOperation where
  "get_tree = \<lparr>op_Method = ''GET'', op_Path = ''/tree'', op_ID = ''getTree'', op_Summary = [], op_Notes = [], op_Params = [], op_Request = None,
     op_RequestSchema = [], op_RequiredFields = [], op_Response = Some (TStruct ''node''), op_Status = 200, op_Write = False, op_Errors = []\<rparr>"




end
