(* ===== verification/Api_Contract.thy ===== *)
theory Api_Contract
  imports Admin_Facts Open_Api Json_Conform Schema_Tables
begin

text \<open>
  The document and the server it describes: both documents are generated, the documented operations are the routes of the admin router with the
  write flags of its groups, and every answer of the admin API conforms to the document.

  The values of the response structs are those the handlers build. A list of the model is a slice that is not nil: the handlers make their
  slices and maps before they fill them, and the array columns are never null.
\<close>

section \<open>Both documents are generated\<close>

definition request_names :: "string list" where
  "request_names = [''Attachment'', ''BackendInput'', ''BackendPatch'', ''DomainInput'', ''DomainPatch'', ''CreateCredentialInput'', ''CredentialPatch'',
     ''AddPatternsInput'', ''TestRecipientInput'', ''ValidatePatternInput'', ''TestPatternInput'', ''SendInput'']"

definition name_kind :: "string \<Rightarrow> schemaKind" where
  "name_kind name = (if name \<in> set request_names then kindRequest else kindResponse)"

definition contract_list :: "apiOperation list \<Rightarrow> (string \<times> go_type \<times> string list) list" where
  "contract_list ops = concat (map (\<lambda>op. case op_Request op of Some t \<Rightarrow> [(op_RequestSchema op, t, op_RequiredFields op)] | None \<Rightarrow> []) ops)"

definition request_contracts :: "apiOperation list \<Rightarrow> contracts" where
  "request_contracts ops = map_of (contract_list ops)"

definition table_fits :: "apiOperation list \<Rightarrow> bool" where
  "table_fits ops \<longleftrightarrow> list_all (\<lambda>op. request_fits relais_types name_kind (request_contracts ops) op \<and> response_fits relais_types name_kind op) ops \<and>
     distinct (map operation_key ops)"

text \<open>For the evaluation, the contracts are listed once.\<close>

definition fits_contracts :: "(string \<times> go_type \<times> string list) list \<Rightarrow> apiOperation list \<Rightarrow> bool" where
  "fits_contracts cs ops \<longleftrightarrow> list_all (\<lambda>op. request_fits relais_types name_kind (map_of cs) op \<and> response_fits relais_types name_kind op) ops \<and>
     distinct (map operation_key ops)"

definition table_check :: "apiOperation list \<Rightarrow> bool" where
  "table_check ops \<longleftrightarrow> fits_contracts (contract_list ops) ops"

lemma table_fits_check [code]: "table_fits ops \<longleftrightarrow> table_check ops"
  by (simp add: table_fits_def table_check_def fits_contracts_def request_contracts_def)

lemma relais_divided: "divided relais_types name_kind"
  by code_simp

lemma tables_fit_all:
  "(table_fits adminOperations) \<and>
   (table_fits publicOperations)"
  by code_simp

lemmas tables_fit =
  tables_fit_all [THEN conjunct1]
  tables_fit_all [THEN conjunct2]

lemma relais_names_all:
  "(distinct (map fst schemaNames)) \<and>
   (distinct (map snd schemaNames))"
  by code_simp

lemmas relais_names =
  relais_names_all [THEN conjunct1]
  relais_names_all [THEN conjunct2]

lemma relais_fields: "list_all (\<lambda>(t, name). case underlying t of
    TStruct s \<Rightarrow> distinct (map json_name (described_fields relais_types s)) | _ \<Rightarrow> True) schemaNames"
  by code_simp

lemma relais_well_formed: "well_formed_env relais_types"
  using relais_names relais_fields by (simp add: well_formed_env_def list_all_iff)

lemma error_name_all:
  "(schema_name relais_types (TStruct ''errorEnvelope'') = ''Error'') \<and>
   (map_of schemaNames (TStruct ''errorEnvelope'') = Some ''Error'') \<and>
   (name_kind ''Error'' = kindResponse)"
  by code_simp

lemmas error_name =
  error_name_all [THEN conjunct1]
  error_name_all [THEN conjunct2, THEN conjunct1]
  error_name_all [THEN conjunct2, THEN conjunct2]

lemma enough_fuel: "card (free_names relais_types b) \<le> schema_fuel"
proof -
  have "card (free_names relais_types b) \<le> card (snd ` set schemaNames)" by (intro card_mono) (auto simp: free_names_def)
  also have "\<dots> \<le> schema_fuel" unfolding schema_fuel_def by (metis card_length length_map list.set_map)
  finally show ?thesis .
qed

lemma empty_builder_facts:
  "table_inv relais_types [] empty_builder" "fits_so_far L C empty_builder" "rendered_keys [] = {}"
  by (simp_all add: table_inv_def builder_inv_def origins_known_def fits_so_far_def agrees_def keeps_contracts_def empty_builder_def rendered_keys_def
      path_item_def)

lemma document_built:
  assumes "table_fits ops"
  obtains paths b where "build_document ops = Inr (paths, b)" "table_inv relais_types ops b" "\<forall>op \<in> set ops. shown relais_types paths op"
    "responses b ''Error''"
proof -
  let ?r = "render_operations relais_types schema_fuel ops [] empty_builder"
  have "good_run name_kind (request_contracts ops) ?r"
    using assms by (intro render_operations_good relais_divided) (auto simp: table_fits_def list_all_iff empty_builder_facts)
  moreover have "fed relais_types empty_builder ?r" by (rule render_operations_fed [OF enough_fuel])
  ultimately obtain paths b1 where r: "?r = Inr (paths, b1)" "agrees name_kind b1" by (cases ?r) (auto simp: fits_so_far_def)
  have inv: "table_inv relais_types ops b1" using render_operations_Inr [OF r(1) empty_builder_facts(1)] by simp
  let ?e = "ref relais_types schema_fuel kindResponse (TStruct ''errorEnvelope'') b1"
  have "fine name_kind ?e"
    using r(2) error_name by (intro builder_succeeds(2) relais_divided) simp_all
  moreover have "fed relais_types b1 ?e" by (rule builder_fed(2) [OF enough_fuel])
  ultimately obtain x b where e: "?e = Inr (x, b)" by (cases ?e) auto
  have binv: "builder_inv relais_types {} b1" using inv by (simp add: table_inv_def)
  note refined = builder_refines(2) [OF binv e]
  have origin: "sb_requestOrigin b = sb_requestOrigin b1" using builder_adds(2) [OF e] by (simp add: adds_kind_def)
  then have "grows b1 b" using refined by (simp add: grows_def)
  then have "table_inv relais_types ops b"
    using inv refined in_grown origins_known_mono [OF _ _ origin] unfolding table_inv_def by blast
  moreover have "responses b ''Error''" using refined by (simp add: responses_def error_name)
  moreover have "\<forall>op \<in> set ops. shown relais_types paths op"
    using render_operations_shows [OF r(1) empty_builder_facts(1)] by simp
  moreover have "build_document ops = Inr (paths, b)" by (simp add: build_document_def r e)
  ultimately show thesis using that by blast
qed

definition document_of :: "apiOperation list \<Rightarrow> (string \<times> any_map) list \<times> schemaBuilder" where
  "document_of ops = (case build_document ops of Inr d \<Rightarrow> d | Inl _ \<Rightarrow> ([], empty_builder))"

abbreviation "admin_builder \<equiv> snd (document_of adminOperations)"
abbreviation "public_builder \<equiv> snd (document_of publicOperations)"

lemma document_of_facts:
  assumes "table_fits ops"
  shows "build_document ops = Inr (document_of ops)" "table_inv relais_types ops (snd (document_of ops))"
    "\<forall>op \<in> set ops. shown relais_types (fst (document_of ops)) op" "responses (snd (document_of ops)) ''Error''"
proof -
  obtain paths b where "build_document ops = Inr (paths, b)" "table_inv relais_types ops b" "\<forall>op \<in> set ops. shown relais_types paths op"
    "responses b ''Error''" using document_built [OF assms] .
  then show "build_document ops = Inr (document_of ops)" "table_inv relais_types ops (snd (document_of ops))"
    "\<forall>op \<in> set ops. shown relais_types (fst (document_of ops)) op" "responses (snd (document_of ops)) ''Error''"
    by (simp_all add: document_of_def)
qed

interpretation admin_doc: published relais_types admin_builder
  using document_of_facts(2) [OF tables_fit(1)] by unfold_locales (simp_all add: relais_well_formed table_inv_def)

interpretation public_doc: published relais_types public_builder
  using document_of_facts(2) [OF tables_fit(2)] by unfold_locales (simp_all add: relais_well_formed table_inv_def)

section \<open>Reading a document\<close>

fun any_at :: "json_any \<Rightarrow> string list \<Rightarrow> json_any option" where
  "any_at a [] = Some a"
| "any_at (AnyMap m) (k # ks) = (case map_of m k of Some a \<Rightarrow> any_at a ks | None \<Rightarrow> None)"
| "any_at a (k # ks) = None"

definition document_schemas :: "json_any \<Rightarrow> string \<Rightarrow> json_any option" where
  "document_schemas doc name = any_at doc [''components'', ''schemas'', name]"

definition response_entry :: "json_any \<Rightarrow> string \<Rightarrow> string \<Rightarrow> nat \<Rightarrow> json_any option" where
  "response_entry doc meth path status = any_at doc [''paths'', path, map ascii_lower meth, ''responses'', show_nat status]"

definition content_schema :: "json_any \<Rightarrow> json_any option" where
  "content_schema entry = any_at entry [''content'', ''application/json'', ''schema'']"

lemma document_schemas_of [simp]: "document_schemas (openapi_document surface version paths b) = schemas_of b"
  by (auto simp: document_schemas_def openapi_document_def components_def schemas_of_def fun_eq_iff split: option.splits)

lemma map_of_items: "map_of (map (\<lambda>(path, item). (path, AnyMap item)) paths) p = map_option AnyMap (map_of paths p)"
  by (induction paths) auto

lemma fold_update_other: "k \<notin> f ` set xs \<Longrightarrow> map_of (fold (\<lambda>x. AList.update (f x) (g x)) xs m) k = map_of m k"
  by (induction xs arbitrary: m) (auto simp: update_conv')

definition success_entry :: "any_map option \<Rightarrow> any_map" where
  "success_entry success = (case success of
      Some schema \<Rightarrow> [(''description'', AnyString ''Success.''), json_content schema]
    | None \<Rightarrow> [(''description'', AnyString ''Success, with no body.'')])"

lemma render_responses_success:
  assumes "op_Status op \<notin> set (documented_errors op)"
  shows "map_of (render_responses op success) (show_nat (op_Status op)) = Some (AnyMap (success_entry success))"
proof -
  have "show_nat (op_Status op) \<notin> show_nat ` set (nub_by (\<lambda>code. code) [] (documented_errors op))"
    using assms nub_by_subset [of "\<lambda>code. code" "[]" "documented_errors op"] by auto
  then show ?thesis by (simp add: render_responses_def fold_update_other success_entry_def split: option.splits)
qed

lemma operation_responses:
  "map_of body ''responses'' = None \<Longrightarrow> map_of (operation_object op body success) ''responses'' = Some (AnyMap (render_responses op success))"
  by (simp add: operation_object_def map_add_def)

lemma response_entry_shown:
  assumes "shown env paths op" "op_Status op \<notin> set (documented_errors op)"
  shows "response_entry (openapi_document surface version paths b) (op_Method op) (op_Path op) (op_Status op) =
    Some (AnyMap (success_entry (success_schema env op)))"
proof -
  obtain body where body: "map_of (path_item paths (op_Path op)) (map ascii_lower (op_Method op)) =
      Some (AnyMap (operation_object op body (success_schema env op)))" "map_of body ''responses'' = None"
    using assms(1) by (auto simp: shown_def)
  then have "map_of paths (op_Path op) = Some (path_item paths (op_Path op))" by (auto simp: path_item_def split: option.splits)
  then show ?thesis
    using body by (simp add: response_entry_def openapi_document_def map_of_items operation_responses render_responses_success [OF assms(2)])
qed

lemma content_schema_success: "content_schema (AnyMap (success_entry (Some schema))) = Some (AnyMap schema)"
    "content_schema (AnyMap (success_entry None)) = None"
  by (simp_all add: content_schema_def success_entry_def json_content_def)

section \<open>The bodies as values\<close>

definition string_slice :: "string list \<Rightarrow> go_value" where
  "string_slice xs = GSlice (map GString xs)"

definition optional :: "('a \<Rightarrow> go_value) \<Rightarrow> 'a option \<Rightarrow> go_value" where
  "optional f o' = (case o' of None \<Rightarrow> GNil | Some x \<Rightarrow> GPtr (f x))"

definition int_map :: "(string \<times> int) list \<Rightarrow> go_value" where
  "int_map kvs = GMap (map (\<lambda>(k, n). (k, GInt n)) kvs)"

definition messageError_value :: "messageError \<Rightarrow> go_value" where
  "messageError_value e = GStruct [GString (me_Code e), GString (me_Detail e)]"

definition errorEnvelope_value :: "error_body \<Rightarrow> go_value" where
  "errorEnvelope_value e = GStruct [GStruct [GString (eb_Code e), GString (eb_Message e), GString (eb_Field e), GString (eb_MessageID e)]]"

definition backendResponse_value :: "backendResponse \<Rightarrow> go_value" where
  "backendResponse_value r = GStruct [GString (bre_ID r), GString (bre_Name r), GString (bre_Host r), GInt (bre_Port r), GString (bre_TLSMode r),
     GString (bre_AuthUser r), GBool (bre_HasPassword r), GString (bre_HeloName r), GInt (bre_MaxConcurrency r), GBool (bre_Enabled r),
     GString (bre_CreatedAt r), GString (bre_UpdatedAt r)]"

definition domainResponse_value :: "domainResponse \<Rightarrow> go_value" where
  "domainResponse_value r = GStruct [GString (dre_ID r), GString (dre_Name r), GString (dre_BackendID r), GString (dre_BackendName r),
     optional GBool (dre_BackendEnabled r), GBool (dre_IncludeSubdomains r), GBool (dre_Enabled r), GString (dre_CreatedAt r), GString (dre_UpdatedAt r)]"

definition credentialResponse_value :: "credentialResponse \<Rightarrow> go_value" where
  "credentialResponse_value r = GStruct [GString (cre_ID r), GString (cre_Name r), GString (cre_Type r), GString (cre_Lookup r), GString (cre_State r),
     GBool (cre_Enabled r), optional GFloat (cre_RateLimitRPS r), optional GInt (cre_RateLimitBurst r), GInt (cre_PatternCount r),
     GInt (cre_RecipientPatternCount r), GString (cre_CreatedBy r), GString (cre_CreatedAt r), optional GString (cre_LastUsedAt r),
     optional GString (cre_RevokedAt r)]"

definition createdCredentialResponse_value :: "createdCredentialResponse \<Rightarrow> go_value" where
  "createdCredentialResponse_value r = GStruct [credentialResponse_value (ccr_Credential r), GString (ccr_Secret r), GString (ccr_Username r),
     string_slice (ccr_Patterns r), string_slice (ccr_RecipientPatterns r), GString (ccr_Warning r)]"

definition patternResponse_value :: "patternResponse \<Rightarrow> go_value" where
  "patternResponse_value r = GStruct [GString (pre_ID r), GString (pre_Pattern r), GString (pre_Explanation r), GString (pre_CreatedAt r)]"

definition messageResponseAdmin_value :: "messageResponseAdmin \<Rightarrow> go_value" where
  "messageResponseAdmin_value r = GStruct [GString (mra_ID r), GString (mra_Status r), GString (mra_Facade r), GString (mra_CredentialID r),
     GString (mra_CredentialName r), GString (mra_BackendName r), GString (mra_From r), string_slice (mra_To r), string_slice (mra_Cc r),
     string_slice (mra_Bcc r), GString (mra_Subject r), string_slice (mra_Recipients r), GString (mra_MessageID r), GInt (mra_SizeBytes r),
     GInt (mra_Attempts r), GString (mra_RemoteIP r), GString (mra_CreatedAt r), optional GString (mra_SentAt r),
     optional messageError_value (mra_Error r), optional GString (mra_RejectionReason r)]"

text \<open>\<^verbatim>\<open>listResponse[T]\<close>: only the message log has a next cursor.\<close>

definition list_value :: "('a \<Rightarrow> go_value) \<Rightarrow> 'a list \<Rightarrow> string \<Rightarrow> go_value" where
  "list_value f rows cursor = GStruct [GSlice (map f rows), GString cursor]"

fun body_type :: "admin_body \<Rightarrow> go_type" where
  "body_type (IdentityBody _) = TStruct ''identityResponse''"
| "body_type (StatsBody _) = TStruct ''statsResponse''"
| "body_type (BackendBody _) = TStruct ''backendResponse''"
| "body_type (BackendsBody _) = TStruct ''listResponse[backendResponse]''"
| "body_type (ProbeBody _) = TStruct ''probeResponse''"
| "body_type (DomainBody _) = TStruct ''domainResponse''"
| "body_type (DomainsBody _) = TStruct ''listResponse[domainResponse]''"
| "body_type (ResolveBody _) = TStruct ''resolveResponse''"
| "body_type (CredentialBody _) = TStruct ''credentialResponse''"
| "body_type (CredentialsBody _) = TStruct ''listResponse[credentialResponse]''"
| "body_type (CreatedBody _) = TStruct ''createdCredentialResponse''"
| "body_type (PatternsBody _) = TStruct ''listResponse[patternResponse]''"
| "body_type (PatternValidationBody _) = TStruct ''patternValidationResponse''"
| "body_type (PatternTestBody _) = TStruct ''patternTestResponse''"
| "body_type (RecipientTestBody _) = TStruct ''recipientTestResponse''"
| "body_type (AdminMessageBody _) = TStruct ''messageResponseAdmin''"
| "body_type (AdminMessagesBody _ _) = TStruct ''listResponse[messageResponseAdmin]''"

fun body_value :: "admin_body \<Rightarrow> go_value" where
  "body_value (IdentityBody r) = GStruct [GString (ire_Subject r), GString (ire_Email r), GString (ire_Name r), GString (ire_Role r),
     GBool (ire_CanWrite r), string_slice (ire_Groups r)]"
| "body_value (StatsBody r) = GStruct [int_map (stt_Messages r), GInt (stt_Backends r), GInt (stt_Domains r), int_map (stt_Credentials r)]"
| "body_value (BackendBody r) = backendResponse_value r"
| "body_value (BackendsBody rs) = list_value backendResponse_value rs []"
| "body_value (ProbeBody r) = GStruct [GBool (pbr_OK r), GBool (pbr_UsedTLS r), GBool (pbr_Authenticated r), string_slice (pbr_Extensions r),
     optional messageError_value (pbr_Error r)]"
| "body_value (DomainBody r) = domainResponse_value r"
| "body_value (DomainsBody rs) = list_value domainResponse_value rs []"
| "body_value (ResolveBody r) = GStruct [GString (rre_Sender r), GBool (rre_Resolved r), GString (rre_DomainName r), GString (rre_BackendID r),
     GString (rre_Backend r), GString (rre_Address r), GString (rre_TLSMode r), GBool (rre_UsesAuth r), GString (rre_Reason r)]"
| "body_value (CredentialBody r) = credentialResponse_value r"
| "body_value (CredentialsBody rs) = list_value credentialResponse_value rs []"
| "body_value (CreatedBody r) = createdCredentialResponse_value r"
| "body_value (PatternsBody rs) = list_value patternResponse_value rs []"
| "body_value (PatternValidationBody r) = GStruct [GBool (pvr_Valid r), GString (pvr_Normalized r), GString (pvr_Explanation r), GString (pvr_Error r)]"
| "body_value (PatternTestBody r) = GStruct [GString (pte_Address r), GBool (pte_Allowed r), GString (pte_MatchedPattern r),
     string_slice (pte_Patterns r), GBool (pte_RoutableDomain r), GString (pte_BackendName r)]"
| "body_value (RecipientTestBody r) = GStruct [GString (rte_Address r), GBool (rte_Allowed r), GBool (rte_Restricted r),
     GString (rte_MatchedPattern r), string_slice (rte_Patterns r)]"
| "body_value (AdminMessageBody r) = messageResponseAdmin_value r"
| "body_value (AdminMessagesBody rs cursor) = list_value messageResponseAdmin_value rs cursor"

lemma struct_fieldsI: "(s, fs) \<in> set relais_structs \<Longrightarrow> struct_fields s = fs"
proof -
  have "distinct (map fst relais_structs)" by code_simp
  then show "struct_fields s = fs" if "(s, fs) \<in> set relais_structs" using that by (simp add: struct_fields_def)
qed

lemma struct_lookup:
  "struct_fields ''backendResponse'' = backendResponse_fields" "struct_fields ''domainResponse'' = domainResponse_fields"
  "struct_fields ''credentialResponse'' = credentialResponse_fields" "struct_fields ''createdCredentialResponse'' = createdCredentialResponse_fields"
  "struct_fields ''patternResponse'' = patternResponse_fields" "struct_fields ''messageResponseAdmin'' = messageResponseAdmin_fields"
  "struct_fields ''statsResponse'' = statsResponse_fields" "struct_fields ''identityResponse'' = identityResponse_fields"
  "struct_fields ''probeResponse'' = probeResponse_fields" "struct_fields ''patternValidationResponse'' = patternValidationResponse_fields"
  "struct_fields ''patternTestResponse'' = patternTestResponse_fields" "struct_fields ''recipientTestResponse'' = recipientTestResponse_fields"
  "struct_fields ''resolveResponse'' = resolveResponse_fields" "struct_fields ''messageError'' = messageError_fields"
  "struct_fields ''errorEnvelope'' = errorEnvelope_fields" "struct_fields ''errorBody'' = errorBody_fields"
  "struct_fields ''sendResponse'' = sendResponse_fields" "struct_fields ''messageResponse'' = messageResponse_fields"
  "struct_fields ''listResponse[backendResponse]'' = listResponse_fields (TStruct ''backendResponse'')"
  "struct_fields ''listResponse[domainResponse]'' = listResponse_fields (TStruct ''domainResponse'')"
  "struct_fields ''listResponse[credentialResponse]'' = listResponse_fields (TStruct ''credentialResponse'')"
  "struct_fields ''listResponse[patternResponse]'' = listResponse_fields (TStruct ''patternResponse'')"
  "struct_fields ''listResponse[messageResponseAdmin]'' = listResponse_fields (TStruct ''messageResponseAdmin'')"
  by (rule struct_fieldsI; unfold relais_structs_def; (rule list.set_intros(1) | rule list.set_intros(2))+)+

lemmas response_fields = backendResponse_fields_def domainResponse_fields_def credentialResponse_fields_def createdCredentialResponse_fields_def
  patternResponse_fields_def messageResponseAdmin_fields_def statsResponse_fields_def identityResponse_fields_def probeResponse_fields_def
  patternValidationResponse_fields_def patternTestResponse_fields_def recipientTestResponse_fields_def resolveResponse_fields_def
  messageError_fields_def errorEnvelope_fields_def errorBody_fields_def sendResponse_fields_def messageResponse_fields_def listResponse_fields_def

lemma no_custom: "deref t \<noteq> TaddressList \<Longrightarrow> t \<noteq> TaddressList \<Longrightarrow> custom_schema relais_types t = None"
  by (simp add: custom_schema_def customSchemas_def)

lemma struct_of_relais: "struct_of relais_types (TStruct s) = struct_fields s"
  by (simp add: struct_of_def)

lemma go_tagged_type [simp]: "fl_Type (go_tagged name tag t) = t"
  by (simp add: go_tagged_def)

lemmas body_typing = struct_of_relais struct_lookup response_fields no_custom TaddressList_def string_slice_def optional_def int_map_def list_all_iff

lemma values_typed:
  "has_type relais_types (TStruct ''messageError'') (messageError_value e)"
  "has_type relais_types (TStruct ''backendResponse'') (backendResponse_value b)"
  "has_type relais_types (TStruct ''domainResponse'') (domainResponse_value d)"
  "has_type relais_types (TStruct ''credentialResponse'') (credentialResponse_value c)"
  "has_type relais_types (TStruct ''patternResponse'') (patternResponse_value p)"
  by (simp_all add: messageError_value_def backendResponse_value_def domainResponse_value_def credentialResponse_value_def patternResponse_value_def
      body_typing split: option.splits)

lemma more_values_typed:
  "has_type relais_types (TStruct ''createdCredentialResponse'') (createdCredentialResponse_value cc)"
  "has_type relais_types (TStruct ''messageResponseAdmin'') (messageResponseAdmin_value m)"
  "has_type relais_types (TStruct ''errorEnvelope'') (errorEnvelope_value ee)"
  by (simp_all add: createdCredentialResponse_value_def messageResponseAdmin_value_def errorEnvelope_value_def values_typed
      body_typing split: option.splits)

lemma body_typed: "has_type relais_types (body_type body) (body_value body)"
  by (cases body)
    (simp_all add: list_value_def values_typed more_values_typed body_typing split: option.splits prod.splits)

section \<open>The routes\<close>

text \<open>The method and the pattern each route is registered under.\<close>

fun route_pattern :: "admin_route \<Rightarrow> string \<times> string" where
  "route_pattern GetIdentity = (''GET'', ''/admin/v1/identity'')"
| "route_pattern GetStats = (''GET'', ''/admin/v1/stats'')"
| "route_pattern GetBackends = (''GET'', ''/admin/v1/backends'')"
| "route_pattern GetDomains = (''GET'', ''/admin/v1/domains'')"
| "route_pattern (GetDomainsResolve q) = (''GET'', ''/admin/v1/domains:resolve'')"
| "route_pattern GetCredentials = (''GET'', ''/admin/v1/credentials'')"
| "route_pattern (GetCredential i) = (''GET'', ''/admin/v1/credentials/{id}'')"
| "route_pattern (GetPatterns i) = (''GET'', ''/admin/v1/credentials/{id}/patterns'')"
| "route_pattern (GetRecipientPatterns i) = (''GET'', ''/admin/v1/credentials/{id}/recipient-patterns'')"
| "route_pattern (GetMessages q) = (''GET'', ''/admin/v1/messages'')"
| "route_pattern (GetMessageRoute i) = (''GET'', ''/admin/v1/messages/{id}'')"
| "route_pattern (PostPatternsValidate b) = (''POST'', ''/admin/v1/patterns:validate'')"
| "route_pattern (PostPatternsTest i b) = (''POST'', ''/admin/v1/credentials/{id}/patterns:test'')"
| "route_pattern (PostRecipientTest i b) = (''POST'', ''/admin/v1/credentials/{id}/recipient-patterns:test'')"
| "route_pattern (PostBackends b) = (''POST'', ''/admin/v1/backends'')"
| "route_pattern (PatchBackend i b) = (''PATCH'', ''/admin/v1/backends/{id}'')"
| "route_pattern (DeleteBackendRoute i) = (''DELETE'', ''/admin/v1/backends/{id}'')"
| "route_pattern (PostBackendTest i) = (''POST'', ''/admin/v1/backends/{id}:test'')"
| "route_pattern (PostDomains b) = (''POST'', ''/admin/v1/domains'')"
| "route_pattern (PatchDomain i b) = (''PATCH'', ''/admin/v1/domains/{id}'')"
| "route_pattern (DeleteDomainRoute i) = (''DELETE'', ''/admin/v1/domains/{id}'')"
| "route_pattern (PostCredentials b) = (''POST'', ''/admin/v1/credentials'')"
| "route_pattern (PatchCredential i b) = (''PATCH'', ''/admin/v1/credentials/{id}'')"
| "route_pattern (PostCredentialRevoke i) = (''POST'', ''/admin/v1/credentials/{id}:revoke'')"
| "route_pattern (PostCredentialRotate i) = (''POST'', ''/admin/v1/credentials/{id}:rotate'')"
| "route_pattern (DeleteCredentialRoute i) = (''DELETE'', ''/admin/v1/credentials/{id}'')"
| "route_pattern (PostPatterns i b) = (''POST'', ''/admin/v1/credentials/{id}/patterns'')"
| "route_pattern (DeletePatternRoute i j) = (''DELETE'', ''/admin/v1/credentials/{id}/patterns/{patternID}'')"
| "route_pattern (PostRecipientPatterns i b) = (''POST'', ''/admin/v1/credentials/{id}/recipient-patterns'')"
| "route_pattern (DeleteRecipientPatternRoute i j) = (''DELETE'', ''/admin/v1/credentials/{id}/recipient-patterns/{patternID}'')"

text \<open>The operation a route is documented by: the one with its method and pattern.\<close>

definition documented_by :: "admin_route \<Rightarrow> apiOperation \<Rightarrow> bool" where
  "documented_by route op \<longleftrightarrow> op \<in> set adminOperations \<and> (op_Method op, op_Path op) = route_pattern route"

definition operation_summary :: "apiOperation \<Rightarrow> (string \<times> string) \<times> nat \<times> go_type option \<times> bool" where
  "operation_summary op = ((op_Method op, op_Path op), op_Status op, op_Response op, op_Write op)"

lemma admin_summaries:
  "map operation_summary adminOperations =
     [((''GET'', ''/admin/v1/identity''), 200, Some (TStruct ''identityResponse''), False),
      ((''GET'', ''/admin/v1/stats''), 200, Some (TStruct ''statsResponse''), False),
      ((''GET'', ''/admin/v1/backends''), 200, Some (TStruct ''listResponse[backendResponse]''), False),
      ((''POST'', ''/admin/v1/backends''), 201, Some (TStruct ''backendResponse''), True),
      ((''PATCH'', ''/admin/v1/backends/{id}''), 200, Some (TStruct ''backendResponse''), True),
      ((''DELETE'', ''/admin/v1/backends/{id}''), 204, None, True),
      ((''POST'', ''/admin/v1/backends/{id}:test''), 200, Some (TStruct ''probeResponse''), True),
      ((''GET'', ''/admin/v1/domains''), 200, Some (TStruct ''listResponse[domainResponse]''), False),
      ((''POST'', ''/admin/v1/domains''), 201, Some (TStruct ''domainResponse''), True),
      ((''PATCH'', ''/admin/v1/domains/{id}''), 200, Some (TStruct ''domainResponse''), True),
      ((''DELETE'', ''/admin/v1/domains/{id}''), 204, None, True),
      ((''GET'', ''/admin/v1/domains:resolve''), 200, Some (TStruct ''resolveResponse''), False),
      ((''GET'', ''/admin/v1/credentials''), 200, Some (TStruct ''listResponse[credentialResponse]''), False),
      ((''POST'', ''/admin/v1/credentials''), 201, Some (TStruct ''createdCredentialResponse''), True),
      ((''GET'', ''/admin/v1/credentials/{id}''), 200, Some (TStruct ''credentialResponse''), False),
      ((''PATCH'', ''/admin/v1/credentials/{id}''), 200, Some (TStruct ''credentialResponse''), True),
      ((''POST'', ''/admin/v1/credentials/{id}:revoke''), 200, Some (TStruct ''credentialResponse''), True),
      ((''POST'', ''/admin/v1/credentials/{id}:rotate''), 200, Some (TStruct ''createdCredentialResponse''), True),
      ((''DELETE'', ''/admin/v1/credentials/{id}''), 204, None, True),
      ((''GET'', ''/admin/v1/credentials/{id}/patterns''), 200, Some (TStruct ''listResponse[patternResponse]''), False),
      ((''POST'', ''/admin/v1/credentials/{id}/patterns''), 201, Some (TStruct ''listResponse[patternResponse]''), True),
      ((''DELETE'', ''/admin/v1/credentials/{id}/patterns/{patternID}''), 204, None, True),
      ((''GET'', ''/admin/v1/credentials/{id}/recipient-patterns''), 200, Some (TStruct ''listResponse[patternResponse]''), False),
      ((''POST'', ''/admin/v1/credentials/{id}/recipient-patterns''), 201, Some (TStruct ''listResponse[patternResponse]''), True),
      ((''DELETE'', ''/admin/v1/credentials/{id}/recipient-patterns/{patternID}''), 204, None, True),
      ((''POST'', ''/admin/v1/credentials/{id}/recipient-patterns:test''), 200, Some (TStruct ''recipientTestResponse''), False),
      ((''POST'', ''/admin/v1/patterns:validate''), 200, Some (TStruct ''patternValidationResponse''), False),
      ((''POST'', ''/admin/v1/credentials/{id}/patterns:test''), 200, Some (TStruct ''patternTestResponse''), False),
      ((''GET'', ''/admin/v1/messages''), 200, Some (TStruct ''listResponse[messageResponseAdmin]''), False),
      ((''GET'', ''/admin/v1/messages/{id}''), 200, Some (TStruct ''messageResponseAdmin''), False)]"
  by code_simp

text \<open>What the handler of a route answers when it succeeds.\<close>

fun route_success :: "admin_route \<Rightarrow> nat \<times> go_type option" where
  "route_success GetIdentity = (200, Some (TStruct ''identityResponse''))"
| "route_success GetStats = (200, Some (TStruct ''statsResponse''))"
| "route_success GetBackends = (200, Some (TStruct ''listResponse[backendResponse]''))"
| "route_success GetDomains = (200, Some (TStruct ''listResponse[domainResponse]''))"
| "route_success (GetDomainsResolve q) = (200, Some (TStruct ''resolveResponse''))"
| "route_success GetCredentials = (200, Some (TStruct ''listResponse[credentialResponse]''))"
| "route_success (GetCredential i) = (200, Some (TStruct ''credentialResponse''))"
| "route_success (GetPatterns i) = (200, Some (TStruct ''listResponse[patternResponse]''))"
| "route_success (GetRecipientPatterns i) = (200, Some (TStruct ''listResponse[patternResponse]''))"
| "route_success (GetMessages q) = (200, Some (TStruct ''listResponse[messageResponseAdmin]''))"
| "route_success (GetMessageRoute i) = (200, Some (TStruct ''messageResponseAdmin''))"
| "route_success (PostPatternsValidate b) = (200, Some (TStruct ''patternValidationResponse''))"
| "route_success (PostPatternsTest i b) = (200, Some (TStruct ''patternTestResponse''))"
| "route_success (PostRecipientTest i b) = (200, Some (TStruct ''recipientTestResponse''))"
| "route_success (PostBackends b) = (201, Some (TStruct ''backendResponse''))"
| "route_success (PatchBackend i b) = (200, Some (TStruct ''backendResponse''))"
| "route_success (PostBackendTest i) = (200, Some (TStruct ''probeResponse''))"
| "route_success (PostDomains b) = (201, Some (TStruct ''domainResponse''))"
| "route_success (PatchDomain i b) = (200, Some (TStruct ''domainResponse''))"
| "route_success (PostCredentials b) = (201, Some (TStruct ''createdCredentialResponse''))"
| "route_success (PatchCredential i b) = (200, Some (TStruct ''credentialResponse''))"
| "route_success (PostCredentialRevoke i) = (200, Some (TStruct ''credentialResponse''))"
| "route_success (PostCredentialRotate i) = (200, Some (TStruct ''createdCredentialResponse''))"
| "route_success (PostPatterns i b) = (201, Some (TStruct ''listResponse[patternResponse]''))"
| "route_success (PostRecipientPatterns i b) = (201, Some (TStruct ''listResponse[patternResponse]''))"
| "route_success (DeleteBackendRoute i) = (204, None)"
| "route_success (DeleteDomainRoute i) = (204, None)"
| "route_success (DeleteCredentialRoute i) = (204, None)"
| "route_success (DeletePatternRoute i j) = (204, None)"
| "route_success (DeleteRecipientPatternRoute i j) = (204, None)"

definition route_writes :: "admin_route \<Rightarrow> bool" where
  "route_writes route \<longleftrightarrow> write_handler undefined undefined route \<noteq> None"

lemma route_writes_any: "write_handler srv cx route \<noteq> None \<longleftrightarrow> route_writes route"
  by (cases route) (simp_all add: route_writes_def)

text \<open>Every route is in the table, with the success the handler answers and the flag of its group.\<close>

lemma route_summarized: "(route_pattern route, fst (route_success route), snd (route_success route), route_writes route) \<in> operation_summary ` set adminOperations"
  unfolding list.set_map [symmetric] admin_summaries by (cases route) (simp_all add: route_writes_def)

text \<open>A route for each operation of the table, in its order.\<close>

definition one_of_each :: "admin_route list" where
  "one_of_each = [GetIdentity, GetStats, GetBackends, PostBackends (NotJSON []), PatchBackend [] (\<lambda>_. NotJSON []), DeleteBackendRoute [], PostBackendTest [],
     GetDomains, PostDomains (NotJSON []), PatchDomain [] (\<lambda>_. NotJSON []), DeleteDomainRoute [], GetDomainsResolve [],
     GetCredentials, PostCredentials (NotJSON []), GetCredential [], PatchCredential [] (\<lambda>_. NotJSON []), PostCredentialRevoke [],
     PostCredentialRotate [], DeleteCredentialRoute [],
     GetPatterns [], PostPatterns [] (NotJSON []), DeletePatternRoute [] [], GetRecipientPatterns [], PostRecipientPatterns [] (NotJSON []),
     DeleteRecipientPatternRoute [] [], PostRecipientTest [] (NotJSON []), PostPatternsValidate (NotJSON []), PostPatternsTest [] (NotJSON []),
     GetMessages \<lparr>mq_status = [], mq_credential_id = [], mq_cursor = [], mq_limit = []\<rparr>, GetMessageRoute []]"

lemma table_routed: "map (\<lambda>op. (op_Method op, op_Path op)) adminOperations = map route_pattern one_of_each"
proof -
  have "map (\<lambda>op. (op_Method op, op_Path op)) adminOperations = map fst (map operation_summary adminOperations)"
    by (simp add: operation_summary_def)
  also have "\<dots> = map route_pattern one_of_each" unfolding admin_summaries by (simp add: one_of_each_def)
  finally show ?thesis .
qed

lemma documented_unique:
  assumes "documented_by route op" "documented_by route op'"
  shows "op = op'"
proof -
  have "inj_on operation_key (set adminOperations)" using tables_fit(1) by (simp add: table_fits_def distinct_map)
  moreover have "operation_key op = operation_key op'" using assms by (cases "route_pattern route") (simp add: documented_by_def operation_key_def)
  ultimately show ?thesis using assms by (simp add: documented_by_def inj_on_eq_iff)
qed

lemma route_documented:
  obtains op where "documented_by route op" "route_success route = (op_Status op, op_Response op)" "op_Write op \<longleftrightarrow> route_writes route"
proof -
  from route_summarized [of route] obtain op where "op \<in> set adminOperations"
    "(route_pattern route, fst (route_success route), snd (route_success route), route_writes route) = operation_summary op" by blast
  then show thesis by (intro that [of op]) (simp_all add: documented_by_def operation_summary_def prod_eq_iff)
qed

section \<open>What the handlers answer\<close>

definition answers_as :: "nat \<times> go_type option \<Rightarrow> admin_body http_response \<Rightarrow> bool" where
  "answers_as success resp \<longleftrightarrow> (case rs_Body resp of
      ErrorEnvelope e \<Rightarrow> 400 \<le> rs_Status resp
    | JsonBody body \<Rightarrow> rs_Status resp = int (fst success) \<and> snd success = Some (body_type body)
    | NoBody \<Rightarrow> rs_Status resp = int (fst success) \<and> snd success = None)"

definition answers :: "nat \<times> go_type option \<Rightarrow> admin_reply prog \<Rightarrow> bool" where
  "answers success m \<longleftrightarrow> (\<forall>w. answers_as success (fst (fst (run_state m w))))"

lemma answers_error [simp]: "answers_as success (writeError hs status e) \<longleftrightarrow> 400 \<le> status"
  by (simp add: answers_as_def writeError_def writeJSON_def)

lemma answers_writers [simp]:
  "answers_as success writeInternal" "answers_as success writeUnavailable" "answers_as success no_such_resource" "answers_as success writeAdminUnauthorized"
  "answers_as success reenable_refused" "answers_as success no_such_endpoint"
  by (simp_all add: writeInternal_def writeUnavailable_def no_such_resource_def writeAdminUnauthorized_def reenable_refused_def no_such_endpoint_def)

lemma answers_store [simp]: "answers_as success (writeStoreError srv e)" "answers_as success (refusal srv field e)"
  by (cases e; simp add: refusal_def writeValidationError_def)+

lemma answers_json [simp]: "answers_as success (json status body) \<longleftrightarrow> status = int (fst success) \<and> snd success = Some (body_type body)"
    "answers_as success no_content \<longleftrightarrow> success = (204, None)"
  by (auto simp: answers_as_def json_def writeJSON_def no_content_def prod_eq_iff)

lemma answers_ret: "answers_as success resp \<Longrightarrow> answers success (ret (resp, ls))"
  by (simp add: answers_def)

lemma answers_bind: "(\<And>a. answers success (k a)) \<Longrightarrow> answers success (m \<bind> k)"
  by (auto simp: answers_def split: prod.splits)

lemma answers_or_answer:
  "(\<And>resp. r = Inl resp \<Longrightarrow> answers_as success resp) \<Longrightarrow> (\<And>a. answers success (k a)) \<Longrightarrow> answers success (or_answer r k)"
  by (cases r) (auto simp: or_answer_def intro: answers_ret)

lemma answers_or_fail: "(\<And>a. answers success (k a)) \<Longrightarrow> answers success (or_fail srv m k)"
  unfolding or_fail_def by (auto intro!: answers_bind answers_ret split: sum.splits)

lemma answers_or_refuse: "(\<And>a. answers success (k a)) \<Longrightarrow> answers success (or_refuse srv f m k)"
  unfolding or_refuse_def by (auto intro!: answers_bind answers_ret split: sum.splits)

lemma answers_inputs:
  "decodeJSON d = Inl resp \<Longrightarrow> answers_as success resp" "pathUUID srv i = Inl resp \<Longrightarrow> answers_as success resp"
  "backend_id_of srv q = Inl resp \<Longrightarrow> answers_as success resp" "credential_filter srv mq = Inl resp \<Longrightarrow> answers_as success resp"
  "cursor_filter srv mq = Inl resp \<Longrightarrow> answers_as success resp"
  by (auto simp: decodeJSON_def pathUUID_def backend_id_of_def credential_filter_def cursor_filter_def Let_def
      split: decoded.splits option.splits if_splits prod.splits)

lemmas answers_rules = answers_or_answer answers_or_fail answers_or_refuse answers_bind answers_ret

lemma read_handlers_answer: "read_handler srv cx route = Some m \<Longrightarrow> answers (route_success route) m"
  by (cases route)
    (auto simp: handleIdentity_def handleStats_def handleListBackends_def handleListDomains_def handleResolveDomain_def handleListCredentials_def
      handleGetCredential_def handleListPatterns_def handleListRecipientPatterns_def handleListMessages_def handleGetMessage_def
      handleValidatePattern_def handleTestPattern_def handleTestRecipient_def Let_def
      intro!: answers_rules dest: answers_inputs split: prod.splits sum.splits option.splits if_splits)

lemma write_handlers_answer: "write_handler srv cx route = Some m \<Longrightarrow> answers (route_success route) m"
  by (cases route)
    (auto simp: handleCreateBackend_def handleUpdateBackend_def handleDeleteBackend_def handleProbeBackend_def handleCreateDomain_def handleUpdateDomain_def
      handleDeleteDomain_def handleCreateCredential_def handleUpdateCredential_def handleRevokeCredential_def handleRotateCredential_def
      handleDeleteCredential_def handleAddPatterns_def handleDeletePattern_def handleAddRecipientPatterns_def handleDeleteRecipientPattern_def Let_def
      intro!: answers_rules dest: answers_inputs split: prod.splits sum.splits option.splits if_splits)

lemma dispatch_answers: "answers (route_success route) (admin_dispatch srv cx route)"
proof (cases "read_handler srv cx route")
  case None
  then show ?thesis using write_handlers_answer [of srv cx route]
    by (auto simp: admin_dispatch_def requireWrite_def intro!: answers_ret split: option.splits)
qed (simp add: admin_dispatch_def read_handlers_answer)

lemma token_refusal_answers: "answers_as success (token_refusal e)"
  by (cases e) simp_all

lemma admin_serve_answers: "answers_as (route_success route) (fst (fst (fst (run_state (admin_serve x now provider srv authorization ip route v) w))))"
proof (cases "requireAdminToken x now provider authorization v")
  case (Pair r v')
  show ?thesis
  proof (cases r)
    case (Inl resp)
    then have "answers_as (route_success route) resp"
      using Pair by (auto simp: requireAdminToken_def token_refusal_answers map_err_def split: option.splits prod.splits sum.splits)
    then show ?thesis by (simp add: admin_serve_def Pair Inl)
  next
    case (Inr identity)
    let ?cx = "\<lparr>cx_identity = Some identity, cx_clientIP = ip\<rparr>"
    have "answers_as (route_success route) (fst (fst (run_state (admin_dispatch srv ?cx route) w)))"
      using dispatch_answers [of route srv ?cx] by (simp add: answers_def)
    then show ?thesis by (auto simp: admin_serve_def Pair Inr split: prod.splits)
  qed
qed

section \<open>The answers and the document\<close>

definition admin_document :: "string \<Rightarrow> json_any" where
  "admin_document version = openapi_document SurfaceAdmin version (fst (document_of adminOperations)) admin_builder"

definition body_json :: "admin_body \<Rightarrow> jvalue" where
  "body_json body = encode relais_types (body_type body) (body_value body)"

definition error_json :: "error_body \<Rightarrow> jvalue" where
  "error_json e = encode relais_types (TStruct ''errorEnvelope'') (errorEnvelope_value e)"

text \<open>An answer is documented when its status is an entry of the operation and its body conforms to the schema there; an error has the common schema.\<close>

definition answer_documented :: "json_any \<Rightarrow> string \<times> string \<Rightarrow> admin_body http_response \<Rightarrow> bool" where
  "answer_documented doc = (\<lambda>(meth, path) resp.
     case rs_Body resp of
       JsonBody body \<Rightarrow>
         (case Option.bind (response_entry doc meth path (nat (rs_Status resp))) content_schema of
            Some schema \<Rightarrow> schema_accepts (document_schemas doc) schema (body_json body)
          | None \<Rightarrow> False)
     | NoBody \<Rightarrow> (case response_entry doc meth path (nat (rs_Status resp)) of Some entry \<Rightarrow> content_schema entry = None | None \<Rightarrow> False)
     | ErrorEnvelope e \<Rightarrow> 400 \<le> rs_Status resp \<and> schema_accepts (document_schemas doc) (AnyMap (ref_to ''Error'')) (error_json e))"

lemma success_apart: "list_all (\<lambda>op. op_Status op \<notin> set (documented_errors op)) adminOperations"
  by code_simp

lemma struct_schema_ref: "field_schema_of relais_types (TStruct s) = ref_to (schema_name relais_types (TStruct s))"
  by (simp add: field_schema_of.simps no_custom TaddressList_def nullable_ref_def)

lemma struct_known:
  "map_of schemaNames (TStruct s) \<noteq> None \<Longrightarrow> responses b (schema_name relais_types (TStruct s)) \<Longrightarrow> field_known relais_types (responses b) (TStruct s)"
  by (simp add: field_known.simps)

lemma error_accepted: "schema_accepts (schemas_of admin_builder) (AnyMap (ref_to ''Error'')) (error_json e)"
proof -
  have "field_known relais_types (responses admin_builder) (TStruct ''errorEnvelope'')"
    using document_of_facts(4) [OF tables_fit(1)] by (intro struct_known) (simp_all add: error_name)
  from admin_doc.encoded_conforms [OF more_values_typed(3) [of e] this] show ?thesis
    by (simp add: struct_schema_ref error_name error_json_def)
qed

lemma body_accepted:
  assumes "op \<in> set adminOperations" "op_Response op = Some (body_type body)"
  shows "schema_accepts (schemas_of admin_builder) (AnyMap (ref_to (schema_name relais_types (body_type body)))) (body_json body)"
proof -
  obtain s where s: "body_type body = TStruct s" by (cases body) auto
  have "response_in relais_types admin_builder op" using document_of_facts(2) [OF tables_fit(1)] assms(1) by (simp add: table_inv_def)
  then have "field_known relais_types (responses admin_builder) (TStruct s)"
    using assms(2) s by (intro struct_known) (auto simp: response_in_def responses_def)
  from admin_doc.encoded_conforms [OF body_typed [of body] this [folded s]] show ?thesis
    by (simp add: struct_schema_ref s body_json_def)
qed

lemma documented_answer:
  assumes "documented_by route op" "answers_as (op_Status op, op_Response op) resp"
  shows "answer_documented (admin_document version) (route_pattern route) resp"
proof -
  have op: "op \<in> set adminOperations" "route_pattern route = (op_Method op, op_Path op)" using assms(1) by (simp_all add: documented_by_def)
  have schemas: "document_schemas (admin_document version) = schemas_of admin_builder" by (simp add: admin_document_def)
  have "op_Status op \<notin> set (documented_errors op)" using success_apart op(1) by (simp add: list_all_iff)
  then have entry: "response_entry (admin_document version) (op_Method op) (op_Path op) (op_Status op) =
      Some (AnyMap (success_entry (success_schema relais_types op)))"
    using document_of_facts(3) [OF tables_fit(1)] op(1) unfolding admin_document_def by (intro response_entry_shown) simp_all
  show ?thesis
  proof (cases "rs_Body resp")
    case (ErrorEnvelope e)
    then show ?thesis using assms(2) error_accepted by (simp add: answer_documented_def op(2) schemas answers_as_def)
  next
    case (JsonBody body)
    then have status: "nat (rs_Status resp) = op_Status op" and ty: "op_Response op = Some (body_type body)"
      using assms(2) by (simp_all add: answers_as_def)
    obtain s where "body_type body = TStruct s" by (cases body) auto
    then show ?thesis using body_accepted [OF op(1) ty]
      by (simp add: answer_documented_def op(2) JsonBody status entry success_schema_def ty content_schema_success schemas)
  next
    case NoBody
    then show ?thesis using assms(2)
      by (simp add: answer_documented_def op(2) answers_as_def entry success_schema_def content_schema_success)
  qed
qed


text \<open>The path parameters of an operation, as the tests read them from its path.\<close>

definition placeholders :: "string \<Rightarrow> string list" where
  "placeholders path = map (\<lambda>part. takeWhile (\<lambda>c. c \<noteq> CHR ''}'') part) (tl (split_on (CHR ''{'') path))"

definition path_parameters :: "apiOperation \<Rightarrow> apiParam list" where
  "path_parameters op = filter (\<lambda>p. par_In p = ''path'') (op_Params op)"

definition paths_declared :: "apiOperation list \<Rightarrow> bool" where
  "paths_declared ops \<longleftrightarrow> list_all (\<lambda>op. map par_Name (path_parameters op) = placeholders (op_Path op) \<and> list_all par_Required (path_parameters op)) ops"

lemma tables_declared_all:
  "(paths_declared (adminOperations @ publicOperations)) \<and>
   (distinct (map op_ID (adminOperations @ publicOperations)))"
  by code_simp

lemmas tables_declared =
  tables_declared_all [THEN conjunct1]
  tables_declared_all [THEN conjunct2]


end
