(* ===== verification/Api_Public.thy ===== *)
theory Api_Public
  imports Api_Contract
begin

text \<open>
  The sending API and its document: the bodies it answers conform to the published schemas. And which statuses the two documents list, against the
  statuses the handlers answer.
\<close>

section \<open>The bodies of the sending API\<close>

fun rest_type :: "rest_body \<Rightarrow> go_type" where
  "rest_type (SendBody _) = TStruct ''sendResponse''"
| "rest_type (MessageBody _) = TStruct ''messageResponse''"

fun rest_value :: "rest_body \<Rightarrow> go_value" where
  "rest_value (SendBody r) = GStruct [GString (sp_ID r), GString (sp_Status r), GString (sp_MessageID r), string_slice (sp_Recipients r),
     GBool (sp_Idempotent r)]"
| "rest_value (MessageBody r) = GStruct [GString (mr_ID r), GString (mr_Status r), GString (mr_From r), string_slice (mr_To r), string_slice (mr_Cc r),
     string_slice (mr_Bcc r), GString (mr_Subject r), GString (mr_MessageID r), string_slice (mr_Recipients r), GInt (mr_SizeBytes r), GInt (mr_Attempts r),
     GString (mr_CreatedAt r), optional GString (mr_SentAt r), optional messageError_value (mr_Error r), optional GString (mr_RejectionReason r)]"

definition rest_json :: "rest_body \<Rightarrow> jvalue" where
  "rest_json body = encode relais_types (rest_type body) (rest_value body)"

lemma rest_typed: "has_type relais_types (rest_type body) (rest_value body)"
  by (cases body) (simp_all add: values_typed body_typing split: option.splits)

definition public_document :: "string \<Rightarrow> json_any" where
  "public_document version = openapi_document SurfacePublic version (fst (document_of publicOperations)) public_builder"

lemma public_responses: "map op_Response publicOperations = [Some (TStruct ''sendResponse''), Some (TStruct ''messageResponse'')]"
  by (simp add: publicOperations_def)

lemma rest_known: "field_known relais_types (responses public_builder) (rest_type body)"
proof -
  have "Some (rest_type body) \<in> set (map op_Response publicOperations)" unfolding public_responses by (cases body) simp_all
  then obtain op where op: "op \<in> set publicOperations" "op_Response op = Some (rest_type body)" by auto
  have "response_in relais_types public_builder op" using document_of_facts(2) [OF tables_fit(2)] op(1) by (simp add: table_inv_def)
  moreover obtain s where "rest_type body = TStruct s" by (cases body) auto
  ultimately show ?thesis using op(2) by (auto simp: response_in_def responses_def intro!: struct_known)
qed

definition rest_conforms :: "json_any \<Rightarrow> rest_body http_response \<Rightarrow> bool" where
  "rest_conforms doc resp \<longleftrightarrow> (case rs_Body resp of
      JsonBody body \<Rightarrow> schema_accepts (document_schemas doc) (AnyMap (ref_to (schema_name relais_types (rest_type body)))) (rest_json body)
    | ErrorEnvelope e \<Rightarrow> 400 \<le> rs_Status resp \<and> schema_accepts (document_schemas doc) (AnyMap (ref_to ''Error'')) (error_json e)
    | NoBody \<Rightarrow> False)"

lemma public_schemas: "document_schemas (public_document version) = schemas_of public_builder"
  by (simp add: public_document_def)

lemma rest_body_conforms: "rs_Body resp = JsonBody body \<Longrightarrow> rest_conforms (public_document version) resp"
proof -
  assume body: "rs_Body resp = JsonBody body"
  obtain s where s: "rest_type body = TStruct s" by (cases body) auto
  show ?thesis using public_doc.encoded_conforms [OF rest_typed rest_known, of body] body
    by (simp add: rest_conforms_def public_schemas rest_json_def s struct_schema_ref)
qed

lemma rest_error_conforms:
  assumes "rs_Body resp = ErrorEnvelope e" "400 \<le> rs_Status resp"
  shows "rest_conforms (public_document version) resp"
proof -
  have "field_known relais_types (responses public_builder) (TStruct ''errorEnvelope'')"
    using document_of_facts(4) [OF tables_fit(2)] by (intro struct_known) (simp_all add: error_name)
  from public_doc.encoded_conforms [OF more_values_typed(3) [of e] this] show ?thesis
    using assms by (simp add: rest_conforms_def public_schemas struct_schema_ref error_name error_json_def)
qed

lemma rest_writers_conform:
  "rest_conforms (public_document version) writeInternal" "rest_conforms (public_document version) writeUnavailable"
  "rest_conforms (public_document version) writeUnauthorized" "rest_conforms (public_document version) no_such_message"
  "rest_conforms (public_document version) (writeRejection srv rej)" "rest_conforms (public_document version) (writeBuildError srv e)"
  using rejection_status_range [of "rej_Reason rej"] by (auto intro!: rest_error_conforms simp: error_writers)

lemma decodeJSON_conforms: "decodeJSON d = Inl resp \<Longrightarrow> rest_conforms (public_document version) resp"
  by (auto intro!: rest_error_conforms simp: decodeJSON_def error_writers split: decoded.splits if_splits)

lemma requireAPIKey_conforms:
  "run_state (requireAPIKey srv authorization info) w = (Inl resp, w') \<Longrightarrow> rest_conforms (public_document version) resp"
  by (auto simp: requireAPIKey_def rest_writers_conform split: sum.splits if_splits prod.splits)

lemma handleSendEmail_conforms:
  "rest_conforms (public_document version) (fst (fst (run_state (handleSendEmail srv info key body lm) w)))"
  by (auto simp: handleSendEmail_def rest_writers_conform decodeJSON_conforms writeJSON_def intro: rest_body_conforms split: option.splits sum.splits prod.splits)

lemma handleGetEmail_conforms: "rest_conforms (public_document version) (fst (run_state (handleGetEmail srv info i) w))"
  by (auto simp: handleGetEmail_def rest_writers_conform writeJSON_def intro: rest_body_conforms split: option.splits sum.splits prod.splits)

theorem public_answers_conform:
  "rest_conforms (public_document version) (fst (fst (run_state (post_emails srv authorization key info body lm) w)))"
  "rest_conforms (public_document version) (fst (run_state (get_email srv authorization info idText) w))"
proof -
  obtain r w1 where r: "run_state (requireAPIKey srv authorization info) w = (r, w1)" by fastforce
  show "rest_conforms (public_document version) (fst (fst (run_state (post_emails srv authorization key info body lm) w)))"
    using r handleSendEmail_conforms requireAPIKey_conforms by (cases r) (auto simp: post_emails_def)
  show "rest_conforms (public_document version) (fst (run_state (get_email srv authorization info idText) w))"
    using r handleGetEmail_conforms requireAPIKey_conforms by (cases r) (auto simp: get_email_def)
qed

section \<open>Documented and answered statuses\<close>

lemma fold_update_dom: "map_of (fold (\<lambda>x. AList.update (f x) (g x)) xs m) k \<noteq> None \<longleftrightarrow> k \<in> f ` set xs \<or> map_of m k \<noteq> None"
  by (induction xs arbitrary: m) (auto simp: update_conv')

lemma nub_by_self: "set (nub_by (\<lambda>x. x) [] xs) = set xs"
  using nub_by_keys [of "\<lambda>x. x" "[]" xs] by simp

text \<open>The statuses of an operation in a document.\<close>

lemma documented_statuses:
  assumes "shown env paths op"
  shows "response_entry (openapi_document surface version paths b) (op_Method op) (op_Path op) status \<noteq> None \<longleftrightarrow>
    status = op_Status op \<or> status \<in> set (documented_errors op)"
proof -
  obtain body where body: "map_of (path_item paths (op_Path op)) (map ascii_lower (op_Method op)) =
      Some (AnyMap (operation_object op body (success_schema env op)))" "map_of body ''responses'' = None"
    using assms by (auto simp: shown_def)
  then have "map_of paths (op_Path op) = Some (path_item paths (op_Path op))" by (auto simp: path_item_def split: option.splits)
  then have "response_entry (openapi_document surface version paths b) (op_Method op) (op_Path op) status =
      map_of (render_responses op (success_schema env op)) (show_nat status)"
    using body by (simp add: response_entry_def openapi_document_def map_of_items operation_responses split: option.splits)
  then show ?thesis by (auto simp: render_responses_def fold_update_dom nub_by_self simp del: not_None_eq)
qed

lemma listed_statuses_all:
  "(list_all (\<lambda>op. 503 \<notin> set (op_Status op # documented_errors op) \<and> 413 \<notin> set (op_Status op # documented_errors op)) (adminOperations @ publicOperations)) \<and>
   (list_all (\<lambda>op. op_Path op = ''/v1/emails'' \<longrightarrow> 200 \<notin> set (op_Status op # documented_errors op)) publicOperations) \<and>
   (list_all (\<lambda>op. op_ID op = ''updateCredential'' \<longrightarrow> 409 \<notin> set (op_Status op # documented_errors op)) adminOperations)"
  by code_simp

lemmas listed_statuses =
  listed_statuses_all [THEN conjunct1]
  listed_statuses_all [THEN conjunct2, THEN conjunct1]
  listed_statuses_all [THEN conjunct2, THEN conjunct2]

text \<open>
  Three gaps. An outage is answered with 503 and a body that is too large with 413, and no operation lists either. A replayed submission is
  answered with 200, and \<^verbatim>\<open>sendEmail\<close> lists 202 alone. And a credential renamed to a taken name is answered with 409, which \<^verbatim>\<open>updateCredential\<close>
  does not list.
\<close>

lemma outages_undocumented:
  assumes "documented_by route op"
  shows "response_entry (admin_document version) (fst (route_pattern route)) (snd (route_pattern route)) 503 = None"
    "response_entry (admin_document version) (fst (route_pattern route)) (snd (route_pattern route)) 413 = None"
    "rs_Status (writeUnavailable :: admin_body http_response) = 503"
proof -
  have op: "op \<in> set adminOperations" "route_pattern route = (op_Method op, op_Path op)" using assms by (simp_all add: documented_by_def)
  have shown: "shown relais_types (fst (document_of adminOperations)) op" using document_of_facts(3) [OF tables_fit(1)] op(1) by blast
  show "response_entry (admin_document version) (fst (route_pattern route)) (snd (route_pattern route)) 503 = None"
    "response_entry (admin_document version) (fst (route_pattern route)) (snd (route_pattern route)) 413 = None"
    using documented_statuses [OF shown, of SurfaceAdmin version admin_builder 503] documented_statuses [OF shown, of SurfaceAdmin version admin_builder 413]
      listed_statuses(1) op by (auto simp: admin_document_def list_all_iff)
  show "rs_Status (writeUnavailable :: admin_body http_response) = 503" by (simp add: error_status)
qed

lemma replay_undocumented:
  "response_entry (public_document version) ''POST'' ''/v1/emails'' 200 = None"
  "response_entry (public_document version) ''POST'' ''/v1/emails'' 202 \<noteq> None"
proof -
  have "(''POST'', ''/v1/emails'', 202) \<in> set (map (\<lambda>op. (op_Method op, op_Path op, op_Status op)) publicOperations)"
    by (simp add: publicOperations_def no_operation_def)
  then obtain op where op: "op \<in> set publicOperations" "op_Method op = ''POST''" "op_Path op = ''/v1/emails''" "op_Status op = 202" by auto
  have shown: "shown relais_types (fst (document_of publicOperations)) op" using document_of_facts(3) [OF tables_fit(2)] op(1) by blast
  note statuses = documented_statuses [OF shown, of SurfacePublic version public_builder, folded public_document_def, unfolded op(2,3,4)]
  show "response_entry (public_document version) ''POST'' ''/v1/emails'' 200 = None"
    using statuses [of 200] listed_statuses(2) op by (auto simp: list_all_iff)
  show "response_entry (public_document version) ''POST'' ''/v1/emails'' 202 \<noteq> None" using statuses [of 202] by simp
qed

lemma rename_conflict_undocumented:
  "response_entry (admin_document version) ''PATCH'' ''/admin/v1/credentials/{id}'' 409 = None"
  "rs_Status (refusal srv field (ErrConflict c) :: admin_body http_response) = 409"
proof -
  have "(''PATCH'', ''/admin/v1/credentials/{id}'', ''updateCredential'') \<in> set (map (\<lambda>op. (op_Method op, op_Path op, op_ID op)) adminOperations)"
    by (simp add: adminOperations_def credential_operations_def no_operation_def)
  then obtain op where op: "op \<in> set adminOperations" "op_Method op = ''PATCH''" "op_Path op = ''/admin/v1/credentials/{id}''" "op_ID op = ''updateCredential''"
    by auto
  have shown: "shown relais_types (fst (document_of adminOperations)) op" using document_of_facts(3) [OF tables_fit(1)] op(1) by blast
  note statuses = documented_statuses [OF shown, of SurfaceAdmin version admin_builder, folded admin_document_def, unfolded op(2,3)]
  show "response_entry (admin_document version) ''PATCH'' ''/admin/v1/credentials/{id}'' 409 = None"
    using statuses [of 409] listed_statuses(3) op by (auto simp: list_all_iff)
  show "rs_Status (refusal srv field (ErrConflict c) :: admin_body http_response) = 409" by (simp add: refusal_def error_writers)
qed

text \<open>A status the filter of the message log lists is one no message can have; and the comparison of required lists is not one of sets.\<close>

lemma partial_is_no_status: "''partial'' \<notin> {StatusQueued, StatusSending, StatusSent, StatusFailed, StatusRejected}"
  by code_simp

lemma sameStrings_deceived: "sameStrings [''name'', ''host''] [''name'', ''name''] \<and> \<not> sameStrings [''name'', ''name''] [''name'', ''host'']"
  by code_simp

end
