(* ===== verification/Cmd_Openapi.thy ===== *)
theory Cmd_Openapi
  imports Cmd_Cli Api_Contract
begin

text \<open>
  The command \<^verbatim>\<open>relais openapi\<close> (\<^verbatim>\<open>src/cmd/relais/cmd_openapi.go\<close>), on a file system of which only the files read and written are known.
\<close>

section \<open>The command\<close>

record file_world =
  fw_files :: "string \<Rightarrow> (string, string) result"
  fw_MkdirAll :: "string \<Rightarrow> string option"
  fw_WriteFile :: "string \<Rightarrow> string option"
  fw_Stdout :: "string option"

datatype openapi_cli_error =
    OpenapiFlags flag_error | UnexpectedArgument string | OutAndCheck | NoDocument openapi_error
  | ReadingFailed string string | OutOfDate string string | MkdirFailed string | WriteFailed string | StdoutFailed string

datatype openapi_output = CheckedFile | WroteFile string string | Printed string

definition openapi_flags :: "(string \<times> flag_kind) list" where
  "openapi_flags = [(''surface'', TextFlag), (''o'', TextFlag), (''check'', TextFlag), (''version'', TextFlag)]"

definition checkOpenAPI :: "file_world \<Rightarrow> string \<Rightarrow> string \<Rightarrow> string \<Rightarrow> (openapi_cli_error, openapi_output) result" where
  "checkOpenAPI fw path fresh surface =
     and_then (map_err (ReadingFailed path) (fw_files fw path)) (\<lambda>committed.
       if committed = fresh then Inr CheckedFile else Inl (OutOfDate path surface))"

text \<open>The directory is created before the file; \<open>fw_MkdirAll\<close> is what becomes of it, for the path of the file.\<close>

definition write_document :: "file_world \<Rightarrow> string \<Rightarrow> string \<Rightarrow> (openapi_cli_error, openapi_output) result" where
  "write_document fw out document =
     and_then (error_or MkdirFailed (fw_MkdirAll fw out)) (\<lambda>_.
     and_then (error_or WriteFailed (fw_WriteFile fw out)) (\<lambda>_.
       Inr (WroteFile out document)))"

definition cmdOpenAPI :: "flag_lib \<Rightarrow> file_world \<Rightarrow> string list \<Rightarrow> (openapi_cli_error, openapi_output) result" where
  "cmdOpenAPI x fw args =
     and_then (map_err OpenapiFlags (flag_Parse x openapi_flags args)) (\<lambda>(ss, rest).
     and_then (case rest of [] \<Rightarrow> Inr () | a # _ \<Rightarrow> Inl (UnexpectedArgument a)) (\<lambda>_.
     let surface = flag_text ss ''surface'' ''admin''; out = flag_text ss ''o'' []; checked = flag_text ss ''check'' [];
         version = flag_text ss ''version'' []; stamp = (if version = [] then APIVersion else version) in
     and_then (fail_if (out \<noteq> [] \<and> checked \<noteq> []) OutAndCheck) (\<lambda>_.
     and_then (map_err NoDocument (OpenAPI surface stamp)) (\<lambda>document.
       if checked \<noteq> [] then checkOpenAPI fw checked document surface
       else if out \<noteq> [] then write_document fw out document
       else and_then (error_or StdoutFailed (fw_Stdout fw)) (\<lambda>_. Inr (Printed document))))))"

text \<open>The files after a run.\<close>

definition after_output :: "file_world \<Rightarrow> (openapi_cli_error, openapi_output) result \<Rightarrow> file_world" where
  "after_output fw r = (case r of Inr (WroteFile path document) \<Rightarrow> fw\<lparr>fw_files := (fw_files fw)(path := Inr document)\<rparr> | _ \<Rightarrow> fw)"

section \<open>What it does\<close>

lemma openapi_args:
  assumes "path \<noteq> []"
  shows "flag_Parse x openapi_flags [''-surface'', surface, ''-o'', path] = Inr ([(''surface'', FlagText surface), (''o'', FlagText path)], [])"
    "flag_Parse x openapi_flags [''-surface'', surface, ''-check'', path] = Inr ([(''surface'', FlagText surface), (''check'', FlagText path)], [])"
  by (simp_all add: flag_Parse.simps flag_minuses_def flag_split_def bad_flag_name_def with_note_def flag_note_def flag_Set_def openapi_flags_def)

text \<open>A document that was written passes the check until its file or the generator changes; a file with any other text fails it.\<close>

theorem written_document_checks:
  assumes "path \<noteq> []" "cmdOpenAPI x fw [''-surface'', surface, ''-o'', path] = Inr r"
  shows "cmdOpenAPI x (after_output fw (Inr r)) [''-surface'', surface, ''-check'', path] = Inr CheckedFile"
    "fw_files fw' path = Inr text \<Longrightarrow> fw_files fw' path \<noteq> fw_files (after_output fw (Inr r)) path \<Longrightarrow>
      cmdOpenAPI x fw' [''-surface'', surface, ''-check'', path] = Inl (OutOfDate path surface)"
proof -
  have "\<exists>document. OpenAPI surface APIVersion = Inr document \<and> r = WroteFile path document"
    using assms by (auto simp: cmdOpenAPI_def openapi_args flag_text_def settings_of_def write_document_def)
  then obtain document where d: "OpenAPI surface APIVersion = Inr document" "r = WroteFile path document" by blast
  show "cmdOpenAPI x (after_output fw (Inr r)) [''-surface'', surface, ''-check'', path] = Inr CheckedFile"
    using assms(1) d by (simp add: cmdOpenAPI_def openapi_args flag_text_def settings_of_def checkOpenAPI_def after_output_def)
  show "cmdOpenAPI x fw' [''-surface'', surface, ''-check'', path] = Inl (OutOfDate path surface)"
    if "fw_files fw' path = Inr text" "fw_files fw' path \<noteq> fw_files (after_output fw (Inr r)) path"
    using assms(1) d that by (simp add: cmdOpenAPI_def openapi_args flag_text_def settings_of_def checkOpenAPI_def after_output_def)
qed

text \<open>Neither surface can fail to be generated; only an unknown one is refused.\<close>

lemma openapi_surfaces:
  "(\<exists>document. OpenAPI surface version = Inr document) \<longleftrightarrow> surface = SurfaceAdmin \<or> surface = SurfacePublic"
  using document_of_facts(1) [OF tables_fit(1)] document_of_facts(1) [OF tables_fit(2)]
  by (auto simp: OpenAPI_def operationsFor_def split: prod.splits)

end
