(* ===== verification/Migrations.thy ===== *)
theory Migrations
  imports Cmd_Cli
begin

text \<open>
  The connection pool (\<^verbatim>\<open>src/internal/db/db.go\<close>), the migrations (\<^verbatim>\<open>src/internal/db/migrate.go\<close>) and their command
  (\<^verbatim>\<open>src/cmd/relais/cmd_migrate.go\<close>). The pool of pgx, the migrators goose and river and the schemas they work on are parameters.

  The advisory lock is modelled twice: as the sequence of calls of one run (\<open>withMigrationLock\<close>), and as the steps of several replicas on one
  database, each with a pool of its own (\<open>replica_step\<close>, \<open>fleet_run\<close>), where PostgreSQL keeps what it documents of a session-level lock: one
  session has it, the others wait, and it ends with an unlock or with its session.
\<close>

section \<open>The pool\<close>

datatype exec_mode = CacheDescribe | ExecMode | CacheStatement

record pool_config =
  pc_MaxConns :: int
  pc_MinConns :: int
  pc_MaxConnLifetime :: int
  pc_MaxConnIdleTime :: int
  pc_ConnectTimeout :: int
  pc_DefaultQueryExecMode :: exec_mode
  pc_RuntimeParams :: "(string \<times> string) list"

text \<open>\<^verbatim>\<open>pgxpool.ParseConfig\<close>, \<^verbatim>\<open>pgxpool.NewWithConfig\<close> and a ping within a time.\<close>

record pool_lib =
  pl_ParseConfig :: "string \<Rightarrow> (string, pool_config) result"
  pl_NewWithConfig :: "pool_config \<Rightarrow> string option"
  pl_Ping :: "int \<Rightarrow> string option"

datatype pool_error = BadDSN string | NoPool string | NoPing string

definition query_exec_mode :: "string \<Rightarrow> exec_mode" where
  "query_exec_mode mode = (if mode = ''describe'' then CacheDescribe else if mode = ''none'' then ExecMode else CacheStatement)"

definition pool_settings :: "Service_Config \<Rightarrow> pool_config \<Rightarrow> pool_config" where
  "pool_settings cfg base =
     (let d = cf_Database cfg in
      base\<lparr>pc_MaxConns := dbc_MaxConns d, pc_MinConns := dbc_MinConns d, pc_MaxConnLifetime := dbc_MaxConnLifetime d,
        pc_MaxConnIdleTime := dbc_MaxConnIdleTime d, pc_ConnectTimeout := dbc_ConnectTimeout d,
        pc_DefaultQueryExecMode := query_exec_mode (dbc_StatementCacheMode d),
        pc_RuntimeParams := (if map_of (pc_RuntimeParams base) ''application_name'' \<noteq> None then pc_RuntimeParams base
          else AList.update ''application_name'' (cf_ServiceName cfg) (pc_RuntimeParams base))\<rparr>)"

text \<open>An open pool is known by its settings.\<close>

definition db_Open :: "pool_lib \<Rightarrow> Service_Config \<Rightarrow> (pool_error, pool_config) result" where
  "db_Open x cfg =
     and_then (map_err BadDSN (pl_ParseConfig x (dbc_URL (cf_Database cfg)))) (\<lambda>base.
     let poolCfg = pool_settings cfg base in
     and_then (error_or NoPool (pl_NewWithConfig x poolCfg)) (\<lambda>_.
     and_then (error_or NoPing (pl_Ping x (dbc_ConnectTimeout (cf_Database cfg)))) (\<lambda>_.
       Inr poolCfg)))"

definition db_Healthy :: "pool_lib \<Rightarrow> string option" where
  "db_Healthy x = pl_Ping x (2 * second)"

section \<open>Migrations\<close>

text \<open>
  What goose and river do to the schemas. \<open>'a\<close> is the application schema, \<open>'r\<close> that of river; a migrator returns the steps it took with its error, and
  leaves the schema as far as it came.
\<close>

datatype goose_error = ErrNoNextVersion | ErrNoMigrations | GooseError string

record goose_result =
  gr_Version :: nat
  gr_Path :: string
  gr_Duration :: string

record goose_status =
  gs_Version :: nat
  gs_Path :: string
  gs_Applied :: bool

record ('a, 'r) migrate_lib =
  ml_NewProvider :: "string option"
  ml_Up :: "'a \<Rightarrow> (goose_error option \<times> goose_result list) \<times> 'a"
  ml_Down :: "'a \<Rightarrow> (goose_error option \<times> goose_result option) \<times> 'a"
  ml_Status :: "'a \<Rightarrow> (string, goose_status list) result"
  ml_NewRiver :: "string option"
  ml_Migrate :: "'r \<Rightarrow> (string, (nat \<times> string) list) result \<times> 'r"
  ml_Acquire :: "string option"
  ml_Lock :: "string option"
  ml_Unlock :: "string option"

datatype migrate_error =
    NoProvider string | GooseFailed goose_error | NoRiver string | RiverFailed string | AppSchema migrate_error | RiverSchema migrate_error
  | NoConnection string | NoLock string | NoStatus string

datatype migrationMode = modeUp | modeDown

record MigrateResult =
  mr_AppSteps :: "string list"
  mr_RiverSteps :: "string list"

definition MigrateResult_Empty :: "MigrateResult \<Rightarrow> bool" where
  "MigrateResult_Empty r \<longleftrightarrow> mr_AppSteps r = [] \<and> mr_RiverSteps r = []"

definition app_step :: "goose_result \<Rightarrow> string" where
  "app_step r = show_nat (gr_Version r) @ '' '' @ gr_Path r @ '' ('' @ gr_Duration r @ '')''"

text \<open>Having nothing to do is not an error; the steps of a run that failed are dropped.\<close>

definition goose_steps :: "goose_error option \<Rightarrow> goose_result list \<Rightarrow> (migrate_error, string list) result" where
  "goose_steps err results =
     (case err of
        Some (GooseError e) \<Rightarrow> Inl (GooseFailed (GooseError e))
      | _ \<Rightarrow> Inr (map app_step results))"

definition migrateApp :: "('a, 'r) migrate_lib \<Rightarrow> migrationMode \<Rightarrow> 'a \<Rightarrow> (migrate_error, string list) result \<times> 'a" where
  "migrateApp x mode app =
     (case ml_NewProvider x of
        Some e \<Rightarrow> (Inl (NoProvider e), app)
      | None \<Rightarrow>
          (case mode of
             modeUp \<Rightarrow> (case ml_Up x app of ((err, results), app') \<Rightarrow> (goose_steps err results, app'))
           | modeDown \<Rightarrow> (case ml_Down x app of ((err, one), app') \<Rightarrow>
               (goose_steps err (case one of Some r \<Rightarrow> [r] | None \<Rightarrow> []), app'))))"

definition migrateRiver :: "('a, 'r) migrate_lib \<Rightarrow> 'r \<Rightarrow> (migrate_error, string list) result \<times> 'r" where
  "migrateRiver x river =
     (case ml_NewRiver x of
        Some e \<Rightarrow> (Inl (NoRiver e), river)
      | None \<Rightarrow>
          (case ml_Migrate x river of
             (Inl e, river') \<Rightarrow> (Inl (RiverFailed e), river')
           | (Inr versions, river') \<Rightarrow> (Inr (map (\<lambda>(v, name). ''river '' @ show_nat v @ '' '' @ name) versions), river')))"

text \<open>A lock that cannot be given back is only logged.\<close>

definition withMigrationLock :: "('a, 'r) migrate_lib \<Rightarrow> ('s \<Rightarrow> migrate_error option \<times> 's) \<Rightarrow> 's \<Rightarrow> migrate_error option \<times> 's" where
  "withMigrationLock x fn s =
     (case ml_Acquire x of
        Some e \<Rightarrow> (Some (NoConnection e), s)
      | None \<Rightarrow> (case ml_Lock x of Some e \<Rightarrow> (Some (NoLock e), s) | None \<Rightarrow> fn s))"

definition up_work :: "('a, 'r) migrate_lib \<Rightarrow> MigrateResult \<times> 'a \<times> 'r \<Rightarrow> migrate_error option \<times> MigrateResult \<times> 'a \<times> 'r" where
  "up_work x = (\<lambda>(res, app, river).
     case migrateApp x modeUp app of
       (Inl e, app') \<Rightarrow> (Some (AppSchema e), res, app', river)
     | (Inr appSteps, app') \<Rightarrow>
         (let res' = res\<lparr>mr_AppSteps := appSteps\<rparr> in
          case migrateRiver x river of
            (Inl e, river') \<Rightarrow> (Some (RiverSchema e), res', app', river')
          | (Inr riverSteps, river') \<Rightarrow> (None, res'\<lparr>mr_RiverSteps := riverSteps\<rparr>, app', river')))"

definition down_work :: "('a, 'r) migrate_lib \<Rightarrow> MigrateResult \<times> 'a \<times> 'r \<Rightarrow> migrate_error option \<times> MigrateResult \<times> 'a \<times> 'r" where
  "down_work x = (\<lambda>(res, app, river).
     case migrateApp x modeDown app of
       (Inl e, app') \<Rightarrow> (Some (AppSchema e), res, app', river)
     | (Inr appSteps, app') \<Rightarrow> (None, res\<lparr>mr_AppSteps := appSteps\<rparr>, app', river))"

definition no_steps :: MigrateResult where
  "no_steps = \<lparr>mr_AppSteps = [], mr_RiverSteps = []\<rparr>"

definition MigrateUp :: "('a, 'r) migrate_lib \<Rightarrow> 'a \<times> 'r \<Rightarrow> (MigrateResult \<times> migrate_error option) \<times> 'a \<times> 'r" where
  "MigrateUp x db = (case withMigrationLock x (up_work x) (no_steps, db) of (err, res, db') \<Rightarrow> ((res, err), db'))"

definition MigrateDown :: "('a, 'r) migrate_lib \<Rightarrow> 'a \<times> 'r \<Rightarrow> (MigrateResult \<times> migrate_error option) \<times> 'a \<times> 'r" where
  "MigrateDown x db = (case withMigrationLock x (down_work x) (no_steps, db) of (err, res, db') \<Rightarrow> ((res, err), db'))"

record MigrationStatus =
  mst_Version :: nat
  mst_State :: string
  mst_Source :: string

definition MigrateStatus :: "('a, 'r) migrate_lib \<Rightarrow> 'a \<Rightarrow> (migrate_error, MigrationStatus list) result" where
  "MigrateStatus x app =
     and_then (error_or NoProvider (ml_NewProvider x)) (\<lambda>_.
     and_then (map_err NoStatus (ml_Status x app)) (\<lambda>sources.
       Inr (map (\<lambda>s. \<lparr>mst_Version = gs_Version s, mst_State = (if gs_Applied s then ''applied'' else ''pending''), mst_Source = gs_Path s\<rparr>) sources)))"

section \<open>The command\<close>

datatype migrate_cli_error = MigrateFlags flag_error | MigrateSession session_error | MigrateFailed migrate_error | UnknownAction string

definition step_lines :: "string \<Rightarrow> string \<Rightarrow> MigrateResult \<Rightarrow> bool \<Rightarrow> cli_line list" where
  "step_lines nothing verb res both =
     (if MigrateResult_Empty res then [Said nothing]
      else map (\<lambda>step. Said (verb @ step)) (mr_AppSteps res @ (if both then mr_RiverSteps res else [])))"

definition status_lines :: "MigrationStatus list \<Rightarrow> cli_line list" where
  "status_lines rows =
     (if rows = [] then [Said ''no migrations found'']
      else RowLine [''VERSION'', ''STATE'', ''SOURCE''] # map (\<lambda>r. RowLine [show_nat (mst_Version r), mst_State r, mst_Source r]) rows)"

definition cmdMigrate :: "cli_env \<Rightarrow> ('a, 'r) migrate_lib \<Rightarrow> string list \<Rightarrow> 'a \<times> 'r \<Rightarrow> (cli_line list \<times> migrate_cli_error option) \<times> 'a \<times> 'r" where
  "cmdMigrate env x args db =
     (case flag_Parse (ce_flags env) [] args of
        Inl e \<Rightarrow> (([], Some (MigrateFlags e)), db)
      | Inr (_, rest) \<Rightarrow>
          (let action = (case rest of [] \<Rightarrow> ''up'' | a # _ \<Rightarrow> a) in
           case openSession (ce_session env) False of
             Inl e \<Rightarrow> (([], Some (MigrateSession e)), db)
           | Inr _ \<Rightarrow>
               if action = ''up'' then
                 (case MigrateUp x db of
                    ((res, Some e), db') \<Rightarrow> (([], Some (MigrateFailed e)), db')
                  | ((res, None), db') \<Rightarrow> ((step_lines ''schema already up to date'' ''applied '' res True, None), db'))
               else if action = ''down'' then
                 (case MigrateDown x db of
                    ((res, Some e), db') \<Rightarrow> (([], Some (MigrateFailed e)), db')
                  | ((res, None), db') \<Rightarrow> ((step_lines ''nothing to roll back'' ''rolled back '' res False, None), db'))
               else if action = ''status'' then
                 (case MigrateStatus x (fst db) of
                    Inl e \<Rightarrow> (([], Some (MigrateFailed e)), db)
                  | Inr rows \<Rightarrow> ((status_lines rows, None), db))
               else (([], Some (UnknownAction action)), db)))"

section \<open>Several replicas at once\<close>

text \<open>
  Where a run of \<open>MigrateUp\<close> is. Between two of these points other replicas may move; the two migrators are one move each. \<open>Gone\<close>: the process has
  ended, on its own or not.
\<close>

datatype run_pc =
    Starting | Connected | Locked | AppDone "string list"
  | Unlocking "MigrateResult \<times> migrate_error option" | Releasing "MigrateResult \<times> migrate_error option"
  | Returned "MigrateResult \<times> migrate_error option" | Gone

text \<open>\<open>fl_log\<close> is kept for the proofs only: the replicas that got the lock, the last one first, with the number of migrators each has called.\<close>

record ('a, 'r) fleet =
  fl_pc :: "nat \<Rightarrow> run_pc"
  fl_owner :: "nat option"
  fl_db :: "'a \<times> 'r"
  fl_log :: "(nat \<times> nat) list"

definition fleet_start :: "'a \<times> 'r \<Rightarrow> ('a, 'r) fleet" where
  "fleet_start db = \<lparr>fl_pc = (\<lambda>_. Starting), fl_owner = None, fl_db = db, fl_log = []\<rparr>"

definition moved :: "nat \<Rightarrow> run_pc \<Rightarrow> ('a, 'r) fleet \<Rightarrow> ('a, 'r) fleet" where
  "moved i pc s = s\<lparr>fl_pc := (fl_pc s)(i := pc)\<rparr>"

definition after_app :: "(migrate_error, string list) result \<Rightarrow> run_pc" where
  "after_app r = (case r of Inl e \<Rightarrow> Unlocking (no_steps, Some (AppSchema e)) | Inr steps \<Rightarrow> AppDone steps)"

definition after_river :: "string list \<Rightarrow> (migrate_error, string list) result \<Rightarrow> run_pc" where
  "after_river appSteps r =
     (let res = no_steps\<lparr>mr_AppSteps := appSteps\<rparr> in
      Unlocking (case r of Inl e \<Rightarrow> (res, Some (RiverSchema e)) | Inr steps \<Rightarrow> (res\<lparr>mr_RiverSteps := steps\<rparr>, None)))"

text \<open>
  The next move of replica \<open>i\<close>, \<open>None\<close> when it has to wait or has returned. The lock sits on a connection of its own, so a migrator needs a second
  one of the pool, \<open>cap i\<close> connections wide.
\<close>

definition replica_step :: "(nat \<Rightarrow> ('a, 'r) migrate_lib) \<Rightarrow> (nat \<Rightarrow> int) \<Rightarrow> nat \<Rightarrow> ('a, 'r) fleet \<Rightarrow> ('a, 'r) fleet option" where
  "replica_step x cap i s =
     (case fl_pc s i of
        Starting \<Rightarrow>
          (case ml_Acquire (x i) of
             Some e \<Rightarrow> Some (moved i (Returned (no_steps, Some (NoConnection e))) s)
           | None \<Rightarrow> if cap i < 1 then None else Some (moved i Connected s))
      | Connected \<Rightarrow>
          (case ml_Lock (x i) of
             Some e \<Rightarrow> Some (moved i (Releasing (no_steps, Some (NoLock e))) s)
           | None \<Rightarrow> if fl_owner s \<noteq> None then None else Some (moved i Locked s\<lparr>fl_owner := Some i, fl_log := (i, 0) # fl_log s\<rparr>))
      | Locked \<Rightarrow>
          (if ml_NewProvider (x i) = None \<and> cap i < 2 then None
           else case migrateApp (x i) modeUp (fst (fl_db s)) of
             (r, app') \<Rightarrow> Some (moved i (after_app r) s\<lparr>fl_db := (app', snd (fl_db s)), fl_log := (i, 1) # tl (fl_log s)\<rparr>))
      | AppDone appSteps \<Rightarrow>
          (if ml_NewRiver (x i) = None \<and> cap i < 2 then None
           else case migrateRiver (x i) (snd (fl_db s)) of
             (r, river') \<Rightarrow> Some (moved i (after_river appSteps r) s\<lparr>fl_db := (fst (fl_db s), river'), fl_log := (i, 2) # tl (fl_log s)\<rparr>))
      | Unlocking r \<Rightarrow> Some (moved i (Releasing r) s\<lparr>fl_owner := (if ml_Unlock (x i) = None then None else fl_owner s)\<rparr>)
      | Releasing r \<Rightarrow> Some (moved i (Returned r) s)
      | _ \<Rightarrow> None)"

text \<open>A process that ends takes its sessions along; \<open>Loses\<close>: the session that has the lock breaks, and the process goes on.\<close>

datatype fleet_event = Goes nat | Quits nat | Loses

definition fleet_do :: "(nat \<Rightarrow> ('a, 'r) migrate_lib) \<Rightarrow> (nat \<Rightarrow> int) \<Rightarrow> fleet_event \<Rightarrow> ('a, 'r) fleet \<Rightarrow> ('a, 'r) fleet option" where
  "fleet_do x cap ev s =
     (case ev of
        Goes i \<Rightarrow> replica_step x cap i s
      | Quits i \<Rightarrow> Some (moved i Gone s\<lparr>fl_owner := (if fl_owner s = Some i then None else fl_owner s)\<rparr>)
      | Loses \<Rightarrow> Some (s\<lparr>fl_owner := None\<rparr>))"

fun fleet_run :: "(nat \<Rightarrow> ('a, 'r) migrate_lib) \<Rightarrow> (nat \<Rightarrow> int) \<Rightarrow> fleet_event list \<Rightarrow> ('a, 'r) fleet \<Rightarrow> ('a, 'r) fleet option" where
  "fleet_run x cap [] s = Some s"
| "fleet_run x cap (ev # evs) s = (case fleet_do x cap ev s of None \<Rightarrow> None | Some s' \<Rightarrow> fleet_run x cap evs s')"

text \<open>What the replicas of a log leave, one after the other: the one that called both migrators, or whose first one failed, did all of \<open>MigrateUp\<close>.\<close>

definition part_run :: "('a, 'r) migrate_lib \<Rightarrow> nat \<Rightarrow> 'a \<times> 'r \<Rightarrow> 'a \<times> 'r" where
  "part_run x n db = (if n = 0 then db else if n = 1 then (snd (migrateApp x modeUp (fst db)), snd db) else snd (MigrateUp x db))"

fun replay_runs :: "(nat \<Rightarrow> ('a, 'r) migrate_lib) \<Rightarrow> 'a \<times> 'r \<Rightarrow> (nat \<times> nat) list \<Rightarrow> 'a \<times> 'r" where
  "replay_runs x db [] = db"
| "replay_runs x db ((i, n) # runs) = part_run (x i) n (replay_runs x db runs)"

end
