(* ===== verification/Migration_Facts.thy ===== *)
theory Migration_Facts
  imports Migrations
begin

text \<open>
  The pool and the migrations, proved: what a run reports on each of its branches, that replicas migrating at once do what they would one after the
  other, and where the lock falls short: a pool of one connection, a lock session that breaks, an unlock that fails.
\<close>

section \<open>One run\<close>

definition ready :: "('a, 'r) migrate_lib \<Rightarrow> bool" where
  "ready x \<longleftrightarrow> ml_Acquire x = None \<and> ml_Lock x = None"

lemma MigrateUp_app_failed:
  "ready x \<Longrightarrow> migrateApp x modeUp app = (Inl e, app') \<Longrightarrow> MigrateUp x (app, river) = ((no_steps, Some (AppSchema e)), app', river)"
  by (simp add: MigrateUp_def withMigrationLock_def ready_def up_work_def)

lemma MigrateUp_river:
  assumes "ready x" "migrateApp x modeUp app = (Inr steps, app')" "migrateRiver x river = (r, river')"
  shows "\<exists>out. after_river steps r = Unlocking out \<and> MigrateUp x (app, river) = (out, app', river')"
  using assms by (cases r) (simp_all add: MigrateUp_def withMigrationLock_def ready_def up_work_def after_river_def)

lemma MigrateUp_refused:
  "ml_Acquire x = Some e \<Longrightarrow> MigrateUp x db = ((no_steps, Some (NoConnection e)), db)"
  "ml_Acquire x = None \<Longrightarrow> ml_Lock x = Some e \<Longrightarrow> MigrateUp x db = ((no_steps, Some (NoLock e)), db)"
  by (simp_all add: MigrateUp_def withMigrationLock_def)

lemma MigrateDown_keeps_river: "snd (snd (MigrateDown x (app, river))) = river"
  by (auto simp: MigrateDown_def withMigrationLock_def down_work_def split: option.splits prod.splits sum.splits)

section \<open>Several replicas\<close>

text \<open>The replica that got the lock as the first of \<open>runs\<close> returned what it would have, run alone on what the earlier ones left.\<close>

definition alone :: "(nat \<Rightarrow> ('a, 'r) migrate_lib) \<Rightarrow> 'a \<times> 'r \<Rightarrow> nat \<Rightarrow> (nat \<times> nat) list \<Rightarrow> MigrateResult \<times> migrate_error option \<Rightarrow> bool" where
  "alone x db i runs out \<longleftrightarrow> (\<exists>n earlier. runs = (i, n) # earlier \<and> MigrateUp (x i) (replay_runs x db earlier) = (out, replay_runs x db runs))"

definition answered :: "(nat \<Rightarrow> ('a, 'r) migrate_lib) \<Rightarrow> 'a \<times> 'r \<Rightarrow> nat \<Rightarrow> (nat \<times> nat) list \<Rightarrow> MigrateResult \<times> migrate_error option \<Rightarrow> bool" where
  "answered x db i runs out \<longleftrightarrow>
     (\<exists>later own. runs = later @ own \<and> alone x db i own out) \<or> i \<notin> fst ` set runs \<and> (\<forall>any. MigrateUp (x i) any = (out, any))"

definition run_ok :: "(nat \<Rightarrow> ('a, 'r) migrate_lib) \<Rightarrow> 'a \<times> 'r \<Rightarrow> (nat \<times> nat) list \<Rightarrow> nat \<Rightarrow> run_pc \<Rightarrow> bool" where
  "run_ok x db runs i pc =
     (case pc of
        Starting \<Rightarrow> i \<notin> fst ` set runs
      | Connected \<Rightarrow> i \<notin> fst ` set runs \<and> ml_Acquire (x i) = None
      | Locked \<Rightarrow> ready (x i) \<and> (\<exists>earlier. runs = (i, 0) # earlier)
      | AppDone steps \<Rightarrow> ready (x i) \<and> (\<exists>earlier. runs = (i, 1) # earlier \<and> fst (migrateApp (x i) modeUp (fst (replay_runs x db earlier))) = Inr steps)
      | Unlocking out \<Rightarrow> alone x db i runs out
      | Releasing out \<Rightarrow> answered x db i runs out
      | Returned out \<Rightarrow> answered x db i runs out
      | Gone \<Rightarrow> True)"

definition holding :: "run_pc \<Rightarrow> bool" where
  "holding pc \<longleftrightarrow> (case pc of Locked \<Rightarrow> True | AppDone _ \<Rightarrow> True | Unlocking _ \<Rightarrow> True | _ \<Rightarrow> False)"

definition fleet_inv :: "(nat \<Rightarrow> ('a, 'r) migrate_lib) \<Rightarrow> 'a \<times> 'r \<Rightarrow> ('a, 'r) fleet \<Rightarrow> bool" where
  "fleet_inv x db s \<longleftrightarrow>
     fl_db s = replay_runs x db (fl_log s) \<and> distinct (map fst (fl_log s)) \<and>
     (\<forall>i. run_ok x db (fl_log s) i (fl_pc s i)) \<and> (\<forall>i. holding (fl_pc s i) \<longrightarrow> fl_owner s = Some i)"

lemma answered_later: "answered x db i runs out \<Longrightarrow> j \<noteq> i \<Longrightarrow> answered x db i ((j, n) # runs) out"
  unfolding answered_def by (metis append_Cons fst_conv image_insert insert_iff list.simps(15))

lemma alone_answered: "alone x db i runs out \<Longrightarrow> answered x db i runs out"
  unfolding answered_def by (metis append_Nil)

text \<open>Who does not hold the lock does not notice the one who does: a new entry, or the head of the log changed.\<close>

lemma run_ok_lock: "run_ok x db runs j pc \<Longrightarrow> \<not> holding pc \<Longrightarrow> j \<noteq> i \<Longrightarrow> run_ok x db ((i, n) # runs) j pc"
  by (cases pc) (auto simp: run_ok_def holding_def intro: answered_later)

lemma alone_not_head: "runs = (i, n) # earlier \<Longrightarrow> j \<noteq> i \<Longrightarrow> answered x db j runs out \<longleftrightarrow> answered x db j earlier out"
  unfolding answered_def alone_def by (auto simp: append_eq_Cons_conv Cons_eq_append_conv)

lemma run_ok_head:
  "run_ok x db ((i, n) # earlier) j pc \<Longrightarrow> \<not> holding pc \<Longrightarrow> j \<noteq> i \<Longrightarrow> run_ok x db ((i, m) # earlier) j pc"
  by (cases pc) (auto simp: run_ok_def holding_def alone_not_head [OF refl])

lemma fleet_inv_start: "fleet_inv x db (fleet_start db)"
  by (simp add: fleet_inv_def fleet_start_def run_ok_def holding_def)

lemma moved_sel [simp]:
  "fl_pc (moved i pc s) = (fl_pc s)(i := pc)" "fl_owner (moved i pc s) = fl_owner s" "fl_db (moved i pc s) = fl_db s" "fl_log (moved i pc s) = fl_log s"
  by (simp_all add: moved_def)

lemma inv_moved:
  assumes "fleet_inv x db s" "run_ok x db (fl_log s) i pc" "fl_db t = fl_db s" "fl_log t = fl_log s" "fl_pc t = (fl_pc s)(i := pc)"
    and "holding pc \<Longrightarrow> fl_owner t = Some i" "\<And>j. j \<noteq> i \<Longrightarrow> fl_owner s = Some j \<Longrightarrow> fl_owner t = Some j"
  shows "fleet_inv x db t"
  using assms by (auto simp: fleet_inv_def)

lemma inv_lock:
  assumes "fleet_inv x db s" "fl_owner s = None" "fl_pc s i = Connected" "ml_Lock (x i) = None"
  shows "fleet_inv x db (moved i Locked s\<lparr>fl_owner := Some i, fl_log := (i, 0) # fl_log s\<rparr>)"
proof -
  have free: "\<not> holding (fl_pc s j)" for j
    using assms by (auto simp: fleet_inv_def)
  have "run_ok x db (fl_log s) i Connected"
    using assms(1, 3) unfolding fleet_inv_def by metis
  then have own: "i \<notin> fst ` set (fl_log s)" "ml_Acquire (x i) = None"
    by (simp_all add: run_ok_def)
  show ?thesis
    using assms free own by (auto simp: fleet_inv_def part_run_def ready_def run_ok_def [of _ _ _ i Locked] image_iff intro: run_ok_lock)
qed

lemma inv_head:
  assumes "fleet_inv x db s" "holding (fl_pc s i)" "fl_log s = (i, n) # earlier" "run_ok x db ((i, m) # earlier) i pc" "holding pc"
    and "d = part_run (x i) m (replay_runs x db earlier)"
  shows "fleet_inv x db (moved i pc s\<lparr>fl_db := d, fl_log := (i, m) # tl (fl_log s)\<rparr>)"
proof -
  have "\<not> holding (fl_pc s j)" if "j \<noteq> i" for j
    using assms(1, 2) that unfolding fleet_inv_def by (metis option.inject)
  then show ?thesis
    using assms by (auto simp: fleet_inv_def intro: run_ok_head)
qed

lemma inv_app:
  assumes "fleet_inv x db s" "fl_pc s i = Locked" "migrateApp (x i) modeUp (fst (fl_db s)) = (r, app')"
  shows "fleet_inv x db (moved i (after_app r) s\<lparr>fl_db := (app', snd (fl_db s)), fl_log := (i, 1) # tl (fl_log s)\<rparr>)"
proof -
  obtain earlier where runs: "fl_log s = (i, 0) # earlier" and ready: "ready (x i)"
    using assms(1, 2) by (auto simp: fleet_inv_def run_ok_def dest!: spec [of _ i])
  have db: "fl_db s = replay_runs x db earlier"
    using assms(1) runs by (simp add: fleet_inv_def part_run_def)
  have at: "migrateApp (x i) modeUp (fst (replay_runs x db earlier)) = (r, app')"
    using assms(3) db by simp
  show ?thesis
  proof (rule inv_head [OF assms(1) _ runs])
    show "run_ok x db ((i, 1) # earlier) i (after_app r)"
      using at ready MigrateUp_app_failed [OF ready, of "fst (replay_runs x db earlier)" _ app' "snd (replay_runs x db earlier)"]
      by (cases r) (auto simp: run_ok_def after_app_def alone_def part_run_def)
  qed (use assms at db in \<open>auto simp: holding_def after_app_def part_run_def split: sum.splits\<close>)
qed

lemma inv_river:
  assumes "fleet_inv x db s" "fl_pc s i = AppDone steps" "migrateRiver (x i) (snd (fl_db s)) = (r, river')"
  shows "fleet_inv x db (moved i (after_river steps r) s\<lparr>fl_db := (fst (fl_db s), river'), fl_log := (i, 2) # tl (fl_log s)\<rparr>)"
proof -
  obtain earlier where runs: "fl_log s = (i, 1) # earlier" and ready: "ready (x i)"
    and steps: "fst (migrateApp (x i) modeUp (fst (replay_runs x db earlier))) = Inr steps"
    using assms(1, 2) by (auto simp: fleet_inv_def run_ok_def dest!: spec [of _ i])
  obtain app' where app: "migrateApp (x i) modeUp (fst (replay_runs x db earlier)) = (Inr steps, app')"
    using steps by (cases "migrateApp (x i) modeUp (fst (replay_runs x db earlier))") auto
  have db: "fl_db s = (app', snd (replay_runs x db earlier))"
    using assms(1) runs app by (simp add: fleet_inv_def part_run_def)
  obtain out where out: "after_river steps r = Unlocking out" "MigrateUp (x i) (replay_runs x db earlier) = (out, app', river')"
    using MigrateUp_river [OF ready app] assms(3) db by (metis prod.collapse snd_conv)
  show ?thesis
    by (rule inv_head [OF assms(1) _ runs]) (use assms(2) db out in \<open>auto simp: holding_def run_ok_def alone_def part_run_def\<close>)
qed

lemma inv_replica_step:
  assumes inv: "fleet_inv x db s" and step: "replica_step x cap i s = Some t"
  shows "fleet_inv x db t"
proof -
  have ok: "run_ok x db (fl_log s) i (fl_pc s i)"
    using inv by (simp add: fleet_inv_def)
  have owner: "fl_owner s = Some i" if "holding (fl_pc s i)"
    using inv that by (simp add: fleet_inv_def)
  show ?thesis
  proof (cases "fl_pc s i")
    case Starting
    then show ?thesis
      using step ok by (auto simp: replica_step_def run_ok_def answered_def MigrateUp_refused holding_def
          split: option.splits if_splits intro!: inv_moved [OF inv])
  next
    case Connected
    then show ?thesis
      using step ok by (auto simp: replica_step_def run_ok_def answered_def MigrateUp_refused holding_def
          split: option.splits if_splits intro!: inv_moved [OF inv] inv_lock [OF inv])
  next
    case Locked
    then show ?thesis
      using step by (auto simp: replica_step_def simp del: One_nat_def split: if_splits prod.splits intro!: inv_app [OF inv])
  next
    case (AppDone steps)
    then show ?thesis
      using step by (auto simp: replica_step_def split: if_splits prod.splits intro!: inv_river [OF inv])
  next
    case (Unlocking out)
    then have "fl_owner s = Some i"
      using owner by (simp add: holding_def)
    then show ?thesis
      using step ok Unlocking by (auto simp: replica_step_def run_ok_def holding_def intro!: inv_moved [OF inv] dest: alone_answered)
  next
    case (Releasing out)
    then show ?thesis
      using step ok by (auto simp: replica_step_def run_ok_def holding_def intro!: inv_moved [OF inv])
  qed (use step in \<open>simp_all add: replica_step_def\<close>)
qed

lemma inv_quit: "fleet_inv x db s \<Longrightarrow> fleet_inv x db (moved i Gone s\<lparr>fl_owner := (if fl_owner s = Some i then None else fl_owner s)\<rparr>)"
  by (rule inv_moved [where i = i and pc = Gone]) (auto simp: run_ok_def holding_def)

lemma inv_event: "fleet_inv x db s \<Longrightarrow> ev \<noteq> Loses \<Longrightarrow> fleet_do x cap ev s = Some t \<Longrightarrow> fleet_inv x db t"
  by (cases ev) (auto simp: fleet_do_def intro: inv_replica_step inv_quit)

lemma inv_run: "fleet_inv x db s \<Longrightarrow> Loses \<notin> set evs \<Longrightarrow> fleet_run x cap evs s = Some t \<Longrightarrow> fleet_inv x db t"
proof (induction evs arbitrary: s)
  case (Cons ev evs)
  then show ?case
    by (auto split: option.splits intro: inv_event [of x db s ev])
qed simp

section \<open>A pool wide enough, and one that is not\<close>

lemma replica_step_moves:
  "fl_pc s i = Locked \<Longrightarrow> 2 \<le> cap i \<Longrightarrow> \<exists>t. replica_step x cap i s = Some t \<and> ((\<exists>steps. fl_pc t i = AppDone steps) \<or> (\<exists>out. fl_pc t i = Unlocking out))"
  "fl_pc s i = AppDone steps \<Longrightarrow> 2 \<le> cap i \<Longrightarrow> \<exists>t out. replica_step x cap i s = Some t \<and> fl_pc t i = Unlocking out"
  "fl_pc s i = Unlocking out \<Longrightarrow> \<exists>t. replica_step x cap i s = Some t \<and> fl_pc t i = Releasing out \<and> (ml_Unlock (x i) = None \<longrightarrow> fl_owner t = None)"
  "fl_pc s i = Releasing out \<Longrightarrow> \<exists>t. replica_step x cap i s = Some t \<and> fl_pc t i = Returned out \<and> fl_owner t = fl_owner s"
  by (auto simp: replica_step_def after_app_def after_river_def Let_def split: prod.splits sum.splits)

lemma fleet_run_Goes: "replica_step x cap i s = Some t \<Longrightarrow> fleet_run x cap (Goes i # evs) s = fleet_run x cap evs t"
  by (simp add: fleet_do_def)

lemma unlocking_returns:
  assumes "fl_pc s i = Unlocking out" "ml_Unlock (x i) = None"
  shows "\<exists>t. fleet_run x cap (replicate 2 (Goes i)) s = Some t \<and> fl_pc t i = Returned out \<and> fl_owner t = None"
proof -
  obtain t u where "replica_step x cap i s = Some t" "fl_owner t = None" "replica_step x cap i t = Some u" "fl_pc u i = Returned out" "fl_owner u = fl_owner t"
    using replica_step_moves(3, 4) assms by metis
  then show ?thesis
    by (simp add: numeral_2_eq_2 fleet_do_def)
qed

text \<open>Once it has the lock and a second connection to be had, a replica returns by its own moves, whatever the migrators do, and gives the lock back.\<close>

theorem holder_returns:
  assumes "fl_pc s i = Locked" "2 \<le> cap i" "ml_Unlock (x i) = None"
  shows "\<exists>n t out. fleet_run x cap (replicate n (Goes i)) s = Some t \<and> fl_pc t i = Returned out \<and> fl_owner t = None"
proof -
  obtain t where t: "replica_step x cap i s = Some t" "(\<exists>steps. fl_pc t i = AppDone steps) \<or> (\<exists>out. fl_pc t i = Unlocking out)"
    using replica_step_moves(1) [of s i cap x] assms by auto
  then consider out where "fl_pc t i = Unlocking out" | u out where "replica_step x cap i t = Some u" "fl_pc u i = Unlocking out"
    using replica_step_moves(2) assms(2) by metis
  then show ?thesis
  proof cases
    case 1
    then show ?thesis
      using unlocking_returns [of t i out x cap] assms(3) fleet_run_Goes [OF t(1)] by (metis replicate_Suc)
  next
    case (2 u out)
    then show ?thesis
      using unlocking_returns [of u i out x cap] assms(3) fleet_run_Goes [OF t(1)] fleet_run_Goes [of x cap i t u] by (metis replicate_Suc)
  qed
qed

text \<open>With one connection the holder waits for a second one that is never free, and everyone who has a connection waits for the holder.\<close>

theorem one_connection_stuck:
  assumes "fl_pc s i = Locked" "fl_owner s = Some i" "ml_NewProvider (x i) = None" "cap i = 1"
  shows "replica_step x cap i s = None" "fl_pc s j = Connected \<Longrightarrow> ml_Lock (x j) = None \<Longrightarrow> replica_step x cap j s = None"
  using assms by (simp_all add: replica_step_def)

text \<open>The configuration accepts such a pool.\<close>

lemma one_connection_accepted: "Validate (session_config\<lparr>cf_Database := cf_Database session_config\<lparr>dbc_MaxConns := 1\<rparr>\<rparr>) = []"
  by code_simp

section \<open>What the command shows\<close>

text \<open>A river failure leaves the application schema migrated, and the command does not name a step of it.\<close>

theorem applied_steps_unnamed:
  assumes "flag_Parse (ce_flags env) [] args = Inr (vals, [])" "openSession (ce_session env) False = Inr st" "ready x"
    and "migrateApp x modeUp app = (Inr steps, app')" "migrateRiver x river = (Inl e, river')"
  shows "cmdMigrate env x args (app, river) = (([], Some (MigrateFailed (RiverSchema e))), app', river')"
  using assms by (simp add: cmdMigrate_def MigrateUp_def withMigrationLock_def ready_def up_work_def)

theorem cmdMigrate_reads:
  assumes "flag_Parse (ce_flags env) [] args = Inr (vals, action # rest)" "action \<noteq> ''up''" "action \<noteq> ''down''"
  shows "snd (cmdMigrate env x args db) = db"
  using assms by (auto simp: cmdMigrate_def split: sum.splits)

section \<open>The pool\<close>

theorem db_Open_Inr:
  assumes "db_Open y cfg = Inr p"
  shows "pc_MaxConns p = dbc_MaxConns (cf_Database cfg) \<and> pl_Ping y (dbc_ConnectTimeout (cf_Database cfg)) = None \<and>
    (\<exists>name. map_of (pc_RuntimeParams p) ''application_name'' = Some name)"
  using assms by (auto simp: db_Open_def pool_settings_def Let_def update_conv')

section \<open>Two replicas\<close>

text \<open>Migrators that know two application versions and one of river, and say what they did.\<close>

definition demo_up :: "nat \<Rightarrow> (goose_error option \<times> goose_result list) \<times> nat" where
  "demo_up app = ((None, map (\<lambda>v. \<lparr>gr_Version = v, gr_Path = ''m'', gr_Duration = ''1ms''\<rparr>) (filter (\<lambda>v. app < v) [1, 2])), max app 2)"

definition demo_migrators :: "(nat, nat) migrate_lib" where
  "demo_migrators = \<lparr>ml_NewProvider = None, ml_Up = demo_up, ml_Down = (\<lambda>app. ((None, None), app - 1)), ml_Status = (\<lambda>_. Inr []), ml_NewRiver = None,
     ml_Migrate = (\<lambda>river. (Inr (if river = 0 then [(1, ''jobs'')] else []), 1)), ml_Acquire = None, ml_Lock = None, ml_Unlock = None\<rparr>"

text \<open>Both connect, replica 1 gets the lock and returns while replica 0 waits, then replica 0 gets it.\<close>

definition demo_race :: "fleet_event list" where
  "demo_race = [Goes 0, Goes 1, Goes 1, Goes 1, Goes 1, Goes 1, Goes 0, Goes 0, Goes 1, Goes 0, Goes 0, Goes 0]"

abbreviation race :: "fleet_event list \<Rightarrow> (nat, nat) fleet option" where
  "race evs \<equiv> fleet_run (\<lambda>_. demo_migrators) (\<lambda>_. 10) evs (fleet_start (0, 0))"

lemma lost_session_races:
  "map_option (\<lambda>s. (holding (fl_pc s 0), holding (fl_pc s 1))) (race [Goes 0, Goes 0, Loses, Goes 1, Goes 1]) = Some (True, True)"
  by code_simp

text \<open>
  C17: however replicas that migrate at once interleave, and whichever of them die on the way, the schemas are what the runs leave one after the other in
  the order in which they got the lock, each in at most once, at most one inside at a time; and a replica that returned reports what
  \<^verbatim>\<open>MigrateUp\<close> returns, run alone on what the earlier ones left (or was refused before the lock). It takes that no replica outlives the session its
  lock is on.
\<close>

theorem migrations_serialize:
  assumes "fleet_run x cap evs (fleet_start db) = Some s" and "Loses \<notin> set evs"
  shows "fl_db s = replay_runs x db (fl_log s) \<and> distinct (map fst (fl_log s)) \<and>
    (fl_pc s i = Returned out \<longrightarrow> answered x db i (fl_log s) out) \<and> (holding (fl_pc s i) \<longrightarrow> holding (fl_pc s j) \<longrightarrow> i = j)"
proof -
  have inv: "fleet_inv x db s"
    using inv_run [OF fleet_inv_start assms(2, 1)] .
  then have "run_ok x db (fl_log s) i (fl_pc s i)" and owner: "\<And>k. holding (fl_pc s k) \<Longrightarrow> fl_owner s = Some k"
    by (simp_all add: fleet_inv_def)
  then have "fl_pc s i = Returned out \<longrightarrow> answered x db i (fl_log s) out"
    by (auto simp: run_ok_def)
  moreover have "holding (fl_pc s i) \<longrightarrow> holding (fl_pc s j) \<longrightarrow> i = j"
    using owner by (metis option.inject)
  ultimately show ?thesis
    using inv by (simp add: fleet_inv_def)
qed

theorem migrations_serialize_witness:
  "\<exists>s. race demo_race = Some s \<and> Loses \<notin> set demo_race \<and> fl_log s = [(0, 2), (1, 2)] \<and> fl_db s = (2, 1) \<and>
     fl_pc s 0 = Returned (no_steps, None) \<and> answered (\<lambda>_. demo_migrators) (0, 0) 0 (fl_log s) (no_steps, None) \<and>
     (\<exists>out. fl_pc s 1 = Returned out \<and> \<not> MigrateResult_Empty (fst out))"
proof -
  have ends: "map_option (\<lambda>s. (fl_log s, fl_db s, fl_pc s 0,
      case fl_pc s 1 of Returned out \<Rightarrow> \<not> MigrateResult_Empty (fst out) | _ \<Rightarrow> False)) (race demo_race) = Some ([(0, 2), (1, 2)], (2, 1), Returned (no_steps, None), True)"
    by code_simp
  then obtain s where s: "race demo_race = Some s" "fl_log s = [(0, 2), (1, 2)]" "fl_db s = (2, 1)" "fl_pc s 0 = Returned (no_steps, None)"
    "case fl_pc s 1 of Returned out \<Rightarrow> \<not> MigrateResult_Empty (fst out) | _ \<Rightarrow> False"
    by auto
  have no_loss: "Loses \<notin> set demo_race"
    by (simp add: demo_race_def)
  show ?thesis
    using s no_loss migrations_serialize [OF s(1) no_loss, of 0 "(no_steps, None)"] by (auto split: run_pc.splits)
qed

end
