(* ===== verification/Obs.thy ===== *)
theory Obs
  imports Configuration Fallible
begin

text \<open>
  Logging and tracing (\<^verbatim>\<open>src/internal/obs/obs.go\<close>): the handlers a record goes through, what \<^verbatim>\<open>Setup\<close> builds from the configuration, and
  \<^verbatim>\<open>Shutdown\<close>. The exporters of OpenTelemetry, the host name, the build information and what becomes of a record that was handed over are
  parameters.
\<close>

section \<open>Levels and versions\<close>

definition LevelDebug :: int where "LevelDebug = - 4"
definition LevelInfo :: int where "LevelInfo = 0"
definition LevelWarn :: int where "LevelWarn = 4"
definition LevelError :: int where "LevelError = 8"

definition ParseLevel :: "(string \<Rightarrow> string) \<Rightarrow> string \<Rightarrow> int" where
  "ParseLevel u name =
     (let l = to_lower u name in
      if l = ''debug'' then LevelDebug
      else if l = ''warn'' \<or> l = ''warning'' then LevelWarn
      else if l = ''error'' then LevelError
      else LevelInfo)"

text \<open>\<^verbatim>\<open>debug.BuildInfo\<close>: the version of the main module and the settings of the build.\<close>

record build_info =
  bi_Version :: string
  bi_Settings :: "(string \<times> string) list"

definition resolveVersion :: "string \<Rightarrow> build_info option \<Rightarrow> string" where
  "resolveVersion version info =
     (if version \<noteq> [] then version
      else case info of
        None \<Rightarrow> []
      | Some b \<Rightarrow>
          if bi_Version b \<noteq> [] \<and> bi_Version b \<noteq> ''(devel)'' then bi_Version b
          else (case find (\<lambda>(k, v). k = ''vcs.revision'' \<and> v \<noteq> []) (bi_Settings b) of
                  Some (_, v) \<Rightarrow> take 12 v
                | None \<Rightarrow> []))"

text \<open>\<^verbatim>\<open>versionString\<close> of the command \<^verbatim>\<open>version\<close>.\<close>

definition versionString :: "string \<Rightarrow> string" where
  "versionString version = (if version \<noteq> [] then version else ''(devel)'')"

section \<open>Handlers\<close>

text \<open>
  A handler of \<^verbatim>\<open>slog\<close> or of the bridge to OpenTelemetry, with the attributes and groups put on it in their order, or a \<^verbatim>\<open>fanout\<close>.
\<close>

datatype sink = TextHandler int | JSONHandler int | OtelHandler string

datatype scope = WithAttr string string | InGroup string

datatype handler = Leaf sink "scope list" | Fanout "handler list"

record log_record =
  lr_Level :: int
  lr_Message :: string
  lr_Attrs :: "(string \<times> string) list"

record handler_lib =
  hl_Enabled :: "string \<Rightarrow> int \<Rightarrow> bool"
  hl_Handle :: "sink \<Rightarrow> scope list \<Rightarrow> log_record \<Rightarrow> string option"

definition sink_enabled :: "handler_lib \<Rightarrow> sink \<Rightarrow> int \<Rightarrow> bool" where
  "sink_enabled x k lvl = (case k of TextHandler l \<Rightarrow> l \<le> lvl | JSONHandler l \<Rightarrow> l \<le> lvl | OtelHandler name \<Rightarrow> hl_Enabled x name lvl)"

definition newFanout :: "handler list \<Rightarrow> handler" where
  "newFanout handlers = (if length handlers = 1 then handlers ! 0 else Fanout handlers)"

fun Enabled :: "handler_lib \<Rightarrow> handler \<Rightarrow> int \<Rightarrow> bool" where
  "Enabled x (Leaf k sc) lvl = sink_enabled x k lvl"
| "Enabled x (Fanout hs) lvl = list_ex (\<lambda>h. Enabled x h lvl) hs"

text \<open>
  What a handler hands over, in order, and the errors joined: a leaf takes what it is given, whatever its level, and the fan-out asks before each of its
  handlers.
\<close>

fun Handle :: "handler_lib \<Rightarrow> handler \<Rightarrow> log_record \<Rightarrow> (sink \<times> scope list) list \<times> string list" where
  "Handle x (Leaf k sc) r = ([(k, sc)], case hl_Handle x k sc r of None \<Rightarrow> [] | Some e \<Rightarrow> [e])"
| "Handle x (Fanout hs) r =
     foldl (\<lambda>(out, errs) (enabled, out', errs'). if enabled then (out @ out', errs @ errs') else (out, errs))
       ([], []) (map (\<lambda>h. (Enabled x h (lr_Level r), Handle x h r)) hs)"

fun WithAttrs :: "handler \<Rightarrow> (string \<times> string) list \<Rightarrow> handler" where
  "WithAttrs (Leaf k sc) attrs = Leaf k (sc @ map (\<lambda>(a, v). WithAttr a v) attrs)"
| "WithAttrs (Fanout hs) attrs = Fanout (map (\<lambda>h. WithAttrs h attrs) hs)"

fun WithGroup :: "handler \<Rightarrow> string \<Rightarrow> handler" where
  "WithGroup (Leaf k sc) name = Leaf k (sc @ [InGroup name])"
| "WithGroup (Fanout hs) name = (if name = [] then Fanout hs else Fanout (map (\<lambda>h. WithGroup h name) hs))"

text \<open>A call of the logger: \<^verbatim>\<open>slog\<close> asks the handler first.\<close>

definition logged :: "handler_lib \<Rightarrow> handler \<Rightarrow> log_record \<Rightarrow> (sink \<times> scope list) list \<times> string list" where
  "logged x h r = (if Enabled x h (lr_Level r) then Handle x h r else ([], []))"

section \<open>Set-up\<close>

datatype pipeline = LogPipeline | TracePipeline

datatype shutdown_error = Canceled | ShutdownFailed string

record exporter_opts =
  eo_EndpointURL :: string
  eo_Timeout :: int
  eo_Headers :: "(string \<times> string) list"

text \<open>\<open>'res\<close> is the merged resource. \<open>ol_Shutdown\<close> flushes and stops a pipeline.\<close>

record 'res obs_lib =
  ol_lower :: "string \<Rightarrow> string"
  ol_Version :: string
  ol_BuildInfo :: "build_info option"
  ol_Hostname :: "string option"
  ol_Merge :: "(string \<times> string) list \<Rightarrow> (string, 'res) result"
  ol_LogExporter :: "exporter_opts \<Rightarrow> string option"
  ol_TraceExporter :: "exporter_opts \<Rightarrow> string option"
  ol_Shutdown :: "pipeline \<Rightarrow> shutdown_error option"

datatype obs_error = NoResource string | NoLogExporter string | NoTraceExporter string

datatype tracer = NoopTracer | Tracer string rat

record Telemetry =
  te_Logger :: handler
  te_Tracer :: tracer
  te_shutdowns :: "pipeline list"
  te_once :: bool

text \<open>What the process shares: the pipelines that run, the default logger, the tracer provider of OpenTelemetry and whether the propagators are set.\<close>

record obs_globals =
  og_running :: "pipeline list"
  og_default :: "handler option"
  og_tracer :: tracer
  og_propagators :: bool

definition resource_attrs :: "'res obs_lib \<Rightarrow> Service_Config \<Rightarrow> (string \<times> string) list" where
  "resource_attrs x cfg =
     [(''service.name'', cf_ServiceName cfg), (''deployment.environment.name'', cf_Env cfg)] @
     (let v = resolveVersion (ol_Version x) (ol_BuildInfo x) in if v \<noteq> [] then [(''service.version'', v)] else []) @
     (case ol_Hostname x of Some host \<Rightarrow> if host \<noteq> [] then [(''host.name'', host)] else [] | None \<Rightarrow> [])"

definition buildResource :: "'res obs_lib \<Rightarrow> Service_Config \<Rightarrow> (string, 'res) result" where
  "buildResource x cfg = ol_Merge x (resource_attrs x cfg)"

definition exporter_options :: "Service_Config \<Rightarrow> string \<Rightarrow> exporter_opts" where
  "exporter_options cfg path =
     \<lparr>eo_EndpointURL = obc_OTLPEndpoint (cf_Obs cfg) @ path, eo_Timeout = obc_OTLPTimeout (cf_Obs cfg), eo_Headers = obc_OTLPHeaders (cf_Obs cfg)\<rparr>"

definition newLogProvider :: "'res obs_lib \<Rightarrow> Service_Config \<Rightarrow> string option" where
  "newLogProvider x cfg = ol_LogExporter x (exporter_options cfg ''/v1/logs'')"

definition newTraceProvider :: "'res obs_lib \<Rightarrow> Service_Config \<Rightarrow> string option" where
  "newTraceProvider x cfg = ol_TraceExporter x (exporter_options cfg ''/v1/traces'')"

definition stdoutHandler :: "'res obs_lib \<Rightarrow> Service_Config \<Rightarrow> handler" where
  "stdoutHandler x cfg =
     (let l = ParseLevel (ol_lower x) (obc_LogLevel (cf_Obs cfg))
      in if obc_LogFormat (cf_Obs cfg) = ''text'' then Leaf (TextHandler l) [] else Leaf (JSONHandler l) [])"

definition finish_setup :: "Service_Config \<Rightarrow> handler list \<Rightarrow> tracer \<Rightarrow> pipeline list \<Rightarrow> obs_globals \<Rightarrow> (obs_error, Telemetry) result \<times> obs_globals" where
  "finish_setup cfg handlers tracer shutdowns g =
     (let logger = WithAttrs (newFanout handlers) [(''service'', cf_ServiceName cfg), (''env'', cf_Env cfg)]
      in (Inr \<lparr>te_Logger = logger, te_Tracer = tracer, te_shutdowns = shutdowns, te_once = False\<rparr>, g\<lparr>og_default := Some logger, og_propagators := True\<rparr>))"

definition obs_Setup :: "'res obs_lib \<Rightarrow> Service_Config \<Rightarrow> obs_globals \<Rightarrow> (obs_error, Telemetry) result \<times> obs_globals" where
  "obs_Setup x cfg g =
     (case buildResource x cfg of
        Inl e \<Rightarrow> (Inl (NoResource e), g)
      | Inr _ \<Rightarrow>
          if obc_OTLPEndpoint (cf_Obs cfg) = [] then finish_setup cfg [stdoutHandler x cfg] NoopTracer [] g
          else case newLogProvider x cfg of
            Some e \<Rightarrow> (Inl (NoLogExporter e), g)
          | None \<Rightarrow>
              (let g1 = g\<lparr>og_running := og_running g @ [LogPipeline]\<rparr>;
                   handlers = [stdoutHandler x cfg, Leaf (OtelHandler (cf_ServiceName cfg)) []]
               in if \<not> obc_TracesEnabled (cf_Obs cfg) then finish_setup cfg handlers NoopTracer [LogPipeline] g1
                  else case newTraceProvider x cfg of
                    Some e \<Rightarrow> (Inl (NoTraceExporter e), g1)
                  | None \<Rightarrow>
                      let tracer = Tracer (cf_ServiceName cfg) (obc_TracesSampling (cf_Obs cfg))
                      in finish_setup cfg handlers tracer [LogPipeline, TracePipeline]
                           (g1\<lparr>og_running := og_running g1 @ [TracePipeline], og_tracer := tracer\<rparr>)))"

text \<open>\<^verbatim>\<open>Shutdown\<close>, with the pipelines in the order they were stopped. A pipeline that was told to stop has stopped, whatever it returned.\<close>

definition stop_all :: "'res obs_lib \<Rightarrow> pipeline list \<Rightarrow> obs_globals \<Rightarrow> obs_globals" where
  "stop_all x ps g = foldl (\<lambda>g p. g\<lparr>og_running := remove1 p (og_running g)\<rparr>) g ps"

definition shutdown_errors :: "'res obs_lib \<Rightarrow> pipeline list \<Rightarrow> string list" where
  "shutdown_errors x ps = concat (map (\<lambda>p. case ol_Shutdown x p of Some (ShutdownFailed e) \<Rightarrow> [e] | _ \<Rightarrow> []) ps)"

definition obs_Shutdown :: "'res obs_lib \<Rightarrow> Telemetry \<Rightarrow> obs_globals \<Rightarrow> (pipeline list \<times> string list) \<times> Telemetry \<times> obs_globals" where
  "obs_Shutdown x p g =
     (if te_once p then (([], []), p, g)
      else let ps = rev (te_shutdowns p) in ((ps, shutdown_errors x ps), p\<lparr>te_once := True\<rparr>, stop_all x ps g))"

section \<open>Where a record goes\<close>

text \<open>The sinks of a handler, with their scopes.\<close>

fun leaves :: "handler \<Rightarrow> (sink \<times> scope list) list" where
  "leaves (Leaf k sc) = [(k, sc)]"
| "leaves (Fanout hs) = concat (map leaves hs)"

lemma Enabled_leaves: "Enabled x h lvl \<longleftrightarrow> list_ex (\<lambda>(k, _). sink_enabled x k lvl) (leaves h)"
  by (induction h) (auto simp: list_ex_iff)

lemma fanout_steps:
  "foldl (\<lambda>(out, errs) (enabled, out', errs'). if enabled then (out @ out', errs @ errs') else (out, errs)) (out, errs) rs =
     (out @ concat (map (fst \<circ> snd) (filter fst rs)), errs @ concat (map (snd \<circ> snd) (filter fst rs)))"
  by (induction rs arbitrary: out errs) auto

definition enabled_leaves :: "handler_lib \<Rightarrow> handler \<Rightarrow> int \<Rightarrow> (sink \<times> scope list) list" where
  "enabled_leaves x h lvl = filter (\<lambda>(k, _). sink_enabled x k lvl) (leaves h)"

definition leaf_errors :: "handler_lib \<Rightarrow> log_record \<Rightarrow> (sink \<times> scope list) list \<Rightarrow> string list" where
  "leaf_errors x r ls = concat (map (\<lambda>(k, sc). case hl_Handle x k sc r of None \<Rightarrow> [] | Some e \<Rightarrow> [e]) ls)"

lemma not_Enabled: "\<not> Enabled x h lvl \<Longrightarrow> enabled_leaves x h lvl = []"
  by (auto simp: Enabled_leaves list_ex_iff enabled_leaves_def filter_empty_conv)

lemma Handle_enabled:
  "Enabled x h (lr_Level r) \<Longrightarrow> Handle x h r = (enabled_leaves x h (lr_Level r), leaf_errors x r (enabled_leaves x h (lr_Level r)))"
proof (induction h)
  case (Fanout hs)
  have "concat (map (fst \<circ> snd) (filter fst (map (\<lambda>h. (Enabled x h (lr_Level r), Handle x h r)) hs))) = enabled_leaves x (Fanout hs) (lr_Level r)"
    using Fanout.IH by (induction hs) (auto simp: enabled_leaves_def [of _ "Fanout _"] simp flip: enabled_leaves_def dest: not_Enabled)
  moreover have "concat (map (snd \<circ> snd) (filter fst (map (\<lambda>h. (Enabled x h (lr_Level r), Handle x h r)) hs))) =
      leaf_errors x r (enabled_leaves x (Fanout hs) (lr_Level r))"
    using Fanout.IH
    by (induction hs) (auto simp: enabled_leaves_def [of _ "Fanout _"] leaf_errors_def simp flip: enabled_leaves_def dest: not_Enabled)
  ultimately show ?case
    by (simp add: fanout_steps)
qed (simp add: enabled_leaves_def leaf_errors_def)

lemma logged_leaves: "logged x h r = (enabled_leaves x h (lr_Level r), leaf_errors x r (enabled_leaves x h (lr_Level r)))"
  by (simp add: logged_def Handle_enabled not_Enabled leaf_errors_def)

lemma leaves_WithAttrs: "leaves (WithAttrs h attrs) = map (\<lambda>(k, sc). (k, sc @ map (\<lambda>(a, v). WithAttr a v) attrs)) (leaves h)"
  by (induction h) (auto simp: map_concat intro!: arg_cong [where f = concat])

lemma leaves_WithGroup: "name \<noteq> [] \<Longrightarrow> leaves (WithGroup h name) = map (\<lambda>(k, sc). (k, sc @ [InGroup name])) (leaves h)"
  by (induction h) (auto simp: map_concat intro!: arg_cong [where f = concat])

lemma leaves_newFanout: "leaves (newFanout hs) = concat (map leaves hs)"
  by (auto simp: newFanout_def length_Suc_conv)

section \<open>Starting and stopping\<close>

definition own_sink :: "'res obs_lib \<Rightarrow> Service_Config \<Rightarrow> sink" where
  "own_sink x cfg = (case stdoutHandler x cfg of Leaf k _ \<Rightarrow> k | Fanout _ \<Rightarrow> JSONHandler LevelInfo)"

lemma stdoutHandler_leaf: "stdoutHandler x cfg = Leaf (own_sink x cfg) []"
  by (simp add: own_sink_def stdoutHandler_def Let_def)

lemma own_sink_enabled: "sink_enabled y (own_sink x cfg) lvl \<longleftrightarrow> ParseLevel (ol_lower x) (obc_LogLevel (cf_Obs cfg)) \<le> lvl"
  by (simp add: own_sink_def stdoutHandler_def sink_enabled_def Let_def)

lemma obs_Setup_Inr:
  assumes "obs_Setup x cfg g = (Inr p, g')"
  shows "leaves (te_Logger p) = map (\<lambda>k. (k, [WithAttr ''service'' (cf_ServiceName cfg), WithAttr ''env'' (cf_Env cfg)]))
      (own_sink x cfg # (if obc_OTLPEndpoint (cf_Obs cfg) = [] then [] else [OtelHandler (cf_ServiceName cfg)]))"
    "og_default g' = Some (te_Logger p)" "og_running g' = og_running g @ te_shutdowns p" "distinct (te_shutdowns p)" "\<not> te_once p"
  using assms by (auto simp: obs_Setup_def finish_setup_def leaves_WithAttrs leaves_newFanout stdoutHandler_leaf Let_def split: sum.splits if_splits option.splits)

lemma obs_Setup_Inl:
  assumes "obs_Setup x cfg g = (Inl e, g')"
  shows "og_running g' = og_running g @ (case e of NoTraceExporter _ \<Rightarrow> [LogPipeline] | _ \<Rightarrow> [])" "og_default g' = og_default g"
  using assms by (auto simp: obs_Setup_def finish_setup_def Let_def split: sum.splits if_splits option.splits)

lemma remove1_last: "p \<notin> set xs \<Longrightarrow> remove1 p (xs @ [p]) = xs"
  by (simp add: remove1_append)

lemma stop_all_running: "og_running (stop_all x ps g) = foldl (\<lambda>run p. remove1 p run) (og_running g) ps"
  unfolding stop_all_def by (induction ps arbitrary: g) auto

lemma foldl_remove1:
  "distinct ps \<Longrightarrow> set run \<inter> set ps = {} \<Longrightarrow> foldl (\<lambda>run p. remove1 p run) (run @ ps) (rev ps) = run"
  by (induction ps rule: rev_induct) (auto simp: remove1_append)

lemma shutdown_stops:
  assumes "og_running g = run @ te_shutdowns p" "distinct (te_shutdowns p)" "set run \<inter> set (te_shutdowns p) = {}" "\<not> te_once p"
    and "obs_Shutdown x p g = (out, p', g')"
  shows "og_running g' = run" "obs_Shutdown x p' g' = (([], []), p', g')"
  using assms by (auto simp: obs_Shutdown_def Let_def stop_all_running foldl_remove1)

text \<open>A level name outside the documented four is accepted here, and refused before by the configuration.\<close>

lemma warning_never_configured:
  "ParseLevel u ''warning'' = LevelWarn" "obc_LogLevel (cf_Obs c) = ''warning'' \<Longrightarrow> Validate c \<noteq> []"
proof -
  show "ParseLevel u ''warning'' = LevelWarn"
    by code_simp
  show "Validate c \<noteq> []" if "obc_LogLevel (cf_Obs c) = ''warning''"
    using that by (simp add: Validate_def check_def Let_def)
qed

text \<open>
  A record reaches the process's own stream exactly when the configured level lets it, and the collector exactly when there is one and its bridge
  takes the level; each gets it once, under the name and the environment of the service, and the failure of one keeps nothing from the other.
\<close>

theorem logs_reach_every_pipeline:
  assumes "obs_Setup x cfg g = (Inr p, g')"
  shows "logged y (te_Logger p) r =
    (let marks = [WithAttr ''service'' (cf_ServiceName cfg), WithAttr ''env'' (cf_Env cfg)];
         own = (if ParseLevel (ol_lower x) (obc_LogLevel (cf_Obs cfg)) \<le> lr_Level r then [(own_sink x cfg, marks)] else []);
         otlp = (if obc_OTLPEndpoint (cf_Obs cfg) \<noteq> [] \<and> hl_Enabled y (cf_ServiceName cfg) (lr_Level r) then [(OtelHandler (cf_ServiceName cfg), marks)] else [])
     in (own @ otlp, leaf_errors y r own @ leaf_errors y r otlp))"
  using obs_Setup_Inr(1) [OF assms]
  by (simp add: logged_leaves enabled_leaves_def own_sink_enabled sink_enabled_def [of _ "OtelHandler _"] leaf_errors_def Let_def)

section \<open>An example\<close>

definition demo_obs :: "unit obs_lib" where
  "demo_obs = \<lparr>ol_lower = (\<lambda>s. s), ol_Version = [], ol_BuildInfo = Some \<lparr>bi_Version = ''(devel)'', bi_Settings = [(''vcs.revision'', ''0123456789abcdef'')]\<rparr>,
     ol_Hostname = Some ''host'', ol_Merge = (\<lambda>_. Inr ()), ol_LogExporter = (\<lambda>_. None), ol_TraceExporter = (\<lambda>_. None), ol_Shutdown = (\<lambda>_. Some Canceled)\<rparr>"

definition demo_handlers :: handler_lib where
  "demo_handlers = \<lparr>hl_Enabled = (\<lambda>_ _. True), hl_Handle = (\<lambda>k _ _. case k of OtelHandler _ \<Rightarrow> Some ''collector down'' | _ \<Rightarrow> None)\<rparr>"

definition exporting :: Service_Config where
  "exporting = default_Config\<lparr>cf_Obs := default_Obs\<lparr>obc_OTLPEndpoint := ''http://collector:4318''\<rparr>\<rparr>"

definition nothing_running :: obs_globals where
  "nothing_running = \<lparr>og_running = [], og_default = None, og_tracer = NoopTracer, og_propagators = False\<rparr>"

lemma demo_revision: "resolveVersion (ol_Version demo_obs) (ol_BuildInfo demo_obs) = ''0123456789ab''"
  by code_simp

text \<open>When the trace exporter cannot be built, the log pipeline already started is not stopped, and no one is left who could.\<close>

lemma trace_failure_leaks:
  "obs_Setup (demo_obs\<lparr>ol_TraceExporter := (\<lambda>_. Some ''bad'')\<rparr>) exporting nothing_running =
     (Inl (NoTraceExporter ''bad''), nothing_running\<lparr>og_running := [LogPipeline]\<rparr>)"
  by code_simp

end
