(* ===== verification/Session_Life.thy ===== *)
theory Session_Life
  imports Obs Migrations
begin

text \<open>
  The life of a command's session (\<^verbatim>\<open>openSession\<close> and \<^verbatim>\<open>session.Close\<close> of \<^verbatim>\<open>src/cmd/relais/main.go\<close>), with the telemetry and the pool it
  opens: what \<open>Cmd_Session\<close> leaves open as two outcomes is computed here from \<open>obs_Setup\<close> and \<open>db_Open\<close>, and everything opened is closed again.
\<close>

section \<open>Opening and closing\<close>

definition obs_text :: "obs_error \<Rightarrow> string" where
  "obs_text e = (case e of NoResource t \<Rightarrow> ''build otel resource: '' @ t | NoLogExporter t \<Rightarrow> ''otlp log exporter: '' @ t
     | NoTraceExporter t \<Rightarrow> ''otlp trace exporter: '' @ t)"

definition pool_text :: "pool_error \<Rightarrow> string" where
  "pool_text e = (case e of BadDSN t \<Rightarrow> ''parse database url: '' @ t | NoPool t \<Rightarrow> ''create pool: '' @ t | NoPing t \<Rightarrow> ''ping database: '' @ t)"

datatype closer = ShutTelemetry Telemetry | ClosePool

record cli_session =
  ss_cfg :: Service_Config
  ss_log :: handler
  ss_store :: "Store option"
  ss_closers :: "closer list"

text \<open>What is open in the process: the telemetry, and the pools by number.\<close>

record opened =
  op_obs :: obs_globals
  op_pools :: nat

definition run_closer :: "'res obs_lib \<Rightarrow> closer \<Rightarrow> opened \<Rightarrow> opened" where
  "run_closer x c o' =
     (case c of
        ShutTelemetry p \<Rightarrow> (case obs_Shutdown x p (op_obs o') of (_, _, g) \<Rightarrow> o'\<lparr>op_obs := g\<rparr>)
      | ClosePool \<Rightarrow> o'\<lparr>op_pools := op_pools o' - 1\<rparr>)"

definition session_Close :: "'res obs_lib \<Rightarrow> closer list \<Rightarrow> opened \<Rightarrow> opened" where
  "session_Close x closers o' = foldl (\<lambda>s c. run_closer x c s) o' (rev closers)"

text \<open>The key material and the store, last.\<close>

definition open_store :: "session_world \<Rightarrow> Service_Config \<Rightarrow> (session_error, Store) result" where
  "open_store w cfg =
     and_then (error_or (\<lambda>e. BadConfig [e]) (RequireKeyring cfg)) (\<lambda>_.
     and_then (error_or (\<lambda>e. BadConfig [e]) (RequirePepper cfg)) (\<lambda>_.
     and_then (map_err BadKeys (ParseKeyring (sec_EncryptionKeys (cf_Secrets cfg)) (sec_EncryptionActiveKey (cf_Secrets cfg)))) (\<lambda>keyring.
     and_then (map_err BadPepper (NewHasher (sec_CredentialPepper (cf_Secrets cfg)))) (\<lambda>hasher.
       Inr \<lparr>st_keyring = keyring, st_hasher = hasher, st_lib = sx_lib w\<rparr>))))"

definition open_session ::
    "'res obs_lib \<Rightarrow> pool_lib \<Rightarrow> session_world \<Rightarrow> bool \<Rightarrow> opened \<Rightarrow> (session_error, cli_session) result \<times> opened" where
  "open_session x y w needSecrets o0 =
     (case and_then (loadConfig w) (\<lambda>cfg. and_then (error_or (\<lambda>e. BadConfig [e]) (RequireDatabase cfg)) (\<lambda>_. Inr cfg)) of
        Inl e \<Rightarrow> (Inl e, o0)
      | Inr cfg \<Rightarrow>
          (case obs_Setup x cfg (op_obs o0) of
             (Inl e, g) \<Rightarrow> (Inl (BadTelemetry (obs_text e)), o0\<lparr>op_obs := g\<rparr>)
           | (Inr p, g) \<Rightarrow>
               (let o1 = o0\<lparr>op_obs := g\<rparr>; c1 = [ShutTelemetry p] in
                case db_Open y cfg of
                  Inl e \<Rightarrow> (Inl (BadDatabase (pool_text e)), session_Close x c1 o1)
                | Inr _ \<Rightarrow>
                    (let o2 = o1\<lparr>op_pools := op_pools o1 + 1\<rparr>; c2 = c1 @ [ClosePool];
                         opened_with = (\<lambda>st. \<lparr>ss_cfg = cfg, ss_log = te_Logger p, ss_store = st, ss_closers = c2\<rparr>) in
                     if \<not> needSecrets then (Inr (opened_with None), o2)
                     else case open_store w cfg of
                       Inl e \<Rightarrow> (Inl e, session_Close x c2 o2)
                     | Inr st \<Rightarrow> (Inr (opened_with (Some st)), o2)))))"

text \<open>The outcomes \<open>openSession\<close> takes for the telemetry and the pool.\<close>

definition setup_outcome :: "'res obs_lib \<Rightarrow> session_world \<Rightarrow> opened \<Rightarrow> string option" where
  "setup_outcome x w o0 =
     (case loadConfig w of Inl _ \<Rightarrow> None | Inr cfg \<Rightarrow> (case fst (obs_Setup x cfg (op_obs o0)) of Inl e \<Rightarrow> Some (obs_text e) | Inr _ \<Rightarrow> None))"

definition pool_outcome :: "pool_lib \<Rightarrow> session_world \<Rightarrow> string option" where
  "pool_outcome y w = (case loadConfig w of Inl _ \<Rightarrow> None | Inr cfg \<Rightarrow> (case db_Open y cfg of Inl e \<Rightarrow> Some (pool_text e) | Inr _ \<Rightarrow> None))"

lemma loadConfig_outcomes [simp]: "loadConfig (w\<lparr>sx_obs := a, sx_db := b\<rparr>) = loadConfig w"
  by (simp add: loadConfig_def)

lemma openSession_store:
  "openSession w needSecrets =
     and_then (loadConfig w) (\<lambda>cfg.
     and_then (error_or (\<lambda>e. BadConfig [e]) (RequireDatabase cfg)) (\<lambda>_.
     and_then (error_or BadTelemetry (sx_obs w)) (\<lambda>_.
     and_then (error_or BadDatabase (sx_db w)) (\<lambda>_.
       if \<not> needSecrets then Inr None else and_then (open_store w cfg) (\<lambda>st. Inr (Some st))))))"
  by (auto simp: openSession_def open_store_def and_then_def split: sum.splits)

lemma open_store_outcomes [simp]: "open_store (w\<lparr>sx_obs := a, sx_db := b\<rparr>) cfg = open_store w cfg"
  by (simp add: open_store_def)

theorem open_session_refines:
  "openSession (w\<lparr>sx_obs := setup_outcome x w o0, sx_db := pool_outcome y w\<rparr>) needSecrets =
     (case fst (open_session x y w needSecrets o0) of Inl e \<Rightarrow> Inl e | Inr s \<Rightarrow> Inr (ss_store s))"
proof (cases "loadConfig w")
  case (Inr cfg)
  obtain r g where s: "obs_Setup x cfg (op_obs o0) = (r, g)"
    by fastforce
  show ?thesis
  proof (cases "RequireDatabase cfg")
    case None
    with Inr s show ?thesis
      by (cases r; cases "db_Open y cfg"; cases "open_store w cfg")
        (simp_all add: openSession_store open_session_def setup_outcome_def pool_outcome_def)
  qed (use Inr in \<open>simp add: openSession_store open_session_def\<close>)
qed (simp add: openSession_store open_session_def)

section \<open>Nothing is left open\<close>

lemma close_telemetry:
  assumes "obs_Setup x cfg (op_obs o0) = (Inr p, g)" "og_running (op_obs o0) = []"
  shows "og_running (op_obs (session_Close x [ShutTelemetry p] (o1\<lparr>op_obs := g\<rparr>))) = []" "op_pools (session_Close x [ShutTelemetry p] o1) = op_pools o1"
  using obs_Setup_Inr [OF assms(1)] assms(2) shutdown_stops(1) [of g "[]" p x]
  by (simp_all add: session_Close_def run_closer_def split: prod.splits)

lemma close_pool_first: "session_Close x [c, ClosePool] o1 = session_Close x [c] (o1\<lparr>op_pools := op_pools o1 - 1\<rparr>)"
  by (simp add: session_Close_def run_closer_def)

lemma open_session_Inr:
  assumes "open_session x y w needSecrets o0 = (Inr s, o1)"
  obtains p g where "obs_Setup x (ss_cfg s) (op_obs o0) = (Inr p, g)" "o1 = o0\<lparr>op_obs := g, op_pools := op_pools o0 + 1\<rparr>"
    "ss_closers s = [ShutTelemetry p, ClosePool]" "ss_log s = te_Logger p"
  using assms by (auto simp: open_session_def Let_def split: sum.splits prod.splits if_splits)

definition demo_pool :: pool_lib where
  "demo_pool = \<lparr>pl_ParseConfig = (\<lambda>_. Inr \<lparr>pc_MaxConns = 4, pc_MinConns = 0, pc_MaxConnLifetime = 0, pc_MaxConnIdleTime = 0, pc_ConnectTimeout = 0,
     pc_DefaultQueryExecMode = CacheStatement, pc_RuntimeParams = []\<rparr>), pl_NewWithConfig = (\<lambda>_. None), pl_Ping = (\<lambda>_. Some ''refused'')\<rparr>"

definition exporting_session :: session_world where
  "exporting_session = demo_session\<lparr>sx_parse := (\<lambda>_. (session_config\<lparr>cf_Obs := cf_Obs exporting\<rparr>, None))\<rparr>"

definition fresh_process :: opened where
  "fresh_process = \<lparr>op_obs = nothing_running, op_pools = 0\<rparr>"



end
